(* ===== verification/Bragi_Prelude.thy ===== *)
theory Bragi_Prelude
  imports Main "HOL-Library.Word" "HOL-Library.Multiset" "HOL-Library.Monad_Syntax"
begin

text \<open>
  Shared vocabulary of the Bragi development.

  \<^item> Go's \<open>string\<close> is a byte sequence: HOL's \<open>string\<close>. The case functions of package
    \<open>strings\<close> (\<open>ToLower\<close>, \<open>EqualFold\<close>) are modelled on the ASCII range, which is where
    the format, codec, protocol and comparison names live that the code applies them to;
    bytes from 128 upwards are left alone.
  \<^item> Go's \<open>int\<close> is a 64 bit integer. Where the code only compares and stores values it is
    HOL's \<open>int\<close>; \<open>strconv.Atoi\<close> writes its 64 bit range check out.
  \<^item> \<open>float32\<close> values that the code only stores and passes on are their 32 bit pattern.
  \<^item> A fallible Go function returns \<open>error + 'a\<close>.
\<close>

type_synonym go_int = int
type_synonym float32 = "32 word"
type_synonym time_ns = int \<comment> \<open>a \<open>time.Time\<close>: nanoseconds since the Unix epoch\<close>

named_theorems bragi_defs \<open>definitions unfolded by the component proofs\<close>
named_theorems bragi_evals \<open>equations used to evaluate closed terms\<close>

section \<open>Characters and strings\<close>

definition byte :: "char \<Rightarrow> nat" where
  "byte c = of_char c"

definition is_digit :: "char \<Rightarrow> bool" where
  "is_digit c \<longleftrightarrow> 48 \<le> byte c \<and> byte c \<le> 57"

definition char_lower :: "char \<Rightarrow> char" where
  "char_lower c = (if 65 \<le> byte c \<and> byte c \<le> 90 then char_of (byte c + 32) else c)"

definition ToLower :: "string \<Rightarrow> string" where
  "ToLower s = map char_lower s"

definition EqualFold :: "string \<Rightarrow> string \<Rightarrow> bool" where
  "EqualFold a b \<longleftrightarrow> ToLower a = ToLower b"

definition HasPrefix :: "string \<Rightarrow> string \<Rightarrow> bool" where
  "HasPrefix s p \<longleftrightarrow> take (length p) s = p"

fun Join :: "string list \<Rightarrow> string \<Rightarrow> string" where
  "Join [] sep = []"
| "Join [x] sep = x"
| "Join (x # y # xs) sep = x @ sep @ Join (y # xs) sep"

lemma byte_less_256 [simp]: "byte c < 256"
  by (simp add: byte_def)

lemma char_lower_idem [simp]: "char_lower (char_lower c) = char_lower c"
  by (auto simp: char_lower_def byte_def)

lemma ToLower_idem [simp]: "ToLower (ToLower s) = ToLower s"
  by (simp add: ToLower_def)

lemma length_ToLower [simp]: "length (ToLower s) = length s"
  by (simp add: ToLower_def)

lemma ToLower_Nil_iff [simp]: "ToLower s = [] \<longleftrightarrow> s = []" "ToLower [] = []"
  by (simp_all add: ToLower_def)

lemma EqualFold_refl [simp]: "EqualFold s s"
  by (simp add: EqualFold_def)

lemma EqualFold_sym: "EqualFold a b \<Longrightarrow> EqualFold b a"
  by (simp add: EqualFold_def)

lemma EqualFold_trans: "EqualFold a b \<Longrightarrow> EqualFold b c \<Longrightarrow> EqualFold a c"
  by (simp add: EqualFold_def)

section \<open>strconv.Atoi\<close>

fun digits_value :: "int \<Rightarrow> string \<Rightarrow> int option" where
  "digits_value acc [] = Some acc"
| "digits_value acc (c # cs) =
     (if is_digit c then digits_value (10 * acc + (int (byte c) - 48)) cs else None)"

definition parse_digits :: "string \<Rightarrow> int option" where
  "parse_digits s = (if s = [] then None else digits_value 0 s)"

definition int64_min :: int where "int64_min = - (2 ^ 63)"
definition int64_max :: int where "int64_max = 2 ^ 63 - 1"

definition in_int64 :: "int \<Rightarrow> bool" where
  "in_int64 v \<longleftrightarrow> int64_min \<le> v \<and> v \<le> int64_max"

text \<open>An optional sign, at least one decimal digit, and a value in the range of \<open>int\<close>.\<close>

definition Atoi :: "string \<Rightarrow> go_int option" where
  "Atoi s =
     (let (neg, body) =
        (case s of
           [] \<Rightarrow> (False, [])
         | c # cs \<Rightarrow> if c = CHR ''-'' then (True, cs)
                     else if c = CHR ''+'' then (False, cs) else (False, s))
      in case parse_digits body of
           None \<Rightarrow> None
         | Some v \<Rightarrow> let w = (if neg then - v else v) in if in_int64 w then Some w else None)"

lemma digits_value_nonneg: "0 \<le> acc \<Longrightarrow> digits_value acc s = Some v \<Longrightarrow> acc \<le> v"
proof (induction acc s rule: digits_value.induct)
  case (2 acc c cs)
  from "2.prems" have d: "is_digit c" and rest: "digits_value (10 * acc + (int (byte c) - 48)) cs = Some v"
    by (auto split: if_splits)
  from d have "0 \<le> int (byte c) - 48" by (simp add: is_digit_def)
  with "2.prems"(1) have "acc \<le> 10 * acc + (int (byte c) - 48)" "0 \<le> 10 * acc + (int (byte c) - 48)"
    by simp_all
  with "2.IH" [OF d] rest show ?case by (meson order_trans)
qed simp

lemma Atoi_range: "Atoi s = Some v \<Longrightarrow> in_int64 v"
  by (auto simp: Atoi_def Let_def split: list.splits if_splits option.splits prod.splits)

text \<open>Decimal output, as \<open>%d\<close> and \<open>strconv.Itoa\<close> print an integer.\<close>

fun nat_digits :: "nat \<Rightarrow> string" where
  "nat_digits n = (if n < 10 then [char_of (48 + n)] else nat_digits (n div 10) @ [char_of (48 + n mod 10)])"

declare nat_digits.simps [simp del]

definition Itoa :: "int \<Rightarrow> string" where
  "Itoa i = (if i < 0 then CHR ''-'' # nat_digits (nat (- i)) else nat_digits (nat i))"

lemma byte_digit: "n < 10 \<Longrightarrow> byte (char_of (48 + n)) = 48 + n"
  by (simp add: byte_def)

lemma nat_digits_nonempty [simp]: "nat_digits n \<noteq> []"
  by (subst nat_digits.simps) simp

lemma nat_digits_all_digits: "c \<in> set (nat_digits n) \<Longrightarrow> is_digit c"
proof (induction n rule: nat_digits.induct)
  case (1 n)
  show ?case
  proof (cases "n < 10")
    case True
    with "1.prems" show ?thesis
      by (subst (asm) nat_digits.simps) (simp add: is_digit_def byte_digit)
  next
    case False
    with "1.prems" have "c \<in> set (nat_digits (n div 10)) \<or> c = char_of (48 + n mod 10)"
      by (subst (asm) nat_digits.simps) auto
    with "1.IH" [OF False] show ?thesis by (auto simp: is_digit_def byte_digit)
  qed
qed

lemma digits_value_append:
  "digits_value acc (s @ t) = (case digits_value acc s of None \<Rightarrow> None | Some v \<Rightarrow> digits_value v t)"
  by (induction acc s rule: digits_value.induct) auto

lemma digits_value_nat_digits: "digits_value 0 (nat_digits n) = Some (int n)"
proof (induction n rule: nat_digits.induct)
  case (1 n)
  show ?case
  proof (cases "n < 10")
    case True
    then show ?thesis by (subst nat_digits.simps) (simp add: is_digit_def byte_digit)
  next
    case False
    with "1.IH" have "digits_value 0 (nat_digits (n div 10)) = Some (int (n div 10))" by simp
    with False show ?thesis
      by (subst nat_digits.simps) (simp add: digits_value_append is_digit_def byte_digit, presburger)
  qed
qed

text \<open>Printing and parsing an integer agree on the whole range of \<open>int\<close>.\<close>

lemma Atoi_Itoa: "in_int64 i \<Longrightarrow> Atoi (Itoa i) = Some i"
proof (cases "i < 0")
  case True
  moreover assume "in_int64 i"
  ultimately show ?thesis
    by (simp add: Atoi_def Itoa_def parse_digits_def digits_value_nat_digits)
next
  case False
  assume "in_int64 i"
  obtain c cs where c: "nat_digits (nat i) = c # cs"
    by (cases "nat_digits (nat i)") auto
  then have "is_digit c" using nat_digits_all_digits [of c "nat i"] by simp
  then have "c \<noteq> CHR ''-''" "c \<noteq> CHR ''+''" by (auto simp: is_digit_def byte_def)
  with c False \<open>in_int64 i\<close> show ?thesis
    using digits_value_nat_digits [of "nat i"]
    by (simp add: Atoi_def Itoa_def parse_digits_def)
qed

lemma nat_digits_inject: "nat_digits m = nat_digits n \<longleftrightarrow> m = n"
  by (metis digits_value_nat_digits of_nat_eq_iff option.inject)

lemma Itoa_inject [simp]: "Itoa a = Itoa b \<longleftrightarrow> a = b"
proof -
  have "\<not> is_digit (CHR ''-'')" by (simp add: is_digit_def byte_def)
  then have minus: "CHR ''-'' # s \<noteq> nat_digits n" "nat_digits n \<noteq> CHR ''-'' # s" for n s
    using nat_digits_all_digits [of "CHR ''-''" n] by (metis list.set_intros(1))+
  show ?thesis by (auto simp: Itoa_def nat_digits_inject minus)
qed

lemma Itoa_chars: "c \<in> set (Itoa i) \<Longrightarrow> c = CHR ''-'' \<or> is_digit c"
  by (auto simp: Itoa_def dest: nat_digits_all_digits split: if_splits)

lemma Itoa_no_dot [simp]: "CHR ''.'' \<notin> set (Itoa i)"
  using Itoa_chars [of "CHR ''.''" i] by (auto simp: is_digit_def byte_def)

text \<open>A separator that the fields do not contain determines them, from the left and from the right.\<close>

lemma sep_left:
  "d \<notin> set x \<Longrightarrow> d \<notin> set y \<Longrightarrow> x @ d # u = y @ d # v \<longleftrightarrow> x = y \<and> u = v"
proof (induction x arbitrary: y)
  case Nil
  then show ?case by (cases y) auto
next
  case (Cons a x)
  then show ?case by (cases y) auto
qed

lemma sep_right:
  assumes "d \<notin> set x" "d \<notin> set y"
  shows "u @ d # x = v @ d # y \<longleftrightarrow> u = v \<and> x = y"
proof -
  have "u @ d # x = v @ d # y \<longleftrightarrow> rev (u @ d # x) = rev (v @ d # y)" by (simp only: rev_is_rev_conv)
  then have "u @ d # x = v @ d # y \<longleftrightarrow> rev x @ d # rev u = rev y @ d # rev v" by simp
  then show ?thesis using sep_left [of d "rev x" "rev y"] assms by auto
qed

section \<open>Machine integers\<close>

text \<open>
  The result of an \<open>int\<close> operation that may leave the 64 bit range, the conversion \<open>int32(v)\<close>, and
  Go's division, which truncates towards zero.
\<close>

definition wrap64 :: "int \<Rightarrow> go_int" where
  "wrap64 x = signed_take_bit 63 x"

definition int32_of :: "go_int \<Rightarrow> go_int" where
  "int32_of v = signed_take_bit 31 v"

definition go_quot :: "int \<Rightarrow> int \<Rightarrow> int" where
  "go_quot a b = sgn a * sgn b * (\<bar>a\<bar> div \<bar>b\<bar>)"

lemma wrap64_id: "- (2 ^ 63) \<le> x \<Longrightarrow> x < 2 ^ 63 \<Longrightarrow> wrap64 x = x"
  by (simp add: wrap64_def signed_take_bit_int_eq_self)

lemma wrap64_range: "in_int64 (wrap64 x)"
  using signed_take_bit_int_less_exp [of 63 x] signed_take_bit_int_greater_eq_minus_exp [of 63 x]
  by (simp add: wrap64_def in_int64_def int64_min_def int64_max_def)

section \<open>Fallible results\<close>

definition bind_result :: "'e + 'a \<Rightarrow> ('a \<Rightarrow> 'e + 'b) \<Rightarrow> 'e + 'b" where
  "bind_result m f = (case m of Inl e \<Rightarrow> Inl e | Inr a \<Rightarrow> f a)"

lemma bind_result_simps [simp]:
  "bind_result (Inl e) f = Inl e"
  "bind_result (Inr a) f = f a"
  by (simp_all add: bind_result_def)

lemma bind_result_Inr:
  "bind_result m f = Inr b \<longleftrightarrow> (\<exists>a. m = Inr a \<and> f a = Inr b)"
  by (cases m) auto

section \<open>Lists\<close>

text \<open>\<open>list[:i] ++ list[i+1:]\<close>, Go's idiom for removing one element.\<close>

definition remove_at :: "nat \<Rightarrow> 'a list \<Rightarrow> 'a list" where
  "remove_at i xs = take i xs @ drop (Suc i) xs"

lemma length_remove_at [simp]: "i < length xs \<Longrightarrow> length (remove_at i xs) = length xs - 1"
  by (simp add: remove_at_def)

lemma mset_remove_at: "i < length xs \<Longrightarrow> add_mset (xs ! i) (mset (remove_at i xs)) = mset xs"
proof -
  assume i: "i < length xs"
  have "mset xs = mset (take i xs @ xs ! i # drop (Suc i) xs)"
    using i by (simp add: id_take_nth_drop [symmetric])
  then show ?thesis by (simp add: remove_at_def)
qed

lemma remove_at_middle: "remove_at (length us) (us @ x # vs) = us @ vs"
  by (simp add: remove_at_def)

lemma restore_at: "i < length xs \<Longrightarrow> take i (remove_at i xs) @ xs ! i # drop i (remove_at i xs) = xs"
  by (simp add: remove_at_def id_take_nth_drop [symmetric])

lemma set_remove_at_distinct:
  assumes "distinct xs" "i < length xs"
  shows "set (remove_at i xs) = set xs - {xs ! i}"
proof -
  have "distinct (take i xs @ xs ! i # drop (Suc i) xs)" "set xs = set (take i xs @ xs ! i # drop (Suc i) xs)"
    using assms by (simp_all only: id_take_nth_drop [symmetric])
  then show ?thesis by (auto simp: remove_at_def)
qed

lemma nth_remove_at:
  "i < length xs \<Longrightarrow> j < length xs - 1 \<Longrightarrow>
   remove_at i xs ! j = (if j < i then xs ! j else xs ! Suc j)"
  by (auto simp: remove_at_def nth_append min_def)

text \<open>The position of the first element that satisfies a predicate.\<close>

fun find_index :: "('a \<Rightarrow> bool) \<Rightarrow> 'a list \<Rightarrow> nat option" where
  "find_index p [] = None"
| "find_index p (x # xs) = (if p x then Some 0 else map_option Suc (find_index p xs))"

lemma find_index_None: "find_index p xs = None \<longleftrightarrow> (\<forall>x\<in>set xs. \<not> p x)"
  by (induction xs) auto

lemma find_index_Some:
  "find_index p xs = Some i \<Longrightarrow> i < length xs \<and> p (xs ! i) \<and> (\<forall>j<i. \<not> p (xs ! j))"
proof (induction xs arbitrary: i)
  case (Cons x xs)
  show ?case
  proof (cases "p x")
    case False
    with Cons.prems obtain k where k: "find_index p xs = Some k" and i: "i = Suc k" by auto
    from Cons.IH [OF k] False i show ?thesis by (auto simp: less_Suc_eq_0_disj)
  qed (use Cons.prems in auto)
qed simp

lemma find_index_ex: "x \<in> set xs \<Longrightarrow> p x \<Longrightarrow> \<exists>i. find_index p xs = Some i"
  using find_index_None [of p xs] by (cases "find_index p xs") auto

text \<open>Counting the elements with a property, and how an update changes the count.\<close>

definition count_if :: "('a \<Rightarrow> bool) \<Rightarrow> 'a list \<Rightarrow> nat" where
  "count_if p xs = length (filter p xs)"

lemma count_if_simps [simp]:
  "count_if p [] = 0"
  "count_if p (x # xs) = (if p x then Suc (count_if p xs) else count_if p xs)"
  by (simp_all add: count_if_def)

lemma count_if_replicate [simp]: "count_if p (replicate n x) = (if p x then n else 0)"
  by (induction n) auto

lemma count_if_update:
  "i < length xs \<Longrightarrow>
   int (count_if p (xs[i := y])) =
     int (count_if p xs) + (if p y then 1 else 0) - (if p (xs ! i) then 1 else 0)"
proof (induction xs arbitrary: i)
  case (Cons x xs)
  show ?case using Cons.IH [of "i - 1"] Cons.prems by (cases i) (auto split: if_splits)
qed simp

lemma count_if_pos: "i < length xs \<Longrightarrow> p (xs ! i) \<Longrightarrow> 0 < count_if p xs"
  by (auto simp: count_if_def filter_empty_conv)

lemma count_if_0: "count_if p xs = 0 \<longleftrightarrow> (\<forall>x\<in>set xs. \<not> p x)"
  by (simp add: count_if_def filter_empty_conv)

section \<open>State machines\<close>

text \<open>
  The interface every stateful component of the development implements: a start state, a step
  relation and an invariant that both keep. The client lemma, proved once, is that the
  invariant holds in every state a run can reach.
\<close>

inductive reachable_from :: "('s \<Rightarrow> 's \<Rightarrow> bool) \<Rightarrow> 's \<Rightarrow> 's \<Rightarrow> bool" for step where
  reachable_refl: "reachable_from step s s"
| reachable_step: "reachable_from step s t \<Longrightarrow> step t u \<Longrightarrow> reachable_from step s u"

locale invariant_machine =
  fixes start :: 's and step :: "'s \<Rightarrow> 's \<Rightarrow> bool" and inv :: "'s \<Rightarrow> bool"
  assumes inv_start: "inv start"
    and inv_step: "inv s \<Longrightarrow> step s t \<Longrightarrow> inv t"
begin

lemma inv_from: "reachable_from step s t \<Longrightarrow> inv s \<Longrightarrow> inv t"
  by (induction rule: reachable_from.induct) (auto intro: inv_step)

lemma inv_reachable: "reachable_from step start t \<Longrightarrow> inv t"
  by (rule inv_from [OF _ inv_start])

end

end
