(* ===== verification/Go_Path.thy ===== *)
theory Go_Path
  imports Bragi_Prelude
begin

text \<open>
  The lexical path functions of Go's \<open>path/filepath\<close> the code uses, on the Unix separator.
\<close>

fun split_on :: "char \<Rightarrow> string \<Rightarrow> string list" where
  "split_on d [] = [[]]"
| "split_on d (c # cs) =
     (if c = d then [] # split_on d cs
      else case split_on d cs of [] \<Rightarrow> [[c]] | w # ws \<Rightarrow> (c # w) # ws)"

text \<open>
  \<open>Clean\<close>: the components, without empty and \<open>.\<close> ones, each \<open>..\<close> removing the component before it;
  at the root \<open>..\<close> is dropped. \<open>out\<close> holds the components kept so far, last one first.
\<close>

fun clean_components :: "bool \<Rightarrow> string list \<Rightarrow> string list \<Rightarrow> string list" where
  "clean_components rooted out [] = rev out"
| "clean_components rooted out (c # cs) =
     (if c = [] \<or> c = ''.'' then clean_components rooted out cs
      else if c = ''..'' then
        (case out of
           o1 # os \<Rightarrow> if o1 \<noteq> ''..'' then clean_components rooted os cs
                      else clean_components rooted (c # out) cs
         | [] \<Rightarrow> if rooted then clean_components rooted [] cs else clean_components rooted [c] cs)
      else clean_components rooted (c # out) cs)"

definition Clean :: "string \<Rightarrow> string" where
  "Clean p =
     (if p = [] then ''.''
      else
        let rooted = (hd p = CHR ''/'');
            body = Join (clean_components rooted [] (split_on (CHR ''/'') p)) ''/''
        in if rooted then ''/'' @ body else if body = [] then ''.'' else body)"

fun filepath_Join :: "string list \<Rightarrow> string" where
  "filepath_Join [] = []"
| "filepath_Join (e # es) = (if e \<noteq> [] then Clean (Join (e # es) ''/'') else filepath_Join es)"

text \<open>The last element of a path, and all but it.\<close>

definition Base :: "string \<Rightarrow> string" where
  "Base p =
     (if p = [] then ''.''
      else let t = rev (dropWhile (\<lambda>c. c = CHR ''/'') (rev p))
           in if t = [] then ''/'' else rev (takeWhile (\<lambda>c. c \<noteq> CHR ''/'') (rev t)))"

definition Dir :: "string \<Rightarrow> string" where
  "Dir p = Clean (rev (dropWhile (\<lambda>c. c \<noteq> CHR ''/'') (rev p)))"

text \<open>The suffix from the last dot of the last element.\<close>

definition Ext :: "string \<Rightarrow> string" where
  "Ext p = (let r = takeWhile (\<lambda>c. c \<noteq> CHR ''/'') (rev p); e = takeWhile (\<lambda>c. c \<noteq> CHR ''.'') r
            in if length e < length r then CHR ''.'' # rev e else [])"

lemma Clean_nonempty: "Clean p \<noteq> []"
  by (simp add: Clean_def Let_def)

lemma split_on_nonempty [simp]: "split_on d s \<noteq> []"
  by (induction s) (auto split: list.splits)

lemma split_on_no_sep: "w \<in> set (split_on d s) \<Longrightarrow> d \<notin> set w"
proof (induction s arbitrary: w)
  case (Cons c cs)
  then show ?case by (auto split: if_splits list.splits)
qed simp

lemma split_on_append: "d \<notin> set w \<Longrightarrow> split_on d (w @ d # s) = w # split_on d s"
  by (induction w) auto

lemma split_on_no: "d \<notin> set w \<Longrightarrow> split_on d w = [w]"
  by (induction w) auto

lemma Join_split_on: "Join (split_on d s) [d] = s"
proof (induction s)
  case (Cons c cs)
  then show ?case by (cases "split_on d cs"; cases "tl (split_on d cs)") auto
qed simp

text \<open>
  A cleaned path has no empty and no \<open>.\<close> component, and no \<open>..\<close> after another component: below a
  root there is none at all.
\<close>

lemma clean_components_plain:
  "c \<in> set (clean_components rooted out cs) \<Longrightarrow>
   (\<forall>x\<in>set out. x \<noteq> [] \<and> x \<noteq> ''.'') \<Longrightarrow> c \<noteq> [] \<and> c \<noteq> ''.''"
  by (induction rooted out cs rule: clean_components.induct) (auto split: if_splits list.splits)

lemma clean_components_rooted:
  "c \<in> set (clean_components True out cs) \<Longrightarrow> \<forall>x\<in>set out. x \<noteq> ''..'' \<Longrightarrow> c \<noteq> ''..''"
  by (induction True out cs rule: clean_components.induct) (auto split: if_splits list.splits)

end
