(* ===== verification/Model_MediaFile.thy ===== *)
theory Model_MediaFile
  imports Bragi_Prelude Go_Path
begin

text \<open>
  The part of package \<open>model\<close> the modelled services read: the media file with the fields they
  use, the transcoding configuration row, and the codec inference of \<open>model/mediafile.go\<close>.
\<close>

section \<open>Data\<close>

record Transcoding =
  trc_ID :: string
  trc_Name :: string
  trc_TargetFormat :: string
  trc_Command :: string
  trc_DefaultBitRate :: go_int

record Participant =
  pt_ID :: string
  pt_Name :: string

record MediaFile =
  mf_ID :: string
  mf_LibraryPath :: string
  mf_Path :: string
  mf_Title :: string
  mf_Album :: string
  mf_Artist :: string
  mf_AlbumID :: string
  mf_AlbumArtistID :: string
  mf_AlbumArtist :: string
  mf_LibraryID :: go_int
  mf_DiscNumber :: go_int
  mf_Suffix :: string
  mf_Duration :: float32
  mf_Size :: go_int
  mf_BitRate :: go_int
  mf_SampleRate :: go_int
  mf_BitDepth :: "go_int option"
  mf_Channels :: go_int
  mf_Codec :: string
  mf_ProbeData :: string
  mf_MbzRecordingID :: string
  mf_MbzAlbumID :: string
  mf_ISRC :: "string list" \<comment> \<open>\<open>Tags.Values(TagISRC)\<close>\<close>
  mf_Artists :: "Participant list" \<comment> \<open>\<open>Participants[RoleArtist]\<close>\<close>
  mf_Starred :: bool
  mf_Rating :: go_int
  mf_UpdatedAt :: time_ns

type_synonym MediaFiles = "MediaFile list"

text \<open>A media file whose fields are Go's zero values; concrete inputs start from it.\<close>

definition zero_MediaFile :: MediaFile where
  "zero_MediaFile =
     \<lparr>mf_ID = [], mf_LibraryPath = [], mf_Path = [], mf_Title = [], mf_Album = [], mf_Artist = [],
      mf_AlbumID = [], mf_AlbumArtistID = [], mf_AlbumArtist = [], mf_LibraryID = 0, mf_DiscNumber = 0,
      mf_Suffix = [], mf_Duration = 0, mf_Size = 0, mf_BitRate = 0, mf_SampleRate = 0,
      mf_BitDepth = None, mf_Channels = 0, mf_Codec = [], mf_ProbeData = [],
      mf_MbzRecordingID = [], mf_MbzAlbumID = [], mf_ISRC = [], mf_Artists = [],
      mf_Starred = False, mf_Rating = 0, mf_UpdatedAt = 0\<rparr>"

definition AbsolutePath :: "MediaFile \<Rightarrow> string" where
  "AbsolutePath mf = filepath_Join [mf_LibraryPath mf, mf_Path mf]"

section \<open>utils/gg\<close>

text \<open>\<open>gg.V\<close>: the value behind a pointer, or the zero value.\<close>

definition gg_V :: "'a \<Rightarrow> 'a option \<Rightarrow> 'a" where
  "gg_V zero p = (case p of None \<Rightarrow> zero | Some v \<Rightarrow> v)"

section \<open>Codec inference\<close>

definition inferCodecFromSuffix :: "MediaFile \<Rightarrow> string" where
  "inferCodecFromSuffix mf =
     (let s = ToLower (mf_Suffix mf) in
      if s \<in> {''mp3'', ''mpga''} then ''mp3''
      else if s = ''mp2'' then ''mp2''
      else if s \<in> {''ogg'', ''oga''} then ''vorbis''
      else if s = ''opus'' then ''opus''
      else if s = ''mpc'' then ''mpc''
      else if s = ''wma'' then ''wma''
      else if s = ''flac'' then ''flac''
      else if s = ''wav'' then ''pcm''
      else if s \<in> {''aif'', ''aiff'', ''aifc''} then ''pcm''
      else if s = ''ape'' then ''ape''
      else if s \<in> {''wv'', ''wvp''} then ''wv''
      else if s = ''tta'' then ''tta''
      else if s = ''tak'' then ''tak''
      else if s = ''shn'' then ''shn''
      else if s \<in> {''dsf'', ''dff''} then ''dsd''
      else if s = ''m4a'' then (if gg_V 0 (mf_BitDepth mf) > 0 then ''alac'' else ''aac'')
      else if s \<in> {''m4b'', ''m4p'', ''m4r''} then ''aac''
      else [])"

definition AudioCodec :: "MediaFile \<Rightarrow> string" where
  "AudioCodec mf =
     (if mf_Codec mf \<noteq> [] then ToLower (mf_Codec mf) else inferCodecFromSuffix mf)"

lemma char_lower_fixed:
  "c \<in> set ''abcdefghijklmnopqrstuvwxyz0123456789'' \<Longrightarrow> char_lower c = c"
  by (auto simp: char_lower_def byte_def)

lemma inferCodec_lower [simp]: "ToLower (inferCodecFromSuffix mf) = inferCodecFromSuffix mf"
  by (simp add: inferCodecFromSuffix_def Let_def ToLower_def char_lower_def byte_def)

text \<open>The codec a media file reports is always in lower case, stored or inferred.\<close>

lemma AudioCodec_lower [simp]: "ToLower (AudioCodec mf) = AudioCodec mf"
  by (simp add: AudioCodec_def)

end
