(* ===== verification/Stream_Codec.thy ===== *)
theory Stream_Codec
  imports Model_MediaFile
begin

text \<open>
  Package \<open>core/stream\<close>, its vocabulary: the codec tables of \<open>codec.go\<close>, the alias groups of
  \<open>aliases.go\<close> and the data types of \<open>types.go\<close>. The laws of a name table (matching is
  reflexive, insensitive to case, symmetric and transitive) are the locale \<open>alias_table\<close>, which
  both tables of the code interpret.
\<close>

section \<open>codec.go\<close>

definition normalizeProbeCodec :: "string \<Rightarrow> string" where
  "normalizeProbeCodec codec =
     (let c = ToLower codec in
      if HasPrefix c ''dsd'' then ''dsd''
      else if HasPrefix c ''pcm_'' then ''pcm''
      else c)"

definition isLosslessFormat :: "string \<Rightarrow> bool" where
  "isLosslessFormat format \<longleftrightarrow>
     ToLower format \<in> {''flac'', ''alac'', ''wav'', ''aiff'', ''ape'', ''wv'', ''wavpack'',
       ''tta'', ''tak'', ''shn'', ''dsd'', ''pcm''}"

text \<open>Go's \<open>/\<close> on a positive dividend is \<open>div\<close>.\<close>

definition normalizeSourceSampleRate :: "go_int \<Rightarrow> string \<Rightarrow> go_int" where
  "normalizeSourceSampleRate sampleRate codec =
     (if EqualFold codec ''dsd'' \<and> sampleRate > 0 then sampleRate div 8 else sampleRate)"

definition targetBitDepth :: "go_int \<Rightarrow> string \<Rightarrow> bool \<Rightarrow> go_int" where
  "targetBitDepth srcBitDepth srcCodec targetIsLossless =
     (if \<not> targetIsLossless then 0
      else if EqualFold srcCodec ''dsd'' \<and> srcBitDepth = 1 then 24
      else srcBitDepth)"

definition codecFixedOutputSampleRate :: "string \<Rightarrow> go_int" where
  "codecFixedOutputSampleRate codec = (if ToLower codec = ''opus'' then 48000 else 0)"

definition codecMaxSampleRate :: "string \<Rightarrow> go_int" where
  "codecMaxSampleRate codec =
     (let c = ToLower codec in if c = ''mp3'' then 48000 else if c = ''aac'' then 96000 else 0)"

definition codecMaxChannels :: "string \<Rightarrow> go_int" where
  "codecMaxChannels codec =
     (let c = ToLower codec in if c = ''mp3'' then 2 else if c = ''opus'' then 8 else 0)"

section \<open>aliases.go\<close>

text \<open>A table maps each name of a group to the group's first name.\<close>

definition add_group :: "string list \<Rightarrow> (string \<rightharpoonup> string) \<Rightarrow> (string \<rightharpoonup> string)" where
  "add_group g m = fold (\<lambda>name m. m(name \<mapsto> hd g)) g m"

definition alias_groups :: "string list list \<Rightarrow> (string \<rightharpoonup> string)" where
  "alias_groups groups = fold add_group groups (\<lambda>_. None)"

definition containerAliasGroups :: "string \<rightharpoonup> string" where
  "containerAliasGroups = alias_groups
     [[''aac'', ''adts'', ''m4a'', ''mp4'', ''m4b'', ''m4p''],
      [''mpeg'', ''mp3'', ''mp2''],
      [''ogg'', ''oga'', ''opus''],
      [''aif'', ''aiff''],
      [''asf'', ''wma''],
      [''mpc'', ''mpp''],
      [''wv'']]"

definition codecAliasGroups :: "string \<rightharpoonup> string" where
  "codecAliasGroups = alias_groups
     [[''aac'', ''adts''],
      [''ac3'', ''ac-3''],
      [''eac3'', ''e-ac3'', ''e-ac-3'', ''eac-3''],
      [''mpc7'', ''musepack7''],
      [''mpc8'', ''musepack8''],
      [''wma1'', ''wmav1''],
      [''wma2'', ''wmav2''],
      [''wmalossless'', ''wma9lossless''],
      [''wmapro'', ''wma9pro''],
      [''shn'', ''shorten''],
      [''mp4als'', ''als'']]"

text \<open>\<open>aliases[k]\<close>: Go's map read gives the empty string for a missing key.\<close>

definition alias_get :: "(string \<rightharpoonup> string) \<Rightarrow> string \<Rightarrow> string" where
  "alias_get aliases k = gg_V [] (aliases k)"

fun matches_loop :: "string \<Rightarrow> string \<Rightarrow> string list \<Rightarrow> (string \<rightharpoonup> string) \<Rightarrow> bool" where
  "matches_loop val canonical [] aliases = False"
| "matches_loop val canonical (c0 # cs) aliases =
     (let c = ToLower c0 in
      if c = val then True
      else if canonical \<noteq> [] \<and> alias_get aliases c = canonical then True
      else matches_loop val canonical cs aliases)"

definition matchesWithAliases :: "string \<Rightarrow> string list \<Rightarrow> (string \<rightharpoonup> string) \<Rightarrow> bool" where
  "matchesWithAliases value0 candidates aliases =
     (let v = ToLower value0 in matches_loop v (alias_get aliases v) candidates aliases)"

definition matchesContainer :: "string \<Rightarrow> string list \<Rightarrow> bool" where
  "matchesContainer suffix containers = matchesWithAliases suffix containers containerAliasGroups"

definition matchesCodec :: "string \<Rightarrow> string list \<Rightarrow> bool" where
  "matchesCodec codec codecs = matchesWithAliases codec codecs codecAliasGroups"

definition IsAACCodec :: "string \<Rightarrow> bool" where
  "IsAACCodec name \<longleftrightarrow> matchesCodec name [''aac''] \<or> matchesContainer name [''aac'']"

definition containsIgnoreCase :: "string list \<Rightarrow> string \<Rightarrow> bool" where
  "containsIgnoreCase items s \<longleftrightarrow> (\<exists>item\<in>set items. EqualFold item s)"

section \<open>types.go\<close>

record Request =
  req_Format :: string
  req_BitRate :: go_int
  req_SampleRate :: go_int
  req_BitDepth :: go_int
  req_Channels :: go_int
  req_Offset :: go_int

record DirectPlayProfile =
  dpp_Containers :: "string list"
  dpp_AudioCodecs :: "string list"
  dpp_Protocols :: "string list"
  dpp_MaxAudioChannels :: go_int

record Profile =
  tp_Container :: string
  tp_AudioCodec :: string
  tp_Protocol :: string
  tp_MaxAudioChannels :: go_int

record Limitation =
  lim_Name :: string
  lim_Comparison :: string
  lim_Values :: "string list"
  lim_Required :: bool

record CodecProfile =
  cp_Type :: string
  cp_Name :: string
  cp_Limitations :: "Limitation list"

record ClientInfo =
  ci_Name :: string
  ci_Platform :: string
  ci_MaxAudioBitrate :: go_int
  ci_MaxTranscodingAudioBitrate :: go_int
  ci_DirectPlayProfiles :: "DirectPlayProfile list"
  ci_TranscodingProfiles :: "Profile list"
  ci_CodecProfiles :: "CodecProfile list"

record Details =
  sd_Container :: string
  sd_Codec :: string
  sd_Profile :: string
  sd_Bitrate :: go_int
  sd_SampleRate :: go_int
  sd_BitDepth :: go_int
  sd_Channels :: go_int
  sd_Duration :: float32
  sd_Size :: go_int
  sd_IsLossless :: bool

record TranscodeDecision =
  td_MediaID :: string
  td_CanDirectPlay :: bool
  td_CanTranscode :: bool
  td_TranscodeReasons :: "string list"
  td_ErrorReason :: string
  td_TargetFormat :: string
  td_TargetBitrate :: go_int
  td_TargetChannels :: go_int
  td_TargetSampleRate :: go_int
  td_TargetBitDepth :: go_int
  td_SourceStream :: Details
  td_SourceUpdatedAt :: time_ns
  td_TranscodeStream :: "Details option"

definition ProtocolHTTP :: string where "ProtocolHTTP = ''http''"

definition ComparisonEquals :: string where "ComparisonEquals = ''Equals''"
definition ComparisonNotEquals :: string where "ComparisonNotEquals = ''NotEquals''"
definition ComparisonLessThanEqual :: string where "ComparisonLessThanEqual = ''LessThanEqual''"
definition ComparisonGreaterThanEqual :: string where
  "ComparisonGreaterThanEqual = ''GreaterThanEqual''"

definition LimitationAudioChannels :: string where "LimitationAudioChannels = ''audioChannels''"
definition LimitationAudioBitrate :: string where "LimitationAudioBitrate = ''audioBitrate''"
definition LimitationAudioProfile :: string where "LimitationAudioProfile = ''audioProfile''"
definition LimitationAudioSamplerate :: string where
  "LimitationAudioSamplerate = ''audioSamplerate''"
definition LimitationAudioBitdepth :: string where "LimitationAudioBitdepth = ''audioBitdepth''"

definition CodecProfileTypeAudio :: string where "CodecProfileTypeAudio = ''AudioCodec''"

lemmas comparison_defs = ComparisonEquals_def ComparisonNotEquals_def
  ComparisonLessThanEqual_def ComparisonGreaterThanEqual_def

lemmas limitation_name_defs = LimitationAudioChannels_def LimitationAudioBitrate_def
  LimitationAudioProfile_def LimitationAudioSamplerate_def LimitationAudioBitdepth_def

text \<open>The target format and response container of a transcoding profile (\<open>decider.go\<close>).\<close>

definition resolveTargetFormat :: "Profile \<Rightarrow> string \<times> string" where
  "resolveTargetFormat profile =
     (let responseContainer = ToLower (tp_Container profile);
          targetFormat = (if tp_AudioCodec profile \<noteq> [] then ToLower (tp_AudioCodec profile)
                          else responseContainer)
      in if targetFormat = [] then ([], [])
         else if responseContainer = [] then (targetFormat, targetFormat)
         else (responseContainer, targetFormat))"

text \<open>\<open>ClientInfo.CapBitrate\<close>: the client after the call, and whether anything changed.\<close>

definition CapBitrate :: "go_int \<Rightarrow> ClientInfo \<Rightarrow> ClientInfo \<times> bool" where
  "CapBitrate maxKbps ci =
     (if maxKbps \<le> 0 then (ci, False)
      else
        let a = (ci_MaxAudioBitrate ci = 0 \<or> maxKbps < ci_MaxAudioBitrate ci);
            ci1 = (if a then ci\<lparr>ci_MaxAudioBitrate := maxKbps\<rparr> else ci);
            b = (ci_MaxTranscodingAudioBitrate ci1 = 0 \<or>
                 maxKbps < ci_MaxTranscodingAudioBitrate ci1);
            ci2 = (if b then ci1\<lparr>ci_MaxTranscodingAudioBitrate := maxKbps\<rparr> else ci1)
        in (ci2, a \<or> b))"

definition ForceFormat :: "string \<Rightarrow> ClientInfo \<Rightarrow> ClientInfo \<times> bool" where
  "ForceFormat targetFormat ci =
     (if targetFormat = [] then (ci, False)
      else
        let matched = filter (\<lambda>p. matchesContainer (snd (resolveTargetFormat p)) [targetFormat])
                        (ci_TranscodingProfiles ci)
        in if matched = [] then (ci, False)
           else (ci\<lparr>ci_TranscodingProfiles := matched, ci_DirectPlayProfiles := []\<rparr>, True))"

text \<open>\<open>DirectPlayProfile.String\<close>, used in the reasons a profile is refused with.\<close>

definition DirectPlayProfile_String :: "DirectPlayProfile \<Rightarrow> string" where
  "DirectPlayProfile_String p =
     (let joined = Join (dpp_Containers p) '','';
          containers = (if joined = [] then ''*'' else joined);
          codecs = Join (dpp_AudioCodecs p) '',''
      in if codecs = [] then ''['' @ containers @ '']''
         else ''['' @ containers @ ''/'' @ codecs @ '']'')"

section \<open>The laws of a name table\<close>

text \<open>
  What the decision code relies on when it looks a codec or container up: a table never maps a
  name to the empty string, so the empty string marks "no alias". The client lemmas are the
  characterisation of the matching loop and that matching one name against another is an
  equivalence that respects case.
\<close>

locale alias_table =
  fixes aliases :: "string \<rightharpoonup> string"
  assumes canonical_nonempty: "aliases k = Some c \<Longrightarrow> c \<noteq> []"
begin

lemma matches_loop_iff:
  "matches_loop v (alias_get aliases v) cs aliases \<longleftrightarrow>
     (\<exists>c\<in>set cs. ToLower c = v \<or> (aliases v \<noteq> None \<and> aliases (ToLower c) = aliases v))"
proof (induction cs)
  case (Cons c cs)
  have "alias_get aliases v \<noteq> [] \<and> alias_get aliases (ToLower c) = alias_get aliases v \<longleftrightarrow>
        aliases v \<noteq> None \<and> aliases (ToLower c) = aliases v"
    using canonical_nonempty [of v] canonical_nonempty [of "ToLower c"]
    by (auto simp: alias_get_def gg_V_def split: option.splits)
  with Cons.IH show ?case by (auto simp: Let_def)
qed simp

lemma matches_iff:
  "matchesWithAliases v cs aliases \<longleftrightarrow>
     (\<exists>c\<in>set cs. ToLower c = ToLower v \<or>
        (aliases (ToLower v) \<noteq> None \<and> aliases (ToLower c) = aliases (ToLower v)))"
  by (simp add: matchesWithAliases_def Let_def matches_loop_iff)

lemma matches_any: "matchesWithAliases v cs aliases \<longleftrightarrow> (\<exists>c\<in>set cs. matchesWithAliases v [c] aliases)"
  by (simp add: matches_iff)

lemma matches_refl: "matchesWithAliases v [v] aliases"
  by (simp add: matches_iff)

lemma matches_fold: "EqualFold v w \<Longrightarrow> matchesWithAliases v [w] aliases"
  by (simp add: matches_iff EqualFold_def)

lemma matches_sym: "matchesWithAliases v [w] aliases \<Longrightarrow> matchesWithAliases w [v] aliases"
  by (auto simp: matches_iff)

lemma matches_trans:
  "matchesWithAliases u [v] aliases \<Longrightarrow> matchesWithAliases v [w] aliases \<Longrightarrow>
   matchesWithAliases u [w] aliases"
  by (auto simp: matches_iff)

end

lemma alias_groups_canonical:
  assumes "\<forall>g\<in>set groups. g \<noteq> [] \<and> hd g \<noteq> []"
  shows "alias_groups groups k = Some c \<Longrightarrow> c \<noteq> []"
proof -
  have inner: "fold (\<lambda>name m. m(name \<mapsto> h)) g m k = Some c \<Longrightarrow> m k = Some c \<or> c = h"
    for g :: "string list" and h m
    by (induction g arbitrary: m) (fastforce split: if_splits)+
  have "fold add_group groups m k = Some c \<Longrightarrow> m k = Some c \<or> (\<exists>g\<in>set groups. c = hd g)" for m
  proof (induction groups arbitrary: m)
    case (Cons g gs)
    from Cons.IH [of "add_group g m"] Cons.prems
    show ?case using inner [of "hd g" g m] by (auto simp: add_group_def)
  qed simp
  from this [of "\<lambda>_. None"] assms show "alias_groups groups k = Some c \<Longrightarrow> c \<noteq> []"
    by (auto simp: alias_groups_def)
qed

interpretation containers: alias_table containerAliasGroups
  unfolding containerAliasGroups_def
  by unfold_locales (rule alias_groups_canonical, auto)

interpretation codecs: alias_table codecAliasGroups
  unfolding codecAliasGroups_def
  by unfold_locales (rule alias_groups_canonical, auto)

lemma matchesContainer_any:
  "matchesContainer v cs \<longleftrightarrow> (\<exists>c\<in>set cs. matchesContainer v [c])"
  unfolding matchesContainer_def by (rule containers.matches_any)

lemma matchesCodec_any: "matchesCodec v cs \<longleftrightarrow> (\<exists>c\<in>set cs. matchesCodec v [c])"
  unfolding matchesCodec_def by (rule codecs.matches_any)

lemma matchesContainer_fold: "EqualFold v w \<Longrightarrow> matchesContainer v [w]"
  unfolding matchesContainer_def by (rule containers.matches_fold)

lemma matchesCodec_fold: "EqualFold v w \<Longrightarrow> matchesCodec v [w]"
  unfolding matchesCodec_def by (rule codecs.matches_fold)

section \<open>Properties\<close>

text \<open>
  The alias-aware name matching of containers and of codecs is an equivalence relation on
  names (reflexive up to case, symmetric, transitive), and matching against a list is matching
  against one of its members. So a profile accepts a source whatever spelling of an equivalent
  name either side uses.
\<close>

lemma alias_matching_equivalence:
  "(\<forall>v cs. matchesContainer v cs = (\<exists>c. c \<in> set cs \<and> matchesContainer v [c])) \<and>
   (\<forall>v cs. matchesCodec v cs = (\<exists>c. c \<in> set cs \<and> matchesCodec v [c])) \<and>
   equivp (\<lambda>v w. matchesContainer v [w]) \<and> equivp (\<lambda>v w. matchesCodec v [w]) \<and>
   (\<forall>v. matchesContainer (ToLower v) [v] \<and> matchesCodec (ToLower v) [v])"
proof (intro conjI allI)
  show "equivp (\<lambda>v w. matchesContainer v [w])"
    unfolding matchesContainer_def
    by (intro equivpI reflpI sympI transpI)
      (auto intro: containers.matches_refl containers.matches_sym containers.matches_trans)
  show "equivp (\<lambda>v w. matchesCodec v [w])"
    unfolding matchesCodec_def
    by (intro equivpI reflpI sympI transpI)
      (auto intro: codecs.matches_refl codecs.matches_sym codecs.matches_trans)
qed (auto simp: EqualFold_def intro: matchesContainer_fold matchesCodec_fold
      simp flip: matchesContainer_any matchesCodec_any Bex_def)

text \<open>
  \<open>CapBitrate\<close> only lowers limits: afterwards both limits are at most the cap and non-zero,
  neither limit that was set is raised, everything else of the client is kept, the flag says
  whether the client changed, and a second call with the same cap changes nothing.
\<close>

lemma CapBitrate_lowers:
  assumes "0 < maxKbps"
  shows "ci_MaxAudioBitrate (fst (CapBitrate maxKbps ci)) \<le> maxKbps \<and>
     ci_MaxTranscodingAudioBitrate (fst (CapBitrate maxKbps ci)) \<le> maxKbps \<and>
     (ci_MaxAudioBitrate ci \<noteq> 0 \<longrightarrow>
        ci_MaxAudioBitrate (fst (CapBitrate maxKbps ci)) = min maxKbps (ci_MaxAudioBitrate ci)) \<and>
     (ci_MaxTranscodingAudioBitrate ci \<noteq> 0 \<longrightarrow>
        ci_MaxTranscodingAudioBitrate (fst (CapBitrate maxKbps ci)) =
          min maxKbps (ci_MaxTranscodingAudioBitrate ci)) \<and>
     ci_DirectPlayProfiles (fst (CapBitrate maxKbps ci)) = ci_DirectPlayProfiles ci \<and>
     ci_TranscodingProfiles (fst (CapBitrate maxKbps ci)) = ci_TranscodingProfiles ci \<and>
     ci_CodecProfiles (fst (CapBitrate maxKbps ci)) = ci_CodecProfiles ci \<and>
     (snd (CapBitrate maxKbps ci) \<longleftrightarrow> fst (CapBitrate maxKbps ci) \<noteq> ci) \<and>
     CapBitrate maxKbps (fst (CapBitrate maxKbps ci)) = (fst (CapBitrate maxKbps ci), False)"
  using assms by (cases ci) (auto simp: CapBitrate_def Let_def)

definition web_client :: ClientInfo where
  "web_client = \<lparr>ci_Name = ''web'', ci_Platform = [], ci_MaxAudioBitrate = 320,
     ci_MaxTranscodingAudioBitrate = 0,
     ci_DirectPlayProfiles = [\<lparr>dpp_Containers = [''mp3''], dpp_AudioCodecs = [''mp3''],
       dpp_Protocols = [''http''], dpp_MaxAudioChannels = 2\<rparr>],
     ci_TranscodingProfiles = [\<lparr>tp_Container = ''mp3'', tp_AudioCodec = ''mp3'',
       tp_Protocol = ''http'', tp_MaxAudioChannels = 2\<rparr>],
     ci_CodecProfiles = []\<rparr>"

theorem CapBitrate_lowers_witness:
  "(0::int) < 128 \<and> ci_MaxAudioBitrate (fst (CapBitrate 128 web_client)) = 128 \<and>
   ci_MaxTranscodingAudioBitrate (fst (CapBitrate 128 web_client)) \<le> 128"
  using CapBitrate_lowers [of 128 web_client] by (simp add: web_client_def)

end
