(* ===== verification/Stream_Limitations.thy ===== *)
theory Stream_Limitations
  imports Stream_Codec
begin

text \<open>
  \<open>core/stream/limitations.go\<close>: checking a source stream against a client's codec limitations
  and adjusting a transcoded stream to them. Go passes a setter to \<open>applyIntLimitation\<close>; the
  model returns the value the setter is called with, if it is called.
\<close>

section \<open>Definitions\<close>

datatype adjustResult = adjustNone | adjustAdjusted | adjustCannotFit

definition parseInt :: "string \<Rightarrow> go_int option" where
  "parseInt s = (case Atoi s of None \<Rightarrow> None | Some v \<Rightarrow> if v < 0 then None else Some v)"

definition matches_int :: "string list \<Rightarrow> go_int \<Rightarrow> bool" where
  "matches_int vals current \<longleftrightarrow> (\<exists>v\<in>set vals. parseInt v = Some current)"

text \<open>The search for the closest allowed value below the current one.\<close>

fun closest_below :: "string list \<Rightarrow> go_int \<Rightarrow> go_int option \<Rightarrow> go_int option" where
  "closest_below [] current best = best"
| "closest_below (v # vs) current best =
     closest_below vs current
       (case parseInt v of
          None \<Rightarrow> best
        | Some limit \<Rightarrow>
            if limit < current \<and> (case best of None \<Rightarrow> True | Some b \<Rightarrow> limit > b)
            then Some limit else best)"

definition applyIntLimitation ::
  "string \<Rightarrow> string list \<Rightarrow> go_int \<Rightarrow> adjustResult \<times> go_int option" where
  "applyIntLimitation comparison vals current =
     (case vals of
        [] \<Rightarrow> (adjustNone, None)
      | v0 # _ \<Rightarrow>
          if comparison = ComparisonLessThanEqual then
            (case parseInt v0 of
               None \<Rightarrow> (adjustNone, None)
             | Some limit \<Rightarrow> if current \<le> limit then (adjustNone, None)
                             else (adjustAdjusted, Some limit))
          else if comparison = ComparisonGreaterThanEqual then
            (case parseInt v0 of
               None \<Rightarrow> (adjustNone, None)
             | Some limit \<Rightarrow> if current \<ge> limit then (adjustNone, None)
                             else (adjustCannotFit, None))
          else if comparison = ComparisonEquals then
            (if matches_int vals current then (adjustNone, None)
             else case closest_below vals current None of
                    Some closest \<Rightarrow> (adjustAdjusted, Some closest)
                  | None \<Rightarrow> (adjustCannotFit, None))
          else if comparison = ComparisonNotEquals then
            (if matches_int vals current then (adjustCannotFit, None) else (adjustNone, None))
          else (adjustNone, None))"

definition checkIntLimitation :: "go_int \<Rightarrow> string \<Rightarrow> string list \<Rightarrow> bool" where
  "checkIntLimitation val comparison vals \<longleftrightarrow>
     fst (applyIntLimitation comparison vals val) = adjustNone"

definition checkStringLimitation :: "string \<Rightarrow> string \<Rightarrow> string list \<Rightarrow> bool" where
  "checkStringLimitation val comparison vals =
     (if comparison = ComparisonEquals then (\<exists>v\<in>set vals. EqualFold val v)
      else if comparison = ComparisonNotEquals then \<not> (\<exists>v\<in>set vals. EqualFold val v)
      else True)"

text \<open>One round of the loop of \<open>checkLimitations\<close>: \<open>None\<close> is the \<open>continue\<close> of an unknown name.\<close>

definition check_one :: "Details \<Rightarrow> Limitation \<Rightarrow> (bool \<times> string) option" where
  "check_one src lim =
     (if lim_Name lim = LimitationAudioChannels then
        Some (checkIntLimitation (sd_Channels src) (lim_Comparison lim) (lim_Values lim),
              ''audio channels not supported'')
      else if lim_Name lim = LimitationAudioSamplerate then
        Some (checkIntLimitation (sd_SampleRate src) (lim_Comparison lim) (lim_Values lim),
              ''audio samplerate not supported'')
      else if lim_Name lim = LimitationAudioBitrate then
        Some (checkIntLimitation (sd_Bitrate src) (lim_Comparison lim) (lim_Values lim),
              ''audio bitrate not supported'')
      else if lim_Name lim = LimitationAudioBitdepth then
        Some (checkIntLimitation (sd_BitDepth src) (lim_Comparison lim) (lim_Values lim),
              ''audio bitdepth not supported'')
      else if lim_Name lim = LimitationAudioProfile then
        Some (checkStringLimitation (sd_Profile src) (lim_Comparison lim) (lim_Values lim),
              ''audio profile not supported'')
      else None)"

fun checkLimitations :: "Details \<Rightarrow> Limitation list \<Rightarrow> string" where
  "checkLimitations src [] = []"
| "checkLimitations src (lim # lims) =
     (case check_one src lim of
        None \<Rightarrow> checkLimitations src lims
      | Some (ok, reason) \<Rightarrow>
          if \<not> ok \<and> lim_Required lim then reason else checkLimitations src lims)"

text \<open>\<open>applyLimitation\<close>: the adjustment and the stream after the setter ran.\<close>

definition applyLimitation ::
  "go_int \<Rightarrow> Limitation \<Rightarrow> Details \<Rightarrow> adjustResult \<times> Details" where
  "applyLimitation sourceBitrate lim ts =
     (if lim_Name lim = LimitationAudioChannels then
        (case applyIntLimitation (lim_Comparison lim) (lim_Values lim) (sd_Channels ts) of
           (r, Some v) \<Rightarrow> (r, ts\<lparr>sd_Channels := v\<rparr>) | (r, None) \<Rightarrow> (r, ts))
      else if lim_Name lim = LimitationAudioBitrate then
        (let current = (if sd_Bitrate ts = 0 then sourceBitrate else sd_Bitrate ts)
         in case applyIntLimitation (lim_Comparison lim) (lim_Values lim) current of
              (r, Some v) \<Rightarrow> (r, ts\<lparr>sd_Bitrate := v\<rparr>) | (r, None) \<Rightarrow> (r, ts))
      else if lim_Name lim = LimitationAudioSamplerate then
        (case applyIntLimitation (lim_Comparison lim) (lim_Values lim) (sd_SampleRate ts) of
           (r, Some v) \<Rightarrow> (r, ts\<lparr>sd_SampleRate := v\<rparr>) | (r, None) \<Rightarrow> (r, ts))
      else if lim_Name lim = LimitationAudioBitdepth then
        (if sd_BitDepth ts > 0 then
           (case applyIntLimitation (lim_Comparison lim) (lim_Values lim) (sd_BitDepth ts) of
              (r, Some v) \<Rightarrow> (r, ts\<lparr>sd_BitDepth := v\<rparr>) | (r, None) \<Rightarrow> (r, ts))
         else (adjustNone, ts))
      else (adjustNone, ts))"

section \<open>Lemmas\<close>

lemma parseInt_nonneg: "parseInt s = Some v \<Longrightarrow> 0 \<le> v"
  by (auto simp: parseInt_def split: option.splits if_splits)

lemma closest_below_sound:
  assumes "closest_below vs current best = Some c"
  shows "best = Some c \<or> (c < current \<and> matches_int vs c)"
  using assms
proof (induction vs current best rule: closest_below.induct)
  case (2 v vs current best)
  then show ?case
    by (auto simp: matches_int_def split: option.splits if_splits)
qed simp

lemma closest_below_mono:
  "closest_below vs current (Some b) = r \<Longrightarrow> \<exists>c. r = Some c \<and> b \<le> c"
proof (induction vs arbitrary: b r)
  case (Cons v vs)
  then show ?case
    by (auto split: option.splits if_splits) (metis order_trans less_imp_le)+
qed simp

lemma closest_below_greatest:
  assumes "parseInt w = Some l" "w \<in> set vs" "l < current"
  shows "\<exists>c. closest_below vs current best = Some c \<and> l \<le> c"
  using assms
proof (induction vs arbitrary: best)
  case (Cons v vs)
  show ?case
  proof (cases "w \<in> set vs")
    case True
    with Cons show ?thesis by auto
  next
    case False
    with Cons.prems have w: "w = v" by simp
    show ?thesis
    proof (cases "\<exists>b. best = Some b \<and> l \<le> b")
      case True
      then obtain b where b: "best = Some b" "l \<le> b" by blast
      from closest_below_mono [of vs current b] obtain c where
        "closest_below vs current (Some b) = Some c" "b \<le> c" by blast
      with b w Cons.prems show ?thesis by (auto intro: order_trans)
    next
      case False
      with w Cons.prems have "closest_below (v # vs) current best = closest_below vs current (Some l)"
        by (cases best) auto
      with closest_below_mono [of vs current l] show ?thesis by auto
    qed
  qed
qed simp

lemma applyInt_Equals:
  "applyIntLimitation ComparisonEquals vals current = (adjustAdjusted, x) \<Longrightarrow>
   closest_below vals current None = x"
  by (cases vals; cases "closest_below vals current None")
    (simp_all add: applyIntLimitation_def comparison_defs split: if_splits del: closest_below.simps)

text \<open>The value an adjustment sets is one of the limitation's own values, and below the current one.\<close>

lemma applyInt_adjusted:
  assumes "applyIntLimitation cmp vals current = (adjustAdjusted, x)"
  shows "\<exists>v. x = Some v \<and> v < current \<and> 0 \<le> v \<and> matches_int vals v \<and>
     applyIntLimitation cmp vals v = (adjustNone, None)"
proof (cases vals)
  case Nil
  with assms show ?thesis by (simp add: applyIntLimitation_def)
next
  case (Cons v0 vs)
  show ?thesis
  proof (cases "cmp = ComparisonEquals")
    case True
    with assms Cons obtain c where c: "closest_below vals current None = Some c" "x = Some c"
      by (auto simp: applyIntLimitation_def comparison_defs split: if_splits option.splits)
    with closest_below_sound [of vals current None c] have "c < current" "matches_int vals c"
      by auto
    moreover from this have "0 \<le> c" by (auto simp: matches_int_def dest: parseInt_nonneg)
    ultimately show ?thesis using c True Cons
      by (auto simp: applyIntLimitation_def comparison_defs)
  next
    case False
    with assms Cons obtain l where "cmp = ComparisonLessThanEqual" "parseInt v0 = Some l"
      "l < current" "x = Some l"
      by (auto simp: applyIntLimitation_def comparison_defs split: if_splits option.splits)
    with Cons parseInt_nonneg [of v0 l] show ?thesis
      by (auto simp: applyIntLimitation_def matches_int_def)
  qed
qed

lemma applyInt_unchanged:
  "applyIntLimitation cmp vals current = (r, x) \<Longrightarrow> r \<noteq> adjustAdjusted \<Longrightarrow> x = None"
  by (auto simp: applyIntLimitation_def split: if_splits option.splits list.splits)

lemma applyInt_le: "applyIntLimitation cmp vals current = (r, Some v) \<Longrightarrow> v < current \<and> 0 \<le> v"
  using applyInt_adjusted [of cmp vals current "Some v"] applyInt_unchanged [of cmp vals current r "Some v"]
  by (cases r) auto

lemmas applyLimitation_cases = applyLimitation_def Let_def limitation_name_defs

text \<open>An adjustment never raises a parameter and leaves the identity of the stream alone.\<close>

definition lowers :: "go_int \<Rightarrow> Details \<Rightarrow> Details \<Rightarrow> bool" where
  "lowers sourceBitrate ts ts' \<longleftrightarrow>
     sd_Channels ts' \<le> sd_Channels ts \<and> sd_SampleRate ts' \<le> sd_SampleRate ts \<and>
     sd_BitDepth ts' \<le> sd_BitDepth ts \<and>
     (sd_Bitrate ts' = sd_Bitrate ts \<or>
      0 \<le> sd_Bitrate ts' \<and>
        sd_Bitrate ts' < (if sd_Bitrate ts = 0 then sourceBitrate else sd_Bitrate ts)) \<and>
     sd_Container ts' = sd_Container ts \<and> sd_Codec ts' = sd_Codec ts \<and>
     sd_Profile ts' = sd_Profile ts \<and> sd_IsLossless ts' = sd_IsLossless ts"

lemma lowers_refl [simp]: "lowers b ts ts"
  by (simp add: lowers_def)

lemma applyLimitation_lowers:
  "applyLimitation sourceBitrate lim ts = (r, ts') \<Longrightarrow> lowers sourceBitrate ts ts'"
  by (auto simp: applyLimitation_cases lowers_def dest!: applyInt_le
      split: if_splits prod.splits option.splits)

lemma applyLimitation_unchanged:
  "applyLimitation sourceBitrate lim ts = (r, ts') \<Longrightarrow> r \<noteq> adjustAdjusted \<Longrightarrow> ts' = ts"
  by (auto simp: applyLimitation_cases dest!: applyInt_unchanged
      split: if_splits prod.splits option.splits)

text \<open>A required limitation with a known name that the source fails.\<close>

definition refuses :: "Details \<Rightarrow> Limitation \<Rightarrow> bool" where
  "refuses src lim \<longleftrightarrow>
     lim_Required lim \<and> (case check_one src lim of None \<Rightarrow> False | Some (ok, _) \<Rightarrow> \<not> ok)"

lemma refuses_reason: "refuses src lim \<Longrightarrow> snd (the (check_one src lim)) \<noteq> []"
  by (auto simp: refuses_def check_one_def split: if_splits)

lemma checkLimitations_find:
  "checkLimitations src lims =
     (case List.find (refuses src) lims of None \<Rightarrow> [] | Some lim \<Rightarrow> snd (the (check_one src lim)))"
  by (induction lims) (auto simp: refuses_def split: option.splits prod.splits)

section \<open>Properties\<close>

text \<open>
  Adjusting an integer parameter to a limitation never upscales it, and it satisfies the
  limitation: when \<open>applyIntLimitation\<close> reports an adjustment it sets a value that is smaller than
  the current one, is one of the limitation's values and passes the same limitation; for
  \<open>Equals\<close> it is the largest such value below the current one; and in every other outcome
  nothing is set.
\<close>

lemma applyIntLimitation_adjusts_down:
  assumes "applyIntLimitation cmp vals current = (r, x)"
  shows "(r = adjustAdjusted \<longrightarrow>
       (\<exists>v. x = Some v \<and> v < current \<and> matches_int vals v \<and> checkIntLimitation v cmp vals \<and>
         (cmp = ComparisonEquals \<longrightarrow>
            (\<forall>l. matches_int vals l \<longrightarrow> l < current \<longrightarrow> l \<le> v)))) \<and>
     (r \<noteq> adjustAdjusted \<longrightarrow> x = None)"
proof (intro conjI impI)
  assume r: "r = adjustAdjusted"
  with applyInt_adjusted [of cmp vals current x] assms obtain v where v:
    "x = Some v" "v < current" "matches_int vals v" "applyIntLimitation cmp vals v = (adjustNone, None)"
    by auto
  have "l \<le> v" if eq: "cmp = ComparisonEquals" and l: "matches_int vals l" "l < current" for l
  proof -
    from assms r v(1) eq have "closest_below vals current None = Some v"
      by (simp add: applyInt_Equals)
    with l show ?thesis
      using closest_below_greatest [of _ l vals current None] by (auto simp: matches_int_def)
  qed
  with v show "\<exists>v. x = Some v \<and> v < current \<and> matches_int vals v \<and> checkIntLimitation v cmp vals \<and>
         (cmp = ComparisonEquals \<longrightarrow> (\<forall>l. matches_int vals l \<longrightarrow> l < current \<longrightarrow> l \<le> v))"
    by (auto simp: checkIntLimitation_def)
qed (rule applyInt_unchanged [OF assms])

theorem applyIntLimitation_adjusts_down_witness:
  "applyIntLimitation ''Equals'' [''22050'', ''x'', ''44100'', ''96000''] 48000 =
     (adjustAdjusted, Some 44100) \<and> checkIntLimitation 44100 ''Equals'' [''22050'', ''x'', ''44100'', ''96000'']"
proof -
  have e: "applyIntLimitation ''Equals'' [''22050'', ''x'', ''44100'', ''96000''] 48000 =
      (adjustAdjusted, Some 44100)"
    by code_simp
  from applyIntLimitation_adjusts_down [OF e] have "checkIntLimitation 44100 ''Equals'' [''22050'', ''x'', ''44100'', ''96000'']"
    by simp
  with e show ?thesis by (rule conjI)
qed

text \<open>
  \<open>checkLimitations\<close> returns the empty reason exactly when every required limitation with a
  known name is satisfied; otherwise the reason is the one of the first required limitation that
  fails. Optional limitations never refuse a stream.
\<close>

lemma checkLimitations_spec:
  "(checkLimitations src lims = [] \<longleftrightarrow> \<not> (\<exists>lim. lim \<in> set lims \<and> refuses src lim)) \<and>
   checkLimitations src lims =
     (case List.find (refuses src) lims of None \<Rightarrow> [] | Some lim \<Rightarrow> snd (the (check_one src lim)))"
  using checkLimitations_find [of src lims] refuses_reason [of src]
  by (auto simp: find_None_iff find_Some_iff split: option.splits)

end
