(* ===== verification/Stream_Decider.thy ===== *)
theory Stream_Decider
  imports Stream_Limitations
begin

text \<open>
  \<open>core/stream/decider.go\<close> and \<open>core/stream/legacy_client.go\<close>: the decision whether a media file is
  played directly, transcoded or refused, and the legacy request resolution built on it.

  The service's collaborators are the fields of \<open>StreamEnv\<close>: the transcoding table of the
  database (\<open>FindByFormat\<close>), the server configuration it reads, ffprobe and the JSON codec of the
  stored probe data. The request context is \<open>Ctx\<close>. Log calls are left out.
\<close>

section \<open>Environment\<close>

record AudioProbeResult =
  pr_Codec :: string
  pr_Profile :: string
  pr_BitRate :: go_int
  pr_SampleRate :: go_int
  pr_BitDepth :: go_int
  pr_Channels :: go_int

text \<open>
  What can fail in \<open>ProbeAudioStream\<close> (\<open>core/ffmpeg/ffmpeg.go\<close>): a \<open>ProbeError\<close> with its path, its
  path-free reason, whether the file is missing and the cause's text; or ffmpeg is not there at all.
\<close>

datatype probe_failure =
  ProbeError (pe_Path: string) (pe_Reason: string) (pe_NotFound: bool) (pe_cause: string)
| FFmpegMissing string

datatype decision_error = ProbingMediaFile string probe_failure

record Player =
  pl_ID :: string
  pl_MaxBitRate :: go_int

record Ctx =
  ctx_User :: "string option" \<comment> \<open>\<open>request.UserFrom\<close>: the user's name\<close>
  ctx_Player :: "Player option" \<comment> \<open>\<open>request.PlayerFrom\<close>\<close>
  ctx_Transcoding :: "Transcoding option" \<comment> \<open>\<open>request.TranscodingFrom\<close>\<close>

record StreamEnv =
  env_FindByFormat :: "string \<Rightarrow> Transcoding option"
  env_DefaultDownsamplingFormat :: string
  env_DevEnableMediaFileProbe :: bool
  env_IsProbeAvailable :: bool
  env_ProbeAudioStream :: "MediaFile \<Rightarrow> probe_failure + AudioProbeResult"
  env_Marshal :: "AudioProbeResult \<Rightarrow> string"
  env_Unmarshal :: "string \<Rightarrow> AudioProbeResult option"

section \<open>Transcoding commands\<close>

definition fallbackBitrate :: go_int where "fallbackBitrate = 256"

definition DefaultTranscodings :: "Transcoding list" where
  "DefaultTranscodings =
     [\<lparr>trc_ID = [], trc_Name = ''mp3 audio'', trc_TargetFormat = ''mp3'', trc_Command =
         ''ffmpeg -ss %t -i %s -map 0:a:0 -map_metadata 0 -map_metadata 0:s:a:0 -b:a %bk -v 0 -f mp3 -'',
       trc_DefaultBitRate = 192\<rparr>,
      \<lparr>trc_ID = [], trc_Name = ''opus audio'', trc_TargetFormat = ''opus'', trc_Command =
         ''ffmpeg -ss %t -i %s -map 0:a:0 -map_metadata 0 -map_metadata 0:s:a:0 -b:a %bk -v 0 -c:a libopus -f opus -'',
       trc_DefaultBitRate = 128\<rparr>,
      \<lparr>trc_ID = [], trc_Name = ''aac audio'', trc_TargetFormat = ''aac'', trc_Command =
         ''ffmpeg -ss %t -i %s -map 0:a:0 -map_metadata 0 -map_metadata 0:s:a:0 -b:a %bk -v 0 -c:a aac -f adts -'',
       trc_DefaultBitRate = 256\<rparr>,
      \<lparr>trc_ID = [], trc_Name = ''flac audio'', trc_TargetFormat = ''flac'', trc_Command =
         ''ffmpeg -ss %t -i %s -map 0:a:0 -map_metadata 0 -map_metadata 0:s:a:0 -v 0 -c:a flac -f flac -'',
       trc_DefaultBitRate = 0\<rparr>]"

definition lookupDefaultBitrate :: "StreamEnv \<Rightarrow> string \<Rightarrow> go_int" where
  "lookupDefaultBitrate env format =
     (case env_FindByFormat env format of
        Some t \<Rightarrow>
          if trc_DefaultBitRate t > 0 then trc_DefaultBitRate t
          else (case List.find (\<lambda>dt. trc_TargetFormat dt = format \<and> trc_DefaultBitRate dt > 0)
                       DefaultTranscodings of
                  Some dt \<Rightarrow> trc_DefaultBitRate dt | None \<Rightarrow> fallbackBitrate)
      | None \<Rightarrow>
          (case List.find (\<lambda>dt. trc_TargetFormat dt = format \<and> trc_DefaultBitRate dt > 0)
                  DefaultTranscodings of
             Some dt \<Rightarrow> trc_DefaultBitRate dt | None \<Rightarrow> fallbackBitrate))"

definition LookupTranscodeCommand :: "StreamEnv \<Rightarrow> string \<Rightarrow> string" where
  "LookupTranscodeCommand env format =
     (let builtin = (case List.find (\<lambda>dt. trc_TargetFormat dt = format) DefaultTranscodings of
                       Some dt \<Rightarrow> trc_Command dt | None \<Rightarrow> [])
      in case env_FindByFormat env format of
           Some t \<Rightarrow> if trc_Command t \<noteq> [] then trc_Command t else builtin
         | None \<Rightarrow> builtin)"

section \<open>The source stream\<close>

definition parseProbeData :: "StreamEnv \<Rightarrow> string \<Rightarrow> AudioProbeResult option" where
  "parseProbeData env data = (if data = [] then None else env_Unmarshal env data)"

definition buildSourceStream ::
  "StreamEnv \<Rightarrow> MediaFile \<Rightarrow> AudioProbeResult option \<Rightarrow> Details" where
  "buildSourceStream env mf probe0 =
     (let probe = (case probe0 of None \<Rightarrow> parseProbeData env (mf_ProbeData mf) | Some p \<Rightarrow> Some p)
      in case probe of
           Some p \<Rightarrow>
             \<lparr>sd_Container = mf_Suffix mf, sd_Codec = normalizeProbeCodec (pr_Codec p),
              sd_Profile = pr_Profile p, sd_Bitrate = pr_BitRate p,
              sd_SampleRate = pr_SampleRate p, sd_BitDepth = pr_BitDepth p,
              sd_Channels = pr_Channels p, sd_Duration = mf_Duration mf, sd_Size = mf_Size mf,
              sd_IsLossless = isLosslessFormat (normalizeProbeCodec (pr_Codec p))\<rparr>
         | None \<Rightarrow>
             \<lparr>sd_Container = mf_Suffix mf, sd_Codec = AudioCodec mf, sd_Profile = [],
              sd_Bitrate = mf_BitRate mf, sd_SampleRate = mf_SampleRate mf,
              sd_BitDepth = gg_V 0 (mf_BitDepth mf), sd_Channels = mf_Channels mf,
              sd_Duration = mf_Duration mf, sd_Size = mf_Size mf,
              sd_IsLossless = isLosslessFormat (AudioCodec mf)\<rparr>)"

text \<open>
  \<open>ensureProbed\<close>: the error or the probe result, the media file after the call and the
  \<open>UpdateProbeData\<close> calls it made (their failure is only logged). Encoding a struct of strings and
  integers cannot fail, so the error branch of \<open>json.Marshal\<close> is not reachable.
\<close>

definition ensureProbed ::
  "StreamEnv \<Rightarrow> MediaFile \<Rightarrow>
   (decision_error + AudioProbeResult option) \<times> MediaFile \<times> (string \<times> string) list" where
  "ensureProbed env mf =
     (if mf_ProbeData mf \<noteq> [] then (Inr None, mf, [])
      else if \<not> env_DevEnableMediaFileProbe env then (Inr None, mf, [])
      else case env_ProbeAudioStream env mf of
             Inl err \<Rightarrow> (Inl (ProbingMediaFile (mf_ID mf) err), mf, [])
           | Inr result \<Rightarrow>
               (let data = env_Marshal env result
                in (Inr (Some result), mf\<lparr>mf_ProbeData := data\<rparr>, [(mf_ID mf, data)])))"

section \<open>Direct play\<close>

definition matchesPCMWAVBridge :: "Details \<Rightarrow> DirectPlayProfile \<Rightarrow> bool" where
  "matchesPCMWAVBridge src profile \<longleftrightarrow>
     EqualFold (sd_Codec src) ''pcm'' \<and> EqualFold (sd_Container src) ''wav'' \<and>
     containsIgnoreCase (dpp_AudioCodecs profile) ''wav''"

text \<open>The loop over the client's codec profiles at the end of \<open>checkDirectPlayProfile\<close>.\<close>

fun check_codec_profiles :: "Details \<Rightarrow> CodecProfile list \<Rightarrow> string" where
  "check_codec_profiles src [] = []"
| "check_codec_profiles src (cp # cps) =
     (if EqualFold (cp_Type cp) CodecProfileTypeAudio \<and> matchesCodec (sd_Codec src) [cp_Name cp]
      then (let reason = checkLimitations src (cp_Limitations cp)
            in if reason \<noteq> [] then reason else check_codec_profiles src cps)
      else check_codec_profiles src cps)"

definition single_quoted :: "string \<Rightarrow> string" where
  "single_quoted s = CHR 0x27 # s @ [CHR 0x27]"

definition checkDirectPlayProfile ::
  "Details \<Rightarrow> DirectPlayProfile \<Rightarrow> ClientInfo \<Rightarrow> string" where
  "checkDirectPlayProfile src profile clientInfo =
     (if dpp_Protocols profile \<noteq> [] \<and> \<not> containsIgnoreCase (dpp_Protocols profile) ProtocolHTTP
      then ''protocol not supported''
      else if dpp_Containers profile \<noteq> [] \<and>
              \<not> matchesContainer (sd_Container src) (dpp_Containers profile)
      then ''container '' @ single_quoted (sd_Container src) @ '' not supported by profile '' @
             DirectPlayProfile_String profile
      else if dpp_AudioCodecs profile \<noteq> [] \<and>
              \<not> matchesCodec (sd_Codec src) (dpp_AudioCodecs profile) \<and>
              \<not> matchesPCMWAVBridge src profile
      then ''audio codec '' @ single_quoted (sd_Codec src) @ '' not supported by profile '' @
             DirectPlayProfile_String profile
      else if dpp_MaxAudioChannels profile > 0 \<and> sd_Channels src > dpp_MaxAudioChannels profile
      then ''audio channels '' @ Itoa (sd_Channels src) @ '' not supported by profile '' @
             DirectPlayProfile_String profile @ '' (max '' @ Itoa (dpp_MaxAudioChannels profile) @ '')''
      else check_codec_profiles src (ci_CodecProfiles clientInfo))"

section \<open>Transcoding\<close>

definition computeBitrate ::
  "StreamEnv \<Rightarrow> Details \<Rightarrow> string \<Rightarrow> bool \<Rightarrow> ClientInfo \<Rightarrow> Details \<Rightarrow> Details option" where
  "computeBitrate env src targetFormat targetIsLossless clientInfo ts =
     (let step1 =
        (if sd_IsLossless src then
           (if \<not> targetIsLossless then
              Some (if ci_MaxTranscodingAudioBitrate clientInfo > 0
                    then ts\<lparr>sd_Bitrate := ci_MaxTranscodingAudioBitrate clientInfo\<rparr>
                    else if ci_MaxAudioBitrate clientInfo > 0
                    then ts\<lparr>sd_Bitrate := ci_MaxAudioBitrate clientInfo\<rparr>
                    else ts\<lparr>sd_Bitrate := lookupDefaultBitrate env targetFormat\<rparr>)
            else if ci_MaxAudioBitrate clientInfo > 0 \<and>
                    sd_Bitrate src > ci_MaxAudioBitrate clientInfo then None
            else Some ts)
         else Some (ts\<lparr>sd_Bitrate := sd_Bitrate src\<rparr>))
      in map_option (\<lambda>ts1.
           if ci_MaxAudioBitrate clientInfo > 0 \<and> sd_Bitrate ts1 > 0 \<and>
              sd_Bitrate ts1 > ci_MaxAudioBitrate clientInfo
           then ts1\<lparr>sd_Bitrate := ci_MaxAudioBitrate clientInfo\<rparr> else ts1) step1)"

text \<open>The inner and outer loop of \<open>applyCodecLimitations\<close>; \<open>None\<close> rejects the profile.\<close>

fun apply_limitations :: "go_int \<Rightarrow> bool \<Rightarrow> Limitation list \<Rightarrow> Details \<Rightarrow> Details option" where
  "apply_limitations sourceBitrate targetIsLossless [] ts = Some ts"
| "apply_limitations sourceBitrate targetIsLossless (lim # lims) ts =
     (case applyLimitation sourceBitrate lim ts of (result, ts') \<Rightarrow>
        if EqualFold (lim_Name lim) LimitationAudioBitrate \<and> targetIsLossless \<and>
           result = adjustAdjusted then None
        else if result = adjustCannotFit then None
        else apply_limitations sourceBitrate targetIsLossless lims ts')"

fun apply_codec_profiles ::
  "go_int \<Rightarrow> bool \<Rightarrow> string \<Rightarrow> CodecProfile list \<Rightarrow> Details \<Rightarrow> Details option" where
  "apply_codec_profiles sourceBitrate targetIsLossless targetCodec [] ts = Some ts"
| "apply_codec_profiles sourceBitrate targetIsLossless targetCodec (cp # cps) ts =
     (if \<not> EqualFold (cp_Type cp) CodecProfileTypeAudio then
        apply_codec_profiles sourceBitrate targetIsLossless targetCodec cps ts
      else if \<not> matchesCodec targetCodec [cp_Name cp] then
        apply_codec_profiles sourceBitrate targetIsLossless targetCodec cps ts
      else
        case apply_limitations sourceBitrate targetIsLossless (cp_Limitations cp) ts of
          None \<Rightarrow> None
        | Some ts' \<Rightarrow> apply_codec_profiles sourceBitrate targetIsLossless targetCodec cps ts')"

definition applyCodecLimitations ::
  "go_int \<Rightarrow> bool \<Rightarrow> ClientInfo \<Rightarrow> Details \<Rightarrow> Details option" where
  "applyCodecLimitations sourceBitrate targetIsLossless clientInfo ts =
     apply_codec_profiles sourceBitrate targetIsLossless (sd_Codec ts)
       (ci_CodecProfiles clientInfo) ts"

text \<open>The codec-intrinsic sample rate and channel limits.\<close>

definition clamp_to_codec :: "Details \<Rightarrow> Details" where
  "clamp_to_codec ts0 =
     (let fixedRate = codecFixedOutputSampleRate (sd_Codec ts0);
          ts1 = (if fixedRate > 0 then ts0\<lparr>sd_SampleRate := fixedRate\<rparr> else ts0);
          maxRate = codecMaxSampleRate (sd_Codec ts1);
          ts2 = (if maxRate > 0 \<and> sd_SampleRate ts1 > maxRate then ts1\<lparr>sd_SampleRate := maxRate\<rparr>
                 else ts1);
          maxCh = codecMaxChannels (sd_Codec ts2)
      in if maxCh > 0 \<and> sd_Channels ts2 > maxCh then ts2\<lparr>sd_Channels := maxCh\<rparr> else ts2)"

definition transcode_template :: "Details \<Rightarrow> Profile \<Rightarrow> Details" where
  "transcode_template src profile =
     (let (responseContainer, targetFormat) = resolveTargetFormat profile;
          codec = ToLower (tp_AudioCodec profile)
      in \<lparr>sd_Container = responseContainer,
          sd_Codec = (if codec = [] then targetFormat else codec), sd_Profile = [],
          sd_Bitrate = 0,
          sd_SampleRate = normalizeSourceSampleRate (sd_SampleRate src) (sd_Codec src),
          sd_BitDepth = targetBitDepth (sd_BitDepth src) (sd_Codec src)
                          (isLosslessFormat targetFormat),
          sd_Channels = sd_Channels src, sd_Duration = 0, sd_Size = 0,
          sd_IsLossless = isLosslessFormat targetFormat\<rparr>)"

definition computeTranscodedStream ::
  "StreamEnv \<Rightarrow> Details \<Rightarrow> Profile \<Rightarrow> ClientInfo \<Rightarrow> (Details \<times> string) option" where
  "computeTranscodedStream env src profile clientInfo =
     (let targetFormat = snd (resolveTargetFormat profile);
          targetIsLossless = isLosslessFormat targetFormat
      in if tp_Protocol profile \<noteq> [] \<and> \<not> EqualFold (tp_Protocol profile) ProtocolHTTP then None
         else if targetFormat = [] then None
         else if LookupTranscodeCommand env targetFormat = [] then None
         else if \<not> sd_IsLossless src \<and> targetIsLossless then None
         else
           case computeBitrate env src targetFormat targetIsLossless clientInfo
                  (clamp_to_codec (transcode_template src profile)) of
             None \<Rightarrow> None
           | Some ts1 \<Rightarrow>
               let ts2 = (if tp_MaxAudioChannels profile > 0 \<and>
                             sd_Channels ts1 > tp_MaxAudioChannels profile
                          then ts1\<lparr>sd_Channels := tp_MaxAudioChannels profile\<rparr> else ts1)
               in case applyCodecLimitations (sd_Bitrate src) targetIsLossless clientInfo ts2 of
                    None \<Rightarrow> None
                  | Some ts3 \<Rightarrow> Some (ts3, targetFormat))"

section \<open>The decision\<close>

text \<open>The loop over the direct play profiles: whether one matches, and the reasons collected.\<close>

fun try_direct_play ::
  "Details \<Rightarrow> ClientInfo \<Rightarrow> DirectPlayProfile list \<Rightarrow> string list \<Rightarrow> bool \<times> string list" where
  "try_direct_play src ci [] reasons = (False, reasons)"
| "try_direct_play src ci (p # ps) reasons =
     (let reason = checkDirectPlayProfile src p ci
      in if reason = [] then (True, []) else try_direct_play src ci ps (reasons @ [reason]))"

fun first_transcode ::
  "StreamEnv \<Rightarrow> Details \<Rightarrow> ClientInfo \<Rightarrow> Profile list \<Rightarrow> (Details \<times> string) option" where
  "first_transcode env src ci [] = None"
| "first_transcode env src ci (p # ps) =
     (case computeTranscodedStream env src p ci of
        Some r \<Rightarrow> Some r | None \<Rightarrow> first_transcode env src ci ps)"

definition decide :: "StreamEnv \<Rightarrow> MediaFile \<Rightarrow> Details \<Rightarrow> ClientInfo \<Rightarrow> TranscodeDecision" where
  "decide env mf src clientInfo =
     (let base = \<lparr>td_MediaID = mf_ID mf, td_CanDirectPlay = False, td_CanTranscode = False,
            td_TranscodeReasons = [], td_ErrorReason = [], td_TargetFormat = [],
            td_TargetBitrate = 0, td_TargetChannels = 0, td_TargetSampleRate = 0,
            td_TargetBitDepth = 0, td_SourceStream = src, td_SourceUpdatedAt = mf_UpdatedAt mf,
            td_TranscodeStream = None\<rparr>;
          (direct, reasons) =
            (if ci_MaxAudioBitrate clientInfo > 0 \<and>
                sd_Bitrate src > ci_MaxAudioBitrate clientInfo
             then (False, [''audio bitrate not supported''])
             else try_direct_play src clientInfo (ci_DirectPlayProfiles clientInfo) []);
          d = base\<lparr>td_CanDirectPlay := direct, td_TranscodeReasons := reasons\<rparr>
      in if direct then d
         else case first_transcode env src clientInfo (ci_TranscodingProfiles clientInfo) of
                Some (ts, transcodeFormat) \<Rightarrow>
                  d\<lparr>td_CanTranscode := True, td_TargetFormat := transcodeFormat,
                    td_TargetBitrate := sd_Bitrate ts, td_TargetChannels := sd_Channels ts,
                    td_TargetSampleRate := sd_SampleRate ts, td_TargetBitDepth := sd_BitDepth ts,
                    td_TranscodeStream := Some ts\<rparr>
              | None \<Rightarrow> d\<lparr>td_ErrorReason := ''no compatible playback profile found''\<rparr>)"

definition MakeDecision ::
  "StreamEnv \<Rightarrow> MediaFile \<Rightarrow> ClientInfo \<Rightarrow> bool \<Rightarrow>
   (decision_error + TranscodeDecision) \<times> MediaFile \<times> (string \<times> string) list" where
  "MakeDecision env mf clientInfo skipProbe =
     (if \<not> skipProbe \<and> env_IsProbeAvailable env then
        (case ensureProbed env mf of
           (Inl err, mf', calls) \<Rightarrow> (Inl err, mf', calls)
         | (Inr probe, mf', calls) \<Rightarrow>
             (Inr (decide env mf' (buildSourceStream env mf' probe) clientInfo), mf', calls))
      else (Inr (decide env mf (buildSourceStream env mf None) clientInfo), mf, []))"

section \<open>Legacy requests\<close>

definition applyServerOverride :: "Ctx \<Rightarrow> ClientInfo \<Rightarrow> Transcoding \<Rightarrow> ClientInfo" where
  "applyServerOverride ctx original trc =
     (let maxBitRate = (case ctx_Player ctx of
            Some player \<Rightarrow> if pl_MaxBitRate player > 0 then pl_MaxBitRate player
                           else trc_DefaultBitRate trc
          | None \<Rightarrow> trc_DefaultBitRate trc)
      in \<lparr>ci_Name = ci_Name original, ci_Platform = ci_Platform original,
          ci_MaxAudioBitrate = maxBitRate, ci_MaxTranscodingAudioBitrate = maxBitRate,
          ci_DirectPlayProfiles =
            [\<lparr>dpp_Containers = [trc_TargetFormat trc], dpp_AudioCodecs = [trc_TargetFormat trc],
              dpp_Protocols = [ProtocolHTTP], dpp_MaxAudioChannels = 0\<rparr>],
          ci_TranscodingProfiles =
            [\<lparr>tp_Container = trc_TargetFormat trc, tp_AudioCodec = trc_TargetFormat trc,
              tp_Protocol = ProtocolHTTP, tp_MaxAudioChannels = 0\<rparr>],
          ci_CodecProfiles = []\<rparr>)"

definition buildLegacyClientInfo ::
  "StreamEnv \<Rightarrow> MediaFile \<Rightarrow> string \<Rightarrow> go_int \<Rightarrow> go_int \<Rightarrow> ClientInfo" where
  "buildLegacyClientInfo env mf reqFormat reqBitRate playerMaxBitRate =
     (let ci = \<lparr>ci_Name = ''legacy'', ci_Platform = [], ci_MaxAudioBitrate = 0,
            ci_MaxTranscodingAudioBitrate = 0, ci_DirectPlayProfiles = [],
            ci_TranscodingProfiles = [], ci_CodecProfiles = []\<rparr>;
          dflt = env_DefaultDownsamplingFormat env;
          targetFormat =
            (if reqFormat \<noteq> [] then reqFormat
             else if reqBitRate > 0 \<and> reqBitRate < mf_BitRate mf \<and> dflt \<noteq> [] then dflt
             else if playerMaxBitRate > 0 \<and> playerMaxBitRate < mf_BitRate mf \<and> dflt \<noteq> [] then dflt
             else [])
      in if targetFormat \<noteq> [] then
           let ci1 = (if reqFormat = [] \<or> EqualFold reqFormat (mf_Suffix mf) then
                        ci\<lparr>ci_DirectPlayProfiles :=
                          [\<lparr>dpp_Containers = [mf_Suffix mf], dpp_AudioCodecs = [AudioCodec mf],
                            dpp_Protocols = [ProtocolHTTP], dpp_MaxAudioChannels = 0\<rparr>]\<rparr>
                      else ci);
               ci2 = ci1\<lparr>ci_TranscodingProfiles :=
                        [\<lparr>tp_Container = targetFormat, tp_AudioCodec = targetFormat,
                          tp_Protocol = ProtocolHTTP, tp_MaxAudioChannels = 0\<rparr>]\<rparr>
           in if reqBitRate > 0 then
                ci2\<lparr>ci_MaxAudioBitrate := reqBitRate, ci_MaxTranscodingAudioBitrate := reqBitRate\<rparr>
              else ci2
         else
           ci\<lparr>ci_DirectPlayProfiles :=
             [\<lparr>dpp_Containers = [], dpp_AudioCodecs = [], dpp_Protocols = [ProtocolHTTP],
               dpp_MaxAudioChannels = 0\<rparr>]\<rparr>)"

definition raw_request :: "go_int \<Rightarrow> Request" where
  "raw_request offset = \<lparr>req_Format = ''raw'', req_BitRate = 0, req_SampleRate = 0,
     req_BitDepth = 0, req_Channels = 0, req_Offset = offset\<rparr>"

text \<open>The client a legacy request is decided for: server override, else player cap.\<close>

definition legacy_client ::
  "StreamEnv \<Rightarrow> Ctx \<Rightarrow> MediaFile \<Rightarrow> string \<Rightarrow> go_int \<Rightarrow> ClientInfo" where
  "legacy_client env ctx mf reqFormat reqBitRate =
     (let playerMaxBitRate = (case ctx_Player ctx of Some p \<Rightarrow> pl_MaxBitRate p | None \<Rightarrow> 0);
          clientInfo = buildLegacyClientInfo env mf reqFormat reqBitRate playerMaxBitRate
      in case ctx_Transcoding ctx of
           Some trc \<Rightarrow>
             if trc_TargetFormat trc \<noteq> [] then applyServerOverride ctx clientInfo trc
             else (case ctx_Player ctx of
                     Some player \<Rightarrow> fst (CapBitrate (pl_MaxBitRate player) clientInfo)
                   | None \<Rightarrow> clientInfo)
         | None \<Rightarrow>
             (case ctx_Player ctx of
                Some player \<Rightarrow> fst (CapBitrate (pl_MaxBitRate player) clientInfo)
              | None \<Rightarrow> clientInfo))"

function ResolveRequest ::
  "StreamEnv \<Rightarrow> Ctx \<Rightarrow> MediaFile \<Rightarrow> string \<Rightarrow> go_int \<Rightarrow> go_int \<Rightarrow> Request" where
  "ResolveRequest env ctx mf reqFormat reqBitRate offset =
     (if reqFormat = ''raw'' then raw_request offset
      else
        case fst (MakeDecision env mf (legacy_client env ctx mf reqFormat reqBitRate) True) of
          Inl err \<Rightarrow> raw_request offset
        | Inr decision \<Rightarrow>
            if td_CanDirectPlay decision then raw_request offset
            else if td_CanTranscode decision then
              \<lparr>req_Format = td_TargetFormat decision, req_BitRate = td_TargetBitrate decision,
               req_SampleRate = td_TargetSampleRate decision,
               req_BitDepth = td_TargetBitDepth decision,
               req_Channels = td_TargetChannels decision, req_Offset = offset\<rparr>
            else
              (let fallbackFormat = env_DefaultDownsamplingFormat env
               in if reqFormat \<noteq> [] \<and> fallbackFormat \<noteq> [] \<and> \<not> EqualFold reqFormat fallbackFormat
                  then ResolveRequest env ctx mf fallbackFormat reqBitRate offset
                  else raw_request offset))"
  by pat_completeness auto

text \<open>The fallback format is tried once: a request for it does not fall back again.\<close>

termination
  by (relation "measure (\<lambda>(env, ctx, mf, reqFormat, reqBitRate, offset).
        if EqualFold reqFormat (env_DefaultDownsamplingFormat env) then 0 else 1)") auto

declare ResolveRequest.simps [simp del]

end
