(* ===== verification/Stream_Decider_Correct.thy ===== *)
theory Stream_Decider_Correct
  imports Stream_Decider
begin

text \<open>
  Correctness of the transcoding decision: the declarative meaning of a direct play profile and
  of a decision, the limits every transcoded stream respects, and the resolution of legacy
  requests.
\<close>

section \<open>Direct play: what a profile means\<close>

text \<open>The specification: every constraint the profile and the client state holds of the source.\<close>

definition plays_directly :: "Details \<Rightarrow> DirectPlayProfile \<Rightarrow> ClientInfo \<Rightarrow> bool" where
  "plays_directly src p ci \<longleftrightarrow>
     (dpp_Protocols p = [] \<or> containsIgnoreCase (dpp_Protocols p) ProtocolHTTP) \<and>
     (dpp_Containers p = [] \<or> matchesContainer (sd_Container src) (dpp_Containers p)) \<and>
     (dpp_AudioCodecs p = [] \<or> matchesCodec (sd_Codec src) (dpp_AudioCodecs p) \<or>
      matchesPCMWAVBridge src p) \<and>
     (dpp_MaxAudioChannels p \<le> 0 \<or> sd_Channels src \<le> dpp_MaxAudioChannels p) \<and>
     (\<forall>cp. cp \<in> set (ci_CodecProfiles ci) \<and> EqualFold (cp_Type cp) CodecProfileTypeAudio \<and>
        matchesCodec (sd_Codec src) [cp_Name cp] \<longrightarrow>
        \<not> (\<exists>lim. lim \<in> set (cp_Limitations cp) \<and> refuses src lim))"

definition direct_play_possible :: "Details \<Rightarrow> ClientInfo \<Rightarrow> bool" where
  "direct_play_possible src ci \<longleftrightarrow>
     \<not> (ci_MaxAudioBitrate ci > 0 \<and> sd_Bitrate src > ci_MaxAudioBitrate ci) \<and>
     (\<exists>p. p \<in> set (ci_DirectPlayProfiles ci) \<and> plays_directly src p ci)"

lemma checkLimitations_empty:
  "checkLimitations src lims = [] \<longleftrightarrow> \<not> (\<exists>lim. lim \<in> set lims \<and> refuses src lim)"
  using checkLimitations_find [of src lims] refuses_reason [of src]
  by (auto simp: find_None_iff find_Some_iff split: option.splits)

lemma check_codec_profiles_empty:
  "check_codec_profiles src cps = [] \<longleftrightarrow>
     (\<forall>cp. cp \<in> set cps \<and> EqualFold (cp_Type cp) CodecProfileTypeAudio \<and>
        matchesCodec (sd_Codec src) [cp_Name cp] \<longrightarrow>
        \<not> (\<exists>lim. lim \<in> set (cp_Limitations cp) \<and> refuses src lim))"
  by (induction cps) (auto simp: Let_def checkLimitations_empty)

lemma checkDirectPlayProfile_empty:
  "checkDirectPlayProfile src p ci = [] \<longleftrightarrow> plays_directly src p ci"
  by (auto simp: checkDirectPlayProfile_def plays_directly_def check_codec_profiles_empty
      not_less)

lemma try_direct_play_iff:
  "fst (try_direct_play src ci ps reasons) \<longleftrightarrow> (\<exists>p. p \<in> set ps \<and> plays_directly src p ci)"
  by (induction ps arbitrary: reasons) (auto simp: Let_def checkDirectPlayProfile_empty)

lemma try_direct_play_reasons:
  "snd (try_direct_play src ci ps reasons) =
     (if fst (try_direct_play src ci ps reasons) then []
      else reasons @ map (\<lambda>p. checkDirectPlayProfile src p ci) ps)"
  by (induction ps arbitrary: reasons) (auto simp: Let_def)

lemma first_transcode_find:
  "first_transcode env src ci ps =
     (case List.find (\<lambda>p. computeTranscodedStream env src p ci \<noteq> None) ps of
        None \<Rightarrow> None | Some p \<Rightarrow> computeTranscodedStream env src p ci)"
  by (induction ps) (auto split: option.splits)

lemma first_transcode_None:
  "first_transcode env src ci ps = None \<Longrightarrow> p \<in> set ps \<Longrightarrow> computeTranscodedStream env src p ci = None"
  by (induction ps) (auto split: option.splits)

lemma first_transcode_Some:
  assumes "first_transcode env src ci ps = Some (ts, fmt)"
  obtains p where "List.find (\<lambda>p. computeTranscodedStream env src p ci \<noteq> None) ps = Some p"
    "computeTranscodedStream env src p ci = Some (ts, fmt)" "p \<in> set ps"
proof (cases "List.find (\<lambda>p. computeTranscodedStream env src p ci \<noteq> None) ps")
  case None
  with assms show ?thesis by (simp add: first_transcode_find del: not_None_eq)
next
  case (Some p)
  moreover from this have "p \<in> set ps" by (auto simp: find_Some_iff)
  ultimately show ?thesis using assms that by (simp add: first_transcode_find del: not_None_eq)
qed

text \<open>The three outcomes of \<open>decide\<close>.\<close>

lemma direct_outcome:
  "fst (if ci_MaxAudioBitrate ci > 0 \<and> sd_Bitrate src > ci_MaxAudioBitrate ci
        then (False, [''audio bitrate not supported''])
        else try_direct_play src ci (ci_DirectPlayProfiles ci) []) \<longleftrightarrow> direct_play_possible src ci"
  by (simp add: direct_play_possible_def try_direct_play_iff)

lemma decide_direct:
  assumes "direct_play_possible src ci"
  shows "td_CanDirectPlay (decide env mf src ci)" "\<not> td_CanTranscode (decide env mf src ci)"
    "td_ErrorReason (decide env mf src ci) = []" "td_SourceStream (decide env mf src ci) = src"
  using assms direct_outcome [of ci src] by (simp_all add: decide_def Let_def case_prod_beta)

lemma decide_transcode:
  assumes "\<not> direct_play_possible src ci"
    and "first_transcode env src ci (ci_TranscodingProfiles ci) = Some (ts, fmt)"
  shows "\<not> td_CanDirectPlay (decide env mf src ci)" "td_CanTranscode (decide env mf src ci)"
    "td_ErrorReason (decide env mf src ci) = []"
    "td_TargetFormat (decide env mf src ci) = fmt"
    "td_TranscodeStream (decide env mf src ci) = Some ts"
    "td_TargetBitrate (decide env mf src ci) = sd_Bitrate ts"
    "td_TargetChannels (decide env mf src ci) = sd_Channels ts"
    "td_TargetSampleRate (decide env mf src ci) = sd_SampleRate ts"
    "td_TargetBitDepth (decide env mf src ci) = sd_BitDepth ts"
  using assms direct_outcome [of ci src] by (simp_all add: decide_def Let_def case_prod_beta)

lemma decide_refused:
  assumes "\<not> direct_play_possible src ci"
    and "first_transcode env src ci (ci_TranscodingProfiles ci) = None"
  shows "\<not> td_CanDirectPlay (decide env mf src ci)" "\<not> td_CanTranscode (decide env mf src ci)"
    "td_ErrorReason (decide env mf src ci) = ''no compatible playback profile found''"
  using assms direct_outcome [of ci src] by (simp_all add: decide_def Let_def case_prod_beta)

section \<open>Invariants of the limitation loops\<close>

text \<open>A property that every accepted adjustment keeps is kept by both loops.\<close>

lemma apply_limitations_keeps:
  assumes "apply_limitations b l lims ts = Some ts'" and "P ts" and "set lims \<subseteq> L"
    and step: "\<And>lim ts r ts'. lim \<in> L \<Longrightarrow> P ts \<Longrightarrow> applyLimitation b lim ts = (r, ts') \<Longrightarrow>
      \<not> (lim_Name lim = LimitationAudioBitrate \<and> l \<and> r = adjustAdjusted) \<Longrightarrow> P ts'"
  shows "P ts'"
  using assms(1-3)
proof (induction lims arbitrary: ts)
  case (Cons lim lims)
  obtain r t where rt: "applyLimitation b lim ts = (r, t)" by (cases "applyLimitation b lim ts")
  with Cons.prems(1) have rest: "apply_limitations b l lims t = Some ts'"
    and ok: "\<not> (EqualFold (lim_Name lim) LimitationAudioBitrate \<and> l \<and> r = adjustAdjusted)"
    by (auto split: if_splits)
  from ok have ok': "\<not> (lim_Name lim = LimitationAudioBitrate \<and> l \<and> r = adjustAdjusted)"
    using EqualFold_refl by metis
  from Cons.prems(3) have "lim \<in> L" by simp
  then have "P t" by (rule step [OF _ Cons.prems(2) rt ok'])
  with Cons.prems(3) show ?case using Cons.IH [OF rest] by simp
qed simp

lemma apply_codec_profiles_keeps:
  assumes "apply_codec_profiles b l codec cps ts = Some ts'" and "P ts"
    and "(\<Union>cp\<in>set cps. set (cp_Limitations cp)) \<subseteq> L"
    and step: "\<And>lim ts r ts'. lim \<in> L \<Longrightarrow> P ts \<Longrightarrow> applyLimitation b lim ts = (r, ts') \<Longrightarrow>
      \<not> (lim_Name lim = LimitationAudioBitrate \<and> l \<and> r = adjustAdjusted) \<Longrightarrow> P ts'"
  shows "P ts'"
  using assms(1-3)
proof (induction cps arbitrary: ts)
  case (Cons cp cps)
  show ?case
  proof (cases "EqualFold (cp_Type cp) CodecProfileTypeAudio \<and> matchesCodec codec [cp_Name cp]")
    case True
    with Cons.prems(1) obtain t where t: "apply_limitations b l (cp_Limitations cp) ts = Some t"
      and rest: "apply_codec_profiles b l codec cps t = Some ts'"
      by (auto split: option.splits)
    have "P t"
      using Cons.prems(3) by (intro apply_limitations_keeps [where P = P, OF t Cons.prems(2) _ step]) auto
    with rest Cons show ?thesis by auto
  next
    case False
    with Cons show ?thesis by (auto split: if_splits)
  qed
qed simp

lemma codec_profiles_lower:
  assumes "apply_codec_profiles b l codec cps ts = Some ts'"
  shows "sd_Channels ts' \<le> sd_Channels ts \<and> sd_SampleRate ts' \<le> sd_SampleRate ts \<and>
    sd_BitDepth ts' \<le> sd_BitDepth ts \<and> sd_Codec ts' = sd_Codec ts \<and>
    sd_Container ts' = sd_Container ts \<and> sd_IsLossless ts' = sd_IsLossless ts"
  by (rule apply_codec_profiles_keeps [where L = UNIV and P = "\<lambda>t. sd_Channels t \<le> sd_Channels ts \<and>
        sd_SampleRate t \<le> sd_SampleRate ts \<and> sd_BitDepth t \<le> sd_BitDepth ts \<and>
        sd_Codec t = sd_Codec ts \<and> sd_Container t = sd_Container ts \<and>
        sd_IsLossless t = sd_IsLossless ts", OF assms])
    (auto dest!: applyLimitation_lowers simp: lowers_def)

text \<open>
  A bitrate limitation that lists the value 0 would make the stream's bitrate 0, which the code
  reads as "not set yet" (see \<open>zero_bitrate_limit_breaks_cap\<close>).
\<close>

definition no_zero_bitrate :: "Limitation \<Rightarrow> bool" where
  "no_zero_bitrate lim \<longleftrightarrow>
     \<not> (lim_Name lim = LimitationAudioBitrate \<and> matches_int (lim_Values lim) 0)"

definition within_cap :: "go_int \<Rightarrow> go_int \<Rightarrow> Details \<Rightarrow> bool" where
  "within_cap b cap ts \<longleftrightarrow> sd_Bitrate ts \<le> cap \<and> (sd_Bitrate ts = 0 \<longrightarrow> b \<le> cap)"

lemma applyLimitation_bitrate:
  assumes "applyLimitation b lim ts = (r, ts')"
  shows "sd_Bitrate ts' = sd_Bitrate ts \<or>
    lim_Name lim = LimitationAudioBitrate \<and> matches_int (lim_Values lim) (sd_Bitrate ts') \<and>
    r = adjustAdjusted \<and> sd_Bitrate ts' < (if sd_Bitrate ts = 0 then b else sd_Bitrate ts)"
proof (cases "lim_Name lim = LimitationAudioBitrate")
  case True
  let ?cur = "if sd_Bitrate ts = 0 then b else sd_Bitrate ts"
  obtain r' x where a: "applyIntLimitation (lim_Comparison lim) (lim_Values lim) ?cur = (r', x)"
    by fastforce
  show ?thesis
  proof (cases "r' = adjustAdjusted")
    case adj: True
    with a applyInt_adjusted obtain v where "x = Some v" "v < ?cur" "matches_int (lim_Values lim) v"
      by blast
    with True assms a adj show ?thesis by (auto simp: applyLimitation_cases)
  next
    case False
    with a applyInt_unchanged have "x = None" by blast
    with True assms a show ?thesis by (auto simp: applyLimitation_cases)
  qed
next
  case False
  with assms show ?thesis
    by (auto simp: applyLimitation_cases split: if_splits prod.splits option.splits)
qed

lemma within_cap_step:
  assumes "no_zero_bitrate lim" "within_cap b cap ts" "applyLimitation b lim ts = (r, ts')"
  shows "within_cap b cap ts'"
  using applyLimitation_bitrate [OF assms(3)] assms(1,2)
  by (auto simp: within_cap_def no_zero_bitrate_def split: if_splits)

lemma lookupDefaultBitrate_pos: "0 < lookupDefaultBitrate env format"
  by (auto simp: lookupDefaultBitrate_def fallbackBitrate_def find_Some_iff split: option.splits)

lemma computeBitrate_frame:
  assumes "computeBitrate env src fmt l ci ts = Some ts'"
  shows "sd_Channels ts' = sd_Channels ts \<and> sd_SampleRate ts' = sd_SampleRate ts \<and>
    sd_BitDepth ts' = sd_BitDepth ts \<and> sd_Codec ts' = sd_Codec ts \<and>
    sd_Container ts' = sd_Container ts \<and> sd_IsLossless ts' = sd_IsLossless ts"
  using assms by (auto simp: computeBitrate_def split: if_splits)

lemma computeBitrate_cap:
  assumes "computeBitrate env src fmt l ci ts = Some ts'" and "ci_MaxAudioBitrate ci > 0"
    and "sd_Bitrate ts = 0"
  shows "within_cap (sd_Bitrate src) (ci_MaxAudioBitrate ci) ts'"
  using assms lookupDefaultBitrate_pos [of env fmt]
  by (auto simp: computeBitrate_def within_cap_def split: if_splits)

lemma clamp_to_codec_frame:
  "sd_Codec (clamp_to_codec ts) = sd_Codec ts \<and> sd_Container (clamp_to_codec ts) = sd_Container ts \<and>
   sd_IsLossless (clamp_to_codec ts) = sd_IsLossless ts \<and> sd_Bitrate (clamp_to_codec ts) = sd_Bitrate ts \<and>
   sd_BitDepth (clamp_to_codec ts) = sd_BitDepth ts"
  by (simp add: clamp_to_codec_def Let_def)

lemma clamp_to_codec_limits:
  "sd_Channels (clamp_to_codec ts) \<le> sd_Channels ts \<and>
   (codecMaxChannels (sd_Codec ts) > 0 \<longrightarrow>
      sd_Channels (clamp_to_codec ts) \<le> codecMaxChannels (sd_Codec ts)) \<and>
   (codecMaxSampleRate (sd_Codec ts) > 0 \<longrightarrow>
      sd_SampleRate (clamp_to_codec ts) \<le> codecMaxSampleRate (sd_Codec ts)) \<and>
   sd_SampleRate (clamp_to_codec ts) \<le> max (sd_SampleRate ts) (codecFixedOutputSampleRate (sd_Codec ts))"
  by (auto simp: clamp_to_codec_def Let_def)

lemma transcode_template_simps [simp]:
  "sd_Channels (transcode_template src p) = sd_Channels src"
  "sd_SampleRate (transcode_template src p) =
     normalizeSourceSampleRate (sd_SampleRate src) (sd_Codec src)"
  "sd_Bitrate (transcode_template src p) = 0"
  "sd_IsLossless (transcode_template src p) = isLosslessFormat (snd (resolveTargetFormat p))"
  by (simp_all add: transcode_template_def Let_def split: prod.splits)

text \<open>The stages a successful \<open>computeTranscodedStream\<close> went through.\<close>

lemma computeTranscodedStream_stages:
  assumes "computeTranscodedStream env src p ci = Some (ts, fmt)"
  obtains ts1 ts2 where
    "fmt = snd (resolveTargetFormat p)" "fmt \<noteq> []" "LookupTranscodeCommand env fmt \<noteq> []"
    "isLosslessFormat fmt \<Longrightarrow> sd_IsLossless src"
    "computeBitrate env src fmt (isLosslessFormat fmt) ci
       (clamp_to_codec (transcode_template src p)) = Some ts1"
    "ts2 = (if tp_MaxAudioChannels p > 0 \<and> sd_Channels ts1 > tp_MaxAudioChannels p
            then ts1\<lparr>sd_Channels := tp_MaxAudioChannels p\<rparr> else ts1)"
    "apply_codec_profiles (sd_Bitrate src) (isLosslessFormat fmt) (sd_Codec ts2)
       (ci_CodecProfiles ci) ts2 = Some ts"
  using assms
  by (auto simp: computeTranscodedStream_def applyCodecLimitations_def Let_def
      split: if_splits option.splits)

lemma transcoded_bitrate_cap:
  assumes "computeTranscodedStream env src p ci = Some (ts, fmt)" and "ci_MaxAudioBitrate ci > 0"
    and nz: "\<forall>cp\<in>set (ci_CodecProfiles ci). \<forall>lim\<in>set (cp_Limitations cp). no_zero_bitrate lim"
  shows "sd_Bitrate ts \<le> ci_MaxAudioBitrate ci"
  using assms(1)
proof (rule computeTranscodedStream_stages)
  fix ts1 ts2
  assume b: "computeBitrate env src fmt (isLosslessFormat fmt) ci
       (clamp_to_codec (transcode_template src p)) = Some ts1"
    and m: "ts2 = (if tp_MaxAudioChannels p > 0 \<and> sd_Channels ts1 > tp_MaxAudioChannels p
            then ts1\<lparr>sd_Channels := tp_MaxAudioChannels p\<rparr> else ts1)"
    and l: "apply_codec_profiles (sd_Bitrate src) (isLosslessFormat fmt) (sd_Codec ts2)
       (ci_CodecProfiles ci) ts2 = Some ts"
  have "within_cap (sd_Bitrate src) (ci_MaxAudioBitrate ci) ts1"
    using computeBitrate_cap [OF b assms(2)] by (simp add: clamp_to_codec_frame)
  then have "within_cap (sd_Bitrate src) (ci_MaxAudioBitrate ci) ts2"
    using m by (simp add: within_cap_def)
  then have "within_cap (sd_Bitrate src) (ci_MaxAudioBitrate ci) ts"
    by (rule apply_codec_profiles_keeps [OF l, where L = "Collect no_zero_bitrate"])
      (use nz in \<open>auto intro: within_cap_step\<close>)
  then show ?thesis by (simp add: within_cap_def)
qed

section \<open>Upper-bound limitations\<close>

text \<open>The stream parameter a limitation talks about; 0 when it talks about none.\<close>

definition measured :: "go_int \<Rightarrow> Limitation \<Rightarrow> Details \<Rightarrow> go_int" where
  "measured b lim ts =
     (if lim_Name lim = LimitationAudioChannels then sd_Channels ts
      else if lim_Name lim = LimitationAudioBitrate then
        (if sd_Bitrate ts = 0 then b else sd_Bitrate ts)
      else if lim_Name lim = LimitationAudioSamplerate then sd_SampleRate ts
      else if lim_Name lim = LimitationAudioBitdepth then max 0 (sd_BitDepth ts)
      else 0)"

definition upper_bound :: "Limitation \<Rightarrow> bool" where
  "upper_bound lim \<longleftrightarrow> lim_Comparison lim = ComparisonLessThanEqual \<and> no_zero_bitrate lim"

definition satisfied :: "go_int \<Rightarrow> Limitation \<Rightarrow> Details \<Rightarrow> bool" where
  "satisfied b lim ts \<longleftrightarrow> fst (applyLimitation b lim ts) = adjustNone"

definition bound_of :: "Limitation \<Rightarrow> go_int option" where
  "bound_of lim = (case lim_Values lim of [] \<Rightarrow> None | v # _ \<Rightarrow> parseInt v)"

lemma bound_of_nonneg: "bound_of lim = Some n \<Longrightarrow> 0 \<le> n"
  by (auto simp: bound_of_def parseInt_nonneg split: list.splits)

lemma applyInt_upper:
  "applyIntLimitation ComparisonLessThanEqual (lim_Values lim) x =
     (case bound_of lim of
        None \<Rightarrow> (adjustNone, None)
      | Some n \<Rightarrow> if x \<le> n then (adjustNone, None) else (adjustAdjusted, Some n))"
  by (auto simp: applyIntLimitation_def bound_of_def split: list.splits)

lemma satisfied_upper:
  "upper_bound lim \<Longrightarrow> satisfied b lim ts \<longleftrightarrow> (\<forall>n. bound_of lim = Some n \<longrightarrow> measured b lim ts \<le> n)"
  using bound_of_nonneg [of lim]
  by (cases "bound_of lim")
    (auto simp: satisfied_def upper_bound_def applyLimitation_cases applyInt_upper measured_def)

lemma measured_mono:
  assumes "applyLimitation b lim' ts = (r, ts')" "no_zero_bitrate lim'"
  shows "measured b lim ts' \<le> measured b lim ts"
proof -
  from applyLimitation_bitrate [OF assms(1)] assms(2)
  have "(if sd_Bitrate ts' = 0 then b else sd_Bitrate ts') \<le> (if sd_Bitrate ts = 0 then b else sd_Bitrate ts)"
    by (auto simp: no_zero_bitrate_def)
  with applyLimitation_lowers [OF assms(1)] show ?thesis
    by (auto simp: measured_def lowers_def)
qed

lemma satisfied_kept:
  "upper_bound lim \<Longrightarrow> upper_bound lim' \<Longrightarrow> satisfied b lim ts \<Longrightarrow>
   applyLimitation b lim' ts = (r, ts') \<Longrightarrow> satisfied b lim ts'"
  using measured_mono [of b lim' ts r ts' lim]
  by (auto simp: satisfied_upper) (auto simp: upper_bound_def intro: order_trans)

lemma bitrate_bound_nonzero:
  "no_zero_bitrate lim \<Longrightarrow> lim_Name lim = LimitationAudioBitrate \<Longrightarrow> bound_of lim \<noteq> Some 0"
  by (auto simp: no_zero_bitrate_def bound_of_def matches_int_def split: list.splits)

lemma satisfied_after:
  "upper_bound lim \<Longrightarrow> applyLimitation b lim ts = (r, ts') \<Longrightarrow> satisfied b lim ts'"
  using bound_of_nonneg [of lim] bitrate_bound_nonzero [of lim, unfolded limitation_name_defs]
  by (cases "bound_of lim")
    (auto simp: satisfied_def upper_bound_def applyLimitation_cases applyInt_upper
      split: if_splits)

lemma apply_limitations_satisfied:
  "apply_limitations b l lims ts = Some ts' \<Longrightarrow> \<forall>lim\<in>set lims. upper_bound lim \<Longrightarrow>
   lim \<in> set lims \<Longrightarrow> satisfied b lim ts'"
proof (induction lims arbitrary: ts)
  case (Cons lim0 lims)
  obtain r t where rt: "applyLimitation b lim0 ts = (r, t)" by (cases "applyLimitation b lim0 ts")
  with Cons.prems(1) have rest: "apply_limitations b l lims t = Some ts'"
    by (auto split: if_splits)
  from Cons.prems(2) rt have "satisfied b lim0 t" using satisfied_after by auto
  then have "satisfied b lim0 ts'"
    by (rule apply_limitations_keeps [OF rest, where L = "Collect upper_bound"])
      (use Cons.prems(2) in \<open>auto intro: satisfied_kept\<close>)
  with Cons rest show ?case by auto
qed simp

lemma codec_profiles_satisfied:
  "apply_codec_profiles b l codec cps ts = Some ts' \<Longrightarrow>
   \<forall>cp\<in>set cps. \<forall>lim\<in>set (cp_Limitations cp). upper_bound lim \<Longrightarrow>
   cp \<in> set cps \<Longrightarrow> EqualFold (cp_Type cp) CodecProfileTypeAudio \<Longrightarrow>
   matchesCodec codec [cp_Name cp] \<Longrightarrow> lim \<in> set (cp_Limitations cp) \<Longrightarrow> satisfied b lim ts'"
proof (induction cps arbitrary: ts)
  case (Cons cp0 cps)
  show ?case
  proof (cases "EqualFold (cp_Type cp0) CodecProfileTypeAudio \<and> matchesCodec codec [cp_Name cp0]")
    case True
    with Cons.prems(1) obtain t where t: "apply_limitations b l (cp_Limitations cp0) ts = Some t"
      and rest: "apply_codec_profiles b l codec cps t = Some ts'"
      by (auto split: option.splits)
    show ?thesis
    proof (cases "cp \<in> set cps")
      case True
      with Cons rest show ?thesis by auto
    next
      case False
      with Cons.prems have "satisfied b lim t" using apply_limitations_satisfied [OF t] by auto
      then show ?thesis
        by (rule apply_codec_profiles_keeps [OF rest, where L = "Collect upper_bound"])
          (use Cons.prems in \<open>auto intro: satisfied_kept\<close>)
    qed
  next
    case False
    with Cons show ?thesis by (auto split: if_splits)
  qed
qed simp

section \<open>Properties\<close>

text \<open>
  C1. A decision has exactly one outcome. Direct play is chosen exactly when the source respects
  the client's global bitrate limit and some direct play profile accepts it with all of its
  constraints (the declarative \<open>plays_directly\<close>); otherwise the first transcoding profile that
  yields a stream is chosen and its parameters become the target parameters; otherwise the
  decision carries an error reason.
\<close>

theorem decide_outcome:
  "td_CanDirectPlay (decide env mf src ci) = direct_play_possible src ci \<and>
   td_CanTranscode (decide env mf src ci) =
     (\<not> direct_play_possible src ci \<and>
      (\<exists>p. p \<in> set (ci_TranscodingProfiles ci) \<and> computeTranscodedStream env src p ci \<noteq> None)) \<and>
   (td_ErrorReason (decide env mf src ci) = []) =
     (td_CanDirectPlay (decide env mf src ci) \<or> td_CanTranscode (decide env mf src ci)) \<and>
   (td_CanTranscode (decide env mf src ci) \<longrightarrow>
     (\<exists>p ts. List.find (\<lambda>p. computeTranscodedStream env src p ci \<noteq> None)
          (ci_TranscodingProfiles ci) = Some p \<and>
        computeTranscodedStream env src p ci = Some (ts, td_TargetFormat (decide env mf src ci)) \<and>
        td_TranscodeStream (decide env mf src ci) = Some ts \<and>
        td_TargetBitrate (decide env mf src ci) = sd_Bitrate ts \<and>
        td_TargetChannels (decide env mf src ci) = sd_Channels ts \<and>
        td_TargetSampleRate (decide env mf src ci) = sd_SampleRate ts \<and>
        td_TargetBitDepth (decide env mf src ci) = sd_BitDepth ts))"
proof (cases "direct_play_possible src ci")
  case True
  then show ?thesis by (simp add: decide_direct)
next
  case False
  show ?thesis
  proof (cases "first_transcode env src ci (ci_TranscodingProfiles ci)")
    case None
    with False first_transcode_None [of env src ci] show ?thesis by (simp add: decide_refused)
  next
    case (Some r)
    obtain ts fmt where r: "r = (ts, fmt)" by (cases r)
    from Some [unfolded r] obtain p where
      "List.find (\<lambda>p. computeTranscodedStream env src p ci \<noteq> None) (ci_TranscodingProfiles ci) = Some p"
      "computeTranscodedStream env src p ci = Some (ts, fmt)" "p \<in> set (ci_TranscodingProfiles ci)"
      by (rule first_transcode_Some)
    with False Some r show ?thesis
      by (simp add: decide_transcode del: not_None_eq) blast
  qed
qed

text \<open>
  C19. A transcoded stream never exceeds what the source, the codec and the profile allow: no
  lossy source becomes lossless, channels never grow and respect the codec's and the profile's
  maximum, the sample rate respects the codec's maximum and is raised above the (DSD-normalised)
  source rate only by a codec with a fixed output rate, and a command exists for the format.
\<close>

theorem computeTranscodedStream_limits:
  assumes "computeTranscodedStream env src p ci = Some (ts, fmt)"
  shows "(sd_IsLossless ts \<longrightarrow> sd_IsLossless src) \<and> sd_IsLossless ts = isLosslessFormat fmt \<and>
     sd_Channels ts \<le> sd_Channels src \<and>
     (tp_MaxAudioChannels p > 0 \<longrightarrow> sd_Channels ts \<le> tp_MaxAudioChannels p) \<and>
     (codecMaxChannels (sd_Codec ts) > 0 \<longrightarrow> sd_Channels ts \<le> codecMaxChannels (sd_Codec ts)) \<and>
     (codecMaxSampleRate (sd_Codec ts) > 0 \<longrightarrow>
        sd_SampleRate ts \<le> codecMaxSampleRate (sd_Codec ts)) \<and>
     sd_SampleRate ts \<le> max (normalizeSourceSampleRate (sd_SampleRate src) (sd_Codec src))
        (codecFixedOutputSampleRate (sd_Codec ts)) \<and>
     fmt \<noteq> [] \<and> LookupTranscodeCommand env fmt \<noteq> []"
  using assms
proof (rule computeTranscodedStream_stages)
  fix ts1 ts2
  let ?t0 = "transcode_template src p"
  assume s: "fmt = snd (resolveTargetFormat p)" "fmt \<noteq> []" "LookupTranscodeCommand env fmt \<noteq> []"
    "isLosslessFormat fmt \<Longrightarrow> sd_IsLossless src"
    and b: "computeBitrate env src fmt (isLosslessFormat fmt) ci (clamp_to_codec ?t0) = Some ts1"
    and m: "ts2 = (if tp_MaxAudioChannels p > 0 \<and> sd_Channels ts1 > tp_MaxAudioChannels p
            then ts1\<lparr>sd_Channels := tp_MaxAudioChannels p\<rparr> else ts1)"
    and l: "apply_codec_profiles (sd_Bitrate src) (isLosslessFormat fmt) (sd_Codec ts2)
       (ci_CodecProfiles ci) ts2 = Some ts"
  note f = computeBitrate_frame [OF b] codec_profiles_lower [OF l] clamp_to_codec_frame [of ?t0]
    clamp_to_codec_limits [of ?t0]
  have codec: "sd_Codec ts = sd_Codec ?t0" and less: "sd_IsLossless ts = isLosslessFormat fmt"
    and ch: "sd_Channels ts \<le> sd_Channels (clamp_to_codec ?t0)"
    and pch: "tp_MaxAudioChannels p > 0 \<longrightarrow> sd_Channels ts \<le> tp_MaxAudioChannels p"
    and sr: "sd_SampleRate ts \<le> sd_SampleRate (clamp_to_codec ?t0)"
    using f m s(1) by (auto split: if_splits)
  show ?thesis
    using s less ch pch sr f(4) codec by (auto simp: le_max_iff_disj)
qed

lemma decide_bitrate_bound:
  assumes "ci_MaxAudioBitrate ci > 0"
    and "\<forall>cp\<in>set (ci_CodecProfiles ci). \<forall>lim\<in>set (cp_Limitations cp). no_zero_bitrate lim"
  shows "(td_CanTranscode (decide env mf src ci) \<longrightarrow>
            td_TargetBitrate (decide env mf src ci) \<le> ci_MaxAudioBitrate ci) \<and>
         (td_CanDirectPlay (decide env mf src ci) \<longrightarrow> sd_Bitrate src \<le> ci_MaxAudioBitrate ci)"
proof (cases "direct_play_possible src ci")
  case True
  with assms(1) show ?thesis by (auto simp: decide_direct direct_play_possible_def)
next
  case False
  show ?thesis
  proof (cases "first_transcode env src ci (ci_TranscodingProfiles ci)")
    case None
    with False show ?thesis by (simp add: decide_refused)
  next
    case (Some r)
    obtain ts fmt where r: "r = (ts, fmt)" by (cases r)
    from Some [unfolded r] obtain p where
      "computeTranscodedStream env src p ci = Some (ts, fmt)"
      by (rule first_transcode_Some)
    then have "sd_Bitrate ts \<le> ci_MaxAudioBitrate ci"
      using transcoded_bitrate_cap assms by blast
    with False Some r show ?thesis by (simp add: decide_transcode)
  qed
qed

text \<open>
  When the client sets a global bitrate limit, every transcoded stream respects it, and so
  does the source of every direct play, provided no codec limitation lists the bitrate 0.
\<close>

lemma decide_respects_bitrate_cap:
  assumes "ci_MaxAudioBitrate ci > 0"
    and "\<forall>cp\<in>set (ci_CodecProfiles ci). \<forall>lim\<in>set (cp_Limitations cp). no_zero_bitrate lim"
  shows "(td_CanTranscode (decide env mf src ci) \<longrightarrow>
            td_TargetBitrate (decide env mf src ci) \<le> ci_MaxAudioBitrate ci) \<and>
         (td_CanDirectPlay (decide env mf src ci) \<longrightarrow> sd_Bitrate src \<le> ci_MaxAudioBitrate ci)"
  by (rule decide_bitrate_bound [OF assms])

text \<open>The configuration of the examples: the built-in transcodings only, no probing.\<close>

definition plain_env :: StreamEnv where
  "plain_env = \<lparr>env_FindByFormat = (\<lambda>_. None), env_DefaultDownsamplingFormat = ''opus'',
     env_DevEnableMediaFileProbe = False, env_IsProbeAvailable = False,
     env_ProbeAudioStream = (\<lambda>_. Inl (FFmpegMissing [])), env_Marshal = (\<lambda>_. []), env_Unmarshal = (\<lambda>_. None)\<rparr>"

definition flac_file :: MediaFile where
  "flac_file = zero_MediaFile\<lparr>mf_ID := ''song-1'', mf_Suffix := ''flac'', mf_BitRate := 900,
     mf_SampleRate := 96000, mf_BitDepth := Some 24, mf_Channels := 6, mf_UpdatedAt := 1700000000123456789\<rparr>"

theorem computeTranscodedStream_limits_witness:
  "\<exists>ts. computeTranscodedStream plain_env (buildSourceStream plain_env flac_file None)
       (hd (ci_TranscodingProfiles web_client)) web_client = Some (ts, ''mp3'') \<and>
     sd_Channels ts \<le> 2 \<and> sd_SampleRate ts \<le> 48000"
proof -
  have e: "computeTranscodedStream plain_env (buildSourceStream plain_env flac_file None)
       (hd (ci_TranscodingProfiles web_client)) web_client =
       Some (\<lparr>sd_Container = ''mp3'', sd_Codec = ''mp3'', sd_Profile = [], sd_Bitrate = 320,
         sd_SampleRate = 48000, sd_BitDepth = 0, sd_Channels = 2, sd_Duration = 0, sd_Size = 0,
         sd_IsLossless = False\<rparr>, ''mp3'')"
    by code_simp
  have "codecMaxChannels ''mp3'' = 2 \<and> codecMaxSampleRate ''mp3'' = 48000" by code_simp
  with computeTranscodedStream_limits [OF e] e show ?thesis by auto
qed

theorem decide_outcome_witness:
  "\<exists>ts. td_TranscodeStream (decide plain_env flac_file (buildSourceStream plain_env flac_file None) web_client) = Some ts \<and>
     td_TargetBitrate (decide plain_env flac_file (buildSourceStream plain_env flac_file None) web_client) = sd_Bitrate ts"
proof -
  have "td_CanTranscode (decide plain_env flac_file (buildSourceStream plain_env flac_file None) web_client)"
    by code_simp
  with decide_outcome [of plain_env flac_file "buildSourceStream plain_env flac_file None" web_client]
  show ?thesis by blast
qed

lemma decide_respects_bitrate_cap_witness:
  "td_CanTranscode (decide plain_env flac_file (buildSourceStream plain_env flac_file None) web_client) \<and>
   td_TargetBitrate (decide plain_env flac_file (buildSourceStream plain_env flac_file None) web_client) \<le> 320"
proof -
  have c: "ci_MaxAudioBitrate web_client = 320" "ci_CodecProfiles web_client = []"
    by (simp_all add: web_client_def)
  have "td_CanTranscode (decide plain_env flac_file (buildSourceStream plain_env flac_file None) web_client)"
    by code_simp
  with decide_respects_bitrate_cap [of web_client plain_env flac_file
      "buildSourceStream plain_env flac_file None"] c
  show ?thesis by simp
qed

text \<open>
  When the client's codec limitations are upper bounds (and none lists the bitrate 0), the
  transcoded stream satisfies every limitation of every codec profile that applies to its codec,
  in whatever order the profiles and limitations come.
\<close>

lemma transcoded_stream_satisfies_bounds:
  assumes "computeTranscodedStream env src p ci = Some (ts, fmt)"
    and "\<forall>cp\<in>set (ci_CodecProfiles ci). \<forall>lim\<in>set (cp_Limitations cp). upper_bound lim"
    and "cp \<in> set (ci_CodecProfiles ci)" "EqualFold (cp_Type cp) CodecProfileTypeAudio"
    and "matchesCodec (sd_Codec ts) [cp_Name cp]" "lim \<in> set (cp_Limitations cp)"
  shows "satisfied (sd_Bitrate src) lim ts"
  using assms(1)
proof (rule computeTranscodedStream_stages)
  fix ts1 ts2
  assume l: "apply_codec_profiles (sd_Bitrate src) (isLosslessFormat fmt) (sd_Codec ts2)
       (ci_CodecProfiles ci) ts2 = Some ts"
  from codec_profiles_lower [OF l] assms(5) have "matchesCodec (sd_Codec ts2) [cp_Name cp]" by simp
  with l assms(2-6) show ?thesis by (intro codec_profiles_satisfied)
qed

definition limited_client :: ClientInfo where
  "limited_client = web_client\<lparr>ci_CodecProfiles :=
     [\<lparr>cp_Type = ''AudioCodec'', cp_Name = ''mp3'', cp_Limitations =
        [\<lparr>lim_Name = ''audioSamplerate'', lim_Comparison = ''LessThanEqual'',
          lim_Values = [''44100''], lim_Required = True\<rparr>,
         \<lparr>lim_Name = ''audioBitrate'', lim_Comparison = ''LessThanEqual'',
          lim_Values = [''192''], lim_Required = True\<rparr>]\<rparr>]\<rparr>"

lemma transcoded_stream_satisfies_bounds_witness:
  "\<exists>ts lim. computeTranscodedStream plain_env (buildSourceStream plain_env flac_file None)
       (hd (ci_TranscodingProfiles limited_client)) limited_client = Some (ts, ''mp3'') \<and>
     lim \<in> set (cp_Limitations (hd (ci_CodecProfiles limited_client))) \<and>
     satisfied 900 lim ts"
proof -
  define ts :: Details where "ts = \<lparr>sd_Container = ''mp3'', sd_Codec = ''mp3'', sd_Profile = [],
     sd_Bitrate = 192, sd_SampleRate = 44100, sd_BitDepth = 0, sd_Channels = 2, sd_Duration = 0,
     sd_Size = 0, sd_IsLossless = False\<rparr>"
  have e: "computeTranscodedStream plain_env (buildSourceStream plain_env flac_file None)
       (hd (ci_TranscodingProfiles limited_client)) limited_client = Some (ts, ''mp3'')"
    unfolding ts_def by code_simp
  have b: "sd_Bitrate (buildSourceStream plain_env flac_file None) = 900" by code_simp
  have u: "\<forall>cp\<in>set (ci_CodecProfiles limited_client). \<forall>lim\<in>set (cp_Limitations cp). upper_bound lim"
    by code_simp
  have m: "EqualFold (cp_Type (hd (ci_CodecProfiles limited_client))) CodecProfileTypeAudio"
    "matchesCodec ''mp3'' [cp_Name (hd (ci_CodecProfiles limited_client))]"
    by code_simp+
  have c: "hd (ci_CodecProfiles limited_client) \<in> set (ci_CodecProfiles limited_client)"
    "hd (cp_Limitations (hd (ci_CodecProfiles limited_client)))
       \<in> set (cp_Limitations (hd (ci_CodecProfiles limited_client)))"
    by (simp_all add: limited_client_def)
  have "sd_Codec ts = ''mp3''" by (simp add: ts_def)
  with transcoded_stream_satisfies_bounds [OF e u c(1) m(1) _ c(2)] m(2) b e c(2)
  show ?thesis by auto
qed

definition order_client :: ClientInfo where
  "order_client = web_client\<lparr>ci_CodecProfiles :=
     [\<lparr>cp_Type = ''AudioCodec'', cp_Name = ''mp3'', cp_Limitations =
        [\<lparr>lim_Name = ''audioSamplerate'', lim_Comparison = ''NotEquals'',
          lim_Values = [''44100''], lim_Required = True\<rparr>,
         \<lparr>lim_Name = ''audioSamplerate'', lim_Comparison = ''LessThanEqual'',
          lim_Values = [''44100''], lim_Required = True\<rparr>]\<rparr>]\<rparr>"

text \<open>
  With other comparisons the order of the limitations matters: the code checks each
  limitation once, in order, against the stream as adjusted so far, and does not re-check earlier
  ones. For a 48 kHz source and the required limitations "sample rate is not 44100", "sample rate
  at most 44100" it returns a 44.1 kHz stream, which the first limitation forbids.
\<close>

lemma limitation_order_matters:
  "\<exists>ts lim. computeTranscodedStream plain_env (buildSourceStream plain_env flac_file None)
       (hd (ci_TranscodingProfiles order_client)) order_client = Some (ts, ''mp3'') \<and>
     lim \<in> set (cp_Limitations (hd (ci_CodecProfiles order_client))) \<and> lim_Required lim \<and>
     refuses ts lim"
proof -
  define ts :: Details where "ts = \<lparr>sd_Container = ''mp3'', sd_Codec = ''mp3'', sd_Profile = [],
     sd_Bitrate = 320, sd_SampleRate = 44100, sd_BitDepth = 0, sd_Channels = 2, sd_Duration = 0,
     sd_Size = 0, sd_IsLossless = False\<rparr>"
  have e: "computeTranscodedStream plain_env (buildSourceStream plain_env flac_file None)
       (hd (ci_TranscodingProfiles order_client)) order_client = Some (ts, ''mp3'')"
    unfolding ts_def by code_simp
  define lim where "lim = hd (cp_Limitations (hd (ci_CodecProfiles order_client)))"
  have "lim \<in> set (cp_Limitations (hd (ci_CodecProfiles order_client)))" "lim_Required lim"
    by (simp_all add: lim_def order_client_def)
  moreover have "refuses ts lim" unfolding ts_def lim_def by code_simp
  ultimately show ?thesis using e by blast
qed

text \<open>
  A bitrate limitation of 0 resets the bitrate to "not set": a later limitation then compares
  against the source bitrate again, and the result exceeds the client's global limit.
\<close>

definition zero_client :: ClientInfo where
  "zero_client = web_client\<lparr>ci_MaxAudioBitrate := 128, ci_CodecProfiles :=
     [\<lparr>cp_Type = ''AudioCodec'', cp_Name = ''mp3'', cp_Limitations =
        [\<lparr>lim_Name = ''audioBitrate'', lim_Comparison = ''LessThanEqual'',
          lim_Values = [''0''], lim_Required = False\<rparr>,
         \<lparr>lim_Name = ''audioBitrate'', lim_Comparison = ''LessThanEqual'',
          lim_Values = [''500''], lim_Required = True\<rparr>]\<rparr>]\<rparr>"

lemma zero_bitrate_limit_breaks_cap:
  "td_TargetBitrate (decide plain_env flac_file (buildSourceStream plain_env flac_file None) zero_client) = 500 \<and>
   ci_MaxAudioBitrate zero_client = 128"
  by code_simp

section \<open>Legacy requests\<close>

lemma buildLegacy_no_codec_profiles [simp]:
  "ci_CodecProfiles (buildLegacyClientInfo env mf f b m) = []"
  by (simp add: buildLegacyClientInfo_def Let_def)

lemma CapBitrate_codec_profiles [simp]:
  "ci_CodecProfiles (fst (CapBitrate m ci)) = ci_CodecProfiles ci"
  by (simp add: CapBitrate_def Let_def)

lemma CapBitrate_cap:
  "0 < m \<Longrightarrow> 0 \<le> ci_MaxAudioBitrate ci \<Longrightarrow>
   0 < ci_MaxAudioBitrate (fst (CapBitrate m ci)) \<and> ci_MaxAudioBitrate (fst (CapBitrate m ci)) \<le> m"
  by (auto simp: CapBitrate_def Let_def)

lemma buildLegacy_max_nonneg: "0 \<le> ci_MaxAudioBitrate (buildLegacyClientInfo env mf f b m)"
  by (simp add: buildLegacyClientInfo_def Let_def)

text \<open>A player's bitrate limit reaches the client every legacy request is decided for.\<close>

lemma legacy_client_cap:
  assumes "ctx_Player ctx = Some player" "0 < pl_MaxBitRate player"
  shows "0 < ci_MaxAudioBitrate (legacy_client env ctx mf f b) \<and>
    ci_MaxAudioBitrate (legacy_client env ctx mf f b) \<le> pl_MaxBitRate player \<and>
    ci_CodecProfiles (legacy_client env ctx mf f b) = []"
  using assms CapBitrate_cap [OF assms(2) buildLegacy_max_nonneg]
  by (auto simp: legacy_client_def applyServerOverride_def Let_def split: option.splits)

definition request_of :: "TranscodeDecision \<Rightarrow> go_int \<Rightarrow> Request" where
  "request_of d offset =
     \<lparr>req_Format = td_TargetFormat d, req_BitRate = td_TargetBitrate d,
      req_SampleRate = td_TargetSampleRate d, req_BitDepth = td_TargetBitDepth d,
      req_Channels = td_TargetChannels d, req_Offset = offset\<rparr>"

text \<open>A legacy request is answered raw, or by the transcoding decided for one of two formats.\<close>

lemma ResolveRequest_cases:
  "ResolveRequest env ctx mf f b off = raw_request off \<or>
   (\<exists>g d. (g = f \<or> g = env_DefaultDownsamplingFormat env) \<and>
      d = decide env mf (buildSourceStream env mf None) (legacy_client env ctx mf g b) \<and>
      td_CanTranscode d \<and> ResolveRequest env ctx mf f b off = request_of d off)"
proof (induction env ctx mf f b off rule: ResolveRequest.induct)
  case (1 env ctx mf f b off)
  let ?d = "decide env mf (buildSourceStream env mf None) (legacy_client env ctx mf f b)"
  let ?g = "env_DefaultDownsamplingFormat env"
  have m: "fst (MakeDecision env mf (legacy_client env ctx mf f b) True) = Inr ?d"
    by (simp add: MakeDecision_def)
  have eq: "ResolveRequest env ctx mf f b off =
     (if f = ''raw'' \<or> td_CanDirectPlay ?d then raw_request off
      else if td_CanTranscode ?d then request_of ?d off
      else if f \<noteq> [] \<and> ?g \<noteq> [] \<and> \<not> EqualFold f ?g then ResolveRequest env ctx mf ?g b off
      else raw_request off)"
    by (subst ResolveRequest.simps) (simp add: m request_of_def)
  show ?case
  proof (cases "f \<noteq> ''raw'' \<and> \<not> td_CanDirectPlay ?d \<and> \<not> td_CanTranscode ?d \<and>
      f \<noteq> [] \<and> ?g \<noteq> [] \<and> \<not> EqualFold f ?g")
    case True
    with "1.IH" [OF _ m _ _ refl] eq show ?thesis by auto
  next
    case False
    with eq show ?thesis by (auto split: if_splits)
  qed
qed

text \<open>
  A legacy stream request always resolves (the downsampling fallback is tried at most once,
  which is what makes the recursion end) and a player's bitrate limit is enforced: the answer is
  the raw file or a transcoding at no more than the player's limit, to a format with a command,
  at the requested offset.
\<close>

lemma ResolveRequest_respects_player_cap:
  assumes "ctx_Player ctx = Some player" "0 < pl_MaxBitRate player"
  shows "ResolveRequest env ctx mf reqFormat reqBitRate offset = raw_request offset \<or>
     (req_BitRate (ResolveRequest env ctx mf reqFormat reqBitRate offset) \<le> pl_MaxBitRate player \<and>
      LookupTranscodeCommand env (req_Format (ResolveRequest env ctx mf reqFormat reqBitRate offset)) \<noteq> [] \<and>
      req_Offset (ResolveRequest env ctx mf reqFormat reqBitRate offset) = offset)"
proof (cases "ResolveRequest env ctx mf reqFormat reqBitRate offset = raw_request offset")
  case False
  let ?src = "buildSourceStream env mf None"
  from False obtain g d where
    d: "d = decide env mf ?src (legacy_client env ctx mf g reqBitRate)" "td_CanTranscode d"
    and r: "ResolveRequest env ctx mf reqFormat reqBitRate offset = request_of d offset"
    using ResolveRequest_cases [of env ctx mf reqFormat reqBitRate offset] by blast
  let ?ci = "legacy_client env ctx mf g reqBitRate"
  note cap = legacy_client_cap [OF assms, of env mf g reqBitRate]
  from d have nd: "\<not> direct_play_possible ?src ?ci" by (auto simp: decide_direct)
  with d obtain ts fmt where t: "first_transcode env ?src ?ci (ci_TranscodingProfiles ?ci) = Some (ts, fmt)"
    by (cases "first_transcode env ?src ?ci (ci_TranscodingProfiles ?ci)") (auto simp: decide_refused)
  then obtain p where p: "computeTranscodedStream env ?src p ?ci = Some (ts, fmt)"
    by (rule first_transcode_Some)
  have "sd_Bitrate ts \<le> pl_MaxBitRate player"
    using transcoded_bitrate_cap [OF p] cap by auto
  moreover have "LookupTranscodeCommand env fmt \<noteq> []"
    using p by (rule computeTranscodedStream_stages)
  ultimately show ?thesis
    using r d(1) nd t by (simp add: request_of_def decide_transcode)
qed simp

lemma ResolveRequest_respects_player_cap_witness:
  "ResolveRequest plain_env \<lparr>ctx_User = None, ctx_Player = Some \<lparr>pl_ID = [], pl_MaxBitRate = 192\<rparr>,
       ctx_Transcoding = None\<rparr> flac_file ''xyz'' 0 30 =
     \<lparr>req_Format = ''opus'', req_BitRate = 192, req_SampleRate = 48000, req_BitDepth = 0,
      req_Channels = 6, req_Offset = 30\<rparr> \<and>
   req_BitRate (ResolveRequest plain_env \<lparr>ctx_User = None, ctx_Player = Some \<lparr>pl_ID = [], pl_MaxBitRate = 192\<rparr>,
       ctx_Transcoding = None\<rparr> flac_file ''xyz'' 0 30) \<le> 192"
proof -
  let ?ctx = "\<lparr>ctx_User = None, ctx_Player = Some \<lparr>pl_ID = [], pl_MaxBitRate = 192\<rparr>, ctx_Transcoding = None\<rparr>"
  have e: "ResolveRequest plain_env ?ctx flac_file ''xyz'' 0 30 =
     \<lparr>req_Format = ''opus'', req_BitRate = 192, req_SampleRate = 48000, req_BitDepth = 0,
      req_Channels = 6, req_Offset = 30\<rparr>"
    by code_simp
  have n: "raw_request 30 \<noteq> ResolveRequest plain_env ?ctx flac_file ''xyz'' 0 30"
    unfolding e by code_simp
  from ResolveRequest_respects_player_cap [of ?ctx "\<lparr>pl_ID = [], pl_MaxBitRate = 192\<rparr>" plain_env
      flac_file "''xyz''" 0 30] n
  have "req_BitRate (ResolveRequest plain_env ?ctx flac_file ''xyz'' 0 30) \<le> 192" by auto
  with e show ?thesis by (rule conjI)
qed

end
