(* ===== verification/Auth_Claims.thy ===== *)
theory Auth_Claims
  imports Bragi_Prelude
begin

text \<open>
  \<open>core/auth/claims.go\<close> and the token functions of \<open>core/auth/auth.go\<close>: the claims a JWT of the
  server carries, and how session and public-link tokens are made and read back.

  The JWT library is a parameter: \<open>jwt_sign\<close> signs a claims map with the secret it stands for,
  \<open>jwt_verify\<close> checks the signature and the expiry of a token at a given time and gives its claims.
\<close>

section \<open>Claims maps\<close>

datatype claim = CStr string | CBool bool | CNum int

type_synonym claims = "string \<rightharpoonup> claim"

definition nanos :: int where "nanos = 1000000000"

text \<open>\<open>t.Truncate(time.Second).Unix()\<close>: both round towards the past.\<close>

definition unix_seconds :: "time_ns \<Rightarrow> int" where
  "unix_seconds t = t div nanos"

text \<open>\<open>time.Time.IsZero\<close>: the first instant of the year 1.\<close>

definition zero_time :: time_ns where "zero_time = - 62135596800 * nanos"

text \<open>\<open>token.Get(key, &v)\<close> with a string, a boolean and a \<open>float64\<close> destination.\<close>

definition get_str :: "claims \<Rightarrow> string \<Rightarrow> string" where
  "get_str m k = (case m k of Some (CStr s) \<Rightarrow> s | _ \<Rightarrow> [])"

definition get_bool :: "claims \<Rightarrow> string \<Rightarrow> bool" where
  "get_bool m k = (case m k of Some (CBool b) \<Rightarrow> b | _ \<Rightarrow> False)"

definition getIntClaim :: "claims \<Rightarrow> string \<Rightarrow> go_int" where
  "getIntClaim m k = (case m k of Some (CNum n) \<Rightarrow> n | _ \<Rightarrow> 0)"

text \<open>\<open>token.IssuedAt()\<close>, \<open>token.Expiration()\<close>: the zero time when the claim is missing.\<close>

definition get_time :: "claims \<Rightarrow> string \<Rightarrow> time_ns" where
  "get_time m k = (case m k of Some (CNum n) \<Rightarrow> n * nanos | _ \<Rightarrow> zero_time)"

section \<open>Typed claims\<close>

record Claims =
  c_Issuer :: string
  c_Subject :: string
  c_IssuedAt :: time_ns
  c_ExpiresAt :: time_ns
  c_UserID :: string
  c_IsAdmin :: bool
  c_ID :: string
  c_Format :: string
  c_BitRate :: go_int
  c_ShareID :: string

definition zero_Claims :: Claims where
  "zero_Claims = \<lparr>c_Issuer = [], c_Subject = [], c_IssuedAt = zero_time, c_ExpiresAt = zero_time,
     c_UserID = [], c_IsAdmin = False, c_ID = [], c_Format = [], c_BitRate = 0, c_ShareID = []\<rparr>"

definition put_str :: "string \<Rightarrow> string \<Rightarrow> claims \<Rightarrow> claims" where
  "put_str k v m = (if v \<noteq> [] then m(k \<mapsto> CStr v) else m)"

definition put_time :: "string \<Rightarrow> time_ns \<Rightarrow> claims \<Rightarrow> claims" where
  "put_time k t m = (if t \<noteq> zero_time then m(k \<mapsto> CNum (unix_seconds t)) else m)"

definition put_nonzero :: "string \<Rightarrow> go_int \<Rightarrow> claims \<Rightarrow> claims" where
  "put_nonzero k v m = (if v \<noteq> 0 then m(k \<mapsto> CNum v) else m)"

definition put_true :: "string \<Rightarrow> bool \<Rightarrow> claims \<Rightarrow> claims" where
  "put_true k b m = (if b then m(k \<mapsto> CBool True) else m)"

definition ToMap :: "Claims \<Rightarrow> claims" where
  "ToMap c =
     (let m1 = put_str ''iss'' (c_Issuer c) (\<lambda>_. None);
          m2 = put_str ''sub'' (c_Subject c) m1;
          m3 = put_time ''iat'' (c_IssuedAt c) m2;
          m4 = put_time ''exp'' (c_ExpiresAt c) m3;
          m5 = put_str ''uid'' (c_UserID c) m4;
          m6 = put_true ''adm'' (c_IsAdmin c) m5;
          m7 = put_str ''id'' (c_ID c) m6;
          m8 = put_str ''f'' (c_Format c) m7;
          m9 = put_nonzero ''b'' (c_BitRate c) m8
      in put_str ''sid'' (c_ShareID c) m9)"

definition WithExpiresAt :: "time_ns \<Rightarrow> Claims \<Rightarrow> Claims" where
  "WithExpiresAt t c = c\<lparr>c_ExpiresAt := t\<rparr>"

definition ClaimsFromToken :: "claims \<Rightarrow> Claims" where
  "ClaimsFromToken m =
     \<lparr>c_Issuer = get_str m ''iss'', c_Subject = get_str m ''sub'', c_IssuedAt = get_time m ''iat'',
      c_ExpiresAt = get_time m ''exp'', c_UserID = get_str m ''uid'', c_IsAdmin = get_bool m ''adm'',
      c_ID = get_str m ''id'', c_Format = get_str m ''f'', c_BitRate = getIntClaim m ''b'',
      c_ShareID = get_str m ''sid''\<rparr>"

section \<open>Tokens\<close>

record JWTAuth =
  jwt_sign :: "claims \<Rightarrow> string + string"
  jwt_verify :: "time_ns \<Rightarrow> string \<Rightarrow> string + claims"

text \<open>\<open>core/auth/auth.go\<close>: every token carries the server's issuer claim.\<close>

definition JWTIssuer :: string where "JWTIssuer = ''ND''"

definition EncodeToken :: "(claims \<Rightarrow> 'tok) \<Rightarrow> claims \<Rightarrow> 'tok" where
  "EncodeToken encode m = encode (m(''iss'' \<mapsto> CStr JWTIssuer))"

definition CreatePublicToken :: "JWTAuth \<Rightarrow> Claims \<Rightarrow> string + string" where
  "CreatePublicToken PublicTokenAuth c =
     jwt_sign PublicTokenAuth (ToMap (c\<lparr>c_Issuer := JWTIssuer\<rparr>))"

definition CreateExpiringPublicToken :: "JWTAuth \<Rightarrow> time_ns \<Rightarrow> Claims \<Rightarrow> string + string" where
  "CreateExpiringPublicToken PublicTokenAuth exp c =
     (let c1 = c\<lparr>c_Issuer := JWTIssuer\<rparr>;
          c2 = (if exp \<noteq> zero_time then c1\<lparr>c_ExpiresAt := exp\<rparr> else c1)
      in jwt_sign PublicTokenAuth (ToMap c2))"

text \<open>\<open>TouchToken\<close>: the same claims with a new expiry; \<open>timeout\<close> is the session timeout.\<close>

definition TouchToken :: "JWTAuth \<Rightarrow> time_ns \<Rightarrow> time_ns \<Rightarrow> claims \<Rightarrow> string + string" where
  "TouchToken TokenAuth now timeout token =
     jwt_sign TokenAuth (ToMap (WithExpiresAt (now + timeout) (ClaimsFromToken token)))"

record User =
  u_ID :: string
  u_UserName :: string
  u_Name :: string
  u_Email :: string
  u_IsAdmin :: bool
  u_Libraries :: "go_int list" \<comment> \<open>the ids of \<open>Libraries\<close>\<close>
  u_Password :: string
  u_NewPassword :: string

definition HasLibraryAccess :: "User \<Rightarrow> go_int \<Rightarrow> bool" where
  "HasLibraryAccess u libraryID \<longleftrightarrow> u_IsAdmin u \<or> libraryID \<in> set (u_Libraries u)"

definition CreateToken :: "JWTAuth \<Rightarrow> time_ns \<Rightarrow> time_ns \<Rightarrow> User \<Rightarrow> string + string" where
  "CreateToken TokenAuth now timeout u =
     (let c = zero_Claims\<lparr>c_Issuer := JWTIssuer, c_Subject := u_UserName u, c_IssuedAt := now,
                c_UserID := u_ID u, c_IsAdmin := u_IsAdmin u\<rparr>
      in bind_result (jwt_sign TokenAuth (ToMap c)) (\<lambda>_. TouchToken TokenAuth now timeout (ToMap c)))"

definition Validate :: "JWTAuth \<Rightarrow> time_ns \<Rightarrow> string \<Rightarrow> string + Claims" where
  "Validate TokenAuth now tokenStr =
     bind_result (jwt_verify TokenAuth now tokenStr) (\<lambda>m. Inr (ClaimsFromToken m))"

definition ValidatePublic :: "JWTAuth \<Rightarrow> time_ns \<Rightarrow> string \<Rightarrow> string + Claims" where
  "ValidatePublic PublicTokenAuth now tokenStr =
     bind_result (jwt_verify PublicTokenAuth now tokenStr) (\<lambda>m. Inr (ClaimsFromToken m))"

section \<open>Lemmas\<close>

lemma issuer_claim_ignored [simp]:
  "k \<noteq> ''iss'' \<Longrightarrow> get_str (m(''iss'' \<mapsto> c)) k = get_str m k"
  "k \<noteq> ''iss'' \<Longrightarrow> get_bool (m(''iss'' \<mapsto> c)) k = get_bool m k"
  "k \<noteq> ''iss'' \<Longrightarrow> getIntClaim (m(''iss'' \<mapsto> c)) k = getIntClaim m k"
  by (simp_all add: get_str_def get_bool_def getIntClaim_def)

lemma nanos_pos [simp]: "0 < nanos" "nanos \<noteq> 0"
  by (simp_all add: nanos_def)

lemma zero_time_seconds: "s * nanos = zero_time \<longleftrightarrow> s = - 62135596800"
  by (simp add: zero_time_def nanos_def)

text \<open>A claims map whose numbers survive the trip through \<open>float64\<close>.\<close>

definition exact_claims :: "claims \<Rightarrow> bool" where
  "exact_claims m \<longleftrightarrow> (\<forall>k n. m k = Some (CNum n) \<longrightarrow> \<bar>n\<bar> \<le> 2 ^ 53)"

lemma exact_claims_issuer: "exact_claims m \<Longrightarrow> exact_claims (m(''iss'' \<mapsto> CStr s))"
  by (auto simp: exact_claims_def)

text \<open>A time as a token carries it: whole seconds.\<close>

definition to_second :: "time_ns \<Rightarrow> time_ns" where
  "to_second t = unix_seconds t * nanos"

lemma to_second_zero [simp]: "to_second zero_time = zero_time"
  by (simp add: to_second_def unix_seconds_def zero_time_def)

text \<open>A write is seen by the reads of its key only.\<close>

lemma put_lookup [simp]:
  "put_str k v m k' = (if k = k' \<and> v \<noteq> [] then Some (CStr v) else m k')"
  "put_time k t m k' = (if k = k' \<and> t \<noteq> zero_time then Some (CNum (unix_seconds t)) else m k')"
  "put_nonzero k n m k' = (if k = k' \<and> n \<noteq> 0 then Some (CNum n) else m k')"
  "put_true k b m k' = (if k = k' \<and> b then Some (CBool True) else m k')"
  by (auto simp: put_str_def put_time_def put_nonzero_def put_true_def)

lemma ToMap_lookup:
  "ToMap c ''iss'' = (if c_Issuer c \<noteq> [] then Some (CStr (c_Issuer c)) else None)"
  "ToMap c ''sub'' = (if c_Subject c \<noteq> [] then Some (CStr (c_Subject c)) else None)"
  "ToMap c ''iat'' = (if c_IssuedAt c \<noteq> zero_time then Some (CNum (unix_seconds (c_IssuedAt c))) else None)"
  "ToMap c ''exp'' = (if c_ExpiresAt c \<noteq> zero_time then Some (CNum (unix_seconds (c_ExpiresAt c))) else None)"
  "ToMap c ''uid'' = (if c_UserID c \<noteq> [] then Some (CStr (c_UserID c)) else None)"
  "ToMap c ''adm'' = (if c_IsAdmin c then Some (CBool True) else None)"
  "ToMap c ''id'' = (if c_ID c \<noteq> [] then Some (CStr (c_ID c)) else None)"
  "ToMap c ''f'' = (if c_Format c \<noteq> [] then Some (CStr (c_Format c)) else None)"
  "ToMap c ''b'' = (if c_BitRate c \<noteq> 0 then Some (CNum (c_BitRate c)) else None)"
  "ToMap c ''sid'' = (if c_ShareID c \<noteq> [] then Some (CStr (c_ShareID c)) else None)"
  by (simp_all add: ToMap_def Let_def)

lemma ToMap_get:
  "get_str (ToMap c) ''iss'' = c_Issuer c" "get_str (ToMap c) ''sub'' = c_Subject c"
  "get_str (ToMap c) ''uid'' = c_UserID c" "get_str (ToMap c) ''id'' = c_ID c"
  "get_str (ToMap c) ''f'' = c_Format c" "get_str (ToMap c) ''sid'' = c_ShareID c"
  "get_bool (ToMap c) ''adm'' = c_IsAdmin c" "getIntClaim (ToMap c) ''b'' = c_BitRate c"
  "get_time (ToMap c) ''iat'' = to_second (c_IssuedAt c)" "get_time (ToMap c) ''exp'' = to_second (c_ExpiresAt c)"
  by (simp_all add: get_str_def get_bool_def getIntClaim_def get_time_def ToMap_lookup)
    (simp_all add: to_second_def)

lemma ClaimsFromToken_ToMap:
  "ClaimsFromToken (ToMap c) = c\<lparr>c_IssuedAt := to_second (c_IssuedAt c), c_ExpiresAt := to_second (c_ExpiresAt c)\<rparr>"
  by (simp add: ClaimsFromToken_def ToMap_get)

text \<open>
  What a verifying library promises for a token it signed: the claims come back until the second of
  their expiry has passed, and no token with a past expiry is accepted.
\<close>

definition unexpired :: "time_ns \<Rightarrow> claims \<Rightarrow> bool" where
  "unexpired now m \<longleftrightarrow> m ''exp'' = None \<or> now < get_time m ''exp''"

definition jwt_ok :: "JWTAuth \<Rightarrow> bool" where
  "jwt_ok j \<longleftrightarrow>
     (\<forall>m t now. exact_claims m \<and> jwt_sign j m = Inr t \<longrightarrow>
        (if unexpired now m then jwt_verify j now t = Inr m else \<exists>e. jwt_verify j now t = Inl e)) \<and>
     (\<forall>m t now. jwt_verify j now t = Inr m \<longrightarrow> unexpired now m)"

lemma jwt_okD:
  assumes "jwt_ok j"
  shows "exact_claims m \<Longrightarrow> jwt_sign j m = Inr t \<Longrightarrow> unexpired now m \<Longrightarrow> jwt_verify j now t = Inr m"
    "exact_claims m \<Longrightarrow> jwt_sign j m = Inr t \<Longrightarrow> \<not> unexpired now m \<Longrightarrow> \<exists>e. jwt_verify j now t = Inl e"
    "jwt_verify j now t = Inr m \<Longrightarrow> unexpired now m"
  using assms unfolding jwt_ok_def by metis+

text \<open>A library that can sign the claims of a table: an instance of the contract.\<close>

definition table_jwt :: "(string \<times> claims) list \<Rightarrow> JWTAuth" where
  "table_jwt ts =
     \<lparr>jwt_sign = (\<lambda>m. case List.find (\<lambda>p. snd p = m) ts of Some p \<Rightarrow> Inr (fst p) | None \<Rightarrow> Inl ''no key''),
      jwt_verify = (\<lambda>now t. case map_of ts t of
         Some m \<Rightarrow> if unexpired now m then Inr m else Inl ''expired'' | None \<Rightarrow> Inl ''bad signature'')\<rparr>"

lemma table_jwt_sign:
  assumes "distinct (map fst ts)" "jwt_sign (table_jwt ts) m = Inr t"
  shows "map_of ts t = Some m"
proof -
  from assms(2) obtain p where p: "List.find (\<lambda>p. snd p = m) ts = Some p" "t = fst p"
    by (auto simp: table_jwt_def split: option.splits)
  then have "p \<in> set ts" "snd p = m" by (auto simp: find_Some_iff)
  with p(2) assms(1) show ?thesis by (metis map_of_eq_Some_iff prod.collapse)
qed

lemma table_jwt_verify:
  "jwt_verify (table_jwt ts) now t =
     (case map_of ts t of
        Some m \<Rightarrow> if unexpired now m then Inr m else Inl ''expired'' | None \<Rightarrow> Inl ''bad signature'')"
  by (simp add: table_jwt_def)

lemma table_jwt_ok:
  assumes "distinct (map fst ts)"
  shows "jwt_ok (table_jwt ts)"
  unfolding jwt_ok_def
proof (intro conjI allI impI)
  fix m t now
  assume "exact_claims m \<and> jwt_sign (table_jwt ts) m = Inr t"
  then show "if unexpired now m then jwt_verify (table_jwt ts) now t = Inr m
      else \<exists>e. jwt_verify (table_jwt ts) now t = Inl e"
    using table_jwt_sign [OF assms, of m t] by (simp add: table_jwt_verify)
next
  fix m t now
  assume "jwt_verify (table_jwt ts) now t = Inr m"
  then show "unexpired now m" by (auto simp: table_jwt_verify split: option.splits if_splits)
qed

end
