(* ===== verification/Stream_Token.thy ===== *)
theory Stream_Token
  imports Stream_Decider_Correct Auth_Claims
begin

text \<open>
  \<open>core/stream/token.go\<close>: the transcode parameters a decision hands to the client as a signed
  token, and the request recovered from it. The JWT library is a parameter: \<open>encode\<close> signs a
  claims map (\<open>auth.EncodeToken\<close>), \<open>decode\<close> verifies a token and gives its claims
  (\<open>auth.DecodeAndVerifyToken\<close>). A parsed numeric claim is a \<open>float64\<close>, exact for the integers
  of at most 53 bits, which is the range the round trip is stated for.
\<close>

section \<open>Claims\<close>

datatype token_error = ErrTokenInvalid string | ErrTokenStale

definition tokenTTL :: time_ns where "tokenTTL = 48 * 3600 * nanos"

record params =
  p_MediaID :: string
  p_DirectPlay :: bool
  p_TargetFormat :: string
  p_TargetBitrate :: go_int
  p_TargetChannels :: go_int
  p_TargetSampleRate :: go_int
  p_TargetBitDepth :: go_int
  p_SourceUpdatedAt :: time_ns

definition toClaimsMap :: "time_ns \<Rightarrow> TranscodeDecision \<Rightarrow> claims" where
  "toClaimsMap now d =
     (let m0 = [''mid'' \<mapsto> CStr (td_MediaID d), ''ua'' \<mapsto> CNum (unix_seconds (td_SourceUpdatedAt d)),
                ''exp'' \<mapsto> CNum (unix_seconds (now + tokenTTL))];
          m1 = (if td_CanDirectPlay d then m0(''dp'' \<mapsto> CBool True) else m0)
      in if td_CanTranscode d \<and> td_TargetFormat d \<noteq> [] then
           put_nonzero ''bd'' (td_TargetBitDepth d)
             (put_nonzero ''sr'' (td_TargetSampleRate d)
               (put_nonzero ''ch'' (td_TargetChannels d)
                 (put_nonzero ''b'' (td_TargetBitrate d)
                   (m1(''f'' \<mapsto> CStr (td_TargetFormat d))))))
         else m1)"

definition paramsFromToken :: "claims \<Rightarrow> token_error + params" where
  "paramsFromToken m =
     (let mid = get_str m ''mid'';
          ua = getIntClaim m ''ua'';
          updated = (if ua \<noteq> 0 then ua * nanos else zero_time)
      in if mid = [] then Inl (ErrTokenInvalid ''missing media ID'')
         else if updated = zero_time then Inl (ErrTokenInvalid ''missing source timestamp'')
         else Inr \<lparr>p_MediaID = mid, p_DirectPlay = get_bool m ''dp'',
                   p_TargetFormat = get_str m ''f'', p_TargetBitrate = getIntClaim m ''b'',
                   p_TargetChannels = getIntClaim m ''ch'',
                   p_TargetSampleRate = getIntClaim m ''sr'',
                   p_TargetBitDepth = getIntClaim m ''bd'', p_SourceUpdatedAt = updated\<rparr>)"

definition CreateTranscodeParams ::
  "(claims \<Rightarrow> 'tok) \<Rightarrow> time_ns \<Rightarrow> TranscodeDecision \<Rightarrow> 'tok" where
  "CreateTranscodeParams encode now decision = EncodeToken encode (toClaimsMap now decision)"

definition parseTranscodeParams ::
  "('tok \<Rightarrow> string + claims) \<Rightarrow> 'tok \<Rightarrow> token_error + params" where
  "parseTranscodeParams decode tok =
     (case decode tok of Inl e \<Rightarrow> Inl (ErrTokenInvalid e) | Inr m \<Rightarrow> paramsFromToken m)"

definition ResolveRequestFromToken ::
  "('tok \<Rightarrow> string + claims) \<Rightarrow> 'tok \<Rightarrow> MediaFile \<Rightarrow> go_int \<Rightarrow> token_error + Request" where
  "ResolveRequestFromToken decode tok mf offset =
     (case parseTranscodeParams decode tok of
        Inl (ErrTokenInvalid e) \<Rightarrow> Inl (ErrTokenInvalid e)
      | Inl ErrTokenStale \<Rightarrow> Inl (ErrTokenInvalid [])
      | Inr p \<Rightarrow>
          if p_MediaID p \<noteq> mf_ID mf then Inl (ErrTokenInvalid ''token mediaID does not match'')
          else if unix_seconds (mf_UpdatedAt mf) * nanos \<noteq> p_SourceUpdatedAt p
          then Inl ErrTokenStale
          else
            let req = \<lparr>req_Format = [], req_BitRate = 0, req_SampleRate = 0, req_BitDepth = 0,
                       req_Channels = 0, req_Offset = offset\<rparr>
            in if \<not> p_DirectPlay p \<and> p_TargetFormat p \<noteq> [] then
                 Inr (req\<lparr>req_Format := p_TargetFormat p, req_BitRate := p_TargetBitrate p,
                          req_SampleRate := p_TargetSampleRate p,
                          req_BitDepth := p_TargetBitDepth p, req_Channels := p_TargetChannels p\<rparr>)
               else Inr req)"

section \<open>Lemmas\<close>

lemma toClaimsMap_read [simp]:
  "get_str (toClaimsMap now d) ''mid'' = td_MediaID d"
  "getIntClaim (toClaimsMap now d) ''ua'' = unix_seconds (td_SourceUpdatedAt d)"
  "get_bool (toClaimsMap now d) ''dp'' = td_CanDirectPlay d"
  "get_str (toClaimsMap now d) ''f'' = (if td_CanTranscode d then td_TargetFormat d else [])"
  by (simp_all add: toClaimsMap_def put_nonzero_def get_str_def getIntClaim_def get_bool_def Let_def)

lemma toClaimsMap_targets [simp]:
  assumes "td_CanTranscode d" "td_TargetFormat d \<noteq> []"
  shows "getIntClaim (toClaimsMap now d) ''b'' = td_TargetBitrate d"
    "getIntClaim (toClaimsMap now d) ''ch'' = td_TargetChannels d"
    "getIntClaim (toClaimsMap now d) ''sr'' = td_TargetSampleRate d"
    "getIntClaim (toClaimsMap now d) ''bd'' = td_TargetBitDepth d"
  using assms by (simp_all add: toClaimsMap_def put_nonzero_def getIntClaim_def Let_def)

text \<open>The source timestamps a token can carry: not second 0, which the code reads as "missing".\<close>

definition stampable :: "time_ns \<Rightarrow> bool" where
  "stampable t \<longleftrightarrow> unix_seconds t \<noteq> 0 \<and> unix_seconds t \<noteq> - 62135596800"

definition token_request :: "TranscodeDecision \<Rightarrow> go_int \<Rightarrow> Request" where
  "token_request d offset =
     (if \<not> td_CanDirectPlay d \<and> td_CanTranscode d \<and> td_TargetFormat d \<noteq> [] then request_of d offset
      else \<lparr>req_Format = [], req_BitRate = 0, req_SampleRate = 0, req_BitDepth = 0,
            req_Channels = 0, req_Offset = offset\<rparr>)"

section \<open>Properties\<close>

text \<open>What a verified token of a decision resolves to.\<close>

lemma token_resolves:
  assumes "decode tok = Inr ((toClaimsMap now d)(''iss'' \<mapsto> CStr JWTIssuer))"
    and "td_MediaID d \<noteq> []" and "stampable (td_SourceUpdatedAt d)"
  shows "ResolveRequestFromToken decode tok mf offset =
     (if td_MediaID d \<noteq> mf_ID mf then Inl (ErrTokenInvalid ''token mediaID does not match'')
      else if unix_seconds (mf_UpdatedAt mf) \<noteq> unix_seconds (td_SourceUpdatedAt d)
      then Inl ErrTokenStale
      else Inr (token_request d offset))"
  using assms
  by (cases "td_CanTranscode d \<and> td_TargetFormat d \<noteq> []")
    (auto simp: ResolveRequestFromToken_def parseTranscodeParams_def
      paramsFromToken_def Let_def stampable_def zero_time_seconds token_request_def request_of_def)



end
