(* ===== verification/Stream_Limiter.thy ===== *)
theory Stream_Limiter
  imports Stream_Decider
begin

text \<open>
  \<open>core/stream/limiter.go\<close>: the cap on concurrent transcodes. \<open>Acquire\<close> and the release function it
  returns are modelled twice: as atomic operations, for the laws a client relies on, and as a step
  relation over concurrent requests that interleaves the mutex-protected per-user section with the
  channel operations the way the code does.
\<close>

section \<open>The limiter\<close>

datatype limiter_error = ErrTooManyTranscodes

text \<open>
  \<open>global\<close> is a buffered channel: its capacity (absent when the channel is nil) and how many slots
  are taken. \<open>perUser\<close> is the map from users to their running transcodes.
\<close>

record transcodeLimiter =
  tl_maxPerUser :: go_int
  tl_globalCap :: "nat option"
  tl_global :: nat
  tl_perUser :: "string \<rightharpoonup> go_int"

datatype TranscodeLimiter = noopLimiter | Limiter transcodeLimiter

definition NewTranscodeLimiter :: "go_int \<Rightarrow> go_int \<Rightarrow> TranscodeLimiter" where
  "NewTranscodeLimiter maxConcurrent maxPerUser =
     (if maxConcurrent \<le> 0 \<and> maxPerUser \<le> 0 then noopLimiter
      else Limiter \<lparr>tl_maxPerUser = maxPerUser,
                    tl_globalCap = (if maxConcurrent > 0 then Some (nat maxConcurrent) else None),
                    tl_global = 0, tl_perUser = (\<lambda>_. None)\<rparr>)"

fun Enabled :: "TranscodeLimiter \<Rightarrow> bool" where
  "Enabled noopLimiter = False"
| "Enabled (Limiter l) = True"

definition perUserActive :: "transcodeLimiter \<Rightarrow> string \<Rightarrow> bool" where
  "perUserActive l user \<longleftrightarrow> tl_maxPerUser l > 0 \<and> user \<noteq> []"

text \<open>The two halves of the critical section at the top of \<open>Acquire\<close>.\<close>

definition user_count :: "transcodeLimiter \<Rightarrow> string \<Rightarrow> go_int" where
  "user_count l user = gg_V 0 (tl_perUser l user)"

definition user_full :: "transcodeLimiter \<Rightarrow> string \<Rightarrow> bool" where
  "user_full l user \<longleftrightarrow> user_count l user \<ge> tl_maxPerUser l"

definition reserve_user :: "transcodeLimiter \<Rightarrow> string \<Rightarrow> transcodeLimiter" where
  "reserve_user l user = l\<lparr>tl_perUser := (tl_perUser l)(user \<mapsto> user_count l user + 1)\<rparr>"

definition releasePerUser :: "transcodeLimiter \<Rightarrow> string \<Rightarrow> transcodeLimiter" where
  "releasePerUser l user =
     (let n = user_count l user - 1
      in if n \<le> 0 then l\<lparr>tl_perUser := (tl_perUser l)(user := None)\<rparr>
         else l\<lparr>tl_perUser := (tl_perUser l)(user \<mapsto> n)\<rparr>)"

text \<open>The non-blocking send and the receive on the channel.\<close>

definition global_full :: "transcodeLimiter \<Rightarrow> bool" where
  "global_full l \<longleftrightarrow> (case tl_globalCap l of None \<Rightarrow> False | Some cap \<Rightarrow> cap \<le> tl_global l)"

definition take_global :: "transcodeLimiter \<Rightarrow> transcodeLimiter" where
  "take_global l = (if tl_globalCap l = None then l else l\<lparr>tl_global := Suc (tl_global l)\<rparr>)"

definition free_global :: "transcodeLimiter \<Rightarrow> transcodeLimiter" where
  "free_global l = (if tl_globalCap l = None then l else l\<lparr>tl_global := tl_global l - 1\<rparr>)"

definition limiter_Acquire ::
  "transcodeLimiter \<Rightarrow> string \<Rightarrow> limiter_error + transcodeLimiter" where
  "limiter_Acquire l user =
     (if perUserActive l user \<and> user_full l user then Inl ErrTooManyTranscodes
      else
        let l1 = (if perUserActive l user then reserve_user l user else l)
        in if global_full l1 then Inl ErrTooManyTranscodes
           else Inr (take_global l1))"

text \<open>
  The rejected call's effect on the limiter: the reservation is rolled back before the error is
  returned. \<open>Acquire_rollback\<close> below shows that this is the state before the call.
\<close>

definition limiter_reject_state :: "transcodeLimiter \<Rightarrow> string \<Rightarrow> transcodeLimiter" where
  "limiter_reject_state l user =
     (if perUserActive l user \<and> user_full l user then l
      else if perUserActive l user then releasePerUser (reserve_user l user) user else l)"

definition limiter_release :: "transcodeLimiter \<Rightarrow> string \<Rightarrow> transcodeLimiter" where
  "limiter_release l user =
     (let l1 = free_global l in if perUserActive l user then releasePerUser l1 user else l1)"

text \<open>The release function of one acquisition: the flag makes it idempotent.\<close>

definition release_once ::
  "transcodeLimiter \<times> bool \<Rightarrow> string \<Rightarrow> transcodeLimiter \<times> bool" where
  "release_once st user = (case st of (l, released) \<Rightarrow>
     if released then (l, True) else (limiter_release l user, True))"

fun Acquire :: "TranscodeLimiter \<Rightarrow> string \<Rightarrow> limiter_error + TranscodeLimiter" where
  "Acquire noopLimiter user = Inr noopLimiter"
| "Acquire (Limiter l) user = map_sum id Limiter (limiter_Acquire l user)"

fun Release :: "TranscodeLimiter \<Rightarrow> string \<Rightarrow> TranscodeLimiter" where
  "Release noopLimiter user = noopLimiter"
| "Release (Limiter l) user = Limiter (limiter_release l user)"

section \<open>The interface\<close>

text \<open>What a client of a limiter relies on: releasing a slot undoes acquiring it.\<close>

locale slot_limiter =
  fixes acquire :: "'s \<Rightarrow> 'u \<Rightarrow> 'e + 's" and release :: "'s \<Rightarrow> 'u \<Rightarrow> 's" and ok :: "'s \<Rightarrow> bool"
  assumes acquire_ok: "ok s \<Longrightarrow> acquire s u = Inr s' \<Longrightarrow> ok s'"
    and release_acquired: "ok s \<Longrightarrow> acquire s u = Inr s' \<Longrightarrow> release s' u = s"
begin

text \<open>Acquiring for several users and releasing in the opposite order changes nothing.\<close>

fun acquire_all :: "'s \<Rightarrow> 'u list \<Rightarrow> 'e + 's" where
  "acquire_all s [] = Inr s"
| "acquire_all s (u # us) = bind_result (acquire s u) (\<lambda>s'. acquire_all s' us)"

lemma acquire_all_ok: "ok s \<Longrightarrow> acquire_all s us = Inr s' \<Longrightarrow> ok s'"
  by (induction us arbitrary: s) (auto simp: bind_result_Inr intro: acquire_ok)

lemma release_all:
  "ok s \<Longrightarrow> acquire_all s us = Inr s' \<Longrightarrow> foldl release s' (rev us) = s"
proof (induction us arbitrary: s)
  case (Cons u us)
  then obtain t where t: "acquire s u = Inr t" "acquire_all t us = Inr s'"
    by (auto simp: bind_result_Inr)
  with Cons.prems have "ok t" by (blast intro: acquire_ok)
  with Cons.IH t(2) have "foldl release s' (rev us) = t" by blast
  with t(1) Cons.prems show ?case by (simp add: release_acquired)
qed simp

end

section \<open>The limiter implements it\<close>

text \<open>Stored per-user counts are positive: entries that reach zero are deleted.\<close>

definition counts_pos :: "transcodeLimiter \<Rightarrow> bool" where
  "counts_pos l \<longleftrightarrow> (\<forall>u n. tl_perUser l u = Some n \<longrightarrow> 0 < n)"

fun limiter_ok :: "TranscodeLimiter \<Rightarrow> bool" where
  "limiter_ok noopLimiter = True"
| "limiter_ok (Limiter l) = counts_pos l"

lemmas limiter_defs = perUserActive_def user_full_def user_count_def reserve_user_def
  releasePerUser_def global_full_def take_global_def free_global_def gg_V_def

lemma user_count_nonneg: "counts_pos l \<Longrightarrow> 0 \<le> user_count l u"
  by (auto simp: user_count_def gg_V_def counts_pos_def less_imp_le split: option.splits)

lemma user_count_pos: "counts_pos l \<Longrightarrow> tl_perUser l u \<noteq> None \<longleftrightarrow> 0 < user_count l u"
  by (auto simp: user_count_def gg_V_def counts_pos_def split: option.splits)

lemma release_reserve:
  assumes "counts_pos l"
  shows "releasePerUser (reserve_user l u) u = l"
proof (cases "tl_perUser l u")
  case (Some n)
  with assms have "0 < n" by (auto simp: counts_pos_def)
  with Some show ?thesis by (simp add: limiter_defs Let_def fun_upd_idem)
qed (simp add: limiter_defs Let_def fun_upd_idem)

lemma take_free_commute:
  "free_global (take_global l) = l"
  "tl_perUser (take_global l) = tl_perUser l" "tl_maxPerUser (take_global l) = tl_maxPerUser l"
  by (auto simp: limiter_defs)

lemma Acquire_rollback: "counts_pos l \<Longrightarrow> limiter_reject_state l u = l"
  by (simp add: limiter_reject_state_def release_reserve)

lemma counts_pos_reserve: "counts_pos l \<Longrightarrow> counts_pos (reserve_user l u)"
  using user_count_nonneg [of l u] by (auto simp: counts_pos_def reserve_user_def)

lemma counts_pos_release: "counts_pos l \<Longrightarrow> counts_pos (releasePerUser l u)"
  by (auto simp: counts_pos_def releasePerUser_def Let_def)

lemma counts_pos_global [simp]:
  "counts_pos (take_global l) \<longleftrightarrow> counts_pos l" "counts_pos (free_global l) \<longleftrightarrow> counts_pos l"
  by (simp_all add: counts_pos_def limiter_defs)

lemma limiter_Acquire_Inr:
  "limiter_Acquire l u = Inr l' \<longleftrightarrow>
     (perUserActive l u \<longrightarrow> \<not> user_full l u) \<and>
     \<not> global_full l \<and>
     l' = take_global (if perUserActive l u then reserve_user l u else l)"
  by (auto simp: limiter_Acquire_def Let_def global_full_def reserve_user_def split: option.splits)

lemma Acquire_Limiter_Inr:
  "Acquire (Limiter l) u = Inr s' \<longleftrightarrow> (\<exists>l'. limiter_Acquire l u = Inr l' \<and> s' = Limiter l')"
  by (cases "limiter_Acquire l u") auto

interpretation limiter: slot_limiter Acquire Release limiter_ok
proof
  fix s u s'
  assume ok: "limiter_ok s" and a: "Acquire s u = Inr s'"
  show "limiter_ok s'"
    using ok a by (cases s)
      (auto simp: Acquire_Limiter_Inr limiter_Acquire_Inr counts_pos_reserve
        split: if_splits simp del: Acquire.simps(2))
  show "Release s' u = s"
  proof (cases s)
    case noopLimiter
    with a show ?thesis by simp
  next
    case (Limiter l)
    with a obtain l' where l': "limiter_Acquire l u = Inr l'" "s' = Limiter l'"
      by (cases "limiter_Acquire l u") auto
    moreover have "perUserActive (take_global (reserve_user l u)) u = perUserActive l u"
      "perUserActive (take_global l) u = perUserActive l u"
      by (simp_all add: limiter_defs)
    ultimately show ?thesis
      using ok Limiter
      by (auto simp: limiter_Acquire_Inr limiter_release_def Let_def take_free_commute
          release_reserve split: if_splits)
  qed
qed

section \<open>Concurrent requests\<close>

text \<open>
  One request goes through: the per-user section (\<open>PIdle\<close> to \<open>PReserved\<close>, or rejected), the
  non-blocking send (to \<open>PHolding\<close>, or to \<open>PRollback\<close> when the channel is full), the rollback,
  and after the transcode the receive (\<open>PFreed\<close>) and the per-user release (\<open>PDone\<close>). Requests
  interleave between these atomic sections.
\<close>

datatype phase = PIdle | PReserved | PRollback | PHolding | PFreed | PDone

type_synonym request = "string \<times> phase"

record limiter_system =
  ls_limiter :: transcodeLimiter
  ls_requests :: "request list"

definition set_phase :: "limiter_system \<Rightarrow> nat \<Rightarrow> phase \<Rightarrow> limiter_system" where
  "set_phase s i ph = s\<lparr>ls_requests := (ls_requests s)[i := (fst (ls_requests s ! i), ph)]\<rparr>"

definition at_phase :: "limiter_system \<Rightarrow> nat \<Rightarrow> phase \<Rightarrow> bool" where
  "at_phase s i ph \<longleftrightarrow> i < length (ls_requests s) \<and> snd (ls_requests s ! i) = ph"

definition user_at :: "limiter_system \<Rightarrow> nat \<Rightarrow> string" where
  "user_at s i = fst (ls_requests s ! i)"

inductive limiter_step :: "limiter_system \<Rightarrow> limiter_system \<Rightarrow> bool" where
  reject_user: "at_phase s i PIdle \<Longrightarrow> perUserActive (ls_limiter s) (user_at s i) \<Longrightarrow>
     user_full (ls_limiter s) (user_at s i) \<Longrightarrow> limiter_step s (set_phase s i PDone)"
| reserve: "at_phase s i PIdle \<Longrightarrow> perUserActive (ls_limiter s) (user_at s i) \<Longrightarrow>
     \<not> user_full (ls_limiter s) (user_at s i) \<Longrightarrow>
     limiter_step s ((set_phase s i PReserved)\<lparr>ls_limiter := reserve_user (ls_limiter s) (user_at s i)\<rparr>)"
| skip_user: "at_phase s i PIdle \<Longrightarrow> \<not> perUserActive (ls_limiter s) (user_at s i) \<Longrightarrow>
     limiter_step s (set_phase s i PReserved)"
| reject_global: "at_phase s i PReserved \<Longrightarrow> global_full (ls_limiter s) \<Longrightarrow>
     limiter_step s (set_phase s i PRollback)"
| hold: "at_phase s i PReserved \<Longrightarrow> \<not> global_full (ls_limiter s) \<Longrightarrow>
     limiter_step s ((set_phase s i PHolding)\<lparr>ls_limiter := take_global (ls_limiter s)\<rparr>)"
| finish: "at_phase s i PHolding \<Longrightarrow>
     limiter_step s ((set_phase s i PFreed)\<lparr>ls_limiter := free_global (ls_limiter s)\<rparr>)"
| drop_user: "at_phase s i PRollback \<or> at_phase s i PFreed \<Longrightarrow>
     limiter_step s ((set_phase s i PDone)\<lparr>ls_limiter :=
       (if perUserActive (ls_limiter s) (user_at s i)
        then releasePerUser (ls_limiter s) (user_at s i) else ls_limiter s)\<rparr>)"

inductive_cases limiter_stepE: "limiter_step s t"

definition limiter_start :: "go_int \<Rightarrow> go_int \<Rightarrow> string list \<Rightarrow> limiter_system" where
  "limiter_start maxConcurrent maxPerUser users =
     \<lparr>ls_limiter = \<lparr>tl_maxPerUser = maxPerUser,
        tl_globalCap = (if maxConcurrent > 0 then Some (nat maxConcurrent) else None),
        tl_global = 0, tl_perUser = (\<lambda>_. None)\<rparr>,
      ls_requests = map (\<lambda>u. (u, PIdle)) users\<rparr>"

text \<open>A request owns a global slot while it holds, a user slot from the reservation to the end.\<close>

definition owns_global :: "request \<Rightarrow> bool" where
  "owns_global r \<longleftrightarrow> snd r = PHolding"

definition owns_user :: "string \<Rightarrow> request \<Rightarrow> bool" where
  "owns_user u r \<longleftrightarrow> fst r = u \<and> snd r \<in> {PReserved, PRollback, PHolding, PFreed}"

definition limiter_inv :: "limiter_system \<Rightarrow> bool" where
  "limiter_inv s \<longleftrightarrow>
     counts_pos (ls_limiter s) \<and>
     (\<forall>cap. tl_globalCap (ls_limiter s) = Some cap \<longrightarrow>
        tl_global (ls_limiter s) = count_if owns_global (ls_requests s) \<and>
        tl_global (ls_limiter s) \<le> cap) \<and>
     (\<forall>u. perUserActive (ls_limiter s) u \<longrightarrow>
        user_count (ls_limiter s) u = int (count_if (owns_user u) (ls_requests s)) \<and>
        user_count (ls_limiter s) u \<le> tl_maxPerUser (ls_limiter s)) \<and>
     (\<forall>u. \<not> perUserActive (ls_limiter s) u \<longrightarrow> tl_perUser (ls_limiter s) u = None)"

lemma set_phase_simps [simp]:
  "ls_limiter (set_phase s i ph) = ls_limiter s"
  "ls_requests (set_phase s i ph) = (ls_requests s)[i := (user_at s i, ph)]"
  by (simp_all add: set_phase_def user_at_def)

lemma perUserActive_static [simp]:
  "perUserActive (reserve_user l v) u = perUserActive l u"
  "perUserActive (releasePerUser l v) u = perUserActive l u"
  "perUserActive (take_global l) u = perUserActive l u"
  "perUserActive (free_global l) u = perUserActive l u"
  by (simp_all add: limiter_defs Let_def)

lemma user_count_simps [simp]:
  "user_count (reserve_user l v) u = (if u = v then user_count l u + 1 else user_count l u)"
  "user_count (take_global l) u = user_count l u"
  "user_count (free_global l) u = user_count l u"
  by (simp_all add: limiter_defs)

lemma user_count_release:
  "counts_pos l \<Longrightarrow> 0 < user_count l v \<Longrightarrow>
   user_count (releasePerUser l v) u = (if u = v then user_count l u - 1 else user_count l u)"
  by (auto simp: limiter_defs Let_def)

lemma limiter_static [simp]:
  "tl_globalCap (reserve_user l v) = tl_globalCap l" "tl_global (reserve_user l v) = tl_global l"
  "tl_maxPerUser (reserve_user l v) = tl_maxPerUser l"
  "tl_globalCap (releasePerUser l v) = tl_globalCap l" "tl_global (releasePerUser l v) = tl_global l"
  "tl_maxPerUser (releasePerUser l v) = tl_maxPerUser l"
  "tl_globalCap (take_global l) = tl_globalCap l" "tl_globalCap (free_global l) = tl_globalCap l"
  "tl_maxPerUser (take_global l) = tl_maxPerUser l" "tl_maxPerUser (free_global l) = tl_maxPerUser l"
  "tl_perUser (take_global l) = tl_perUser l" "tl_perUser (free_global l) = tl_perUser l"
  by (simp_all add: limiter_defs Let_def)

lemma global_counts:
  "tl_globalCap l = Some cap \<Longrightarrow> tl_global (take_global l) = Suc (tl_global l)"
  "tl_globalCap l = Some cap \<Longrightarrow> tl_global (free_global l) = tl_global l - 1"
  by (simp_all add: take_global_def free_global_def)

lemma perUser_other:
  "u \<noteq> v \<Longrightarrow> tl_perUser (reserve_user l v) u = tl_perUser l u"
  "u \<noteq> v \<Longrightarrow> tl_perUser (releasePerUser l v) u = tl_perUser l u"
  by (simp_all add: reserve_user_def releasePerUser_def Let_def)

lemma perUser_inactive:
  "perUserActive l v \<Longrightarrow> \<not> perUserActive l u \<Longrightarrow> u \<noteq> v"
  by auto

text \<open>How a request's move changes the two counts.\<close>

lemma count_global_move:
  "at_phase s i ph \<Longrightarrow>
   int (count_if owns_global ((ls_requests s)[i := (user_at s i, ph')])) =
     int (count_if owns_global (ls_requests s)) + of_bool (ph' = PHolding) - of_bool (ph = PHolding)"
  by (auto simp: at_phase_def owns_global_def count_if_update)

lemma count_user_move:
  "at_phase s i ph \<Longrightarrow>
   int (count_if (owns_user u) ((ls_requests s)[i := (user_at s i, ph')])) =
     int (count_if (owns_user u) (ls_requests s))
     + of_bool (u = user_at s i \<and> ph' \<in> {PReserved, PRollback, PHolding, PFreed})
     - of_bool (u = user_at s i \<and> ph \<in> {PReserved, PRollback, PHolding, PFreed})"
  by (auto simp: at_phase_def owns_user_def user_at_def count_if_update)

text \<open>
  One preservation lemma for all transitions: the new limiter's counters changed exactly as the
  request's ownership did, and the caps still hold.
\<close>

lemma limiter_inv_move:
  assumes inv: "limiter_inv s" and at: "at_phase s i ph"
    and pos: "counts_pos l"
    and static: "tl_globalCap l = tl_globalCap (ls_limiter s)"
      "tl_maxPerUser l = tl_maxPerUser (ls_limiter s)"
    and glob: "\<And>cap. tl_globalCap l = Some cap \<Longrightarrow>
      int (tl_global l) = int (tl_global (ls_limiter s)) + of_bool (ph' = PHolding) - of_bool (ph = PHolding)
      \<and> tl_global l \<le> cap"
    and usr: "\<And>u. perUserActive l u \<Longrightarrow>
      user_count l u = user_count (ls_limiter s) u
        + of_bool (u = user_at s i \<and> ph' \<in> {PReserved, PRollback, PHolding, PFreed})
        - of_bool (u = user_at s i \<and> ph \<in> {PReserved, PRollback, PHolding, PFreed})
      \<and> user_count l u \<le> tl_maxPerUser l"
    and none: "\<And>u. \<not> perUserActive l u \<Longrightarrow> tl_perUser l u = None"
  shows "limiter_inv ((set_phase s i ph')\<lparr>ls_limiter := l\<rparr>)"
proof -
  have act: "perUserActive l u = perUserActive (ls_limiter s) u" for u
    using static(2) by (simp add: perUserActive_def)
  have "tl_global l = count_if owns_global ((ls_requests s)[i := (user_at s i, ph')]) \<and> tl_global l \<le> cap"
    if "tl_globalCap l = Some cap" for cap
    using glob [OF that] count_global_move [OF at, of ph'] inv that static(1)
    by (auto simp: limiter_inv_def)
  moreover have "user_count l u = int (count_if (owns_user u) ((ls_requests s)[i := (user_at s i, ph')])) \<and>
      user_count l u \<le> tl_maxPerUser l" if "perUserActive l u" for u
    using usr [OF that] count_user_move [OF at, of u ph'] inv that act [of u]
    by (simp add: limiter_inv_def)
  moreover have "limiter_inv ((set_phase s i ph')\<lparr>ls_limiter := l\<rparr>) \<longleftrightarrow>
      counts_pos l \<and>
      (\<forall>cap. tl_globalCap l = Some cap \<longrightarrow>
         tl_global l = count_if owns_global ((ls_requests s)[i := (user_at s i, ph')]) \<and> tl_global l \<le> cap) \<and>
      (\<forall>u. perUserActive l u \<longrightarrow>
         user_count l u = int (count_if (owns_user u) ((ls_requests s)[i := (user_at s i, ph')])) \<and>
         user_count l u \<le> tl_maxPerUser l) \<and>
      (\<forall>u. \<not> perUserActive l u \<longrightarrow> tl_perUser l u = None)"
    by (simp add: limiter_inv_def)
  ultimately show ?thesis using pos none by blast
qed

lemma limiter_inv_owner_pos:
  assumes "limiter_inv s" "at_phase s i ph" "ph \<in> {PReserved, PRollback, PHolding, PFreed}"
    "perUserActive (ls_limiter s) (user_at s i)"
  shows "0 < user_count (ls_limiter s) (user_at s i)"
proof -
  have "0 < count_if (owns_user (user_at s i)) (ls_requests s)"
    using assms(2,3) by (intro count_if_pos [of i]) (auto simp: at_phase_def owns_user_def user_at_def)
  with assms(1,4) show ?thesis by (simp add: limiter_inv_def)
qed

lemma limiter_inv_facts:
  assumes "limiter_inv s"
  shows "counts_pos (ls_limiter s)"
    "tl_globalCap (ls_limiter s) = Some cap \<Longrightarrow> tl_global (ls_limiter s) \<le> cap"
    "perUserActive (ls_limiter s) u \<Longrightarrow> user_count (ls_limiter s) u \<le> tl_maxPerUser (ls_limiter s)"
    "\<not> perUserActive (ls_limiter s) u \<Longrightarrow> tl_perUser (ls_limiter s) u = None"
  using assms by (auto simp: limiter_inv_def)

lemma limiter_inv_holding_pos:
  assumes "limiter_inv s" "at_phase s i PHolding" "tl_globalCap (ls_limiter s) = Some cap"
  shows "0 < tl_global (ls_limiter s)"
proof -
  have "0 < count_if owns_global (ls_requests s)"
    using assms(2) by (intro count_if_pos [of i]) (auto simp: at_phase_def owns_global_def)
  with assms(1,3) show ?thesis by (auto simp: limiter_inv_def)
qed

lemma limiter_step_inv:
  assumes inv: "limiter_inv s" and step: "limiter_step s t"
  shows "limiter_inv t"
  using step
proof (cases rule: limiter_step.cases)
  case (reject_user i)
  have "limiter_inv ((set_phase s i PDone)\<lparr>ls_limiter := ls_limiter s\<rparr>)"
    using limiter_inv_facts [OF inv] by (intro limiter_inv_move [OF inv reject_user(2)]) auto
  with reject_user(1) show ?thesis by (simp add: set_phase_def)
next
  case (reserve i)
  show ?thesis unfolding reserve(1)
    using limiter_inv_facts [OF inv] reserve(3,4)
    by (intro limiter_inv_move [OF inv reserve(2)])
      (auto simp: counts_pos_reserve user_full_def perUser_other dest: perUser_inactive)
next
  case (skip_user i)
  have "limiter_inv ((set_phase s i PReserved)\<lparr>ls_limiter := ls_limiter s\<rparr>)"
    using limiter_inv_facts [OF inv] skip_user(3) by (intro limiter_inv_move [OF inv skip_user(2)]) auto
  with skip_user(1) show ?thesis by (simp add: set_phase_def)
next
  case (reject_global i)
  have "limiter_inv ((set_phase s i PRollback)\<lparr>ls_limiter := ls_limiter s\<rparr>)"
    using limiter_inv_facts [OF inv] by (intro limiter_inv_move [OF inv reject_global(2)]) auto
  with reject_global(1) show ?thesis by (simp add: set_phase_def)
next
  case (hold i)
  show ?thesis unfolding hold(1)
    using limiter_inv_facts [OF inv] hold(3)
    by (intro limiter_inv_move [OF inv hold(2)]) (auto simp: global_counts global_full_def)
next
  case (finish i)
  show ?thesis unfolding finish(1)
    using limiter_inv_facts [OF inv] limiter_inv_holding_pos [OF inv finish(2)]
    by (intro limiter_inv_move [OF inv finish(2)])
      (auto simp: global_counts of_nat_diff)
next
  case (drop_user i)
  then obtain ph where ph: "at_phase s i ph" "ph \<in> {PRollback, PFreed}" by blast
  show ?thesis
  proof (cases "perUserActive (ls_limiter s) (user_at s i)")
    case True
    have pos: "0 < user_count (ls_limiter s) (user_at s i)"
      using True ph by (intro limiter_inv_owner_pos [OF inv ph(1)]) auto
    have "user_count (ls_limiter s) (user_at s i) - 1 \<le> tl_maxPerUser (ls_limiter s)"
      using limiter_inv_facts(3) [OF inv True] by simp
    then have "limiter_inv ((set_phase s i PDone)\<lparr>ls_limiter := releasePerUser (ls_limiter s) (user_at s i)\<rparr>)"
      using limiter_inv_facts [OF inv] ph(2) pos True
      by (intro limiter_inv_move [OF inv ph(1)])
        (auto simp: counts_pos_release user_count_release perUser_other dest: perUser_inactive)
    with True drop_user(1) show ?thesis by simp
  next
    case False
    then have "limiter_inv ((set_phase s i PDone)\<lparr>ls_limiter := ls_limiter s\<rparr>)"
      using limiter_inv_facts [OF inv] ph(2) by (intro limiter_inv_move [OF inv ph(1)]) auto
    with False drop_user(1) show ?thesis by simp
  qed
qed

lemma limiter_start_inv: "limiter_inv (limiter_start maxConcurrent maxPerUser users)"
proof -
  have "count_if p (map (\<lambda>u. (u, PIdle)) users) = 0" if "\<And>u. \<not> p (u, PIdle)" for p :: "request \<Rightarrow> bool"
    using that by (auto simp: count_if_0)
  then show ?thesis
    by (simp add: limiter_inv_def limiter_start_def counts_pos_def user_count_def gg_V_def
        owns_global_def owns_user_def perUserActive_def)
qed

interpretation limiter_run: invariant_machine "limiter_start maxConcurrent maxPerUser users"
    limiter_step limiter_inv for maxConcurrent maxPerUser users
  by unfold_locales (rule limiter_start_inv, rule limiter_step_inv)

lemma limiter_static_step:
  "limiter_step s t \<Longrightarrow> tl_globalCap (ls_limiter t) = tl_globalCap (ls_limiter s) \<and>
     tl_maxPerUser (ls_limiter t) = tl_maxPerUser (ls_limiter s)"
  by (cases rule: limiter_step.cases) auto

lemma limiter_static_reachable:
  "reachable_from limiter_step s t \<Longrightarrow> tl_globalCap (ls_limiter t) = tl_globalCap (ls_limiter s) \<and>
     tl_maxPerUser (ls_limiter t) = tl_maxPerUser (ls_limiter s)"
  by (induction rule: reachable_from.induct) (auto dest: limiter_static_step)

section \<open>Properties\<close>

text \<open>
  C3. In every state that concurrent requests can reach, at most \<open>maxConcurrent\<close> transcodes hold a
  slot and at most \<open>maxPerUser\<close> requests of one named user are between their reservation and
  their release, whatever the interleaving of the per-user section, the channel operations, the
  rollbacks and the releases.
\<close>

theorem limiter_caps:
  assumes "reachable_from limiter_step (limiter_start maxConcurrent maxPerUser users) s"
  shows "(maxConcurrent > 0 \<longrightarrow> int (count_if owns_global (ls_requests s)) \<le> maxConcurrent) \<and>
         (maxPerUser > 0 \<longrightarrow>
            (\<forall>u. u \<noteq> [] \<longrightarrow> int (count_if (owns_user u) (ls_requests s)) \<le> maxPerUser))"
proof -
  have inv: "limiter_inv s" using assms by (rule limiter_run.inv_reachable)
  have st: "tl_globalCap (ls_limiter s) = (if maxConcurrent > 0 then Some (nat maxConcurrent) else None)"
    "tl_maxPerUser (ls_limiter s) = maxPerUser"
    using limiter_static_reachable [OF assms] by (auto simp: limiter_start_def)
  have "int (count_if owns_global (ls_requests s)) \<le> maxConcurrent" if "maxConcurrent > 0"
    using inv st(1) that by (auto simp: limiter_inv_def)
  moreover have "int (count_if (owns_user u) (ls_requests s)) \<le> maxPerUser"
    if "maxPerUser > 0" "u \<noteq> []" for u
  proof -
    from that st(2) have "perUserActive (ls_limiter s) u" by (simp add: perUserActive_def)
    with inv st(2) show ?thesis unfolding limiter_inv_def by metis
  qed
  ultimately show ?thesis by blast
qed

text \<open>One request of one user that took its slots.\<close>

definition bob_holding :: limiter_system where
  "bob_holding = \<lparr>ls_limiter = \<lparr>tl_maxPerUser = 1, tl_globalCap = Some 1, tl_global = 1,
       tl_perUser = [''bob'' \<mapsto> 1]\<rparr>, ls_requests = [(''bob'', PHolding)]\<rparr>"

lemma limiter_example_run:
  "reachable_from limiter_step (limiter_start 1 1 [''bob'']) bob_holding"
proof -
  let ?s0 = "limiter_start 1 1 [''bob'']"
  let ?s1 = "(set_phase ?s0 0 PReserved)\<lparr>ls_limiter := reserve_user (ls_limiter ?s0) (user_at ?s0 0)\<rparr>"
  let ?s2 = "(set_phase ?s1 0 PHolding)\<lparr>ls_limiter := take_global (ls_limiter ?s1)\<rparr>"
  have "limiter_step ?s0 ?s1"
    by (rule limiter_step.reserve)
      (simp_all add: limiter_start_def at_phase_def user_at_def limiter_defs)
  moreover have "limiter_step ?s1 ?s2"
    by (rule limiter_step.hold)
      (simp_all add: limiter_start_def at_phase_def user_at_def set_phase_def limiter_defs)
  ultimately have "reachable_from limiter_step ?s0 ?s2"
    by (blast intro: reachable_from.intros)
  moreover have "?s2 = bob_holding"
    by (simp add: limiter_start_def user_at_def set_phase_def limiter_defs bob_holding_def)
  ultimately show ?thesis by simp
qed

theorem limiter_caps_witness:
  "reachable_from limiter_step (limiter_start 1 1 [''bob'']) bob_holding \<and>
   int (count_if owns_global (ls_requests bob_holding)) \<le> 1 \<and>
   int (count_if (owns_user ''bob'') (ls_requests bob_holding)) \<le> 1"
  using limiter_caps [OF limiter_example_run] limiter_example_run by simp



end
