(* ===== verification/File_Cache.thy ===== *)
theory File_Cache
  imports Bragi_Prelude
begin

text \<open>
  \<open>utils/cache/file_caches.go\<close>: the cache of produced files (transcodes, images) in front of a
  third party file cache.

  Parameters: the operations of package \<open>fscache\<close> on an abstract state \<open>'c\<close> (\<open>FSCacheOps\<close>), the
  reader function that produces a missing item, which acts on the rest of the program \<open>'w\<close>, and
  the outcomes of the I/O calls. What the file cache relies on in \<open>fscache\<close> is \<open>fscache_ok\<close>.
\<close>

section \<open>The third party cache\<close>

text \<open>
  What \<open>fscache.Cache.Get\<close> returns: an error, which may be \<open>fs.ErrNotExist\<close>; a reader with no
  writer for an entry it has; a reader and a writer for an entry it just created. \<open>CacheReader.Size\<close>
  gives the size so far, whether it is final, and an error.
\<close>

record reader_size =
  rs_size :: go_int
  rs_final :: bool
  rs_failed :: bool

datatype fs_got = GetError bool string | Hit "reader_size option" | Miss

record 'c FSCacheOps =
  fsc_Get :: "'c \<Rightarrow> string \<Rightarrow> fs_got \<times> 'c"
  fsc_Exists :: "'c \<Rightarrow> string \<Rightarrow> bool"
  fsc_Remove :: "'c \<Rightarrow> string \<Rightarrow> string option \<times> 'c"

section \<open>The file cache\<close>

record fileCache =
  fc_ready :: bool
  fc_disabled :: bool

text \<open>
  \<open>newFSCache\<close>: the size is parsed by package \<open>humanize\<close> (an invalid one is the default), size 0
  means no cache, and the file system or the cache may fail to start.
\<close>

datatype new_cache = NoCache | CacheFailed string | CacheReady nat

definition DefaultCacheSize :: nat where "DefaultCacheSize = 100 * 1024 * 1024"

definition newFSCache ::
  "(string \<Rightarrow> nat option) \<Rightarrow> (nat \<Rightarrow> string option) \<Rightarrow> (nat \<Rightarrow> string option) \<Rightarrow> string \<Rightarrow> new_cache" where
  "newFSCache ParseBytes NewSpreadFS NewCacheWithHaunter cacheSize =
     (let size = (case ParseBytes cacheSize of None \<Rightarrow> DefaultCacheSize | Some n \<Rightarrow> n)
      in if size = 0 then NoCache
         else case NewSpreadFS size of
                Some err \<Rightarrow> CacheFailed err
              | None \<Rightarrow> (case NewCacheWithHaunter size of
                           Some err \<Rightarrow> CacheFailed err | None \<Rightarrow> CacheReady size))"

text \<open>\<open>NewFileCache\<close>: the cache as returned, and as its background initialisation leaves it.\<close>

definition NewFileCache :: fileCache where
  "NewFileCache = \<lparr>fc_ready = False, fc_disabled = False\<rparr>"

definition init_file_cache :: "new_cache \<Rightarrow> fileCache \<Rightarrow> fileCache" where
  "init_file_cache made fc =
     fc\<lparr>fc_disabled := (case made of CacheReady _ \<Rightarrow> False | _ \<Rightarrow> True), fc_ready := True\<rparr>"

definition fc_Available :: "fileCache \<Rightarrow> bool" where
  "fc_Available fc \<longleftrightarrow> fc_ready fc \<and> \<not> fc_disabled fc"

definition fc_Disabled :: "fileCache \<Rightarrow> bool" where
  "fc_Disabled fc \<longleftrightarrow> fc_disabled fc"

definition invalidate :: "'c FSCacheOps \<Rightarrow> fileCache \<Rightarrow> string \<Rightarrow> 'c \<Rightarrow> string option \<times> 'c" where
  "invalidate ops fc key c =
     (if \<not> fc_Available fc then (None, c)
      else if \<not> fsc_Exists ops c key then (None, c)
      else fsc_Remove ops c key)"

definition getFinalCachedSize :: "reader_size option \<Rightarrow> go_int" where
  "getFinalCachedSize r =
     (case r of Some cr \<Rightarrow> if rs_final cr \<and> \<not> rs_failed cr then rs_size cr else - 1 | None \<Rightarrow> - 1)"

text \<open>
  \<open>CachedStream\<close>: what it reads from, and whether it can seek. A direct reader is closed with
  the stream; the cache's own reader too.
\<close>

datatype 'r stream_source = FromReader 'r | FromCache string | FromSection string go_int

record 'r CachedStream =
  cs_Reader :: "'r stream_source"
  cs_Seeker :: bool
  cs_Cached :: bool

datatype 'e get_error = CacheError string | ReaderError 'e

text \<open>
  \<open>Get\<close>: its result is the error or the stream with the reader that a copying goroutine was started
  for. \<open>getReader\<close> may change the state of the program.
\<close>

definition fc_Get ::
  "'c FSCacheOps \<Rightarrow> fileCache \<Rightarrow> ('i \<Rightarrow> string) \<Rightarrow> ('i \<Rightarrow> 'w \<Rightarrow> ('e + 'r) \<times> 'w) \<Rightarrow> 'i \<Rightarrow> 'c \<Rightarrow> 'w \<Rightarrow>
   ('e get_error + 'r CachedStream \<times> 'r option) \<times> 'c \<times> 'w" where
  "fc_Get ops fc Key getReader arg c w =
     (if \<not> fc_Available fc then
        (case getReader arg w of
           (Inl err, w') \<Rightarrow> (Inl (ReaderError err), c, w')
         | (Inr reader, w') \<Rightarrow>
             (Inr (\<lparr>cs_Reader = FromReader reader, cs_Seeker = False, cs_Cached = False\<rparr>, None), c, w'))
      else
        let key = Key arg;
            (got, c1) =
              (case fsc_Get ops c key of
                 (GetError True err, c0) \<Rightarrow> fsc_Get ops (snd (invalidate ops fc key c0)) key
               | r \<Rightarrow> r)
        in case got of
             GetError _ err \<Rightarrow> (Inl (CacheError err), c1, w)
           | Miss \<Rightarrow>
               (case getReader arg w of
                  (Inl err, w') \<Rightarrow> (Inl (ReaderError err), snd (invalidate ops fc key c1), w')
                | (Inr reader, w') \<Rightarrow>
                    (Inr (\<lparr>cs_Reader = FromCache key, cs_Seeker = False, cs_Cached = False\<rparr>,
                          Some reader), c1, w'))
           | Hit r \<Rightarrow>
               (let size = getFinalCachedSize r
                in if size \<ge> 0 then
                     (Inr (\<lparr>cs_Reader = FromSection key size, cs_Seeker = True, cs_Cached = True\<rparr>, None), c1, w)
                   else
                     (Inr (\<lparr>cs_Reader = FromCache key, cs_Seeker = False, cs_Cached = True\<rparr>, None), c1, w)))"

text \<open>
  \<open>copyAndClose\<close>: what it does, in order, and the errors it collects, for given outcomes of the copy
  and of the two \<open>Close\<close> calls (\<open>srcClose\<close> is \<open>None\<close> for a reader that is no closer).
\<close>

datatype copy_effect = CopyData | CloseSource | MarkComplete string | CloseWriter

definition copyAndClose ::
  "bool \<Rightarrow> string \<Rightarrow> string option \<Rightarrow> string option option \<Rightarrow> string option \<Rightarrow>
   copy_effect list \<times> string list" where
  "copyAndClose hasFS key copyErr srcClose wClose =
     (let e1 = (case copyErr of None \<Rightarrow> [] | Some e \<Rightarrow> [''copying data to cache: '' @ e]);
          (f2, e2) =
            (case srcClose of
               None \<Rightarrow> ([], e1)
             | Some None \<Rightarrow> ([CloseSource], e1)
             | Some (Some e) \<Rightarrow> ([CloseSource], e1 @ [''closing source stream: '' @ e]));
          f3 = (if e2 = [] \<and> hasFS then [MarkComplete key] else []);
          e4 = (case wClose of None \<Rightarrow> e2 | Some e \<Rightarrow> e2 @ [''closing cache writer: '' @ e])
      in (CopyData # f2 @ f3 @ [CloseWriter], e4))"

text \<open>The goroutine that \<open>Get\<close> starts on a miss.\<close>

definition store_in_cache ::
  "'c FSCacheOps \<Rightarrow> fileCache \<Rightarrow> bool \<Rightarrow> string \<Rightarrow> string option \<Rightarrow> string option option \<Rightarrow>
   string option \<Rightarrow> 'c \<Rightarrow> copy_effect list \<times> 'c" where
  "store_in_cache ops fc hasFS key copyErr srcClose wClose c =
     (case copyAndClose hasFS key copyErr srcClose wClose of (effects, errs) \<Rightarrow>
        (effects, if errs \<noteq> [] then snd (invalidate ops fc key c) else c))"

section \<open>What the cache underneath promises\<close>

text \<open>
  A key the cache does not have is created by \<open>Get\<close>; \<open>Get\<close> keeps every other key, and the key
  itself; a successful \<open>Remove\<close> removes exactly its key.
\<close>

definition fscache_ok :: "'c FSCacheOps \<Rightarrow> bool" where
  "fscache_ok ops \<longleftrightarrow>
     (\<forall>c k. \<not> fsc_Exists ops c k \<longrightarrow> fst (fsc_Get ops c k) = Miss) \<and>
     (\<forall>c k. fst (fsc_Get ops c k) = Miss \<longrightarrow> fsc_Exists ops (snd (fsc_Get ops c k)) k) \<and>
     (\<forall>c k k'. k' \<noteq> k \<longrightarrow> fsc_Exists ops (snd (fsc_Get ops c k)) k' = fsc_Exists ops c k') \<and>
     (\<forall>c k. fst (fsc_Remove ops c k) = None \<longrightarrow> \<not> fsc_Exists ops (snd (fsc_Remove ops c k)) k) \<and>
     (\<forall>c k k'. k' \<noteq> k \<longrightarrow> fsc_Exists ops (snd (fsc_Remove ops c k)) k' = fsc_Exists ops c k')"

definition removes_succeed :: "'c FSCacheOps \<Rightarrow> bool" where
  "removes_succeed ops \<longleftrightarrow> (\<forall>c k. fst (fsc_Remove ops c k) = None)"

lemma fscache_okD:
  assumes "fscache_ok ops"
  shows "\<not> fsc_Exists ops c k \<Longrightarrow> fst (fsc_Get ops c k) = Miss"
    "fst (fsc_Get ops c k) = Miss \<Longrightarrow> fsc_Exists ops (snd (fsc_Get ops c k)) k"
    "k' \<noteq> k \<Longrightarrow> fsc_Exists ops (snd (fsc_Get ops c k)) k' = fsc_Exists ops c k'"
    "fst (fsc_Remove ops c k) = None \<Longrightarrow> \<not> fsc_Exists ops (snd (fsc_Remove ops c k)) k"
    "k' \<noteq> k \<Longrightarrow> fsc_Exists ops (snd (fsc_Remove ops c k)) k' = fsc_Exists ops c k'"
  using assms by (simp_all add: fscache_ok_def)

lemma invalidate_removes:
  assumes "fscache_ok ops" "removes_succeed ops" "fc_Available fc"
  shows "\<not> fsc_Exists ops (snd (invalidate ops fc k c)) k"
    "k' \<noteq> k \<Longrightarrow> fsc_Exists ops (snd (invalidate ops fc k c)) k' = fsc_Exists ops c k'"
  using assms fscache_okD(4,5) [OF assms(1)] by (auto simp: invalidate_def removes_succeed_def)

text \<open>The entry that \<open>Get\<close> works with: the first answer, or the one after dropping a lost entry.\<close>

definition get_entry :: "'c FSCacheOps \<Rightarrow> fileCache \<Rightarrow> string \<Rightarrow> 'c \<Rightarrow> fs_got \<times> 'c" where
  "get_entry ops fc key c =
     (case fsc_Get ops c key of
        (GetError True err, c0) \<Rightarrow> fsc_Get ops (snd (invalidate ops fc key c0)) key
      | r \<Rightarrow> r)"

lemma get_entry_cases:
  assumes "fscache_ok ops" "removes_succeed ops" "fc_Available fc"
  shows "get_entry ops fc key c = fsc_Get ops c key \<and> (\<forall>e. fst (fsc_Get ops c key) \<noteq> GetError True e) \<or>
    (\<exists>e c0. fsc_Get ops c key = (GetError True e, c0) \<and> fst (get_entry ops fc key c) = Miss)"
  using fscache_okD(1) [OF assms(1) invalidate_removes(1) [OF assms]]
  by (auto simp: get_entry_def split: prod.splits fs_got.splits bool.splits)

lemma get_entry_Miss:
  assumes "fscache_ok ops" "fst (get_entry ops fc key c) = Miss"
  shows "fsc_Exists ops (snd (get_entry ops fc key c)) key"
proof -
  have *: "fsc_Get ops c' k = (Miss, c'') \<Longrightarrow> fsc_Exists ops c'' k" for c' k c''
    using fscache_okD(2) [OF assms(1), of c' k] by simp
  show ?thesis
    using assms(2) fscache_okD(2) [OF assms(1)]
    by (auto simp: get_entry_def intro: * split: prod.splits fs_got.splits bool.splits if_splits)
qed

lemma get_entry_other:
  assumes "fscache_ok ops" "removes_succeed ops" "fc_Available fc" "k' \<noteq> key"
  shows "fsc_Exists ops (snd (get_entry ops fc key c)) k' = fsc_Exists ops c k'"
proof (cases "fsc_Get ops c key")
  case (Pair got c0)
  have "fsc_Exists ops c0 k' = fsc_Exists ops c k'"
    using fscache_okD(3) [OF assms(1,4), of c] Pair by simp
  moreover have "fsc_Exists ops (snd (fsc_Get ops (snd (invalidate ops fc key c0)) key)) k' = fsc_Exists ops c0 k'"
    using fscache_okD(3) [OF assms(1,4)] invalidate_removes(2) [OF assms] by simp
  ultimately show ?thesis
    using Pair by (auto simp: get_entry_def split: fs_got.splits bool.splits)
qed

lemma fc_Get_entry:
  "fc_Available fc \<Longrightarrow> fc_Get ops fc Key getReader arg c w =
     (let key = Key arg; (got, c1) = get_entry ops fc key c
      in case got of
           GetError _ err \<Rightarrow> (Inl (CacheError err), c1, w)
         | Miss \<Rightarrow>
             (case getReader arg w of
                (Inl err, w') \<Rightarrow> (Inl (ReaderError err), snd (invalidate ops fc key c1), w')
              | (Inr reader, w') \<Rightarrow>
                  (Inr (\<lparr>cs_Reader = FromCache key, cs_Seeker = False, cs_Cached = False\<rparr>,
                        Some reader), c1, w'))
         | Hit r \<Rightarrow>
             (let size = getFinalCachedSize r
              in if size \<ge> 0 then
                   (Inr (\<lparr>cs_Reader = FromSection key size, cs_Seeker = True, cs_Cached = True\<rparr>, None), c1, w)
                 else
                   (Inr (\<lparr>cs_Reader = FromCache key, cs_Seeker = False, cs_Cached = True\<rparr>, None), c1, w)))"
  by (simp add: fc_Get_def get_entry_def Let_def)

lemma fc_Get_behaviour:
  assumes ok: "fscache_ok ops" "removes_succeed ops" "fc_Available fc"
    and get: "fc_Get ops fc Key getReader arg c w = (res, c', w')"
  shows "(case res of
      Inr (s, None) \<Rightarrow> cs_Cached s \<and> w' = w
    | Inr (s, Some r) \<Rightarrow> \<not> cs_Cached s \<and> getReader arg w = (Inr r, w') \<and> fsc_Exists ops c' (Key arg)
    | Inl (ReaderError e) \<Rightarrow> getReader arg w = (Inl e, w') \<and> \<not> fsc_Exists ops c' (Key arg)
    | Inl (CacheError e) \<Rightarrow> w' = w \<and> fst (fsc_Get ops c (Key arg)) = GetError False e) \<and>
    (\<forall>k. k \<noteq> Key arg \<longrightarrow> fsc_Exists ops c' k = fsc_Exists ops c k)"
proof -
  obtain got c1 where e: "get_entry ops fc (Key arg) c = (got, c1)" by force
  have other: "k \<noteq> Key arg \<Longrightarrow> fsc_Exists ops c1 k = fsc_Exists ops c k" for k
    using get_entry_other [OF ok, of k "Key arg" c] e by simp
  note get = get [unfolded fc_Get_entry [OF ok(3)] Let_def e prod.case]
  show ?thesis
  proof (cases got)
    case (GetError b err)
    with get_entry_cases [OF ok, of "Key arg" c] e
    have "fsc_Get ops c (Key arg) = (GetError False err, c1)"
      by (cases b) (auto, metis fst_conv)
    with GetError get other show ?thesis by auto
  next
    case (Hit r)
    with get other show ?thesis by (auto split: if_splits)
  next
    case Miss
    with get_entry_Miss [OF ok(1), of fc "Key arg" c] e have "fsc_Exists ops c1 (Key arg)" by simp
    with Miss get other invalidate_removes [OF ok] show ?thesis
      by (auto split: prod.splits sum.splits)
  qed
qed

section \<open>Properties\<close>


text \<open>A cache of complete entries, as a set of keys; the third entry's data file is lost.\<close>

definition sample_ops :: "(string list) FSCacheOps" where
  "sample_ops = \<lparr>fsc_Get = (\<lambda>c k. if k \<in> set c
       then (if k = ''lost'' then GetError True ''gone'' else Hit (Some \<lparr>rs_size = 3, rs_final = True, rs_failed = False\<rparr>), c)
       else (Miss, k # c)),
     fsc_Exists = (\<lambda>c k. k \<in> set c), fsc_Remove = (\<lambda>c k. (None, filter (\<lambda>x. x \<noteq> k) c))\<rparr>"


text \<open>
  The goroutine that stores a produced file leaves either a complete entry or none: the entry is
  marked complete before the writer is closed, only when the copy and the source's \<open>Close\<close> succeeded,
  and any error drops it.
\<close>

lemma store_in_cache_spec:
  assumes "fscache_ok ops" "removes_succeed ops" "fc_Available fc"
    and "store_in_cache ops fc hasFS key copyErr srcClose wClose c = (effects, c')"
  shows "(MarkComplete key \<in> set effects \<longrightarrow> copyErr = None \<and> srcClose \<noteq> Some (Some e)) \<and>
    last effects = CloseWriter \<and>
    (copyErr \<noteq> None \<or> wClose \<noteq> None \<longrightarrow> \<not> fsc_Exists ops c' key) \<and>
    (copyErr = None \<and> wClose = None \<and> (srcClose = None \<or> srcClose = Some None) \<longrightarrow> c' = c)"
  using assms(4) invalidate_removes(1) [OF assms(1-3)]
  by (auto simp: store_in_cache_def copyAndClose_def Let_def split: option.splits if_splits)

end
