(* ===== verification/Go_Strings.thy ===== *)
theory Go_Strings
  imports Bragi_Prelude
begin

text \<open>
  Functions of Go's package \<open>strings\<close> that the code uses: search, replacement, fields, trimming.
  White space is that of \<open>unicode.IsSpace\<close> in the ASCII range.
\<close>

fun Contains :: "string \<Rightarrow> string \<Rightarrow> bool" where
  "Contains [] sub \<longleftrightarrow> sub = []"
| "Contains (c # cs) sub \<longleftrightarrow> HasPrefix (c # cs) sub \<or> Contains cs sub"

definition ContainsAny :: "string \<Rightarrow> string \<Rightarrow> bool" where
  "ContainsAny s chars \<longleftrightarrow> list_ex (\<lambda>c. c \<in> set chars) s"

definition HasSuffix :: "string \<Rightarrow> string \<Rightarrow> bool" where
  "HasSuffix s suffix \<longleftrightarrow> HasPrefix (rev s) (rev suffix)"

text \<open>\<open>strings.SplitN(s, sep, 2)\<close> for a separator of one byte: the text before the first and after it.\<close>

fun Cut :: "char \<Rightarrow> string \<Rightarrow> string \<times> string option" where
  "Cut d [] = ([], None)"
| "Cut d (c # s) = (if c = d then ([], Some s) else (case Cut d s of (a, r) \<Rightarrow> (c # a, r)))"

text \<open>\<open>strings.ReplaceAll\<close> for a non-empty \<open>old\<close>: from the left, without overlaps.\<close>

function ReplaceAll :: "string \<Rightarrow> string \<Rightarrow> string \<Rightarrow> string" where
  "ReplaceAll [] old new = []"
| "ReplaceAll (c # cs) old new =
     (if HasPrefix (c # cs) old \<and> old \<noteq> [] then new @ ReplaceAll (drop (length old - 1) cs) old new
      else c # ReplaceAll cs old new)"
  by pat_completeness auto
termination by (relation "measure (\<lambda>(s, _, _). length s)") auto

definition is_space :: "char \<Rightarrow> bool" where
  "is_space c \<longleftrightarrow> c \<in> set [CHR '' '', CHR 0x09, CHR 0x0A, CHR 0x0B, CHR 0x0C, CHR 0x0D]"

definition TrimLeft :: "string \<Rightarrow> string" where "TrimLeft s = dropWhile is_space s"
definition TrimSpace :: "string \<Rightarrow> string" where
  "TrimSpace s = rev (dropWhile is_space (rev (dropWhile is_space s)))"

text \<open>\<open>strings.Fields\<close>: the maximal runs of bytes that are not white space.\<close>

function Fields :: "string \<Rightarrow> string list" where
  "Fields s =
     (let t = dropWhile is_space s
      in if t = [] then [] else takeWhile (\<lambda>c. \<not> is_space c) t # Fields (dropWhile (\<lambda>c. \<not> is_space c) t))"
  by pat_completeness auto
termination
proof (relation "measure length", simp, goal_cases)
  case (1 s t)
  obtain c cs where t: "dropWhile is_space s = c # cs" using 1 by (meson list.exhaust)
  have "\<not> is_space c" using t by (simp add: dropWhile_eq_Cons_conv)
  then have "length (dropWhile (\<lambda>c. \<not> is_space c) (c # cs)) \<le> length cs"
    by (simp add: length_dropWhile_le)
  moreover have "length (c # cs) \<le> length s" unfolding t [symmetric] by (rule length_dropWhile_le)
  ultimately show ?case unfolding 1(1) t by simp
qed

declare Fields.simps [simp del]

section \<open>Lemmas\<close>

lemma HasPrefix_append [simp]: "HasPrefix (p @ s) p"
  by (simp add: HasPrefix_def)

lemma HasPrefix_iff: "HasPrefix s p \<longleftrightarrow> (\<exists>r. s = p @ r)"
  by (metis HasPrefix_def append_eq_conv_conj append_take_drop_id)

lemma Contains_append: "Contains b sub \<Longrightarrow> Contains (a @ b) sub"
  by (induction a) auto

lemma Contains_middle: "Contains s sub \<longleftrightarrow> (\<exists>a b. s = a @ sub @ b)"
proof
  assume "Contains s sub"
  then show "\<exists>a b. s = a @ sub @ b"
  proof (induction s)
    case (Cons c cs)
    then consider r where "c # cs = sub @ r" | a b where "cs = a @ sub @ b"
      by (auto simp: HasPrefix_iff)
    then show ?case by cases (metis append_Nil, metis append_Cons)
  qed simp
next
  assume "\<exists>a b. s = a @ sub @ b"
  then obtain a b where "s = a @ sub @ b" by blast
  moreover have "Contains (sub @ b) sub" by (cases "sub @ b") (metis Contains.simps HasPrefix_append append_is_Nil_conv)+
  ultimately show "Contains s sub" by (auto intro: Contains_append)
qed

lemma Contains_char: "Contains s [d] \<longleftrightarrow> d \<in> set s"
  by (auto simp: Contains_middle dest: split_list)

lemma ReplaceAll_absent: "\<not> Contains s old \<Longrightarrow> ReplaceAll s old new = s"
  by (induction s old new rule: ReplaceAll.induct) auto

lemma Cut_cases:
  "case Cut d s of (a, None) \<Rightarrow> a = s \<and> d \<notin> set s | (a, Some r) \<Rightarrow> s = a @ d # r \<and> d \<notin> set a"
proof (induction s)
  case (Cons c s)
  obtain a x where "Cut d s = (a, x)" by fastforce
  with Cons show ?case by (cases x) auto
qed simp

lemma Cut_iff:
  "d \<notin> set s \<Longrightarrow> Cut d s = (s, None)" "d \<notin> set a \<Longrightarrow> Cut d (a @ d # r) = (a, Some r)"
  subgoal by (induction s) auto
  subgoal by (induction a) auto
  done

lemma Cut_None: "Cut d s = (a, None) \<longleftrightarrow> a = s \<and> d \<notin> set s"
  using Cut_cases [where d = d and s = s] Cut_iff(1) by auto

lemma Cut_Some: "Cut d s = (a, Some r) \<longleftrightarrow> s = a @ d # r \<and> d \<notin> set a"
  using Cut_cases [where d = d and s = s] Cut_iff(2) by auto

lemma Cut_sep [simp]: "d \<notin> set w \<Longrightarrow> Cut d (w @ d # r) = (w, Some r)"
  by (rule Cut_iff)

lemma Cut_no_sep [simp]: "d \<notin> set s \<Longrightarrow> Cut d s = (s, None)"
  by (rule Cut_iff)

lemma Fields_unfold:
  "Fields s = (case dropWhile is_space s of [] \<Rightarrow> []
     | c # cs \<Rightarrow> (c # takeWhile (\<lambda>c. \<not> is_space c) cs) # Fields (dropWhile (\<lambda>c. \<not> is_space c) cs))"
proof (cases "dropWhile is_space s")
  case (Cons c cs)
  then have "\<not> is_space c" by (simp add: dropWhile_eq_Cons_conv)
  with Cons show ?thesis by (subst Fields.simps) simp
next
  case Nil
  then show ?thesis by (subst Fields.simps) (simp only: Let_def list.case simp_thms if_True)
qed

lemma Fields_nonempty: "w \<in> set (Fields s) \<Longrightarrow> w \<noteq> [] \<and> (\<forall>c\<in>set w. \<not> is_space c)"
proof (induction "length s" arbitrary: s rule: less_induct)
  case less
  show ?case
  proof (cases "dropWhile is_space s")
    case (Cons c cs)
    then have c: "\<not> is_space c" by (simp add: dropWhile_eq_Cons_conv)
    have "length (c # cs) \<le> length s" unfolding Cons [symmetric] by (rule length_dropWhile_le)
    then have "length (dropWhile (\<lambda>c. \<not> is_space c) cs) < length s"
      using length_dropWhile_le [of "\<lambda>c. \<not> is_space c" cs] by simp
    note IH = less(1) [OF this]
    from less(2) Cons have "w = c # takeWhile (\<lambda>c. \<not> is_space c) cs \<or> w \<in> set (Fields (dropWhile (\<lambda>c. \<not> is_space c) cs))"
      by (simp only: Fields_unfold [of s] list.case list.set insert_iff)
    then show ?thesis
    proof
      assume w: "w = c # takeWhile (\<lambda>c. \<not> is_space c) cs"
      show ?thesis unfolding w using c set_takeWhileD [of _ "\<lambda>c. \<not> is_space c" cs] by simp
    qed (rule IH)
  qed (use less(2) in \<open>simp only: Fields_unfold [of s] list.case list.set empty_iff\<close>)
qed

end
