(* ===== verification/Utils_Req.thy ===== *)
theory Utils_Req
  imports Go_Strings
begin

text \<open>
  \<open>utils/req/req.go\<close>: typed access to the query parameters of a request. \<open>r.URL.Query()\<close> is a map
  from parameter names to their values in order of occurrence; \<open>time.Now()\<close> is an argument.
\<close>

section \<open>Query values\<close>

type_synonym Values = "string \<rightharpoonup> string list"

datatype param_error = ErrMissingParam string | ErrInvalidParam string string

text \<open>\<open>url.Values.Get\<close>: the first value, or the empty string; a missing key reads as no values.\<close>

definition query_values :: "Values \<Rightarrow> string \<Rightarrow> string list" where
  "query_values r param = (case r param of None \<Rightarrow> [] | Some vs \<Rightarrow> vs)"

definition query_Get :: "Values \<Rightarrow> string \<Rightarrow> string" where
  "query_Get r param = (case query_values r param of [] \<Rightarrow> [] | v # _ \<Rightarrow> v)"

section \<open>Accessors\<close>

definition req_String :: "Values \<Rightarrow> string \<Rightarrow> param_error + string" where
  "req_String r param =
     (let v = query_Get r param
      in if v = [] then Inl (ErrMissingParam param) else Inr v)"

definition StringPtr :: "Values \<Rightarrow> string \<Rightarrow> string option" where
  "StringPtr r param = (case r param of None \<Rightarrow> None | Some _ \<Rightarrow> Some (query_Get r param))"

definition true_value :: "string \<Rightarrow> bool" where
  "true_value v \<longleftrightarrow> Contains ''/true/on/1/'' (''/'' @ ToLower v @ ''/'')"

definition BoolPtr :: "Values \<Rightarrow> string \<Rightarrow> bool option" where
  "BoolPtr r param =
     (case r param of None \<Rightarrow> None | Some _ \<Rightarrow> Some (true_value (query_Get r param)))"

text \<open>The value of \<open>v, _ := r.String(param)\<close>, the error dropped.\<close>

definition string_or_empty :: "Values \<Rightarrow> string \<Rightarrow> string" where
  "string_or_empty r param = (case req_String r param of Inl _ \<Rightarrow> [] | Inr v \<Rightarrow> v)"

definition StringOr :: "Values \<Rightarrow> string \<Rightarrow> string \<Rightarrow> string" where
  "StringOr r param def = (let v = string_or_empty r param in if v = [] then def else v)"

definition Strings :: "Values \<Rightarrow> string \<Rightarrow> string list" where
  "Strings r param = query_values r param"

definition UnixMilli :: "go_int \<Rightarrow> time_ns" where
  "UnixMilli ms = ms * 1000000"

definition second_day :: time_ns where
  "second_day = 86400 * 1000000000"

definition TimeOr :: "Values \<Rightarrow> string \<Rightarrow> time_ns \<Rightarrow> time_ns" where
  "TimeOr r param def =
     (let v = string_or_empty r param
      in if v = [] \<or> v = ''-1'' then def
         else case Atoi v of
                None \<Rightarrow> def
              | Some value \<Rightarrow> let t = UnixMilli value in if t < second_day then def else t)"

definition Times :: "time_ns \<Rightarrow> Values \<Rightarrow> string \<Rightarrow> param_error + time_ns list" where
  "Times now r param =
     (let pStr = Strings r param
      in if pStr = [] then Inl (ErrMissingParam param)
         else Inr (map (\<lambda>t. case Atoi t of None \<Rightarrow> now | Some ti \<Rightarrow> UnixMilli ti) pStr))"

definition req_Int64 :: "Values \<Rightarrow> string \<Rightarrow> param_error + go_int" where
  "req_Int64 r param =
     bind_result (req_String r param) (\<lambda>v.
       case Atoi v of None \<Rightarrow> Inl (ErrInvalidParam param v) | Some value \<Rightarrow> Inr value)"

definition req_Int :: "Values \<Rightarrow> string \<Rightarrow> param_error + go_int" where
  "req_Int r param = req_Int64 r param"

definition IntOr :: "Values \<Rightarrow> string \<Rightarrow> go_int \<Rightarrow> go_int" where
  "IntOr r param def = (case req_Int64 r param of Inl _ \<Rightarrow> def | Inr v \<Rightarrow> v)"

definition Int64Or :: "Values \<Rightarrow> string \<Rightarrow> go_int \<Rightarrow> go_int" where
  "Int64Or r param def = (case req_Int64 r param of Inl _ \<Rightarrow> def | Inr v \<Rightarrow> v)"

definition Ints :: "Values \<Rightarrow> string \<Rightarrow> param_error + go_int list" where
  "Ints r param =
     (let pStr = Strings r param
      in if pStr = [] then Inl (ErrMissingParam param) else Inr (List.map_filter Atoi pStr))"

definition req_Bool :: "Values \<Rightarrow> string \<Rightarrow> param_error + bool" where
  "req_Bool r param = bind_result (req_String r param) (\<lambda>v. Inr (true_value v))"

definition BoolOr :: "Values \<Rightarrow> string \<Rightarrow> bool \<Rightarrow> bool" where
  "BoolOr r param def = (case req_Bool r param of Inl _ \<Rightarrow> def | Inr v \<Rightarrow> v)"

section \<open>Properties\<close>

lemma Itoa_nonempty [simp]: "Itoa i \<noteq> []"
  by (simp add: Itoa_def)

lemma req_Int64_cases:
  "req_Int64 r param =
     (if query_Get r param = [] then Inl (ErrMissingParam param)
      else case Atoi (query_Get r param) of
             None \<Rightarrow> Inl (ErrInvalidParam param (query_Get r param)) | Some v \<Rightarrow> Inr v)"
  by (simp add: req_Int64_def req_String_def Let_def)

text \<open>
  Integer parameters: a parameter printed from any 64 bit integer reads back as that integer,
  whatever the default and whatever further values follow; a reading that succeeds is in the 64 bit
  range; a missing or malformed parameter is reported as such by \<open>Int\<close> and replaced by the default
  by \<open>IntOr\<close>.
\<close>

theorem req_Int_spec:
  "(in_int64 i \<longrightarrow>
      req_Int (r(p \<mapsto> Itoa i # vs)) p = Inr i \<and> IntOr (r(p \<mapsto> Itoa i # vs)) p def = i) \<and>
   (\<forall>j. req_Int r p = Inr j \<longrightarrow> in_int64 j \<and> IntOr r p def = j) \<and>
   (r p = None \<longrightarrow> req_Int r p = Inl (ErrMissingParam p) \<and> IntOr r p def = def) \<and>
   (query_Get r p \<noteq> [] \<and> Atoi (query_Get r p) = None \<longrightarrow>
      req_Int r p = Inl (ErrInvalidParam p (query_Get r p)) \<and> IntOr r p def = def)"
  by (auto simp: req_Int_def IntOr_def req_Int64_cases query_Get_def query_values_def Atoi_Itoa
      dest: Atoi_range split: if_splits option.splits)

theorem req_Int_spec_witness:
  "in_int64 (-7) \<and> req_Int [''offset'' \<mapsto> [Itoa (-7)]] ''offset'' = Inr (-7)"
proof -
  have "in_int64 (-7)" by (simp add: in_int64_def int64_min_def int64_max_def)
  with req_Int_spec [of "-7" Map.empty "''offset''" "[]"] show ?thesis by simp
qed

lemma true_value_words: "true_value ''true''" "true_value ''ON''" "true_value ''1''"
  "\<not> true_value ''yes''" "\<not> true_value ''0''" "\<not> true_value []"
  by code_simp+

text \<open>The test looks for the value between slashes anywhere in the list of words, so it also accepts
  two neighbouring words with the slash between them.\<close>

lemma true_value_two_words: "true_value ''on/1''" "true_value ''TRUE/on''"
  by code_simp+

end
