(* ===== verification/Go_Float.thy ===== *)
theory Go_Float
  imports Bragi_Prelude Complex_Main
begin

text \<open>
  The value of Go's \<open>float32\<close>. A \<open>float32\<close> is carried as its 32 bits; the services that compute with
  a track's duration read the rational number those bits denote.
\<close>

text \<open>The number a finite \<open>float32\<close> denotes: sign, 8 bits of exponent, 23 bits of fraction.\<close>

definition float32_value :: "float32 \<Rightarrow> rat" where
  "float32_value w =
     (let b = uint w; s = b div 2 ^ 31; e = b div 2 ^ 23 mod 2 ^ 8; f = b mod 2 ^ 23
      in (if s = 1 then -1 else 1) *
         (if e = 0 then of_int f / 2 ^ 149
          else of_int (2 ^ 23 + f) * 2 ^ nat e / 2 ^ 150))"

text \<open>The conversion of a float to an integer truncates.\<close>

definition go_trunc :: "rat \<Rightarrow> int" where
  "go_trunc x = (if 0 \<le> x then \<lfloor>x\<rfloor> else \<lceil>x\<rceil>)"

end
