(* ===== verification/Stream_MediaStreamer.thy ===== *)
theory Stream_MediaStreamer
  imports Stream_Limiter File_Cache Utils_Req Go_Float
begin

text \<open>
  \<open>core/stream/media_streamer.go\<close>: opening a stream for a request, raw or through the transcoding
  cache, the producer that fills the cache, and serving a stream over HTTP.

  Parameters: \<open>os.Open\<close>, the transcoder, the MIME table, the outcome of copying the stream to the
  client, the text of a time stamp, and the rounding of \<open>float32\<close> arithmetic.
\<close>

section \<open>Jobs\<close>

record streamJob =
  sj_mf :: MediaFile
  sj_filePath :: string
  sj_format :: string
  sj_bitRate :: go_int
  sj_sampleRate :: go_int
  sj_bitDepth :: go_int
  sj_channels :: go_int
  sj_offset :: go_int

text \<open>\<open>Key\<close>: the name of the job's file in the cache; \<open>rfc3339\<close> prints the modification time.\<close>

definition job_Key :: "(time_ns \<Rightarrow> string) \<Rightarrow> streamJob \<Rightarrow> string" where
  "job_Key rfc3339 j =
     mf_ID (sj_mf j) @ ''.'' @ rfc3339 (mf_UpdatedAt (sj_mf j)) @ ''.'' @ Itoa (sj_bitRate j) @ ''.'' @
     Itoa (sj_sampleRate j) @ ''.'' @ Itoa (sj_bitDepth j) @ ''.'' @ Itoa (sj_channels j) @ ''.'' @
     sj_format j @ ''.'' @ Itoa (sj_offset j)"

section \<open>The transcoding producer\<close>

text \<open>
  The function the transcoding cache calls for a missing entry (\<open>NewTranscodingCache\<close>): look the
  command up, take a slot, start ffmpeg; on failure give the slot back. The started transcode keeps
  the slot until its reader is closed (\<open>releasingReadCloser\<close>). \<open>run\<close> is the transcoder. The
  context that drives ffmpeg is the request's when the limiter is enabled or cancellation is
  configured.
\<close>

datatype producer_error = ErrInvalid | TooManyTranscodes

definition limiterKey :: "Ctx \<Rightarrow> string" where
  "limiterKey ctx = gg_V [] (ctx_User ctx)"

record TranscodeOptions =
  to_Command :: string
  to_Format :: string
  to_FilePath :: string
  to_BitRate :: go_int
  to_SampleRate :: go_int
  to_BitDepth :: go_int
  to_Channels :: go_int
  to_Offset :: go_int
  to_RequestBound :: bool \<comment> \<open>ffmpeg runs under the request's context\<close>

definition transcode_producer ::
  "StreamEnv \<Rightarrow> bool \<Rightarrow> (TranscodeOptions \<Rightarrow> 'r option) \<Rightarrow> Ctx \<Rightarrow> streamJob \<Rightarrow>
   TranscodeLimiter \<Rightarrow> (producer_error + 'r) \<times> TranscodeLimiter" where
  "transcode_producer env enableCancellation run ctx job lm =
     (let command = LookupTranscodeCommand env (sj_format job)
      in if command = [] then (Inl ErrInvalid, lm)
         else case Acquire lm (limiterKey ctx) of
                Inl _ \<Rightarrow> (Inl TooManyTranscodes, lm)
              | Inr lm1 \<Rightarrow>
                  (case run \<lparr>to_Command = command, to_Format = sj_format job,
                             to_FilePath = sj_filePath job, to_BitRate = sj_bitRate job,
                             to_SampleRate = sj_sampleRate job, to_BitDepth = sj_bitDepth job,
                             to_Channels = sj_channels job, to_Offset = sj_offset job,
                             to_RequestBound = (Enabled lm1 \<or> enableCancellation)\<rparr> of
                     None \<Rightarrow> (Inl ErrInvalid, Release lm1 (limiterKey ctx))
                   | Some out \<Rightarrow> (Inr out, lm1)))"

section \<open>Streams\<close>

datatype 'r stream_reader = RawFile string | Transcoded "'r CachedStream"

record 'r Stream =
  st_mf :: MediaFile
  st_bitRate :: go_int
  st_format :: string
  st_reader :: "'r stream_reader"

datatype stream_error = OpenFailed string | TranscodeFailed "producer_error get_error"

definition Seekable :: "'r Stream \<Rightarrow> bool" where
  "Seekable s \<longleftrightarrow> (case st_reader s of RawFile _ \<Rightarrow> True | Transcoded r \<Rightarrow> cs_Seeker r)"

definition Stream_Name :: "'r Stream \<Rightarrow> string" where
  "Stream_Name s = mf_Title (st_mf s) @ ''.'' @ st_format s"

definition ContentType :: "(string \<Rightarrow> string) \<Rightarrow> 'r Stream \<Rightarrow> string" where
  "ContentType TypeByExtension s = TypeByExtension (''.'' @ st_format s)"

definition EstimatedContentLength :: "(rat \<Rightarrow> rat) \<Rightarrow> 'r Stream \<Rightarrow> go_int" where
  "EstimatedContentLength r32 s =
     go_trunc (r32 (r32 (r32 (float32_value (mf_Duration (st_mf s)) * r32 (of_int (st_bitRate s))) / 8) * 1024))"

text \<open>
  The collaborators of the streamer: the file system, the transcoding cache and its state, the
  transcoder, and the configuration.
\<close>

record ('c, 'r) StreamerEnv =
  sx_stream :: StreamEnv
  sx_Open :: "string \<Rightarrow> string option" \<comment> \<open>the error of \<open>os.Open\<close>\<close>
  sx_fscache :: "'c FSCacheOps"
  sx_fileCache :: fileCache
  sx_Transcode :: "TranscodeOptions \<Rightarrow> 'r option"
  sx_EnableCancellation :: bool
  sx_rfc3339 :: "time_ns \<Rightarrow> string"

definition transcoding_cache_Get ::
  "('c, 'r) StreamerEnv \<Rightarrow> Ctx \<Rightarrow> streamJob \<Rightarrow> 'c \<Rightarrow> TranscodeLimiter \<Rightarrow>
   (producer_error get_error + 'r CachedStream \<times> 'r option) \<times> 'c \<times> TranscodeLimiter" where
  "transcoding_cache_Get env ctx =
     fc_Get (sx_fscache env) (sx_fileCache env) (job_Key (sx_rfc3339 env))
       (transcode_producer (sx_stream env) (sx_EnableCancellation env) (sx_Transcode env) ctx)"

text \<open>
  \<open>NewStream\<close>: the stream, with the transcode a goroutine now copies into the cache, if any; the
  cache and the limiter after the call.
\<close>

definition NewStream ::
  "('c, 'r) StreamerEnv \<Rightarrow> Ctx \<Rightarrow> MediaFile \<Rightarrow> Request \<Rightarrow> 'c \<Rightarrow> TranscodeLimiter \<Rightarrow>
   (stream_error + 'r Stream \<times> 'r option) \<times> 'c \<times> TranscodeLimiter" where
  "NewStream env ctx mf req c lm =
     (let raw = (req_Format req = [] \<or> req_Format req = ''raw'');
          format = (if raw then ''raw'' else req_Format req);
          bitRate = (if raw then 0 else req_BitRate req);
          filePath = AbsolutePath mf
      in if format = ''raw'' then
           (case sx_Open env filePath of
              Some err \<Rightarrow> (Inl (OpenFailed err), c, lm)
            | None \<Rightarrow>
                (Inr (\<lparr>st_mf = mf, st_bitRate = bitRate, st_format = mf_Suffix mf,
                       st_reader = RawFile filePath\<rparr>, None), c, lm))
         else
           (case transcoding_cache_Get env ctx
                   \<lparr>sj_mf = mf, sj_filePath = filePath, sj_format = format, sj_bitRate = bitRate,
                    sj_sampleRate = req_SampleRate req, sj_bitDepth = req_BitDepth req,
                    sj_channels = req_Channels req, sj_offset = req_Offset req\<rparr> c lm of
              (Inl err, c', lm') \<Rightarrow> (Inl (TranscodeFailed err), c', lm')
            | (Inr (r, started), c', lm') \<Rightarrow>
                (Inr (\<lparr>st_mf = mf, st_bitRate = bitRate, st_format = format,
                       st_reader = Transcoded r\<rparr>, started), c', lm')))"

section \<open>Serving\<close>

text \<open>
  What \<open>Serve\<close> does with the response: hand over to \<open>http.ServeContent\<close>; drain the stream in the
  background for a HEAD request; or copy it to the client. \<open>copied\<close> is the outcome of \<open>io.Copy\<close>: the
  bytes written and the error. The result is what is returned and the headers set, in order;
  a deleted header is gone again.
\<close>

datatype serve_mode = ServedContent string time_ns | Drained | Copied

record serve_result =
  sv_mode :: serve_mode
  sv_headers :: "(string \<times> string) list"
  sv_n :: go_int
  sv_err :: "string option"

definition Serve ::
  "(string \<Rightarrow> string) \<Rightarrow> (rat \<Rightarrow> rat) \<Rightarrow> 'r Stream \<Rightarrow> string \<Rightarrow> Values \<Rightarrow> go_int \<times> string option \<Rightarrow>
   serve_result" where
  "Serve TypeByExtension r32 s reqMethod query copied =
     (if Seekable s then
        \<lparr>sv_mode = ServedContent (Stream_Name s) (mf_UpdatedAt (st_mf s)), sv_headers = [],
         sv_n = - 1, sv_err = None\<rparr>
      else
        let base = [(''Accept-Ranges'', ''none''), (''Content-Type'', ContentType TypeByExtension s)];
            headers =
              (if BoolOr query ''estimateContentLength'' False
               then base @ [(''Content-Length'', Itoa (EstimatedContentLength r32 s))] else base)
        in if reqMethod = ''HEAD'' then
             \<lparr>sv_mode = Drained, sv_headers = headers, sv_n = 0, sv_err = None\<rparr>
           else
             case copied of
               (n, Some err) \<Rightarrow>
                 if n = 0 then
                   \<lparr>sv_mode = Copied, sv_headers = filter (\<lambda>h. fst h \<noteq> ''Content-Length'') headers,
                    sv_n = 0, sv_err = Some (''sending transcoded file: '' @ err)\<rparr>
                 else \<lparr>sv_mode = Copied, sv_headers = headers, sv_n = n, sv_err = None\<rparr>
             | (n, None) \<Rightarrow> \<lparr>sv_mode = Copied, sv_headers = headers, sv_n = n, sv_err = None\<rparr>)"

section \<open>Lemmas\<close>

text \<open>
  A transcode that does not start keeps no slot: whenever the producer fails (no command, no free
  slot, ffmpeg error) the limiter is unchanged, and closing the reader of a transcode that did start
  puts the limiter back to what it was before.
\<close>

lemma producer_slots:
  assumes "limiter_ok lm" and "transcode_producer env c run ctx job lm = (r, lm')"
  shows "(\<forall>e. r = Inl e \<longrightarrow> lm' = lm) \<and> (\<forall>out. r = Inr out \<longrightarrow> Release lm' (limiterKey ctx) = lm)"
  using assms limiter.release_acquired [OF assms(1), of "limiterKey ctx"]
  by (auto simp: transcode_producer_def Let_def split: if_splits sum.splits option.splits)

lemma producer_failed: "limiter_ok lm \<Longrightarrow> transcode_producer env c run ctx job lm = (Inl e, lm') \<Longrightarrow> lm' = lm"
  using producer_slots by blast

lemma producer_started:
  "limiter_ok lm \<Longrightarrow> transcode_producer env c run ctx job lm = (Inr r, lm') \<Longrightarrow> Release lm' (limiterKey ctx) = lm"
  using producer_slots by blast

lemma fc_Get_uncached:
  "\<not> fc_Available fc \<Longrightarrow> fc_Get ops fc Key getReader arg c w =
     (case getReader arg w of
        (Inl err, w') \<Rightarrow> (Inl (ReaderError err), c, w')
      | (Inr reader, w') \<Rightarrow>
          (Inr (\<lparr>cs_Reader = FromReader reader, cs_Seeker = False, cs_Cached = False\<rparr>, None), c, w'))"
  by (simp add: fc_Get_def)

lemma prefix_free_sep:
  assumes "\<And>t u. fmt t = fmt u \<Longrightarrow> t = u" "\<And>t u s. fmt t = fmt u @ s \<Longrightarrow> s = []"
  shows "fmt t @ d # x = fmt u @ d # y \<longleftrightarrow> t = u \<and> x = y"
proof
  assume eq: "fmt t @ d # x = fmt u @ d # y"
  then consider s where "fmt t = fmt u @ s" | s where "fmt u = fmt t @ s"
    by (metis append_eq_append_conv2)
  then have "fmt t = fmt u" by cases (use assms(2) in auto)
  with eq assms(1) show "t = u \<and> x = y" by simp
qed simp

section \<open>Properties\<close>

text \<open>
  Two jobs share a cache file only if they are the same transcode: for media file ids without
  a dot, and a printed time that is unambiguous and no prefix of another, equal keys mean the same
  file id, the same modification time, format, bitrate, sample rate, bit depth, channels and offset.
\<close>

lemma job_Key_unique:
  assumes "\<And>t u. rfc3339 t = rfc3339 u \<Longrightarrow> t = u" "\<And>t u s. rfc3339 t = rfc3339 u @ s \<Longrightarrow> s = []"
    and "CHR ''.'' \<notin> set (mf_ID (sj_mf j))" "CHR ''.'' \<notin> set (mf_ID (sj_mf k))"
  shows "job_Key rfc3339 j = job_Key rfc3339 k \<longleftrightarrow>
     mf_ID (sj_mf j) = mf_ID (sj_mf k) \<and> mf_UpdatedAt (sj_mf j) = mf_UpdatedAt (sj_mf k) \<and>
     sj_bitRate j = sj_bitRate k \<and> sj_sampleRate j = sj_sampleRate k \<and> sj_bitDepth j = sj_bitDepth k \<and>
     sj_channels j = sj_channels k \<and> sj_format j = sj_format k \<and> sj_offset j = sj_offset k"
  using assms(3,4)
  by (simp add: job_Key_def sep_left sep_right prefix_free_sep [of rfc3339, OF assms(1,2)])

definition mp3_job :: "string \<Rightarrow> go_int \<Rightarrow> streamJob" where
  "mp3_job i bitRate = \<lparr>sj_mf = zero_MediaFile\<lparr>mf_ID := i\<rparr>, sj_filePath = ''/m/a.flac'', sj_format = ''mp3'',
     sj_bitRate = bitRate, sj_sampleRate = 0, sj_bitDepth = 0, sj_channels = 2, sj_offset = 0\<rparr>"

lemma job_Key_unique_witness:
  "job_Key (\<lambda>t. Itoa t @ ''Z'') (mp3_job ''a'' 12) \<noteq> job_Key (\<lambda>t. Itoa t @ ''Z'') (mp3_job ''a'' 120)"
proof -
  have z: "CHR ''Z'' \<notin> set (Itoa t)" for t
    using Itoa_chars [of "CHR ''Z''" t] by (auto simp: is_digit_def byte_def)
  have "s = []" if "Itoa t @ ''Z'' = (Itoa u @ ''Z'') @ s" for t u s
    using that sep_left [of "CHR ''Z''" "Itoa t" "Itoa u" "[]" s] z by auto
  then show ?thesis
    using job_Key_unique [of "\<lambda>t. Itoa t @ ''Z''" "mp3_job ''a'' 12" "mp3_job ''a'' 120"]
    by (auto simp: mp3_job_def)
qed

text \<open>The built-in transcodings only, no probing.\<close>

definition plain_stream_env :: StreamEnv where
  "plain_stream_env = \<lparr>env_FindByFormat = (\<lambda>_. None), env_DefaultDownsamplingFormat = ''opus'',
     env_DevEnableMediaFileProbe = False, env_IsProbeAvailable = False,
     env_ProbeAudioStream = (\<lambda>_. Inl (FFmpegMissing [])), env_Marshal = (\<lambda>_. []), env_Unmarshal = (\<lambda>_. None)\<rparr>"


definition sample_streamer :: "(string list, nat) StreamerEnv" where
  "sample_streamer = \<lparr>sx_stream = plain_stream_env, sx_Open = (\<lambda>_. None), sx_fscache = sample_ops,
     sx_fileCache = \<lparr>fc_ready = True, fc_disabled = False\<rparr>, sx_Transcode = (\<lambda>_. Some 7),
     sx_EnableCancellation = False, sx_rfc3339 = Itoa\<rparr>"

definition bob_ctx :: Ctx where
  "bob_ctx = \<lparr>ctx_User = Some ''bob'', ctx_Player = None, ctx_Transcoding = None\<rparr>"

lemma sample_ops_ok: "fscache_ok sample_ops" "removes_succeed sample_ops"
  by (auto simp: fscache_ok_def removes_succeed_def sample_ops_def)


end
