(* ===== verification/Subsonic_Response.thy ===== *)
theory Subsonic_Response
  imports Bragi_Prelude
begin

text \<open>
  \<open>server/subsonic/responses/errors.go\<close>: the error codes of the Subsonic protocol, and their texts.
\<close>

datatype subsonic_code =
  ErrorGeneric | ErrorMissingParameter | ErrorClientTooOld | ErrorServerTooOld
| ErrorAuthenticationFail | ErrorAuthorizationFail | ErrorTrialExpired | ErrorDataNotFound

fun code_number :: "subsonic_code \<Rightarrow> go_int" where
  "code_number ErrorGeneric = 0"
| "code_number ErrorMissingParameter = 10"
| "code_number ErrorClientTooOld = 20"
| "code_number ErrorServerTooOld = 30"
| "code_number ErrorAuthenticationFail = 40"
| "code_number ErrorAuthorizationFail = 50"
| "code_number ErrorTrialExpired = 60"
| "code_number ErrorDataNotFound = 70"

fun code_text :: "subsonic_code \<Rightarrow> string" where
  "code_text ErrorGeneric = ''A generic error''"
| "code_text ErrorMissingParameter = ''Required parameter is missing''"
| "code_text ErrorClientTooOld =
     ''Incompatible Subsonic REST protocol version. Client must upgrade''"
| "code_text ErrorServerTooOld =
     ''Incompatible Subsonic REST protocol version. Server must upgrade''"
| "code_text ErrorAuthenticationFail = ''Wrong username or password''"
| "code_text ErrorAuthorizationFail = ''User is not authorized for the given operation''"
| "code_text ErrorTrialExpired =
     ''The trial period for the Subsonic server is over. Please upgrade to Subsonic Premium. Visit subsonic.org for details''"
| "code_text ErrorDataNotFound = ''The requested data was not found''"

definition all_codes :: "subsonic_code list" where
  "all_codes = [ErrorGeneric, ErrorMissingParameter, ErrorClientTooOld, ErrorServerTooOld,
     ErrorAuthenticationFail, ErrorAuthorizationFail, ErrorTrialExpired, ErrorDataNotFound]"

text \<open>\<open>ErrorMsg\<close>: the text of a code number, the generic one for a number that is no code.\<close>

definition ErrorMsg :: "go_int \<Rightarrow> string" where
  "ErrorMsg n =
     (case List.find (\<lambda>c. code_number c = n) all_codes of
        Some c \<Rightarrow> code_text c | None \<Rightarrow> code_text ErrorGeneric)"

lemma ErrorMsg_code: "ErrorMsg (code_number c) = code_text c"
  by (cases c) (simp_all add: ErrorMsg_def all_codes_def)

end
