(* ===== verification/Subsonic_Transcode.thy ===== *)
theory Subsonic_Transcode
  imports Stream_Token Stream_MediaStreamer Subsonic_Response
begin

text \<open>
  \<open>server/subsonic/transcode.go\<close>: the OpenSubsonic endpoints \<open>getTranscodeDecision\<close> and
  \<open>getTranscodeStream\<close>, from the decoded request body and the query to the reply.

  Parameters: the JSON decoder of the body, the data store's \<open>Get\<close>, the JWT library, the clock, and
  what the services underneath take. Bitrates of the protocol are in bits per second, those of the
  services in kilobits; the conversions are written with the wrap-around of Go's \<open>int\<close>.
\<close>

section \<open>Request structures\<close>

record directPlayProfileRequest =
  dr_Containers :: "string list"
  dr_AudioCodecs :: "string list"
  dr_Protocols :: "string list"
  dr_MaxAudioChannels :: go_int

record transcodingProfileRequest =
  tr_Container :: string
  tr_AudioCodec :: string
  tr_Protocol :: string
  tr_MaxAudioChannels :: go_int

record limitationRequest =
  lr_Name :: string
  lr_Comparison :: string
  lr_Values :: "string list"
  lr_Required :: bool

record codecProfileRequest =
  cr_Type :: string
  cr_Name :: string
  cr_Limitations :: "limitationRequest list"

record clientInfoRequest =
  cir_Name :: string
  cir_Platform :: string
  cir_MaxAudioBitrate :: go_int
  cir_MaxTranscodingAudioBitrate :: go_int
  cir_DirectPlayProfiles :: "directPlayProfileRequest list"
  cir_TranscodingProfiles :: "transcodingProfileRequest list"
  cir_CodecProfiles :: "codecProfileRequest list"

section \<open>Conversions\<close>

definition bpsToKbps :: "go_int \<Rightarrow> go_int" where
  "bpsToKbps bps = (if bps < 0 then 0 else go_quot (wrap64 (bps + 500)) 1000)"

definition kbpsToBps :: "go_int \<Rightarrow> go_int" where
  "kbpsToBps kbps = wrap64 (kbps * 1000)"

definition convertBitrateValues :: "string list \<Rightarrow> string list" where
  "convertBitrateValues bpsValues =
     map (\<lambda>v. case Atoi v of Some n \<Rightarrow> Itoa (bpsToKbps n) | None \<Rightarrow> v) bpsValues"

definition toCoreLimitation :: "limitationRequest \<Rightarrow> Limitation" where
  "toCoreLimitation l =
     \<lparr>lim_Name = lr_Name l, lim_Comparison = lr_Comparison l,
      lim_Values = (if lr_Name l = LimitationAudioBitrate then convertBitrateValues (lr_Values l)
                    else lr_Values l),
      lim_Required = lr_Required l\<rparr>"

definition toCoreClientInfo :: "clientInfoRequest \<Rightarrow> ClientInfo" where
  "toCoreClientInfo r =
     \<lparr>ci_Name = cir_Name r, ci_Platform = cir_Platform r,
      ci_MaxAudioBitrate = bpsToKbps (cir_MaxAudioBitrate r),
      ci_MaxTranscodingAudioBitrate = bpsToKbps (cir_MaxTranscodingAudioBitrate r),
      ci_DirectPlayProfiles =
        map (\<lambda>dp. \<lparr>dpp_Containers = dr_Containers dp, dpp_AudioCodecs = dr_AudioCodecs dp,
                   dpp_Protocols = dr_Protocols dp, dpp_MaxAudioChannels = dr_MaxAudioChannels dp\<rparr>)
          (cir_DirectPlayProfiles r),
      ci_TranscodingProfiles =
        map (\<lambda>tp. \<lparr>tp_Container = tr_Container tp, tp_AudioCodec = tr_AudioCodec tp,
                   tp_Protocol = tr_Protocol tp, tp_MaxAudioChannels = tr_MaxAudioChannels tp\<rparr>)
          (cir_TranscodingProfiles r),
      ci_CodecProfiles =
        map (\<lambda>cp. \<lparr>cp_Type = cr_Type cp, cp_Name = cr_Name cp,
                   cp_Limitations = map toCoreLimitation (cr_Limitations cp)\<rparr>)
          (cir_CodecProfiles r)\<rparr>"

section \<open>Validation\<close>

definition ProtocolHLS :: string where "ProtocolHLS = ''hls''"

definition isValidMediaType :: "string \<Rightarrow> bool" where
  "isValidMediaType mediaType \<longleftrightarrow> mediaType \<in> set [''song'']"

definition isValidProtocol :: "string \<Rightarrow> bool" where
  "isValidProtocol p \<longleftrightarrow> p \<in> set [ProtocolHTTP, ProtocolHLS]"

definition isValidCodecProfileType :: "string \<Rightarrow> bool" where
  "isValidCodecProfileType t \<longleftrightarrow> t \<in> set [CodecProfileTypeAudio]"

definition isValidLimitationName :: "string \<Rightarrow> bool" where
  "isValidLimitationName n \<longleftrightarrow> n \<in> set [LimitationAudioChannels, LimitationAudioBitrate,
     LimitationAudioProfile, LimitationAudioSamplerate, LimitationAudioBitdepth]"

definition isValidComparison :: "string \<Rightarrow> bool" where
  "isValidComparison c \<longleftrightarrow> c \<in> set [ComparisonEquals, ComparisonNotEquals,
     ComparisonLessThanEqual, ComparisonGreaterThanEqual]"

text \<open>The loops of \<open>validate\<close>, each stopping at the first error; \<open>None\<close> is Go's \<open>nil\<close>.\<close>

fun first_error :: "('a \<Rightarrow> string option) \<Rightarrow> 'a list \<Rightarrow> string option" where
  "first_error f [] = None"
| "first_error f (x # xs) = (case f x of Some e \<Rightarrow> Some e | None \<Rightarrow> first_error f xs)"

definition validate_protocol :: "string \<Rightarrow> string option" where
  "validate_protocol p = (if isValidProtocol p then None else Some (''invalid protocol: '' @ p))"

definition validate_limitation :: "limitationRequest \<Rightarrow> string option" where
  "validate_limitation l =
     (if \<not> isValidLimitationName (lr_Name l) then Some (''invalid limitation name: '' @ lr_Name l)
      else if \<not> isValidComparison (lr_Comparison l) then Some (''invalid comparison: '' @ lr_Comparison l)
      else None)"

definition validate_codec_profile :: "codecProfileRequest \<Rightarrow> string option" where
  "validate_codec_profile cp =
     (if \<not> isValidCodecProfileType (cr_Type cp) then Some (''invalid codec profile type: '' @ cr_Type cp)
      else first_error validate_limitation (cr_Limitations cp))"

definition validate :: "clientInfoRequest \<Rightarrow> string option" where
  "validate r =
     (case first_error (\<lambda>dp. first_error validate_protocol (dr_Protocols dp)) (cir_DirectPlayProfiles r) of
        Some e \<Rightarrow> Some e
      | None \<Rightarrow>
          (case first_error (\<lambda>tp. if tr_Protocol tp \<noteq> [] then validate_protocol (tr_Protocol tp) else None)
                  (cir_TranscodingProfiles r) of
             Some e \<Rightarrow> Some e
           | None \<Rightarrow> first_error validate_codec_profile (cir_CodecProfiles r)))"

section \<open>Replies\<close>

record ResponseStreamDetails =
  rd_Protocol :: string
  rd_Container :: string
  rd_Codec :: string
  rd_AudioBitrate :: go_int
  rd_AudioProfile :: string
  rd_AudioSamplerate :: go_int
  rd_AudioBitdepth :: go_int
  rd_AudioChannels :: go_int

definition toResponseStreamDetails :: "Details \<Rightarrow> ResponseStreamDetails" where
  "toResponseStreamDetails sd =
     \<lparr>rd_Protocol = ProtocolHTTP, rd_Container = sd_Container sd, rd_Codec = sd_Codec sd,
      rd_AudioBitrate = int32_of (kbpsToBps (sd_Bitrate sd)), rd_AudioProfile = sd_Profile sd,
      rd_AudioSamplerate = int32_of (sd_SampleRate sd), rd_AudioBitdepth = int32_of (sd_BitDepth sd),
      rd_AudioChannels = int32_of (sd_Channels sd)\<rparr>"

record 'tok DecisionResponse =
  dec_CanDirectPlay :: bool
  dec_CanTranscode :: bool
  dec_TranscodeReasons :: "string list"
  dec_ErrorReason :: string
  dec_TranscodeParams :: "'tok option" \<comment> \<open>\<open>None\<close> is the empty string\<close>
  dec_SourceStream :: ResponseStreamDetails
  dec_TranscodeStream :: "ResponseStreamDetails option"

datatype 'tok decision_reply =
  MethodNotAllowed | Rejected subsonic_code string | Decided "'tok DecisionResponse"

datatype get_failure = NotFound | StoreError string

text \<open>
  \<open>transcodeFailure\<close>: the code and the text sent for an error of \<open>MakeDecision\<close>. Only the path-free
  reason of a \<open>ProbeError\<close> is sent.
\<close>

definition transcodeFailure :: "decision_error \<Rightarrow> subsonic_code \<times> string" where
  "transcodeFailure err =
     (case err of
        ProbingMediaFile i (ProbeError path reason notFound detail) \<Rightarrow>
          if notFound then (ErrorDataNotFound, reason) else (ErrorGeneric, reason)
      | ProbingMediaFile i (FFmpegMissing e) \<Rightarrow> (ErrorGeneric, ''internal error''))"

section \<open>getTranscodeDecision\<close>

record ('body, 'tok) DecisionEnv =
  de_stream :: StreamEnv
  de_Decode :: "'body \<Rightarrow> clientInfoRequest option"
  de_Get :: "string \<Rightarrow> get_failure + MediaFile"
  de_encode :: "claims \<Rightarrow> string + 'tok"
  de_now :: time_ns

text \<open>The profiles that \<open>slices.DeleteFunc\<close> removes: those that would be transcoded to AAC.\<close>

definition aac_profile :: "Profile \<Rightarrow> bool" where
  "aac_profile p \<longleftrightarrow>
     (if tp_AudioCodec p \<noteq> [] then IsAACCodec (tp_AudioCodec p) else IsAACCodec (tp_Container p))"

text \<open>The client the decision is made for: the profile filter, the forced format and the cap.\<close>

definition negotiated_client :: "Ctx \<Rightarrow> clientInfoRequest \<Rightarrow> ClientInfo" where
  "negotiated_client ctx body =
     (let ci0 = toCoreClientInfo body;
          ci1 = ci0\<lparr>ci_TranscodingProfiles :=
                  filter (\<lambda>p. \<not> aac_profile p) (ci_TranscodingProfiles ci0)\<rparr>;
          ci2 = (case ctx_Transcoding ctx of
                   Some trc \<Rightarrow> if trc_TargetFormat trc \<noteq> [] then fst (ForceFormat (trc_TargetFormat trc) ci1)
                               else ci1
                 | None \<Rightarrow> ci1)
      in case ctx_Player ctx of
           Some player \<Rightarrow> fst (CapBitrate (pl_MaxBitRate player) ci2)
         | None \<Rightarrow> ci2)"

definition GetTranscodeDecision ::
  "('body, 'tok) DecisionEnv \<Rightarrow> Ctx \<Rightarrow> string \<Rightarrow> Values \<Rightarrow> 'body \<Rightarrow>
   'tok decision_reply \<times> (string \<times> string) list" where
  "GetTranscodeDecision env ctx reqMethod p body =
     (if reqMethod \<noteq> ''POST'' then (MethodNotAllowed, [])
      else case req_String p ''mediaId'' of
        Inl _ \<Rightarrow> (Rejected ErrorMissingParameter ''missing required parameter: mediaId'', [])
      | Inr mediaID \<Rightarrow>
      (case req_String p ''mediaType'' of
        Inl _ \<Rightarrow> (Rejected ErrorMissingParameter ''missing required parameter: mediaType'', [])
      | Inr mediaType \<Rightarrow>
      if \<not> isValidMediaType mediaType then
        (Rejected ErrorGeneric (''mediaType '' @ single_quoted mediaType @ '' is not yet supported''), [])
      else (case de_Decode env body of
        None \<Rightarrow> (Rejected ErrorGeneric ''invalid JSON request body'', [])
      | Some clientInfoReq \<Rightarrow>
      (case validate clientInfoReq of
        Some e \<Rightarrow> (Rejected ErrorGeneric e, [])
      | None \<Rightarrow>
      (let clientInfo = negotiated_client ctx clientInfoReq
       in case de_Get env mediaID of
        Inl NotFound \<Rightarrow> (Rejected ErrorDataNotFound (''media file not found: '' @ mediaID), [])
      | Inl (StoreError _) \<Rightarrow> (Rejected ErrorGeneric ''error retrieving media file'', [])
      | Inr mf \<Rightarrow>
      (case MakeDecision (de_stream env) mf clientInfo False of
        (Inl err, _, calls) \<Rightarrow>
          (case transcodeFailure err of (code, reason) \<Rightarrow>
             (Rejected code (''failed to make transcode decision: '' @ reason), calls))
      | (Inr decision, _, calls) \<Rightarrow>
      (let token =
             (if td_CanDirectPlay decision \<or> td_CanTranscode decision
              then map_sum id Some (CreateTranscodeParams (de_encode env) (de_now env) decision)
              else Inr None)
       in case token of
        Inl _ \<Rightarrow> (Rejected ErrorGeneric ''failed to create transcode token'', calls)
      | Inr transcodeParams \<Rightarrow>
          (Decided \<lparr>dec_CanDirectPlay = td_CanDirectPlay decision,
             dec_CanTranscode = td_CanTranscode decision,
             dec_TranscodeReasons = td_TranscodeReasons decision,
             dec_ErrorReason = td_ErrorReason decision, dec_TranscodeParams = transcodeParams,
             dec_SourceStream = toResponseStreamDetails (td_SourceStream decision),
             dec_TranscodeStream = map_option toResponseStreamDetails (td_TranscodeStream decision)\<rparr>,
           calls))))))))"

section \<open>getTranscodeStream\<close>

record ('c, 'r, 'tok) StreamApiEnv =
  sa_streamer :: "('c, 'r) StreamerEnv"
  sa_Get :: "string \<Rightarrow> get_failure + MediaFile"
  sa_decode :: "string \<Rightarrow> string + claims"
  sa_TypeByExtension :: "string \<Rightarrow> string"
  sa_round32 :: "rat \<Rightarrow> rat"

datatype 'r stream_reply =
  HttpError nat | Streamed "'r Stream" serve_result bool
  \<comment> \<open>the stream served, the outcome, and whether \<open>http.Error(500)\<close> followed\<close>

text \<open>The reply, the transcode that was started for it, the cache and the limiter after the call.\<close>

definition GetTranscodeStream ::
  "('c, 'r, 'tok) StreamApiEnv \<Rightarrow> Ctx \<Rightarrow> string \<Rightarrow> Values \<Rightarrow> go_int \<times> string option \<Rightarrow> 'c \<Rightarrow>
   TranscodeLimiter \<Rightarrow> 'r stream_reply \<times> 'r option \<times> 'c \<times> TranscodeLimiter" where
  "GetTranscodeStream env ctx reqMethod p copied c lm =
     (case req_String p ''mediaId'' of Inl _ \<Rightarrow> (HttpError 400, None, c, lm) | Inr mediaID \<Rightarrow>
     (case req_String p ''mediaType'' of Inl _ \<Rightarrow> (HttpError 400, None, c, lm) | Inr mediaType \<Rightarrow>
     (case req_String p ''transcodeParams'' of Inl _ \<Rightarrow> (HttpError 400, None, c, lm) | Inr tok \<Rightarrow>
      if \<not> isValidMediaType mediaType then (HttpError 400, None, c, lm)
      else (case sa_Get env mediaID of
        Inl NotFound \<Rightarrow> (HttpError 404, None, c, lm)
      | Inl (StoreError _) \<Rightarrow> (HttpError 500, None, c, lm)
      | Inr mf \<Rightarrow>
      (case ResolveRequestFromToken (sa_decode env) tok mf (IntOr p ''offset'' 0) of
        Inl _ \<Rightarrow> (HttpError 410, None, c, lm)
      | Inr streamReq \<Rightarrow>
      (case NewStream (sa_streamer env) ctx mf streamReq c lm of
        (Inl _, c', lm') \<Rightarrow> (HttpError 500, None, c', lm')
      | (Inr (s, started), c', lm') \<Rightarrow>
      (let sv = Serve (sa_TypeByExtension env) (sa_round32 env) s reqMethod p copied
       in (Streamed s sv (sv_err sv \<noteq> None \<or> sv_n sv = 0), started, c', lm'))))))))"

end
