(* ===== verification/Subsonic_Transcode_Correct.thy ===== *)
theory Subsonic_Transcode_Correct
  imports Subsonic_Transcode
begin

text \<open>
  What the transcode endpoints guarantee: a request is accepted exactly if its enumerated fields are
  legal; a player's bitrate limit holds from the decision through the token to the stream; no
  server path reaches the client; and a stream is only opened for a verified, fresh token.
\<close>

section \<open>Conversions\<close>

lemma bpsToKbps_exact:
  assumes "bps \<le> int64_max - 500"
  shows "bpsToKbps bps = (if bps < 0 then 0 else (bps + 500) div 1000)"
  using assms by (auto simp: bpsToKbps_def wrap64_id int64_max_def go_quot_def)

lemma bpsToKbps_nonneg: "bps \<le> int64_max - 500 \<Longrightarrow> 0 \<le> bpsToKbps bps"
  by (simp add: bpsToKbps_exact pos_imp_zdiv_nonneg_iff)

lemma bpsToKbps_pos: "500 \<le> bps \<Longrightarrow> bps \<le> int64_max - 500 \<Longrightarrow> bpsToKbps bps \<noteq> 0"
  by (simp add: bpsToKbps_exact)

text \<open>
  At the top of the range the addition wraps and the limit becomes negative, which the services
  take for no limit: a client that sends it escapes the player's limit.
\<close>

lemma bpsToKbps_wraps: "bpsToKbps int64_max < 0"
  by (simp add: bpsToKbps_def wrap64_def int64_max_def go_quot_def)

lemma kbps_round_trip: "0 \<le> k \<Longrightarrow> k \<le> 9000000000000 \<Longrightarrow> bpsToKbps (kbpsToBps k) = k"
  by (simp add: bpsToKbps_def kbpsToBps_def wrap64_id go_quot_def)

text \<open>The bitrates of a request that convert without wrapping or rounding a limit to zero.\<close>

definition sane_limit :: "string \<Rightarrow> bool" where
  "sane_limit v \<longleftrightarrow> (case Atoi v of Some n \<Rightarrow> 500 \<le> n \<and> n \<le> int64_max - 500 | None \<Rightarrow> True)"

definition sane_bitrates :: "clientInfoRequest \<Rightarrow> bool" where
  "sane_bitrates r \<longleftrightarrow> cir_MaxAudioBitrate r \<le> int64_max - 500 \<and>
     (\<forall>cp\<in>set (cir_CodecProfiles r). \<forall>l\<in>set (cr_Limitations cp).
        lr_Name l = LimitationAudioBitrate \<longrightarrow> (\<forall>v\<in>set (lr_Values l). sane_limit v))"

lemma Itoa_zero_iff: "parseInt (Itoa n) = Some 0 \<Longrightarrow> in_int64 n \<Longrightarrow> n = 0"
  by (auto simp: parseInt_def Atoi_Itoa split: if_splits)

lemma bpsToKbps_range: "500 \<le> n \<Longrightarrow> n \<le> int64_max - 500 \<Longrightarrow> in_int64 (bpsToKbps n)"
  using int_div_less_self [of "n + 500" 1000] pos_imp_zdiv_nonneg_iff [of 1000 "n + 500"]
  by (auto simp: bpsToKbps_exact in_int64_def int64_min_def int64_max_def)

lemma toCoreLimitation_no_zero:
  assumes "lr_Name l = LimitationAudioBitrate \<Longrightarrow> \<forall>v\<in>set (lr_Values l). sane_limit v"
  shows "no_zero_bitrate (toCoreLimitation l)"
proof -
  have "parseInt (case Atoi v of Some n \<Rightarrow> Itoa (bpsToKbps n) | None \<Rightarrow> v) \<noteq> Some 0" if "sane_limit v" for v
  proof (cases "Atoi v")
    case None
    then show ?thesis by (simp add: parseInt_def)
  next
    case (Some n)
    with that have "500 \<le> n" "n \<le> int64_max - 500" by (simp_all add: sane_limit_def)
    then have "bpsToKbps n \<noteq> 0" "in_int64 (bpsToKbps n)" by (rule bpsToKbps_pos bpsToKbps_range)+
    with Some Itoa_zero_iff show ?thesis by auto
  qed
  with assms show ?thesis
    by (auto simp: no_zero_bitrate_def toCoreLimitation_def convertBitrateValues_def matches_int_def)
qed

lemma ForceFormat_keeps [simp]:
  "ci_MaxAudioBitrate (fst (ForceFormat f ci)) = ci_MaxAudioBitrate ci"
  "ci_CodecProfiles (fst (ForceFormat f ci)) = ci_CodecProfiles ci"
  by (simp_all add: ForceFormat_def Let_def)

lemma toCoreClientInfo_profiles:
  "sane_bitrates r \<Longrightarrow> cp \<in> set (ci_CodecProfiles (toCoreClientInfo r)) \<Longrightarrow>
   lm \<in> set (cp_Limitations cp) \<Longrightarrow> no_zero_bitrate lm"
  by (auto simp: toCoreClientInfo_def sane_bitrates_def intro!: toCoreLimitation_no_zero)

lemma negotiated_codec_profiles:
  "ci_CodecProfiles (negotiated_client ctx r) = ci_CodecProfiles (toCoreClientInfo r)"
  by (simp add: negotiated_client_def Let_def split: option.splits)

lemma negotiated_cap:
  assumes "ctx_Player ctx = Some player" "0 < pl_MaxBitRate player" "sane_bitrates r"
  shows "0 < ci_MaxAudioBitrate (negotiated_client ctx r) \<and>
         ci_MaxAudioBitrate (negotiated_client ctx r) \<le> pl_MaxBitRate player"
proof -
  have "0 \<le> ci_MaxAudioBitrate (toCoreClientInfo r)"
    using assms(3) by (simp add: toCoreClientInfo_def sane_bitrates_def bpsToKbps_nonneg)
  with assms(1,2) show ?thesis
    by (auto simp: negotiated_client_def Let_def intro!: CapBitrate_cap split: option.splits)
qed

section \<open>Decisions and their tokens\<close>

lemma decide_identity [simp]:
  "td_MediaID (decide env mf src ci) = mf_ID mf"
  "td_SourceUpdatedAt (decide env mf src ci) = mf_UpdatedAt mf"
  "td_SourceStream (decide env mf src ci) = src"
  by (simp_all add: decide_def Let_def case_prod_beta split: option.splits)

lemma ensureProbed_identity:
  "ensureProbed env mf = (r, mf', calls) \<Longrightarrow> mf_ID mf' = mf_ID mf \<and> mf_UpdatedAt mf' = mf_UpdatedAt mf"
  by (auto simp: ensureProbed_def Let_def split: if_splits sum.splits)

lemma MakeDecision_decide:
  assumes "fst (MakeDecision env mf ci skip) = Inr d"
  shows "\<exists>mf' src. d = decide env mf' src ci \<and> mf_ID mf' = mf_ID mf \<and> mf_UpdatedAt mf' = mf_UpdatedAt mf"
  using assms ensureProbed_identity [of env mf]
  by (fastforce simp: MakeDecision_def split: if_splits sum.splits prod.splits)

lemma decide_target_format:
  "td_CanTranscode (decide env mf src ci) \<Longrightarrow> td_TargetFormat (decide env mf src ci) \<noteq> []"
proof (cases "direct_play_possible src ci")
  case False
  assume t: "td_CanTranscode (decide env mf src ci)"
  with False obtain ts fmt where s: "first_transcode env src ci (ci_TranscodingProfiles ci) = Some (ts, fmt)"
    by (cases "first_transcode env src ci (ci_TranscodingProfiles ci)") (auto simp: decide_refused)
  then obtain p where "computeTranscodedStream env src p ci = Some (ts, fmt)"
    by (rule first_transcode_Some)
  then have "fmt \<noteq> []" by (auto simp: computeTranscodedStream_def Let_def split: if_splits option.splits)
  with decide_transcode(4) [OF False s] show ?thesis by simp
qed (simp add: decide_direct)

text \<open>A decision for which a token is made: it plays directly or transcodes to a named format.\<close>

lemma decide_token_request:
  assumes "td_CanDirectPlay d \<or> td_CanTranscode d" "d = decide env mf src ci"
  shows "if td_CanDirectPlay d then req_Format (token_request d off) = []
         else req_Format (token_request d off) = td_TargetFormat d \<and> td_TargetFormat d \<noteq> [] \<and>
              req_BitRate (token_request d off) = td_TargetBitrate d"
  using assms decide_target_format [of env mf src ci]
  by (auto simp: token_request_def request_of_def)

lemma map_sum_Some: "map_sum id Some x = Inr t \<longleftrightarrow> (\<exists>tok. x = Inr tok \<and> t = Some tok)"
  by (cases x) auto

text \<open>The steps of an accepted \<open>getTranscodeDecision\<close>.\<close>

lemma GetTranscodeDecision_Decided:
  assumes "GetTranscodeDecision env ctx m p body = (Decided r, calls)"
  shows "\<exists>mediaID creq mf d.
    m = ''POST'' \<and> req_String p ''mediaId'' = Inr mediaID \<and> de_Decode env body = Some creq \<and>
    validate creq = None \<and> de_Get env mediaID = Inr mf \<and>
    fst (MakeDecision (de_stream env) mf (negotiated_client ctx creq) False) = Inr d \<and>
    dec_CanDirectPlay r = td_CanDirectPlay d \<and> dec_CanTranscode r = td_CanTranscode d \<and>
    (case dec_TranscodeParams r of
       None \<Rightarrow> \<not> td_CanDirectPlay d \<and> \<not> td_CanTranscode d
     | Some tok \<Rightarrow> (td_CanDirectPlay d \<or> td_CanTranscode d) \<and>
         CreateTranscodeParams (de_encode env) (de_now env) d = Inr tok)"
  using assms
  by (auto simp: GetTranscodeDecision_def Let_def map_sum_Some split: if_splits sum.splits option.splits
      get_failure.splits prod.splits)

lemma decision_of_request:
  assumes reply: "GetTranscodeDecision env ctx m p body = (Decided r, calls)"
    and "req_String p ''mediaId'' = Inr mediaID" "de_Decode env body = Some creq" "de_Get env mediaID = Inr mf"
    and "fst (MakeDecision (de_stream env) mf (negotiated_client ctx creq) False) = Inr d"
    and "dec_TranscodeParams r = Some tok"
  shows "(td_CanDirectPlay d \<or> td_CanTranscode d) \<and>
         de_encode env ((toClaimsMap (de_now env) d)(''iss'' \<mapsto> CStr JWTIssuer)) = Inr tok"
  using GetTranscodeDecision_Decided [OF reply] assms(2-)
  by (auto simp: CreateTranscodeParams_def EncodeToken_def)

section \<open>Properties\<close>


text \<open>A request as a web client sends it, for a FLAC file and a player limited to 192 kbps.\<close>

definition web_request :: clientInfoRequest where
  "web_request = \<lparr>cir_Name = ''web'', cir_Platform = [], cir_MaxAudioBitrate = 320000,
     cir_MaxTranscodingAudioBitrate = 256000,
     cir_DirectPlayProfiles = [\<lparr>dr_Containers = [''flac''], dr_AudioCodecs = [], dr_Protocols = [''http''],
        dr_MaxAudioChannels = 2\<rparr>],
     cir_TranscodingProfiles = [\<lparr>tr_Container = ''mp3'', tr_AudioCodec = ''mp3'', tr_Protocol = ''http'',
        tr_MaxAudioChannels = 2\<rparr>],
     cir_CodecProfiles = [\<lparr>cr_Type = ''AudioCodec'', cr_Name = ''mp3'', cr_Limitations =
        [\<lparr>lr_Name = ''audioBitrate'', lr_Comparison = ''LessThanEqual'', lr_Values = [''320000''], lr_Required = True\<rparr>]\<rparr>]\<rparr>"

definition web_env :: "(unit, claims) DecisionEnv" where
  "web_env = \<lparr>de_stream = plain_env, de_Decode = (\<lambda>_. Some web_request), de_Get = (\<lambda>_. Inr flac_file),
     de_encode = Inr, de_now = 1700000000000000000\<rparr>"

definition capped_ctx :: Ctx where
  "capped_ctx = \<lparr>ctx_User = Some ''bob'', ctx_Player = Some \<lparr>pl_ID = ''p'', pl_MaxBitRate = 192\<rparr>,
     ctx_Transcoding = None\<rparr>"

definition decision_query :: Values where
  "decision_query = [''mediaId'' \<mapsto> [''song-1''], ''mediaType'' \<mapsto> [''song'']]"

definition web_decision :: TranscodeDecision where
  "web_decision = \<lparr>td_MediaID = ''song-1'', td_CanDirectPlay = False, td_CanTranscode = True,
     td_TranscodeReasons = [''audio bitrate not supported''], td_ErrorReason = [],
     td_TargetFormat = ''mp3'', td_TargetBitrate = 192, td_TargetChannels = 2,
     td_TargetSampleRate = 48000, td_TargetBitDepth = 0,
     td_SourceStream = buildSourceStream plain_env flac_file None,
     td_SourceUpdatedAt = 1700000000123456789,
     td_TranscodeStream = Some \<lparr>sd_Container = ''mp3'', sd_Codec = ''mp3'', sd_Profile = [],
       sd_Bitrate = 192, sd_SampleRate = 48000, sd_BitDepth = 0, sd_Channels = 2,
       sd_Duration = 0, sd_Size = 0, sd_IsLossless = False\<rparr>\<rparr>"

lemma web_decision_eval:
  "MakeDecision plain_env flac_file (negotiated_client capped_ctx web_request) False = (Inr web_decision, flac_file, [])"
  by code_simp

lemma web_validate: "validate web_request = None" by code_simp

lemma web_query:
  "req_String decision_query ''mediaId'' = Inr ''song-1''" "req_String decision_query ''mediaType'' = Inr ''song''"
  "isValidMediaType ''song''"
  by code_simp+

lemma web_reply:
  "\<exists>r. GetTranscodeDecision web_env capped_ctx ''POST'' decision_query () = (Decided r, []) \<and>
     dec_TranscodeParams r = Some ((toClaimsMap 1700000000000000000 web_decision)(''iss'' \<mapsto> CStr JWTIssuer))"
  by (simp add: GetTranscodeDecision_def web_query web_env_def web_validate web_decision_eval
      CreateTranscodeParams_def EncodeToken_def)
    (simp add: web_decision_def)


definition legal_request :: "clientInfoRequest \<Rightarrow> bool" where
  "legal_request r \<longleftrightarrow>
     (\<forall>dp\<in>set (cir_DirectPlayProfiles r). \<forall>p\<in>set (dr_Protocols dp). p = ''http'' \<or> p = ''hls'') \<and>
     (\<forall>tp\<in>set (cir_TranscodingProfiles r). tr_Protocol tp \<in> {[], ''http'', ''hls''}) \<and>
     (\<forall>cp\<in>set (cir_CodecProfiles r). cr_Type cp = ''AudioCodec'' \<and>
        (\<forall>l\<in>set (cr_Limitations cp).
           lr_Name l \<in> {''audioChannels'', ''audioBitrate'', ''audioProfile'', ''audioSamplerate'', ''audioBitdepth''} \<and>
           lr_Comparison l \<in> {''Equals'', ''NotEquals'', ''LessThanEqual'', ''GreaterThanEqual''}))"

lemma first_error_None: "first_error f xs = None \<longleftrightarrow> (\<forall>x\<in>set xs. f x = None)"
  by (induction xs) (auto split: option.splits)

lemma or_else_None: "(case a of Some e \<Rightarrow> Some e | None \<Rightarrow> b) = None \<longleftrightarrow> a = None \<and> b = None"
  by (cases a) auto

lemma validate_protocol_None: "validate_protocol p = None \<longleftrightarrow> p = ''http'' \<or> p = ''hls''"
  by (simp add: validate_protocol_def isValidProtocol_def ProtocolHTTP_def ProtocolHLS_def)

lemma validate_limitation_None:
  "validate_limitation l = None \<longleftrightarrow>
     lr_Name l \<in> {''audioChannels'', ''audioBitrate'', ''audioProfile'', ''audioSamplerate'', ''audioBitdepth''} \<and>
     lr_Comparison l \<in> {''Equals'', ''NotEquals'', ''LessThanEqual'', ''GreaterThanEqual''}"
  unfolding validate_limitation_def isValidLimitationName_def isValidComparison_def comparison_defs
    limitation_name_defs set_simps
  by simp

lemma validate_codec_profile_None:
  "validate_codec_profile cp = None \<longleftrightarrow>
     cr_Type cp = ''AudioCodec'' \<and> (\<forall>l\<in>set (cr_Limitations cp). validate_limitation l = None)"
  by (simp add: validate_codec_profile_def isValidCodecProfileType_def CodecProfileTypeAudio_def first_error_None)

text \<open>
  \<open>validate\<close> accepts exactly the requests whose protocols, codec profile types, limitation names
  and comparisons are among those of the specification; otherwise it names an offending value.
\<close>

lemma validate_iff: "validate r = None \<longleftrightarrow> legal_request r"
proof -
  have "validate r = None \<longleftrightarrow>
      (\<forall>dp\<in>set (cir_DirectPlayProfiles r). \<forall>p\<in>set (dr_Protocols dp). validate_protocol p = None) \<and>
      (\<forall>tp\<in>set (cir_TranscodingProfiles r). tr_Protocol tp = [] \<or> validate_protocol (tr_Protocol tp) = None) \<and>
      (\<forall>cp\<in>set (cir_CodecProfiles r). validate_codec_profile cp = None)"
    by (simp add: validate_def or_else_None first_error_None)
      (meson validate_protocol_None)
  then show ?thesis
    by (simp only: legal_request_def validate_protocol_None validate_codec_profile_None
        validate_limitation_None insert_iff empty_iff simp_thms)
qed

text \<open>An environment whose probe failures carry other paths and causes.\<close>

definition with_failure_details :: "(MediaFile \<Rightarrow> string \<times> string) \<Rightarrow> StreamEnv \<Rightarrow> StreamEnv" where
  "with_failure_details f env = env\<lparr>env_ProbeAudioStream := (\<lambda>mf.
     case env_ProbeAudioStream env mf of
       Inl (ProbeError path reason notFound cause) \<Rightarrow> Inl (ProbeError (fst (f mf)) reason notFound (snd (f mf)))
     | r \<Rightarrow> r)\<rparr>"

lemma decide_failure_details [simp]: "decide (with_failure_details f env) = decide env"
proof -
  let ?e = "with_failure_details f env"
  have l: "LookupTranscodeCommand ?e = LookupTranscodeCommand env" "lookupDefaultBitrate ?e = lookupDefaultBitrate env"
    by (auto simp: LookupTranscodeCommand_def lookupDefaultBitrate_def with_failure_details_def fun_eq_iff)
  then have "computeBitrate ?e = computeBitrate env" by (simp add: computeBitrate_def fun_eq_iff)
  with l have "computeTranscodedStream ?e src p ci = computeTranscodedStream env src p ci" for src p ci
    by (simp only: computeTranscodedStream_def)
  then have "first_transcode ?e src ci ps = first_transcode env src ci ps" for src ci ps
    by (induction ps) (simp_all split: option.split)
  then have "decide ?e mf src ci = decide env mf src ci" for mf src ci
    by (simp only: decide_def)
  then show ?thesis by (simp add: fun_eq_iff)
qed

lemma probe_failure_details [simp]:
  "buildSourceStream (with_failure_details f env) = buildSourceStream env"
  "env_IsProbeAvailable (with_failure_details f env) = env_IsProbeAvailable env"
proof -
  have "parseProbeData (with_failure_details f env) = parseProbeData env"
    by (simp add: parseProbeData_def with_failure_details_def fun_eq_iff)
  then have "buildSourceStream (with_failure_details f env) mf pr = buildSourceStream env mf pr" for mf pr
    by (simp only: buildSourceStream_def)
  then show "buildSourceStream (with_failure_details f env) = buildSourceStream env"
    by (simp add: fun_eq_iff)
qed (simp add: with_failure_details_def)

lemma MakeDecision_failure_details:
  "map_sum transcodeFailure id (fst (MakeDecision (with_failure_details f env) mf ci skip)) =
     map_sum transcodeFailure id (fst (MakeDecision env mf ci skip)) \<and>
   snd (MakeDecision (with_failure_details f env) mf ci skip) = snd (MakeDecision env mf ci skip)"
  by (auto simp: MakeDecision_def ensureProbed_def transcodeFailure_def Let_def
      split: sum.splits probe_failure.splits)
    (simp_all add: with_failure_details_def split: sum.splits probe_failure.splits)

text \<open>
  Nothing of a probe failure but its path-free reason reaches the client: whatever paths and
  causes the failures of \<open>ProbeAudioStream\<close> carry, the reply of \<open>getTranscodeDecision\<close> is the same.
\<close>

lemma decision_reply_hides_paths:
  "GetTranscodeDecision (env\<lparr>de_stream := with_failure_details f (de_stream env)\<rparr>) ctx m p body =
   GetTranscodeDecision env ctx m p body"
proof -
  let ?M = "\<lambda>e mf ci. MakeDecision e mf ci False"
  have *: "(case ?M (with_failure_details f e) mf ci of
       (Inl err, x, calls) \<Rightarrow> (case transcodeFailure err of (code, reason) \<Rightarrow> g code reason calls)
     | (Inr d, x, calls) \<Rightarrow> h d calls) =
     (case ?M e mf ci of
       (Inl err, x, calls) \<Rightarrow> (case transcodeFailure err of (code, reason) \<Rightarrow> g code reason calls)
     | (Inr d, x, calls) \<Rightarrow> h d calls)" for e mf ci and g :: "subsonic_code \<Rightarrow> string \<Rightarrow> _ \<Rightarrow> 'z" and h
    using MakeDecision_failure_details [of f e mf ci False]
    by (cases "?M (with_failure_details f e) mf ci"; cases "?M e mf ci")
      (auto split: sum.splits)
  show ?thesis 
    by (simp add: GetTranscodeDecision_def Let_def * split: sum.split option.split get_failure.split)
      (simp split: prod.split sum.split)
qed

text \<open>
  C28. A stream is opened only for a verified token of the requested media file as it is now: the
  token's signature was accepted, it names that file, and the file has not changed since.
\<close>

theorem stream_requires_token:
  assumes "GetTranscodeStream env ctx m p copied c lm = (Streamed s sv failed, started, c', lm')"
  shows "\<exists>mediaID tok mf cl. req_String p ''mediaId'' = Inr mediaID \<and>
     req_String p ''transcodeParams'' = Inr tok \<and> sa_Get env mediaID = Inr mf \<and>
     sa_decode env tok = Inr cl \<and> get_str cl ''mid'' = mf_ID mf \<and>
     getIntClaim cl ''ua'' = unix_seconds (mf_UpdatedAt mf) \<and> st_mf s = mf"
proof -
  from assms obtain mediaID tok mf q where i: "req_String p ''mediaId'' = Inr mediaID"
    "req_String p ''transcodeParams'' = Inr tok" "sa_Get env mediaID = Inr mf"
    and q: "ResolveRequestFromToken (sa_decode env) tok mf (IntOr p ''offset'' 0) = Inr q"
    and n: "NewStream (sa_streamer env) ctx mf q c lm = (Inr (s, started), c', lm')"
    by (auto simp: GetTranscodeStream_def Let_def split: sum.splits get_failure.splits prod.splits if_splits)
  from n have "st_mf s = mf"
    by (auto simp: NewStream_def Let_def split: if_splits option.splits sum.splits prod.splits)
  with i q show ?thesis
    by (auto simp: ResolveRequestFromToken_def parseTranscodeParams_def paramsFromToken_def Let_def
        split: sum.splits token_error.splits if_splits)
qed

definition direct_claims :: claims where
  "direct_claims = [''mid'' \<mapsto> CStr ''song-1'', ''ua'' \<mapsto> CNum 1700000000, ''dp'' \<mapsto> CBool True]"

definition sample_api :: "(string list, nat, string) StreamApiEnv" where
  "sample_api = \<lparr>sa_streamer = sample_streamer, sa_Get = (\<lambda>_. Inr flac_file),
     sa_decode = (\<lambda>_. Inr direct_claims), sa_TypeByExtension = (\<lambda>_. ''audio/flac''), sa_round32 = id\<rparr>"

definition stream_query :: Values where
  "stream_query = decision_query(''transcodeParams'' \<mapsto> [''tok''])"

lemma stream_query_eval:
  "req_String stream_query ''mediaId'' = Inr ''song-1''" "req_String stream_query ''mediaType'' = Inr ''song''"
  "req_String stream_query ''transcodeParams'' = Inr ''tok''" "IntOr stream_query ''offset'' 0 = 0"
  by code_simp+

lemma direct_claims_resolve:
  "ResolveRequestFromToken (\<lambda>_. Inr direct_claims) ''tok'' flac_file 0 = Inr (raw_request 0\<lparr>req_Format := []\<rparr>)"
  by code_simp

theorem stream_requires_token_witness:
  "\<exists>s sv failed. GetTranscodeStream sample_api bob_ctx ''GET'' stream_query (0, None) [] (NewTranscodeLimiter 2 1) =
     (Streamed s sv failed, None, [], NewTranscodeLimiter 2 1) \<and> st_mf s = flac_file"
proof -
  have "fst (GetTranscodeStream sample_api bob_ctx ''GET'' stream_query (0, None) [] (NewTranscodeLimiter 2 1)) \<noteq> HttpError n"
    "snd (GetTranscodeStream sample_api bob_ctx ''GET'' stream_query (0, None) [] (NewTranscodeLimiter 2 1)) =
      (None, [], NewTranscodeLimiter 2 1)" for n
    by (simp_all add: GetTranscodeStream_def stream_query_eval web_query(3) sample_api_def direct_claims_resolve
        NewStream_def sample_streamer_def raw_request_def Let_def)
  then obtain s sv failed where g: "GetTranscodeStream sample_api bob_ctx ''GET'' stream_query (0, None) []
      (NewTranscodeLimiter 2 1) = (Streamed s sv failed, None, [], NewTranscodeLimiter 2 1)"
    by (metis prod.collapse stream_reply.exhaust)
  from stream_requires_token [OF g] g show ?thesis by (auto simp: sample_api_def)
qed

text \<open>
  A HEAD request for a transcode that is not in the cache yet is answered with an error, since the
  handler takes the zero bytes that \<open>Serve\<close> reports for a failure; and a rejection by the limiter is
  reported as an internal error, unlike on the other streaming endpoints.
\<close>

lemma head_of_fresh_transcode_fails:
  "GetTranscodeStream env ctx ''HEAD'' p copied c lm = (Streamed s sv failed, started, c', lm') \<Longrightarrow>
   \<not> Seekable s \<Longrightarrow> failed"
  by (auto simp: GetTranscodeStream_def Serve_def Let_def
      split: sum.splits get_failure.splits prod.splits if_splits)

lemma busy_transcoder_reported_as_internal_error:
  assumes "req_String p ''mediaId'' = Inr i" "req_String p ''mediaType'' = Inr ''song''"
    "req_String p ''transcodeParams'' = Inr tok" "sa_Get env i = Inr mf"
    "ResolveRequestFromToken (sa_decode env) tok mf (IntOr p ''offset'' 0) = Inr q"
    "NewStream (sa_streamer env) ctx mf q c lm = (Inl (TranscodeFailed (ReaderError TooManyTranscodes)), c', lm')"
  shows "fst (GetTranscodeStream env ctx m p copied c lm) = HttpError 500"
  using assms by (simp add: GetTranscodeStream_def isValidMediaType_def)

end
