(* ===== verification/Server_Auth.thy ===== *)
theory Server_Auth
  imports Auth_Claims Go_Path Utils_Req Subsonic_Response
begin

text \<open>
  \<open>server/auth.go\<close> and the authentication part of \<open>server/subsonic/middlewares.go\<close>: how a request
  gets its user. Login and the first admin, the JWT middleware of the web API, authentication by a
  reverse proxy, and the credentials of the Subsonic API.

  Parameters: the user repository as operations on an abstract database \<open>'s\<close>; the address functions
  of package \<open>net\<close>; MD5; Gravatar; the random bytes and ids; the configuration.
\<close>

section \<open>Hexadecimal text\<close>

definition hex_digit :: "nat \<Rightarrow> char" where
  "hex_digit n = (if n < 10 then char_of (48 + n) else char_of (87 + n))"

definition hex_EncodeToString :: "string \<Rightarrow> string" where
  "hex_EncodeToString s = concat (map (\<lambda>c. [hex_digit (byte c div 16), hex_digit (byte c mod 16)]) s)"

definition from_hex :: "char \<Rightarrow> nat option" where
  "from_hex c =
     (if is_digit c then Some (byte c - 48)
      else if 97 \<le> byte c \<and> byte c \<le> 102 then Some (byte c - 87)
      else if 65 \<le> byte c \<and> byte c \<le> 70 then Some (byte c - 55)
      else None)"

fun hex_DecodeString :: "string \<Rightarrow> string option" where
  "hex_DecodeString [] = Some []"
| "hex_DecodeString [c] = None"
| "hex_DecodeString (a # b # s) =
     (case (from_hex a, from_hex b, hex_DecodeString s) of
        (Some x, Some y, Some r) \<Rightarrow> Some (char_of (16 * x + y) # r)
      | _ \<Rightarrow> None)"

definition char_upper :: "char \<Rightarrow> char" where
  "char_upper c = (if 97 \<le> byte c \<and> byte c \<le> 122 then char_of (byte c - 32) else c)"

definition ToUpper :: "string \<Rightarrow> string" where
  "ToUpper s = map char_upper s"

section \<open>Collaborators\<close>

datatype repo_error = RNotFound | RCanceled | RFailed string

record 's UserRepo =
  ur_FindByUsername :: "'s \<Rightarrow> string \<Rightarrow> repo_error + User"
  ur_FindByUsernameWithPassword :: "'s \<Rightarrow> string \<Rightarrow> repo_error + User"
  ur_UpdateLastLoginAt :: "'s \<Rightarrow> string \<Rightarrow> repo_error option \<times> 's"
  ur_CountAll :: "'s \<Rightarrow> repo_error + go_int"
  ur_Put :: "'s \<Rightarrow> User \<Rightarrow> repo_error option \<times> 's"

record 'ip NetOps =
  net_ParseIP :: "string \<Rightarrow> 'ip option"
  net_SplitHost :: "string \<Rightarrow> string" \<comment> \<open>the host of \<open>SplitHostPort\<close>, empty on error\<close>
  net_ParseCIDR :: "string \<Rightarrow> ('ip \<times> ('ip \<Rightarrow> bool)) option" \<comment> \<open>the address, and \<open>ipnet.Contains\<close>\<close>

record AuthConf =
  ac_TrustedSources :: string
  ac_UserHeader :: string
  ac_DevAutoLoginUsername :: string
  ac_Address :: string
  ac_EnableGravatar :: bool
  ac_SessionTimeout :: time_ns

record ('s, 'ip) AuthEnv =
  ae_repo :: "'s UserRepo"
  ae_net :: "'ip NetOps"
  ae_conf :: AuthConf
  ae_TokenAuth :: JWTAuth
  ae_now :: time_ns
  ae_md5 :: "string \<Rightarrow> string"
  ae_Gravatar :: "string \<Rightarrow> string"
  ae_salt :: "string option" \<comment> \<open>the three random bytes, or that reading them failed\<close>
  ae_newId :: string
  ae_Title :: "string \<Rightarrow> string"

record http_request =
  hr_header :: "string \<Rightarrow> string" \<comment> \<open>\<open>r.Header.Get\<close>\<close>
  hr_jwt :: "claims option" \<comment> \<open>the verified token of \<open>jwtauth.FromContext\<close>\<close>
  hr_proxyIP :: "string option" \<comment> \<open>\<open>request.ReverseProxyIpFrom\<close>\<close>
  hr_query :: Values

section \<open>Login\<close>

definition validateLogin ::
  "('s, 'ip) AuthEnv \<Rightarrow> string \<Rightarrow> string \<Rightarrow> 's \<Rightarrow> (repo_error + User option) \<times> 's" where
  "validateLogin env userName password s =
     (case ur_FindByUsernameWithPassword (ae_repo env) s userName of
        Inl RNotFound \<Rightarrow> (Inr None, s)
      | Inl err \<Rightarrow> (Inl err, s)
      | Inr u \<Rightarrow>
          if u_Password u \<noteq> password then (Inr None, s)
          else (Inr (Some u), snd (ur_UpdateLastLoginAt (ae_repo env) s (u_ID u))))"

datatype json = JStr string | JBool bool

definition buildAuthPayload :: "('s, 'ip) AuthEnv \<Rightarrow> User \<Rightarrow> (string \<times> json) list" where
  "buildAuthPayload env user =
     [(''id'', JStr (u_ID user)), (''name'', JStr (u_Name user)), (''username'', JStr (u_UserName user)),
      (''isAdmin'', JBool (u_IsAdmin user))] @
     (if ac_EnableGravatar (ae_conf env) \<and> u_Email user \<noteq> []
      then [(''avatar'', JStr (ae_Gravatar env (u_Email user)))] else []) @
     (case ae_salt env of
        None \<Rightarrow> []
      | Some bytes \<Rightarrow>
          (let subsonicSalt = hex_EncodeToString bytes
           in [(''subsonicSalt'', JStr subsonicSalt),
               (''subsonicToken'', JStr (hex_EncodeToString (ae_md5 env (u_Password user @ subsonicSalt))))]))"

datatype login_reply = Respond nat string | LoggedIn "(string \<times> json) list"

definition doLogin ::
  "('s, 'ip) AuthEnv \<Rightarrow> string \<Rightarrow> string \<Rightarrow> 's \<Rightarrow> login_reply \<times> 's" where
  "doLogin env username password s =
     (case validateLogin env username password s of
        (Inl _, s') \<Rightarrow> (Respond 500 ''Unknown error authentication user. Please try again'', s')
      | (Inr None, s') \<Rightarrow> (Respond 401 ''Invalid username or password'', s')
      | (Inr (Some user), s') \<Rightarrow>
          (case CreateToken (ae_TokenAuth env) (ae_now env) (ac_SessionTimeout (ae_conf env)) user of
             Inl _ \<Rightarrow> (Respond 500 ''Unknown error authenticating user. Please try again'', s')
           | Inr tokenString \<Rightarrow>
               (LoggedIn (buildAuthPayload env user @ [(''token'', JStr tokenString)]), s')))"

text \<open>The decoded JSON body; a missing key reads as the empty string.\<close>

type_synonym body = "(string \<rightharpoonup> string) option"

definition getCredentialsFromBody :: "body \<Rightarrow> string + string \<times> string" where
  "getCredentialsFromBody body =
     (case body of
        None \<Rightarrow> Inl ''invalid request payload''
      | Some data \<Rightarrow>
          Inr ((case data ''username'' of Some v \<Rightarrow> v | None \<Rightarrow> []),
               (case data ''password'' of Some v \<Rightarrow> v | None \<Rightarrow> [])))"

definition login :: "('s, 'ip) AuthEnv \<Rightarrow> body \<Rightarrow> 's \<Rightarrow> login_reply \<times> 's" where
  "login env body s =
     (case getCredentialsFromBody body of
        Inl err \<Rightarrow> (Respond 422 err, s)
      | Inr (username, password) \<Rightarrow> doLogin env username password s)"

section \<open>The first admin\<close>

text \<open>\<open>createAdminUser\<close> logs a failing \<open>Put\<close> and returns no error.\<close>

definition createAdminUser ::
  "('s, 'ip) AuthEnv \<Rightarrow> string \<Rightarrow> string \<Rightarrow> 's \<Rightarrow> repo_error option \<times> 's" where
  "createAdminUser env username password s =
     (None, snd (ur_Put (ae_repo env) s
        \<lparr>u_ID = ae_newId env, u_UserName = username, u_Name = ae_Title env username, u_Email = [],
         u_IsAdmin = True, u_Libraries = [], u_Password = [], u_NewPassword = password\<rparr>))"

definition createAdmin :: "('s, 'ip) AuthEnv \<Rightarrow> body \<Rightarrow> 's \<Rightarrow> login_reply \<times> 's" where
  "createAdmin env body s =
     (case getCredentialsFromBody body of
        Inl err \<Rightarrow> (Respond 422 err, s)
      | Inr (username, password) \<Rightarrow>
          (case ur_CountAll (ae_repo env) s of
             Inl err \<Rightarrow> (Respond 500 [], s)
           | Inr c \<Rightarrow>
               if c > 0 then (Respond 403 ''Cannot create another first admin'', s)
               else case createAdminUser env username password s of
                      (Some err, s') \<Rightarrow> (Respond 500 [], s')
                    | (None, s') \<Rightarrow> doLogin env username password s'))"

section \<open>Who sent the request\<close>

definition UIAuthorizationHeader :: string where "UIAuthorizationHeader = ''X-ND-Authorization''"

definition tokenFromHeader :: "http_request \<Rightarrow> string" where
  "tokenFromHeader r =
     (let bearer = hr_header r UIAuthorizationHeader
      in if length bearer > 7 \<and> ToUpper (take 6 bearer) = ''BEARER'' then drop 7 bearer else [])"

definition UsernameFromToken :: "http_request \<Rightarrow> string" where
  "UsernameFromToken r = (case hr_jwt r of None \<Rightarrow> [] | Some token \<Rightarrow> get_str token ''sub'')"

definition validateIPAgainstList :: "('s, 'ip) AuthEnv \<Rightarrow> string \<Rightarrow> string \<Rightarrow> bool" where
  "validateIPAgainstList env ip comaSeparatedList \<longleftrightarrow>
     (if comaSeparatedList = [] \<or> ip = [] then False
      else
        let cidrs = split_on (CHR '','') comaSeparatedList
        in if ip = ''@'' \<and> HasPrefix (ac_Address (ae_conf env)) ''unix:'' then ''@'' \<in> set cidrs
           else
             let ip' = (if net_ParseIP (ae_net env) ip = None then net_SplitHost (ae_net env) ip else ip)
             in if ip' = [] then False
                else case net_ParseCIDR (ae_net env) (ip' @ ''/32'') of
                       None \<Rightarrow> False
                     | Some (testedIP, _) \<Rightarrow>
                         list_ex (\<lambda>cidr. case net_ParseCIDR (ae_net env) cidr of
                                           None \<Rightarrow> False | Some (_, contains) \<Rightarrow> contains testedIP) cidrs)"

definition UsernameFromExtAuthHeader :: "('s, 'ip) AuthEnv \<Rightarrow> http_request \<Rightarrow> string" where
  "UsernameFromExtAuthHeader env r =
     (if ac_TrustedSources (ae_conf env) = [] then []
      else case hr_proxyIP r of
             None \<Rightarrow> []
           | Some reverseProxyIp \<Rightarrow>
               if \<not> validateIPAgainstList env reverseProxyIp (ac_TrustedSources (ae_conf env)) then []
               else hr_header r (ac_UserHeader (ae_conf env)))"

definition UsernameFromConfig :: "('s, 'ip) AuthEnv \<Rightarrow> http_request \<Rightarrow> string" where
  "UsernameFromConfig env r = ac_DevAutoLoginUsername (ae_conf env)"

text \<open>
  The request context a successful authentication adds to: the user name and the user
  (\<open>request.WithUsername\<close>, \<open>request.WithUser\<close>).
\<close>

definition contextWithUser :: "('s, 'ip) AuthEnv \<Rightarrow> string \<Rightarrow> 's \<Rightarrow> repo_error + string \<times> User" where
  "contextWithUser env username s =
     (case ur_FindByUsername (ae_repo env) s username of
        Inr user \<Rightarrow> Inr (u_UserName user, user)
      | Inl err \<Rightarrow> Inl err)"

datatype auth_error = ErrUnauthenticated | UserError repo_error

fun first_username :: "(http_request \<Rightarrow> string) list \<Rightarrow> http_request \<Rightarrow> string" where
  "first_username [] r = []"
| "first_username (f # fs) r = (let username = f r in if username \<noteq> [] then username else first_username fs r)"

definition authenticateRequest ::
  "('s, 'ip) AuthEnv \<Rightarrow> (http_request \<Rightarrow> string) list \<Rightarrow> http_request \<Rightarrow> 's \<Rightarrow> auth_error + string \<times> User" where
  "authenticateRequest env findUsernameFns r s =
     (let username = first_username findUsernameFns r
      in if username = [] then Inl ErrUnauthenticated
         else case contextWithUser env username s of Inl e \<Rightarrow> Inl (UserError e) | Inr ctx \<Rightarrow> Inr ctx)"

text \<open>\<open>Authenticator\<close>: \<open>None\<close> is the 401 answer, otherwise the next handler runs for the user.\<close>

definition Authenticator :: "('s, 'ip) AuthEnv \<Rightarrow> http_request \<Rightarrow> 's \<Rightarrow> (string \<times> User) option" where
  "Authenticator env r s =
     (case authenticateRequest env [UsernameFromConfig env, UsernameFromToken, UsernameFromExtAuthHeader env] r s of
        Inl _ \<Rightarrow> None | Inr ctx \<Rightarrow> Some ctx)"

datatype refreshed = NextHandler "string option" | RefreshDenied

definition JWTRefresher :: "('s, 'ip) AuthEnv \<Rightarrow> http_request \<Rightarrow> refreshed" where
  "JWTRefresher env r =
     (case hr_jwt r of
        None \<Rightarrow> NextHandler None
      | Some token \<Rightarrow>
          (case TouchToken (ae_TokenAuth env) (ae_now env) (ac_SessionTimeout (ae_conf env)) token of
             Inl _ \<Rightarrow> RefreshDenied
           | Inr newTokenString \<Rightarrow> NextHandler (Some newTokenString)))"

definition PasswordAutogenPrefix :: string where "PasswordAutogenPrefix = ''__NAVIDROME_AUTOGEN__''"

text \<open>\<open>pwId\<close> is the second random id, the generated password.\<close>

definition handleLoginFromHeaders ::
  "('s, 'ip) AuthEnv \<Rightarrow> string \<Rightarrow> http_request \<Rightarrow> 's \<Rightarrow> (string \<times> json) list option \<times> 's" where
  "handleLoginFromHeaders env pwId r s =
     (let username = (if UsernameFromConfig env r \<noteq> [] then UsernameFromConfig env r
                      else UsernameFromExtAuthHeader env r)
      in if username = [] then (None, s)
         else
           let find = (\<lambda>s. ur_FindByUsernameWithPassword (ae_repo env) s username);
               (user, s1) =
                 (case find s of
                    Inr u \<Rightarrow> (Some u, s)
                  | Inl _ \<Rightarrow>
                      let count = (case ur_CountAll (ae_repo env) s of Inr c \<Rightarrow> c | Inl _ \<Rightarrow> 0);
                          (putErr, s') = ur_Put (ae_repo env) s
                            \<lparr>u_ID = ae_newId env, u_UserName = username, u_Name = username, u_Email = [],
                             u_IsAdmin = (count = 0), u_Libraries = [], u_Password = [],
                             u_NewPassword = PasswordAutogenPrefix @ pwId\<rparr>
                      in if putErr \<noteq> None then (None, s')
                         else (case find s' of Inr u \<Rightarrow> (Some u, s') | Inl _ \<Rightarrow> (None, s')))
           in case user of
                None \<Rightarrow> (None, s1)
              | Some u \<Rightarrow>
                  (case ur_UpdateLastLoginAt (ae_repo env) s1 (u_ID u) of
                     (Some _, s2) \<Rightarrow> (None, s2)
                   | (None, s2) \<Rightarrow> (Some (buildAuthPayload env u), s2)))"

section \<open>Subsonic credentials\<close>

definition validateCredentials ::
  "('s, 'ip) AuthEnv \<Rightarrow> User \<Rightarrow> string \<Rightarrow> string \<Rightarrow> string \<Rightarrow> string \<Rightarrow> bool" where
  "validateCredentials env user pass token salt jwt \<longleftrightarrow>
     (if jwt \<noteq> [] then
        (case Validate (ae_TokenAuth env) (ae_now env) jwt of
           Inl _ \<Rightarrow> False | Inr c \<Rightarrow> c_Subject c = u_UserName user)
      else if pass \<noteq> [] then
        (let pass' = (if HasPrefix pass ''enc:'' then
                        (case hex_DecodeString (drop 4 pass) of Some dec \<Rightarrow> dec | None \<Rightarrow> pass)
                      else pass)
         in pass' = u_Password user)
      else if token \<noteq> [] then hex_EncodeToString (ae_md5 env (u_Password user @ salt)) = token
      else False)"

record subsonic_ctx =
  sc_Username :: string
  sc_Client :: string
  sc_Version :: string

definition checkRequiredParameters ::
  "('s, 'ip) AuthEnv \<Rightarrow> http_request \<Rightarrow> param_error + subsonic_ctx" where
  "checkRequiredParameters env r =
     (let proxy = UsernameFromExtAuthHeader env r;
          required = (if proxy \<noteq> [] then [''v'', ''c''] else [''u'', ''v'', ''c'']);
          p = hr_query r
      in case List.find (\<lambda>param. case req_String p param of Inl _ \<Rightarrow> True | Inr _ \<Rightarrow> False) required of
           Some param \<Rightarrow> Inl (ErrMissingParam param)
         | None \<Rightarrow>
             Inr \<lparr>sc_Username = (if proxy = [] then string_or_empty p ''u'' else proxy),
                  sc_Client = string_or_empty p ''c'', sc_Version = string_or_empty p ''v''\<rparr>)"

text \<open>The answer of \<open>authenticate\<close>: nothing for a canceled request, an error, or the user.\<close>

datatype auth_answer = NoAnswer | AuthFail subsonic_code | AuthUser User

definition authenticate :: "('s, 'ip) AuthEnv \<Rightarrow> http_request \<Rightarrow> 's \<Rightarrow> auth_answer" where
  "authenticate env r s =
     (let proxy = UsernameFromExtAuthHeader env r
      in if proxy \<noteq> [] then
           (case ur_FindByUsername (ae_repo env) s proxy of
              Inl RCanceled \<Rightarrow> NoAnswer
            | Inl _ \<Rightarrow> AuthFail ErrorAuthenticationFail
            | Inr usr \<Rightarrow> AuthUser usr)
         else
           let p = hr_query r; username = string_or_empty p ''u''
           in case ur_FindByUsernameWithPassword (ae_repo env) s username of
                Inl RCanceled \<Rightarrow> NoAnswer
              | Inl _ \<Rightarrow> AuthFail ErrorAuthenticationFail
              | Inr usr \<Rightarrow>
                  if validateCredentials env usr (string_or_empty p ''p'') (string_or_empty p ''t'')
                       (string_or_empty p ''s'') (string_or_empty p ''jwt'')
                  then AuthUser usr else AuthFail ErrorAuthenticationFail)"

definition adminOnly :: "User option \<Rightarrow> subsonic_code option" where
  "adminOnly loggedUser =
     (case loggedUser of
        None \<Rightarrow> Some ErrorGeneric
      | Some u \<Rightarrow> if \<not> u_IsAdmin u then Some ErrorAuthorizationFail else None)"

definition playerIDCookieName :: "string \<Rightarrow> string" where
  "playerIDCookieName userName = ''nd-player-'' @ hex_EncodeToString userName"

end
