(* ===== verification/Server_Auth_Correct.thy ===== *)
theory Server_Auth_Correct
  imports Server_Auth
begin

text \<open>
  Who a request can act as: only a user named by a trusted proxy, or one whose credential the
  request presents; the session token of a login stands for the user who logged in until it
  expires; and the first admin can be created only once.
\<close>

section \<open>Hexadecimal text\<close>

lemma from_hex_digit: "n < 16 \<Longrightarrow> from_hex (hex_digit n) = Some n"
  by (auto simp: from_hex_def hex_digit_def is_digit_def byte_def)

lemma hex_round_trip: "hex_DecodeString (hex_EncodeToString s) = Some s"
proof (induction s)
  case (Cons c s)
  have "16 * (byte c div 16) + byte c mod 16 = byte c" by simp
  then show ?case
    using Cons byte_less_256 [of c]
    by (simp add: hex_EncodeToString_def from_hex_digit less_mult_imp_div_less byte_def)
qed (simp add: hex_EncodeToString_def)

section \<open>Sources of a user name\<close>

definition named_by_proxy :: "('s, 'ip) AuthEnv \<Rightarrow> http_request \<Rightarrow> string \<Rightarrow> bool" where
  "named_by_proxy env r name \<longleftrightarrow>
     name \<noteq> [] \<and> hr_header r (ac_UserHeader (ae_conf env)) = name \<and>
     (\<exists>ip. hr_proxyIP r = Some ip \<and> ip \<noteq> [] \<and> ac_TrustedSources (ae_conf env) \<noteq> [] \<and>
        validateIPAgainstList env ip (ac_TrustedSources (ae_conf env)))"

lemma validateIP_nonempty: "validateIPAgainstList env ip lst \<Longrightarrow> ip \<noteq> [] \<and> lst \<noteq> []"
  by (auto simp: validateIPAgainstList_def split: if_splits)

lemma UsernameFromExtAuthHeader_iff:
  "UsernameFromExtAuthHeader env r = name \<and> name \<noteq> [] \<longleftrightarrow> named_by_proxy env r name"
  using validateIP_nonempty [of env]
  by (auto simp: UsernameFromExtAuthHeader_def named_by_proxy_def split: option.splits)

lemma proxy_name: "UsernameFromExtAuthHeader env r \<noteq> [] \<Longrightarrow> named_by_proxy env r (UsernameFromExtAuthHeader env r)"
  using UsernameFromExtAuthHeader_iff by blast

text \<open>A credential of the Subsonic API for a user: a verified token, the password, or its digest.\<close>

definition presents_credential :: "('s, 'ip) AuthEnv \<Rightarrow> http_request \<Rightarrow> User \<Rightarrow> bool" where
  "presents_credential env r u \<longleftrightarrow>
     (let p = hr_query r
      in (\<exists>m. jwt_verify (ae_TokenAuth env) (ae_now env) (string_or_empty p ''jwt'') = Inr m \<and>
            get_str m ''sub'' = u_UserName u) \<or>
         string_or_empty p ''p'' \<noteq> [] \<and> string_or_empty p ''p'' = u_Password u \<or>
         hex_DecodeString (drop 4 (string_or_empty p ''p'')) = Some (u_Password u) \<and>
           HasPrefix (string_or_empty p ''p'') ''enc:'' \<or>
         string_or_empty p ''t'' \<noteq> [] \<and>
           string_or_empty p ''t'' = hex_EncodeToString (ae_md5 env (u_Password u @ string_or_empty p ''s'')))"

lemma validateCredentials_sound:
  "validateCredentials env u (string_or_empty p ''p'') (string_or_empty p ''t'') (string_or_empty p ''s'')
     (string_or_empty p ''jwt'') \<Longrightarrow> hr_query r = p \<Longrightarrow> presents_credential env r u"
  by (auto simp: validateCredentials_def presents_credential_def Let_def Validate_def ClaimsFromToken_def
      bind_result_Inr split: if_splits sum.splits option.splits)

section \<open>Properties\<close>

text \<open>
  C4. A Subsonic request acts as a user only if a trusted reverse proxy names that user, or the
  request presents a credential of that user: a verified session token with the user's name, the
  password (plain or hexadecimal), or the digest of the password and the salt it sends.
\<close>

theorem authenticate_sound:
  assumes "authenticate env r s = AuthUser u"
  shows "(\<exists>name. named_by_proxy env r name \<and> ur_FindByUsername (ae_repo env) s name = Inr u) \<or>
    (UsernameFromExtAuthHeader env r = [] \<and> presents_credential env r u \<and>
     ur_FindByUsernameWithPassword (ae_repo env) s (string_or_empty (hr_query r) ''u'') = Inr u)"
proof (cases "UsernameFromExtAuthHeader env r = []")
  case True
  with assms show ?thesis
    by (auto simp: authenticate_def Let_def split: sum.splits repo_error.splits if_splits
        intro: validateCredentials_sound)
next
  case False
  with assms proxy_name [OF False] show ?thesis
    by (auto simp: authenticate_def Let_def split: sum.splits repo_error.splits)
qed

text \<open>A repository with one user, an address list that is never trusted, and MD5 as the identity.\<close>

definition bob :: User where
  "bob = \<lparr>u_ID = ''7'', u_UserName = ''bob'', u_Name = ''Bob'', u_Email = [], u_IsAdmin = False,
     u_Libraries = [1], u_Password = ''secret'', u_NewPassword = []\<rparr>"

definition bob_repo :: "nat UserRepo" where
  "bob_repo = \<lparr>ur_FindByUsername = (\<lambda>s n. if n = ''bob'' then Inr bob else Inl RNotFound),
     ur_FindByUsernameWithPassword = (\<lambda>s n. if n = ''bob'' then Inr bob else Inl RNotFound),
     ur_UpdateLastLoginAt = (\<lambda>s i. (None, Suc s)), ur_CountAll = (\<lambda>s. Inr 1),
     ur_Put = (\<lambda>s u. (None, Suc s))\<rparr>"

definition plain_jwt :: JWTAuth where
  "plain_jwt = \<lparr>jwt_sign = (\<lambda>m. Inl ''no key''), jwt_verify = (\<lambda>now t. Inl ''no key'')\<rparr>"

definition bob_env :: "(nat, nat) AuthEnv" where
  "bob_env = \<lparr>ae_repo = bob_repo,
     ae_net = \<lparr>net_ParseIP = (\<lambda>_. None), net_SplitHost = (\<lambda>_. []), net_ParseCIDR = (\<lambda>_. None)\<rparr>,
     ae_conf = \<lparr>ac_TrustedSources = [], ac_UserHeader = ''Remote-User'', ac_DevAutoLoginUsername = [],
        ac_Address = [], ac_EnableGravatar = False, ac_SessionTimeout = 86400 * nanos\<rparr>,
     ae_TokenAuth = plain_jwt, ae_now = 1700000000 * nanos, ae_md5 = id, ae_Gravatar = id,
     ae_salt = Some ''abc'', ae_newId = ''8'', ae_Title = id\<rparr>"

definition bob_request :: http_request where
  "bob_request = \<lparr>hr_header = (\<lambda>_. []), hr_jwt = None, hr_proxyIP = Some ''10.0.0.1'',
     hr_query = [''u'' \<mapsto> [''bob''], ''t'' \<mapsto> [hex_EncodeToString ''secretpepper''], ''s'' \<mapsto> [''pepper'']]\<rparr>"

theorem authenticate_sound_witness:
  "authenticate bob_env bob_request 0 = AuthUser bob \<and> presents_credential bob_env bob_request bob"
proof -
  have a: "authenticate bob_env bob_request 0 = AuthUser bob" by code_simp
  have "\<not> named_by_proxy bob_env bob_request name" for name
    by (simp add: named_by_proxy_def bob_env_def)
  with authenticate_sound [OF a] a show ?thesis by blast
qed

text \<open>
  On the web API the user of a request is the configured one, the subject of a verified
  session token, or the one a trusted proxy names, in this order; without any of them, or when the
  user does not exist, the request is refused.
\<close>

lemma Authenticator_iff:
  "Authenticator env r s = Some (name, u) \<longleftrightarrow>
     (\<exists>n. n \<noteq> [] \<and> ur_FindByUsername (ae_repo env) s n = Inr u \<and> name = u_UserName u \<and>
        n = (if ac_DevAutoLoginUsername (ae_conf env) \<noteq> [] then ac_DevAutoLoginUsername (ae_conf env)
             else if UsernameFromToken r \<noteq> [] then UsernameFromToken r
             else UsernameFromExtAuthHeader env r))"
  by (auto simp: Authenticator_def authenticateRequest_def contextWithUser_def UsernameFromConfig_def Let_def
      split: sum.splits)

text \<open>
  The first admin can be created only while there is no user: on any other database
  \<open>createAdmin\<close> changes nothing and logs nobody in.
\<close>

lemma createAdmin_only_once:
  assumes "ur_CountAll (ae_repo env) s = Inr c" "c > 0"
  shows "snd (createAdmin env body s) = s \<and> (\<exists>code msg. fst (createAdmin env body s) = Respond code msg)"
  using assms by (auto simp: createAdmin_def split: sum.splits)

lemma createAdmin_only_once_witness:
  "snd (createAdmin bob_env (Some [''username'' \<mapsto> ''eve'']) 5) = 5"
  using createAdmin_only_once [of bob_env 5 1 "Some [''username'' \<mapsto> ''eve'']"]
  by (simp add: bob_env_def bob_repo_def)

section \<open>Sessions\<close>

lemma CreateToken_claims:
  "CreateToken j now timeout u = Inr t \<Longrightarrow>
   jwt_sign j (ToMap (zero_Claims\<lparr>c_Issuer := JWTIssuer, c_Subject := u_UserName u, c_IssuedAt := to_second now,
     c_ExpiresAt := now + timeout, c_UserID := u_ID u, c_IsAdmin := u_IsAdmin u\<rparr>)) = Inr t"
  by (simp add: CreateToken_def TouchToken_def Let_def bind_result_Inr ClaimsFromToken_ToMap WithExpiresAt_def
      zero_Claims_def)

text \<open>A successful login: the password is the user's, and the payload carries a token made for the user.\<close>

lemma doLogin_LoggedIn:
  assumes "doLogin env name password s = (LoggedIn pl, s')"
  shows "\<exists>u t. ur_FindByUsernameWithPassword (ae_repo env) s name = Inr u \<and> u_Password u = password \<and>
    CreateToken (ae_TokenAuth env) (ae_now env) (ac_SessionTimeout (ae_conf env)) u = Inr t \<and>
    pl = buildAuthPayload env u @ [(''token'', JStr t)]"
  using assms by (auto simp: doLogin_def validateLogin_def split: sum.splits repo_error.splits if_splits option.splits)

definition session_claims :: "('s, 'ip) AuthEnv \<Rightarrow> User \<Rightarrow> Claims" where
  "session_claims env u = zero_Claims\<lparr>c_Issuer := JWTIssuer, c_Subject := u_UserName u,
     c_IssuedAt := to_second (ae_now env), c_ExpiresAt := ae_now env + ac_SessionTimeout (ae_conf env),
     c_UserID := u_ID u, c_IsAdmin := u_IsAdmin u\<rparr>"

lemma session_expiry:
  "c_ExpiresAt c \<noteq> zero_time \<Longrightarrow> unexpired now (ToMap c) \<longleftrightarrow> now < to_second (c_ExpiresAt c)"
  by (simp add: unexpired_def ToMap_lookup ToMap_get)


definition session_env :: "(nat, nat) AuthEnv" where
  "session_env = bob_env\<lparr>ae_TokenAuth := table_jwt
     [(''first'', ToMap (zero_Claims\<lparr>c_Issuer := JWTIssuer, c_Subject := ''bob'', c_IssuedAt := 1700000000 * nanos,
         c_UserID := ''7'', c_IsAdmin := False\<rparr>)),
      (''session'', ToMap (session_claims bob_env bob))]\<rparr>"

lemma session_env_simps [simp]:
  "ae_repo session_env = bob_repo" "ae_now session_env = 1700000000 * nanos"
  "ac_SessionTimeout (ae_conf session_env) = 86400 * nanos" "ae_salt session_env = Some ''abc''"
  "ac_EnableGravatar (ae_conf session_env) = False"
  "session_claims session_env = session_claims bob_env"
  by (simp_all add: session_env_def bob_env_def session_claims_def fun_eq_iff)

lemma session_jwt: "jwt_ok (ae_TokenAuth session_env)"
  by (simp add: session_env_def table_jwt_ok)

lemma session_sign:
  "jwt_sign (ae_TokenAuth session_env) (ToMap (session_claims bob_env bob)) = Inr ''session''"
  "\<exists>t. jwt_sign (ae_TokenAuth session_env) (ToMap (zero_Claims\<lparr>c_Issuer := JWTIssuer, c_Subject := ''bob'',
      c_IssuedAt := 1700000000 * nanos, c_UserID := ''7'', c_IsAdmin := False\<rparr>)) = Inr t"
proof -
  let ?m = "ToMap (zero_Claims\<lparr>c_Issuer := JWTIssuer, c_Subject := ''bob'', c_IssuedAt := 1700000000 * nanos,
         c_UserID := ''7'', c_IsAdmin := False\<rparr>)"
  have "?m ''exp'' = None" "ToMap (session_claims bob_env bob) ''exp'' \<noteq> None"
    by (simp_all add: ToMap_lookup zero_Claims_def session_claims_def bob_env_def zero_time_def nanos_def)
  then have "?m \<noteq> ToMap (session_claims bob_env bob)" by metis
  then show "jwt_sign (ae_TokenAuth session_env) (ToMap (session_claims bob_env bob)) = Inr ''session''"
    by (simp add: session_env_def table_jwt_def)
  show "\<exists>t. jwt_sign (ae_TokenAuth session_env) ?m = Inr t"
    by (simp add: session_env_def table_jwt_def)
qed

lemma session_token:
  "CreateToken (ae_TokenAuth session_env) (1700000000 * nanos) (86400 * nanos) bob = Inr ''session''"
proof -
  have "WithExpiresAt (1700000000 * nanos + 86400 * nanos) (ClaimsFromToken (ToMap (zero_Claims\<lparr>c_Issuer := JWTIssuer,
      c_Subject := ''bob'', c_IssuedAt := 1700000000 * nanos, c_UserID := ''7'', c_IsAdmin := False\<rparr>))) =
      session_claims bob_env bob"
    by (simp add: ClaimsFromToken_ToMap WithExpiresAt_def session_claims_def zero_Claims_def bob_def bob_env_def
        to_second_def unix_seconds_def)
  then show ?thesis
    using session_sign by (auto simp: CreateToken_def TouchToken_def bob_def)
qed


end
