(* ===== verification/Public_Share.thy ===== *)
theory Public_Share
  imports Auth_Claims Stream_MediaStreamer
begin

text \<open>
  Public shares: \<open>core/share.go\<close> (creating, loading and updating a share) and the handlers of
  \<open>server/public/handle_streams.go\<close>, \<open>handle_shares.go\<close> and \<open>handle_downloads.go\<close>, which serve the
  tracks of a share to anybody who has its link.

  Parameters: the data store's queries and updates, the generator of ids, the JWT library with the
  secret of public links, the clock and the configuration.
\<close>

section \<open>Data\<close>

record Share =
  sh_ID :: string
  sh_UserID :: string
  sh_Description :: string
  sh_Downloadable :: bool
  sh_ExpiresAt :: "time_ns option"
  sh_LastVisitedAt :: "time_ns option"
  sh_ResourceIDs :: string
  sh_ResourceType :: string
  sh_Contents :: string
  sh_Format :: string
  sh_MaxBitRate :: go_int
  sh_VisitCount :: go_int
  sh_Tracks :: MediaFiles

datatype share_error = SNotFound | SExpired | SNotAuthorized | SBusy | SFailed string

datatype entity =
  EArtist string | EAlbum string | EPlaylist string | EMediaFile MediaFile | ERadio string
  \<comment> \<open>the name, where the code reads it\<close>

record 's ShareRepo =
  sr_Get :: "'s \<Rightarrow> string \<Rightarrow> share_error + Share"
  sr_Update :: "'s \<Rightarrow> string \<Rightarrow> Share \<Rightarrow> string list \<Rightarrow> share_error option \<times> 's" \<comment> \<open>the columns are named\<close>
  sr_Save :: "'s \<Rightarrow> Share \<Rightarrow> (share_error + string) \<times> 's"
  sr_Exists :: "'s \<Rightarrow> string \<Rightarrow> share_error + bool"

section \<open>Loading\<close>

text \<open>\<open>V(share.ExpiresAt)\<close>, the zero time for a nil pointer, compared with the clock.\<close>

definition share_expired :: "time_ns \<Rightarrow> Share \<Rightarrow> bool" where
  "share_expired now share \<longleftrightarrow>
     (let expiresAt = gg_V zero_time (sh_ExpiresAt share) in expiresAt \<noteq> zero_time \<and> expiresAt < now)"

definition Load :: "'s ShareRepo \<Rightarrow> time_ns \<Rightarrow> string \<Rightarrow> 's \<Rightarrow> (share_error + Share) \<times> 's" where
  "Load repo now i s =
     (case sr_Get repo s i of
        Inl err \<Rightarrow> (Inl err, s)
      | Inr share \<Rightarrow>
          if share_expired now share then (Inl SExpired, s)
          else
            let share' = share\<lparr>sh_LastVisitedAt := Some now, sh_VisitCount := wrap64 (sh_VisitCount share + 1)\<rparr>
            in (Inr share', snd (sr_Update repo s i share' [''last_visited_at'', ''visit_count''])))"

section \<open>Creating\<close>

text \<open>
  \<open>newId\<close>: draw ids until one is free. The n-th call of \<open>nanoid.Generate\<close> gives \<open>gen n\<close>; the loop has
  no bound, so not returning is a possible outcome.
\<close>

partial_function (option) newId ::
  "(nat \<Rightarrow> string + string) \<Rightarrow> (string \<Rightarrow> share_error + bool) \<Rightarrow> nat \<Rightarrow> (share_error + string) option" where
  "newId gen exists n =
     (case gen n of
        Inl err \<Rightarrow> Some (Inl (SFailed err))
      | Inr i \<Rightarrow>
          (case exists i of
             Inl err \<Rightarrow> Some (Inl err)
           | Inr found \<Rightarrow> if \<not> found then Some (Inr i) else newId gen exists (Suc n)))"

text \<open>
  The names the labels are made of: an artist, the albums with the given ids, a playlist, and the
  media files with the given ids that are not missing.
\<close>

record ShareNames =
  sn_Artist :: "string \<Rightarrow> string option"
  sn_Albums :: "string list \<Rightarrow> string list option"
  sn_Playlist :: "string \<Rightarrow> string option"
  sn_MediaFiles :: "string list \<Rightarrow> MediaFiles option"
  sn_GetEntity :: "string \<Rightarrow> share_error + entity"

text \<open>\<open>strings.SplitN(ids, ",", 2)[0]\<close> and the first part of \<open>strings.Cut\<close>.\<close>

definition first_id :: "string \<Rightarrow> string" where
  "first_id ids = hd (split_on (CHR '','') ids)"

definition contentsLabelFromArtist :: "ShareNames \<Rightarrow> string \<Rightarrow> string" where
  "contentsLabelFromArtist q ids = gg_V [] (sn_Artist q (first_id ids))"

definition contentsLabelFromAlbums :: "ShareNames \<Rightarrow> string \<Rightarrow> string" where
  "contentsLabelFromAlbums q ids =
     (case sn_Albums q (split_on (CHR '','') ids) of
        None \<Rightarrow> [] | Some names \<Rightarrow> Join names '', '')"

definition contentsLabelFromPlaylist :: "ShareNames \<Rightarrow> string \<Rightarrow> string" where
  "contentsLabelFromPlaylist q i = gg_V [] (sn_Playlist q i)"

text \<open>
  The keys of the maps that \<open>slice.Group\<close> gives are the different albums and artists. \<open>mfs[0]\<close> of an
  empty slice panics: the result \<open>None\<close>.
\<close>

definition contentsLabelFromMediaFiles :: "ShareNames \<Rightarrow> string \<Rightarrow> string option" where
  "contentsLabelFromMediaFiles q ids =
     (case sn_MediaFiles q (split_on (CHR '','') ids) of
        None \<Rightarrow> Some []
      | Some mfs \<Rightarrow>
          if length mfs = 1 then Some (mf_Title (hd mfs))
          else
            let albums = remdups (map mf_Album mfs); artists = remdups (map mf_AlbumArtist mfs)
            in if length albums = 1 then Some (hd albums)
               else if length artists = 1 then Some (hd artists)
               else case mfs of [] \<Rightarrow> None | mf # _ \<Rightarrow> Some (mf_Title mf))"

datatype save_result = SavePanic | SaveFailed share_error | Saved string

text \<open>
  \<open>Save\<close> for a drawn id \<open>i\<close>. \<open>truncateRunes\<close> is \<open>str.TruncateRunes\<close>; \<open>dflt\<close> is the default lifetime.
\<close>

definition Save ::
  "'s ShareRepo \<Rightarrow> ShareNames \<Rightarrow> (string \<Rightarrow> nat \<Rightarrow> string \<Rightarrow> string) \<Rightarrow> time_ns \<Rightarrow> time_ns \<Rightarrow>
   share_error + string \<Rightarrow> Share \<Rightarrow> 's \<Rightarrow> save_result \<times> 's" where
  "Save repo q truncateRunes now dflt drawn share0 s =
     (case drawn of
        Inl err \<Rightarrow> (SaveFailed err, s)
      | Inr i \<Rightarrow>
          let share1 = share0\<lparr>sh_ID := i\<rparr>;
              share2 = (if gg_V zero_time (sh_ExpiresAt share1) = zero_time
                        then share1\<lparr>sh_ExpiresAt := Some (now + dflt)\<rparr> else share1);
              ids = sh_ResourceIDs share2;
              finish = (\<lambda>kind contents.
                case sr_Save repo s (share2\<lparr>sh_ResourceType := kind,
                                           sh_Contents := truncateRunes contents 30 ''...''\<rparr>) of
                  (Inl err, s') \<Rightarrow> (SaveFailed err, s') | (Inr i', s') \<Rightarrow> (Saved i', s'))
          in case sn_GetEntity q (first_id ids) of
               Inl err \<Rightarrow> (SaveFailed err, s)
             | Inr (EArtist _) \<Rightarrow> finish ''artist'' (contentsLabelFromArtist q ids)
             | Inr (EAlbum _) \<Rightarrow> finish ''album'' (contentsLabelFromAlbums q ids)
             | Inr (EPlaylist _) \<Rightarrow> finish ''playlist'' (contentsLabelFromPlaylist q ids)
             | Inr (EMediaFile _) \<Rightarrow>
                 (case contentsLabelFromMediaFiles q ids of
                    None \<Rightarrow> (SavePanic, s) | Some label \<Rightarrow> finish ''media_file'' label)
             | Inr (ERadio _) \<Rightarrow> (SaveFailed SNotFound, s))"

definition share_Update ::
  "'s ShareRepo \<Rightarrow> string \<Rightarrow> Share \<Rightarrow> 's \<Rightarrow> share_error option \<times> 's" where
  "share_Update repo i share s =
     sr_Update repo s i share
       ([''description'', ''downloadable''] @
        (if gg_V zero_time (sh_ExpiresAt share) \<noteq> zero_time then [''expires_at''] else []))"

section \<open>Links\<close>

record shareTrackInfo =
  sti_id :: string
  sti_format :: string
  sti_bitrate :: go_int
  sti_shareID :: string

definition encodeMediafileShare :: "JWTAuth \<Rightarrow> Share \<Rightarrow> string \<Rightarrow> string" where
  "encodeMediafileShare PublicTokenAuth s i =
     (case CreateExpiringPublicToken PublicTokenAuth (gg_V zero_time (sh_ExpiresAt s))
             (zero_Claims\<lparr>c_ID := i, c_Format := sh_Format s, c_BitRate := sh_MaxBitRate s,
                          c_ShareID := sh_ID s\<rparr>) of
        Inl _ \<Rightarrow> [] | Inr token \<Rightarrow> token)"

definition decodeStreamInfo :: "JWTAuth \<Rightarrow> time_ns \<Rightarrow> string \<Rightarrow> string + shareTrackInfo" where
  "decodeStreamInfo PublicTokenAuth now tokenString =
     bind_result (ValidatePublic PublicTokenAuth now tokenString) (\<lambda>c.
       if c_ID c = [] then Inl ''required claim \"id\" not found''
       else if c_ShareID c = [] then Inl ''required claim \"sid\" not found''
       else Inr \<lparr>sti_id = c_ID c, sti_format = c_Format c, sti_bitrate = c_BitRate c,
                 sti_shareID = c_ShareID c\<rparr>)"

text \<open>
  \<open>mapShareToM3U\<close>: the tracks with their paths replaced by their public links; \<open>PublicURL\<close> of
  \<open>core/publicurl\<close> on the path of the token is an argument.
\<close>

definition mapShareToM3U :: "JWTAuth \<Rightarrow> (string \<Rightarrow> string) \<Rightarrow> Share \<Rightarrow> Share" where
  "mapShareToM3U PublicTokenAuth PublicURL s =
     s\<lparr>sh_Tracks := map (\<lambda>t. t\<lparr>mf_Path := PublicURL (encodeMediafileShare PublicTokenAuth s (mf_ID t))\<rparr>) (sh_Tracks s)\<rparr>"

definition shareContainsTrack :: "Share \<Rightarrow> string \<Rightarrow> bool" where
  "shareContainsTrack share mediaFileID \<longleftrightarrow> list_ex (\<lambda>mf. mf_ID mf = mediaFileID) (sh_Tracks share)"

section \<open>Handlers\<close>

definition checkShareError :: "share_error \<Rightarrow> nat" where
  "checkShareError err =
     (case err of SExpired \<Rightarrow> 410 | SNotFound \<Rightarrow> 404 | SNotAuthorized \<Rightarrow> 403 | _ \<Rightarrow> 500)"

record ('s, 'c, 'r) PublicEnv =
  pe_repo :: "'s ShareRepo"
  pe_Owner :: "string \<Rightarrow> share_error + User"
  pe_MediaFile :: "string \<Rightarrow> share_error + MediaFile"
  pe_streamer :: "('c, 'r) StreamerEnv"
  pe_jwt :: JWTAuth
  pe_now :: time_ns
  pe_TypeByExtension :: "string \<Rightarrow> string"
  pe_round32 :: "rat \<Rightarrow> rat"

datatype 'r public_reply =
  PublicError nat "string option" \<comment> \<open>the status, and the \<open>Retry-After\<close> header\<close>
| PublicStream "'r Stream" serve_result bool \<comment> \<open>and whether an error 500 followed\<close>

definition RetryAfterSeconds :: go_int where "RetryAfterSeconds = 5"

definition public_ctx :: Ctx where
  "public_ctx = \<lparr>ctx_User = None, ctx_Player = None, ctx_Transcoding = None\<rparr>"

definition handleStream ::
  "('s, 'c, 'r) PublicEnv \<Rightarrow> string \<Rightarrow> Values \<Rightarrow> go_int \<times> string option \<Rightarrow> 's \<Rightarrow> 'c \<Rightarrow> TranscodeLimiter \<Rightarrow>
   'r public_reply \<times> 'r option \<times> 'c \<times> TranscodeLimiter" where
  "handleStream env reqMethod p copied s c lm =
     (case decodeStreamInfo (pe_jwt env) (pe_now env) (string_or_empty p '':id'') of
        Inl _ \<Rightarrow> (PublicError 400 None, None, c, lm)
      | Inr info \<Rightarrow>
      (case sr_Get (pe_repo env) s (sti_shareID info) of
        Inl err \<Rightarrow> (PublicError (checkShareError err) None, None, c, lm)
      | Inr share \<Rightarrow>
      if share_expired (pe_now env) share then (PublicError (checkShareError SExpired) None, None, c, lm)
      else (case pe_Owner env (sh_UserID share) of
        Inl _ \<Rightarrow> (PublicError 500 None, None, c, lm)
      | Inr shareOwner \<Rightarrow>
      (case pe_MediaFile env (sti_id info) of
        Inl SNotFound \<Rightarrow> (PublicError 404 None, None, c, lm)
      | Inl _ \<Rightarrow> (PublicError 500 None, None, c, lm)
      | Inr mf \<Rightarrow>
      if \<not> shareContainsTrack share (mf_ID mf) \<or> \<not> HasLibraryAccess shareOwner (mf_LibraryID mf)
      then (PublicError 404 None, None, c, lm)
      else (case NewStream (pe_streamer env) public_ctx mf
                  \<lparr>req_Format = sti_format info, req_BitRate = sti_bitrate info, req_SampleRate = 0,
                   req_BitDepth = 0, req_Channels = 0, req_Offset = 0\<rparr> c lm of
        (Inl (TranscodeFailed (ReaderError TooManyTranscodes)), c', lm') \<Rightarrow>
          (PublicError 429 (Some (Itoa RetryAfterSeconds)), None, c', lm')
      | (Inl _, c', lm') \<Rightarrow> (PublicError 500 None, None, c', lm')
      | (Inr (st, started), c', lm') \<Rightarrow>
          (let sv = Serve (pe_TypeByExtension env) (pe_round32 env) st reqMethod p copied
           in (PublicStream st sv (sv_err sv \<noteq> None \<or> sv_n sv = 0), started, c', lm')))))))"

text \<open>
  \<open>handleDownloads\<close>: the status of the error answer, or the archive of the loaded share and the
  status written after it failed. \<open>zipShare\<close> is \<open>archiver.ZipShare\<close>; \<open>sanitize\<close> is \<open>str.SanitizeFilename\<close>.
\<close>

datatype download_reply = DownloadError nat | Download string Share "nat option"

definition replace_char :: "char \<Rightarrow> char \<Rightarrow> string \<Rightarrow> string" where
  "replace_char a b s = map (\<lambda>c. if c = a then b else c) s"

definition handleDownloads ::
  "'s ShareRepo \<Rightarrow> time_ns \<Rightarrow> (string \<Rightarrow> string) \<Rightarrow> (Share \<Rightarrow> share_error option) \<Rightarrow> Values \<Rightarrow> 's \<Rightarrow>
   download_reply \<times> 's" where
  "handleDownloads repo now sanitize zipShare p s =
     (case req_String p '':id'' of
        Inl _ \<Rightarrow> (DownloadError 400, s)
      | Inr i \<Rightarrow>
          (case Load repo now i s of
             (Inl err, s') \<Rightarrow> (DownloadError (checkShareError err), s')
           | (Inr share, s') \<Rightarrow>
               if \<not> sh_Downloadable share then (DownloadError (checkShareError SNotAuthorized), s')
               else
                 let name = replace_char (CHR '','') (CHR ''_'')
                       (sanitize (if sh_Description share \<noteq> [] then sh_Description share else sh_ID share))
                 in (Download (name @ ''.zip'') share (map_option checkShareError (zipShare share)), s')))"

section \<open>Lemmas\<close>

lemma newId_unfold: "newId gen ex n =
     (case gen n of
        Inl err \<Rightarrow> Some (Inl (SFailed err))
      | Inr i \<Rightarrow>
          (case ex i of
             Inl err \<Rightarrow> Some (Inl err)
           | Inr found \<Rightarrow> if \<not> found then Some (Inr i) else newId gen ex (Suc n)))"
  by (rule newId.simps)

lemma newId_skip: "gen n = Inr i \<Longrightarrow> ex i = Inr True \<Longrightarrow> newId gen ex n = newId gen ex (Suc n)"
  by (subst newId_unfold) simp

lemma newId_reaches:
  assumes "\<And>k. k < d \<Longrightarrow> \<exists>i. gen (n + k) = Inr i \<and> ex i = Inr True"
  shows "newId gen ex n = newId gen ex (n + d)"
  using assms
proof (induction d arbitrary: n)
  case (Suc d)
  from Suc.prems [of 0] obtain i where "gen n = Inr i" "ex i = Inr True" by auto
  then have "newId gen ex n = newId gen ex (Suc n)" by (rule newId_skip)
  moreover have "\<And>k. k < d \<Longrightarrow> \<exists>i. gen (Suc n + k) = Inr i \<and> ex i = Inr True"
    using Suc.prems [of "Suc k" for k] by auto
  then have "newId gen ex (Suc n) = newId gen ex (Suc n + d)" by (rule Suc.IH)
  ultimately show ?case by simp
qed simp

lemma encodeMediafileShare_claims:
  assumes "encodeMediafileShare j sh i = t" "t \<noteq> []"
  shows "jwt_sign j (ToMap (zero_Claims\<lparr>c_Issuer := JWTIssuer, c_ID := i, c_Format := sh_Format sh,
     c_BitRate := sh_MaxBitRate sh, c_ShareID := sh_ID sh,
     c_ExpiresAt := gg_V zero_time (sh_ExpiresAt sh)\<rparr>)) = Inr t"
  using assms
  by (auto simp: encodeMediafileShare_def CreateExpiringPublicToken_def Let_def zero_Claims_def
      split: sum.splits if_splits)

definition link_claims :: "Share \<Rightarrow> string \<Rightarrow> Claims" where
  "link_claims sh i = zero_Claims\<lparr>c_Issuer := JWTIssuer, c_ID := i, c_Format := sh_Format sh,
     c_BitRate := sh_MaxBitRate sh, c_ShareID := sh_ID sh,
     c_ExpiresAt := gg_V zero_time (sh_ExpiresAt sh)\<rparr>"

lemma link_unexpired:
  "unexpired now (ToMap (link_claims sh i)) \<longleftrightarrow>
     gg_V zero_time (sh_ExpiresAt sh) = zero_time \<or> now < to_second (gg_V zero_time (sh_ExpiresAt sh))"
  by (simp add: unexpired_def ToMap_lookup ToMap_get link_claims_def)

section \<open>Properties\<close>

text \<open>
  C5. A shared track is streamed only to a request with a link that was signed by the server and is
  in force, for a share that exists and is not expired, for a track that belongs to the share and
  to a library the share's owner may read. The stream is the one the link asks for.
\<close>

theorem shared_stream_authorised:
  assumes "handleStream env m p copied s c lm = (PublicStream st sv failed, started, c', lm')"
  shows "\<exists>cl share owner. jwt_verify (pe_jwt env) (pe_now env) (string_or_empty p '':id'') = Inr cl \<and>
     sr_Get (pe_repo env) s (get_str cl ''sid'') = Inr share \<and> \<not> share_expired (pe_now env) share \<and>
     pe_Owner env (sh_UserID share) = Inr owner \<and> pe_MediaFile env (get_str cl ''id'') = Inr (st_mf st) \<and>
     (\<exists>mf. mf \<in> set (sh_Tracks share) \<and> mf_ID mf = mf_ID (st_mf st)) \<and>
     (u_IsAdmin owner \<or> mf_LibraryID (st_mf st) \<in> set (u_Libraries owner))"
proof -
  from assms obtain info share owner mf q where
    i: "decodeStreamInfo (pe_jwt env) (pe_now env) (string_or_empty p '':id'') = Inr info"
    and g: "sr_Get (pe_repo env) s (sti_shareID info) = Inr share" "\<not> share_expired (pe_now env) share"
      "pe_Owner env (sh_UserID share) = Inr owner" "pe_MediaFile env (sti_id info) = Inr mf"
      "shareContainsTrack share (mf_ID mf)" "HasLibraryAccess owner (mf_LibraryID mf)"
    and n: "NewStream (pe_streamer env) public_ctx mf q c lm = (Inr (st, started), c', lm')"
    by (auto simp: handleStream_def Let_def
        split: sum.splits share_error.splits if_splits prod.splits stream_error.splits get_error.splits
          producer_error.splits)
  from n have "st_mf st = mf"
    by (auto simp: NewStream_def Let_def split: if_splits option.splits sum.splits prod.splits)
  moreover from i obtain cl where "jwt_verify (pe_jwt env) (pe_now env) (string_or_empty p '':id'') = Inr cl"
    "sti_id info = get_str cl ''id''" "sti_shareID info = get_str cl ''sid''"
    by (auto simp: decodeStreamInfo_def ValidatePublic_def bind_result_Inr ClaimsFromToken_def split: if_splits)
  ultimately show ?thesis
    using g by (auto simp: shareContainsTrack_def HasLibraryAccess_def list_ex_iff)
qed

text \<open>
  C30. The link of a shared track reads back as that track: with its share, format and bitrate, until
  the share expires; after that second the link is refused without asking the database.
\<close>

theorem share_link_roundtrip:
  assumes "jwt_ok j" "encodeMediafileShare j sh i = t" "t \<noteq> []"
    and "exact_claims (ToMap (link_claims sh i))" "i \<noteq> []" "sh_ID sh \<noteq> []"
  shows "if gg_V zero_time (sh_ExpiresAt sh) = zero_time \<or> now < to_second (gg_V zero_time (sh_ExpiresAt sh))
    then decodeStreamInfo j now t = Inr \<lparr>sti_id = i, sti_format = sh_Format sh, sti_bitrate = sh_MaxBitRate sh,
      sti_shareID = sh_ID sh\<rparr>
    else \<exists>e. decodeStreamInfo j now t = Inl e"
proof -
  have sign: "jwt_sign j (ToMap (link_claims sh i)) = Inr t"
    using encodeMediafileShare_claims [OF assms(2,3)] by (simp add: link_claims_def)
  show ?thesis
  proof (cases "unexpired now (ToMap (link_claims sh i))")
    case True
    then have "jwt_verify j now t = Inr (ToMap (link_claims sh i))"
      using jwt_okD(1) [OF assms(1,4) sign] by blast
    with True assms(5,6) show ?thesis
      by (simp add: link_unexpired decodeStreamInfo_def ValidatePublic_def ClaimsFromToken_def ToMap_get)
        (simp add: link_claims_def)
  next
    case False
    then obtain e where "jwt_verify j now t = Inl e"
      using jwt_okD(2) [OF assms(1,4) sign] by blast
    with False show ?thesis by (simp add: link_unexpired decodeStreamInfo_def ValidatePublic_def)
  qed
qed

text \<open>
  Creating a share ends, with an id no other share has, as soon as a free id is drawn; ids that
  are taken are passed over.
\<close>

lemma newId_returns:
  assumes "gen k = Inr i" "ex i = Inr False"
    and "\<And>j. j < k \<Longrightarrow> \<exists>i'. gen j = Inr i' \<and> ex i' = Inr True"
  shows "newId gen ex 0 = Some (Inr i)"
proof -
  have "newId gen ex 0 = newId gen ex (0 + k)" using assms(3) by (intro newId_reaches) simp
  also have "\<dots> = Some (Inr i)" using assms(1,2) by (subst newId_unfold) simp
  finally show ?thesis .
qed

text \<open>
  A share of media files that are all missing by now cannot be saved: the handler indexes an empty
  slice.
\<close>

lemma Save_of_missing_panics:
  assumes "sn_GetEntity q (first_id (sh_ResourceIDs sh)) = Inr (EMediaFile mf)"
    "sn_MediaFiles q (split_on (CHR '','') (sh_ResourceIDs sh)) = Some []"
  shows "fst (Save repo q tr now dflt (Inr i) sh s) = SavePanic"
  using assms by (simp add: Save_def Let_def contentsLabelFromMediaFiles_def)

text \<open>A download that is not allowed reads no track, and an expired share is never counted as visited.\<close>

lemma Load_expired: "sr_Get repo s i = Inr sh \<Longrightarrow> share_expired now sh \<Longrightarrow> Load repo now i s = (Inl SExpired, s)"
  by (simp add: Load_def)

lemma handleDownloads_allowed:
  "fst (handleDownloads repo now san zp p s) = Download name sh e \<Longrightarrow> sh_Downloadable sh \<and> \<not> share_expired now sh"
  by (auto simp: handleDownloads_def Load_def Let_def share_expired_def split: sum.splits prod.splits if_splits)

section \<open>Witnesses\<close>

definition shared_track :: MediaFile where
  "shared_track = zero_MediaFile\<lparr>mf_ID := ''song'', mf_LibraryID := 1\<rparr>"

definition sample_share :: Share where
  "sample_share = \<lparr>sh_ID = ''share'', sh_UserID = ''7'', sh_Description = [], sh_Downloadable = False,
     sh_ExpiresAt = Some (1700000000 * nanos), sh_LastVisitedAt = None, sh_ResourceIDs = ''song'',
     sh_ResourceType = ''media_file'', sh_Contents = [], sh_Format = [], sh_MaxBitRate = 0,
     sh_VisitCount = 0, sh_Tracks = [shared_track]\<rparr>"

definition link_jwt :: JWTAuth where
  "link_jwt = table_jwt [(''link'', ToMap (link_claims sample_share ''song''))]"

lemma link_jwt_ok: "jwt_ok link_jwt"
  by (simp add: link_jwt_def table_jwt_ok)

lemma link_exact: "exact_claims (ToMap (link_claims sample_share ''song''))"
  by (auto simp: exact_claims_def ToMap_def Let_def link_claims_def zero_Claims_def sample_share_def gg_V_def
      unix_seconds_def nanos_def split: if_splits)

lemma link_encoded: "encodeMediafileShare link_jwt sample_share ''song'' = ''link''"
proof -
  have "gg_V zero_time (sh_ExpiresAt sample_share) \<noteq> zero_time"
    by (simp add: sample_share_def gg_V_def zero_time_def nanos_def)
  then have "CreateExpiringPublicToken link_jwt (gg_V zero_time (sh_ExpiresAt sample_share))
      (zero_Claims\<lparr>c_ID := ''song'', c_Format := sh_Format sample_share, c_BitRate := sh_MaxBitRate sample_share,
         c_ShareID := sh_ID sample_share\<rparr>) = jwt_sign link_jwt (ToMap (link_claims sample_share ''song''))"
    by (simp add: CreateExpiringPublicToken_def Let_def link_claims_def zero_Claims_def)
  then show ?thesis by (simp add: encodeMediafileShare_def link_jwt_def table_jwt_def)
qed

lemma link_verifies:
  "jwt_verify link_jwt (1600000000 * nanos) ''link'' = Inr (ToMap (link_claims sample_share ''song''))"
  by (simp add: link_jwt_def table_jwt_verify link_unexpired)
    (simp add: sample_share_def gg_V_def to_second_def unix_seconds_def nanos_def)

lemma link_decodes:
  "decodeStreamInfo link_jwt (1600000000 * nanos) ''link'' =
   Inr \<lparr>sti_id = ''song'', sti_format = [], sti_bitrate = 0, sti_shareID = ''share''\<rparr>"
  by (simp add: decodeStreamInfo_def ValidatePublic_def link_verifies ClaimsFromToken_def ToMap_get)
    (simp add: link_claims_def sample_share_def)

theorem share_link_roundtrip_witness:
  "decodeStreamInfo link_jwt (1600000000 * nanos) (encodeMediafileShare link_jwt sample_share ''song'') =
   Inr \<lparr>sti_id = ''song'', sti_format = [], sti_bitrate = 0, sti_shareID = ''share''\<rparr>"
proof -
  have "1600000000 * nanos < to_second (gg_V zero_time (sh_ExpiresAt sample_share))"
    by (simp add: sample_share_def gg_V_def to_second_def unix_seconds_def nanos_def)
  then show ?thesis
    using share_link_roundtrip [OF link_jwt_ok link_encoded _ link_exact, of "1600000000 * nanos"]
    by (simp add: link_encoded) (simp add: sample_share_def)
qed

definition sample_public :: "(unit, string list, nat) PublicEnv" where
  "sample_public = \<lparr>pe_repo = \<lparr>sr_Get = (\<lambda>s i. if i = ''share'' then Inr sample_share else Inl SNotFound),
       sr_Update = (\<lambda>s i sh cols. (None, s)), sr_Save = (\<lambda>s sh. (Inr (sh_ID sh), s)), sr_Exists = (\<lambda>s i. Inr False)\<rparr>,
     pe_Owner = (\<lambda>i. Inr \<lparr>u_ID = i, u_UserName = ''bob'', u_Name = [], u_Email = [], u_IsAdmin = False,
       u_Libraries = [1], u_Password = [], u_NewPassword = []\<rparr>),
     pe_MediaFile = (\<lambda>i. if i = ''song'' then Inr shared_track else Inl SNotFound), pe_streamer = sample_streamer,
     pe_jwt = link_jwt, pe_now = 1600000000 * nanos, pe_TypeByExtension = id, pe_round32 = id\<rparr>"

theorem shared_stream_authorised_witness:
  "\<exists>st sv failed. handleStream sample_public ''GET'' ['':id'' \<mapsto> [''link'']] (0, None) () [] (NewTranscodeLimiter 2 1) =
     (PublicStream st sv failed, None, [], NewTranscodeLimiter 2 1) \<and>
     pe_MediaFile sample_public ''song'' = Inr (st_mf st)"
proof -
  let ?h = "handleStream sample_public ''GET'' ['':id'' \<mapsto> [''link'']] (0, None) () [] (NewTranscodeLimiter 2 1)"
  have q: "string_or_empty ['':id'' \<mapsto> [''link'']] '':id'' = ''link''" by code_simp
  have e: "\<not> share_expired (1600000000 * nanos) sample_share"
    by (simp add: share_expired_def sample_share_def gg_V_def nanos_def)
  have t: "shareContainsTrack sample_share (mf_ID shared_track)" "mf_LibraryID shared_track = 1"
    by (simp_all add: shareContainsTrack_def sample_share_def shared_track_def)
  obtain st where "NewStream sample_streamer public_ctx shared_track \<lparr>req_Format = [], req_BitRate = 0,
      req_SampleRate = 0, req_BitDepth = 0, req_Channels = 0, req_Offset = 0\<rparr> [] (NewTranscodeLimiter 2 1) =
      (Inr (st, None), [], NewTranscodeLimiter 2 1)"
    by (simp add: NewStream_def sample_streamer_def Let_def)
  with q e t link_decodes obtain sv failed where h: "?h = (PublicStream st sv failed, None, [], NewTranscodeLimiter 2 1)"
    by (simp add: handleStream_def sample_public_def HasLibraryAccess_def Let_def)
  have "get_str (ToMap (link_claims sample_share ''song'')) ''id'' = ''song''"
    by (simp add: ToMap_get) (simp add: link_claims_def)
  with shared_stream_authorised [OF h] h q link_verifies show ?thesis by (auto simp: sample_public_def)
qed

lemma newId_returns_witness:
  "newId (\<lambda>n. Inr (if n = 0 then ''taken'' else ''free'')) (\<lambda>i. Inr (i = ''taken'')) 0 = Some (Inr ''free'')"
  by (rule newId_returns [of _ 1]) auto

end
