(* ===== verification/Playback_Queue.thy ===== *)
theory Playback_Queue
  imports Model_MediaFile
begin

text \<open>
  \<open>core/playback/queue.go\<close>: the jukebox queue, a list of media files and the index of the current
  one (-1 for none). A read or slice out of range panics in Go and is \<open>Inl IndexOutOfRange\<close> here;
  the invariant rules it out. \<open>rand.Shuffle\<close> is an argument: the permutation it applies.
\<close>

section \<open>Operations\<close>

datatype go_panic = IndexOutOfRange | NilDereference

record Queue =
  q_Index :: go_int
  q_Items :: MediaFiles

definition NewQueue :: Queue where
  "NewQueue = \<lparr>q_Index = -1, q_Items = []\<rparr>"

definition q_len :: "Queue \<Rightarrow> go_int" where
  "q_len q = int (length (q_Items q))"

definition Current :: "Queue \<Rightarrow> go_panic + MediaFile option" where
  "Current q =
     (if q_Index q = -1 then Inr None
      else if q_Index q \<ge> q_len q then Inr None
      else if q_Index q < 0 then Inl IndexOutOfRange
      else Inr (Some (q_Items q ! nat (q_Index q))))"

definition Get :: "Queue \<Rightarrow> MediaFiles" where
  "Get q = q_Items q"

definition Size :: "Queue \<Rightarrow> go_int" where
  "Size q = q_len q"

definition IsEmpty :: "Queue \<Rightarrow> bool" where
  "IsEmpty q \<longleftrightarrow> q_len q < 1"

definition Clear :: "Queue \<Rightarrow> Queue" where
  "Clear q = q\<lparr>q_Index := -1, q_Items := []\<rparr>"

definition Set :: "MediaFiles \<Rightarrow> Queue \<Rightarrow> Queue" where
  "Set items q = (let q1 = Clear q in q1\<lparr>q_Items := q_Items q1 @ items\<rparr>)"

definition Add :: "MediaFiles \<Rightarrow> Queue \<Rightarrow> Queue" where
  "Add items q =
     (let q1 = q\<lparr>q_Items := q_Items q @ items\<rparr>
      in if q_Index q1 = -1 \<and> q_len q1 > 0 then q1\<lparr>q_Index := 0\<rparr> else q1)"

text \<open>The index and whether the id was found; -1 with the error.\<close>

definition getMediaFileIndexByID :: "string \<Rightarrow> Queue \<Rightarrow> go_int \<times> bool" where
  "getMediaFileIndexByID i q =
     (case find_index (\<lambda>item. mf_ID item = i) (q_Items q) of
        Some idx \<Rightarrow> (int idx, True) | None \<Rightarrow> (-1, False))"

definition backup_id :: "MediaFile option \<Rightarrow> string" where
  "backup_id current = (case current of Some mf \<Rightarrow> mf_ID mf | None \<Rightarrow> [])"

definition Remove :: "go_int \<Rightarrow> Queue \<Rightarrow> go_panic + Queue" where
  "Remove idx q =
     bind_result (Current q) (\<lambda>current.
       let backupID = backup_id current
       in if idx < 0 \<or> idx \<ge> q_len q then Inl IndexOutOfRange
          else
            let q1 = q\<lparr>q_Items := remove_at (nat idx) (q_Items q)\<rparr>
            in case getMediaFileIndexByID backupID q1 of
                 (i, True) \<Rightarrow> Inr (q1\<lparr>q_Index := i\<rparr>)
               | (_, False) \<Rightarrow> Inr (q1\<lparr>q_Index := -1\<rparr>))"

definition Shuffle :: "(MediaFiles \<Rightarrow> MediaFiles) \<Rightarrow> Queue \<Rightarrow> go_panic + Queue" where
  "Shuffle perm q =
     bind_result (Current q) (\<lambda>current.
       let backupID = backup_id current;
           q1 = q\<lparr>q_Items := perm (q_Items q)\<rparr>
       in Inr (q1\<lparr>q_Index := fst (getMediaFileIndexByID backupID q1)\<rparr>))"

definition SetIndex :: "go_int \<Rightarrow> Queue \<Rightarrow> Queue" where
  "SetIndex idx q = q\<lparr>q_Index := max 0 (min idx (q_len q - 1))\<rparr>"

definition IsAtLastElement :: "Queue \<Rightarrow> bool" where
  "IsAtLastElement q \<longleftrightarrow> q_Index q + 1 \<ge> q_len q"

definition IncreaseIndex :: "Queue \<Rightarrow> Queue" where
  "IncreaseIndex q = (if \<not> IsAtLastElement q then SetIndex (q_Index q + 1) q else q)"

lemmas queue_defs = NewQueue_def q_len_def Current_def Get_def Size_def IsEmpty_def Clear_def
  Set_def Add_def getMediaFileIndexByID_def backup_id_def Remove_def Shuffle_def SetIndex_def
  IsAtLastElement_def IncreaseIndex_def Let_def

section \<open>Invariant\<close>

text \<open>The index is -1 or a position; on an empty queue \<open>SetIndex\<close> may leave it at 0.\<close>

definition queue_inv :: "Queue \<Rightarrow> bool" where
  "queue_inv q \<longleftrightarrow> -1 \<le> q_Index q \<and> (q_Index q < q_len q \<or> q_Index q \<le> 0)"

definition queue_items_after :: "go_panic + Queue \<Rightarrow> MediaFiles \<Rightarrow> bool" where
  "queue_items_after r items \<longleftrightarrow> (\<exists>q. r = Inr q \<and> q_Items q = items)"

lemma getMediaFileIndexByID_inv:
  "queue_inv (q\<lparr>q_Index := fst (getMediaFileIndexByID i q)\<rparr>)"
  using find_index_Some [of "\<lambda>item. mf_ID item = i" "q_Items q"]
  by (auto simp: queue_inv_def queue_defs split: option.splits)

lemma queue_inv_ops:
  "queue_inv NewQueue"
  "queue_inv (Clear q)"
  "queue_inv (Set items q)"
  "queue_inv q \<Longrightarrow> queue_inv (Add items q)"
  "queue_inv (SetIndex idx q)"
  "queue_inv q \<Longrightarrow> queue_inv (IncreaseIndex q)"
  by (auto simp: queue_inv_def queue_defs)

lemma Current_total: "queue_inv q \<Longrightarrow> \<exists>c. Current q = Inr c"
  by (auto simp: queue_inv_def queue_defs)

lemma Remove_result:
  assumes "queue_inv q" "0 \<le> idx" "idx < q_len q" "Current q = Inr c"
  shows "Remove idx q = Inr (q\<lparr>q_Items := remove_at (nat idx) (q_Items q),
    q_Index := fst (getMediaFileIndexByID (backup_id c) (q\<lparr>q_Items := remove_at (nat idx) (q_Items q)\<rparr>))\<rparr>)"
  using assms by (auto simp: Remove_def getMediaFileIndexByID_def Let_def split: option.splits)

lemma Shuffle_result:
  assumes "queue_inv q" "Current q = Inr c"
  shows "Shuffle perm q = Inr (q\<lparr>q_Items := perm (q_Items q),
    q_Index := fst (getMediaFileIndexByID (backup_id c) (q\<lparr>q_Items := perm (q_Items q)\<rparr>))\<rparr>)"
  using assms by (simp add: Shuffle_def Let_def)

lemma Current_at: "0 \<le> q_Index q \<Longrightarrow> q_Index q < q_len q \<Longrightarrow>
  Current q = Inr (Some (q_Items q ! nat (q_Index q)))"
  by (simp add: Current_def)

lemma Current_Some:
  "Current q = Inr (Some mf) \<Longrightarrow>
   0 \<le> q_Index q \<and> q_Index q < q_len q \<and> mf = q_Items q ! nat (q_Index q) \<and> mf \<in> set (q_Items q)"
  by (auto simp: Current_def q_len_def split: if_splits)

text \<open>Looking the current id up again finds a track with that id, if one is left.\<close>

lemma Current_by_id:
  assumes "mf \<in> set (q_Items q)"
  shows "\<exists>mf'. Current (q\<lparr>q_Index := fst (getMediaFileIndexByID (mf_ID mf) q)\<rparr>) = Inr (Some mf')
    \<and> mf_ID mf' = mf_ID mf \<and> mf' \<in> set (q_Items q)"
proof -
  from assms obtain i where i: "find_index (\<lambda>item. mf_ID item = mf_ID mf) (q_Items q) = Some i"
    using find_index_ex [of mf "q_Items q" "\<lambda>item. mf_ID item = mf_ID mf"] by auto
  from find_index_Some [OF i] show ?thesis
    by (auto simp: getMediaFileIndexByID_def i Current_def q_len_def)
qed

text \<open>The two operations that can panic do not, under the invariant and the device's guard.\<close>

lemma queue_total:
  assumes "queue_inv q"
  shows "\<exists>q'. Shuffle perm q = Inr q' \<and> queue_inv q'"
    and "0 \<le> idx \<Longrightarrow> idx < Size q \<Longrightarrow> \<exists>q'. Remove idx q = Inr q' \<and> queue_inv q'"
proof -
  obtain c where c: "Current q = Inr c" using Current_total [OF assms] by blast
  have inv: "queue_inv (q\<lparr>q_Items := xs, q_Index := fst (getMediaFileIndexByID i (q\<lparr>q_Items := xs\<rparr>))\<rparr>)"
    for i xs using getMediaFileIndexByID_inv [where q = "q\<lparr>q_Items := xs\<rparr>"] by simp
  show "\<exists>q'. Shuffle perm q = Inr q' \<and> queue_inv q'"
    using Shuffle_result [OF assms c] inv by simp
  show "0 \<le> idx \<Longrightarrow> idx < Size q \<Longrightarrow> \<exists>q'. Remove idx q = Inr q' \<and> queue_inv q'"
    using Remove_result [OF assms _ _ c] inv by (simp add: Size_def)
qed

section \<open>Properties\<close>

text \<open>
  The queue never panics: the index invariant holds initially and is kept by every operation,
  under it \<open>Current\<close> always returns, and the two operations that can panic do not: \<open>Shuffle\<close>
  always returns, \<open>Remove\<close> returns for every index in range (the guard the device checks).
\<close>

lemma queue_invariant:
  assumes "queue_inv q"
  shows "queue_inv NewQueue \<and> (\<exists>c. Current q = Inr c) \<and> queue_inv (Clear q) \<and> queue_inv (Set items q) \<and>
    queue_inv (Add items q) \<and> queue_inv (SetIndex idx q) \<and> queue_inv (IncreaseIndex q) \<and>
    (\<exists>q'. Shuffle perm q = Inr q' \<and> queue_inv q') \<and>
    (0 \<le> idx \<and> idx < Size q \<longrightarrow> (\<exists>q'. Remove idx q = Inr q' \<and> queue_inv q'))"
  using assms queue_total [OF assms] Current_total [OF assms] by (simp add: queue_inv_ops)

definition track :: "string \<Rightarrow> MediaFile" where
  "track i = zero_MediaFile\<lparr>mf_ID := i\<rparr>"

lemma queue_invariant_witness:
  "queue_inv \<lparr>q_Index = 1, q_Items = [track ''a'', track ''b'']\<rparr> \<and>
   (\<exists>q'. Remove 0 \<lparr>q_Index = 1, q_Items = [track ''a'', track ''b'']\<rparr> = Inr q' \<and> queue_inv q')"
proof -
  have i: "queue_inv \<lparr>q_Index = 1, q_Items = [track ''a'', track ''b'']\<rparr>"
    by (simp add: queue_inv_def q_len_def)
  from queue_invariant [OF i, of _ 0] i show ?thesis by (auto simp: Size_def q_len_def)
qed

text \<open>
  Removing a track takes out exactly that position and keeps the current track: when the ids
  in the queue are distinct, the current track is unchanged unless it is the one removed, in which
  case there is no current track.
\<close>

lemma Remove_keeps_current:
  assumes "queue_inv q" "0 \<le> idx" "idx < q_len q" "Current q = Inr (Some mf)"
    and "distinct (map mf_ID (q_Items q))"
  shows "\<exists>q'. Remove idx q = Inr q' \<and> q_Items q' = remove_at (nat idx) (q_Items q) \<and>
    add_mset (q_Items q ! nat idx) (mset (q_Items q')) = mset (q_Items q) \<and>
    Current q' = Inr (if q_Index q = idx then None else Some mf)"
proof -
  let ?xs = "q_Items q" and ?i = "nat idx"
  let ?q1 = "q\<lparr>q_Items := remove_at ?i ?xs\<rparr>"
  from assms(2,3) have i: "?i < length ?xs" by (simp add: q_len_def)
  from Current_Some [OF assms(4)] have mf: "mf = ?xs ! nat (q_Index q)" "0 \<le> q_Index q"
    "nat (q_Index q) < length ?xs" "mf \<in> set ?xs" by (auto simp: q_len_def)
  have d: "distinct ?xs" using assms(5) by (simp add: distinct_map)
  have set1: "set (remove_at ?i ?xs) = set ?xs - {?xs ! ?i}" by (rule set_remove_at_distinct [OF d i])
  have same: "m = mf" if "m \<in> set ?xs" "mf_ID m = mf_ID mf" for m
    using that mf(4) assms(5) by (auto simp: distinct_map inj_on_def)
  have removed: "mf = ?xs ! ?i \<longleftrightarrow> q_Index q = idx"
    using d i mf assms(2) by (auto simp: nth_eq_iff_index_eq nat_eq_iff)
  have "Current (?q1\<lparr>q_Index := fst (getMediaFileIndexByID (mf_ID mf) ?q1)\<rparr>) =
      Inr (if q_Index q = idx then None else Some mf)"
  proof (cases "q_Index q = idx")
    case True
    then have "\<forall>m \<in> set (remove_at ?i ?xs). mf_ID m \<noteq> mf_ID mf"
      using same removed set1 by auto
    then show ?thesis using True
      by (simp add: getMediaFileIndexByID_def find_index_None [THEN iffD2] Current_def)
  next
    case False
    then have "mf \<in> set (remove_at ?i ?xs)" using set1 removed mf(4) by auto
    with False show ?thesis using Current_by_id [of mf ?q1] same set1 by auto
  qed
  then show ?thesis
    using Remove_result [OF assms(1-4)] mset_remove_at [OF i] by (simp add: backup_id_def)
qed

definition three_tracks :: Queue where
  "three_tracks = \<lparr>q_Index = 1, q_Items = [track ''a'', track ''b'', track ''c'']\<rparr>"

lemma three_tracks_facts:
  "queue_inv three_tracks" "Current three_tracks = Inr (Some (track ''b''))"
  "distinct (map mf_ID (q_Items three_tracks))" "q_len three_tracks = 3"
  by (simp_all add: three_tracks_def queue_inv_def q_len_def Current_def track_def)

theorem Remove_keeps_current_witness:
  "\<exists>q'. Remove 0 three_tracks = Inr q' \<and> Current q' = Inr (Some (track ''b''))"
proof -
  have "q_Index three_tracks \<noteq> 0" "(0::int) < q_len three_tracks"
    by (simp_all add: three_tracks_def q_len_def)
  then show ?thesis
    using Remove_keeps_current [OF three_tracks_facts(1) order_refl _ three_tracks_facts(2,3)] by auto
qed

text \<open>
  Shuffling keeps the current track, whatever permutation is drawn: the items are the same
  multiset and, ids being distinct, the track at the index is the one that was there before.
\<close>

lemma Shuffle_keeps_current:
  assumes "queue_inv q" "Current q = Inr (Some mf)" "distinct (map mf_ID (q_Items q))"
    and "mset (perm (q_Items q)) = mset (q_Items q)"
  shows "\<exists>q'. Shuffle perm q = Inr q' \<and> mset (q_Items q') = mset (q_Items q) \<and>
    Current q' = Inr (Some mf)"
proof -
  let ?q1 = "q\<lparr>q_Items := perm (q_Items q)\<rparr>"
  from assms(4) have set1: "set (perm (q_Items q)) = set (q_Items q)" by (rule mset_eq_setD)
  from Current_Some [OF assms(2)] have mf: "mf \<in> set (q_Items q)" by blast
  then obtain mf' where "Current (?q1\<lparr>q_Index := fst (getMediaFileIndexByID (mf_ID mf) ?q1)\<rparr>) = Inr (Some mf')"
    "mf_ID mf' = mf_ID mf" "mf' \<in> set (q_Items q)"
    using Current_by_id [of mf ?q1] set1 by auto
  moreover from this have "mf' = mf" using mf assms(3) by (auto simp: distinct_map inj_on_def)
  ultimately show ?thesis using Shuffle_result [OF assms(1,2), of perm] assms(4)
    by (simp add: backup_id_def)
qed

lemma Shuffle_keeps_current_witness:
  "\<exists>q'. Shuffle rev three_tracks = Inr q' \<and> Current q' = Inr (Some (track ''b''))"
  using Shuffle_keeps_current [OF three_tracks_facts(1-3), of rev] by auto

text \<open>
  The position is restored by id, so with a track queued twice the hypothesis on the ids cannot be
  dropped: removing another position moves the current position back to the first occurrence.
\<close>

lemma Remove_duplicate_jumps:
  "Remove 3 \<lparr>q_Index = 2, q_Items = [track ''a'', track ''b'', track ''a'', track ''c'']\<rparr> =
   Inr \<lparr>q_Index = 0, q_Items = [track ''a'', track ''b'', track ''a'']\<rparr>"
  by code_simp

end
