(* ===== verification/Playback_Device.thy ===== *)
theory Playback_Device
  imports Playback_Queue Utils_Req
begin

text \<open>
  \<open>core/playback/device.go\<close>, \<open>core/playback/playbackserver.go\<close> and the request handler
  \<open>server/subsonic/jukebox.go\<close>: the jukebox devices, their handlers and the track switcher.

  A track is a running mpv process, reached through the interface \<open>Track\<close>: its operations are a
  record of functions on an abstract track state \<open>'trk\<close>, and \<open>mpv.NewTrack\<close> is the function that
  loads one. Two ghost counters record how many tracks were loaded and how many were closed. A
  handler returns its status, its error (\<open>None\<close> for nil) and the updated device; a panic is
  \<open>Inl\<close>. Handlers and the track switcher are atomic steps here, as they would be under a lock: the
  code has none, so a data race between them is outside this model.
\<close>

section \<open>Tracks and devices\<close>

record 'trk TrackOps =
  trk_IsPlaying :: "'trk \<Rightarrow> bool"
  trk_SetVolume :: "float32 \<Rightarrow> 'trk \<Rightarrow> 'trk"
  trk_Pause :: "'trk \<Rightarrow> 'trk"
  trk_Unpause :: "'trk \<Rightarrow> 'trk"
  trk_Position :: "'trk \<Rightarrow> go_int"
  trk_SetPosition :: "go_int \<Rightarrow> 'trk \<Rightarrow> string option \<times> 'trk"
  trk_NewTrack :: "string \<Rightarrow> MediaFile \<Rightarrow> string + 'trk"

record 'trk playbackDevice =
  pd_Default :: bool
  pd_User :: string
  pd_Name :: string
  pd_DeviceName :: string
  pd_PlaybackQueue :: Queue
  pd_Gain :: float32
  pd_ActiveTrack :: "'trk option"
  pd_switcher :: bool \<comment> \<open>\<open>startTrackSwitcher\<close> has run: the goroutine is listening\<close>
  pd_opened :: nat \<comment> \<open>ghost: tracks loaded\<close>
  pd_closed :: nat \<comment> \<open>ghost: tracks closed\<close>

record DeviceStatus =
  ds_CurrentIndex :: go_int
  ds_Playing :: bool
  ds_Gain :: float32
  ds_Position :: go_int

datatype dev_error = NoCurrentTrack | TrackError string | MediaFileError string

definition DefaultGain :: float32 where
  "DefaultGain = 0x3F800000"

definition zero_DeviceStatus :: DeviceStatus where
  "zero_DeviceStatus = \<lparr>ds_CurrentIndex = 0, ds_Playing = False, ds_Gain = 0, ds_Position = 0\<rparr>"

definition NewPlaybackDevice :: "string \<Rightarrow> string \<Rightarrow> 'trk playbackDevice" where
  "NewPlaybackDevice name deviceName =
     \<lparr>pd_Default = False, pd_User = [], pd_Name = name, pd_DeviceName = deviceName,
      pd_PlaybackQueue = NewQueue, pd_Gain = DefaultGain, pd_ActiveTrack = None,
      pd_switcher = False, pd_opened = 0, pd_closed = 0\<rparr>"

definition isPlaying :: "'trk TrackOps \<Rightarrow> 'trk playbackDevice \<Rightarrow> bool" where
  "isPlaying ops pd = (case pd_ActiveTrack pd of None \<Rightarrow> False | Some t \<Rightarrow> trk_IsPlaying ops t)"

definition getStatus :: "'trk TrackOps \<Rightarrow> 'trk playbackDevice \<Rightarrow> DeviceStatus" where
  "getStatus ops pd =
     \<lparr>ds_CurrentIndex = q_Index (pd_PlaybackQueue pd), ds_Playing = isPlaying ops pd,
      ds_Gain = pd_Gain pd,
      ds_Position = (case pd_ActiveTrack pd of None \<Rightarrow> 0 | Some t \<Rightarrow> trk_Position ops t)\<rparr>"

type_synonym 'trk reply = "go_panic + DeviceStatus \<times> dev_error option \<times> 'trk playbackDevice"

text \<open>\<open>return pd.getStatus(), err\<close>.\<close>

definition reply :: "'trk TrackOps \<Rightarrow> dev_error option \<Rightarrow> 'trk playbackDevice \<Rightarrow> 'trk reply" where
  "reply ops err pd = Inr (getStatus ops pd, err, pd)"

text \<open>\<open>pd.ActiveTrack.Close(); pd.ActiveTrack = nil\<close>.\<close>

definition close_active :: "'trk playbackDevice \<Rightarrow> 'trk playbackDevice" where
  "close_active pd = pd\<lparr>pd_ActiveTrack := None, pd_closed := Suc (pd_closed pd)\<rparr>"

section \<open>Handlers\<close>

definition switchActiveTrackByIndex ::
  "'trk TrackOps \<Rightarrow> go_int \<Rightarrow> 'trk playbackDevice \<Rightarrow> go_panic + dev_error option \<times> 'trk playbackDevice" where
  "switchActiveTrackByIndex ops index pd =
     (let pd1 = pd\<lparr>pd_PlaybackQueue := SetIndex index (pd_PlaybackQueue pd)\<rparr>
      in bind_result (Current (pd_PlaybackQueue pd1)) (\<lambda>currentTrack.
           case currentTrack of
             None \<Rightarrow> Inr (Some NoCurrentTrack, pd1)
           | Some mf \<Rightarrow>
               (case trk_NewTrack ops (pd_DeviceName pd1) mf of
                  Inl e \<Rightarrow> Inr (Some (TrackError e), pd1)
                | Inr t \<Rightarrow> Inr (None, pd1\<lparr>pd_ActiveTrack := Some (trk_SetVolume ops (pd_Gain pd1) t),
                                       pd_opened := Suc (pd_opened pd1)\<rparr>))))"

definition pd_Get :: "'trk TrackOps \<Rightarrow> 'trk playbackDevice \<Rightarrow> MediaFiles \<times> DeviceStatus" where
  "pd_Get ops pd = (Get (pd_PlaybackQueue pd), getStatus ops pd)"

definition pd_Status :: "'trk TrackOps \<Rightarrow> 'trk playbackDevice \<Rightarrow> 'trk reply" where
  "pd_Status ops pd = reply ops None pd"

definition pd_Start :: "'trk TrackOps \<Rightarrow> 'trk playbackDevice \<Rightarrow> 'trk reply" where
  "pd_Start ops pd =
     (let pd0 = pd\<lparr>pd_switcher := True\<rparr>
      in case pd_ActiveTrack pd0 of
           Some t \<Rightarrow>
             if isPlaying ops pd0 then reply ops None pd0
             else reply ops None (pd0\<lparr>pd_ActiveTrack := Some (trk_Unpause ops t)\<rparr>)
         | None \<Rightarrow>
             if \<not> IsEmpty (pd_PlaybackQueue pd0)
             then bind_result (switchActiveTrackByIndex ops (q_Index (pd_PlaybackQueue pd0)) pd0)
                    (\<lambda>(err, pd1).
                       case err of
                         Some e \<Rightarrow> reply ops (Some e) pd1
                       | None \<Rightarrow>
                           (case pd_ActiveTrack pd1 of
                              None \<Rightarrow> Inl NilDereference
                            | Some t \<Rightarrow> reply ops None (pd1\<lparr>pd_ActiveTrack := Some (trk_Unpause ops t)\<rparr>)))
             else reply ops None pd0)"

definition pd_Stop :: "'trk TrackOps \<Rightarrow> 'trk playbackDevice \<Rightarrow> 'trk reply" where
  "pd_Stop ops pd = reply ops None (pd\<lparr>pd_ActiveTrack := map_option (trk_Pause ops) (pd_ActiveTrack pd)\<rparr>)"

definition pd_Skip :: "'trk TrackOps \<Rightarrow> go_int \<Rightarrow> go_int \<Rightarrow> 'trk playbackDevice \<Rightarrow> 'trk reply" where
  "pd_Skip ops index offset pd =
     (let wasPlaying = isPlaying ops pd;
          pd1 = (case pd_ActiveTrack pd of
                   Some t \<Rightarrow> if wasPlaying then pd\<lparr>pd_ActiveTrack := Some (trk_Pause ops t)\<rparr> else pd
                 | None \<Rightarrow> pd);
          pd2 = (if index \<noteq> q_Index (pd_PlaybackQueue pd1) \<and> pd_ActiveTrack pd1 \<noteq> None
                 then close_active pd1 else pd1)
      in bind_result
           (if pd_ActiveTrack pd2 = None then switchActiveTrackByIndex ops index pd2 else Inr (None, pd2))
           (\<lambda>(err, pd3).
              case err of
                Some e \<Rightarrow> reply ops (Some e) pd3
              | None \<Rightarrow>
                  (case pd_ActiveTrack pd3 of
                     None \<Rightarrow> Inl NilDereference
                   | Some t \<Rightarrow>
                       (case trk_SetPosition ops offset t of
                          (Some e, t') \<Rightarrow> reply ops (Some (TrackError e)) (pd3\<lparr>pd_ActiveTrack := Some t'\<rparr>)
                        | (None, t') \<Rightarrow>
                            let pd4 = pd3\<lparr>pd_ActiveTrack := Some t'\<rparr>
                            in if wasPlaying
                               then bind_result (pd_Start ops pd4) (\<lambda>(_, err, pd5). reply ops err pd5)
                               else reply ops None pd4))))"

fun load_items :: "(string \<Rightarrow> string + MediaFile) \<Rightarrow> string list \<Rightarrow> string + MediaFiles" where
  "load_items GetMediaFile [] = Inr []"
| "load_items GetMediaFile (i # ids) =
     bind_result (GetMediaFile i) (\<lambda>mf.
       bind_result (load_items GetMediaFile ids) (\<lambda>mfs. Inr (mf # mfs)))"

definition pd_Add ::
  "'trk TrackOps \<Rightarrow> (string \<Rightarrow> string + MediaFile) \<Rightarrow> string list \<Rightarrow> 'trk playbackDevice \<Rightarrow> 'trk reply" where
  "pd_Add ops GetMediaFile ids pd =
     (if length ids < 1 then reply ops None pd
      else case load_items GetMediaFile ids of
             Inl e \<Rightarrow> Inr (zero_DeviceStatus, Some (MediaFileError e), pd)
           | Inr items \<Rightarrow> reply ops None (pd\<lparr>pd_PlaybackQueue := Add items (pd_PlaybackQueue pd)\<rparr>))"

definition pd_Clear :: "'trk TrackOps \<Rightarrow> 'trk playbackDevice \<Rightarrow> 'trk reply" where
  "pd_Clear ops pd =
     (let pd1 = (case pd_ActiveTrack pd of
                   Some t \<Rightarrow> close_active (pd\<lparr>pd_ActiveTrack := Some (trk_Pause ops t)\<rparr>)
                 | None \<Rightarrow> pd)
      in reply ops None (pd1\<lparr>pd_PlaybackQueue := Clear (pd_PlaybackQueue pd1)\<rparr>))"

definition pd_Set ::
  "'trk TrackOps \<Rightarrow> (string \<Rightarrow> string + MediaFile) \<Rightarrow> string list \<Rightarrow> 'trk playbackDevice \<Rightarrow> 'trk reply" where
  "pd_Set ops GetMediaFile ids pd =
     bind_result (pd_Clear ops pd) (\<lambda>(_, err, pd1).
       if err \<noteq> None then reply ops err pd1 else pd_Add ops GetMediaFile ids pd1)"

definition pd_Remove :: "'trk TrackOps \<Rightarrow> go_int \<Rightarrow> 'trk playbackDevice \<Rightarrow> 'trk reply" where
  "pd_Remove ops index pd =
     bind_result
       (if isPlaying ops pd \<and> q_Index (pd_PlaybackQueue pd) = index then pd_Stop ops pd
        else reply ops None pd)
       (\<lambda>(_, err, pd1).
          if err \<noteq> None then reply ops err pd1
          else if index > -1 \<and> index < Size (pd_PlaybackQueue pd1)
          then bind_result (Remove index (pd_PlaybackQueue pd1)) (\<lambda>q.
                 reply ops None (pd1\<lparr>pd_PlaybackQueue := q\<rparr>))
          else reply ops None pd1)"

definition pd_Shuffle ::
  "'trk TrackOps \<Rightarrow> (MediaFiles \<Rightarrow> MediaFiles) \<Rightarrow> 'trk playbackDevice \<Rightarrow> 'trk reply" where
  "pd_Shuffle ops perm pd =
     (if Size (pd_PlaybackQueue pd) > 1
      then bind_result (Shuffle perm (pd_PlaybackQueue pd)) (\<lambda>q.
             reply ops None (pd\<lparr>pd_PlaybackQueue := q\<rparr>))
      else reply ops None pd)"

definition pd_SetGain :: "'trk TrackOps \<Rightarrow> float32 \<Rightarrow> 'trk playbackDevice \<Rightarrow> 'trk reply" where
  "pd_SetGain ops gain pd =
     reply ops None (pd\<lparr>pd_ActiveTrack := map_option (trk_SetVolume ops gain) (pd_ActiveTrack pd),
                       pd_Gain := gain\<rparr>)"

text \<open>One turn of the \<open>PlaybackDone\<close> case of \<open>trackSwitcherGoroutine\<close>; the error is only logged.\<close>

definition track_done ::
  "'trk TrackOps \<Rightarrow> 'trk playbackDevice \<Rightarrow> go_panic + 'trk playbackDevice" where
  "track_done ops pd =
     (let pd1 = (if pd_ActiveTrack pd \<noteq> None then close_active pd else pd)
      in if \<not> IsAtLastElement (pd_PlaybackQueue pd1)
         then let pd2 = pd1\<lparr>pd_PlaybackQueue := IncreaseIndex (pd_PlaybackQueue pd1)\<rparr>
              in bind_result (switchActiveTrackByIndex ops (q_Index (pd_PlaybackQueue pd2)) pd2)
                   (\<lambda>(_, pd3). Inr (pd3\<lparr>pd_ActiveTrack := map_option (trk_Unpause ops) (pd_ActiveTrack pd3)\<rparr>))
         else Inr pd1)"

section \<open>Playback server\<close>

datatype server_error = DeviceFields nat | NoDefaultGiven nat | DefaultNotFound string | NoDefaultDevice

fun init_devices :: "string \<Rightarrow> string list list \<Rightarrow> server_error + 'trk playbackDevice list" where
  "init_devices defaultDevice [] = Inr []"
| "init_devices defaultDevice (audioDevice # devices) =
     (if length audioDevice \<noteq> 2 then Inl (DeviceFields (length audioDevice))
      else
        let d = NewPlaybackDevice (audioDevice ! 0) (audioDevice ! 1)
        in bind_result (init_devices defaultDevice devices) (\<lambda>ds.
             Inr (d\<lparr>pd_Default := (audioDevice ! 0 = defaultDevice)\<rparr> # ds)))"

definition initDeviceStatus ::
  "string list list \<Rightarrow> string \<Rightarrow> server_error + 'trk playbackDevice list" where
  "initDeviceStatus devices defaultDevice =
     (if defaultDevice = [] then
        (case devices of
           [] \<Rightarrow> Inr [(NewPlaybackDevice ''auto'' ''auto'')\<lparr>pd_Default := True\<rparr>]
         | [d] \<Rightarrow>
             if length d \<noteq> 2 then Inl (DeviceFields (length d))
             else Inr [(NewPlaybackDevice (d ! 0) (d ! 1))\<lparr>pd_Default := True\<rparr>]
         | _ \<Rightarrow> Inl (NoDefaultGiven (length devices)))
      else
        bind_result (init_devices defaultDevice devices) (\<lambda>pbDevices.
          if list_ex pd_Default pbDevices then Inr pbDevices else Inl (DefaultNotFound defaultDevice)))"

definition getDefaultDevice :: "'trk playbackDevice list \<Rightarrow> server_error + nat" where
  "getDefaultDevice ds = (case find_index pd_Default ds of None \<Rightarrow> Inl NoDefaultDevice | Some i \<Rightarrow> Inr i)"

text \<open>The device is returned by reference: its position in the list of devices.\<close>

definition GetDeviceForUser ::
  "string \<Rightarrow> 'trk playbackDevice list \<Rightarrow> server_error + nat \<times> 'trk playbackDevice list" where
  "GetDeviceForUser user ds =
     bind_result (getDefaultDevice ds) (\<lambda>i. Inr (i, ds[i := (ds ! i)\<lparr>pd_User := user\<rparr>]))"

end
