(* ===== verification/Playback_Jukebox.thy ===== *)
theory Playback_Jukebox
  imports Playback_Device Subsonic_Response
begin

text \<open>
  \<open>server/subsonic/jukebox.go\<close>: the request handler of the jukebox, over the devices of
  \<open>Playback_Device\<close>; and the safety of the whole jukebox, from the server's start through any
  sequence of requests, track ends and changes in the running track.
\<close>

section \<open>Request handler\<close>

datatype jukebox_error =
  SubError subsonic_code string | ParamError param_error | DeviceError dev_error | ServerError server_error

record JukeboxStatus =
  js_CurrentIndex :: go_int
  js_Playing :: bool
  js_Gain :: float32
  js_Position :: go_int

datatype 'c jukebox_response = StatusResponse JukeboxStatus | PlaylistResponse JukeboxStatus "'c list"

definition deviceStatusToJukeboxStatus :: "DeviceStatus \<Rightarrow> JukeboxStatus" where
  "deviceStatusToJukeboxStatus status =
     \<lparr>js_CurrentIndex = int32_of (ds_CurrentIndex status), js_Playing = ds_Playing status,
      js_Gain = ds_Gain status, js_Position = int32_of (ds_Position status)\<rparr>"

definition createResponse :: "DeviceStatus \<Rightarrow> dev_error option \<Rightarrow> jukebox_error + 'c jukebox_response" where
  "createResponse status err =
     (case err of Some e \<Rightarrow> Inl (DeviceError e)
      | None \<Rightarrow> Inr (StatusResponse (deviceStatusToJukeboxStatus status)))"

text \<open>
  What the handler reaches outside itself: the configuration, the data store's \<open>GetMediaFile\<close>, the
  permutation that \<open>rand.Shuffle\<close> draws, \<open>strconv.ParseFloat\<close> at 32 bits, and the conversion of a
  media file into a response entry.
\<close>

record ('trk, 'c) JukeboxEnv =
  jb_Enabled :: bool
  jb_AdminOnly :: bool
  jb_ops :: "'trk TrackOps"
  jb_GetMediaFile :: "string \<Rightarrow> string + MediaFile"
  jb_perm :: "MediaFiles \<Rightarrow> MediaFiles"
  jb_ParseFloat32 :: "string \<Rightarrow> float32 option"
  jb_childFromMediaFile :: "MediaFile \<Rightarrow> 'c"

record JukeboxUser =
  ju_UserName :: string
  ju_IsAdmin :: bool

type_synonym ('trk, 'c) jukebox_result =
  "go_panic + (jukebox_error + 'c jukebox_response) \<times> 'trk playbackDevice"

definition respond :: "'trk reply \<Rightarrow> ('trk, 'c) jukebox_result" where
  "respond r = bind_result r (\<lambda>(status, err, pd). Inr (createResponse status err, pd))"

definition jukebox_action ::
  "('trk, 'c) JukeboxEnv \<Rightarrow> Values \<Rightarrow> string \<Rightarrow> 'trk playbackDevice \<Rightarrow> ('trk, 'c) jukebox_result" where
  "jukebox_action env p actionString pb =
     (let ops = jb_ops env
      in if actionString = ''get'' then
           (case pd_Get ops pb of (mediafiles, status) \<Rightarrow>
              Inr (Inr (PlaylistResponse (deviceStatusToJukeboxStatus status)
                          (map (jb_childFromMediaFile env) mediafiles)), pb))
         else if actionString = ''status'' then respond (pd_Status ops pb)
         else if actionString = ''set'' then
           respond (pd_Set ops (jb_GetMediaFile env) (Strings p ''id'') pb)
         else if actionString = ''start'' then respond (pd_Start ops pb)
         else if actionString = ''stop'' then respond (pd_Stop ops pb)
         else if actionString = ''skip'' then
           (case req_Int p ''index'' of
              Inl _ \<Rightarrow> Inr (Inl (SubError ErrorMissingParameter ''missing parameter index''), pb)
            | Inr index \<Rightarrow> respond (pd_Skip ops index (IntOr p ''offset'' 0) pb))
         else if actionString = ''add'' then
           respond (pd_Add ops (jb_GetMediaFile env) (Strings p ''id'') pb)
         else if actionString = ''clear'' then respond (pd_Clear ops pb)
         else if actionString = ''remove'' then
           (case req_Int p ''index'' of
              Inl e \<Rightarrow> Inr (Inl (ParamError e), pb)
            | Inr index \<Rightarrow> respond (pd_Remove ops index pb))
         else if actionString = ''shuffle'' then respond (pd_Shuffle ops (jb_perm env) pb)
         else if actionString = ''setGain'' then
           (case req_String p ''gain'' of
              Inl _ \<Rightarrow> Inr (Inl (SubError ErrorMissingParameter ''missing parameter gain''), pb)
            | Inr gainStr \<Rightarrow>
                (case jb_ParseFloat32 env gainStr of
                   None \<Rightarrow> Inr (Inl (SubError ErrorMissingParameter ''error parsing gain float value''), pb)
                 | Some gain \<Rightarrow> respond (pd_SetGain ops gain pb)))
         else Inr (Inl (SubError ErrorMissingParameter (''Unknown action: '' @ actionString)), pb))"

definition JukeboxControl ::
  "('trk, 'c) JukeboxEnv \<Rightarrow> JukeboxUser \<Rightarrow> Values \<Rightarrow> 'trk playbackDevice list \<Rightarrow>
   go_panic + (jukebox_error + 'c jukebox_response) \<times> 'trk playbackDevice list" where
  "JukeboxControl env user p ds =
     (if \<not> jb_Enabled env then Inr (Inl (SubError ErrorGeneric ''Jukebox is disabled''), ds)
      else if jb_AdminOnly env \<and> \<not> ju_IsAdmin user
      then Inr (Inl (SubError ErrorAuthorizationFail ''Jukebox is admin only''), ds)
      else case req_String p ''action'' of
        Inl e \<Rightarrow> Inr (Inl (ParamError e), ds)
      | Inr actionString \<Rightarrow>
          (case GetDeviceForUser (ju_UserName user) ds of
             Inl e \<Rightarrow> Inr (Inl (ServerError e), ds)
           | Inr (i, ds1) \<Rightarrow>
               bind_result (jukebox_action env p actionString (ds1 ! i)) (\<lambda>(r, pb).
                 Inr (r, ds1[i := pb]))))"

section \<open>Invariant of a device\<close>

text \<open>The queue's invariant, and every track loaded is either the active one or closed.\<close>

definition device_inv :: "'trk playbackDevice \<Rightarrow> bool" where
  "device_inv pd \<longleftrightarrow> queue_inv (pd_PlaybackQueue pd) \<and>
     pd_opened pd = pd_closed pd + (if pd_ActiveTrack pd = None then 0 else 1)"

text \<open>A handler that returns, with a device that satisfies the invariant; on the default device it
  touches neither the default flag nor the names.\<close>

definition same_identity :: "'trk playbackDevice \<Rightarrow> 'trk playbackDevice \<Rightarrow> bool" where
  "same_identity pd pd' \<longleftrightarrow> pd_Default pd' = pd_Default pd \<and> pd_Name pd' = pd_Name pd \<and>
     pd_DeviceName pd' = pd_DeviceName pd"

definition keeps :: "'trk playbackDevice \<Rightarrow> go_panic + 'x \<times> 'trk playbackDevice \<Rightarrow> bool" where
  "keeps pd r \<longleftrightarrow> (\<exists>x pd'. r = Inr (x, pd') \<and> device_inv pd' \<and> same_identity pd pd')"

definition keeps_reply :: "'trk playbackDevice \<Rightarrow> 'trk reply \<Rightarrow> bool" where
  "keeps_reply pd r \<longleftrightarrow> (\<exists>st err pd'. r = Inr (st, err, pd') \<and> device_inv pd' \<and> same_identity pd pd')"

lemma keeps_Inr [simp]: "keeps pd (Inr (x, pd')) \<longleftrightarrow> device_inv pd' \<and> same_identity pd pd'"
  by (auto simp: keeps_def)

lemma keeps_reply_Inr [simp]:
  "keeps_reply pd (Inr (st, err, pd')) \<longleftrightarrow> device_inv pd' \<and> same_identity pd pd'"
  "keeps_reply pd (reply ops err pd') \<longleftrightarrow> device_inv pd' \<and> same_identity pd pd'"
  by (auto simp: keeps_reply_def reply_def)

lemma keeps_respond: "keeps_reply pd r \<Longrightarrow> keeps pd (respond r)"
  by (auto simp: keeps_reply_def respond_def)

lemma keeps_trans: "same_identity pd pd' \<Longrightarrow> keeps_reply pd' r \<Longrightarrow> keeps_reply pd r"
  by (auto simp: keeps_reply_def same_identity_def)

lemma device_inv_simps [simp]:
  "device_inv (pd\<lparr>pd_switcher := b\<rparr>) = device_inv pd"
  "device_inv (pd\<lparr>pd_User := u\<rparr>) = device_inv pd"
  "device_inv (pd\<lparr>pd_Gain := g\<rparr>) = device_inv pd"
  "device_inv (pd\<lparr>pd_Default := b\<rparr>) = device_inv pd"
  "device_inv (pd\<lparr>pd_ActiveTrack := map_option f (pd_ActiveTrack pd)\<rparr>) = device_inv pd"
  by (auto simp: device_inv_def)

lemma device_inv_active [simp]:
  "pd_ActiveTrack pd = Some t \<Longrightarrow> device_inv (pd\<lparr>pd_ActiveTrack := Some t'\<rparr>) = device_inv pd"
  by (auto simp: device_inv_def)

lemma device_inv_queue: "device_inv pd \<Longrightarrow> queue_inv q \<Longrightarrow> device_inv (pd\<lparr>pd_PlaybackQueue := q\<rparr>)"
  by (auto simp: device_inv_def)

lemma device_inv_queue_inv: "device_inv pd \<Longrightarrow> queue_inv (pd_PlaybackQueue pd)"
  by (simp add: device_inv_def)

lemma device_inv_close: "pd_ActiveTrack pd \<noteq> None \<Longrightarrow> device_inv pd \<Longrightarrow> device_inv (close_active pd)"
  by (auto simp: device_inv_def close_active_def)

lemma close_active_simps [simp]:
  "pd_ActiveTrack (close_active pd) = None" "pd_PlaybackQueue (close_active pd) = pd_PlaybackQueue pd"
  "same_identity pd' (close_active pd) = same_identity pd' pd"
  by (auto simp: close_active_def same_identity_def)

lemma same_identity_simps [simp]:
  "same_identity pd pd"
  "same_identity pd (pd'\<lparr>pd_switcher := b\<rparr>) = same_identity pd pd'"
  "same_identity pd (pd'\<lparr>pd_User := u\<rparr>) = same_identity pd pd'"
  "same_identity pd (pd'\<lparr>pd_Gain := g\<rparr>) = same_identity pd pd'"
  "same_identity pd (pd'\<lparr>pd_ActiveTrack := t\<rparr>) = same_identity pd pd'"
  "same_identity pd (pd'\<lparr>pd_PlaybackQueue := q\<rparr>) = same_identity pd pd'"
  "same_identity pd (pd'\<lparr>pd_opened := n\<rparr>) = same_identity pd pd'"
  by (auto simp: same_identity_def)

section \<open>Every handler keeps the invariant\<close>

text \<open>Switching is only called with no active track; when it reports no error there is one.\<close>

lemma switchActiveTrackByIndex_keeps:
  assumes "device_inv pd" "pd_ActiveTrack pd = None"
  shows "\<exists>err pd'. switchActiveTrackByIndex ops index pd = Inr (err, pd') \<and> device_inv pd' \<and>
    same_identity pd pd' \<and> (err = None) = (pd_ActiveTrack pd' \<noteq> None) \<and>
    pd_PlaybackQueue pd' = SetIndex index (pd_PlaybackQueue pd)"
proof -
  let ?q = "SetIndex index (pd_PlaybackQueue pd)"
  obtain c where c: "Current ?q = Inr c" using Current_total queue_inv_ops(5) by blast
  show ?thesis
  proof (cases c)
    case None
    with c assms show ?thesis
      by (simp add: switchActiveTrackByIndex_def device_inv_queue queue_inv_ops)
  next
    case (Some mf)
    with c assms show ?thesis
      by (cases "trk_NewTrack ops (pd_DeviceName pd) mf")
         (auto simp: switchActiveTrackByIndex_def device_inv_def queue_inv_ops)
  qed
qed

lemma pd_Start_keeps: assumes "device_inv pd" shows "keeps_reply pd (pd_Start ops pd)"
proof (cases "pd_ActiveTrack pd")
  case None
  have "device_inv (pd\<lparr>pd_switcher := True\<rparr>)" using assms by simp
  from switchActiveTrackByIndex_keeps [OF this, of ops "q_Index (pd_PlaybackQueue pd)"] None assms
  show ?thesis by (auto simp: pd_Start_def same_identity_def Let_def split: option.splits)
next
  case (Some t)
  then have "device_inv (pd\<lparr>pd_switcher := True, pd_ActiveTrack := Some (trk_Unpause ops t)\<rparr>)"
    using assms by (simp add: device_inv_def)
  with assms Some show ?thesis by (simp add: pd_Start_def Let_def)
qed

lemma pd_Add_keeps: "device_inv pd \<Longrightarrow> keeps_reply pd (pd_Add ops g ids pd)"
  by (auto simp: pd_Add_def device_inv_queue queue_inv_ops device_inv_queue_inv split: sum.splits)

lemma pd_Clear_keeps: "device_inv pd \<Longrightarrow> keeps_reply pd (pd_Clear ops pd)"
  by (auto simp: pd_Clear_def Let_def device_inv_queue queue_inv_ops device_inv_close
      split: option.splits)

lemma pd_Set_keeps: "device_inv pd \<Longrightarrow> keeps_reply pd (pd_Set ops g ids pd)"
  using pd_Clear_keeps [of pd ops] pd_Add_keeps [of _ ops g ids]
  by (fastforce simp: pd_Set_def keeps_reply_def [of pd "pd_Clear ops pd"] intro: keeps_trans)

lemma pd_Stop_keeps: "device_inv pd \<Longrightarrow> keeps_reply pd (pd_Stop ops pd)"
  by (simp add: pd_Stop_def)

lemma queue_Remove_keeps:
  "device_inv pd \<Longrightarrow> -1 < index \<Longrightarrow> index < Size (pd_PlaybackQueue pd) \<Longrightarrow>
   \<exists>q. Remove index (pd_PlaybackQueue pd) = Inr q \<and> queue_inv q"
  using queue_total(2) [OF device_inv_queue_inv, of pd index] by simp

lemma pd_Remove_keeps: "device_inv pd \<Longrightarrow> keeps_reply pd (pd_Remove ops index pd)"
  using queue_Remove_keeps [of pd index]
  by (auto simp: pd_Remove_def pd_Stop_def reply_def device_inv_queue)

lemma pd_Shuffle_keeps: "device_inv pd \<Longrightarrow> keeps_reply pd (pd_Shuffle ops perm pd)"
  using queue_total(1) [OF device_inv_queue_inv, of pd perm] by (auto simp: pd_Shuffle_def device_inv_queue)

lemma pd_SetGain_keeps: "device_inv pd \<Longrightarrow> keeps_reply pd (pd_SetGain ops gain pd)"
  by (simp add: pd_SetGain_def)

lemma pd_Skip_keeps:
  assumes "device_inv pd" shows "keeps_reply pd (pd_Skip ops index offset pd)"
proof -
  define pd1 where "pd1 = (case pd_ActiveTrack pd of
      Some t \<Rightarrow> if isPlaying ops pd then pd\<lparr>pd_ActiveTrack := Some (trk_Pause ops t)\<rparr> else pd | None \<Rightarrow> pd)"
  define pd2 where "pd2 = (if index \<noteq> q_Index (pd_PlaybackQueue pd1) \<and> pd_ActiveTrack pd1 \<noteq> None
      then close_active pd1 else pd1)"
  have pd1: "device_inv pd1" "same_identity pd pd1"
    using assms by (auto simp: pd1_def split: option.splits)
  then have pd2: "device_inv pd2" "same_identity pd pd2"
    by (auto simp: pd2_def device_inv_close)
  obtain err pd3 where pd3: "device_inv pd3" "same_identity pd pd3"
    and sw: "(if pd_ActiveTrack pd2 = None then switchActiveTrackByIndex ops index pd2 else Inr (None, pd2))
      = Inr (err, pd3)" and act: "err = None \<longrightarrow> pd_ActiveTrack pd3 \<noteq> None"
    using switchActiveTrackByIndex_keeps [OF pd2(1), of ops index] pd2
    by (cases "pd_ActiveTrack pd2 = None") (auto simp: same_identity_def)
  have start: "keeps_reply pd (bind_result (pd_Start ops pd4) (\<lambda>(_, err, pd5). reply ops err pd5))"
    if "device_inv pd4" "same_identity pd pd4" for pd4
    using keeps_trans [OF that(2) pd_Start_keeps [OF that(1), of ops]]
    by (auto simp: keeps_reply_def reply_def)
  have "pd_Skip ops index offset pd = (case err of
      Some e \<Rightarrow> reply ops (Some e) pd3
    | None \<Rightarrow> (case pd_ActiveTrack pd3 of None \<Rightarrow> Inl NilDereference | Some t \<Rightarrow>
        (case trk_SetPosition ops offset t of
           (Some e, t') \<Rightarrow> reply ops (Some (TrackError e)) (pd3\<lparr>pd_ActiveTrack := Some t'\<rparr>)
         | (None, t') \<Rightarrow> if isPlaying ops pd
             then bind_result (pd_Start ops (pd3\<lparr>pd_ActiveTrack := Some t'\<rparr>)) (\<lambda>(_, err, pd5). reply ops err pd5)
             else reply ops None (pd3\<lparr>pd_ActiveTrack := Some t'\<rparr>))))"
    unfolding pd_Skip_def Let_def pd1_def [symmetric] pd2_def [symmetric] sw by simp
  with pd3 act start show ?thesis by (auto split: option.splits prod.splits)
qed

lemma track_done_keeps:
  assumes "device_inv pd"
  shows "\<exists>pd'. track_done ops pd = Inr pd' \<and> device_inv pd' \<and> same_identity pd pd'"
proof -
  define pd1 where "pd1 = (if pd_ActiveTrack pd \<noteq> None then close_active pd else pd)"
  define pd2 where "pd2 = pd1\<lparr>pd_PlaybackQueue := IncreaseIndex (pd_PlaybackQueue pd1)\<rparr>"
  have pd1: "device_inv pd1" "same_identity pd pd1" "pd_ActiveTrack pd1 = None"
    using assms by (auto simp: pd1_def device_inv_close)
  then have pd2: "device_inv pd2" "same_identity pd pd2" "pd_ActiveTrack pd2 = None"
    by (auto simp: pd2_def device_inv_queue queue_inv_ops device_inv_queue_inv)
  have "track_done ops pd = (if \<not> IsAtLastElement (pd_PlaybackQueue pd1)
      then bind_result (switchActiveTrackByIndex ops (q_Index (pd_PlaybackQueue pd2)) pd2)
        (\<lambda>(_, pd3). Inr (pd3\<lparr>pd_ActiveTrack := map_option (trk_Unpause ops) (pd_ActiveTrack pd3)\<rparr>))
      else Inr pd1)"
    by (simp only: track_done_def Let_def pd1_def pd2_def)
  then show ?thesis
    using pd1 pd2 switchActiveTrackByIndex_keeps [OF pd2(1,3), of ops "q_Index (pd_PlaybackQueue pd2)"]
    by (auto simp: same_identity_def)
qed

lemmas handler_keeps = pd_Start_keeps pd_Add_keeps pd_Clear_keeps pd_Set_keeps pd_Stop_keeps
  pd_Remove_keeps pd_Shuffle_keeps pd_SetGain_keeps pd_Skip_keeps

lemma jukebox_action_keeps: "device_inv pb \<Longrightarrow> keeps pb (jukebox_action env p act pb)"
  unfolding jukebox_action_def Let_def pd_Get_def pd_Status_def
  by (auto simp: handler_keeps keeps_respond split: sum.splits option.splits)

section \<open>Runs of the jukebox\<close>

definition server_inv :: "'trk playbackDevice list \<Rightarrow> bool" where
  "server_inv ds \<longleftrightarrow> (\<forall>pd\<in>set ds. device_inv pd) \<and> (\<exists>pd\<in>set ds. pd_Default pd)"

text \<open>
  A step is a request (with any environment, user and parameters), the end of a track on a device
  whose switcher runs, or a change in the running track itself (its position, a pause from outside).
  The entries of a response, which no state depends on, are the media files themselves here.
\<close>

inductive jukebox_step :: "'trk playbackDevice list \<Rightarrow> 'trk playbackDevice list \<Rightarrow> bool" where
  step_request: "JukeboxControl (env :: ('trk, MediaFile) JukeboxEnv) user p ds = Inr (r, ds') \<Longrightarrow> jukebox_step ds ds'"
| step_done: "i < length ds \<Longrightarrow> pd_switcher (ds ! i) \<Longrightarrow> track_done ops (ds ! i) = Inr pd' \<Longrightarrow>
    jukebox_step ds (ds[i := pd'])"
| step_track: "i < length ds \<Longrightarrow> pd_ActiveTrack (ds ! i) = Some t \<Longrightarrow>
    jukebox_step ds (ds[i := (ds ! i)\<lparr>pd_ActiveTrack := Some t'\<rparr>])"

lemma server_inv_update:
  assumes "server_inv ds" "i < length ds" "device_inv pd'" "pd_Default pd' = pd_Default (ds ! i)"
  shows "server_inv (ds[i := pd'])"
proof -
  from assms(1) obtain k where k: "k < length ds" "pd_Default (ds ! k)"
    by (auto simp: server_inv_def in_set_conv_nth)
  have "pd_Default (ds[i := pd'] ! k)" using k assms(2,4) by (cases "i = k") simp_all
  then have "\<exists>pd\<in>set (ds[i := pd']). pd_Default pd" using k(1) by (metis length_list_update nth_mem)
  moreover have "\<forall>pd\<in>set (ds[i := pd']). device_inv pd"
    using assms(1,3) set_update_subset_insert [of ds i pd'] by (auto simp: server_inv_def)
  ultimately show ?thesis by (simp add: server_inv_def)
qed

lemma GetDeviceForUser_ok:
  assumes "server_inv ds"
  shows "\<exists>i. i < length ds \<and> GetDeviceForUser user ds = Inr (i, ds[i := (ds ! i)\<lparr>pd_User := user\<rparr>]) \<and>
    pd_Default (ds ! i) \<and> device_inv (ds ! i) \<and> server_inv (ds[i := (ds ! i)\<lparr>pd_User := user\<rparr>])"
proof -
  from assms have "find_index pd_Default ds \<noteq> None" by (auto simp: server_inv_def find_index_None)
  then obtain i where i: "find_index pd_Default ds = Some i" by blast
  from find_index_Some [OF i] have "i < length ds" "pd_Default (ds ! i)" by auto
  moreover from this assms have "device_inv (ds ! i)" by (simp add: server_inv_def)
  ultimately show ?thesis using i assms
    by (auto simp: GetDeviceForUser_def getDefaultDevice_def intro!: server_inv_update)
qed

lemma JukeboxControl_keeps:
  assumes "server_inv ds"
  shows "\<exists>r ds'. JukeboxControl env user p ds = Inr (r, ds') \<and> server_inv ds' \<and> length ds' = length ds"
proof -
  obtain i where i: "i < length ds" "GetDeviceForUser (ju_UserName user) ds =
      Inr (i, ds[i := (ds ! i)\<lparr>pd_User := ju_UserName user\<rparr>])" "device_inv (ds ! i)"
    "server_inv (ds[i := (ds ! i)\<lparr>pd_User := ju_UserName user\<rparr>])"
    using GetDeviceForUser_ok [OF assms] by blast
  have "\<exists>r ds'. bind_result (jukebox_action env p act ((ds ! i)\<lparr>pd_User := ju_UserName user\<rparr>))
      (\<lambda>(r, pb). Inr (r, ds[i := pb])) = (Inr (r, ds') :: go_panic + _) \<and> server_inv ds' \<and> length ds' = length ds"
    for act
    using jukebox_action_keeps [of "(ds ! i)\<lparr>pd_User := ju_UserName user\<rparr>" env p act] i assms
    by (auto simp: keeps_def same_identity_def intro!: server_inv_update)
  with i assms show ?thesis by (auto simp: JukeboxControl_def split: sum.splits)
qed

lemma jukebox_step_keeps: "jukebox_step ds ds' \<Longrightarrow> server_inv ds \<Longrightarrow> server_inv ds'"
proof (induction rule: jukebox_step.induct)
  case (step_request env user p ds r ds')
  then show ?case using JukeboxControl_keeps [of ds env user p] by auto
next
  case (step_done i ds ops pd')
  then have "device_inv (ds ! i)" by (simp add: server_inv_def)
  from track_done_keeps [OF this, of ops] step_done show ?case
    by (auto simp: same_identity_def intro!: server_inv_update)
next
  case (step_track i ds t t')
  then have "device_inv (ds ! i)" by (simp add: server_inv_def)
  with step_track show ?case by (auto intro!: server_inv_update)
qed

lemma NewPlaybackDevice_inv [simp]: "device_inv (NewPlaybackDevice n d)"
  by (simp add: device_inv_def NewPlaybackDevice_def queue_inv_ops)

interpretation jukebox_run: invariant_machine
  "[(NewPlaybackDevice ''auto'' ''auto'')\<lparr>pd_Default := True\<rparr>]" jukebox_step server_inv
  by unfold_locales (auto simp: server_inv_def [of "[_]"] intro: jukebox_step_keeps)

section \<open>Properties\<close>

lemma NewPlaybackDevice_simps [simp]:
  "pd_Name (NewPlaybackDevice n d) = n" "pd_DeviceName (NewPlaybackDevice n d) = d"
  by (simp_all add: NewPlaybackDevice_def)

lemma init_devices_spec:
  "init_devices defaultDevice devices = Inr ds \<Longrightarrow>
   length ds = length devices \<and> (\<forall>pd\<in>set ds. device_inv pd) \<and>
   (\<forall>i<length ds. pd_Name (ds ! i) = devices ! i ! 0 \<and> pd_DeviceName (ds ! i) = devices ! i ! 1 \<and>
      pd_Default (ds ! i) = (devices ! i ! 0 = defaultDevice))"
proof (induction devices arbitrary: ds)
  case (Cons d devices)
  from Cons.prems obtain ds' where ds': "init_devices defaultDevice devices = Inr ds'"
    "ds = (NewPlaybackDevice (d ! 0) (d ! 1))\<lparr>pd_Default := (d ! 0 = defaultDevice)\<rparr> # ds'"
    by (auto simp: Let_def bind_result_Inr split: if_splits)
  from Cons.IH [OF ds'(1)] show ?case unfolding ds'(2)
    by (simp add: nth_Cons split: nat.splits)
qed simp

lemma initDeviceStatus_inv:
  assumes "initDeviceStatus devices defaultDevice = Inr ds" shows "server_inv ds"
  using assms init_devices_spec [of defaultDevice devices]
  by (auto simp: initDeviceStatus_def server_inv_def bind_result_Inr list_ex_iff
      split: if_splits list.splits)

text \<open>A track that is its id and whether it plays, for the examples.\<close>

definition sample_ops :: "(string \<times> bool) TrackOps" where
  "sample_ops = \<lparr>trk_IsPlaying = snd, trk_SetVolume = (\<lambda>_ t. t), trk_Pause = (\<lambda>(i, _). (i, False)),
     trk_Unpause = (\<lambda>(i, _). (i, True)), trk_Position = (\<lambda>_. 0), trk_SetPosition = (\<lambda>_ t. (None, t)),
     trk_NewTrack = (\<lambda>_ mf. Inr (mf_ID mf, False))\<rparr>"

definition sample_env :: "(string \<times> bool, MediaFile) JukeboxEnv" where
  "sample_env = \<lparr>jb_Enabled = True, jb_AdminOnly = False, jb_ops = sample_ops,
     jb_GetMediaFile = (\<lambda>i. Inr (track i)), jb_perm = rev, jb_ParseFloat32 = (\<lambda>_. None),
     jb_childFromMediaFile = id\<rparr>"

definition auto_devices :: "(string \<times> bool) playbackDevice list" where
  "auto_devices = [(NewPlaybackDevice ''auto'' ''auto'')\<lparr>pd_Default := True\<rparr>]"

lemma auto_devices_init: "initDeviceStatus [] [] = Inr auto_devices"
  by (simp add: initDeviceStatus_def auto_devices_def)

definition after_request :: "(string \<rightharpoonup> string list) \<Rightarrow> (string \<times> bool) playbackDevice list \<Rightarrow>
  (string \<times> bool) playbackDevice list" where
  "after_request p ds =
     (case JukeboxControl sample_env \<lparr>ju_UserName = ''u'', ju_IsAdmin = False\<rparr> p ds of
        Inr (_, ds') \<Rightarrow> ds' | Inl _ \<Rightarrow> ds)"

lemma after_request_reachable:
  assumes "server_inv ds0" "reachable_from jukebox_step ds0 ds"
  shows "reachable_from jukebox_step ds0 (after_request p ds)"
proof -
  have "server_inv ds" using jukebox_run.inv_from [OF assms(2,1)] .
  then obtain r ds' where
    r: "JukeboxControl sample_env \<lparr>ju_UserName = ''u'', ju_IsAdmin = False\<rparr> p ds = Inr (r, ds')"
    using JukeboxControl_keeps by blast
  then have "after_request p ds = ds'" by (simp add: after_request_def)
  with assms(2) step_request [OF r] show ?thesis by (metis reachable_step)
qed

definition sample_run :: "(string \<times> bool) playbackDevice list" where
  "sample_run = after_request [''action'' \<mapsto> [''start'']]
     (after_request [''action'' \<mapsto> [''set''], ''id'' \<mapsto> [''a'', ''b'']] auto_devices)"

lemma sample_run_reachable: "reachable_from jukebox_step auto_devices sample_run"
  unfolding sample_run_def
  by (intro after_request_reachable initDeviceStatus_inv [OF auto_devices_init] reachable_refl)





text \<open>
  Initialisation yields a usable server exactly when the configuration names one: without a
  default name there is one device, flagged as the default; with one, there is a device per
  definition, in order, and the default device of the server is the first that carries the name.
\<close>

theorem initDeviceStatus_default:
  assumes "initDeviceStatus devices defaultDevice = Inr ds"
  shows "\<exists>i. getDefaultDevice ds = Inr i \<and> i < length ds \<and> length ds = max 1 (length devices) \<and>
    (if defaultDevice = [] then i = 0 \<and> length ds = 1
     else pd_Name (ds ! i) = defaultDevice \<and> (\<forall>j<i. pd_Name (ds ! j) \<noteq> defaultDevice))"
proof (cases "defaultDevice = []")
  case True
  with assms show ?thesis
    by (auto simp: initDeviceStatus_def getDefaultDevice_def split: list.splits if_splits)
next
  case False
  with assms have ini: "init_devices defaultDevice devices = Inr ds" "list_ex pd_Default ds"
    by (auto simp: initDeviceStatus_def bind_result_Inr split: if_splits)
  then obtain i where i: "find_index pd_Default ds = Some i"
    using find_index_None [of pd_Default ds] by (auto simp: list_ex_iff)
  from find_index_Some [OF i] init_devices_spec [OF ini(1)] i False show ?thesis
    by (auto simp: getDefaultDevice_def max_def)
qed

theorem initDeviceStatus_default_witness:
  "\<exists>i. getDefaultDevice ([(NewPlaybackDevice ''x'' ''hw0''), (NewPlaybackDevice ''y'' ''hw1'')\<lparr>pd_Default := True\<rparr>] ::
      (string \<times> bool) playbackDevice list) = Inr i \<and> i < 2"
proof -
  have "initDeviceStatus [[''x'', ''hw0''], [''y'', ''hw1'']] ''y'' =
    Inr [NewPlaybackDevice ''x'' ''hw0'', (NewPlaybackDevice ''y'' ''hw1'')\<lparr>pd_Default := True\<rparr>]"
    by (simp add: initDeviceStatus_def NewPlaybackDevice_def)
  from initDeviceStatus_default [OF this] show ?thesis by auto
qed

text \<open>
  When a track ends, the switcher closes it and moves on: before the last position the index
  advances by one and, if the next track loads, that track becomes the active one, at the device's
  gain and unpaused; at the last position nothing is active afterwards and the queue is unchanged.
\<close>

lemma track_done_advances:
  assumes "device_inv pd"
  shows "\<exists>pd'. track_done ops pd = Inr pd' \<and> q_Items (pd_PlaybackQueue pd') = q_Items (pd_PlaybackQueue pd) \<and>
    (if q_Index (pd_PlaybackQueue pd) + 1 < Size (pd_PlaybackQueue pd)
     then q_Index (pd_PlaybackQueue pd') = q_Index (pd_PlaybackQueue pd) + 1 \<and>
       pd_ActiveTrack pd' =
         (case trk_NewTrack ops (pd_DeviceName pd)
            (q_Items (pd_PlaybackQueue pd) ! nat (q_Index (pd_PlaybackQueue pd) + 1)) of
            Inl _ \<Rightarrow> None | Inr t \<Rightarrow> Some (trk_Unpause ops (trk_SetVolume ops (pd_Gain pd) t)))
     else pd_ActiveTrack pd' = None \<and> pd_PlaybackQueue pd' = pd_PlaybackQueue pd)"
proof -
  have q: "- 1 \<le> q_Index (pd_PlaybackQueue pd)"
    using device_inv_queue_inv [OF assms] by (simp add: queue_inv_def)
  show ?thesis
  proof (cases "q_Index (pd_PlaybackQueue pd) + 1 < Size (pd_PlaybackQueue pd)")
    case True
    with q show ?thesis
      by (auto simp: track_done_def Let_def close_active_def switchActiveTrackByIndex_def queue_defs
          split: sum.splits)
  next
    case False
    then show ?thesis
      by (auto simp: track_done_def Let_def close_active_def IsAtLastElement_def Size_def)
  qed
qed

lemma track_done_advances_witness:
  "device_inv (hd sample_run) \<and> (\<exists>pd'. track_done sample_ops (hd sample_run) = Inr pd' \<and>
     q_Items (pd_PlaybackQueue pd') = q_Items (pd_PlaybackQueue (hd sample_run)))"
proof -
  have "device_inv (hd sample_run)" by code_simp
  with track_done_advances [OF this, of sample_ops] show ?thesis by blast
qed

lemma load_items_spec:
  "load_items g ids = Inr items \<longleftrightarrow> map g ids = map Inr items"
proof (induction ids arbitrary: items)
  case (Cons i ids)
  then show ?case by (cases items) (auto simp: bind_result_Inr)
qed auto

lemma Add_nonempty:
  "items \<noteq> [] \<Longrightarrow> Add items q =
     \<lparr>q_Index = (if q_Index q = -1 then 0 else q_Index q), q_Items = q_Items q @ items\<rparr>"
  by (cases q) (simp add: Add_def q_len_def)

text \<open>
  \<open>Add\<close> is all or nothing: if every id is found the tracks are appended in the order given,
  and on an empty selection position the first track becomes current; if any id is missing the
  device is left as it was, its queue included.
\<close>

lemma pd_Add_all_or_nothing:
  assumes "ids \<noteq> []"
  shows "(\<exists>items. map GetMediaFile ids = map Inr items \<and>
      pd_Add ops GetMediaFile ids pd = reply ops None (pd\<lparr>pd_PlaybackQueue :=
        \<lparr>q_Index = (if q_Index (pd_PlaybackQueue pd) = -1 then 0 else q_Index (pd_PlaybackQueue pd)),
         q_Items = q_Items (pd_PlaybackQueue pd) @ items\<rparr>\<rparr>)) \<or>
    (\<exists>i\<in>set ids. \<exists>e. GetMediaFile i = Inl e) \<and>
      (\<exists>e. pd_Add ops GetMediaFile ids pd = Inr (zero_DeviceStatus, Some (MediaFileError e), pd))"
proof (cases "load_items GetMediaFile ids")
  case (Inl e)
  then have "\<exists>i\<in>set ids. \<exists>e. GetMediaFile i = Inl e"
  proof (induction ids)
    case (Cons i ids)
    then show ?case by (cases "GetMediaFile i"; cases "load_items GetMediaFile ids") auto
  qed simp
  with Inl assms show ?thesis by (cases ids) (auto simp: pd_Add_def)
next
  case (Inr items)
  then have "map GetMediaFile ids = map Inr items" by (simp add: load_items_spec)
  moreover from this assms have "items \<noteq> []" by auto
  ultimately show ?thesis using Inr assms
    by (intro disjI1 exI [of _ items]) (cases ids, auto simp: pd_Add_def Add_nonempty)
qed

theorem pd_Add_all_or_nothing_witness:
  "\<exists>st. pd_Add sample_ops (\<lambda>i. if i = ''a'' then Inr (track i) else Inl ''not found'') [''a'', ''b'']
     (hd auto_devices) = Inr (st, Some (MediaFileError ''not found''), hd auto_devices)"
  using pd_Add_all_or_nothing
    [of "[''a'', ''b'']" "\<lambda>i. if i = ''a'' then Inr (track i) else Inl ''not found''" sample_ops "hd auto_devices"]
  by (auto simp: Cons_eq_map_conv pd_Add_def)

text \<open>
  Removing the track that plays pauses it and takes it out of the queue, but leaves it loaded as
  the active track; a later \<open>Start\<close> resumes it, although it is not in the queue any more.
\<close>

lemma removed_track_resumes:
  "let pd = hd (after_request [''action'' \<mapsto> [''start'']]
       (after_request [''action'' \<mapsto> [''remove''], ''index'' \<mapsto> [''0'']] sample_run))
   in pd_ActiveTrack pd = Some (''a'', True) \<and> map mf_ID (q_Items (pd_PlaybackQueue pd)) = [''b'']"
  by code_simp

text \<open>\<open>Set\<close> with an id that is not found fails after the queue has been cleared and the track closed.\<close>

lemma failed_Set_clears:
  "\<exists>st pd'. pd_Set sample_ops (\<lambda>_. Inl ''not found'') [''z''] (hd sample_run) =
     Inr (st, Some (MediaFileError ''not found''), pd') \<and>
     q_Items (pd_PlaybackQueue pd') = [] \<and> pd_ActiveTrack pd' = None"
  by (auto simp: pd_Set_def pd_Clear_def pd_Add_def reply_def Let_def Clear_def split: option.splits)

end
