(* ===== verification/Utils_Slice.thy ===== *)
theory Utils_Slice
  imports Bragi_Prelude
begin

text \<open>
  \<open>utils/slice/slice.go\<close>: the generic slice functions the rest of the program is written with. Loops
  are recursions over the slice with the loop's variables as accumulators; an index out of range is
  \<open>None\<close> (the Go code panics). An iterator is the list of the values it yields when it is not
  stopped early. \<open>bufio.Scanner\<close> is modelled by the buffers it hands to the split function.
\<close>

section \<open>Maps and groups\<close>

fun slice_Map :: "'t list \<Rightarrow> ('t \<Rightarrow> 'r) \<Rightarrow> 'r list" where
  "slice_Map [] mapFunc = []"
| "slice_Map (e # t) mapFunc = mapFunc e # slice_Map t mapFunc"

definition MapWithArg :: "'i list \<Rightarrow> 'a \<Rightarrow> ('a \<Rightarrow> 'i \<Rightarrow> 'o) \<Rightarrow> 'o list" where
  "MapWithArg t arg mapFunc = slice_Map t (mapFunc arg)"

fun group_loop :: "('t \<Rightarrow> 'k) \<Rightarrow> 't list \<Rightarrow> ('k \<rightharpoonup> 't list) \<Rightarrow> ('k \<rightharpoonup> 't list)" where
  "group_loop keyFunc [] m = m"
| "group_loop keyFunc (item # s) m =
     (let k = keyFunc item;
          old = (case m k of None \<Rightarrow> [] | Some xs \<Rightarrow> xs)
      in group_loop keyFunc s (m(k \<mapsto> old @ [item])))"

definition Group :: "'t list \<Rightarrow> ('t \<Rightarrow> 'k) \<Rightarrow> ('k \<rightharpoonup> 't list)" where
  "Group s keyFunc = group_loop keyFunc s Map.empty"

fun to_map_loop :: "('t \<Rightarrow> 'k \<times> 'v) \<Rightarrow> 't list \<Rightarrow> ('k \<rightharpoonup> 'v) \<Rightarrow> ('k \<rightharpoonup> 'v)" where
  "to_map_loop f [] m = m"
| "to_map_loop f (item # s) m = (case f item of (k, v) \<Rightarrow> to_map_loop f s (m(k \<mapsto> v)))"

definition ToMap :: "'t list \<Rightarrow> ('t \<Rightarrow> 'k \<times> 'v) \<Rightarrow> ('k \<rightharpoonup> 'v)" where
  "ToMap s transformFunc = to_map_loop transformFunc s Map.empty"

definition ToSet :: "'t list \<Rightarrow> ('t \<rightharpoonup> unit)" where
  "ToSet s = to_map_loop (\<lambda>item. (item, ())) s Map.empty"

text \<open>The loop of \<open>MostFrequent\<close>: counters, the item with the highest count so far, and that count.\<close>

fun most_frequent_loop :: "'t \<Rightarrow> 't list \<Rightarrow> ('t \<Rightarrow> nat) \<Rightarrow> 't \<Rightarrow> nat \<Rightarrow> 't" where
  "most_frequent_loop zero [] counters topItem topCount = topItem"
| "most_frequent_loop zero (value # list) counters topItem topCount =
     (if value = zero then most_frequent_loop zero list counters topItem topCount
      else
        let c = Suc (counters value); counters' = counters(value := c)
        in if c > topCount then most_frequent_loop zero list counters' value c
           else most_frequent_loop zero list counters' topItem topCount)"

definition MostFrequent :: "'t \<Rightarrow> 't list \<Rightarrow> 't" where
  "MostFrequent zero list =
     (if list = [] then zero else most_frequent_loop zero list (\<lambda>_. 0) zero 0)"

section \<open>Insertion, removal, moves\<close>

definition slice_Insert :: "'t list \<Rightarrow> 't \<Rightarrow> go_int \<Rightarrow> 't list option" where
  "slice_Insert xs value index =
     (if 0 \<le> index \<and> index \<le> int (length xs)
      then Some (take (nat index) xs @ [value] @ drop (nat index) xs) else None)"

definition slice_Remove :: "'t list \<Rightarrow> go_int \<Rightarrow> 't list option" where
  "slice_Remove xs index =
     (if 0 \<le> index \<and> index < int (length xs)
      then Some (take (nat index) xs @ drop (nat index + 1) xs) else None)"

definition Move :: "'t list \<Rightarrow> go_int \<Rightarrow> go_int \<Rightarrow> 't list option" where
  "Move xs srcIndex dstIndex =
     (if 0 \<le> srcIndex \<and> srcIndex < int (length xs)
      then let value = xs ! nat srcIndex
           in case slice_Remove xs srcIndex of
                None \<Rightarrow> None | Some ys \<Rightarrow> slice_Insert ys value dstIndex
      else None)"

fun unique_loop :: "'t list \<Rightarrow> 't set \<Rightarrow> 't list \<Rightarrow> 't list" where
  "unique_loop [] seen result = result"
| "unique_loop (item # list) seen result =
     (if item \<notin> seen then unique_loop list (insert item seen) (result @ [item])
      else unique_loop list seen result)"

definition Unique :: "'t list \<Rightarrow> 't list" where
  "Unique list = unique_loop list {} []"

fun slice_Filter :: "'t list \<Rightarrow> ('t \<Rightarrow> bool) \<Rightarrow> 't list" where
  "slice_Filter [] p = []"
| "slice_Filter (item # s) p = (if p item then item # slice_Filter s p else slice_Filter s p)"

section \<open>Iterators\<close>

fun chunks_loop :: "nat \<Rightarrow> 't list \<Rightarrow> 't list \<Rightarrow> 't list list" where
  "chunks_loop n [] s = (if length s > 0 then [s] else [])"
| "chunks_loop n (x # it) s =
     (let s' = s @ [x]
      in if length s' \<ge> n then s' # chunks_loop n it [] else chunks_loop n it s')"

definition CollectChunks :: "'t list \<Rightarrow> nat \<Rightarrow> 't list list" where
  "CollectChunks it n = chunks_loop n it []"

definition SeqFunc :: "'i list \<Rightarrow> ('i \<Rightarrow> 'o) \<Rightarrow> 'o list" where
  "SeqFunc s f = slice_Map s f"

definition CR :: char where "CR = CHR 0x0D"
definition LF :: char where "LF = CHR 0x0A"

text \<open>The split function: how far to advance, and the token, if there is one.\<close>

definition scanLines :: "string \<Rightarrow> bool \<Rightarrow> nat \<times> string option" where
  "scanLines data atEOF =
     (if atEOF \<and> data = [] then (0, None)
      else case find_index (\<lambda>c. c = CR \<or> c = LF) data of
        Some i \<Rightarrow>
          if data ! i = LF then (i + 1, Some (take i data))
          else
            let advance = (if length data > i + 1 \<and> data ! (i + 1) = LF then i + 2 else i + 1)
            in (advance, Some (take i data))
      | None \<Rightarrow> if atEOF then (length data, Some data) else (0, None))"

text \<open>
  \<open>LinesFrom\<close> on a reader whose data is in the scanner's buffer and exhausted: tokens until the
  split function returns none.
\<close>

lemma scanLines_advance:
  assumes "scanLines data True = (n, Some tok)" shows "0 < n \<and> data \<noteq> []"
  using assms by (auto simp: scanLines_def Let_def split: if_splits option.splits)

function LinesFrom :: "string \<Rightarrow> string list" where
  "LinesFrom data =
     (case scanLines data True of
        (n, None) \<Rightarrow> []
      | (n, Some tok) \<Rightarrow> tok # LinesFrom (drop n data))"
  by pat_completeness auto
termination
  by (relation "measure length") (auto dest!: sym [of "(_, _)"] scanLines_advance)

declare LinesFrom.simps [simp del]

section \<open>Properties\<close>

lemma slice_Map_map [simp]: "slice_Map t f = map f t"
  by (induction t) auto

lemma slice_Filter_filter [simp]: "slice_Filter s p = filter p s"
  by (induction s) auto

lemma group_loop_spec:
  "group_loop f s m k =
     (case m k of None \<Rightarrow> if \<exists>x\<in>set s. f x = k then Some (filter (\<lambda>x. f x = k) s) else None
      | Some xs \<Rightarrow> Some (xs @ filter (\<lambda>x. f x = k) s))"
  by (induction s arbitrary: m) (auto simp: Let_def split: option.splits)

text \<open>
  \<open>Group\<close> partitions the slice: a key that occurs is mapped to exactly the elements with that
  key, in their original order, and no other key is present.
\<close>

theorem Group_spec:
  "Group s keyFunc k =
     (if k \<in> keyFunc ` set s then Some (filter (\<lambda>x. keyFunc x = k) s) else None)"
  by (auto simp: Group_def group_loop_spec)

lemma to_map_loop_spec:
  "to_map_loop f s m = m ++ map_of (rev (map f s))"
  by (induction s arbitrary: m) (auto split: prod.splits)

text \<open>The last element with a key decides its value.\<close>

lemma ToMap_spec: "ToMap s f = map_of (rev (map f s))"
  by (simp add: ToMap_def to_map_loop_spec)

lemma ToSet_spec: "dom (ToSet s) = set s"
  by (auto simp: ToSet_def to_map_loop_spec dom_map_of_conv_image_fst image_image)

lemma remdups_snoc: "remdups (ys @ [x]) = filter (\<lambda>y. y \<noteq> x) (remdups ys) @ [x]"
  by (induction ys) auto

lemma unique_loop_spec:
  "unique_loop xs seen result = result @ filter (\<lambda>x. x \<notin> seen) (rev (remdups (rev xs)))"
proof (induction xs arbitrary: seen result)
  case (Cons x xs)
  have eq: "filter (\<lambda>y. y \<notin> seen \<and> y \<noteq> x) ys = filter (\<lambda>y. y \<notin> insert x seen) ys" for ys
    by (rule filter_cong) auto
  show ?case
    by (cases "x \<in> seen")
       (auto simp: Cons.IH remdups_snoc rev_filter [symmetric] eq intro!: filter_cong)
qed simp

text \<open>
  \<open>Unique\<close> keeps the first occurrence of every element and drops the later ones: the result
  has the same elements, no duplicates, and equals the reference that drops duplicates from the
  right of the reversed list.
\<close>

theorem Unique_spec:
  "Unique xs = rev (remdups (rev xs)) \<and> set (Unique xs) = set xs \<and> distinct (Unique xs)"
  by (simp add: Unique_def unique_loop_spec)

lemma chunks_loop_spec:
  assumes "0 < n" "length s < n"
  shows "concat (chunks_loop n it s) = s @ it \<and>
    (\<forall>c\<in>set (chunks_loop n it s). c \<noteq> [] \<and> length c \<le> n) \<and>
    (\<forall>c\<in>set (butlast (chunks_loop n it s)). length c = n)"
  using assms
proof (induction it arbitrary: s)
  case (Cons x it)
  show ?case
  proof (cases "length s + 1 < n")
    case True
    with Cons.IH [of "s @ [x]"] Cons.prems show ?thesis by simp
  next
    case False
    with Cons.IH [of "[]"] Cons.prems show ?thesis by (auto simp: Let_def split: if_splits)
  qed
qed auto

text \<open>
  \<open>CollectChunks\<close> cuts the sequence into consecutive pieces that are not empty, all of exactly
  \<open>n\<close> elements but the last, which has at most \<open>n\<close>; put together again they are the sequence.
\<close>

lemma CollectChunks_spec:
  assumes "0 < n"
  shows "concat (CollectChunks it n) = it \<and>
    (\<forall>c\<in>set (CollectChunks it n). c \<noteq> [] \<and> length c \<le> n) \<and>
    (\<forall>c\<in>set (butlast (CollectChunks it n)). length c = n)"
  using chunks_loop_spec [of n "[]" it] assms by (simp add: CollectChunks_def)

lemma CollectChunks_spec_witness:
  "concat (CollectChunks [1, 2, 3, 4, 5::nat] 2) = [1, 2, 3, 4, 5] \<and>
   (\<forall>c\<in>set (butlast (CollectChunks [1, 2, 3, 4, 5::nat] 2)). length c = 2)"
  using CollectChunks_spec [of 2 "[1, 2, 3, 4, 5::nat]"] by simp

lemma Move_parts:
  assumes "0 \<le> i" "i < int (length xs)" "0 \<le> j" "j < int (length xs)"
  shows "Move xs i j = Some (take (nat j) (remove_at (nat i) xs) @ xs ! nat i # drop (nat j) (remove_at (nat i) xs))"
proof -
  have "slice_Remove xs i = Some (remove_at (nat i) xs)"
    using assms by (simp add: slice_Remove_def remove_at_def)
  moreover have "length (remove_at (nat i) xs) = length xs - 1" using assms by simp
  ultimately show ?thesis using assms by (simp add: Move_def slice_Insert_def Let_def)
qed

text \<open>
  \<open>Move\<close> is total on positions of the slice and a true move: the element lands at the target
  position, the others keep their relative order, nothing is lost or duplicated, and moving back
  restores the slice.
\<close>

lemma Move_spec:
  assumes "0 \<le> i" "i < int (length xs)" "0 \<le> j" "j < int (length xs)"
  shows "\<exists>ys. Move xs i j = Some ys \<and> mset ys = mset xs \<and> ys ! nat j = xs ! nat i \<and>
    remove_at (nat j) ys = remove_at (nat i) xs \<and> Move ys j i = Some xs"
proof -
  let ?r = "remove_at (nat i) xs"
  let ?ys = "take (nat j) ?r @ xs ! nat i # drop (nat j) ?r"
  have i: "nat i < length xs" and len: "length ?r = length xs - 1" using assms by simp_all
  then have lt: "length (take (nat j) ?r) = nat j" using assms by simp
  have "mset ?ys = add_mset (xs ! nat i) (mset (take (nat j) ?r @ drop (nat j) ?r))"
    by (simp del: append_take_drop_id)
  then have m: "mset ?ys = mset xs" using mset_remove_at [OF i] by (simp only: append_take_drop_id)
  have nj: "?ys ! nat j = xs ! nat i" using lt by (metis nth_append_length)
  have r: "remove_at (nat j) ?ys = ?r" using remove_at_middle [of "take (nat j) ?r"] lt
    by (simp only: append_take_drop_id)
  have ly: "length ?ys = length xs" using m by (metis size_mset)
  have "take (nat i) ?r @ xs ! nat i # drop (nat i) ?r = xs"
    using i by (rule restore_at)
  then have "Move ?ys j i = Some xs"
    using Move_parts [of j ?ys i] assms ly r nj by simp
  with Move_parts [OF assms] m nj r show ?thesis by blast
qed

theorem Move_spec_witness: "\<exists>ys. Move [''a'', ''b'', ''c''] 0 2 = Some ys \<and> ys ! nat 2 = ''a''"
  using Move_spec [of 0 "[''a'', ''b'', ''c'']" 2] by auto

lemma most_frequent_loop_spec:
  assumes "\<forall>v. counters v \<le> topCount" "topItem = zero \<longleftrightarrow> topCount = 0"
    and "topItem \<noteq> zero \<longrightarrow> counters topItem = topCount"
  shows "let r = most_frequent_loop zero xs counters topItem topCount;
      total = (\<lambda>v. counters v + count_list xs v)
    in (r = zero \<longrightarrow> (\<forall>v. v \<noteq> zero \<longrightarrow> total v = 0)) \<and>
       (r \<noteq> zero \<longrightarrow> 0 < total r \<and> (\<forall>v. v \<noteq> zero \<longrightarrow> total v \<le> total r))"
  using assms
proof (induction xs arbitrary: counters topItem topCount)
  case Nil
  then show ?case by (auto simp: Let_def)
next
  case (Cons x xs)
  show ?case
  proof (cases "x = zero")
    case True
    with Cons.IH [OF Cons.prems] show ?thesis
      by (auto simp: Let_def split: if_splits)
  next
    case False
    let ?c = "counters(x := Suc (counters x))"
    have tot: "?c v + count_list xs v = counters v + count_list (x # xs) v" for v by simp
    show ?thesis
    proof (cases "Suc (counters x) > topCount")
      case True
      have "\<forall>v. ?c v \<le> Suc (counters x)" using True Cons.prems(1) by (auto intro: le_trans)
      moreover have "?c x = Suc (counters x)" by simp
      ultimately show ?thesis using Cons.IH [of ?c "Suc (counters x)" x] False True
        by (simp add: tot del: count_list.simps fun_upd_apply)
    next
      case False': False
      have le: "\<forall>v. ?c v \<le> topCount" using False' Cons.prems(1) by auto
      have top: "topItem \<noteq> zero \<longrightarrow> ?c topItem = topCount" using False' Cons.prems(3) by auto
      from Cons.IH [OF le Cons.prems(2) top] False False' show ?thesis
        by (simp add: tot del: count_list.simps fun_upd_apply)
    qed
  qed
qed

text \<open>
  \<open>MostFrequent\<close> returns an element of the slice, other than the zero value, that occurs at
  least as often as every other one; only a slice with nothing but zero values gives the zero value.
\<close>

lemma MostFrequent_spec:
  "(MostFrequent zero xs = zero \<longleftrightarrow> set xs \<subseteq> {zero}) \<and>
   (MostFrequent zero xs \<noteq> zero \<longrightarrow>
      MostFrequent zero xs \<in> set xs \<and>
      (\<forall>y. y \<noteq> zero \<longrightarrow> count_list xs y \<le> count_list xs (MostFrequent zero xs)))"
proof (cases "xs = []")
  case False
  let ?r = "MostFrequent zero xs"
  have r: "(?r = zero \<longrightarrow> (\<forall>v. v \<noteq> zero \<longrightarrow> count_list xs v = 0)) \<and>
      (?r \<noteq> zero \<longrightarrow> 0 < count_list xs ?r \<and> (\<forall>v. v \<noteq> zero \<longrightarrow> count_list xs v \<le> count_list xs ?r))"
    using most_frequent_loop_spec [of "\<lambda>_. 0" 0 zero zero xs] False
    by (simp add: MostFrequent_def Let_def)
  have "v \<in> set xs \<longleftrightarrow> 0 < count_list xs v" for v by (metis count_list_0_iff gr0I not_gr0)
  with r show ?thesis by (auto simp: subset_iff)
qed (simp add: MostFrequent_def)

theorem MostFrequent_spec_witness:
  "MostFrequent [] [''rock'', [], ''pop'', ''rock''] \<noteq> [] \<and>
   count_list [''rock'', [], ''pop'', ''rock''] ''pop'' \<le>
   count_list [''rock'', [], ''pop'', ''rock''] (MostFrequent [] [''rock'', [], ''pop'', ''rock''])"
proof -
  have "MostFrequent [] [''rock'', [], ''pop'', ''rock''] \<noteq> []" by code_simp
  with MostFrequent_spec [of "[]" "[''rock'', [], ''pop'', ''rock'']"] show ?thesis by blast
qed

definition one_line :: "string \<Rightarrow> bool" where
  "one_line l \<longleftrightarrow> CR \<notin> set l \<and> LF \<notin> set l"

lemma CR_neq_LF [simp]: "CR \<noteq> LF" "LF \<noteq> CR"
  by (simp_all add: CR_def LF_def)

lemma find_eol:
  "one_line l \<Longrightarrow> find_index (\<lambda>c. c = CR \<or> c = LF) (l @ rest) =
     map_option ((+) (length l)) (find_index (\<lambda>c. c = CR \<or> c = LF) rest)"
proof (induction l)
  case (Cons c l)
  then show ?case by (auto simp: one_line_def option.map_comp comp_def)
qed (cases "find_index (\<lambda>c. c = CR \<or> c = LF) rest", simp_all)

lemma LinesFrom_step:
  assumes "one_line l" "eol \<in> {[LF], [CR, LF], [CR]}" "eol = [CR] \<longrightarrow> \<not> HasPrefix rest [LF]"
  shows "LinesFrom (l @ eol @ rest) = l # LinesFrom rest"
proof -
  have "scanLines (l @ eol @ rest) True = (length l + length eol, Some l)"
    using assms by (cases rest) (auto simp: scanLines_def find_eol nth_append HasPrefix_def)
  then show ?thesis by (simp add: LinesFrom.simps [of "l @ eol @ rest"])
qed

lemma LinesFrom_last:
  assumes "one_line l" shows "LinesFrom l = (if l = [] then [] else [l])"
proof -
  have nil: "LinesFrom [] = []" by (subst LinesFrom.simps) (simp add: scanLines_def)
  have "scanLines l True = (length l, Some l)" if "l \<noteq> []"
    using that find_eol [OF assms, of "[]"] by (simp add: scanLines_def)
  then show ?thesis by (cases "l = []") (simp_all add: nil LinesFrom.simps [of l])
qed

text \<open>
  \<open>LinesFrom\<close> reads back the lines a text was written with, whichever of the three line ends
  (LF, CR LF, CR) it uses, and a last line without one; an empty rest is no line.
\<close>

lemma LinesFrom_roundtrip:
  assumes "eol \<in> {[LF], [CR, LF], [CR]}" "\<forall>l\<in>set ls. one_line l" "one_line final"
  shows "LinesFrom (concat (map (\<lambda>l. l @ eol) ls) @ final) = ls @ (if final = [] then [] else [final])"
  using assms(2)
proof (induction ls)
  case Nil
  then show ?case using LinesFrom_last [OF assms(3)] by simp
next
  case (Cons l ls)
  let ?rest = "concat (map (\<lambda>l. l @ eol) ls) @ final"
  have "\<not> HasPrefix ?rest [LF]" if "eol = [CR]"
    using Cons.prems assms(3) that
    by (cases ls; cases "hd ls"; cases final) (auto simp: HasPrefix_def one_line_def)
  then have "LinesFrom (l @ eol @ ?rest) = l # LinesFrom ?rest"
    using LinesFrom_step [of l eol ?rest] Cons.prems assms(1) by simp
  then show ?case using Cons by simp
qed

lemma LinesFrom_roundtrip_witness:
  "LinesFrom (''#EXTM3U'' @ [CR, LF] @ ''a.mp3'' @ [CR, LF] @ ''b.mp3'') = [''#EXTM3U'', ''a.mp3'', ''b.mp3'']"
  using LinesFrom_roundtrip [of "[CR, LF]" "[''#EXTM3U'', ''a.mp3'']" "''b.mp3''"]
  by (simp add: one_line_def CR_def LF_def)

text \<open>
  When a buffer that is not the last one ends between the CR and the LF of a line end, the split
  function takes the CR as a whole line end, and the LF that opens the next buffer ends an empty
  line that the text does not have.
\<close>

lemma scanLines_split_CRLF:
  "scanLines (''a'' @ [CR]) False = (2, Some ''a'') \<and> LinesFrom (LF # ''b'') = [[], ''b''] \<and>
   LinesFrom (''a'' @ [CR, LF] @ ''b'') = [''a'', ''b'']"
proof -
  have "one_line ''a''" "one_line ''b''" "one_line []" by (simp_all add: one_line_def CR_def LF_def)
  then show ?thesis
    using LinesFrom_step [of "[]" "[LF]" "''b''"] LinesFrom_step [of "''a''" "[CR, LF]" "''b''"]
    by (simp add: LinesFrom_last scanLines_def CR_def LF_def)
qed

end
