(* ===== verification/Matcher.thy ===== *)
theory Matcher
  imports Model_MediaFile Go_Float Utils_Slice
begin

text \<open>
  \<open>core/matcher/matcher.go\<close>: matching the songs an agent suggests to tracks of the library.

  Parameters, collected in \<open>MatcherEnv\<close>: the data store's queries (each with the filter values it
  is called with), the sanitizers of package \<open>str\<close>, \<open>smetrics.JaroWinkler\<close>, the hash of package
  \<open>hashstructure\<close>, and the configuration. A \<open>float64\<close> is the rational number it denotes; every
  arithmetic operation is the exact one followed by \<open>me_round\<close>, the rounding of IEEE 754, so the
  rounding is a parameter too. A Go map that is ranged over is an association list in order of
  insertion; a map that is only looked up is a function, one that is only a set is a set.
\<close>

section \<open>Data\<close>

type_synonym float64 = rat

record AgentArtist =
  ag_ID :: string
  ag_Name :: string
  ag_MBID :: string

record Song =
  song_ID :: string
  song_Name :: string
  song_MBID :: string
  song_ISRC :: string
  song_Artists :: "AgentArtist list"
  song_Album :: string
  song_AlbumMBID :: string
  song_Duration :: nat \<comment> \<open>milliseconds, \<open>uint32\<close>\<close>

record ArtistRow =
  ar_ID :: string
  ar_OrderArtistName :: string
  ar_MbzArtistID :: string

record queryArtist =
  qa_id :: string
  qa_name :: string
  qa_mbid :: string

record songQuery =
  sq_title :: string
  sq_artists :: "queryArtist list"
  sq_album :: string
  sq_albumMBID :: string
  sq_durationMs :: nat

record matchScore =
  ms_titleSimilarity :: float64
  ms_durationProximity :: float64
  ms_preferredMatch :: bool
  ms_specificityLevel :: nat
  ms_artistOverlap :: nat
  ms_albumSimilarity :: float64

record sanitizedTrack =
  st_mf :: MediaFile
  st_title :: string
  st_artist :: string
  st_album :: string
  st_artistIDs :: "string set"
  st_artistMBIDs :: "string set"

record scoredTrack = sanitizedTrack +
  sc_overlap :: nat

record MatcherEnv =
  me_sanitize :: "string \<Rightarrow> string"
  me_sanitizeNoArticle :: "string \<Rightarrow> string"
  me_JaroWinkler :: "string \<Rightarrow> string \<Rightarrow> float64"
  me_round :: "rat \<Rightarrow> float64"
  me_songHash :: "Song \<Rightarrow> nat"
  me_ByID :: "string list \<Rightarrow> string + MediaFiles"
  me_ByMBID :: "string list \<Rightarrow> string + MediaFiles"
  me_ByISRC :: "string list \<Rightarrow> string + MediaFiles"
  me_Artists :: "string list \<Rightarrow> string list \<Rightarrow> string list \<Rightarrow> string + ArtistRow list"
  me_CreditedTo :: "string list \<Rightarrow> string + MediaFiles"
  me_FuzzyThreshold :: go_int
  me_PreferStarred :: bool

type_synonym matches = "nat \<rightharpoonup> MediaFile"

definition Song_Equals :: "MatcherEnv \<Rightarrow> Song \<Rightarrow> Song \<Rightarrow> bool" where
  "Song_Equals env s other \<longleftrightarrow> me_songHash env s = me_songHash env other"

section \<open>Exact loaders\<close>

text \<open>\<open>result[i] = mf\<close> for every song whose key is in the index; \<open>fill_open\<close> skips matched songs.\<close>

fun fill_ids :: "(string \<rightharpoonup> MediaFile) \<Rightarrow> nat \<Rightarrow> Song list \<Rightarrow> matches \<Rightarrow> matches" where
  "fill_ids byID i [] result = result"
| "fill_ids byID i (s # songs) result =
     (if song_ID s = [] then fill_ids byID (Suc i) songs result
      else case byID (song_ID s) of
             Some mf \<Rightarrow> fill_ids byID (Suc i) songs (result(i \<mapsto> mf))
           | None \<Rightarrow> fill_ids byID (Suc i) songs result)"

fun fill_open ::
  "(Song \<Rightarrow> string) \<Rightarrow> (string \<rightharpoonup> MediaFile) \<Rightarrow> nat \<Rightarrow> Song list \<Rightarrow> matches \<Rightarrow> matches" where
  "fill_open key m i [] result = result"
| "fill_open key m i (s # songs) result =
     (if result i \<noteq> None then fill_open key m (Suc i) songs result
      else if key s = [] then fill_open key m (Suc i) songs result
      else case m (key s) of
             Some mf \<Rightarrow> fill_open key m (Suc i) songs (result(i \<mapsto> mf))
           | None \<Rightarrow> fill_open key m (Suc i) songs result)"

text \<open>The keys of the songs that are still open.\<close>

fun open_keys :: "(Song \<Rightarrow> string) \<Rightarrow> nat \<Rightarrow> Song list \<Rightarrow> matches \<Rightarrow> string list" where
  "open_keys key i [] result = []"
| "open_keys key i (s # songs) result =
     (if result i \<noteq> None then open_keys key (Suc i) songs result
      else if key s \<noteq> [] then key s # open_keys key (Suc i) songs result
      else open_keys key (Suc i) songs result)"

text \<open>The first track of the query's order wins a key.\<close>

fun index_keys :: "MediaFile \<Rightarrow> string list \<Rightarrow> (string \<rightharpoonup> MediaFile) \<Rightarrow> (string \<rightharpoonup> MediaFile)" where
  "index_keys mf [] m = m"
| "index_keys mf (k # ks) m = index_keys mf ks (if m k = None then m(k \<mapsto> mf) else m)"

fun index_first :: "(MediaFile \<Rightarrow> string list) \<Rightarrow> MediaFiles \<Rightarrow> (string \<rightharpoonup> MediaFile) \<Rightarrow> (string \<rightharpoonup> MediaFile)" where
  "index_first keys [] m = m"
| "index_first keys (mf # res) m = index_first keys res (index_keys mf (keys mf) m)"

definition matchByID :: "MatcherEnv \<Rightarrow> Song list \<Rightarrow> matches \<Rightarrow> string + matches" where
  "matchByID env songs result =
     (let ids = filter (\<lambda>i. i \<noteq> []) (map song_ID songs)
      in if ids = [] then Inr result
         else bind_result (me_ByID env ids) (\<lambda>res.
                Inr (fill_ids (ToMap res (\<lambda>mf. (mf_ID mf, mf))) 0 songs result)))"

definition mbid_keys :: "MediaFile \<Rightarrow> string list" where
  "mbid_keys mf = (if mf_MbzRecordingID mf \<noteq> [] then [mf_MbzRecordingID mf] else [])"

definition matchByMBID :: "MatcherEnv \<Rightarrow> Song list \<Rightarrow> matches \<Rightarrow> string + matches" where
  "matchByMBID env songs result =
     (let mbids = open_keys song_MBID 0 songs result
      in if mbids = [] then Inr result
         else bind_result (me_ByMBID env mbids) (\<lambda>res.
                Inr (fill_open song_MBID (index_first mbid_keys res Map.empty) 0 songs result)))"

definition matchByISRC :: "MatcherEnv \<Rightarrow> Song list \<Rightarrow> matches \<Rightarrow> string + matches" where
  "matchByISRC env songs result =
     (let isrcs = open_keys song_ISRC 0 songs result
      in if isrcs = [] then Inr result
         else bind_result (me_ByISRC env isrcs) (\<lambda>res.
                Inr (fill_open song_ISRC (index_first mf_ISRC res Map.empty) 0 songs result)))"

section \<open>Scores\<close>

definition betterThan :: "matchScore \<Rightarrow> matchScore \<Rightarrow> bool" where
  "betterThan s other =
     (if ms_titleSimilarity s \<noteq> ms_titleSimilarity other
      then ms_titleSimilarity s > ms_titleSimilarity other
      else if ms_durationProximity s \<noteq> ms_durationProximity other
      then ms_durationProximity s > ms_durationProximity other
      else if ms_specificityLevel s \<noteq> ms_specificityLevel other
      then ms_specificityLevel s > ms_specificityLevel other
      else if ms_artistOverlap s \<noteq> ms_artistOverlap other
      then ms_artistOverlap s > ms_artistOverlap other
      else if ms_preferredMatch s \<noteq> ms_preferredMatch other then ms_preferredMatch s
      else ms_albumSimilarity s > ms_albumSimilarity other)"

definition similarityRatio :: "MatcherEnv \<Rightarrow> string \<Rightarrow> string \<Rightarrow> float64" where
  "similarityRatio env a b =
     (if a = b then 1 else if length a = 0 \<or> length b = 0 then 0 else me_JaroWinkler env a b)"

definition durationProximity :: "MatcherEnv \<Rightarrow> nat \<Rightarrow> float32 \<Rightarrow> float64" where
  "durationProximity env durationMs mediaFileDurationSec =
     (if durationMs = 0 then 1
      else
        let rnd = me_round env;
            durationSec = rnd (of_nat durationMs / 1000);
            diff = \<bar>rnd (durationSec - float32_value mediaFileDurationSec)\<bar>
        in rnd (1 / rnd (1 + diff)))"

definition isPreferredTrack :: "MediaFile \<Rightarrow> bool" where
  "isPreferredTrack mf \<longleftrightarrow> mf_Starred mf \<or> mf_Rating mf \<ge> 4"

definition newSanitizedTrack :: "MatcherEnv \<Rightarrow> MediaFile \<Rightarrow> string set \<Rightarrow> string set \<Rightarrow> sanitizedTrack" where
  "newSanitizedTrack env mf artistIDs artistMBIDs =
     \<lparr>st_mf = mf, st_title = me_sanitize env (mf_Title mf),
      st_artist = me_sanitizeNoArticle env (mf_Artist mf), st_album = me_sanitize env (mf_Album mf),
      st_artistIDs = artistIDs, st_artistMBIDs = artistMBIDs\<rparr>"

definition artist_level :: "songQuery \<Rightarrow> 'a sanitizedTrack_scheme \<Rightarrow> bool \<Rightarrow> queryArtist \<Rightarrow> nat" where
  "artist_level q t albumOK a =
     (let identity = (qa_id a \<noteq> [] \<and> qa_id a \<in> st_artistIDs t) \<or>
                     (qa_mbid a \<noteq> [] \<and> qa_mbid a \<in> st_artistMBIDs t)
      in if identity \<and> sq_albumMBID q \<noteq> [] \<and> mf_MbzAlbumID (st_mf t) = sq_albumMBID q then 5
         else if identity \<and> sq_album q \<noteq> [] \<and> albumOK then 4
         else if qa_name a \<noteq> [] \<and> sq_album q \<noteq> [] \<and> st_artist t = qa_name a \<and> albumOK then 3
         else if identity then 2
         else if qa_name a \<noteq> [] \<and> st_artist t = qa_name a then 1
         else 0)"

fun best_level :: "(queryArtist \<Rightarrow> nat) \<Rightarrow> queryArtist list \<Rightarrow> nat \<Rightarrow> nat" where
  "best_level level [] best = best"
| "best_level level (a # artists) best =
     best_level level artists (if level a > best then level a else best)"

definition computeSpecificityLevel ::
  "MatcherEnv \<Rightarrow> songQuery \<Rightarrow> 'a sanitizedTrack_scheme \<Rightarrow> float64 \<Rightarrow> nat" where
  "computeSpecificityLevel env q t albumThreshold =
     (let albumOK = (sq_album q \<noteq> [] \<and> similarityRatio env (st_album t) (sq_album q) \<ge> albumThreshold)
      in best_level (artist_level q t albumOK) (sq_artists q) 0)"

definition score_of :: "MatcherEnv \<Rightarrow> songQuery \<Rightarrow> float64 \<Rightarrow> scoredTrack \<Rightarrow> matchScore" where
  "score_of env q threshold c =
     \<lparr>ms_titleSimilarity = similarityRatio env (sq_title q) (st_title c),
      ms_durationProximity = durationProximity env (sq_durationMs q) (mf_Duration (st_mf c)),
      ms_preferredMatch = (me_PreferStarred env \<and> isPreferredTrack (st_mf c)),
      ms_specificityLevel = computeSpecificityLevel env q c threshold,
      ms_artistOverlap = sc_overlap c,
      ms_albumSimilarity =
        (if sq_album q \<noteq> [] then similarityRatio env (sq_album q) (st_album c) else 0)\<rparr>"

definition initial_score :: matchScore where
  "initial_score = \<lparr>ms_titleSimilarity = -1, ms_durationProximity = 0, ms_preferredMatch = False,
     ms_specificityLevel = 0, ms_artistOverlap = 0, ms_albumSimilarity = 0\<rparr>"

fun best_loop ::
  "MatcherEnv \<Rightarrow> songQuery \<Rightarrow> float64 \<Rightarrow> scoredTrack list \<Rightarrow> matchScore \<Rightarrow> MediaFile option \<Rightarrow> MediaFile option" where
  "best_loop env q threshold [] bestScore bestMatch = bestMatch"
| "best_loop env q threshold (c # candidates) bestScore bestMatch =
     (if similarityRatio env (sq_title q) (st_title c) < threshold
      then best_loop env q threshold candidates bestScore bestMatch
      else
        let score = score_of env q threshold c
        in if betterThan score bestScore
           then best_loop env q threshold candidates score (Some (st_mf c))
           else best_loop env q threshold candidates bestScore bestMatch)"

definition findBestMatch :: "MatcherEnv \<Rightarrow> songQuery \<Rightarrow> scoredTrack list \<Rightarrow> float64 \<Rightarrow> MediaFile option" where
  "findBestMatch env q candidates threshold = best_loop env q threshold candidates initial_score None"

section \<open>The title phase\<close>

definition query_artists :: "MatcherEnv \<Rightarrow> AgentArtist list \<Rightarrow> queryArtist list" where
  "query_artists env as =
     map (\<lambda>a. \<lparr>qa_id = ag_ID a, qa_name = me_sanitizeNoArticle env (ag_Name a), qa_mbid = ag_MBID a\<rparr>)
       (filter (\<lambda>a. \<not> (ag_ID a = [] \<and> me_sanitizeNoArticle env (ag_Name a) = [] \<and> ag_MBID a = [])) as)"

fun group_queries :: "MatcherEnv \<Rightarrow> nat \<Rightarrow> Song list \<Rightarrow> matches \<Rightarrow> (nat \<times> songQuery) list" where
  "group_queries env i [] result = []"
| "group_queries env i (s # songs) result =
     (if result i \<noteq> None then group_queries env (Suc i) songs result
      else
        let artists = query_artists env (song_Artists s)
        in if artists = [] then group_queries env (Suc i) songs result
           else (i, \<lparr>sq_title = me_sanitize env (song_Name s), sq_artists = artists,
                     sq_album = me_sanitize env (song_Album s), sq_albumMBID = song_AlbumMBID s,
                     sq_durationMs = song_Duration s\<rparr>) # group_queries env (Suc i) songs result)"

definition groupQueries :: "MatcherEnv \<Rightarrow> Song list \<Rightarrow> matches \<Rightarrow> (nat \<times> songQuery) list" where
  "groupQueries env songs result = group_queries env 0 songs result"

text \<open>A map from keys to lists or sets of values, as an association list.\<close>

fun append_to :: "('k \<times> 'v list) list \<Rightarrow> 'k \<Rightarrow> 'v \<Rightarrow> ('k \<times> 'v list) list" where
  "append_to [] k v = [(k, [v])]"
| "append_to ((k', vs) # m) k v =
     (if k' = k then (k', vs @ [v]) # m else (k', vs) # append_to m k v)"

fun addToSet :: "('k \<times> 'v list) list \<Rightarrow> 'k \<Rightarrow> 'v \<Rightarrow> ('k \<times> 'v list) list" where
  "addToSet [] k v = [(k, [v])]"
| "addToSet ((k', vs) # m) k v =
     (if k' = k then (k', if v \<in> set vs then vs else vs @ [v]) # m else (k', vs) # addToSet m k v)"

definition values_at :: "('k \<times> 'v list) list \<Rightarrow> 'k \<Rightarrow> 'v list" where
  "values_at m k = (case map_of m k of None \<Rightarrow> [] | Some vs \<Rightarrow> vs)"

definition insert_key :: "'v list \<Rightarrow> 'v \<Rightarrow> 'v list" where
  "insert_key xs v = (if v \<in> set xs then xs else xs @ [v])"

record resolvedArtists =
  ra_byQuery :: "(nat \<times> string list) list"
  ra_mbid :: "string \<rightharpoonup> string"
  ra_allIDs :: "string list"

text \<open>The artists that carry an id are owned directly; the others are pending, with their query.\<close>

fun own_artists ::
  "nat \<Rightarrow> queryArtist list \<Rightarrow> resolvedArtists \<Rightarrow> (queryArtist \<times> nat) list \<Rightarrow>
   resolvedArtists \<times> (queryArtist \<times> nat) list" where
  "own_artists idx [] res pending = (res, pending)"
| "own_artists idx (a # artists) res pending =
     (if qa_id a \<noteq> []
      then own_artists idx artists
             (res\<lparr>ra_byQuery := addToSet (ra_byQuery res) idx (qa_id a),
                  ra_allIDs := insert_key (ra_allIDs res) (qa_id a)\<rparr>) pending
      else own_artists idx artists res (pending @ [(a, idx)]))"

fun own_queries ::
  "(nat \<times> songQuery) list \<Rightarrow> resolvedArtists \<Rightarrow> (queryArtist \<times> nat) list \<Rightarrow>
   resolvedArtists \<times> (queryArtist \<times> nat) list" where
  "own_queries [] res pending = (res, pending)"
| "own_queries ((idx, q) # queries) res pending =
     (case own_artists idx (sq_artists q) res pending of
        (res', pending') \<Rightarrow> own_queries queries res' pending')"

fun key_queries :: "(queryArtist \<Rightarrow> string) \<Rightarrow> (queryArtist \<times> nat) list \<Rightarrow> (string \<times> nat list) list \<Rightarrow>
  (string \<times> nat list) list" where
  "key_queries key [] m = m"
| "key_queries key ((a, idx) # pending) m =
     key_queries key pending (if key a \<noteq> [] then append_to m (key a) idx else m)"

fun own_all :: "string \<Rightarrow> nat list \<Rightarrow> (nat \<times> string list) list \<Rightarrow> (nat \<times> string list) list" where
  "own_all aid [] m = m"
| "own_all aid (idx # idxs) m = own_all aid idxs (addToSet m idx aid)"

fun resolve_rows ::
  "(string \<times> nat list) list \<Rightarrow> (string \<times> nat list) list \<Rightarrow> ArtistRow list \<Rightarrow> resolvedArtists \<Rightarrow> resolvedArtists" where
  "resolve_rows nameToQueries mbidToQueries [] res = res"
| "resolve_rows nameToQueries mbidToQueries (a # artists) res =
     (let m1 = own_all (ar_ID a) (values_at nameToQueries (ar_OrderArtistName a)) (ra_byQuery res);
          m2 = (if ar_MbzArtistID a \<noteq> []
                then own_all (ar_ID a) (values_at mbidToQueries (ar_MbzArtistID a)) m1 else m1)
      in resolve_rows nameToQueries mbidToQueries artists
           \<lparr>ra_byQuery = m2, ra_mbid = (ra_mbid res)(ar_ID a \<mapsto> ar_MbzArtistID a),
            ra_allIDs = insert_key (ra_allIDs res) (ar_ID a)\<rparr>)"

definition resolveArtists :: "MatcherEnv \<Rightarrow> (nat \<times> songQuery) list \<Rightarrow> string + resolvedArtists" where
  "resolveArtists env queries =
     (case own_queries queries \<lparr>ra_byQuery = [], ra_mbid = Map.empty, ra_allIDs = []\<rparr> [] of
        (res, pending) \<Rightarrow>
          let nameToQueries = key_queries qa_name pending [];
              mbidToQueries = key_queries qa_mbid pending []
          in if nameToQueries = [] \<and> mbidToQueries = [] \<and> ra_allIDs res = [] then Inr res
             else bind_result
                    (me_Artists env (map fst nameToQueries) (map fst mbidToQueries) (ra_allIDs res))
                    (\<lambda>artists. Inr (resolve_rows nameToQueries mbidToQueries artists res)))"

record queryAccum =
  ac_overlap :: nat
  ac_ids :: "string set"
  ac_mbids :: "string set"

fun invert_ids :: "nat \<Rightarrow> string list \<Rightarrow> (string \<times> nat list) list \<Rightarrow> (string \<times> nat list) list" where
  "invert_ids idx [] m = m"
| "invert_ids idx (i # ids) m = invert_ids idx ids (append_to m i idx)"

fun queries_by_artist :: "(nat \<times> string list) list \<Rightarrow> (string \<times> nat list) list \<Rightarrow> (string \<times> nat list) list" where
  "queries_by_artist [] m = m"
| "queries_by_artist ((idx, ids) # byQuery) m = queries_by_artist byQuery (invert_ids idx ids m)"

definition bump :: "string \<Rightarrow> string \<Rightarrow> queryAccum option \<Rightarrow> queryAccum" where
  "bump pid mbid acc =
     (let a = (case acc of None \<Rightarrow> \<lparr>ac_overlap = 0, ac_ids = {}, ac_mbids = {}\<rparr> | Some a \<Rightarrow> a)
      in a\<lparr>ac_overlap := ac_overlap a + 1, ac_ids := insert pid (ac_ids a),
           ac_mbids := (if mbid \<noteq> [] then insert mbid (ac_mbids a) else ac_mbids a)\<rparr>)"

fun bump_all :: "string \<Rightarrow> string \<Rightarrow> nat list \<Rightarrow> (nat \<rightharpoonup> queryAccum) \<Rightarrow> (nat \<rightharpoonup> queryAccum)" where
  "bump_all pid mbid [] acc = acc"
| "bump_all pid mbid (idx # owners) acc =
     bump_all pid mbid owners (acc(idx \<mapsto> bump pid mbid (acc idx)))"

fun accumulate ::
  "(string \<times> nat list) list \<Rightarrow> (string \<rightharpoonup> string) \<Rightarrow> Participant list \<Rightarrow> string set \<Rightarrow>
   (nat \<rightharpoonup> queryAccum) \<Rightarrow> (nat \<rightharpoonup> queryAccum)" where
  "accumulate queriesByArtist mbids [] credited acc = acc"
| "accumulate queriesByArtist mbids (p # ps) credited acc =
     (if pt_ID p \<in> credited then accumulate queriesByArtist mbids ps credited acc
      else case map_of queriesByArtist (pt_ID p) of
             None \<Rightarrow> accumulate queriesByArtist mbids ps credited acc
           | Some owners \<Rightarrow>
               accumulate queriesByArtist mbids ps (insert (pt_ID p) credited)
                 (bump_all (pt_ID p) (gg_V [] (mbids (pt_ID p))) owners acc))"

text \<open>The tracks of one query: each track's accumulator is appended under every query it has one for.\<close>

definition scored :: "MatcherEnv \<Rightarrow> MediaFile \<Rightarrow> queryAccum \<Rightarrow> scoredTrack" where
  "scored env mf a =
     sanitizedTrack.extend (newSanitizedTrack env mf (ac_ids a) (ac_mbids a)) \<lparr>sc_overlap = ac_overlap a\<rparr>"

fun bucket_loop ::
  "MatcherEnv \<Rightarrow> resolvedArtists \<Rightarrow> (string \<times> nat list) list \<Rightarrow> MediaFiles \<Rightarrow>
   (nat \<Rightarrow> scoredTrack list) \<Rightarrow> (nat \<Rightarrow> scoredTrack list)" where
  "bucket_loop env r queriesByArtist [] byQuery = byQuery"
| "bucket_loop env r queriesByArtist (mf # tracks) byQuery =
     (let acc = accumulate queriesByArtist (ra_mbid r) (mf_Artists mf) {} Map.empty
      in bucket_loop env r queriesByArtist tracks
           (\<lambda>idx. case acc idx of None \<Rightarrow> byQuery idx | Some a \<Rightarrow> byQuery idx @ [scored env mf a]))"

definition bucketTracks :: "MatcherEnv \<Rightarrow> resolvedArtists \<Rightarrow> MediaFiles \<Rightarrow> nat \<Rightarrow> scoredTrack list" where
  "bucketTracks env r tracks =
     bucket_loop env r (queries_by_artist (ra_byQuery r) []) tracks (\<lambda>_. [])"

definition fetchTracksCreditedTo :: "MatcherEnv \<Rightarrow> string list \<Rightarrow> string + MediaFiles" where
  "fetchTracksCreditedTo env artistIDs = (if artistIDs = [] then Inr [] else me_CreditedTo env artistIDs)"

definition match_threshold :: "MatcherEnv \<Rightarrow> float64" where
  "match_threshold env = me_round env (of_int (me_FuzzyThreshold env) / 100)"

fun title_loop ::
  "MatcherEnv \<Rightarrow> (nat \<Rightarrow> scoredTrack list) \<Rightarrow> (nat \<times> songQuery) list \<Rightarrow> matches \<Rightarrow> matches" where
  "title_loop env tracksByQuery [] result = result"
| "title_loop env tracksByQuery ((idx, q) # queries) result =
     (case findBestMatch env q (tracksByQuery idx) (match_threshold env) of
        Some mf \<Rightarrow> title_loop env tracksByQuery queries (result(idx \<mapsto> mf))
      | None \<Rightarrow> title_loop env tracksByQuery queries result)"

definition matchByTitle :: "MatcherEnv \<Rightarrow> Song list \<Rightarrow> matches \<Rightarrow> string + matches" where
  "matchByTitle env songs result =
     (let queries = groupQueries env songs result
      in if queries = [] then Inr result
         else bind_result (resolveArtists env queries) (\<lambda>resolved.
           if ra_allIDs resolved = [] then Inr result
           else bind_result (fetchTracksCreditedTo env (ra_allIDs resolved)) (\<lambda>tracks.
             Inr (title_loop env (bucketTracks env resolved tracks) queries result))))"

section \<open>The whole matcher\<close>

text \<open>A failing title phase has not touched the result it was given.\<close>

definition resolveMatches :: "MatcherEnv \<Rightarrow> Song list \<Rightarrow> string + matches" where
  "resolveMatches env songs =
     bind_result (matchByID env songs Map.empty) (\<lambda>r1.
     bind_result (matchByMBID env songs r1) (\<lambda>r2.
     bind_result (matchByISRC env songs r2) (\<lambda>r3.
       case matchByTitle env songs r3 of
         Inl e \<Rightarrow> if \<forall>i<length songs. r3 i = None then Inl e else Inr r3
       | Inr r4 \<Rightarrow> Inr r4)))"

fun order_loop ::
  "MatcherEnv \<Rightarrow> Song list \<Rightarrow> matches \<Rightarrow> go_int \<Rightarrow> nat \<Rightarrow> Song list \<Rightarrow> MediaFiles \<Rightarrow> (string \<rightharpoonup> nat) \<Rightarrow> MediaFiles" where
  "order_loop env songs matches limit i [] mfs addedBy = mfs"
| "order_loop env songs matches limit i (s # rest) mfs addedBy =
     (if int (length mfs) = limit then mfs
      else case matches i of
        None \<Rightarrow> order_loop env songs matches limit (Suc i) rest mfs addedBy
      | Some mf \<Rightarrow>
          (case addedBy (mf_ID mf) of
             Some prevIdx \<Rightarrow>
               if \<not> Song_Equals env s (songs ! prevIdx)
               then order_loop env songs matches limit (Suc i) rest mfs addedBy
               else order_loop env songs matches limit (Suc i) rest (mfs @ [mf]) addedBy
           | None \<Rightarrow>
               order_loop env songs matches limit (Suc i) rest (mfs @ [mf]) (addedBy(mf_ID mf \<mapsto> i))))"

definition orderAndDedup :: "MatcherEnv \<Rightarrow> Song list \<Rightarrow> matches \<Rightarrow> go_int \<Rightarrow> MediaFiles" where
  "orderAndDedup env songs matches limit = order_loop env songs matches limit 0 songs [] Map.empty"

definition MatchSongs :: "MatcherEnv \<Rightarrow> Song list \<Rightarrow> go_int \<Rightarrow> string + MediaFiles" where
  "MatchSongs env songs limit =
     (if songs = [] then Inr []
      else bind_result (resolveMatches env songs) (\<lambda>matches. Inr (orderAndDedup env songs matches limit)))"

definition MatchSongsIndexed :: "MatcherEnv \<Rightarrow> Song list \<Rightarrow> string + matches" where
  "MatchSongsIndexed env songs = (if songs = [] then Inr Map.empty else resolveMatches env songs)"

end
