(* ===== verification/Matcher_Correct.thy ===== *)
theory Matcher_Correct
  imports Matcher "HOL-Library.Product_Lexorder"
begin

text \<open>
  What the matcher promises: the priority of its loaders, the optimality of the fuzzy choice, the
  buckets of candidate tracks, and the order and deduplication of the final list.
\<close>

section \<open>The exact loaders\<close>

lemma fill_ids_at:
  "fill_ids m i songs r j =
     (if i \<le> j \<and> j < i + length songs \<and> song_ID (songs ! (j - i)) \<noteq> []
      then (case m (song_ID (songs ! (j - i))) of Some mf \<Rightarrow> Some mf | None \<Rightarrow> r j) else r j)"
proof (induction songs arbitrary: i j r)
  case (Cons s songs)
  consider "j < i" | "j = i" | k where "j = Suc (i + k)" by (metis less_Suc_eq_le less_iff_Suc_add linorder_neqE_nat)
  then show ?case
    by cases (auto simp: Cons.IH split: option.splits)
qed auto

lemma fill_open_at:
  "fill_open key m i songs r j =
     (if i \<le> j \<and> j < i + length songs \<and> r j = None \<and> key (songs ! (j - i)) \<noteq> []
      then m (key (songs ! (j - i))) else r j)"
proof (induction songs arbitrary: i j r)
  case (Cons s songs)
  consider "j < i" | "j = i" | k where "j = Suc (i + k)" by (metis less_Suc_eq_le less_iff_Suc_add linorder_neqE_nat)
  then show ?case
    by cases (auto simp: Cons.IH split: option.splits)
qed auto

lemma index_keys_at:
  "index_keys mf ks m k = (case m k of Some x \<Rightarrow> Some x | None \<Rightarrow> if k \<in> set ks then Some mf else None)"
  by (induction ks arbitrary: m) (auto split: option.splits)

lemma index_first_at:
  "index_first keys res m k =
     (case m k of Some x \<Rightarrow> Some x | None \<Rightarrow> List.find (\<lambda>mf. k \<in> set (keys mf)) res)"
  by (induction res arbitrary: m) (auto simp: index_keys_at split: option.splits)

lemma ToMap_ids_at: "ToMap res (\<lambda>mf. (mf_ID mf, mf)) k = Some mf \<Longrightarrow> mf_ID mf = k \<and> mf \<in> set res"
  by (auto simp: ToMap_spec dest!: map_of_SomeD)

lemma ToMap_ids_found:
  "mf \<in> set res \<Longrightarrow> distinct (map mf_ID res) \<Longrightarrow> ToMap res (\<lambda>mf. (mf_ID mf, mf)) (mf_ID mf) = Some mf"
  by (auto simp: ToMap_spec rev_map [symmetric] comp_def intro!: map_of_is_SomeI)

section \<open>The score order\<close>

definition score_key :: "matchScore \<Rightarrow> float64 \<times> float64 \<times> nat \<times> nat \<times> bool \<times> float64" where
  "score_key s = (ms_titleSimilarity s, ms_durationProximity s, ms_specificityLevel s,
     ms_artistOverlap s, ms_preferredMatch s, ms_albumSimilarity s)"

text \<open>The comparison is the lexicographic order of the six signals, most important first.\<close>

lemma betterThan_key: "betterThan s t \<longleftrightarrow> score_key t < score_key s"
  by (auto simp: betterThan_def score_key_def)

abbreviation acceptable :: "MatcherEnv \<Rightarrow> songQuery \<Rightarrow> float64 \<Rightarrow> scoredTrack \<Rightarrow> bool" where
  "acceptable env q threshold c \<equiv> threshold \<le> similarityRatio env (sq_title q) (st_title c)"

definition score_rank ::
  "MatcherEnv \<Rightarrow> songQuery \<Rightarrow> float64 \<Rightarrow> scoredTrack \<Rightarrow> float64 \<times> float64 \<times> nat \<times> nat \<times> bool \<times> float64" where
  "score_rank env q threshold c = score_key (score_of env q threshold c)"

lemma best_loop_spec:
  "(best_loop env q th cs bs bm = bm \<and>
      (\<forall>c\<in>set (filter (acceptable env q th) cs). score_rank env q th c \<le> score_key bs)) \<or>
   (\<exists>us c vs. filter (acceptable env q th) cs = us @ c # vs \<and> best_loop env q th cs bs bm = Some (st_mf c) \<and>
      score_key bs < score_rank env q th c \<and>
      (\<forall>u\<in>set us. score_rank env q th u < score_rank env q th c) \<and>
      (\<forall>v\<in>set vs. score_rank env q th v \<le> score_rank env q th c))"
proof (induction cs arbitrary: bs bm)
  case (Cons c cs)
  consider (skip) "\<not> acceptable env q th c"
    | (better) "acceptable env q th c" "score_key bs < score_rank env q th c"
    | (worse) "acceptable env q th c" "score_rank env q th c \<le> score_key bs"
    by (meson not_le)
  then show ?case
  proof cases
    case skip
    then show ?thesis using Cons.IH [of bs bm] by simp
  next
    case better
    let ?s = "score_of env q th c"
    have step: "best_loop env q th (c # cs) bs bm = best_loop env q th cs ?s (Some (st_mf c))"
      using better by (simp add: betterThan_key score_rank_def Let_def)
    have rank: "score_key ?s = score_rank env q th c" by (simp add: score_rank_def)
    from Cons.IH [of ?s "Some (st_mf c)"] show ?thesis
    proof
      assume "best_loop env q th cs ?s (Some (st_mf c)) = Some (st_mf c) \<and>
        (\<forall>c'\<in>set (filter (acceptable env q th) cs). score_rank env q th c' \<le> score_key ?s)"
      with better step rank show ?thesis
        by (intro disjI2 exI [of _ "[]"] exI [of _ c] exI [of _ "filter (acceptable env q th) cs"]) simp
    next
      assume "\<exists>us c' vs. filter (acceptable env q th) cs = us @ c' # vs \<and>
        best_loop env q th cs ?s (Some (st_mf c)) = Some (st_mf c') \<and> score_key ?s < score_rank env q th c' \<and>
        (\<forall>u\<in>set us. score_rank env q th u < score_rank env q th c') \<and>
        (\<forall>v\<in>set vs. score_rank env q th v \<le> score_rank env q th c')"
      then obtain us c' vs where c': "filter (acceptable env q th) cs = us @ c' # vs"
        "best_loop env q th cs ?s (Some (st_mf c)) = Some (st_mf c')" "score_key ?s < score_rank env q th c'"
        "\<forall>u\<in>set us. score_rank env q th u < score_rank env q th c'"
        "\<forall>v\<in>set vs. score_rank env q th v \<le> score_rank env q th c'" by blast
      with better step rank show ?thesis
        by (intro disjI2 exI [of _ "c # us"] exI [of _ c'] exI [of _ vs]) (auto intro: less_trans)
    qed
  next
    case worse
    have step: "best_loop env q th (c # cs) bs bm = best_loop env q th cs bs bm"
      using worse by (auto simp: betterThan_key score_rank_def Let_def)
    from Cons.IH [of bs bm] show ?thesis
    proof
      assume "best_loop env q th cs bs bm = bm \<and>
        (\<forall>c'\<in>set (filter (acceptable env q th) cs). score_rank env q th c' \<le> score_key bs)"
      with worse step show ?thesis by auto
    next
      assume "\<exists>us c' vs. filter (acceptable env q th) cs = us @ c' # vs \<and>
        best_loop env q th cs bs bm = Some (st_mf c') \<and> score_key bs < score_rank env q th c' \<and>
        (\<forall>u\<in>set us. score_rank env q th u < score_rank env q th c') \<and>
        (\<forall>v\<in>set vs. score_rank env q th v \<le> score_rank env q th c')"
      then obtain us c' vs where "filter (acceptable env q th) cs = us @ c' # vs"
        "best_loop env q th cs bs bm = Some (st_mf c')" "score_key bs < score_rank env q th c'"
        "\<forall>u\<in>set us. score_rank env q th u < score_rank env q th c'"
        "\<forall>v\<in>set vs. score_rank env q th v \<le> score_rank env q th c'" by blast
      with worse step show ?thesis
        by (intro disjI2 exI [of _ "c # us"] exI [of _ c'] exI [of _ vs]) (auto intro: le_less_trans)
    qed
  qed
qed simp

text \<open>
  C31. The fuzzy phase picks the best candidate. When the similarity measure is never negative, a
  match is found exactly when some candidate's title reaches the threshold; the track returned
  then beats every earlier acceptable candidate and is beaten by no later one, in the lexicographic
  order of title similarity, duration proximity, specificity, artist overlap, preference and album
  similarity.
\<close>

theorem findBestMatch_optimal:
  assumes "\<And>a b. 0 \<le> me_JaroWinkler env a b"
  shows "(findBestMatch env q cs th = None \<longleftrightarrow> (\<forall>c\<in>set cs. \<not> acceptable env q th c)) \<and>
    (\<forall>mf. findBestMatch env q cs th = Some mf \<longrightarrow>
       (\<exists>us c vs. filter (acceptable env q th) cs = us @ c # vs \<and> mf = st_mf c \<and>
          (\<forall>u\<in>set us. betterThan (score_of env q th c) (score_of env q th u)) \<and>
          (\<forall>v\<in>set vs. \<not> betterThan (score_of env q th v) (score_of env q th c))))"
proof -
  have "0 \<le> similarityRatio env a b" for a b using assms by (simp add: similarityRatio_def)
  then have init: "score_key initial_score < score_rank env q th c" for c
    by (auto simp: score_key_def initial_score_def score_rank_def score_of_def
        intro: less_le_trans [of "-1" 0])
  from best_loop_spec [of env q th cs initial_score None] show ?thesis
  proof
    assume *: "best_loop env q th cs initial_score None = None \<and>
      (\<forall>c\<in>set (filter (acceptable env q th) cs). score_rank env q th c \<le> score_key initial_score)"
    with init have "\<forall>c\<in>set cs. \<not> acceptable env q th c" by (auto simp: set_filter) (meson leD)
    with * show ?thesis by (simp add: findBestMatch_def)
  next
    assume "\<exists>us c vs. filter (acceptable env q th) cs = us @ c # vs \<and>
      best_loop env q th cs initial_score None = Some (st_mf c) \<and> score_key initial_score < score_rank env q th c \<and>
      (\<forall>u\<in>set us. score_rank env q th u < score_rank env q th c) \<and>
      (\<forall>v\<in>set vs. score_rank env q th v \<le> score_rank env q th c)"
    then obtain us c vs where c: "filter (acceptable env q th) cs = us @ c # vs"
      "findBestMatch env q cs th = Some (st_mf c)" and
      better: "\<forall>u\<in>set us. betterThan (score_of env q th c) (score_of env q th u)"
      "\<forall>v\<in>set vs. \<not> betterThan (score_of env q th v) (score_of env q th c)"
      unfolding findBestMatch_def betterThan_key score_rank_def by (auto simp: not_less)
    have "c \<in> set (filter (acceptable env q th) cs)" using c(1) by simp
    then have "\<exists>c\<in>set cs. acceptable env q th c" by auto
    with c better show ?thesis by auto
  qed
qed

section \<open>The buckets of candidate tracks\<close>

lemma values_at_append_to:
  "map_of (append_to m k v) a = (if a = k then Some (values_at m k @ [v]) else map_of m a)"
  by (induction m k v rule: append_to.induct) (auto simp: values_at_def)

lemma invert_ids_at:
  "distinct ids \<Longrightarrow> map_of (invert_ids idx ids m) a =
     (if a \<in> set ids then Some (values_at m a @ [idx]) else map_of m a)"
proof (induction ids arbitrary: m)
  case (Cons i ids)
  then show ?case by (auto simp: values_at_append_to values_at_def)
qed simp

lemma queries_by_artist_at:
  assumes "\<forall>(idx, ids)\<in>set bq. distinct ids"
  shows "values_at (queries_by_artist bq m) a =
     values_at m a @ map fst (filter (\<lambda>(idx, ids). a \<in> set ids) bq)"
  using assms
proof (induction bq m rule: queries_by_artist.induct)
  case (2 idx ids bq m)
  then have d: "distinct ids" "\<forall>(idx, ids)\<in>set bq. distinct ids" by auto
  from "2.IH" [OF d(2)] invert_ids_at [OF d(1), of idx m a] show ?case
    by (auto simp: values_at_def split: option.splits)
qed simp

lemma queries_by_artist_owners:
  assumes "\<forall>(idx, ids)\<in>set bq. distinct ids" "distinct (map fst bq)"
  shows "distinct (values_at (queries_by_artist bq []) a)"
    and "idx \<in> set (values_at (queries_by_artist bq []) a) \<longleftrightarrow> a \<in> set (values_at bq idx)"
proof -
  have eq: "values_at (queries_by_artist bq []) a = map fst (filter (\<lambda>(idx, ids). a \<in> set ids) bq)"
    using queries_by_artist_at [OF assms(1), of "[]" a] by (simp add: values_at_def)
  show "distinct (values_at (queries_by_artist bq []) a)"
    unfolding eq using assms(2) by (rule distinct_map_filter)
  have "(\<exists>ids. (idx, ids) \<in> set bq \<and> a \<in> set ids) \<longleftrightarrow> a \<in> set (values_at bq idx)"
    using assms(2) by (auto simp: values_at_def map_of_eq_Some_iff split: option.splits)
  then show "idx \<in> set (values_at (queries_by_artist bq []) a) \<longleftrightarrow> a \<in> set (values_at bq idx)"
    unfolding eq by force
qed

lemma bump_all_at:
  "distinct owners \<Longrightarrow> bump_all p mb owners acc idx =
     (if idx \<in> set owners then Some (bump p mb (acc idx)) else acc idx)"
  by (induction owners arbitrary: acc) auto

definition empty_accum :: queryAccum where
  "empty_accum = \<lparr>ac_overlap = 0, ac_ids = {}, ac_mbids = {}\<rparr>"

text \<open>The accumulator after the artists \<open>N\<close>, all new, are counted.\<close>

definition add_artists :: "(string \<rightharpoonup> string) \<Rightarrow> string set \<Rightarrow> queryAccum \<Rightarrow> queryAccum" where
  "add_artists mbids N a = \<lparr>ac_overlap = ac_overlap a + card N, ac_ids = ac_ids a \<union> N,
     ac_mbids = ac_mbids a \<union> ((\<lambda>p. gg_V [] (mbids p)) ` N - {[]})\<rparr>"

lemma add_artists_bump:
  assumes "finite N" "p \<notin> N"
  shows "add_artists mbids N (bump p (gg_V [] (mbids p)) acc) =
    add_artists mbids (insert p N) (gg_V empty_accum acc)"
  using assms by (cases acc) (auto simp: add_artists_def bump_def empty_accum_def gg_V_def Let_def)

lemma add_artists_empty: "add_artists mbids {} a = a"
  by (simp add: add_artists_def)

lemma accumulate_at:
  assumes "\<And>a. distinct (values_at qba a)"
  shows "accumulate qba mbids ps credited acc idx =
    (let N = {p \<in> pt_ID ` set ps. p \<notin> credited \<and> idx \<in> set (values_at qba p)}
     in if N = {} then acc idx else Some (add_artists mbids N (gg_V empty_accum (acc idx))))"
proof (induction ps arbitrary: credited acc)
  case (Cons p ps)
  let ?N = "\<lambda>ps credited. {p \<in> pt_ID ` set ps. p \<notin> credited \<and> idx \<in> set (values_at qba p)}"
  consider (dup) "pt_ID p \<in> credited" | (free) "pt_ID p \<notin> credited" "map_of qba (pt_ID p) = None"
    | (owned) owners where "pt_ID p \<notin> credited" "map_of qba (pt_ID p) = Some owners" by auto
  then show ?case
  proof cases
    case dup
    then have "?N (p # ps) credited = ?N ps credited" by auto
    then show ?thesis using dup Cons.IH by simp
  next
    case free
    then have "?N (p # ps) credited = ?N ps credited" by (auto simp: values_at_def)
    then show ?thesis using free Cons.IH by simp
  next
    case owned
    have v: "values_at qba (pt_ID p) = owners" using owned by (simp add: values_at_def)
    with assms have d: "distinct owners" by metis
    let ?acc = "bump_all (pt_ID p) (gg_V [] (mbids (pt_ID p))) owners acc"
    have step: "accumulate qba mbids (p # ps) credited acc idx =
        accumulate qba mbids ps (insert (pt_ID p) credited) ?acc idx" using owned by simp
    show ?thesis
    proof (cases "idx \<in> set owners")
      case True
      let ?M = "?N ps (insert (pt_ID p) credited)"
      have N: "?N (p # ps) credited = insert (pt_ID p) ?M" using True v owned(1) by auto
      have at: "?acc idx = Some (bump (pt_ID p) (gg_V [] (mbids (pt_ID p))) (acc idx))"
        using True by (simp add: bump_all_at [OF d])
      have M: "finite ?M" "pt_ID p \<notin> ?M" by auto
      have "accumulate qba mbids ps (insert (pt_ID p) credited) ?acc idx =
          Some (add_artists mbids ?M (bump (pt_ID p) (gg_V [] (mbids (pt_ID p))) (acc idx)))"
        unfolding Cons.IH at Let_def by (auto simp only: add_artists_empty gg_V_def option.case split: if_splits)
      then show ?thesis
        unfolding step N add_artists_bump [OF M] by (simp add: Let_def)
    next
      case False
      have N: "?N (p # ps) credited = ?N ps (insert (pt_ID p) credited)" using False v by auto
      have at: "?acc idx = acc idx" using False by (simp add: bump_all_at [OF d])
      show ?thesis unfolding step Cons.IH N at by (rule refl)
    qed
  qed
qed simp

text \<open>The artists a query owns that a track credits, and the tally the track gets for it.\<close>

definition owned_credits :: "resolvedArtists \<Rightarrow> nat \<Rightarrow> MediaFile \<Rightarrow> string set" where
  "owned_credits r idx t = pt_ID ` set (mf_Artists t) \<inter> set (values_at (ra_byQuery r) idx)"

lemma bucket_loop_at:
  assumes "\<And>a. distinct (values_at qba a)"
    and "\<And>a. idx \<in> set (values_at qba a) \<longleftrightarrow> a \<in> set (values_at (ra_byQuery r) idx)"
  shows "bucket_loop env r qba tracks bq idx = bq idx @
    map (\<lambda>t. scored env t (add_artists (ra_mbid r) (owned_credits r idx t) empty_accum))
      (filter (\<lambda>t. owned_credits r idx t \<noteq> {}) tracks)"
proof (induction tracks arbitrary: bq)
  case (Cons t tracks)
  have N: "{p \<in> pt_ID ` set (mf_Artists t). p \<notin> {} \<and> idx \<in> set (values_at qba p)} = owned_credits r idx t"
    using assms(2) by (auto simp: owned_credits_def)
  have acc: "accumulate qba (ra_mbid r) (mf_Artists t) {} Map.empty idx =
      (if owned_credits r idx t = {} then None
       else Some (add_artists (ra_mbid r) (owned_credits r idx t) empty_accum))"
    unfolding accumulate_at [OF assms(1)] N Let_def by (simp add: gg_V_def)
  show ?case using Cons.IH by (simp add: Let_def acc)
qed simp

lemma addToSet_at:
  "map_of (addToSet m k v) a = (if a = k then Some (insert_key (values_at m k) v) else map_of m a)"
  by (induction m k v rule: addToSet.induct) (auto simp: values_at_def insert_key_def)

definition set_map :: "('k \<times> 'v list) list \<Rightarrow> bool" where
  "set_map m \<longleftrightarrow> distinct (map fst m) \<and> (\<forall>(k, vs)\<in>set m. distinct vs)"

lemma addToSet_keys: "fst ` set (addToSet m k v) = insert k (fst ` set m)"
  by (induction m k v rule: addToSet.induct) auto

lemma addToSet_set_map: "set_map m \<Longrightarrow> set_map (addToSet m k v)"
  by (induction m k v rule: addToSet.induct) (auto simp: set_map_def addToSet_keys)

lemma own_artists_set_map:
  "set_map (ra_byQuery res) \<Longrightarrow> set_map (ra_byQuery (fst (own_artists idx as res pending)))"
  by (induction idx as res pending rule: own_artists.induct) (auto simp: addToSet_set_map)

lemma own_queries_set_map:
  "set_map (ra_byQuery res) \<Longrightarrow> set_map (ra_byQuery (fst (own_queries qs res pending)))"
proof (induction qs res pending rule: own_queries.induct)
  case (2 idx q queries res pending)
  then show ?case
    using own_artists_set_map [of res idx "sq_artists q" pending] by (auto split: prod.splits)
qed simp

lemma own_all_set_map: "set_map m \<Longrightarrow> set_map (own_all a idxs m)"
  by (induction a idxs m rule: own_all.induct) (auto simp: addToSet_set_map)

lemma resolve_rows_set_map:
  "set_map (ra_byQuery res) \<Longrightarrow> set_map (ra_byQuery (resolve_rows n2q m2q rows res))"
  by (induction n2q m2q rows res rule: resolve_rows.induct) (simp_all add: Let_def own_all_set_map)

lemma resolveArtists_set_map:
  assumes "resolveArtists env queries = Inr r" shows "set_map (ra_byQuery r)"
proof -
  obtain res pending where
    own: "own_queries queries \<lparr>ra_byQuery = [], ra_mbid = Map.empty, ra_allIDs = []\<rparr> [] = (res, pending)"
    by fastforce
  have "set_map (ra_byQuery res)"
    using own_queries_set_map [of "\<lparr>ra_byQuery = [], ra_mbid = Map.empty, ra_allIDs = []\<rparr>" queries "[]"] own
    by (simp add: set_map_def)
  with assms own show ?thesis
    by (auto simp: resolveArtists_def Let_def bind_result_Inr resolve_rows_set_map split: if_splits)
qed

text \<open>
  The candidates of a query are the tracks, in the order they were fetched, that credit at least
  one of the artists the query was resolved to, whatever order the maps are ranged over. Each comes
  with the number of distinct artists of the query it credits, with those artists, and with their
  MusicBrainz ids; a track that credits an artist twice counts it once.
\<close>

lemma bucketTracks_spec:
  assumes "resolveArtists env queries = Inr r"
  shows "bucketTracks env r tracks idx =
    map (\<lambda>t. scored env t
          \<lparr>ac_overlap = card (owned_credits r idx t), ac_ids = owned_credits r idx t,
           ac_mbids = (\<lambda>p. gg_V [] (ra_mbid r p)) ` owned_credits r idx t - {[]}\<rparr>)
      (filter (\<lambda>t. owned_credits r idx t \<noteq> {}) tracks)"
proof -
  have sm: "\<forall>(idx, ids)\<in>set (ra_byQuery r). distinct ids" "distinct (map fst (ra_byQuery r))"
    using resolveArtists_set_map [OF assms] by (auto simp: set_map_def)
  show ?thesis
    unfolding bucketTracks_def
    by (subst bucket_loop_at) (auto simp: queries_by_artist_owners [OF sm] add_artists_def empty_accum_def)
qed

section \<open>The loaders together\<close>

lemma group_queries_open:
  "(j, q) \<in> set (group_queries env i songs r) \<Longrightarrow>
   i \<le> j \<and> j < i + length songs \<and> r j = None \<and> sq_title q = me_sanitize env (song_Name (songs ! (j - i)))"
proof (induction songs arbitrary: i)
  case (Cons s songs)
  show ?case
  proof (cases "(j, q) \<in> set (group_queries env (Suc i) songs r)")
    case True
    from Cons.IH [OF True] have "j - i = Suc (j - Suc i)"
      by (simp add: Suc_diff_Suc Suc_le_eq)
    with Cons.IH [OF True] show ?thesis by simp
  next
    case False
    with Cons.prems show ?thesis by (auto simp: Let_def split: if_splits)
  qed
qed simp

lemma title_loop_cases:
  "title_loop env tb qs r j = r j \<or>
   (\<exists>q mf. (j, q) \<in> set qs \<and> findBestMatch env q (tb j) (match_threshold env) = Some mf \<and>
      title_loop env tb qs r j = Some mf)"
proof (induction env tb qs r rule: title_loop.induct)
  case (2 env tb idx q qs r)
  show ?case
  proof (cases "findBestMatch env q (tb idx) (match_threshold env)")
    case None
    from "2.IH"(1) [OF None] None show ?thesis by auto
  next
    case (Some mf)
    have step: "title_loop env tb ((idx, q) # qs) r j = title_loop env tb qs (r(idx \<mapsto> mf)) j"
      using Some by simp
    from "2.IH"(2) [OF Some] Some show ?thesis
      unfolding step by (metis fun_upd_apply list.set_intros)
  qed
qed simp

lemma findBestMatch_candidate:
  assumes "findBestMatch env q cs th = Some mf"
  shows "\<exists>c\<in>set cs. st_mf c = mf \<and> acceptable env q th c"
proof -
  have "\<exists>us c vs. filter (acceptable env q th) cs = us @ c # vs \<and> mf = st_mf c"
    using best_loop_spec [of env q th cs initial_score None] assms by (auto simp: findBestMatch_def)
  then obtain us c vs where c: "filter (acceptable env q th) cs = us @ c # vs" "mf = st_mf c" by blast
  then have "c \<in> set (filter (acceptable env q th) cs)" by simp
  with c(2) show ?thesis by auto
qed

text \<open>The loaders after the first only fill positions that are still open.\<close>

lemma loaders_keep:
  "matchByMBID env songs r = Inr r' \<Longrightarrow> r i = Some mf \<Longrightarrow> r' i = Some mf"
  "matchByISRC env songs r = Inr r' \<Longrightarrow> r i = Some mf \<Longrightarrow> r' i = Some mf"
  "matchByTitle env songs r = Inr r' \<Longrightarrow> r i = Some mf \<Longrightarrow> r' i = Some mf"
proof -
  show "matchByMBID env songs r = Inr r' \<Longrightarrow> r i = Some mf \<Longrightarrow> r' i = Some mf"
    by (auto simp: matchByMBID_def Let_def bind_result_Inr fill_open_at split: if_splits)
  show "matchByISRC env songs r = Inr r' \<Longrightarrow> r i = Some mf \<Longrightarrow> r' i = Some mf"
    by (auto simp: matchByISRC_def Let_def bind_result_Inr fill_open_at split: if_splits)
  assume "matchByTitle env songs r = Inr r'" "r i = Some mf"
  moreover have "(i, q) \<notin> set (groupQueries env songs r)" for q
    using group_queries_open [of i q env 0 songs r] \<open>r i = Some mf\<close> by (auto simp: groupQueries_def)
  ultimately show "r' i = Some mf"
    using title_loop_cases [of env _ "groupQueries env songs r" r i]
    by (auto simp: matchByTitle_def Let_def bind_result_Inr split: if_splits)
qed

lemma resolveMatches_phases:
  assumes "resolveMatches env songs = Inr result"
  obtains r1 r2 r3 where "matchByID env songs Map.empty = Inr r1" "matchByMBID env songs r1 = Inr r2"
    "matchByISRC env songs r2 = Inr r3" "result = r3 \<or> matchByTitle env songs r3 = Inr result"
  using assms unfolding resolveMatches_def bind_result_Inr
  by (elim exE conjE) (auto split: sum.splits if_splits)

text \<open>
  A song that carries the id of a library track is matched to that track, whatever the other
  loaders find for it: if the track is in the answer to the id query (whose ids are unique), the
  final result for the song is that track.
\<close>

lemma id_match_wins:
  assumes "resolveMatches env songs = Inr result"
    and "me_ByID env (filter (\<lambda>i. i \<noteq> []) (map song_ID songs)) = Inr res"
    and "distinct (map mf_ID res)" "mf \<in> set res"
    and "i < length songs" "song_ID (songs ! i) = mf_ID mf" "mf_ID mf \<noteq> []"
  shows "result i = Some mf"
proof -
  obtain r1 r2 r3 where r: "matchByID env songs Map.empty = Inr r1" "matchByMBID env songs r1 = Inr r2"
    "matchByISRC env songs r2 = Inr r3" "result = r3 \<or> matchByTitle env songs r3 = Inr result"
    using resolveMatches_phases [OF assms(1)] .
  have "mf_ID mf \<in> song_ID ` set songs" using assms(5,6) by (metis imageI nth_mem)
  then have "song_ID (songs ! i) \<in> set (filter (\<lambda>i. i \<noteq> []) (map song_ID songs))"
    using assms(6,7) by simp
  then have ne: "filter (\<lambda>i. i \<noteq> []) (map song_ID songs) \<noteq> []" by (metis empty_iff empty_set)
  have "r1 i = Some mf"
    using r(1) assms ne by (auto simp: matchByID_def Let_def fill_ids_at ToMap_ids_found)
  then have "r3 i = Some mf" using r(2,3) loaders_keep by metis
  then show ?thesis using r(4) loaders_keep(3) by metis
qed

text \<open>Where a match can come from.\<close>

definition justified :: "MatcherEnv \<Rightarrow> Song \<Rightarrow> MediaFile \<Rightarrow> bool" where
  "justified env s mf \<longleftrightarrow>
     song_ID s \<noteq> [] \<and> mf_ID mf = song_ID s \<or>
     song_MBID s \<noteq> [] \<and> mf_MbzRecordingID mf = song_MBID s \<or>
     song_ISRC s \<noteq> [] \<and> song_ISRC s \<in> set (mf_ISRC mf) \<or>
     match_threshold env \<le>
       similarityRatio env (me_sanitize env (song_Name s)) (me_sanitize env (mf_Title mf))"

definition all_justified :: "MatcherEnv \<Rightarrow> Song list \<Rightarrow> matches \<Rightarrow> bool" where
  "all_justified env songs r \<longleftrightarrow> (\<forall>i mf. r i = Some mf \<longrightarrow> i < length songs \<and> justified env (songs ! i) mf)"

lemma fill_open_justified:
  assumes "all_justified env songs r"
    and "\<And>s mf. s \<in> set songs \<Longrightarrow> key s \<noteq> [] \<Longrightarrow> key s \<in> set (keys mf) \<Longrightarrow> justified env s mf"
  shows "all_justified env songs (fill_open key (index_first keys res Map.empty) 0 songs r)"
  using assms by (auto simp: all_justified_def fill_open_at index_first_at find_Some_iff)

lemma bucket_title:
  assumes "resolveArtists env queries = Inr r" "c \<in> set (bucketTracks env r tracks idx)"
  shows "st_title c = me_sanitize env (mf_Title (st_mf c))"
  using assms(2) unfolding bucketTracks_spec [OF assms(1)]
  by (auto simp: scored_def newSanitizedTrack_def sanitizedTrack.extend_def)

lemma matchByTitle_justified:
  assumes "matchByTitle env songs r = Inr r'" "all_justified env songs r"
  shows "all_justified env songs r'"
  unfolding all_justified_def
proof (intro allI impI)
  fix i mf assume i: "r' i = Some mf"
  show "i < length songs \<and> justified env (songs ! i) mf"
  proof (cases "r i = r' i")
    case True
    with i assms(2) show ?thesis by (simp add: all_justified_def)
  next
    case False
    with assms(1) obtain ra tracks where ra: "resolveArtists env (groupQueries env songs r) = Inr ra"
      "r' = title_loop env (bucketTracks env ra tracks) (groupQueries env songs r) r"
      by (auto simp: matchByTitle_def Let_def bind_result_Inr split: if_splits)
    with title_loop_cases [of env "bucketTracks env ra tracks" "groupQueries env songs r" r i] False i
    obtain q where q: "(i, q) \<in> set (group_queries env 0 songs r)"
      "findBestMatch env q (bucketTracks env ra tracks i) (match_threshold env) = Some mf"
      by (auto simp: groupQueries_def)
    from findBestMatch_candidate [OF q(2)] obtain c where
      "c \<in> set (bucketTracks env ra tracks i)" "st_mf c = mf" "acceptable env q (match_threshold env) c"
      by blast
    with bucket_title [OF ra(1)] group_queries_open [OF q(1)] show ?thesis
      by (auto simp: justified_def)
  qed
qed

text \<open>
  C32. Every match is justified: a track is returned for a song only because its id, its MusicBrainz
  recording id or one of its ISRCs is the song's, or because its sanitized title is at least as
  similar to the song's as the configured threshold. No index outside the input occurs.
\<close>

theorem resolveMatches_sound:
  assumes "resolveMatches env songs = Inr result" "result i = Some mf"
  shows "i < length songs \<and> justified env (songs ! i) mf"
proof -
  obtain r1 r2 r3 where r: "matchByID env songs Map.empty = Inr r1" "matchByMBID env songs r1 = Inr r2"
    "matchByISRC env songs r2 = Inr r3" "result = r3 \<or> matchByTitle env songs r3 = Inr result"
    using resolveMatches_phases [OF assms(1)] .
  have "all_justified env songs r1"
    using r(1) by (auto simp: matchByID_def Let_def bind_result_Inr all_justified_def fill_ids_at
        justified_def dest: ToMap_ids_at split: if_splits option.splits)
  then have "all_justified env songs r2"
    using r(2) by (auto simp: matchByMBID_def Let_def bind_result_Inr mbid_keys_def justified_def
        intro!: fill_open_justified split: if_splits)
  then have "all_justified env songs r3"
    using r(3) by (auto simp: matchByISRC_def Let_def bind_result_Inr justified_def
        intro!: fill_open_justified split: if_splits)
  then have "all_justified env songs result" using r(4) matchByTitle_justified by blast
  with assms(2) show ?thesis by (simp add: all_justified_def)
qed

section \<open>Order and deduplication\<close>

text \<open>The state of the loop: the positions \<open>js\<close> picked so far, below \<open>i\<close>.\<close>

definition picked_id :: "matches \<Rightarrow> nat \<Rightarrow> string" where
  "picked_id matches j = mf_ID (the (matches j))"

definition order_inv ::
  "MatcherEnv \<Rightarrow> Song list \<Rightarrow> matches \<Rightarrow> nat \<Rightarrow> nat list \<Rightarrow> (string \<rightharpoonup> nat) \<Rightarrow> bool" where
  "order_inv env songs matches i js addedBy \<longleftrightarrow>
     sorted_wrt (<) js \<and>
     (\<forall>j\<in>set js. j < i \<and> matches j \<noteq> None) \<and>
     (\<forall>j\<in>set js. \<exists>p. addedBy (picked_id matches j) = Some p \<and> Song_Equals env (songs ! j) (songs ! p)) \<and>
     (\<forall>x p. addedBy x = Some p \<longrightarrow> p \<in> set js \<and> picked_id matches p = x) \<and>
     (\<forall>k<i. matches k \<noteq> None \<and> k \<notin> set js \<longrightarrow>
        (\<exists>p\<in>set js. p < k \<and> picked_id matches p = picked_id matches k \<and>
           \<not> Song_Equals env (songs ! k) (songs ! p)))"

definition order_outcome ::
  "MatcherEnv \<Rightarrow> Song list \<Rightarrow> matches \<Rightarrow> go_int \<Rightarrow> MediaFiles \<Rightarrow> nat list \<Rightarrow> bool" where
  "order_outcome env songs matches limit mfs js \<longleftrightarrow>
     mfs = map (\<lambda>j. the (matches j)) js \<and> sorted_wrt (<) js \<and>
     (\<forall>j\<in>set js. j < length songs \<and> matches j \<noteq> None) \<and>
     (0 \<le> limit \<longrightarrow> int (length js) \<le> limit) \<and>
     (\<forall>j\<in>set js. \<forall>k\<in>set js. picked_id matches j = picked_id matches k \<longrightarrow>
        Song_Equals env (songs ! j) (songs ! k)) \<and>
     (int (length js) \<noteq> limit \<longrightarrow>
        (\<forall>k<length songs. matches k \<noteq> None \<and> k \<notin> set js \<longrightarrow>
           (\<exists>p\<in>set js. p < k \<and> picked_id matches p = picked_id matches k \<and>
              \<not> Song_Equals env (songs ! k) (songs ! p))))"

lemma order_inv_outcome:
  assumes "order_inv env songs matches i js addedBy" "i \<le> length songs"
    and "0 \<le> limit \<longrightarrow> int (length js) \<le> limit" "int (length js) = limit \<or> i = length songs"
  shows "order_outcome env songs matches limit (map (\<lambda>j. the (matches j)) js) js"
proof -
  have "Song_Equals env (songs ! j) (songs ! k)"
    if "j \<in> set js" "k \<in> set js" "picked_id matches j = picked_id matches k" for j k
  proof -
    from assms(1) that(1) obtain p where "addedBy (picked_id matches j) = Some p"
      "Song_Equals env (songs ! j) (songs ! p)" unfolding order_inv_def by blast
    moreover from assms(1) that(2) obtain p' where "addedBy (picked_id matches k) = Some p'"
      "Song_Equals env (songs ! k) (songs ! p')" unfolding order_inv_def by blast
    ultimately show ?thesis using that(3) by (simp add: Song_Equals_def)
  qed
  moreover have "sorted_wrt (<) js" "\<forall>j\<in>set js. j < length songs \<and> matches j \<noteq> None"
    using assms(1,2) by (auto simp: order_inv_def)
  moreover have "int (length js) \<noteq> limit \<longrightarrow> (\<forall>k<length songs. matches k \<noteq> None \<and> k \<notin> set js \<longrightarrow>
      (\<exists>p\<in>set js. p < k \<and> picked_id matches p = picked_id matches k \<and>
         \<not> Song_Equals env (songs ! k) (songs ! p)))"
    using assms(1,4) unfolding order_inv_def by blast
  ultimately show ?thesis using assms(3) unfolding order_outcome_def by blast
qed

lemma order_inv_skip:
  assumes "order_inv env songs matches i js addedBy"
    and "matches i \<noteq> None \<longrightarrow> (\<exists>p\<in>set js. picked_id matches p = picked_id matches i \<and>
       \<not> Song_Equals env (songs ! i) (songs ! p))"
  shows "order_inv env songs matches (Suc i) js addedBy"
  using assms unfolding order_inv_def less_Suc_eq by blast

lemma order_inv_pick:
  assumes "order_inv env songs matches i js addedBy" "matches i \<noteq> None"
    and "addedBy (picked_id matches i) = None \<and> addedBy' = addedBy(picked_id matches i \<mapsto> i) \<or>
      addedBy' = addedBy \<and> (\<exists>p. addedBy (picked_id matches i) = Some p \<and> Song_Equals env (songs ! i) (songs ! p))"
  shows "order_inv env songs matches (Suc i) (js @ [i]) addedBy'"
proof -
  have "sorted_wrt (<) (js @ [i])" using assms(1) by (auto simp: order_inv_def sorted_wrt_append)
  moreover have "\<exists>p. addedBy' (picked_id matches j) = Some p \<and> Song_Equals env (songs ! j) (songs ! p)"
    if "j \<in> set (js @ [i])" for j
    using that assms by (auto simp: order_inv_def Song_Equals_def) (metis option.distinct(1))
  moreover have "p \<in> set (js @ [i]) \<and> picked_id matches p = x" if "addedBy' x = Some p" for x p
    using that assms(1,3) by (auto simp: order_inv_def split: if_splits)
  ultimately show ?thesis using assms(1,2) unfolding order_inv_def less_Suc_eq by auto
qed

lemma drop_ConsD:
  assumes "s # rest = drop i xs" shows "i < length xs \<and> s = xs ! i \<and> rest = drop (Suc i) xs"
proof -
  have i: "i < length xs" using assms by (metis drop_all linorder_not_le list.distinct(1))
  have "s # rest = xs ! i # drop (Suc i) xs" using assms Cons_nth_drop_Suc [OF i] by metis
  with i show ?thesis by simp
qed

lemma order_loop_outcome:
  assumes "order_inv env songs matches i js addedBy" "rest = drop i songs" "i \<le> length songs"
    and "0 \<le> limit \<longrightarrow> int (length js) \<le> limit"
  shows "\<exists>js'. order_outcome env songs matches limit
    (order_loop env songs matches limit i rest (map (\<lambda>j. the (matches j)) js) addedBy) js'"
  using assms
proof (induction rest arbitrary: i js addedBy)
  case Nil
  then show ?case using order_inv_outcome [OF Nil.prems(1,3,4)] by auto
next
  case (Cons s rest)
  have i: "i < length songs" "s = songs ! i" "rest = drop (Suc i) songs"
    using drop_ConsD [OF Cons.prems(2)] by auto
  let ?mfs = "map (\<lambda>j. the (matches j)) js"
  consider (full) "int (length js) = limit" | (none) "int (length js) \<noteq> limit" "matches i = None"
    | (dup) mf p where "int (length js) \<noteq> limit" "matches i = Some mf" "addedBy (mf_ID mf) = Some p"
        "\<not> Song_Equals env s (songs ! p)"
    | (pick) mf addedBy' where "int (length js) \<noteq> limit" "matches i = Some mf"
        "addedBy (picked_id matches i) = None \<and> addedBy' = addedBy(picked_id matches i \<mapsto> i) \<or>
         addedBy' = addedBy \<and> (\<exists>p. addedBy (picked_id matches i) = Some p \<and> Song_Equals env (songs ! i) (songs ! p))"
        "order_loop env songs matches limit i (s # rest) ?mfs addedBy =
         order_loop env songs matches limit (Suc i) rest (?mfs @ [mf]) addedBy'"
    using i(2) by (cases "matches i"; cases "addedBy (picked_id matches i)")
      (fastforce simp: picked_id_def)+
  then show ?case
  proof cases
    case full
    then show ?thesis using order_inv_outcome [OF Cons.prems(1,3,4)] by auto
  next
    case none
    from order_inv_skip [OF Cons.prems(1)] none(2) have "order_inv env songs matches (Suc i) js addedBy" by simp
    from Cons.IH [OF this i(3)] i(1) Cons.prems(4) none show ?thesis by simp
  next
    case dup
    have "p \<in> set js" "picked_id matches p = picked_id matches i"
      using Cons.prems(1) dup(2,3) by (auto simp: order_inv_def picked_id_def)
    with order_inv_skip [OF Cons.prems(1)] dup(4) i(2)
    have "order_inv env songs matches (Suc i) js addedBy" by blast
    from Cons.IH [OF this i(3)] i(1) Cons.prems(4) dup show ?thesis by simp
  next
    case pick
    have "order_inv env songs matches (Suc i) (js @ [i]) addedBy'"
      using order_inv_pick [OF Cons.prems(1) _ pick(3)] pick(2) by simp
    moreover have "0 \<le> limit \<longrightarrow> int (length (js @ [i])) \<le> limit"
      using Cons.prems(4) pick(1) by auto
    ultimately show ?thesis using Cons.IH [of "Suc i" "js @ [i]" addedBy'] i pick(2)
      unfolding pick(4) by simp
  qed
qed

text \<open>
  The final list follows the input's order and respects the limit (a negative limit is none): it
  is the sequence of matched tracks at increasing input positions. A track occurs more than once
  only for input songs that are equal to each other. When the limit does not cut the list, the only
  matched songs left out are those whose track an earlier, different song already brought.
\<close>

lemma orderAndDedup_spec:
  "\<exists>js. order_outcome env songs matches limit (orderAndDedup env songs matches limit) js"
proof -
  have "order_inv env songs matches 0 [] Map.empty" by (simp add: order_inv_def)
  from order_loop_outcome [OF this] show ?thesis by (simp add: orderAndDedup_def)
qed

section \<open>Examples\<close>

text \<open>A library of two tracks by one artist; equal strings are similar, others are not.\<close>

definition library :: MediaFiles where
  "library = [zero_MediaFile\<lparr>mf_ID := ''1'', mf_Title := ''hello'', mf_Artists := [\<lparr>pt_ID = ''x'', pt_Name = ''ann''\<rparr>]\<rparr>,
     zero_MediaFile\<lparr>mf_ID := ''2'', mf_Title := ''world'', mf_Artists := [\<lparr>pt_ID = ''x'', pt_Name = ''ann''\<rparr>]\<rparr>]"

definition sample_matcher :: MatcherEnv where
  "sample_matcher = \<lparr>me_sanitize = id, me_sanitizeNoArticle = id, me_JaroWinkler = (\<lambda>_ _. 0),
     me_round = id, me_songHash = (\<lambda>s. length (song_Name s)),
     me_ByID = (\<lambda>ids. Inr (filter (\<lambda>mf. mf_ID mf \<in> set ids) library)),
     me_ByMBID = (\<lambda>_. Inr []), me_ByISRC = (\<lambda>_. Inr []),
     me_Artists = (\<lambda>names mbids ids.
       Inr (filter (\<lambda>a. ar_OrderArtistName a \<in> set names)
         [\<lparr>ar_ID = ''x'', ar_OrderArtistName = ''ann'', ar_MbzArtistID = []\<rparr>])),
     me_CreditedTo = (\<lambda>_. Inr library), me_FuzzyThreshold = 85, me_PreferStarred = False\<rparr>"

definition asked :: "string \<Rightarrow> string \<Rightarrow> Song" where
  "asked i name = \<lparr>song_ID = i, song_Name = name, song_MBID = [], song_ISRC = [],
     song_Artists = [\<lparr>ag_ID = [], ag_Name = ''ann'', ag_MBID = []\<rparr>], song_Album = [],
     song_AlbumMBID = [], song_Duration = 0\<rparr>"

definition wanted :: "Song list" where
  "wanted = [asked ''2'' ''hello'', asked [] ''world'', asked [] ''other'']"

definition found :: matches where
  "found = (case resolveMatches sample_matcher wanted of Inr r \<Rightarrow> r | Inl _ \<Rightarrow> Map.empty)"

lemma sample_resolves: "resolveMatches sample_matcher wanted = Inr found"
proof -
  have "case resolveMatches sample_matcher wanted of Inr r \<Rightarrow> True | Inl _ \<Rightarrow> False" by code_simp
  then show ?thesis by (auto simp: found_def split: sum.splits)
qed

lemma sample_matches: "map_option mf_ID (found 0) = Some ''2''" "map_option mf_ID (found 1) = Some ''2''"
  "found 2 = None"
  by code_simp+

lemma id_match_wins_witness: "found 0 = Some (library ! 1)"
proof (rule id_match_wins [OF sample_resolves])
  show "me_ByID sample_matcher (filter (\<lambda>i. i \<noteq> []) (map song_ID wanted)) = Inr [library ! 1]"
    by (simp add: sample_matcher_def wanted_def asked_def library_def)
qed (simp_all add: wanted_def asked_def library_def)

theorem resolveMatches_sound_witness: "\<exists>mf. found 1 = Some mf \<and> justified sample_matcher (wanted ! 1) mf"
proof -
  obtain mf where "found 1 = Some mf" using sample_matches(2) by auto
  with resolveMatches_sound [OF sample_resolves this] show ?thesis by blast
qed

definition two_candidates :: "scoredTrack list" where
  "two_candidates = map (\<lambda>t. scored sample_matcher t empty_accum) library"

definition world_query :: songQuery where
  "world_query = \<lparr>sq_title = ''world'', sq_artists = [], sq_album = [], sq_albumMBID = [], sq_durationMs = 0\<rparr>"

theorem findBestMatch_optimal_witness:
  "findBestMatch sample_matcher world_query two_candidates 1 \<noteq> None"
proof -
  have "acceptable sample_matcher world_query 1 (two_candidates ! 1)" by code_simp
  moreover have "two_candidates ! 1 \<in> set two_candidates" by (simp add: two_candidates_def library_def)
  moreover have "0 \<le> me_JaroWinkler sample_matcher a b" for a b by (simp add: sample_matcher_def)
  ultimately show ?thesis
    using findBestMatch_optimal [of sample_matcher world_query two_candidates 1] by blast
qed

definition ann_query :: "(nat \<times> songQuery) list" where
  "ann_query = [(1, world_query\<lparr>sq_artists := [\<lparr>qa_id = ''x'', qa_name = ''ann'', qa_mbid = []\<rparr>]\<rparr>)]"

definition ann_resolved :: resolvedArtists where
  "ann_resolved = \<lparr>ra_byQuery = [(1, [''x''])], ra_mbid = Map.empty, ra_allIDs = [''x'']\<rparr>"

lemma bucketTracks_spec_witness:
  "resolveArtists sample_matcher ann_query = Inr ann_resolved \<and>
   map (\<lambda>c. mf_ID (st_mf c)) (bucketTracks sample_matcher ann_resolved library 1) = [''1'', ''2'']"
proof -
  have r: "resolveArtists sample_matcher ann_query = Inr ann_resolved"
    by (simp add: resolveArtists_def sample_matcher_def ann_query_def world_query_def ann_resolved_def
        insert_key_def)
  have own: "owned_credits ann_resolved 1 t \<noteq> {}" if "t \<in> set library" for t
    using that by (auto simp: owned_credits_def library_def ann_resolved_def values_at_def)
  have "st_mf (scored sample_matcher t a) = t" for t a
    by (simp add: scored_def newSanitizedTrack_def sanitizedTrack.extend_def)
  moreover have "filter (\<lambda>t. owned_credits ann_resolved 1 t \<noteq> {}) library = library"
    using own by simp
  ultimately show ?thesis
    unfolding bucketTracks_spec [OF r] using r by (simp add: comp_def library_def)
qed

section \<open>Duration\<close>

text \<open>
  The duration signal is a score in the unit interval, 1 when the song's duration is unknown, for
  every rounding that is monotone and keeps 0 and 1.
\<close>

theorem durationProximity_bounds:
  assumes "mono (me_round env)" "me_round env 0 = 0" "me_round env 1 = 1"
  shows "0 \<le> durationProximity env ms dur \<and> durationProximity env ms dur \<le> 1 \<and>
    durationProximity env 0 dur = 1"
proof -
  let ?d = "\<bar>me_round env (me_round env (of_nat ms / 1000) - float32_value dur)\<bar>"
  have "1 \<le> me_round env (1 + ?d)" using assms(1,3) monoD [OF assms(1), of 1 "1 + ?d"] by simp
  then have "0 \<le> 1 / me_round env (1 + ?d)" "1 / me_round env (1 + ?d) \<le> 1" by simp_all
  then have "0 \<le> me_round env (1 / me_round env (1 + ?d))" "me_round env (1 / me_round env (1 + ?d)) \<le> 1"
    using monoD [OF assms(1)] assms(2,3) by metis+
  then show ?thesis by (simp add: durationProximity_def Let_def)
qed

theorem durationProximity_bounds_witness:
  "0 \<le> durationProximity sample_matcher 180000 0 \<and> durationProximity sample_matcher 180000 0 \<le> 1"
  using durationProximity_bounds [of sample_matcher 180000 0]
  by (simp add: sample_matcher_def mono_def)

end
