(* ===== verification/Scrobbler_Buffer.thy ===== *)
theory Scrobbler_Buffer
  imports Bragi_Prelude
begin

text \<open>
  \<open>core/scrobbler/buffered_scrobbler.go\<close> and the table it works on
  (\<open>persistence/scrobble_buffer_repository.go\<close>): scrobbles are stored first and delivered to the
  external service by a background loop, in order, with retries.

  The table is the list of its rows in \<open>rowid\<close> order. What the outside world does is a state
  \<open>'w\<close>: whether the next database operation fails, and how the wrapped scrobbler answers. The
  order in which \<open>UserIDs\<close> breaks ties between users with equally many rows is a parameter. A ghost
  list records what was sent, with the answer.
\<close>

section \<open>Retry delays\<close>

type_synonym duration_s = int

definition minRetryDelay :: duration_s where "minRetryDelay = 5"
definition maxRetryDelay :: duration_s where "maxRetryDelay = 240"
definition maxRetryShift :: int where "maxRetryShift = 6"

definition backoffDelay :: "go_int \<Rightarrow> duration_s" where
  "backoffDelay failures0 =
     (let failures = (if failures0 < 0 then 0 else failures0)
      in if failures \<ge> maxRetryShift then maxRetryDelay
         else
           let d = push_bit (nat failures) minRetryDelay
           in if d > maxRetryDelay then maxRetryDelay else d)"

section \<open>The buffer table\<close>

record ScrobbleEntry =
  sb_ID :: string
  sb_Service :: string
  sb_UserID :: string
  sb_MediaFileID :: string
  sb_PlayTime :: time_ns

definition buffer_of :: "string \<Rightarrow> string \<Rightarrow> ScrobbleEntry list \<Rightarrow> ScrobbleEntry list" where
  "buffer_of service userId rows =
     sort_key sb_PlayTime (filter (\<lambda>r. sb_Service r = service \<and> sb_UserID r = userId) rows)"

definition buffer_Enqueue :: "ScrobbleEntry \<Rightarrow> ScrobbleEntry list \<Rightarrow> ScrobbleEntry list" where
  "buffer_Enqueue e rows = rows @ [e]"

definition buffer_Next :: "string \<Rightarrow> string \<Rightarrow> ScrobbleEntry list \<Rightarrow> ScrobbleEntry option" where
  "buffer_Next service userId rows =
     (case buffer_of service userId rows of [] \<Rightarrow> None | e # _ \<Rightarrow> Some e)"

definition buffer_Dequeue :: "ScrobbleEntry \<Rightarrow> ScrobbleEntry list \<Rightarrow> ScrobbleEntry list" where
  "buffer_Dequeue entry rows = filter (\<lambda>r. sb_ID r \<noteq> sb_ID entry) rows"

definition buffer_UserIDs :: "(string list \<Rightarrow> string list) \<Rightarrow> string \<Rightarrow> ScrobbleEntry list \<Rightarrow> string list" where
  "buffer_UserIDs order service rows =
     sort_key (\<lambda>u. length (buffer_of service u rows))
       (order (remdups (map sb_UserID (filter (\<lambda>r. sb_Service r = service) rows))))"

section \<open>The delivery loop\<close>

datatype send_result = SendOk | ErrRetryLater | SendError

record 'w BufferEnv =
  be_db_fails :: "'w \<Rightarrow> bool \<times> 'w"
  be_Scrobble :: "'w \<Rightarrow> string \<Rightarrow> ScrobbleEntry \<Rightarrow> send_result \<times> 'w"
  be_order :: "string list \<Rightarrow> string list"
  be_service :: string

record 'w BufferState =
  bs_rows :: "ScrobbleEntry list"
  bs_world :: 'w
  bs_sent :: "(ScrobbleEntry \<times> send_result) list" \<comment> \<open>ghost\<close>

lemma buffer_Next_mem: "buffer_Next service u rows = Some e \<Longrightarrow> e \<in> set rows"
proof -
  assume "buffer_Next service u rows = Some e"
  then have "e \<in> set (buffer_of service u rows)" by (auto simp: buffer_Next_def split: list.splits)
  then show ?thesis by (simp add: buffer_of_def)
qed

lemma buffer_Dequeue_shorter: "e \<in> set rows \<Longrightarrow> length (buffer_Dequeue e rows) < length rows"
  by (auto simp: buffer_Dequeue_def intro: length_filter_less)

text \<open>The loop ends: every turn that goes on has removed a row.\<close>

function processUserQueue :: "'w BufferEnv \<Rightarrow> string \<Rightarrow> 'w BufferState \<Rightarrow> bool \<times> 'w BufferState" where
  "processUserQueue env userId s =
     (case be_db_fails env (bs_world s) of
        (True, w) \<Rightarrow> (False, s\<lparr>bs_world := w\<rparr>)
      | (False, w) \<Rightarrow>
          (case buffer_Next (be_service env) userId (bs_rows s) of
             None \<Rightarrow> (True, s\<lparr>bs_world := w\<rparr>)
           | Some entry \<Rightarrow>
               (case be_Scrobble env w (sb_UserID entry) entry of
                  (ErrRetryLater, w1) \<Rightarrow>
                    (False, s\<lparr>bs_world := w1, bs_sent := bs_sent s @ [(entry, ErrRetryLater)]\<rparr>)
                | (res, w1) \<Rightarrow>
                    (case be_db_fails env w1 of
                       (True, w2) \<Rightarrow> (False, s\<lparr>bs_world := w2, bs_sent := bs_sent s @ [(entry, res)]\<rparr>)
                     | (False, w2) \<Rightarrow>
                         processUserQueue env userId
                           (s\<lparr>bs_rows := buffer_Dequeue entry (bs_rows s), bs_world := w2,
                              bs_sent := bs_sent s @ [(entry, res)]\<rparr>)))))"
  by pat_completeness auto
termination
  by (relation "measure (\<lambda>(_, _, s). length (bs_rows s))")
     (auto dest: buffer_Next_mem buffer_Dequeue_shorter)

declare processUserQueue.simps [simp del]

fun process_users :: "'w BufferEnv \<Rightarrow> string list \<Rightarrow> bool \<Rightarrow> 'w BufferState \<Rightarrow> bool \<times> 'w BufferState" where
  "process_users env [] result s = (result, s)"
| "process_users env (userId # userIds) result s =
     (case processUserQueue env userId s of
        (ok, s') \<Rightarrow> process_users env userIds (if \<not> ok then False else result) s')"

definition processQueue :: "'w BufferEnv \<Rightarrow> 'w BufferState \<Rightarrow> bool \<times> 'w BufferState" where
  "processQueue env s =
     (case be_db_fails env (bs_world s) of
        (True, w) \<Rightarrow> (False, s\<lparr>bs_world := w\<rparr>)
      | (False, w) \<Rightarrow>
          process_users env (buffer_UserIDs (be_order env) (be_service env) (bs_rows s)) True
            (s\<lparr>bs_world := w\<rparr>))"

text \<open>The bookkeeping of \<open>run\<close> after a pass: the failure count, and the timer (armed or stopped).\<close>

definition after_pass :: "bool \<Rightarrow> go_int \<Rightarrow> go_int \<times> duration_s option" where
  "after_pass ok failures =
     (if ok then (0, None)
      else (if failures < maxRetryShift then failures + 1 else failures, Some (backoffDelay failures)))"

section \<open>Correctness of the delivery loop\<close>

definition distinct_ids :: "ScrobbleEntry list \<Rightarrow> bool" where
  "distinct_ids rows \<longleftrightarrow> distinct (map sb_ID rows)"

lemma set_buffer_of:
  "set (buffer_of service u rows) = {r \<in> set rows. sb_Service r = service \<and> sb_UserID r = u}"
  by (auto simp: buffer_of_def)

lemma distinct_ids_filter: "distinct_ids rows \<Longrightarrow> distinct_ids (filter p rows)"
  by (simp add: distinct_ids_def distinct_map_filter)

lemma distinct_ids_inj: "distinct_ids rows \<Longrightarrow> inj_on sb_ID (set rows)"
  by (simp add: distinct_ids_def distinct_map)

lemma distinct_ids_buffer: "distinct_ids rows \<Longrightarrow> distinct_ids (buffer_of service u rows)"
  by (auto simp: distinct_ids_def distinct_map buffer_of_def intro: inj_on_subset)

lemma buffer_of_Dequeue:
  "buffer_of service u (buffer_Dequeue e rows) = filter (\<lambda>r. sb_ID r \<noteq> sb_ID e) (buffer_of service u rows)"
  by (simp add: buffer_of_def buffer_Dequeue_def filter_sort conj_commute)

lemma buffer_of_Dequeue_head:
  assumes "distinct_ids rows" "buffer_of service u rows = e # q"
  shows "buffer_of service u (buffer_Dequeue e rows) = q"
proof -
  have "distinct_ids (e # q)" using distinct_ids_buffer [OF assms(1)] assms(2) by metis
  then have "\<forall>r\<in>set q. sb_ID r \<noteq> sb_ID e" by (auto simp: distinct_ids_def image_iff)
  then show ?thesis unfolding buffer_of_Dequeue assms(2) by simp
qed

text \<open>
  What a pass over one user's queue \<open>q\<close> may do: \<open>k\<close> entries are removed, a prefix of the queue; the
  entries sent are that prefix, and possibly the entry after it, which then stays in the buffer; none
  of the removed ones was answered with a request to retry.
\<close>

definition user_pass ::
  "ScrobbleEntry list \<Rightarrow> ScrobbleEntry list \<Rightarrow> nat \<Rightarrow> bool \<Rightarrow> (ScrobbleEntry \<times> send_result) list \<Rightarrow>
   ScrobbleEntry list \<Rightarrow> bool" where
  "user_pass q rows k ok sent rows' \<longleftrightarrow>
     k \<le> length q \<and> rows' = filter (\<lambda>r. sb_ID r \<notin> sb_ID ` set (take k q)) rows \<and>
     map fst sent = take (length sent) q \<and> k \<le> length sent \<and> length sent \<le> Suc k \<and>
     (\<forall>x\<in>set (take k sent). snd x \<noteq> ErrRetryLater) \<and> (ok \<longrightarrow> k = length q)"

lemma user_pass_stop: "sent = [] \<or> (\<exists>e q' r. q = e # q' \<and> sent = [(e, r)]) \<Longrightarrow> user_pass q rows 0 False sent rows"
  by (auto simp: user_pass_def)

lemma user_pass_Cons:
  assumes "user_pass q (buffer_Dequeue e rows) k ok sent rows'" "r \<noteq> ErrRetryLater"
  shows "user_pass (e # q) rows (Suc k) ok ((e, r) # sent) rows'"
  using assms by (auto simp: user_pass_def buffer_Dequeue_def intro!: filter_cong)

lemma processUserQueue_pass:
  assumes "distinct_ids (bs_rows s)"
  shows "\<exists>k sent. user_pass (buffer_of (be_service env) u (bs_rows s)) (bs_rows s) k
      (fst (processUserQueue env u s)) sent (bs_rows (snd (processUserQueue env u s))) \<and>
    bs_sent (snd (processUserQueue env u s)) = bs_sent s @ sent"
  using assms
proof (induction "length (bs_rows s)" arbitrary: s rule: less_induct)
  case less
  let ?q = "buffer_of (be_service env) u (bs_rows s)"
  obtain f w where f: "be_db_fails env (bs_world s) = (f, w)" by fastforce
  show ?case
  proof (cases "f \<or> ?q = []")
    case True
    then show ?thesis
      by (cases f) (auto simp: processUserQueue.simps [of env u s] f buffer_Next_def user_pass_def
          intro!: exI [of _ 0] exI [of _ "[]"])
  next
    case False
    then obtain e q where q: "?q = e # q" and nf: "\<not> f" by (cases ?q) auto
    then have nx: "buffer_Next (be_service env) u (bs_rows s) = Some e" by (simp add: buffer_Next_def)
    obtain r w1 where r: "be_Scrobble env w (sb_UserID e) e = (r, w1)" by fastforce
    obtain f2 w2 where f2: "be_db_fails env w1 = (f2, w2)" by fastforce
    show ?thesis
    proof (cases "r = ErrRetryLater \<or> f2")
      case True
      then have "fst (processUserQueue env u s) = False"
        "bs_rows (snd (processUserQueue env u s)) = bs_rows s"
        "bs_sent (snd (processUserQueue env u s)) = bs_sent s @ [(e, r)]"
        by (cases r; simp add: processUserQueue.simps [of env u s] f nf nx r f2)+
      then show ?thesis using user_pass_stop [of "[(e, r)]" ?q] q by auto
    next
      case False
      let ?s = "s\<lparr>bs_rows := buffer_Dequeue e (bs_rows s), bs_world := w2, bs_sent := bs_sent s @ [(e, r)]\<rparr>"
      have step: "processUserQueue env u s = processUserQueue env u ?s"
        using False by (cases r) (simp_all add: processUserQueue.simps [of env u s] f nf nx r f2)
      have d: "distinct_ids (bs_rows ?s)" using less.prems by (simp add: buffer_Dequeue_def distinct_ids_filter)
      have "\<exists>k sent. user_pass (buffer_of (be_service env) u (bs_rows ?s)) (bs_rows ?s) k
          (fst (processUserQueue env u ?s)) sent (bs_rows (snd (processUserQueue env u ?s))) \<and>
        bs_sent (snd (processUserQueue env u ?s)) = bs_sent ?s @ sent"
        using buffer_Dequeue_shorter [OF buffer_Next_mem [OF nx]] d by (intro less.hyps) auto
      then obtain k sent where "user_pass q (buffer_Dequeue e (bs_rows s)) k (fst (processUserQueue env u s)) sent
          (bs_rows (snd (processUserQueue env u s)))"
        "bs_sent (snd (processUserQueue env u s)) = bs_sent s @ (e, r) # sent"
        using buffer_of_Dequeue_head [OF less.prems q] by (auto simp: step)
      then show ?thesis using user_pass_Cons False unfolding q by blast
    qed
  qed
qed

lemma user_pass_others:
  assumes "user_pass (buffer_of sv u rows) rows k ok sent rows'" "distinct_ids rows"
    and "sv' \<noteq> sv \<or> u' \<noteq> u"
  shows "buffer_of sv' u' rows' = buffer_of sv' u' rows"
proof -
  have "sb_ID r \<notin> sb_ID ` set (take k (buffer_of sv u rows))"
    if "r \<in> set rows" "sb_Service r = sv'" "sb_UserID r = u'" for r
  proof
    assume "sb_ID r \<in> sb_ID ` set (take k (buffer_of sv u rows))"
    then obtain x where x: "x \<in> set (buffer_of sv u rows)" "sb_ID x = sb_ID r"
      by (auto dest: in_set_takeD)
    then have "x = r" using distinct_ids_inj [OF assms(2)] that(1) by (auto simp: set_buffer_of inj_on_def)
    with x that assms(3) show False by (auto simp: set_buffer_of)
  qed
  then have "filter (\<lambda>r. sb_Service r = sv' \<and> sb_UserID r = u') rows' =
      filter (\<lambda>r. sb_Service r = sv' \<and> sb_UserID r = u') rows"
    using assms(1) by (auto simp: user_pass_def intro!: filter_cong)
  then show ?thesis by (simp add: buffer_of_def)
qed

lemma user_pass_drained:
  assumes "user_pass (buffer_of sv u rows) rows k True sent rows'"
  shows "buffer_of sv u rows' = []"
proof -
  have "rows' = filter (\<lambda>r. sb_ID r \<notin> sb_ID ` set (buffer_of sv u rows)) rows"
    using assms by (simp add: user_pass_def)
  then have "set (buffer_of sv u rows') = {}" by (auto simp: set_buffer_of)
  then show ?thesis by simp
qed

text \<open>
  C18. Delivery of one user's buffer: entries leave it from the front, in the order of their play
  time, and only after they were sent and not answered with a request to retry; each is sent once in
  the pass, in that order; at most one more was sent and stays. When the pass succeeds the user's
  buffer is empty. The entries of other users and services are untouched.
\<close>

theorem processUserQueue_delivers:
  assumes "distinct_ids (bs_rows s)" "processUserQueue env u s = (ok, s')"
  shows "(\<exists>k sent. user_pass (buffer_of (be_service env) u (bs_rows s)) (bs_rows s) k ok sent (bs_rows s') \<and>
      bs_sent s' = bs_sent s @ sent) \<and>
    (ok \<longrightarrow> buffer_of (be_service env) u (bs_rows s') = []) \<and>
    (\<forall>sv v. sv \<noteq> be_service env \<or> v \<noteq> u \<longrightarrow> buffer_of sv v (bs_rows s') = buffer_of sv v (bs_rows s))"
proof -
  obtain k sent where *: "user_pass (buffer_of (be_service env) u (bs_rows s)) (bs_rows s) k ok sent (bs_rows s')"
    "bs_sent s' = bs_sent s @ sent"
    using processUserQueue_pass [OF assms(1), of env u] assms(2) by auto
  have "buffer_of (be_service env) u (bs_rows s') = []" if ok
    using *(1) that by (intro user_pass_drained) simp
  moreover have "buffer_of sv v (bs_rows s') = buffer_of sv v (bs_rows s)"
    if "sv \<noteq> be_service env \<or> v \<noteq> u" for sv v
    using that by (rule user_pass_others [OF *(1) assms(1)])
  ultimately show ?thesis using * by (intro conjI exI [of _ k] exI [of _ sent]) simp_all
qed

text \<open>
  The retry delay doubles from 5 seconds with every failure and is capped at 4 minutes, for
  every value of the counter; so it stays within these bounds and never decreases.
\<close>

lemma backoffDelay_spec:
  "backoffDelay n = min maxRetryDelay (minRetryDelay * 2 ^ nat n) \<and>
   minRetryDelay \<le> backoffDelay n \<and> backoffDelay n \<le> maxRetryDelay \<and> backoffDelay n \<le> backoffDelay (n + 1)"
proof -
  have eq: "backoffDelay n = min maxRetryDelay (minRetryDelay * 2 ^ nat n)" for n
  proof (cases "n < 6")
    case True
    then show ?thesis
      by (cases "n < 0") (auto simp: backoffDelay_def maxRetryShift_def push_bit_eq_mult Let_def)
  next
    case False
    then have "(2::int) ^ 6 \<le> 2 ^ nat n" by (intro power_increasing) auto
    then show ?thesis using False
      by (simp add: backoffDelay_def maxRetryShift_def maxRetryDelay_def minRetryDelay_def)
  qed
  have "(2::int) ^ nat n \<le> 2 ^ nat (n + 1)" by (intro power_increasing) auto
  then have "min maxRetryDelay (minRetryDelay * 2 ^ nat n) \<le> min maxRetryDelay (minRetryDelay * 2 ^ nat (n + 1))"
    by (intro min.mono) (simp_all only: minRetryDelay_def order_refl mult_le_cancel_left, simp)
  moreover have "(1::int) \<le> 2 ^ nat n" by simp
  ultimately show ?thesis unfolding eq by (simp add: minRetryDelay_def maxRetryDelay_def)
qed

text \<open>The facts of the last two theorems that the loop's invariant uses.\<close>

lemma backoffDelay_bounds: "minRetryDelay \<le> backoffDelay n \<and> backoffDelay n \<le> maxRetryDelay"
proof -
  have "minRetryDelay \<le> push_bit k minRetryDelay" for k
    by (simp add: push_bit_eq_mult minRetryDelay_def)
  then show ?thesis by (auto simp: backoffDelay_def Let_def minRetryDelay_def maxRetryDelay_def)
qed

lemma processUserQueue_drained:
  assumes "distinct_ids (bs_rows s)" "processUserQueue env u s = (ok, s')" ok
  shows "buffer_of (be_service env) u (bs_rows s') = []"
  using processUserQueue_pass [OF assms(1), of env u] assms(2,3) user_pass_drained by auto

section \<open>The background loop as a state machine\<close>

text \<open>
  \<open>run\<close> between its blocking points: a pass begins, drains the users one after the other, ends with
  \<open>after_pass\<close>, and waits for the wake signal or the timer. Storing a scrobble and signalling are two
  steps of \<open>Scrobble\<close> and may happen at any moment; \<open>rs_signals\<close> counts the callers between them.
  The wake channel holds one signal; sending to a full channel does nothing.
\<close>

datatype run_phase = BeginPass | Passing "string list" bool | Waiting

record 'w run_state =
  rs_buf :: "'w BufferState"
  rs_phase :: run_phase
  rs_failures :: go_int
  rs_timer :: "duration_s option"
  rs_wake :: bool
  rs_signals :: nat

definition end_pass :: "bool \<Rightarrow> 'w run_state \<Rightarrow> 'w run_state" where
  "end_pass ok s = (case after_pass ok (rs_failures s) of
     (failures, timer) \<Rightarrow> s\<lparr>rs_phase := Waiting, rs_failures := failures, rs_timer := timer\<rparr>)"

inductive run_step :: "'w BufferEnv \<Rightarrow> 'w run_state \<Rightarrow> 'w run_state \<Rightarrow> bool" for env where
  run_users_fail: "rs_phase s = BeginPass \<Longrightarrow> be_db_fails env (bs_world (rs_buf s)) = (True, w) \<Longrightarrow>
    run_step env s (end_pass False (s\<lparr>rs_buf := (rs_buf s)\<lparr>bs_world := w\<rparr>\<rparr>))"
| run_users: "rs_phase s = BeginPass \<Longrightarrow> be_db_fails env (bs_world (rs_buf s)) = (False, w) \<Longrightarrow>
    mset us = mset (buffer_UserIDs id (be_service env) (bs_rows (rs_buf s))) \<Longrightarrow>
    run_step env s (s\<lparr>rs_buf := (rs_buf s)\<lparr>bs_world := w\<rparr>, rs_phase := Passing us True\<rparr>)"
| run_user: "rs_phase s = Passing (u # us) result \<Longrightarrow> processUserQueue env u (rs_buf s) = (ok, b) \<Longrightarrow>
    run_step env s (s\<lparr>rs_buf := b, rs_phase := Passing us (if \<not> ok then False else result)\<rparr>)"
| run_pass_end: "rs_phase s = Passing [] result \<Longrightarrow> run_step env s (end_pass result s)"
| run_woken: "rs_phase s = Waiting \<Longrightarrow> rs_wake s \<Longrightarrow>
    run_step env s (s\<lparr>rs_phase := BeginPass, rs_wake := False\<rparr>)"
| run_timer: "rs_phase s = Waiting \<Longrightarrow> rs_timer s = Some d \<Longrightarrow>
    run_step env s (s\<lparr>rs_phase := BeginPass, rs_timer := None\<rparr>)"
| run_store: "sb_ID e \<notin> sb_ID ` set (bs_rows (rs_buf s)) \<Longrightarrow>
    run_step env s (s\<lparr>rs_buf := (rs_buf s)\<lparr>bs_rows := buffer_Enqueue e (bs_rows (rs_buf s)), bs_world := w\<rparr>,
      rs_signals := Suc (rs_signals s)\<rparr>)"
| run_signal: "rs_signals s = Suc n \<Longrightarrow> run_step env s (s\<lparr>rs_wake := True, rs_signals := n\<rparr>)"

definition run_start :: "'w BufferState \<Rightarrow> 'w run_state" where
  "run_start b = \<lparr>rs_buf = b, rs_phase = BeginPass, rs_failures = 0, rs_timer = None, rs_wake = False,
     rs_signals = 0\<rparr>"

text \<open>Something that will make the loop look at the buffer again.\<close>

definition awake :: "'w run_state \<Rightarrow> bool" where
  "awake s \<longleftrightarrow> rs_wake s \<or> 0 < rs_signals s"

fun covered :: "'w run_state \<Rightarrow> run_phase \<Rightarrow> ScrobbleEntry \<Rightarrow> bool" where
  "covered s BeginPass r \<longleftrightarrow> True"
| "covered s (Passing us result) r \<longleftrightarrow> sb_UserID r \<in> set us \<or> \<not> result \<or> awake s"
| "covered s Waiting r \<longleftrightarrow> awake s \<or> rs_timer s \<noteq> None"

definition run_inv :: "'w BufferEnv \<Rightarrow> 'w run_state \<Rightarrow> bool" where
  "run_inv env s \<longleftrightarrow> distinct_ids (bs_rows (rs_buf s)) \<and> 0 \<le> rs_failures s \<and> rs_failures s \<le> maxRetryShift \<and>
     (\<forall>d. rs_timer s = Some d \<longrightarrow> minRetryDelay \<le> d \<and> d \<le> maxRetryDelay) \<and>
     (\<forall>r\<in>set (bs_rows (rs_buf s)). sb_Service r = be_service env \<longrightarrow> covered s (rs_phase s) r)"

lemma buffer_UserIDs_all:
  "set (buffer_UserIDs id service rows) = sb_UserID ` {r \<in> set rows. sb_Service r = service}"
  by (auto simp: buffer_UserIDs_def)

lemma distinct_ids_processUserQueue:
  assumes "distinct_ids (bs_rows s)"
  shows "distinct_ids (bs_rows (snd (processUserQueue env u s)))"
    "set (bs_rows (snd (processUserQueue env u s))) \<subseteq> set (bs_rows s)"
  using processUserQueue_pass [OF assms, of env u] assms
  by (auto simp: user_pass_def distinct_ids_filter)

lemma end_pass_inv:
  assumes "distinct_ids (bs_rows (rs_buf s))" "0 \<le> rs_failures s" "rs_failures s \<le> maxRetryShift"
    and "ok \<longrightarrow> (\<forall>r\<in>set (bs_rows (rs_buf s)). sb_Service r = be_service env \<longrightarrow> awake s)"
  shows "run_inv env (end_pass ok s)"
  using assms backoffDelay_bounds [of "rs_failures s"]
  by (auto simp: run_inv_def end_pass_def after_pass_def awake_def maxRetryShift_def)

lemma run_step_inv: "run_step env s t \<Longrightarrow> run_inv env s \<Longrightarrow> run_inv env t"
proof (induction rule: run_step.induct)
  case (run_users_fail s w)
  then show ?case by (intro end_pass_inv) (auto simp: run_inv_def)
next
  case (run_users s w us)
  then have "set us = sb_UserID ` {r \<in> set (bs_rows (rs_buf s)). sb_Service r = be_service env}"
    by (metis buffer_UserIDs_all mset_eq_setD)
  with run_users show ?case by (auto simp: run_inv_def)
next
  case (run_user s u us result ok b)
  have d: "distinct_ids (bs_rows (rs_buf s))" using run_user by (simp add: run_inv_def)
  have b: "distinct_ids (bs_rows b)" "set (bs_rows b) \<subseteq> set (bs_rows (rs_buf s))"
    using distinct_ids_processUserQueue [OF d, of env u] run_user(2) by auto
  have "sb_UserID r \<noteq> u" if ok "r \<in> set (bs_rows b)" "sb_Service r = be_service env" for r
    using processUserQueue_drained [OF d run_user(2)] that set_buffer_of [of "be_service env" u "bs_rows b"] by auto
  with b run_user show ?case by (fastforce simp: run_inv_def awake_def)
next
  case (run_pass_end s result)
  then show ?case by (intro end_pass_inv) (auto simp: run_inv_def)
next
  case (run_store e s w)
  then show ?case
    by (cases "rs_phase s") (auto simp: run_inv_def awake_def buffer_Enqueue_def distinct_ids_def)
next
  case (run_signal s n)
  then show ?case by (cases "rs_phase s") (auto simp: run_inv_def awake_def)
qed (auto simp: run_inv_def awake_def)

lemma run_start_inv: "distinct_ids (bs_rows b) \<Longrightarrow> run_inv env (run_start b)"
  by (simp add: run_inv_def run_start_def maxRetryShift_def)

interpretation scrobble_run: invariant_machine "run_start \<lparr>bs_rows = [], bs_world = w, bs_sent = []\<rparr>"
  "run_step env" "run_inv env" for w :: 'w and env :: "'w BufferEnv"
  by unfold_locales (auto simp: distinct_ids_def intro: run_start_inv run_step_inv)

text \<open>
  C33. No wake-up is lost. From the start of the loop on whatever the buffer holds, however storing,
  signalling, failures, the timer and the passes interleave: when the loop waits and the buffer
  still holds a scrobble of the service, then the wake signal is set, or the caller that stored it is
  about to set it, or the retry timer is armed, with a delay between 5 seconds and 4 minutes.
\<close>

theorem no_lost_wakeup:
  assumes "distinct_ids (bs_rows b)" "reachable_from (run_step env) (run_start b) s"
    and "rs_phase s = Waiting" "r \<in> set (bs_rows (rs_buf s))" "sb_Service r = be_service env"
  shows "rs_wake s \<or> 0 < rs_signals s \<or>
    (\<exists>d. rs_timer s = Some d \<and> minRetryDelay \<le> d \<and> d \<le> maxRetryDelay)"
proof -
  have "run_inv env s" by (rule scrobble_run.inv_from [OF assms(2) run_start_inv [OF assms(1)]])
  with assms(3-5) show ?thesis by (auto simp: run_inv_def awake_def)
qed

section \<open>Examples\<close>

text \<open>A world that is a list of answers; the database never fails.\<close>

definition sample_buffer_env :: "send_result list BufferEnv" where
  "sample_buffer_env = \<lparr>be_db_fails = (\<lambda>w. (False, w)),
     be_Scrobble = (\<lambda>w _ _. case w of [] \<Rightarrow> (SendOk, []) | r # w' \<Rightarrow> (r, w')),
     be_order = id, be_service = ''lastfm''\<rparr>"

definition scrobble_row :: "string \<Rightarrow> string \<Rightarrow> time_ns \<Rightarrow> ScrobbleEntry" where
  "scrobble_row i u t = \<lparr>sb_ID = i, sb_Service = ''lastfm'', sb_UserID = u, sb_MediaFileID = ''m'', sb_PlayTime = t\<rparr>"

definition three_rows :: "send_result list \<Rightarrow> send_result list BufferState" where
  "three_rows w = \<lparr>bs_rows = [scrobble_row ''1'' ''ann'' 20, scrobble_row ''2'' ''ann'' 10, scrobble_row ''3'' ''bob'' 5],
     bs_world = w, bs_sent = []\<rparr>"

lemma three_rows_distinct: "distinct_ids (bs_rows (three_rows w))"
  by (simp add: three_rows_def scrobble_row_def distinct_ids_def)

theorem processUserQueue_delivers_witness:
  "\<exists>s'. processUserQueue sample_buffer_env ''ann'' (three_rows [SendError]) = (True, s') \<and>
     buffer_of ''lastfm'' ''ann'' (bs_rows s') = [] \<and> buffer_of ''lastfm'' ''bob'' (bs_rows s') = [scrobble_row ''3'' ''bob'' 5]"
proof -
  have ok: "fst (processUserQueue sample_buffer_env ''ann'' (three_rows [SendError]))" by code_simp
  obtain s' where s': "processUserQueue sample_buffer_env ''ann'' (three_rows [SendError]) = (True, s')"
    using ok by (cases "processUserQueue sample_buffer_env ''ann'' (three_rows [SendError])") auto
  have "buffer_of ''lastfm'' ''bob'' (bs_rows (three_rows [SendError])) = [scrobble_row ''3'' ''bob'' 5]"
    by code_simp
  with processUserQueue_delivers [OF three_rows_distinct s'] s' show ?thesis
    by (auto simp: sample_buffer_env_def)
qed

definition one_row :: "send_result list BufferState" where
  "one_row = \<lparr>bs_rows = [scrobble_row ''1'' ''ann'' 20], bs_world = [ErrRetryLater], bs_sent = []\<rparr>"

definition retry_state :: "send_result list run_state" where
  "retry_state = end_pass False ((run_start (snd (processUserQueue sample_buffer_env ''ann'' one_row)))
     \<lparr>rs_phase := Passing [] False\<rparr>)"

lemma retry_state_reachable: "reachable_from (run_step sample_buffer_env) (run_start one_row) retry_state"
proof -
  let ?b = "(run_start one_row)\<lparr>rs_phase := Passing [''ann''] True\<rparr>"
  let ?c = "(run_start (snd (processUserQueue sample_buffer_env ''ann'' one_row)))\<lparr>rs_phase := Passing [] False\<rparr>"
  have "run_step sample_buffer_env (run_start one_row) ((run_start one_row)
      \<lparr>rs_buf := (rs_buf (run_start one_row))\<lparr>bs_world := [ErrRetryLater]\<rparr>, rs_phase := Passing [''ann''] True\<rparr>)"
    by (rule run_users) (simp_all add: run_start_def one_row_def sample_buffer_env_def scrobble_row_def buffer_UserIDs_def)
  then have 1: "run_step sample_buffer_env (run_start one_row) ?b"
    by (simp add: run_start_def one_row_def)
  have "\<not> fst (processUserQueue sample_buffer_env ''ann'' one_row)" by code_simp
  then have "processUserQueue sample_buffer_env ''ann'' (rs_buf ?b) =
      (False, snd (processUserQueue sample_buffer_env ''ann'' one_row))"
    by (cases "processUserQueue sample_buffer_env ''ann'' one_row") (simp add: run_start_def)
  from run_user [OF _ this, of "[]" True] have 2: "run_step sample_buffer_env ?b ?c"
    by (simp add: run_start_def)
  have 3: "run_step sample_buffer_env ?c retry_state"
    unfolding retry_state_def by (rule run_pass_end) simp
  from 1 2 3 show ?thesis by (meson reachable_refl reachable_step)
qed

theorem no_lost_wakeup_witness: "\<exists>d. rs_timer retry_state = Some d \<and> minRetryDelay \<le> d \<and> d \<le> maxRetryDelay"
proof -
  have "\<not> rs_wake retry_state \<and> rs_signals retry_state = 0 \<and> rs_phase retry_state = Waiting \<and>
      bs_rows (rs_buf retry_state) = [scrobble_row ''1'' ''ann'' 20]"
    by code_simp
  moreover have "distinct_ids (bs_rows one_row)" by (simp add: one_row_def distinct_ids_def)
  moreover have "sb_Service (scrobble_row ''1'' ''ann'' 20) = be_service sample_buffer_env"
    by (simp add: scrobble_row_def sample_buffer_env_def)
  ultimately show ?thesis
    using no_lost_wakeup [OF _ retry_state_reachable, of "scrobble_row ''1'' ''ann'' 20"] by simp
qed

end
