(* ===== verification/Scrobbler_PlayTracker.thy ===== *)
theory Scrobbler_PlayTracker
  imports Model_MediaFile Go_Float
begin

text \<open>
  \<open>core/scrobbler/play_tracker.go\<close>, \<open>nowplaying_worker.go\<close> and \<open>playbackreport_worker.go\<close>: the
  playback sessions of the clients, what is reported about them, and when a play is counted and
  scrobbled.

  Parameters, collected in \<open>TrackerEnv\<close>: the session cache (an instance of package \<open>cache\<close>, on top of
  a third party TTL cache) through its operations on an abstract state \<open>'c\<close>; the data store's lookup
  and whether a counter update fails; the scrobblers and who is authorized for them; the rounding of
  float arithmetic, 32 and 64 bits. A \<open>float64\<close> is the rational number it denotes. What the tracker
  sends out (broadcasts, scrobbles) is appended to a list of events; logging is left out.
\<close>

section \<open>Data\<close>

definition StateStarting :: string where "StateStarting = ''starting''"
definition StatePlaying :: string where "StatePlaying = ''playing''"
definition StatePaused :: string where "StatePaused = ''paused''"
definition StateStopped :: string where "StateStopped = ''stopped''"
definition StateExpired :: string where "StateExpired = ''expired''"

lemmas state_defs = StateStarting_def StatePlaying_def StatePaused_def StateStopped_def StateExpired_def

record PlaybackSession =
  ps_MediaFile :: MediaFile
  ps_Start :: time_ns
  ps_UserId :: string
  ps_Username :: string
  ps_PlayerId :: string
  ps_PlayerName :: string
  ps_State :: string
  ps_PositionMs :: go_int
  ps_PlaybackRate :: rat
  ps_LastReport :: time_ns

record Submission =
  sub_TrackID :: string
  sub_Timestamp :: time_ns

record ReportPlaybackParams =
  rp_MediaId :: string
  rp_PositionMs :: go_int
  rp_State :: string
  rp_PlaybackRate :: rat
  rp_IgnoreScrobble :: bool
  rp_ClientId :: string
  rp_ClientName :: string

record nowPlayingEntry =
  np_userId :: string
  np_track :: MediaFile
  np_position :: go_int

text \<open>The updates of one counted play, in the order they are made.\<close>

datatype play_op =
  IncMediaFile string time_ns | IncAlbum string time_ns | IncArtist string time_ns | RecordScrobble string time_ns

datatype tracker_event =
  NowPlayingCount nat
| SendScrobble string string string time_ns \<comment> \<open>scrobbler, user, track, play time\<close>
| SendNowPlaying string string string go_int \<comment> \<open>scrobbler, user, track, position\<close>
| SendReport string PlaybackSession
| RefreshResource "string list"

record 'c CacheOps =
  co_Get :: "'c \<Rightarrow> string \<Rightarrow> PlaybackSession option"
  co_AddWithTTL :: "string \<Rightarrow> PlaybackSession \<Rightarrow> go_int \<Rightarrow> 'c \<Rightarrow> 'c"
  co_Remove :: "string \<Rightarrow> 'c \<Rightarrow> 'c"
  co_Values :: "'c \<Rightarrow> PlaybackSession list"
  co_Len :: "'c \<Rightarrow> nat"

record 'c TrackerEnv =
  te_cache :: "'c CacheOps"
  te_GetWithParticipants :: "string \<Rightarrow> string + MediaFile"
  te_fails :: "play_op \<Rightarrow> bool"
  te_scrobblers :: "string list"
  te_IsAuthorized :: "string \<Rightarrow> string \<Rightarrow> bool"
  te_round32 :: "rat \<Rightarrow> rat"
  te_round64 :: "rat \<Rightarrow> rat"
  te_EnableNowPlaying :: bool
  te_EnableScrobbleHistory :: bool

record TrackerCtx =
  tc_UserId :: string
  tc_UserName :: string
  tc_ScrobbleEnabled :: bool \<comment> \<open>of the player in the request\<close>

record 'c playTracker =
  pt_playMap :: 'c
  pt_npQueue :: "(string \<times> nowPlayingEntry) list"
  pt_prQueue :: "PlaybackSession list"
  pt_db :: "play_op list" \<comment> \<open>the updates committed so far\<close>
  pt_events :: "tracker_event list"

section \<open>Arithmetic\<close>

definition Second :: go_int where "Second = 1000000000"
definition Millisecond :: go_int where "Millisecond = 1000000"

definition track_ms :: "'c TrackerEnv \<Rightarrow> MediaFile \<Rightarrow> go_int" where
  "track_ms env mf = go_trunc (te_round32 env (float32_value (mf_Duration mf) * 1000))"

definition remainingTTL :: "'c TrackerEnv \<Rightarrow> MediaFile \<Rightarrow> go_int \<Rightarrow> rat \<Rightarrow> go_int" where
  "remainingTTL env mf positionMs rate0 =
     (let rate = (if rate0 \<le> 0 then 1 else rate0);
          r64 = te_round64 env;
          remainingMs = r64 (r64 (of_int (wrap64 (track_ms env mf - positionMs))) / rate);
          remainingSec = max (go_trunc (r64 (remainingMs / 1000))) 0
      in wrap64 (wrap64 (remainingSec + 5) * Second))"

section \<open>Plays and scrobbles\<close>

definition UnknownArtist :: string where
  "UnknownArtist = ''[Unknown Artist]''"

definition play_ops :: "'c TrackerEnv \<Rightarrow> MediaFile \<Rightarrow> time_ns \<Rightarrow> play_op list" where
  "play_ops env track timestamp =
     [IncMediaFile (mf_ID track) timestamp, IncAlbum (mf_AlbumID track) timestamp] @
     map (\<lambda>a. IncArtist (pt_ID a) timestamp) (mf_Artists track) @
     (if te_EnableScrobbleHistory env then [RecordScrobble (mf_ID track) timestamp] else [])"

text \<open>The transaction: the updates run in order, the first failure aborts, and then none is kept.\<close>

fun run_tx :: "(play_op \<Rightarrow> bool) \<Rightarrow> play_op list \<Rightarrow> play_op list \<Rightarrow> play_op list option" where
  "run_tx fails [] db = Some db"
| "run_tx fails (op # ops) db = (if fails op then None else run_tx fails ops (db @ [op]))"

definition incPlay :: "'c TrackerEnv \<Rightarrow> MediaFile \<Rightarrow> time_ns \<Rightarrow> 'c playTracker \<Rightarrow> bool \<times> 'c playTracker" where
  "incPlay env track timestamp p =
     (case run_tx (te_fails env) (play_ops env track timestamp) (pt_db p) of
        None \<Rightarrow> (False, p)
      | Some db \<Rightarrow> (True, p\<lparr>pt_db := db\<rparr>))"

definition emit :: "tracker_event list \<Rightarrow> 'c playTracker \<Rightarrow> 'c playTracker" where
  "emit es p = p\<lparr>pt_events := pt_events p @ es\<rparr>"

definition dispatchScrobble ::
  "'c TrackerEnv \<Rightarrow> TrackerCtx \<Rightarrow> MediaFile \<Rightarrow> time_ns \<Rightarrow> 'c playTracker \<Rightarrow> 'c playTracker" where
  "dispatchScrobble env ctx t playTime p =
     (if mf_Artist t = UnknownArtist then p
      else emit (map (\<lambda>name. SendScrobble name (tc_UserId ctx) (mf_ID t) playTime)
                   (filter (\<lambda>name. te_IsAuthorized env name (tc_UserId ctx)) (te_scrobblers env))) p)"

section \<open>Workers\<close>

definition enqueuePlaybackReport :: "PlaybackSession \<Rightarrow> 'c playTracker \<Rightarrow> 'c playTracker" where
  "enqueuePlaybackReport info p = p\<lparr>pt_prQueue := pt_prQueue p @ [info]\<rparr>"

definition enqueueNowPlaying :: "string \<Rightarrow> nowPlayingEntry \<Rightarrow> 'c playTracker \<Rightarrow> 'c playTracker" where
  "enqueueNowPlaying playerId entry p =
     p\<lparr>pt_npQueue := (playerId, entry) # filter (\<lambda>(k, _). k \<noteq> playerId) (pt_npQueue p)\<rparr>"

definition dispatchNowPlaying :: "'c TrackerEnv \<Rightarrow> nowPlayingEntry \<Rightarrow> 'c playTracker \<Rightarrow> 'c playTracker" where
  "dispatchNowPlaying env e p =
     (if mf_Artist (np_track e) = UnknownArtist then p
      else emit (map (\<lambda>name. SendNowPlaying name (np_userId e) (mf_ID (np_track e)) (np_position e))
                   (filter (\<lambda>name. te_IsAuthorized env name (np_userId e)) (te_scrobblers env))) p)"

definition dispatchPlaybackReport :: "'c TrackerEnv \<Rightarrow> PlaybackSession \<Rightarrow> 'c playTracker \<Rightarrow> 'c playTracker" where
  "dispatchPlaybackReport env info p =
     emit (map (\<lambda>name. SendReport name info)
             (filter (\<lambda>name. te_IsAuthorized env name (ps_UserId info)) (te_scrobblers env))) p"

text \<open>One turn of each worker: take the queue, leave it empty, dispatch the entries.\<close>

definition nowPlayingWorker :: "'c TrackerEnv \<Rightarrow> 'c playTracker \<Rightarrow> 'c playTracker" where
  "nowPlayingWorker env p =
     fold (dispatchNowPlaying env) (map snd (pt_npQueue p)) (p\<lparr>pt_npQueue := []\<rparr>)"

definition playbackReportWorker :: "'c TrackerEnv \<Rightarrow> 'c playTracker \<Rightarrow> 'c playTracker" where
  "playbackReportWorker env p =
     fold (dispatchPlaybackReport env) (pt_prQueue p) (p\<lparr>pt_prQueue := []\<rparr>)"

text \<open>The callback of the cache when a session expires.\<close>

definition on_expiration :: "'c TrackerEnv \<Rightarrow> time_ns \<Rightarrow> PlaybackSession \<Rightarrow> 'c playTracker \<Rightarrow> 'c playTracker" where
  "on_expiration env now info p =
     (let p1 = (if te_EnableNowPlaying env
                then emit [NowPlayingCount (co_Len (te_cache env) (pt_playMap p))] p else p)
      in if ps_State info \<noteq> StateStopped
         then enqueuePlaybackReport (info\<lparr>ps_State := StateExpired, ps_LastReport := now\<rparr>) p1
         else p1)"

section \<open>Reports\<close>

definition cache_get :: "'c TrackerEnv \<Rightarrow> 'c playTracker \<Rightarrow> string \<Rightarrow> PlaybackSession option" where
  "cache_get env p clientId = co_Get (te_cache env) (pt_playMap p) clientId"

definition cache_add ::
  "'c TrackerEnv \<Rightarrow> string \<Rightarrow> PlaybackSession \<Rightarrow> go_int \<Rightarrow> 'c playTracker \<Rightarrow> 'c playTracker" where
  "cache_add env clientId info ttl p =
     p\<lparr>pt_playMap := co_AddWithTTL (te_cache env) clientId info ttl (pt_playMap p)\<rparr>"

definition hasPlayingSession :: "'c TrackerEnv \<Rightarrow> 'c playTracker \<Rightarrow> string \<Rightarrow> string \<Rightarrow> bool" where
  "hasPlayingSession env p clientId mediaId =
     (case cache_get env p clientId of
        None \<Rightarrow> False | Some cur \<Rightarrow> mf_ID (ps_MediaFile cur) = mediaId \<and> ps_State cur = StatePlaying)"

definition new_session ::
  "TrackerCtx \<Rightarrow> ReportPlaybackParams \<Rightarrow> MediaFile \<Rightarrow> time_ns \<Rightarrow> time_ns \<Rightarrow> PlaybackSession" where
  "new_session ctx params mf start now =
     \<lparr>ps_MediaFile = mf, ps_Start = start, ps_UserId = tc_UserId ctx, ps_Username = tc_UserName ctx,
      ps_PlayerId = rp_ClientId params, ps_PlayerName = rp_ClientName params, ps_State = rp_State params,
      ps_PositionMs = rp_PositionMs params, ps_PlaybackRate = rp_PlaybackRate params, ps_LastReport = now\<rparr>"

text \<open>
  A branch of \<open>ReportPlayback\<close> fails (\<open>Inl\<close>), returns early (\<open>Inr False\<close>) or goes on to the common
  tail (\<open>Inr True\<close>), with the state it leaves. \<open>starting_commit\<close> is the section under the lock, run on
  the state found there: other reports may have run since the first check.
\<close>

type_synonym 'c report_result = "(string + bool) \<times> 'c playTracker"

definition starting_commit ::
  "'c TrackerEnv \<Rightarrow> TrackerCtx \<Rightarrow> ReportPlaybackParams \<Rightarrow> MediaFile \<Rightarrow> time_ns \<Rightarrow> 'c playTracker \<Rightarrow> 'c report_result" where
  "starting_commit env ctx params mf now p =
     (if hasPlayingSession env p (rp_ClientId params) (rp_MediaId params) then (Inr False, p)
      else
        let info = new_session ctx params mf now now;
            ttl = remainingTTL env mf (rp_PositionMs params) (rp_PlaybackRate params)
        in (Inr True, enqueuePlaybackReport info (cache_add env (rp_ClientId params) info ttl p)))"

definition report_starting ::
  "'c TrackerEnv \<Rightarrow> TrackerCtx \<Rightarrow> ReportPlaybackParams \<Rightarrow> time_ns \<Rightarrow> 'c playTracker \<Rightarrow> 'c report_result" where
  "report_starting env ctx params now p =
     (if hasPlayingSession env p (rp_ClientId params) (rp_MediaId params) then (Inr False, p)
      else case te_GetWithParticipants env (rp_MediaId params) of
             Inl e \<Rightarrow> (Inl e, p)
           | Inr mf \<Rightarrow> starting_commit env ctx params mf now p)"

definition paused_ttl :: go_int where
  "paused_ttl = 30 * 60 * Second"

text \<open>The session a playing or paused report updates: the client's own, or a new one for a new track.\<close>

definition session_for ::
  "'c TrackerEnv \<Rightarrow> TrackerCtx \<Rightarrow> ReportPlaybackParams \<Rightarrow> time_ns \<Rightarrow> 'c playTracker \<Rightarrow> string + PlaybackSession" where
  "session_for env ctx params now p =
     (let fresh = bind_result (te_GetWithParticipants env (rp_MediaId params)) (\<lambda>mf.
            Inr (new_session ctx params mf
                   (now + wrap64 (- wrap64 (rp_PositionMs params * Millisecond))) now))
      in case cache_get env p (rp_ClientId params) of
           None \<Rightarrow> fresh
         | Some info \<Rightarrow> if mf_ID (ps_MediaFile info) \<noteq> rp_MediaId params then fresh else Inr info)"

definition report_playing ::
  "'c TrackerEnv \<Rightarrow> TrackerCtx \<Rightarrow> ReportPlaybackParams \<Rightarrow> time_ns \<Rightarrow> 'c playTracker \<Rightarrow> 'c report_result" where
  "report_playing env ctx params now p =
     (case session_for env ctx params now p of
        Inl e \<Rightarrow> (Inl e, p)
      | Inr info0 \<Rightarrow>
          let info = info0\<lparr>ps_State := rp_State params, ps_PositionMs := rp_PositionMs params,
                           ps_PlaybackRate := rp_PlaybackRate params, ps_LastReport := now\<rparr>;
              ttl = (if rp_State params = StatePlaying
                     then remainingTTL env (ps_MediaFile info) (rp_PositionMs params) (rp_PlaybackRate params)
                     else paused_ttl)
          in (Inr True, enqueuePlaybackReport info (cache_add env (rp_ClientId params) info ttl p)))"

definition scrobble_threshold :: "'c TrackerEnv \<Rightarrow> MediaFile \<Rightarrow> go_int" where
  "scrobble_threshold env mf = min (go_quot (wrap64 (track_ms env mf * 50)) 100) 240000"

text \<open>The play of a stopped track, if it counts; the media file, if it was loaded for that.\<close>

definition scrobble_stopped ::
  "'c TrackerEnv \<Rightarrow> TrackerCtx \<Rightarrow> ReportPlaybackParams \<Rightarrow> time_ns \<Rightarrow> 'c playTracker \<Rightarrow>
   string + MediaFile option \<times> 'c playTracker" where
  "scrobble_stopped env ctx params now p =
     (if \<not> rp_IgnoreScrobble params \<and> tc_ScrobbleEnabled ctx
      then bind_result (te_GetWithParticipants env (rp_MediaId params)) (\<lambda>mf.
        Inr (Some mf,
             if rp_PositionMs params \<ge> scrobble_threshold env mf
             then dispatchScrobble env ctx mf now (snd (incPlay env mf now p)) else p))
      else Inr (None, p))"

definition zero_Start :: time_ns where
  "zero_Start = -62135596800 * Second"

definition cache_remove :: "'c TrackerEnv \<Rightarrow> string \<Rightarrow> 'c playTracker \<Rightarrow> 'c playTracker" where
  "cache_remove env clientId p = p\<lparr>pt_playMap := co_Remove (te_cache env) clientId (pt_playMap p)\<rparr>"

definition report_stopped ::
  "'c TrackerEnv \<Rightarrow> TrackerCtx \<Rightarrow> ReportPlaybackParams \<Rightarrow> time_ns \<Rightarrow> 'c playTracker \<Rightarrow> 'c report_result" where
  "report_stopped env ctx params now p =
     (case scrobble_stopped env ctx params now p of
        Inl e \<Rightarrow> (Inl e, p)
      | Inr (loadedMF, p1) \<Rightarrow>
          let p2 = cache_remove env (rp_ClientId params) p1
          in case cache_get env p1 (rp_ClientId params) of
               Some info \<Rightarrow>
                 if mf_ID (ps_MediaFile info) \<noteq> rp_MediaId params then (Inr False, p1)
                 else (Inr True, enqueuePlaybackReport
                         (new_session ctx params (ps_MediaFile info) (ps_Start info) now) p2)
             | None \<Rightarrow>
                 (case (case loadedMF of Some mf \<Rightarrow> Inr mf
                        | None \<Rightarrow> te_GetWithParticipants env (rp_MediaId params)) of
                    Inl e \<Rightarrow> (Inl e, p2)
                  | Inr mf \<Rightarrow> (Inr True, enqueuePlaybackReport (new_session ctx params mf zero_Start now) p2)))"

text \<open>The common tail: the broadcast, and the now-playing notice for a session that exists.\<close>

definition report_tail ::
  "'c TrackerEnv \<Rightarrow> TrackerCtx \<Rightarrow> ReportPlaybackParams \<Rightarrow> 'c playTracker \<Rightarrow> 'c playTracker" where
  "report_tail env ctx params p =
     (let p1 = (if te_EnableNowPlaying env
                then emit [NowPlayingCount (co_Len (te_cache env) (pt_playMap p))] p else p)
      in if tc_ScrobbleEnabled ctx \<and> (rp_State params = StateStarting \<or> rp_State params = StatePlaying)
         then case cache_get env p1 (rp_ClientId params) of
                Some info \<Rightarrow>
                  enqueueNowPlaying (rp_ClientId params)
                    \<lparr>np_userId = tc_UserId ctx, np_track = ps_MediaFile info,
                     np_position = go_quot (rp_PositionMs params) 1000\<rparr> p1
              | None \<Rightarrow> p1
         else p1)"

definition ReportPlayback ::
  "'c TrackerEnv \<Rightarrow> TrackerCtx \<Rightarrow> ReportPlaybackParams \<Rightarrow> time_ns \<Rightarrow> 'c playTracker \<Rightarrow>
   string option \<times> 'c playTracker" where
  "ReportPlayback env ctx params now p =
     (let r = (if rp_State params = StateStarting then report_starting env ctx params now p
               else if rp_State params = StatePlaying \<or> rp_State params = StatePaused
               then report_playing env ctx params now p
               else if rp_State params = StateStopped then report_stopped env ctx params now p
               else (Inr True, p))
      in case r of
           (Inl e, p1) \<Rightarrow> (Some e, p1)
         | (Inr False, p1) \<Rightarrow> (None, p1)
         | (Inr True, p1) \<Rightarrow> (None, report_tail env ctx params p1))"

section \<open>Now playing and submissions\<close>

definition estimate_position :: "'c TrackerEnv \<Rightarrow> time_ns \<Rightarrow> PlaybackSession \<Rightarrow> PlaybackSession" where
  "estimate_position env now s =
     (if ps_State s = StatePlaying then
        let elapsed = go_quot (now - ps_LastReport s) Millisecond;
            r64 = te_round64 env;
            estimated = wrap64 (ps_PositionMs s + go_trunc (r64 (r64 (of_int elapsed) * ps_PlaybackRate s)))
        in s\<lparr>ps_PositionMs := min estimated (track_ms env (ps_MediaFile s))\<rparr>
      else s)"

text \<open>Newest session first; the sort leaves the order of equal start times open, here it is stable.\<close>

definition GetNowPlaying :: "'c TrackerEnv \<Rightarrow> time_ns \<Rightarrow> 'c playTracker \<Rightarrow> PlaybackSession list" where
  "GetNowPlaying env now p =
     map (estimate_position env now)
       (sort_key (\<lambda>s. - ps_Start s) (co_Values (te_cache env) (pt_playMap p)))"

fun submit_loop ::
  "'c TrackerEnv \<Rightarrow> TrackerCtx \<Rightarrow> Submission list \<Rightarrow> string list \<Rightarrow> 'c playTracker \<Rightarrow> string list \<times> 'c playTracker" where
  "submit_loop env ctx [] event p = (event, p)"
| "submit_loop env ctx (s # submissions) event p =
     (case te_GetWithParticipants env (sub_TrackID s) of
        Inl _ \<Rightarrow> submit_loop env ctx submissions event p
      | Inr mf \<Rightarrow>
          (case incPlay env mf (sub_Timestamp s) p of
             (False, p1) \<Rightarrow> submit_loop env ctx submissions event p1
           | (True, p1) \<Rightarrow>
               submit_loop env ctx submissions (event @ [mf_ID mf])
                 (if tc_ScrobbleEnabled ctx then dispatchScrobble env ctx mf (sub_Timestamp s) p1 else p1)))"

definition Submit :: "'c TrackerEnv \<Rightarrow> TrackerCtx \<Rightarrow> Submission list \<Rightarrow> 'c playTracker \<Rightarrow> 'c playTracker" where
  "Submit env ctx submissions p =
     (case submit_loop env ctx submissions [] p of
        (event, p1) \<Rightarrow> if length event > 0 then emit [RefreshResource event] p1 else p1)"

section \<open>Properties\<close>

text \<open>What the tracker relies on of the session cache: entries can be read back until they are
  removed, and clients do not affect each other. Expiry happens between reports.\<close>

definition cache_laws :: "'c CacheOps \<Rightarrow> bool" where
  "cache_laws ops \<longleftrightarrow>
     (\<forall>c k v ttl. 0 < ttl \<longrightarrow> co_Get ops (co_AddWithTTL ops k v ttl c) k = Some v) \<and>
     (\<forall>c k v ttl k'. k' \<noteq> k \<longrightarrow> co_Get ops (co_AddWithTTL ops k v ttl c) k' = co_Get ops c k') \<and>
     (\<forall>c k. co_Get ops (co_Remove ops k c) k = None) \<and>
     (\<forall>c k k'. k' \<noteq> k \<longrightarrow> co_Get ops (co_Remove ops k c) k' = co_Get ops c k')"

lemma tracker_simps [simp]:
  "pt_playMap (enqueuePlaybackReport i p) = pt_playMap p"
  "pt_playMap (emit es p) = pt_playMap p"
  "pt_playMap (enqueueNowPlaying k e p) = pt_playMap p"
  "pt_playMap (snd (incPlay env mf t p)) = pt_playMap p"
  "pt_playMap (dispatchScrobble env ctx mf t p) = pt_playMap p"
  "pt_playMap (report_tail env ctx params p) = pt_playMap p"
  by (simp_all add: enqueuePlaybackReport_def emit_def enqueueNowPlaying_def incPlay_def
      dispatchScrobble_def report_tail_def Let_def split: option.splits)

lemma tracker_queue_simps [simp]:
  "pt_prQueue (emit es p) = pt_prQueue p" "pt_npQueue (emit es p) = pt_npQueue p"
  "pt_db (emit es p) = pt_db p"
  "pt_prQueue (snd (incPlay env mf t p)) = pt_prQueue p" "pt_npQueue (snd (incPlay env mf t p)) = pt_npQueue p"
  "pt_events (snd (incPlay env mf t p)) = pt_events p"
  "pt_prQueue (dispatchScrobble env ctx mf t p) = pt_prQueue p"
  "pt_npQueue (dispatchScrobble env ctx mf t p) = pt_npQueue p"
  "pt_db (dispatchScrobble env ctx mf t p) = pt_db p"
  by (simp_all add: emit_def incPlay_def dispatchScrobble_def split: option.splits)

lemma scrobble_stopped_keeps:
  "scrobble_stopped env ctx params now p = Inr (mf, p1) \<Longrightarrow>
   pt_playMap p1 = pt_playMap p \<and> pt_prQueue p1 = pt_prQueue p \<and> pt_npQueue p1 = pt_npQueue p"
  by (auto simp: scrobble_stopped_def bind_result_Inr split: if_splits)

text \<open>
  C34. Reports that arrive out of order do not disturb the current session. A \<open>starting\<close> report for a
  track the client is already playing changes nothing, also when the session appears only between
  the first check and the locked section. A \<open>stopped\<close> report for another track than the current one
  keeps the sessions, the pending reports and the pending now-playing notices.
\<close>

theorem out_of_order_reports_ignored:
  assumes "cache_get env p (rp_ClientId params) = Some cur"
  shows "(mf_ID (ps_MediaFile cur) = rp_MediaId params \<and> ps_State cur = StatePlaying \<longrightarrow>
      (rp_State params = StateStarting \<longrightarrow> ReportPlayback env ctx params now p = (None, p)) \<and>
      starting_commit env ctx params mf now p = (Inr False, p)) \<and>
    (mf_ID (ps_MediaFile cur) \<noteq> rp_MediaId params \<and> rp_State params = StateStopped \<longrightarrow>
      (\<exists>e p'. ReportPlayback env ctx params now p = (e, p') \<and> pt_playMap p' = pt_playMap p \<and>
         pt_prQueue p' = pt_prQueue p \<and> pt_npQueue p' = pt_npQueue p))"
proof -
  have playing: "hasPlayingSession env p (rp_ClientId params) (rp_MediaId params)"
    if "mf_ID (ps_MediaFile cur) = rp_MediaId params" "ps_State cur = StatePlaying"
    using that assms by (simp add: hasPlayingSession_def)
  have "\<exists>e p'. ReportPlayback env ctx params now p = (e, p') \<and> pt_playMap p' = pt_playMap p \<and>
      pt_prQueue p' = pt_prQueue p \<and> pt_npQueue p' = pt_npQueue p"
    if other: "mf_ID (ps_MediaFile cur) \<noteq> rp_MediaId params" and st: "rp_State params = StateStopped"
  proof (cases "scrobble_stopped env ctx params now p")
    case (Inl e)
    then show ?thesis using st by (simp add: ReportPlayback_def report_stopped_def state_defs)
  next
    case (Inr x)
    obtain mf p1 where p1: "scrobble_stopped env ctx params now p = Inr (mf, p1)" using Inr by (cases x) auto
    from scrobble_stopped_keeps [OF p1] have k: "pt_playMap p1 = pt_playMap p" "pt_prQueue p1 = pt_prQueue p"
      "pt_npQueue p1 = pt_npQueue p" by auto
    have "cache_get env p1 (rp_ClientId params) = Some cur" using assms k(1) by (simp add: cache_get_def)
    with p1 k other st show ?thesis
      by (simp add: ReportPlayback_def report_stopped_def state_defs Let_def)
  qed
  with playing show ?thesis
    by (auto simp: ReportPlayback_def report_starting_def starting_commit_def)
qed

text \<open>The seconds a track still plays, before the fixed slack is added.\<close>

definition remaining_sec :: "'c TrackerEnv \<Rightarrow> MediaFile \<Rightarrow> go_int \<Rightarrow> rat \<Rightarrow> int" where
  "remaining_sec env mf positionMs rate =
     max (go_trunc (te_round64 env (te_round64 env (te_round64 env
       (of_int (wrap64 (track_ms env mf - positionMs))) / (if rate \<le> 0 then 1 else rate)) / 1000))) 0"

lemma remainingTTL_eq:
  "remainingTTL env mf pos rate = wrap64 (wrap64 (remaining_sec env mf pos rate + 5) * Second)"
  by (simp add: remainingTTL_def remaining_sec_def Let_def)

lemma remainingTTL_no_wrap:
  assumes "remaining_sec env mf pos rate \<le> 9000000000"
  shows "remainingTTL env mf pos rate = (remaining_sec env mf pos rate + 5) * Second"
proof -
  have "0 \<le> remaining_sec env mf pos rate" by (simp add: remaining_sec_def)
  with assms have "wrap64 (remaining_sec env mf pos rate + 5) = remaining_sec env mf pos rate + 5"
    "wrap64 ((remaining_sec env mf pos rate + 5) * Second) = (remaining_sec env mf pos rate + 5) * Second"
    by (simp_all add: wrap64_id Second_def)
  then show ?thesis by (simp add: remainingTTL_eq)
qed

text \<open>
  The time to live of a session covers the rest of the track and five seconds more, and never less
  than five seconds, as long as the rest is below nine billion seconds: then no step of the 64 bit
  computation wraps.
\<close>

lemma remainingTTL_covers_track:
  assumes "remaining_sec env mf pos rate \<le> 9000000000"
  shows "remainingTTL env mf pos rate = (remaining_sec env mf pos rate + 5) * Second \<and>
    5 * Second \<le> remainingTTL env mf pos rate"
proof -
  have "0 \<le> remaining_sec env mf pos rate" by (simp add: remaining_sec_def)
  then show ?thesis using remainingTTL_no_wrap [OF assms] by (simp add: Second_def)
qed

text \<open>The reports that are not out of order.\<close>

definition accepts_report :: "'c TrackerEnv \<Rightarrow> 'c playTracker \<Rightarrow> ReportPlaybackParams \<Rightarrow> bool" where
  "accepts_report env p params \<longleftrightarrow>
     rp_State params = StatePlaying \<or> rp_State params = StatePaused \<or>
     rp_State params = StateStarting \<and>
       \<not> hasPlayingSession env p (rp_ClientId params) (rp_MediaId params)"

lemma report_tail_queue [simp]: "pt_prQueue (report_tail env ctx params p) = pt_prQueue p"
  by (simp add: report_tail_def enqueueNowPlaying_def Let_def split: option.splits)

lemma paused_ttl_pos: "0 < paused_ttl"
  by (simp add: paused_ttl_def Second_def)

lemma session_for_media:
  assumes "\<And>i mf. te_GetWithParticipants env i = Inr mf \<Longrightarrow> mf_ID mf = i"
    and "session_for env ctx params now p = Inr s"
  shows "mf_ID (ps_MediaFile s) = rp_MediaId params"
  using assms by (auto simp: session_for_def Let_def bind_result_Inr new_session_def
      split: option.splits if_splits)

lemma session_for_source:
  "session_for env ctx params now p = Inr s \<Longrightarrow>
   te_GetWithParticipants env (rp_MediaId params) = Inr (ps_MediaFile s) \<or>
   (\<exists>s'. cache_get env p (rp_ClientId params) = Some s' \<and> ps_MediaFile s' = ps_MediaFile s)"
  by (auto simp: session_for_def Let_def bind_result_Inr new_session_def split: option.splits if_splits)

lemma cache_add_get:
  assumes "cache_laws (te_cache env)" "0 < ttl"
  shows "cache_get env (cache_add env k s ttl p) k' = (if k' = k then Some s else cache_get env p k')"
  using assms by (auto simp: cache_laws_def cache_get_def cache_add_def)

lemma cache_get_map: "pt_playMap p' = pt_playMap p \<Longrightarrow> cache_get env p' k = cache_get env p k"
  by (simp add: cache_get_def)

lemma ReportPlayback_added:
  assumes "accepts_report env p params" "ReportPlayback env ctx params now p = (None, p')"
    and "\<And>i mf. te_GetWithParticipants env i = Inr mf \<Longrightarrow> mf_ID mf = i"
    and "\<And>mf. te_GetWithParticipants env (rp_MediaId params) = Inr mf \<or>
        (\<exists>s. cache_get env p (rp_ClientId params) = Some s \<and> ps_MediaFile s = mf) \<Longrightarrow>
      0 < remainingTTL env mf (rp_PositionMs params) (rp_PlaybackRate params)"
  shows "\<exists>s ttl. 0 < ttl \<and> p' = report_tail env ctx params
      (enqueuePlaybackReport s (cache_add env (rp_ClientId params) s ttl p)) \<and>
    mf_ID (ps_MediaFile s) = rp_MediaId params \<and> ps_State s = rp_State params \<and>
    ps_PositionMs s = rp_PositionMs params \<and> ps_PlaybackRate s = rp_PlaybackRate params \<and> ps_LastReport s = now"
proof (cases "rp_State params = StateStarting")
  case True
  with assms(1) have np: "\<not> hasPlayingSession env p (rp_ClientId params) (rp_MediaId params)"
    by (auto simp: accepts_report_def state_defs)
  from True np assms(2) obtain mf where mf: "te_GetWithParticipants env (rp_MediaId params) = Inr mf"
    by (cases "te_GetWithParticipants env (rp_MediaId params)")
       (auto simp: ReportPlayback_def report_starting_def)
  let ?s = "new_session ctx params mf now now"
  have "p' = report_tail env ctx params (enqueuePlaybackReport ?s (cache_add env (rp_ClientId params) ?s
      (remainingTTL env mf (rp_PositionMs params) (rp_PlaybackRate params)) p))"
    using True np assms(2) mf by (simp add: ReportPlayback_def report_starting_def starting_commit_def Let_def)
  moreover have "mf_ID (ps_MediaFile ?s) = rp_MediaId params" using assms(3) [OF mf] by (simp add: new_session_def)
  ultimately show ?thesis using assms(4) [of mf] mf
    by (intro exI [of _ ?s] exI [of _ "remainingTTL env mf (rp_PositionMs params) (rp_PlaybackRate params)"])
       (simp add: new_session_def)
next
  case False
  with assms(1) have st: "rp_State params = StatePlaying \<or> rp_State params = StatePaused"
    by (auto simp: accepts_report_def)
  then have ns: "rp_State params \<noteq> StateStarting" by (auto simp: state_defs)
  from st ns assms(2) obtain s0 where s0: "session_for env ctx params now p = Inr s0"
    by (cases "session_for env ctx params now p") (auto simp: ReportPlayback_def report_playing_def)
  let ?s = "s0\<lparr>ps_State := rp_State params, ps_PositionMs := rp_PositionMs params,
    ps_PlaybackRate := rp_PlaybackRate params, ps_LastReport := now\<rparr>"
  let ?ttl = "if rp_State params = StatePlaying
    then remainingTTL env (ps_MediaFile ?s) (rp_PositionMs params) (rp_PlaybackRate params) else paused_ttl"
  have "p' = report_tail env ctx params (enqueuePlaybackReport ?s (cache_add env (rp_ClientId params) ?s ?ttl p))"
    using st ns assms(2) s0 by (auto simp: ReportPlayback_def report_playing_def Let_def)
  moreover have "0 < ?ttl" using assms(4) [OF session_for_source [OF s0]] paused_ttl_pos by simp
  ultimately show ?thesis using session_for_media [OF assms(3) s0]
    by (intro exI [of _ ?s] exI [of _ ?ttl]) simp
qed

text \<open>
  What a report leaves behind. When a \<open>starting\<close>, \<open>playing\<close> or \<open>paused\<close> report is accepted, the
  client's session afterwards is for the reported track, in the reported state, at the reported
  position and rate, stamped with the time of the report; it is the last entry of the queue of
  playback reports; and the sessions of all other clients are what they were.
\<close>

lemma report_updates_session:
  assumes "cache_laws (te_cache env)" "accepts_report env p params"
    and "ReportPlayback env ctx params now p = (None, p')"
    and "\<And>i mf. te_GetWithParticipants env i = Inr mf \<Longrightarrow> mf_ID mf = i"
    and "\<And>mf. te_GetWithParticipants env (rp_MediaId params) = Inr mf \<or>
        (\<exists>s. cache_get env p (rp_ClientId params) = Some s \<and> ps_MediaFile s = mf) \<Longrightarrow>
      0 < remainingTTL env mf (rp_PositionMs params) (rp_PlaybackRate params)"
  shows "(\<exists>s. cache_get env p' (rp_ClientId params) = Some s \<and>
      mf_ID (ps_MediaFile s) = rp_MediaId params \<and> ps_State s = rp_State params \<and>
      ps_PositionMs s = rp_PositionMs params \<and> ps_PlaybackRate s = rp_PlaybackRate params \<and>
      ps_LastReport s = now \<and> pt_prQueue p' = pt_prQueue p @ [s]) \<and>
    (\<forall>c. c \<noteq> rp_ClientId params \<longrightarrow> cache_get env p' c = cache_get env p c)"
proof -
  obtain s ttl where s: "0 < ttl" "p' = report_tail env ctx params
      (enqueuePlaybackReport s (cache_add env (rp_ClientId params) s ttl p))"
    "mf_ID (ps_MediaFile s) = rp_MediaId params" "ps_State s = rp_State params"
    "ps_PositionMs s = rp_PositionMs params" "ps_PlaybackRate s = rp_PlaybackRate params" "ps_LastReport s = now"
    using ReportPlayback_added [OF assms(2-5)] by blast
  have "cache_get env p' k = (if k = rp_ClientId params then Some s else cache_get env p k)" for k
    using cache_add_get [OF assms(1) s(1)] cache_get_map [of p' "cache_add env (rp_ClientId params) s ttl p" env k]
    by (simp add: s(2))
  moreover have "pt_prQueue p' = pt_prQueue p @ [s]"
    by (simp add: s(2) enqueuePlaybackReport_def cache_add_def)
  ultimately show ?thesis using s(3-7) by auto
qed

lemma run_tx_all: "run_tx fails ops db = (if \<exists>op\<in>set ops. fails op then None else Some (db @ ops))"
  by (induction ops arbitrary: db) auto

text \<open>A play is counted as a whole, for the track, its album and each of its artists, or not at all.\<close>

lemma incPlay_atomic:
  "incPlay env track ts p =
     (if \<exists>op\<in>set (play_ops env track ts). te_fails env op then (False, p)
      else (True, p\<lparr>pt_db := pt_db p @ play_ops env track ts\<rparr>))"
  by (simp add: incPlay_def run_tx_all)

lemma pt_db_simps [simp]:
  "pt_db (enqueuePlaybackReport i p) = pt_db p" "pt_db (cache_add env k i t p) = pt_db p"
  "pt_db (cache_remove env k p) = pt_db p" "pt_db (report_tail env ctx params p) = pt_db p"
  by (simp_all add: enqueuePlaybackReport_def cache_add_def cache_remove_def report_tail_def
      enqueueNowPlaying_def Let_def split: option.splits)

text \<open>
  C35. When a play counts. A report changes the play counts only if it is a \<open>stopped\<close> report that does
  not ask to be ignored, from a player with scrobbling enabled, for a track that was found, at a
  position of at least half the track or four minutes; then the play is counted once and as a whole
  (track, album, every artist, and the history if enabled), unless one of the updates fails.
\<close>

theorem play_counted_iff:
  "pt_db (snd (ReportPlayback env ctx params now p)) =
     pt_db p @
     (if rp_State params = StateStopped \<and> \<not> rp_IgnoreScrobble params \<and> tc_ScrobbleEnabled ctx
      then case te_GetWithParticipants env (rp_MediaId params) of
             Inl _ \<Rightarrow> []
           | Inr mf \<Rightarrow>
               if min (go_quot (wrap64 (track_ms env mf * 50)) 100) 240000 \<le> rp_PositionMs params \<and>
                  (\<forall>op\<in>set (play_ops env mf now). \<not> te_fails env op)
               then play_ops env mf now else []
      else [])"
proof (cases "rp_State params = StateStopped")
  case True
  then show ?thesis
    by (auto simp: ReportPlayback_def report_stopped_def scrobble_stopped_def scrobble_threshold_def state_defs
        incPlay_atomic Let_def split: sum.splits option.splits)
next
  case False
  then show ?thesis
    by (auto simp: ReportPlayback_def report_starting_def starting_commit_def report_playing_def Let_def
        split: sum.splits)
qed

text \<open>
  The now-playing list holds every session of the cache, newest first, and for a session that is
  playing the estimated position never exceeds the length of the track.
\<close>

lemma GetNowPlaying_spec:
  "mset (map ps_PlayerId (GetNowPlaying env now p)) =
     mset (map ps_PlayerId (co_Values (te_cache env) (pt_playMap p))) \<and>
   sorted_wrt (\<lambda>a b. ps_Start b \<le> ps_Start a) (GetNowPlaying env now p) \<and>
   (\<forall>s\<in>set (GetNowPlaying env now p). ps_State s = StatePlaying \<longrightarrow>
      ps_PositionMs s \<le> track_ms env (ps_MediaFile s))"
proof -
  have same: "ps_PlayerId (estimate_position env now s) = ps_PlayerId s"
    "ps_Start (estimate_position env now s) = ps_Start s" for s
    by (simp_all add: estimate_position_def Let_def)
  have "sorted_wrt (\<lambda>a b. ps_Start b \<le> ps_Start a) (sort_key (\<lambda>s. - ps_Start s) xs)" for xs
    using sorted_sort_key [of "\<lambda>s. - ps_Start s" xs] by (simp add: sorted_map)
  then have "sorted_wrt (\<lambda>a b. ps_Start b \<le> ps_Start a) (GetNowPlaying env now p)"
    by (simp add: GetNowPlaying_def sorted_wrt_map same)
  moreover have "map ps_PlayerId (GetNowPlaying env now p) =
      map ps_PlayerId (sort_key (\<lambda>s. - ps_Start s) (co_Values (te_cache env) (pt_playMap p)))"
    by (simp add: GetNowPlaying_def same)
  then have "mset (map ps_PlayerId (GetNowPlaying env now p)) =
      mset (map ps_PlayerId (co_Values (te_cache env) (pt_playMap p)))" by simp
  moreover have "ps_PositionMs s \<le> track_ms env (ps_MediaFile s)"
    if "s \<in> set (GetNowPlaying env now p)" "ps_State s = StatePlaying" for s
    using that by (auto simp: GetNowPlaying_def estimate_position_def Let_def split: if_splits)
  ultimately show ?thesis by blast
qed

section \<open>Examples\<close>

text \<open>A cache that is a list of sessions and never expires, and a track of three minutes.\<close>

type_synonym list_cache = "(string \<times> PlaybackSession) list"

definition list_cache_ops :: "list_cache CacheOps" where
  "list_cache_ops = \<lparr>co_Get = map_of,
     co_AddWithTTL = (\<lambda>k v ttl c. (k, v) # filter (\<lambda>(k', _). k' \<noteq> k) c),
     co_Remove = (\<lambda>k c. filter (\<lambda>(k', _). k' \<noteq> k) c),
     co_Values = map snd, co_Len = length\<rparr>"

lemma map_of_filter_key: "map_of (filter (\<lambda>(k', _). k' \<noteq> k) c) k' = (if k' = k then None else map_of c k')"
  by (induction c) auto

lemma list_cache_laws: "cache_laws list_cache_ops"
  by (simp add: cache_laws_def list_cache_ops_def map_of_filter_key)

definition three_minutes :: "string \<Rightarrow> MediaFile" where
  "three_minutes i = zero_MediaFile\<lparr>mf_ID := i, mf_Title := i, mf_AlbumID := ''al'', mf_Duration := 0x43340000,
     mf_Artists := [\<lparr>pt_ID = ''ar'', pt_Name = ''ann''\<rparr>]\<rparr>"

definition sample_tracker_env :: "list_cache TrackerEnv" where
  "sample_tracker_env = \<lparr>te_cache = list_cache_ops, te_GetWithParticipants = (\<lambda>i. Inr (three_minutes i)),
     te_fails = (\<lambda>_. False), te_scrobblers = [''lastfm''], te_IsAuthorized = (\<lambda>_ _. True),
     te_round32 = id, te_round64 = id, te_EnableNowPlaying = True, te_EnableScrobbleHistory = False\<rparr>"

definition ann :: TrackerCtx where
  "ann = \<lparr>tc_UserId = ''u1'', tc_UserName = ''ann'', tc_ScrobbleEnabled = True\<rparr>"

definition report :: "string \<Rightarrow> string \<Rightarrow> go_int \<Rightarrow> ReportPlaybackParams" where
  "report state media pos = \<lparr>rp_MediaId = media, rp_PositionMs = pos, rp_State = state, rp_PlaybackRate = 1,
     rp_IgnoreScrobble = False, rp_ClientId = ''phone'', rp_ClientName = ''app''\<rparr>"

definition idle_tracker :: "list_cache playTracker" where
  "idle_tracker = \<lparr>pt_playMap = [], pt_npQueue = [], pt_prQueue = [], pt_db = [], pt_events = []\<rparr>"

definition playing_tracker :: "list_cache playTracker" where
  "playing_tracker = snd (ReportPlayback sample_tracker_env ann (report StatePlaying ''m1'' 1000) 0 idle_tracker)"

lemma three_minutes_ms: "track_ms sample_tracker_env (three_minutes i) = 180000"
  by (simp add: track_ms_def sample_tracker_env_def three_minutes_def zero_MediaFile_def float32_value_def
      go_trunc_def)

lemma remainingTTL_covers_track_witness:
  "remainingTTL sample_tracker_env (three_minutes ''m1'') 60000 1 = 125 * Second"
proof -
  have "remaining_sec sample_tracker_env (three_minutes ''m1'') 60000 1 = 120"
    by (simp add: remaining_sec_def three_minutes_ms wrap64_id) (simp add: sample_tracker_env_def go_trunc_def)
  with remainingTTL_covers_track [of sample_tracker_env "three_minutes ''m1''" 60000 1] show ?thesis by simp
qed

text \<open>
  The rate of a report is the client's and only has to be positive: for a small enough one the
  nanoseconds wrap around and the time to live of the session is negative.
\<close>

lemma tiny_rate_overflows: "remainingTTL sample_tracker_env (three_minutes ''m1'') 0 (1 / 1000000000) < 0"
proof -
  have "remaining_sec sample_tracker_env (three_minutes ''m1'') 0 (1 / 1000000000) = 180000000000"
    by (simp add: remaining_sec_def three_minutes_ms wrap64_id) (simp add: sample_tracker_env_def go_trunc_def)
  then show ?thesis
    by (simp add: remainingTTL_eq wrap64_id Second_def) (simp add: wrap64_def signed_take_bit_eq_take_bit_minus)
qed

lemmas playing_evals = playing_tracker_def ReportPlayback_def report_playing_def report_def state_defs
  session_for_def cache_get_def sample_tracker_env_def list_cache_ops_def idle_tracker_def new_session_def
  cache_add_def Let_def

lemma playing_tracker_session:
  "\<exists>cur. cache_get sample_tracker_env playing_tracker ''phone'' = Some cur \<and>
     mf_ID (ps_MediaFile cur) = ''m1'' \<and> ps_State cur = StatePlaying"
  by (simp add: playing_evals three_minutes_def zero_MediaFile_def)

theorem out_of_order_reports_ignored_witness:
  "ReportPlayback sample_tracker_env ann (report StateStarting ''m1'' 0) 5 playing_tracker = (None, playing_tracker) \<and>
   (\<exists>e p'. ReportPlayback sample_tracker_env ann (report StateStopped ''m0'' 170000) 5 playing_tracker = (e, p') \<and>
      pt_playMap p' = pt_playMap playing_tracker)"
proof -
  obtain cur where cur: "cache_get sample_tracker_env playing_tracker ''phone'' = Some cur"
    "mf_ID (ps_MediaFile cur) = ''m1''" "ps_State cur = StatePlaying" using playing_tracker_session by blast
  have "cache_get sample_tracker_env playing_tracker (rp_ClientId (report st m k)) = Some cur" for st m k
    using cur(1) by (simp add: report_def)
  note * = out_of_order_reports_ignored [OF this, where now = 5 and ctx = ann]
  from * [of StateStarting "''m1''" 0] * [of StateStopped "''m0''" 170000] cur(2,3) show ?thesis
    by (simp add: report_def) blast
qed

lemma report_updates_session_witness:
  "\<exists>s. cache_get sample_tracker_env playing_tracker ''phone'' = Some s \<and> ps_PositionMs s = 1000"
proof -
  have r: "ReportPlayback sample_tracker_env ann (report StatePlaying ''m1'' 1000) 0 idle_tracker = (None, playing_tracker)"
    by (simp add: playing_evals)
  have a: "accepts_report sample_tracker_env idle_tracker (report StatePlaying ''m1'' 1000)"
    by (simp add: accepts_report_def report_def)
  have l: "cache_laws (te_cache sample_tracker_env)" by (simp add: sample_tracker_env_def list_cache_laws)
  have "remaining_sec sample_tracker_env (three_minutes ''m1'') 1000 1 = 179"
    by (simp add: remaining_sec_def three_minutes_ms wrap64_id) (simp add: sample_tracker_env_def go_trunc_def)
  then have "0 < remainingTTL sample_tracker_env (three_minutes ''m1'') 1000 1"
    by (simp add: remainingTTL_no_wrap Second_def)
  then have t: "0 < remainingTTL sample_tracker_env mf (rp_PositionMs (report StatePlaying ''m1'' 1000))
      (rp_PlaybackRate (report StatePlaying ''m1'' 1000))"
    if "te_GetWithParticipants sample_tracker_env (rp_MediaId (report StatePlaying ''m1'' 1000)) = Inr mf \<or>
      (\<exists>s. cache_get sample_tracker_env idle_tracker (rp_ClientId (report StatePlaying ''m1'' 1000)) = Some s \<and>
        ps_MediaFile s = mf)" for mf
    using that by (auto simp: report_def sample_tracker_env_def cache_get_def idle_tracker_def list_cache_ops_def)
  have m: "mf_ID mf = i" if "te_GetWithParticipants sample_tracker_env i = Inr mf" for i mf
    using that by (auto simp: sample_tracker_env_def three_minutes_def)
  from report_updates_session [OF l a r m t] show ?thesis by (auto simp: report_def)
qed

theorem play_counted_iff_witness:
  "pt_db (snd (ReportPlayback sample_tracker_env ann (report StateStopped ''m1'' 90000) 7 playing_tracker)) =
     [IncMediaFile ''m1'' 7, IncAlbum ''al'' 7, IncArtist ''ar'' 7]"
proof -
  have "pt_db playing_tracker = []"
    by (simp add: playing_evals)
  moreover have "te_GetWithParticipants sample_tracker_env ''m1'' = Inr (three_minutes ''m1'')"
    by (simp add: sample_tracker_env_def)
  moreover have "play_ops sample_tracker_env (three_minutes ''m1'') 7 =
      [IncMediaFile ''m1'' 7, IncAlbum ''al'' 7, IncArtist ''ar'' 7]"
    by (simp add: play_ops_def sample_tracker_env_def three_minutes_def zero_MediaFile_def)
  moreover have "\<not> te_fails sample_tracker_env op" for op by (simp add: sample_tracker_env_def)
  ultimately show ?thesis
    unfolding play_counted_iff by (simp add: report_def ann_def three_minutes_ms wrap64_id go_quot_def)
qed

theorem GetNowPlaying_spec_witness:
  "\<exists>s. GetNowPlaying sample_tracker_env (3600 * Second) playing_tracker = [s] \<and>
     ps_PositionMs s \<le> track_ms sample_tracker_env (ps_MediaFile s)"
proof -
  have "length (co_Values (te_cache sample_tracker_env) (pt_playMap playing_tracker)) = 1"
    by (simp add: playing_evals)
  then have "length (GetNowPlaying sample_tracker_env (3600 * Second) playing_tracker) = 1"
    by (simp add: GetNowPlaying_def)
  then obtain s where s: "GetNowPlaying sample_tracker_env (3600 * Second) playing_tracker = [s]"
    by (auto simp: length_Suc_conv)
  have "ps_State s = StatePlaying"
  proof -
    have "\<forall>x\<in>set (co_Values (te_cache sample_tracker_env) (pt_playMap playing_tracker)). ps_State x = StatePlaying"
      by (simp add: playing_evals)
    moreover have "s \<in> set (GetNowPlaying sample_tracker_env (3600 * Second) playing_tracker)" using s by simp
    ultimately show ?thesis by (auto simp: GetNowPlaying_def estimate_position_def Let_def split: if_splits)
  qed
  with s GetNowPlaying_spec [of sample_tracker_env "3600 * Second" playing_tracker] show ?thesis by auto
qed

end
