(* ===== verification/Server_Throttle.thy ===== *)
theory Server_Throttle
  imports Bragi_Prelude
begin

text \<open>
  \<open>server/throttle_backlog.go\<close>: the middleware that limits how many requests are processed at once
  and how many may wait, and buffers the response so that a slow client does not hold a token.

  A channel of tokens is the number of tokens in it and its capacity. \<open>acquire\<close> and the release
  function are sequences of channel operations, each a step; requests interleave between them. A
  send to a full channel blocks: its step is not enabled, and the theorems show that this never
  happens. The timer and the cancellation of the request's context may fire at any time.
\<close>

section \<open>The throttle\<close>

record requestThrottle =
  th_tokens :: nat
  th_tokensCap :: nat
  th_backlogTokens :: nat
  th_backlogCap :: nat

datatype middleware = NoThrottle | ChiThrottle | BufferedThrottle requestThrottle | MakePanics

definition ThrottleBacklog :: "bool \<Rightarrow> go_int \<Rightarrow> go_int \<Rightarrow> middleware" where
  "ThrottleBacklog buffered limit backlogLimit =
     (if limit \<le> 0 then NoThrottle
      else if \<not> buffered then ChiThrottle
      else if limit + backlogLimit < 0 then MakePanics
      else BufferedThrottle
        \<lparr>th_tokens = nat limit, th_tokensCap = nat limit,
         th_backlogTokens = nat (limit + backlogLimit), th_backlogCap = nat (limit + backlogLimit)\<rparr>)"

datatype throttle_error = ErrThrottleCapacityExceeded | ErrThrottleTimeout | CtxDone

text \<open>Where a request is: before \<open>acquire\<close>, with a backlog token, waiting for a token, processing,
  between the two sends of the release function, or finished.\<close>

datatype throttle_phase =
  TIdle | TQueued | TWaiting | THolding | TFreed | TServed | TGivingUp throttle_error | TRejected throttle_error

record throttle_system =
  ts_throttle :: requestThrottle
  ts_requests :: "throttle_phase list"

definition ts_at :: "throttle_system \<Rightarrow> nat \<Rightarrow> throttle_phase \<Rightarrow> bool" where
  "ts_at s i ph \<longleftrightarrow> i < length (ts_requests s) \<and> ts_requests s ! i = ph"

definition move :: "throttle_system \<Rightarrow> nat \<Rightarrow> throttle_phase \<Rightarrow> throttle_system" where
  "move s i ph = s\<lparr>ts_requests := (ts_requests s)[i := ph]\<rparr>"

definition take_token :: "throttle_system \<Rightarrow> throttle_system" where
  "take_token s = s\<lparr>ts_throttle := (ts_throttle s)\<lparr>th_tokens := th_tokens (ts_throttle s) - 1\<rparr>\<rparr>"

definition put_token :: "throttle_system \<Rightarrow> throttle_system" where
  "put_token s = s\<lparr>ts_throttle := (ts_throttle s)\<lparr>th_tokens := th_tokens (ts_throttle s) + 1\<rparr>\<rparr>"

definition take_backlog :: "throttle_system \<Rightarrow> throttle_system" where
  "take_backlog s = s\<lparr>ts_throttle := (ts_throttle s)\<lparr>th_backlogTokens := th_backlogTokens (ts_throttle s) - 1\<rparr>\<rparr>"

definition put_backlog :: "throttle_system \<Rightarrow> throttle_system" where
  "put_backlog s = s\<lparr>ts_throttle := (ts_throttle s)\<lparr>th_backlogTokens := th_backlogTokens (ts_throttle s) + 1\<rparr>\<rparr>"

definition tokens_ready :: "throttle_system \<Rightarrow> bool" where
  "tokens_ready s \<longleftrightarrow> 0 < th_tokens (ts_throttle s)"

definition tokens_full :: "throttle_system \<Rightarrow> bool" where
  "tokens_full s \<longleftrightarrow> th_tokensCap (ts_throttle s) \<le> th_tokens (ts_throttle s)"

definition backlog_ready :: "throttle_system \<Rightarrow> bool" where
  "backlog_ready s \<longleftrightarrow> 0 < th_backlogTokens (ts_throttle s)"

definition backlog_full :: "throttle_system \<Rightarrow> bool" where
  "backlog_full s \<longleftrightarrow> th_backlogCap (ts_throttle s) \<le> th_backlogTokens (ts_throttle s)"

lemmas throttle_defs = ts_at_def move_def take_token_def put_token_def take_backlog_def put_backlog_def
  tokens_ready_def tokens_full_def backlog_ready_def backlog_full_def

inductive throttle_step :: "throttle_system \<Rightarrow> throttle_system \<Rightarrow> bool" where
  t_cancelled: "ts_at s i TIdle \<Longrightarrow> throttle_step s (move s i (TRejected CtxDone))"
| t_queue: "ts_at s i TIdle \<Longrightarrow> backlog_ready s \<Longrightarrow> throttle_step s (move (take_backlog s) i TQueued)"
| t_full: "ts_at s i TIdle \<Longrightarrow> \<not> backlog_ready s \<Longrightarrow>
    throttle_step s (move s i (TRejected ErrThrottleCapacityExceeded))"
| t_direct: "ts_at s i TQueued \<Longrightarrow> tokens_ready s \<Longrightarrow> throttle_step s (move (take_token s) i THolding)"
| t_wait: "ts_at s i TQueued \<Longrightarrow> \<not> tokens_ready s \<Longrightarrow> throttle_step s (move s i TWaiting)"
| t_timeout: "ts_at s i TWaiting \<Longrightarrow> throttle_step s (move s i (TGivingUp ErrThrottleTimeout))"
| t_cancel: "ts_at s i TWaiting \<Longrightarrow> throttle_step s (move s i (TGivingUp CtxDone))"
| t_token: "ts_at s i TWaiting \<Longrightarrow> tokens_ready s \<Longrightarrow> throttle_step s (move (take_token s) i THolding)"
| t_give_up: "ts_at s i (TGivingUp e) \<Longrightarrow> \<not> backlog_full s \<Longrightarrow>
    throttle_step s (move (put_backlog s) i (TRejected e))"
| t_release: "ts_at s i THolding \<Longrightarrow> \<not> tokens_full s \<Longrightarrow> throttle_step s (move (put_token s) i TFreed)"
| t_released: "ts_at s i TFreed \<Longrightarrow> \<not> backlog_full s \<Longrightarrow> throttle_step s (move (put_backlog s) i TServed)"

definition throttle_start :: "nat \<Rightarrow> nat \<Rightarrow> nat \<Rightarrow> throttle_system" where
  "throttle_start limit backlogLimit n =
     \<lparr>ts_throttle = \<lparr>th_tokens = limit, th_tokensCap = limit, th_backlogTokens = limit + backlogLimit,
        th_backlogCap = limit + backlogLimit\<rparr>,
      ts_requests = replicate n TIdle\<rparr>"

section \<open>The buffered response\<close>

record bufferedResponseWriter =
  bw_header :: "(string \<times> string list) list"
  bw_body :: string
  bw_code :: go_int

definition bw_Write :: "string \<Rightarrow> bufferedResponseWriter \<Rightarrow> bufferedResponseWriter" where
  "bw_Write b w = w\<lparr>bw_body := bw_body w @ b\<rparr>"

definition bw_WriteHeader :: "go_int \<Rightarrow> bufferedResponseWriter \<Rightarrow> bufferedResponseWriter" where
  "bw_WriteHeader code w = (if bw_code w \<noteq> 0 then w else w\<lparr>bw_code := code\<rparr>)"

text \<open>
  What the client gets: 429 when no token was acquired, else the buffered header, code (when one was
  written) and body; \<open>next\<close> runs on an empty buffer.
\<close>

datatype http_reply = TooManyRequests | Reply "(string \<times> string list) list" "go_int option" string

definition throttle_handler ::
  "(bufferedResponseWriter \<Rightarrow> bufferedResponseWriter) \<Rightarrow> throttle_error option \<Rightarrow> http_reply" where
  "throttle_handler serve acquired =
     (case acquired of
        Some _ \<Rightarrow> TooManyRequests
      | None \<Rightarrow>
          let buf = serve \<lparr>bw_header = [], bw_body = [], bw_code = 0\<rparr>
          in Reply (bw_header buf) (if bw_code buf > 0 then Some (bw_code buf) else None) (bw_body buf))"

section \<open>Invariant\<close>

definition holds_token :: "throttle_phase \<Rightarrow> bool" where
  "holds_token ph \<longleftrightarrow> ph = THolding"

definition holds_backlog :: "throttle_phase \<Rightarrow> bool" where
  "holds_backlog ph \<longleftrightarrow> ph \<in> {TQueued, TWaiting, THolding, TFreed} \<union> range TGivingUp"

definition throttle_inv :: "nat \<Rightarrow> nat \<Rightarrow> throttle_system \<Rightarrow> bool" where
  "throttle_inv limit backlogLimit s \<longleftrightarrow>
     th_tokensCap (ts_throttle s) = limit \<and> th_backlogCap (ts_throttle s) = limit + backlogLimit \<and>
     th_tokens (ts_throttle s) + count_if holds_token (ts_requests s) = limit \<and>
     th_backlogTokens (ts_throttle s) + count_if holds_backlog (ts_requests s) = limit + backlogLimit"

lemma throttle_inv_start: "throttle_inv limit backlogLimit (throttle_start limit backlogLimit n)"
  by (simp add: throttle_inv_def throttle_start_def holds_token_def holds_backlog_def image_iff)

lemma throttle_inv_move:
  assumes "throttle_inv limit b s" "ts_at s i ph"
    and "ts_requests s' = (ts_requests s)[i := ph']"
    and "th_tokensCap (ts_throttle s') = th_tokensCap (ts_throttle s)"
    and "th_backlogCap (ts_throttle s') = th_backlogCap (ts_throttle s)"
    and "int (th_tokens (ts_throttle s')) + of_bool (holds_token ph') =
      int (th_tokens (ts_throttle s)) + of_bool (holds_token ph)"
    and "int (th_backlogTokens (ts_throttle s')) + of_bool (holds_backlog ph') =
      int (th_backlogTokens (ts_throttle s)) + of_bool (holds_backlog ph)"
  shows "throttle_inv limit b s'"
proof -
  have i: "i < length (ts_requests s)" "ts_requests s ! i = ph" using assms(2) by (auto simp: ts_at_def)
  have "int (count_if p (ts_requests s')) = int (count_if p (ts_requests s)) + of_bool (p ph') - of_bool (p ph)" for p
    using count_if_update [OF i(1), of p ph'] i(2) by (simp add: assms(3) of_bool_def)
  from this [of holds_token] this [of holds_backlog] assms(1,4-7) show ?thesis
    unfolding throttle_inv_def by linarith
qed

lemmas step_simps = throttle_defs holds_token_def holds_backlog_def image_iff

lemma throttle_step_inv: "throttle_step s t \<Longrightarrow> throttle_inv limit b s \<Longrightarrow> throttle_inv limit b t"
proof (induction rule: throttle_step.induct)
  case (t_cancelled s i)
  from throttle_inv_move [OF t_cancelled.prems t_cancelled.hyps(1)] t_cancelled.hyps show ?case by (simp add: step_simps)
next
  case (t_queue s i)
  from throttle_inv_move [OF t_queue.prems t_queue.hyps(1)] t_queue.hyps show ?case by (simp add: step_simps)
next
  case (t_full s i)
  from throttle_inv_move [OF t_full.prems t_full.hyps(1)] t_full.hyps show ?case by (simp add: step_simps)
next
  case (t_direct s i)
  from throttle_inv_move [OF t_direct.prems t_direct.hyps(1)] t_direct.hyps show ?case by (simp add: step_simps)
next
  case (t_wait s i)
  from throttle_inv_move [OF t_wait.prems t_wait.hyps(1)] t_wait.hyps show ?case by (simp add: step_simps)
next
  case (t_timeout s i)
  from throttle_inv_move [OF t_timeout.prems t_timeout.hyps(1)] t_timeout.hyps show ?case by (simp add: step_simps)
next
  case (t_cancel s i)
  from throttle_inv_move [OF t_cancel.prems t_cancel.hyps(1)] t_cancel.hyps show ?case by (simp add: step_simps)
next
  case (t_token s i)
  from throttle_inv_move [OF t_token.prems t_token.hyps(1)] t_token.hyps show ?case by (simp add: step_simps)
next
  case (t_give_up s i e)
  from throttle_inv_move [OF t_give_up.prems t_give_up.hyps(1)] t_give_up.hyps show ?case by (simp add: step_simps)
next
  case (t_release s i)
  from throttle_inv_move [OF t_release.prems t_release.hyps(1)] t_release.hyps show ?case by (simp add: step_simps)
next
  case (t_released s i)
  from throttle_inv_move [OF t_released.prems t_released.hyps(1)] t_released.hyps show ?case by (simp add: step_simps)
qed

interpretation throttle_run: invariant_machine "throttle_start limit backlogLimit n" throttle_step
  "throttle_inv limit backlogLimit" for limit backlogLimit n
  by unfold_locales (auto intro: throttle_inv_start throttle_step_inv)

section \<open>Properties\<close>

text \<open>
  C10. However requests interleave, at most \<open>limit\<close> of them are processed at the same time and at
  most \<open>limit + backlogLimit\<close> are admitted; a send on a channel of the throttle never blocks, so a
  finished or abandoned request always gives back what it took; and when every request has ended
  both channels are full again.
\<close>

theorem throttle_safe:
  assumes "reachable_from throttle_step (throttle_start limit backlogLimit n) s"
  shows "count_if holds_token (ts_requests s) \<le> limit \<and>
    count_if holds_backlog (ts_requests s) \<le> limit + backlogLimit \<and>
    (ts_at s i THolding \<longrightarrow> \<not> tokens_full s) \<and>
    (ts_at s i TFreed \<or> ts_at s i (TGivingUp e) \<longrightarrow> \<not> backlog_full s) \<and>
    ((\<forall>ph\<in>set (ts_requests s). ph = TServed \<or> (\<exists>e. ph = TRejected e)) \<longrightarrow>
       th_tokens (ts_throttle s) = limit \<and> th_backlogTokens (ts_throttle s) = limit + backlogLimit)"
proof -
  have inv: "throttle_inv limit backlogLimit s" by (rule throttle_run.inv_reachable [OF assms])
  have "0 < count_if holds_token (ts_requests s)" if "ts_at s i THolding"
    using that by (auto simp: ts_at_def holds_token_def intro!: count_if_pos)
  moreover have "0 < count_if holds_backlog (ts_requests s)" if "ts_at s i TFreed \<or> ts_at s i (TGivingUp e)"
    using that by (auto simp: ts_at_def holds_backlog_def intro!: count_if_pos)
  moreover have "count_if holds_token (ts_requests s) = 0 \<and> count_if holds_backlog (ts_requests s) = 0"
    if "\<forall>ph\<in>set (ts_requests s). ph = TServed \<or> (\<exists>e. ph = TRejected e)"
    using that by (auto simp: count_if_0 holds_token_def holds_backlog_def)
  ultimately show ?thesis
    using inv unfolding throttle_inv_def tokens_full_def backlog_full_def by auto
qed

theorem throttle_safe_witness:
  "\<exists>s. reachable_from throttle_step (throttle_start 1 1 2) s \<and> ts_at s 0 THolding \<and> \<not> tokens_full s"
proof -
  let ?s0 = "throttle_start 1 1 2"
  let ?s1 = "move (take_backlog ?s0) 0 TQueued"
  let ?s2 = "move (take_token ?s1) 0 THolding"
  have 1: "throttle_step ?s0 ?s1" by (rule t_queue) (simp_all add: throttle_defs throttle_start_def)
  have 2: "throttle_step ?s1 ?s2" by (rule t_direct) (simp_all add: throttle_defs throttle_start_def)
  from 1 2 have r: "reachable_from throttle_step ?s0 ?s2" by (meson reachable_refl reachable_step)
  have "ts_at ?s2 0 THolding" by (simp add: throttle_defs throttle_start_def)
  with r throttle_safe [OF r] show ?thesis by blast
qed

text \<open>
  Progress: no reachable state is stuck before every request has ended. Some request that has
  not been served or rejected can always make a step.
\<close>

lemma throttle_progress:
  assumes "reachable_from throttle_step (throttle_start limit backlogLimit n) s"
    and "ph \<in> set (ts_requests s)" "ph \<noteq> TServed" "\<forall>e. ph \<noteq> TRejected e"
  shows "\<exists>t. throttle_step s t"
proof -
  have inv: "throttle_inv limit backlogLimit s" by (rule throttle_run.inv_reachable [OF assms(1)])
  obtain i where i: "ts_at s i ph" using assms(2) by (auto simp: ts_at_def in_set_conv_nth)
  have tok: "\<not> tokens_full s" if "ph = THolding"
    using inv that i count_if_pos [of i "ts_requests s" holds_token]
    by (auto simp: throttle_inv_def ts_at_def tokens_full_def holds_token_def)
  have bl: "\<not> backlog_full s" if "ph = TFreed \<or> (\<exists>e. ph = TGivingUp e)"
    using inv that i count_if_pos [of i "ts_requests s" holds_backlog]
    by (auto simp: throttle_inv_def ts_at_def backlog_full_def holds_backlog_def)
  show ?thesis
    using i tok bl assms(3,4)
    by (cases ph; cases "tokens_ready s"; cases "backlog_ready s")
       (auto intro: t_queue t_full t_timeout t_release t_released t_give_up t_direct t_wait)
qed

lemma throttle_progress_witness: "\<exists>t. throttle_step (throttle_start 2 1 3) t"
  using throttle_progress [OF reachable_refl, of TIdle 2 1 3] by (simp add: throttle_start_def)

text \<open>The first code written to the buffer is the one that is sent.\<close>

lemma first_code_wins:
  "a \<noteq> 0 \<Longrightarrow> bw_WriteHeader b (bw_WriteHeader a \<lparr>bw_header = h, bw_body = c, bw_code = 0\<rparr>) =
     \<lparr>bw_header = h, bw_body = c, bw_code = a\<rparr>"
  by (simp add: bw_WriteHeader_def)

end
