(* ===== verification/Utils_Shellquote.thy ===== *)
theory Utils_Shellquote
  imports Bragi_Prelude
begin

text \<open>
  \<open>utils/shellquote\<close>: splitting a command template into words. \<open>Split\<close> is the code's loop, with its
  word under construction; \<open>piece\<close> describes how a word can be written.
\<close>

datatype quote_state = stateUnquoted | stateSingleQuoted | stateDoubleQuoted
datatype quote_error = ErrUnterminatedSingleQuote | ErrUnterminatedDoubleQuote | ErrUnterminatedEscape

definition squote :: char where "squote = CHR 0x27"
definition dquote :: char where "dquote = CHR 0x22"
definition bslash :: char where "bslash = CHR 0x5C"
definition lfeed :: char where "lfeed = CHR 0x0A"
definition backtick :: char where "backtick = CHR 0x60"

definition blank :: "char \<Rightarrow> bool" where
  "blank ch \<longleftrightarrow> ch = CHR '' '' \<or> ch = CHR 0x09 \<or> ch = lfeed"

definition escapable :: "char \<Rightarrow> bool" where
  "escapable next \<longleftrightarrow> next = CHR ''$'' \<or> next = backtick \<or> next = dquote \<or> next = lfeed \<or> next = bslash"

text \<open>\<open>words\<close> collects the words found, \<open>w\<close> is \<open>word\<close> and \<open>inWord\<close> the flag of the same name.\<close>

fun split_loop :: "quote_state \<Rightarrow> string list \<Rightarrow> string \<Rightarrow> bool \<Rightarrow> string \<Rightarrow> quote_error + string list" where
  "split_loop st words w inWord [] =
     (case st of
        stateSingleQuoted \<Rightarrow> Inl ErrUnterminatedSingleQuote
      | stateDoubleQuoted \<Rightarrow> Inl ErrUnterminatedDoubleQuote
      | stateUnquoted \<Rightarrow> Inr (if inWord then words @ [w] else words))"
| "split_loop stateUnquoted words w inWord (ch # r) =
     (if ch = bslash then
        (case r of
           [] \<Rightarrow> Inl ErrUnterminatedEscape
         | next # r' \<Rightarrow>
             if next = lfeed then split_loop stateUnquoted words w inWord r'
             else split_loop stateUnquoted words (w @ [next]) True r')
      else if ch = squote then split_loop stateSingleQuoted words w True r
      else if ch = dquote then split_loop stateDoubleQuoted words w True r
      else if blank ch then
        (if inWord then split_loop stateUnquoted (words @ [w]) [] False r
         else split_loop stateUnquoted words w inWord r)
      else split_loop stateUnquoted words (w @ [ch]) True r)"
| "split_loop stateSingleQuoted words w inWord (ch # r) =
     (if ch = squote then split_loop stateUnquoted words w inWord r
      else split_loop stateSingleQuoted words (w @ [ch]) inWord r)"
| "split_loop stateDoubleQuoted words w inWord (ch # r) =
     (if ch = dquote then split_loop stateUnquoted words w inWord r
      else if ch = bslash then
        (case r of
           [] \<Rightarrow> Inl ErrUnterminatedEscape
         | next # r' \<Rightarrow>
             if escapable next then
               (if next = lfeed then split_loop stateDoubleQuoted words w inWord r'
                else split_loop stateDoubleQuoted words (w @ [next]) inWord r')
             else split_loop stateDoubleQuoted words (w @ [ch]) inWord r)
      else split_loop stateDoubleQuoted words (w @ [ch]) inWord r)"

definition Split :: "string \<Rightarrow> quote_error + string list" where
  "Split input = split_loop stateUnquoted [] [] False input"

section \<open>Ways to write a word\<close>

datatype piece = Bare char | Escaped char | SingleQ string | DoubleQ string

fun wf_piece :: "piece \<Rightarrow> bool" where
  "wf_piece (Bare c) \<longleftrightarrow> c \<noteq> bslash \<and> c \<noteq> squote \<and> c \<noteq> dquote \<and> \<not> blank c"
| "wf_piece (Escaped c) \<longleftrightarrow> c \<noteq> lfeed"
| "wf_piece (SingleQ s) \<longleftrightarrow> squote \<notin> set s"
| "wf_piece (DoubleQ s) \<longleftrightarrow> True"

definition escape_char :: "char \<Rightarrow> string" where
  "escape_char c = (if escapable c \<and> c \<noteq> lfeed then [bslash, c] else [c])"

fun print_piece :: "piece \<Rightarrow> string" where
  "print_piece (Bare c) = [c]"
| "print_piece (Escaped c) = [bslash, c]"
| "print_piece (SingleQ s) = squote # s @ [squote]"
| "print_piece (DoubleQ s) = dquote # concat (map escape_char s) @ [dquote]"

fun piece_text :: "piece \<Rightarrow> string" where
  "piece_text (Bare c) = [c]"
| "piece_text (Escaped c) = [c]"
| "piece_text (SingleQ s) = s"
| "piece_text (DoubleQ s) = s"

text \<open>A word is a non-empty list of pieces; a line has words, each followed by blanks.\<close>

definition word_text :: "piece list \<Rightarrow> string" where
  "word_text ps = concat (map piece_text ps)"

definition print_word :: "piece list \<times> string \<Rightarrow> string" where
  "print_word = (\<lambda>(ps, sep). concat (map print_piece ps) @ sep)"

definition wf_word :: "piece list \<times> string \<Rightarrow> bool" where
  "wf_word = (\<lambda>(ps, sep). ps \<noteq> [] \<and> list_all wf_piece ps \<and> list_all blank sep)"

fun separated :: "(piece list \<times> string) list \<Rightarrow> bool" where \<comment> \<open>only the last word may end the line\<close>
  "separated [] = True"
| "separated [w] = True"
| "separated (w # ws) \<longleftrightarrow> snd w \<noteq> [] \<and> separated ws"

lemmas shell_chars = squote_def dquote_def bslash_def lfeed_def backtick_def escapable_def blank_def

lemma run_single:
  "squote \<notin> set s \<Longrightarrow>
   split_loop stateSingleQuoted words w iw (s @ squote # r) = split_loop stateUnquoted words (w @ s) iw r"
  by (induction s arbitrary: w) auto

lemma run_double:
  "split_loop stateDoubleQuoted words w iw (concat (map escape_char s) @ dquote # r) =
   split_loop stateUnquoted words (w @ s) iw r"
proof (induction s arbitrary: w)
  case (Cons c s)
  consider "escapable c" "c \<noteq> lfeed" | "c = lfeed" | "\<not> escapable c" by blast
  then show ?case
  proof cases
    case 1
    then show ?thesis using Cons [of "w @ [c]"] by (simp add: escape_char_def) (simp add: shell_chars)
  next
    case 2
    then show ?thesis using Cons [of "w @ [c]"] by (simp add: escape_char_def) (simp add: shell_chars)
  next
    case 3
    then have "c \<noteq> dquote" "c \<noteq> bslash" by (auto simp: escapable_def)
    with 3 show ?thesis using Cons [of "w @ [c]"] by (simp add: escape_char_def)
  qed
qed simp

lemma run_piece:
  "wf_piece p \<Longrightarrow>
   split_loop stateUnquoted words w iw (print_piece p @ r) = split_loop stateUnquoted words (w @ piece_text p) True r"
proof (cases p)
  case (SingleQ s)
  moreover assume "wf_piece p"
  ultimately show ?thesis by (simp add: run_single) (simp add: shell_chars)
next
  case (DoubleQ s)
  then show ?thesis by (simp add: run_double) (simp add: shell_chars)
qed simp_all

lemma run_pieces:
  "list_all wf_piece ps \<Longrightarrow> ps \<noteq> [] \<Longrightarrow>
   split_loop stateUnquoted words w iw (concat (map print_piece ps) @ r) =
   split_loop stateUnquoted words (w @ word_text ps) True r"
proof (induction ps arbitrary: w iw)
  case (Cons p ps)
  show ?case
  proof (cases "ps = []")
    case False
    with Cons(1) [of "w @ piece_text p" True] Cons(2) show ?thesis by (simp add: run_piece word_text_def)
  qed (use Cons(2) in \<open>simp add: run_piece word_text_def\<close>)
qed simp

lemma run_blanks:
  "list_all blank sep \<Longrightarrow> split_loop stateUnquoted words [] False (sep @ r) = split_loop stateUnquoted words [] False r"
proof (induction sep)
  case (Cons c sep)
  moreover from Cons(2) have "c \<noteq> bslash" "c \<noteq> squote" "c \<noteq> dquote" by (auto simp: shell_chars)
  ultimately show ?case by simp
qed simp

lemma run_blanks_end:
  assumes "list_all blank sep" "sep \<noteq> []"
  shows "split_loop stateUnquoted words w True (sep @ r) = split_loop stateUnquoted (words @ [w]) [] False r"
proof -
  obtain c s where sep: "sep = c # s" using assms(2) by (cases sep) auto
  with assms(1) have "blank c" "list_all blank s" by auto
  moreover from this have "c \<noteq> bslash" "c \<noteq> squote" "c \<noteq> dquote" by (auto simp: shell_chars)
  ultimately show ?thesis by (simp add: sep run_blanks)
qed

lemma run_words:
  "list_all wf_word ws \<Longrightarrow> separated ws \<Longrightarrow>
   split_loop stateUnquoted words [] False (concat (map print_word ws)) = Inr (words @ map (word_text \<circ> fst) ws)"
proof (induction ws arbitrary: words rule: separated.induct)
  case (2 w)
  obtain ps sep where "w = (ps, sep)" by fastforce
  with 2 show ?case
    using run_blanks_end [of sep words "word_text ps" "[]"] run_pieces [of ps words "[]" False "[]"]
    by (cases "sep = []") (simp_all add: wf_word_def print_word_def run_pieces)
next
  case (3 w v ws)
  obtain ps sep where w: "w = (ps, sep)" by fastforce
  with 3(2,3) have "list_all wf_word (v # ws)" "separated (v # ws)" "sep \<noteq> []" "list_all blank sep" "ps \<noteq> []"
    "list_all wf_piece ps"
    by (simp_all add: wf_word_def)
  then show ?case
    using 3(1) by (simp add: w print_word_def run_pieces run_blanks_end del: split_loop.simps)
qed simp

section \<open>Properties\<close>

text \<open>
  \<open>Split\<close> reads back every command line: words written as bare characters, escapes, single and
  double quoted parts in any mixture, separated by blanks, are returned in order with the texts they
  stand for, whatever those contain.
\<close>

lemma Split_reads_words:
  assumes "list_all wf_word ws" "separated ws" "list_all blank lead"
  shows "Split (lead @ concat (map print_word ws)) = Inr (map (word_text \<circ> fst) ws)"
  using assms by (simp add: Split_def run_blanks run_words)

definition sample_words :: "(piece list \<times> string) list" where
  "sample_words = [([Bare (CHR ''a''), DoubleQ (''$x '' @ [dquote])], ''  ''),
     ([SingleQ ''b c'', Escaped squote], '' ''), ([DoubleQ []], [])]"

lemma Split_reads_words_witness:
  "Split ('' '' @ concat (map print_word sample_words)) = Inr [''a$x '' @ [dquote], ''b c'' @ [squote], []]"
proof -
  have "list_all wf_word sample_words" "separated sample_words" "list_all blank '' ''" by code_simp+
  note Split_reads_words [OF this]
  then show ?thesis by (simp add: sample_words_def word_text_def)
qed

end
