(* ===== verification/Media_Commands.thy ===== *)
theory Media_Commands
  imports Stream_MediaStreamer Go_Strings Utils_Shellquote
begin

text \<open>
  \<open>core/ffmpeg/ffmpeg.go\<close> and \<open>createMPVCommand\<close> of \<open>core/playback/mpv/mpv.go\<close>: the argument lists of
  the processes the server starts, and what it reads from their output. \<open>FFEnv\<close> holds what the
  operating system says: where ffmpeg is, which files exist, what a process prints.
\<close>

section \<open>Environment\<close>

datatype stat_error = ErrNotExist | ErrPermission | StatOther string

datatype exec_error = ExitError string \<comment> \<open>the process ran and failed; its stderr\<close> | LaunchError string

record FFEnv =
  ff_ffmpegCmd :: "string + string" \<comment> \<open>the result of \<open>ffmpegCmd\<close>\<close>
  ff_Stat :: "string \<Rightarrow> stat_error + bool" \<comment> \<open>\<open>os.Stat\<close>; whether the path is a directory\<close>
  ff_Output :: "string list \<Rightarrow> exec_error + string" \<comment> \<open>\<open>cmd.Output\<close>\<close>

text \<open>\<open>cmdPath, _ := ffmpegCmd()\<close>: on an error the path is the empty string of the failed look-up.\<close>

definition cmd_path :: "FFEnv \<Rightarrow> string" where
  "cmd_path env = (case ff_ffmpegCmd env of Inl _ \<Rightarrow> [] | Inr p \<Rightarrow> p)"

definition stat_text :: "stat_error \<Rightarrow> string" where
  "stat_text e = (case e of ErrNotExist \<Rightarrow> ''no such file or directory'' | ErrPermission \<Rightarrow> ''permission denied''
     | StatOther s \<Rightarrow> s)"

definition fileExists :: "FFEnv \<Rightarrow> string \<Rightarrow> stat_error option" where
  "fileExists env path =
     (case ff_Stat env path of
        Inl e \<Rightarrow> Some e
      | Inr True \<Rightarrow> Some (StatOther ([CHR 0x27] @ path @ [CHR 0x27] @ '' is a directory''))
      | Inr False \<Rightarrow> None)"

section \<open>Argument lists\<close>

fun replace_first :: "string \<Rightarrow> string \<Rightarrow> string \<Rightarrow> string" where \<comment> \<open>\<open>strings.Replace(s, old, new, 1)\<close>\<close>
  "replace_first [] old new = (if old = [] then new else [])"
| "replace_first (c # cs) old new =
     (if HasPrefix (c # cs) old then new @ drop (length old) (c # cs) else c # replace_first cs old new)"

definition ffprobePath :: "string \<Rightarrow> string" where
  "ffprobePath ffmpegCmd = filepath_Join [Dir ffmpegCmd, replace_first (Base ffmpegCmd) ''ffmpeg'' ''ffprobe'']"

definition fix_word :: "FFEnv \<Rightarrow> string \<Rightarrow> string" where
  "fix_word env s =
     (if s = ''ffprobe'' \<or> s = ''ffprobe.exe'' then ffprobePath (cmd_path env)
      else if s = ''ffmpeg'' \<or> s = ''ffmpeg.exe'' then cmd_path env
      else s)"

definition fixCmd :: "FFEnv \<Rightarrow> string \<Rightarrow> string list" where
  "fixCmd env cmd = map (fix_word env) (Fields cmd)"

text \<open>The seek option goes before the last \<open>-i\<close> of the arguments so far, or at their end.\<close>

definition insert_seek :: "go_int \<Rightarrow> string list \<Rightarrow> string list" where
  "insert_seek offset args =
     (let k = length (takeWhile (\<lambda>a. a \<noteq> ''-i'') (rev args));
          insertAt = (if k < length args then length args - k - 1 else length args)
      in take insertAt args @ [''-ss'', Itoa offset] @ drop insertAt args)"

fun command_loop :: "string \<Rightarrow> string \<Rightarrow> go_int \<Rightarrow> go_int \<Rightarrow> string list \<Rightarrow> string list \<Rightarrow> string list" where
  "command_loop cmd path maxBitRate offset args [] = args"
| "command_loop cmd path maxBitRate offset args (s # ss) =
     (if Contains s ''%s'' then
        command_loop cmd path maxBitRate offset
          ((if offset > 0 \<and> \<not> Contains cmd ''%t'' then insert_seek offset args else args)
             @ [ReplaceAll s ''%s'' path]) ss
      else
        command_loop cmd path maxBitRate offset
          (args @ [ReplaceAll (ReplaceAll s ''%t'' (Itoa offset)) ''%b'' (Itoa maxBitRate)]) ss)"

definition createFFmpegCommand :: "FFEnv \<Rightarrow> string \<Rightarrow> string \<Rightarrow> go_int \<Rightarrow> go_int \<Rightarrow> string list" where
  "createFFmpegCommand env cmd path maxBitRate offset =
     command_loop cmd path maxBitRate offset [] (fixCmd env cmd)"

definition createProbeCommand :: "FFEnv \<Rightarrow> string \<Rightarrow> string list \<Rightarrow> string list" where
  "createProbeCommand env cmd inputs =
     concat (map (\<lambda>s. if s = ''%s'' then concat (map (\<lambda>inp. [''-i'', inp]) inputs) else [s]) (fixCmd env cmd))"

definition injectBeforeOutput :: "string list \<Rightarrow> string \<Rightarrow> string \<Rightarrow> string list" where
  "injectBeforeOutput args flag val =
     (if args \<noteq> [] \<and> last args = ''-'' then butlast args @ [flag, val, ''-''] else args @ [flag, val])"

definition isLosslessOutputFormat :: "string \<Rightarrow> bool" where
  "isLosslessOutputFormat fmt \<longleftrightarrow> ToLower fmt \<in> set [''flac'', ''alac'', ''wav'', ''aiff'']"

definition bitDepthToSampleFmt :: "go_int \<Rightarrow> string" where
  "bitDepthToSampleFmt bitDepth = (if bitDepth = 16 then ''s16'' else ''s32'')"

definition injectDynamicAudioFlags :: "string list \<Rightarrow> TranscodeOptions \<Rightarrow> string list" where
  "injectDynamicAudioFlags args opts =
     (let a1 = (if to_SampleRate opts > 0 then injectBeforeOutput args ''-ar'' (Itoa (to_SampleRate opts)) else args);
          a2 = (if to_Channels opts > 0 then injectBeforeOutput a1 ''-ac'' (Itoa (to_Channels opts)) else a1)
      in if to_BitDepth opts \<ge> 16 \<and> isLosslessOutputFormat (to_Format opts)
         then injectBeforeOutput a2 ''-sample_fmt'' (bitDepthToSampleFmt (to_BitDepth opts)) else a2)"

definition formatCodecMap :: "string \<rightharpoonup> string" where
  "formatCodecMap = [''mp3'' \<mapsto> ''libmp3lame'', ''opus'' \<mapsto> ''libopus'', ''aac'' \<mapsto> ''aac'', ''flac'' \<mapsto> ''flac'']"

definition formatOutputMap :: "string \<rightharpoonup> string" where
  "formatOutputMap = [''mp3'' \<mapsto> ''mp3'', ''opus'' \<mapsto> ''opus'', ''aac'' \<mapsto> ''adts'', ''flac'' \<mapsto> ''flac'']"

definition defaultCommands :: "string \<rightharpoonup> string" where
  "defaultCommands =
     [''mp3'' \<mapsto> ''ffmpeg -ss %t -i %s -map 0:a:0 -map_metadata 0 -map_metadata 0:s:a:0 -b:a %bk -v 0 -f mp3 -'',
      ''opus'' \<mapsto> ''ffmpeg -ss %t -i %s -map 0:a:0 -map_metadata 0 -map_metadata 0:s:a:0 -b:a %bk -v 0 -c:a libopus -f opus -'',
      ''aac'' \<mapsto> ''ffmpeg -ss %t -i %s -map 0:a:0 -map_metadata 0 -map_metadata 0:s:a:0 -b:a %bk -v 0 -c:a aac -f adts -'',
      ''flac'' \<mapsto> ''ffmpeg -ss %t -i %s -map 0:a:0 -map_metadata 0 -map_metadata 0:s:a:0 -v 0 -c:a flac -f flac -'']"

definition isDefaultCommand :: "string \<Rightarrow> string \<Rightarrow> bool" where
  "isDefaultCommand fmt command \<longleftrightarrow> (case defaultCommands fmt of None \<Rightarrow> [] | Some c \<Rightarrow> c) = command"

definition buildDynamicArgs :: "FFEnv \<Rightarrow> TranscodeOptions \<Rightarrow> string list" where
  "buildDynamicArgs env opts =
     (let a0 = [cmd_path env];
          a1 = (if to_Offset opts > 0 then a0 @ [''-ss'', Itoa (to_Offset opts)] else a0);
          a2 = a1 @ [''-i'', to_FilePath opts] @ [''-map'', ''0:a:0'']
                  @ [''-map_metadata'', ''0'', ''-map_metadata'', ''0:s:a:0''];
          a3 = (case formatCodecMap (to_Format opts) of Some codec \<Rightarrow> a2 @ [''-c:a'', codec] | None \<Rightarrow> a2);
          a4 = (if to_BitRate opts > 0 then a3 @ [''-b:a'', Itoa (to_BitRate opts) @ ''k''] else a3);
          a5 = injectDynamicAudioFlags a4 opts @ [''-v'', ''0''];
          a6 = (case formatOutputMap (to_Format opts) of Some f \<Rightarrow> a5 @ [''-f'', f] | None \<Rightarrow> a5)
      in a6 @ [''-''])"

definition buildTemplateArgs :: "FFEnv \<Rightarrow> TranscodeOptions \<Rightarrow> string list" where
  "buildTemplateArgs env opts =
     injectDynamicAudioFlags
       (createFFmpegCommand env (to_Command opts) (to_FilePath opts) (to_BitRate opts) (to_Offset opts)) opts"

text \<open>
  \<open>Transcode\<close>: an error before the process is started, the panic of \<open>j.args[0]\<close> on an empty list, or
  the arguments the process is started with.
\<close>

datatype ff_start = FFError string | FFPanic | FFStart "string list"

definition ff_start :: "string list \<Rightarrow> ff_start" where
  "ff_start args = (if args = [] then FFPanic else FFStart args)"

definition Transcode :: "FFEnv \<Rightarrow> TranscodeOptions \<Rightarrow> ff_start" where
  "Transcode env opts =
     (case ff_ffmpegCmd env of
        Inl e \<Rightarrow> FFError e
      | Inr _ \<Rightarrow>
          (case fileExists env (to_FilePath opts) of
             Some e \<Rightarrow> FFError (stat_text e)
           | None \<Rightarrow>
               ff_start (if isDefaultCommand (to_Format opts) (to_Command opts)
                         then buildDynamicArgs env opts else buildTemplateArgs env opts)))"

definition extractImageCmd :: string where
  "extractImageCmd = ''ffmpeg -i %s -map 0:v -map -0:V -vcodec copy -f image2pipe -''"

definition probeAudioStreamCmd :: string where
  "probeAudioStreamCmd = ''ffprobe -v error -select_streams a:0 -print_format json -show_streams -show_format %s''"

definition ExtractImage :: "FFEnv \<Rightarrow> string \<Rightarrow> ff_start" where
  "ExtractImage env path =
     (case ff_ffmpegCmd env of
        Inl e \<Rightarrow> FFError e
      | Inr _ \<Rightarrow>
          (case fileExists env path of
             Some e \<Rightarrow> FFError (stat_text e)
           | None \<Rightarrow> ff_start (createFFmpegCommand env extractImageCmd path 0 0)))"

section \<open>Probing\<close>

record probeStream =
  ps_CodecName :: string
  ps_CodecType :: string
  ps_Profile :: string
  ps_SampleRate :: string
  ps_BitRate :: string
  ps_Channels :: go_int
  ps_BitsPerSample :: go_int
  ps_BitsPerRawSample :: string

record probeOutput =
  po_Streams :: "probeStream list"
  po_FormatBitRate :: string

text \<open>The value of \<open>n, _ := strconv.Atoi(s)\<close>: 0 for what is no number, the nearest \<open>int\<close> for a number out of range.\<close>

definition Atoi_value :: "string \<Rightarrow> go_int" where
  "Atoi_value s =
     (case Atoi s of
        Some v \<Rightarrow> v
      | None \<Rightarrow>
          (case s of
             [] \<Rightarrow> 0
           | c # cs \<Rightarrow>
               (case parse_digits (if c = CHR ''-'' \<or> c = CHR ''+'' then cs else s) of
                  None \<Rightarrow> 0
                | Some _ \<Rightarrow> if c = CHR ''-'' then int64_min else int64_max)))"

definition probe_result :: "probeOutput \<Rightarrow> probeStream \<Rightarrow> AudioProbeResult" where
  "probe_result out s =
     (let bitRate1 = (if ps_BitRate s \<noteq> [] then go_quot (Atoi_value (ps_BitRate s)) 1000 else 0)
      in \<lparr>pr_Codec = ps_CodecName s,
          pr_Profile = (if ps_Profile s \<noteq> [] \<and> \<not> EqualFold (ps_Profile s) ''unknown'' then ps_Profile s else []),
          pr_BitRate = (if bitRate1 = 0 \<and> po_FormatBitRate out \<noteq> []
                        then go_quot (Atoi_value (po_FormatBitRate out)) 1000 else bitRate1),
          pr_SampleRate = (if ps_SampleRate s \<noteq> [] then Atoi_value (ps_SampleRate s) else 0),
          pr_BitDepth = (if ps_BitsPerSample s = 0 \<and> ps_BitsPerRawSample s \<noteq> []
                         then Atoi_value (ps_BitsPerRawSample s) else ps_BitsPerSample s),
          pr_Channels = ps_Channels s\<rparr>)"

fun probe_streams :: "probeOutput \<Rightarrow> probeStream list \<Rightarrow> string + AudioProbeResult" where
  "probe_streams out [] = Inl ''no audio stream found in ffprobe output''"
| "probe_streams out (s # ss) =
     (if ps_CodecType s \<noteq> ''audio'' then probe_streams out ss else Inr (probe_result out s))"

definition parseProbeOutput :: "(string \<Rightarrow> string + probeOutput) \<Rightarrow> string \<Rightarrow> string + AudioProbeResult" where
  "parseProbeOutput unmarshal data =
     (case unmarshal data of
        Inl e \<Rightarrow> Inl (''parsing ffprobe output: '' @ e)
      | Inr out \<Rightarrow> probe_streams out (po_Streams out))"

definition fileAccessReason :: "stat_error \<Rightarrow> string" where
  "fileAccessReason e = (case e of ErrNotExist \<Rightarrow> ''file not found'' | ErrPermission \<Rightarrow> ''permission denied''
     | StatOther _ \<Rightarrow> ''file not accessible'')"

definition probeClientReason :: "exec_error \<Rightarrow> string \<Rightarrow> string" where
  "probeClientReason e path =
     (case e of
        ExitError stderr \<Rightarrow> if stderr = [] then ''could not read file''
                            else TrimSpace (ReplaceAll stderr path ''the file'')
      | LaunchError _ \<Rightarrow> ''could not read file'')"

definition exec_text :: "exec_error \<Rightarrow> string" where
  "exec_text e = (case e of ExitError s \<Rightarrow> s | LaunchError s \<Rightarrow> s)"

definition ProbeAudioStream ::
  "FFEnv \<Rightarrow> (string \<Rightarrow> string + probeOutput) \<Rightarrow> string \<Rightarrow> probe_failure + AudioProbeResult" where
  "ProbeAudioStream env unmarshal filePath =
     (case ff_ffmpegCmd env of
        Inl e \<Rightarrow> Inl (FFmpegMissing e)
      | Inr _ \<Rightarrow>
      (case fileExists env filePath of
        Some e \<Rightarrow> Inl (ProbeError filePath (fileAccessReason e) (e = ErrNotExist) (stat_text e))
      | None \<Rightarrow>
      (case ff_Output env (createFFmpegCommand env probeAudioStreamCmd filePath 0 0) of
        Inl e \<Rightarrow> Inl (ProbeError filePath (probeClientReason e filePath) False (exec_text e))
      | Inr output \<Rightarrow>
      (case parseProbeOutput unmarshal output of
        Inl e \<Rightarrow> Inl (ProbeError filePath e False e)
      | Inr result \<Rightarrow> Inr result))))"

section \<open>Encoder detection and bounded error output\<close>

definition parseEncodersOutput :: "string \<Rightarrow> string \<Rightarrow> bool" where
  "parseEncodersOutput out name =
     list_ex (\<lambda>line. let fields = Fields line in 2 \<le> length fields \<and> fields ! 1 = name) (split_on (CHR 0x0A) out)"

datatype encoderProbeState = encoderProbeUnknown | encoderProbeAvailable | encoderProbeUnavailable

fun encoderProbe_has :: "encoderProbeState \<Rightarrow> (unit + string) \<Rightarrow> string \<Rightarrow> bool \<times> encoderProbeState" where
  "encoderProbe_has encoderProbeAvailable out encoder = (True, encoderProbeAvailable)"
| "encoderProbe_has encoderProbeUnavailable out encoder = (False, encoderProbeUnavailable)"
| "encoderProbe_has encoderProbeUnknown (Inl _) encoder = (False, encoderProbeUnknown)"
| "encoderProbe_has encoderProbeUnknown (Inr out) encoder =
     (if parseEncodersOutput out encoder then (True, encoderProbeAvailable) else (False, encoderProbeUnavailable))"

definition limitedWriter_Write :: "nat \<Rightarrow> string \<Rightarrow> string \<Rightarrow> nat \<times> string" where
  "limitedWriter_Write limit p buf =
     (if limit \<le> length buf then (length p, buf) else (length p, buf @ take (limit - length buf) p))"

section \<open>mpv\<close>

definition mpv_word :: "string \<Rightarrow> string \<Rightarrow> string \<Rightarrow> string \<Rightarrow> string" where
  "mpv_word deviceName filename socketName arg =
     ReplaceAll (ReplaceAll (ReplaceAll arg ''%d'' deviceName) ''%f'' filename) ''%s'' socketName"

definition createMPVCommand :: "string \<Rightarrow> string option \<Rightarrow> string \<Rightarrow> string \<Rightarrow> string \<Rightarrow> string list" where
  "createMPVCommand template mpvCommand deviceName filename socketName =
     (case Split template of
        Inl _ \<Rightarrow> []
      | Inr templateArgs \<Rightarrow>
          (case map (mpv_word deviceName filename socketName) templateArgs of
             [] \<Rightarrow> []
           | a # as \<Rightarrow>
               (case mpvCommand of
                  Some cmdPath \<Rightarrow> (if a = ''mpv'' \<or> a = ''mpv.exe'' then cmdPath else a) # as
                | None \<Rightarrow> a # as)))"

section \<open>Arguments and the file path\<close>

text \<open>An argument list with holes: fixed arguments, and template words in which the path is filled in.\<close>

datatype arg_shape = Fixed string | WithPath string

fun fill :: "string \<Rightarrow> arg_shape \<Rightarrow> string" where
  "fill path (Fixed s) = s"
| "fill path (WithPath s) = ReplaceAll s ''%s'' path"

definition has_hole :: "arg_shape \<Rightarrow> bool" where
  "has_hole a \<longleftrightarrow> (case a of Fixed _ \<Rightarrow> True | WithPath s \<Rightarrow> Contains s ''%s'')"

lemma ReplaceAll_present: "Contains s old \<Longrightarrow> old \<noteq> [] \<Longrightarrow> \<exists>a b. ReplaceAll s old new = a @ new @ b"
proof (induction s old new rule: ReplaceAll.induct)
  case (2 c cs old new)
  show ?case
  proof (cases "HasPrefix (c # cs) old")
    case True
    then show ?thesis using 2(4) by (auto intro: exI [of _ "[]"])
  next
    case False
    with 2 obtain a b where "ReplaceAll cs old new = a @ new @ b" by auto
    with False show ?thesis by simp (metis append_Cons)
  qed
qed simp

lemma filled_not_flag:
  assumes "has_hole a" "HasPrefix path ''/''" "CHR ''/'' \<notin> set flag"
  shows "fill path a = flag \<longleftrightarrow> a = Fixed flag"
proof (cases a)
  case (WithPath s)
  with assms(1) obtain u v where "fill path a = u @ path @ v"
    using ReplaceAll_present [of s "''%s''" path] by (auto simp: has_hole_def)
  with assms(2,3) have "fill path a \<noteq> flag" by (auto simp: HasPrefix_iff)
  with WithPath show ?thesis by simp
qed auto

text \<open>The steps of the argument lists work on shapes: whatever absolute path is filled in, they do the same.\<close>

definition insert_seek_shape :: "go_int \<Rightarrow> arg_shape list \<Rightarrow> arg_shape list" where
  "insert_seek_shape offset as =
     (let k = length (takeWhile (\<lambda>a. a \<noteq> Fixed ''-i'') (rev as));
          n = (if k < length as then length as - k - 1 else length as)
      in take n as @ [Fixed ''-ss'', Fixed (Itoa offset)] @ drop n as)"

definition inject_shape :: "arg_shape list \<Rightarrow> string \<Rightarrow> string \<Rightarrow> arg_shape list" where
  "inject_shape as flag val =
     (if as \<noteq> [] \<and> last as = Fixed ''-'' then butlast as @ map Fixed [flag, val, ''-''] else as @ map Fixed [flag, val])"

fun shape_loop :: "string \<Rightarrow> go_int \<Rightarrow> go_int \<Rightarrow> arg_shape list \<Rightarrow> string list \<Rightarrow> arg_shape list" where
  "shape_loop cmd maxBitRate offset as [] = as"
| "shape_loop cmd maxBitRate offset as (s # ss) =
     (if Contains s ''%s'' then
        shape_loop cmd maxBitRate offset
          ((if offset > 0 \<and> \<not> Contains cmd ''%t'' then insert_seek_shape offset as else as) @ [WithPath s]) ss
      else shape_loop cmd maxBitRate offset
             (as @ [Fixed (ReplaceAll (ReplaceAll s ''%t'' (Itoa offset)) ''%b'' (Itoa maxBitRate))]) ss)"

lemma insert_seek_shape:
  assumes "HasPrefix path ''/''" "list_all has_hole as"
  shows "insert_seek offset (map (fill path) as) = map (fill path) (insert_seek_shape offset as)"
    "list_all has_hole (insert_seek_shape offset as)"
proof -
  have "takeWhile (\<lambda>a. a \<noteq> ''-i'') (rev (map (fill path) as)) =
      map (fill path) (takeWhile (\<lambda>a. a \<noteq> Fixed ''-i'') (rev as))"
    unfolding rev_map takeWhile_map comp_def using assms
    by (intro arg_cong [where f = "map (fill path)"] takeWhile_cong)
      (auto simp: filled_not_flag list_all_iff)
  then show "insert_seek offset (map (fill path) as) = map (fill path) (insert_seek_shape offset as)"
    by (simp add: insert_seek_def insert_seek_shape_def Let_def take_map drop_map)
  show "list_all has_hole (insert_seek_shape offset as)"
    using assms(2) by (auto simp: insert_seek_shape_def Let_def list_all_iff has_hole_def
        dest: in_set_takeD in_set_dropD)
qed

lemma inject_shape:
  assumes "HasPrefix path ''/''" "list_all has_hole as"
  shows "injectBeforeOutput (map (fill path) as) flag val = map (fill path) (inject_shape as flag val)"
    "list_all has_hole (inject_shape as flag val)"
proof -
  have "as \<noteq> [] \<Longrightarrow> last (map (fill path) as) = ''-'' \<longleftrightarrow> last as = Fixed ''-''"
    using assms filled_not_flag [of "last as" path "''-''"] by (simp add: last_map list_all_iff)
  then show "injectBeforeOutput (map (fill path) as) flag val = map (fill path) (inject_shape as flag val)"
    by (auto simp: injectBeforeOutput_def inject_shape_def map_butlast)
  show "list_all has_hole (inject_shape as flag val)"
    using assms(2) by (auto simp: inject_shape_def list_all_iff has_hole_def dest: in_set_butlastD)
qed

lemma shape_loop:
  assumes "HasPrefix path ''/''" "list_all has_hole as"
  shows "command_loop cmd path maxBitRate offset (map (fill path) as) ss =
      map (fill path) (shape_loop cmd maxBitRate offset as ss) \<and>
    list_all has_hole (shape_loop cmd maxBitRate offset as ss)"
  using assms(2)
proof (induction ss arbitrary: as)
  case (Cons s ss)
  show ?case
  proof (cases "Contains s ''%s''")
    case True
    have *: "has_hole (WithPath s)" using True by (simp add: has_hole_def)
    show ?thesis
    proof (cases "offset > 0 \<and> \<not> Contains cmd ''%t''")
      case seek: True
      note i = insert_seek_shape [OF assms(1) Cons(2), of offset]
      have "list_all has_hole (insert_seek_shape offset as @ [WithPath s])" using i * by simp
      from Cons(1) [OF this] True seek i show ?thesis by simp
    next
      case False
      have "list_all has_hole (as @ [WithPath s])" using Cons(2) * by simp
      from Cons(1) [OF this] True False show ?thesis by (simp del: Contains.simps) auto
    qed
  next
    case False
    let ?a = "Fixed (ReplaceAll (ReplaceAll s ''%t'' (Itoa offset)) ''%b'' (Itoa maxBitRate))"
    have "has_hole ?a" by (simp add: has_hole_def)
    then have "list_all has_hole (as @ [?a])" using Cons(2) by simp
    from Cons(1) [OF this] False show ?thesis by simp
  qed
qed simp

definition shape_flags :: "arg_shape list \<Rightarrow> TranscodeOptions \<Rightarrow> arg_shape list" where
  "shape_flags as opts =
     (let a1 = (if to_SampleRate opts > 0 then inject_shape as ''-ar'' (Itoa (to_SampleRate opts)) else as);
          a2 = (if to_Channels opts > 0 then inject_shape a1 ''-ac'' (Itoa (to_Channels opts)) else a1)
      in if to_BitDepth opts \<ge> 16 \<and> isLosslessOutputFormat (to_Format opts)
         then inject_shape a2 ''-sample_fmt'' (bitDepthToSampleFmt (to_BitDepth opts)) else a2)"

lemma shape_flags:
  assumes "HasPrefix path ''/''" "list_all has_hole as"
  shows "injectDynamicAudioFlags (map (fill path) as) opts = map (fill path) (shape_flags as opts)"
    "list_all has_hole (shape_flags as opts)"
  using assms inject_shape [OF assms(1)] by (simp_all add: injectDynamicAudioFlags_def shape_flags_def Let_def)

lemma flags_of_other_path:
  "injectDynamicAudioFlags as (opts\<lparr>to_FilePath := path\<rparr>) = injectDynamicAudioFlags as opts"
  by (simp add: injectDynamicAudioFlags_def Let_def)

definition template_shape :: "FFEnv \<Rightarrow> TranscodeOptions \<Rightarrow> arg_shape list" where
  "template_shape env opts =
     shape_flags (shape_loop (to_Command opts) (to_BitRate opts) (to_Offset opts) [] (fixCmd env (to_Command opts))) opts"

lemma template_shape:
  assumes "HasPrefix path ''/''"
  shows "buildTemplateArgs env (opts\<lparr>to_FilePath := path\<rparr>) = map (fill path) (template_shape env opts)"
    "list_all has_hole (template_shape env opts)"
proof -
  note l = shape_loop [OF assms, of "[]" "to_Command opts" "to_BitRate opts" "to_Offset opts"
      "fixCmd env (to_Command opts)", simplified]
  show "buildTemplateArgs env (opts\<lparr>to_FilePath := path\<rparr>) = map (fill path) (template_shape env opts)"
    using l by (simp add: buildTemplateArgs_def createFFmpegCommand_def flags_of_other_path template_shape_def
        shape_flags(1) [OF assms])
  show "list_all has_hole (template_shape env opts)"
    using l shape_flags(2) [OF assms] by (simp add: template_shape_def)
qed

definition dynamic_shape :: "FFEnv \<Rightarrow> TranscodeOptions \<Rightarrow> arg_shape list" where
  "dynamic_shape env opts =
     shape_flags
       (map Fixed (cmd_path env # (if to_Offset opts > 0 then [''-ss'', Itoa (to_Offset opts)] else [])) @
        [Fixed ''-i'', WithPath ''%s''] @
        map Fixed ([''-map'', ''0:a:0'', ''-map_metadata'', ''0'', ''-map_metadata'', ''0:s:a:0''] @
          (case formatCodecMap (to_Format opts) of Some codec \<Rightarrow> [''-c:a'', codec] | None \<Rightarrow> []) @
          (if to_BitRate opts > 0 then [''-b:a'', Itoa (to_BitRate opts) @ ''k''] else []))) opts @
     map Fixed ([''-v'', ''0''] @ (case formatOutputMap (to_Format opts) of Some f \<Rightarrow> [''-f'', f] | None \<Rightarrow> []) @ [''-''])"

lemma fill_hole [simp]: "ReplaceAll ''%s'' ''%s'' path = path" "fill path \<circ> Fixed = id"
  by (auto simp: HasPrefix_def)

declare ReplaceAll.simps [simp del]

lemma dynamic_shape:
  assumes "HasPrefix path ''/''"
  shows "buildDynamicArgs env (opts\<lparr>to_FilePath := path\<rparr>) = map (fill path) (dynamic_shape env opts)"
    "list_all has_hole (dynamic_shape env opts)"
proof -
  let ?as = "map Fixed (cmd_path env # (if to_Offset opts > 0 then [''-ss'', Itoa (to_Offset opts)] else [])) @
        [Fixed ''-i'', WithPath ''%s''] @
        map Fixed ([''-map'', ''0:a:0'', ''-map_metadata'', ''0'', ''-map_metadata'', ''0:s:a:0''] @
          (case formatCodecMap (to_Format opts) of Some codec \<Rightarrow> [''-c:a'', codec] | None \<Rightarrow> []) @
          (if to_BitRate opts > 0 then [''-b:a'', Itoa (to_BitRate opts) @ ''k''] else []))"
  have holes: "list_all has_hole ?as"
    by (auto simp: has_hole_def HasPrefix_def list_all_iff split: option.splits)
  note f = shape_flags [OF assms holes]
  have args: "buildDynamicArgs env (opts\<lparr>to_FilePath := path\<rparr>) =
      injectDynamicAudioFlags (map (fill path) ?as) opts @
      [''-v'', ''0''] @ (case formatOutputMap (to_Format opts) of Some f \<Rightarrow> [''-f'', f] | None \<Rightarrow> []) @ [''-'']"
    by (simp add: buildDynamicArgs_def Let_def flags_of_other_path split: option.split)
  show "buildDynamicArgs env (opts\<lparr>to_FilePath := path\<rparr>) = map (fill path) (dynamic_shape env opts)"
    unfolding args f(1) dynamic_shape_def by simp
  show "list_all has_hole (dynamic_shape env opts)"
    using f(2) by (auto simp: dynamic_shape_def list_all_iff has_hole_def split: option.splits)
qed

section \<open>Properties\<close>

text \<open>
  C40. A file path is data, never options. For every choice of transcoding options there is one list
  of arguments with holes such that, for every absolute path of an existing file, the process is
  started with exactly these arguments, the path filled in where the template says \<open>%s\<close>: the number
  of arguments, their order and every option are the same for all paths, whatever bytes they have.
\<close>

theorem transcode_path_is_data:
  "\<exists>as. list_all has_hole as \<and>
     (\<forall>path. HasPrefix path ''/'' \<longrightarrow> (\<exists>p. ff_ffmpegCmd env = Inr p) \<longrightarrow> fileExists env path = None \<longrightarrow>
        Transcode env (opts\<lparr>to_FilePath := path\<rparr>) = ff_start (map (fill path) as))"
proof (cases "isDefaultCommand (to_Format opts) (to_Command opts)")
  case True
  then show ?thesis
    using dynamic_shape(1) dynamic_shape(2) [of "''/''"]
    by (intro exI [of _ "dynamic_shape env opts"]) (auto simp: Transcode_def HasPrefix_def)
next
  case False
  then show ?thesis
    using template_shape(1) template_shape(2) [of "''/''"]
    by (intro exI [of _ "template_shape env opts"]) (auto simp: Transcode_def HasPrefix_def)
qed

definition sample_ffmpeg :: FFEnv where
  "sample_ffmpeg = \<lparr>ff_ffmpegCmd = Inr ''/usr/bin/ffmpeg'', ff_Stat = (\<lambda>_. Inr False), ff_Output = (\<lambda>_. Inl (LaunchError []))\<rparr>"

definition sample_options :: TranscodeOptions where
  "sample_options = \<lparr>to_Command = ''ffmpeg -i %s -b:a %bk -f mp3 -'', to_Format = ''mp3'', to_FilePath = [],
     to_BitRate = 96, to_SampleRate = 0, to_BitDepth = 0, to_Channels = 2, to_Offset = 30, to_RequestBound = True\<rparr>"

theorem transcode_path_is_data_witness:
  "\<exists>as. Transcode sample_ffmpeg (sample_options\<lparr>to_FilePath := ''/m/-y a.flac''\<rparr>) = ff_start (map (fill ''/m/-y a.flac'') as) \<and>
     Transcode sample_ffmpeg (sample_options\<lparr>to_FilePath := ''/m/b''\<rparr>) = ff_start (map (fill ''/m/b'') as) \<and>
     ff_start (map (fill ''/m/b'') as) =
       FFStart [''/usr/bin/ffmpeg'', ''-ss'', ''30'', ''-i'', ''/m/b'', ''-b:a'', ''96k'', ''-f'', ''mp3'', ''-ac'', ''2'', ''-'']"
proof -
  have e: "fileExists sample_ffmpeg path = None" "\<exists>p. ff_ffmpegCmd sample_ffmpeg = Inr p" for path
    by (simp_all add: fileExists_def sample_ffmpeg_def)
  have p: "HasPrefix ''/m/-y a.flac'' ''/''" "HasPrefix ''/m/b'' ''/''" by (simp_all add: HasPrefix_def)
  have t: "Transcode sample_ffmpeg (sample_options\<lparr>to_FilePath := ''/m/b''\<rparr>) =
      FFStart [''/usr/bin/ffmpeg'', ''-ss'', ''30'', ''-i'', ''/m/b'', ''-b:a'', ''96k'', ''-f'', ''mp3'', ''-ac'', ''2'', ''-'']"
    by code_simp
  from transcode_path_is_data [of sample_ffmpeg sample_options] e p t show ?thesis by metis
qed

text \<open>A custom command of blanks only is not empty, and has no first argument.\<close>

lemma blank_command_panics:
  "Transcode sample_ffmpeg (sample_options\<lparr>to_Command := '' '', to_Channels := 0\<rparr>) = FFPanic"
  by code_simp

text \<open>The stored part of the error output never exceeds the limit and is a prefix of all that was written.\<close>

lemma limitedWriter_bounded:
  assumes "buf = take limit written"
  shows "snd (limitedWriter_Write limit p buf) = take limit (written @ p)" "fst (limitedWriter_Write limit p buf) = length p"
  using assms by (auto simp: limitedWriter_Write_def min_def)

text \<open>The arguments of mpv depend on the names through substitution only.\<close>

lemma mpv_argument_count:
  "length (createMPVCommand template cmd d f s) = length (createMPVCommand template cmd d' f' s')"
  by (auto simp: createMPVCommand_def split: sum.splits list.splits option.splits)

text \<open>The three replacements run one after the other: a \<open>%s\<close> in a file name is replaced as well.\<close>

lemma mpv_name_with_placeholder:
  "createMPVCommand ''mpv %f'' None ''auto'' ''/m/100%sure.mp3'' ''/tmp/sock'' = [''mpv'', ''/m/100/tmp/sockure.mp3'']"
  by code_simp

end
