(* ===== verification/Utils_JsonComments.thy ===== *)
theory Utils_JsonComments
  imports Bragi_Prelude
begin

text \<open>
  \<open>utils/jsoncommentstrip\<close>: the reader that removes \<open>//\<close> and \<open>/*\<close> comments from the JSON of smart
  playlists. \<open>Read\<close> is the code's method: it fills a buffer of a given length, keeping its state
  between calls; \<open>strip\<close> is the same automaton on a whole text, and \<open>segment\<close> describes such texts.
\<close>

datatype strip_state =
    stateNormal | stateInString | stateInStringEscape | stateMaybeComment | stateLineComment
  | stateBlockComment | stateMaybeBlockEnd

record reader =
  rd_r :: string \<comment> \<open>the bytes the buffered reader has not yet delivered\<close>
  rd_state :: strip_state

definition NewReader :: "string \<Rightarrow> reader" where
  "NewReader r = \<lparr>rd_r = r, rd_state = stateNormal\<rparr>"

definition quote :: char where "quote = CHR 0x22"
definition backslash :: char where "backslash = CHR 0x5C"
definition newline :: char where "newline = CHR 0x0A"
definition creturn :: char where "creturn = CHR 0x0D"

text \<open>The bytes emitted and the next state for one byte, in every state but \<open>stateMaybeComment\<close>.\<close>

fun strip_byte :: "strip_state \<Rightarrow> char \<Rightarrow> string \<times> strip_state" where
  "strip_byte stateNormal b =
     (if b = quote then ([b], stateInString)
      else if b = CHR ''/'' then ([], stateMaybeComment)
      else ([b], stateNormal))"
| "strip_byte stateInString b =
     ([b], if b = backslash then stateInStringEscape else if b = quote then stateNormal else stateInString)"
| "strip_byte stateInStringEscape b = ([b], stateInString)"
| "strip_byte stateMaybeComment b =
     (if b = CHR ''/'' then ([], stateLineComment)
      else if b = CHR ''*'' then ([], stateBlockComment)
      else ([CHR ''/'', b], stateNormal))"
| "strip_byte stateLineComment b =
     (if b = newline \<or> b = creturn then ([b], stateNormal) else ([], stateLineComment))"
| "strip_byte stateBlockComment b =
     ([], if b = CHR ''*'' then stateMaybeBlockEnd else stateBlockComment)"
| "strip_byte stateMaybeBlockEnd b =
     ([], if b = CHR ''/'' then stateNormal else if b = CHR ''*'' then stateMaybeBlockEnd else stateBlockComment)"

text \<open>
  \<open>Read\<close> on a buffer with room for \<open>k\<close> more bytes: the bytes stored, whether the underlying reader
  reported its end, and the reader afterwards. The only state that emits two bytes for one is
  \<open>stateMaybeComment\<close>; when only one fits, the byte just read is put back.
\<close>

fun read_loop :: "nat \<Rightarrow> strip_state \<Rightarrow> string \<Rightarrow> string \<times> bool \<times> strip_state \<times> string" where
  "read_loop 0 st r = ([], False, st, r)"
| "read_loop (Suc k) st [] =
     (if st = stateMaybeComment then ([CHR ''/''], True, stateNormal, []) else ([], True, st, []))"
| "read_loop (Suc k) st (b # r) =
     (if st = stateMaybeComment \<and> b \<noteq> CHR ''/'' \<and> b \<noteq> CHR ''*'' \<and> k = 0
      then ([CHR ''/''], False, stateNormal, b # r)
      else case strip_byte st b of (out, st') \<Rightarrow>
        (case read_loop (Suc k - length out) st' r of (out', rest) \<Rightarrow> (out @ out', rest)))"

definition Read :: "nat \<Rightarrow> reader \<Rightarrow> string \<times> bool \<times> reader" where
  "Read len rd =
     (case read_loop len (rd_state rd) (rd_r rd) of
        (out, eof, st, r) \<Rightarrow> (out, eof, \<lparr>rd_r = r, rd_state = st\<rparr>))"

text \<open>A client that reads with buffers of the given lengths until the end is reported.\<close>

fun read_all :: "nat list \<Rightarrow> reader \<Rightarrow> string \<times> bool" where
  "read_all [] rd = ([], False)"
| "read_all (n # ns) rd =
     (case Read n rd of (out, eof, rd') \<Rightarrow>
        if eof then (out, True) else (case read_all ns rd' of (out', eof') \<Rightarrow> (out @ out', eof')))"

section \<open>The automaton on a whole text\<close>

fun strip :: "strip_state \<Rightarrow> string \<Rightarrow> string" where
  "strip st [] = (if st = stateMaybeComment then [CHR ''/''] else [])"
| "strip st (b # r) = (case strip_byte st b of (out, st') \<Rightarrow> out @ strip st' r)"

text \<open>
  A slash outside strings and comments directly followed by a quote: there the code's result depends
  on where the buffer ends.
\<close>

fun slash_quote :: "strip_state \<Rightarrow> string \<Rightarrow> bool" where
  "slash_quote st [] = False"
| "slash_quote st (b # r) = (st = stateMaybeComment \<and> b = quote \<or> slash_quote (snd (strip_byte st b)) r)"

lemmas chars_distinct = quote_def backslash_def newline_def creturn_def

lemma quote_marks [simp]: "quote \<noteq> CHR ''/''" "quote \<noteq> CHR ''*''" "CHR ''/'' \<noteq> quote" "CHR ''*'' \<noteq> quote"
  by (simp_all add: quote_def)

lemma strip_byte_put_back:
  "b \<noteq> CHR ''/'' \<Longrightarrow> b \<noteq> CHR ''*'' \<Longrightarrow> b \<noteq> quote \<Longrightarrow>
   strip stateMaybeComment (b # r) = CHR ''/'' # strip stateNormal (b # r)"
  by simp

text \<open>One call: what it returns is a prefix of the stripped text, and the rest follows from its state.\<close>

lemma read_loop_strip:
  assumes "\<not> slash_quote st r" "read_loop k st r = (out, eof, st', r')"
  shows "strip st r = out @ (if eof then [] else strip st' r') \<and> \<not> slash_quote st' r'"
  using assms
proof (induction k st r arbitrary: out rule: read_loop.induct)
  case (3 k st b r)
  show ?case
  proof (cases "st = stateMaybeComment \<and> b \<noteq> CHR ''/'' \<and> b \<noteq> CHR ''*'' \<and> k = 0")
    case True
    with 3(2,3) have "out = [CHR ''/'']" "eof = False" "st' = stateNormal" "r' = b # r" "b \<noteq> quote"
      by auto
    with True 3(2) show ?thesis by simp
  next
    case False
    obtain o1 s1 where b: "strip_byte st b = (o1, s1)" by fastforce
    obtain o2 where o2: "read_loop (Suc k - length o1) s1 r = (o2, eof, st', r')" "out = o1 @ o2"
      using 3(3) False b by (auto split: prod.splits)
    from 3(1) [OF False b [symmetric] _ o2(1)] 3(2) b o2(2) show ?thesis by simp
  qed
qed (auto split: if_splits)

lemma strip_byte_progress:
  "out = [] \<or> length out = 1 \<or> (st = stateMaybeComment \<and> length out = 2 \<and> b \<noteq> CHR ''/'' \<and> b \<noteq> CHR ''*'')"
  if "strip_byte st b = (out, st')"
  using that by (cases st) (auto split: if_splits)

text \<open>Unless the end is reached, a call fills its buffer.\<close>

lemma read_loop_full: "read_loop k st r = (out, False, st', r') \<Longrightarrow> length out = k"
proof (induction k st r arbitrary: out rule: read_loop.induct)
  case (3 k st b r)
  show ?case
  proof (cases "st = stateMaybeComment \<and> b \<noteq> CHR ''/'' \<and> b \<noteq> CHR ''*'' \<and> k = 0")
    case True
    with 3(2) show ?thesis by auto
  next
    case False
    obtain o1 s1 where b: "strip_byte st b = (o1, s1)" by fastforce
    obtain o2 where o2: "read_loop (Suc k - length o1) s1 r = (o2, False, st', r')" "out = o1 @ o2"
      using 3(2) False b by (auto split: prod.splits)
    from 3(1) [OF False b [symmetric] o2(1)] o2(2) strip_byte_progress [OF b] False show ?thesis
      by (cases k) auto
  qed
qed (auto split: if_splits)

lemma Read_strip:
  assumes "\<not> slash_quote (rd_state rd) (rd_r rd)" "Read n rd = (out, eof, rd')"
  shows "strip (rd_state rd) (rd_r rd) = out @ (if eof then [] else strip (rd_state rd') (rd_r rd'))"
    "\<not> slash_quote (rd_state rd') (rd_r rd')"
    "\<not> eof \<Longrightarrow> length out = n"
  using assms read_loop_strip [of "rd_state rd" "rd_r rd" n] read_loop_full [of n "rd_state rd" "rd_r rd"]
  by (auto simp: Read_def split: prod.splits)

text \<open>Reads with enough room in total, of any sizes, deliver the stripped text.\<close>

lemma read_all_strip:
  assumes "\<not> slash_quote (rd_state rd) (rd_r rd)" "length (strip (rd_state rd) (rd_r rd)) < sum_list ns"
  shows "read_all ns rd = (strip (rd_state rd) (rd_r rd), True)"
  using assms
proof (induction ns arbitrary: rd)
  case (Cons n ns)
  obtain out eof rd' where r: "Read n rd = (out, eof, rd')" using prod_cases3 by blast
  note facts = Read_strip [OF Cons(2) r]
  show ?case
  proof (cases eof)
    case False
    with facts Cons(3) have "length (strip (rd_state rd') (rd_r rd')) < sum_list ns" by simp
    from Cons(1) [OF facts(2) this] facts(1) r False show ?thesis by simp
  qed (use facts(1) r in simp)
qed simp

section \<open>Texts with comments\<close>

text \<open>
  Text outside strings and comments, without quotes and slashes; a string with its quotes; a comment
  to the end of a line, ended by a line feed or a carriage return; a block comment.
\<close>

datatype segment = Plain string | Quoted string | LineComment string char | BlockComment string

fun escaped :: "string \<Rightarrow> bool" where \<comment> \<open>the inside of a string: no bare quote, no open escape\<close>
  "escaped [] = True"
| "escaped [b] \<longleftrightarrow> b \<noteq> quote \<and> b \<noteq> backslash"
| "escaped (b # c # s) \<longleftrightarrow> (if b = backslash then escaped s else b \<noteq> quote \<and> escaped (c # s))"

fun star_slash :: "string \<Rightarrow> bool" where \<comment> \<open>whether the text contains the end of a block comment\<close>
  "star_slash (a # b # s) \<longleftrightarrow> a = CHR ''*'' \<and> b = CHR ''/'' \<or> star_slash (b # s)"
| "star_slash _ = False"

fun wf_segment :: "segment \<Rightarrow> bool" where
  "wf_segment (Plain s) \<longleftrightarrow> quote \<notin> set s \<and> CHR ''/'' \<notin> set s"
| "wf_segment (Quoted s) \<longleftrightarrow> escaped s"
| "wf_segment (LineComment s e) \<longleftrightarrow> newline \<notin> set s \<and> creturn \<notin> set s \<and> (e = newline \<or> e = creturn)"
| "wf_segment (BlockComment s) \<longleftrightarrow> \<not> star_slash s"

fun print_segment :: "segment \<Rightarrow> string" where
  "print_segment (Plain s) = s"
| "print_segment (Quoted s) = quote # s @ [quote]"
| "print_segment (LineComment s e) = ''//'' @ s @ [e]"
| "print_segment (BlockComment s) = ''/*'' @ s @ ''*/''"

fun keep_segment :: "segment \<Rightarrow> string" where
  "keep_segment (Plain s) = s"
| "keep_segment (Quoted s) = quote # s @ [quote]"
| "keep_segment (LineComment s e) = [e]"
| "keep_segment (BlockComment s) = []"

lemma run_plain:
  "quote \<notin> set s \<Longrightarrow> CHR ''/'' \<notin> set s \<Longrightarrow>
   strip stateNormal (s @ r) = s @ strip stateNormal r \<and>
   slash_quote stateNormal (s @ r) = slash_quote stateNormal r"
  by (induction s) auto

lemma run_quoted:
  "escaped s \<Longrightarrow> strip stateInString (s @ quote # r) = s @ quote # strip stateNormal r \<and>
   slash_quote stateInString (s @ quote # r) = slash_quote stateNormal r"
  by (induction s rule: escaped.induct) (auto simp: chars_distinct split: if_splits)

lemma run_line:
  "newline \<notin> set s \<Longrightarrow> creturn \<notin> set s \<Longrightarrow> e = newline \<or> e = creturn \<Longrightarrow>
   strip stateLineComment (s @ e # r) = e # strip stateNormal r \<and>
   slash_quote stateLineComment (s @ e # r) = slash_quote stateNormal r"
  by (induction s) auto

lemma run_block:
  "\<not> star_slash s \<Longrightarrow> strip stateBlockComment (s @ CHR ''*'' # CHR ''/'' # r) = strip stateNormal r \<and>
     slash_quote stateBlockComment (s @ CHR ''*'' # CHR ''/'' # r) = slash_quote stateNormal r"
  "\<not> star_slash (CHR ''*'' # s) \<Longrightarrow>
     strip stateMaybeBlockEnd (s @ CHR ''*'' # CHR ''/'' # r) = strip stateNormal r \<and>
     slash_quote stateMaybeBlockEnd (s @ CHR ''*'' # CHR ''/'' # r) = slash_quote stateNormal r"
proof (induction s)
  case (Cons b s)
  have tail: "\<not> star_slash (b # s) \<Longrightarrow> \<not> star_slash s" by (cases s) auto
  { case 1 then show ?case using Cons.IH tail by auto }
  { case 2 then show ?case using Cons.IH tail by (auto simp: quote_def) }
qed auto

lemma run_segment:
  "wf_segment g \<Longrightarrow> strip stateNormal (print_segment g @ r) = keep_segment g @ strip stateNormal r \<and>
   slash_quote stateNormal (print_segment g @ r) = slash_quote stateNormal r"
  by (cases g) (auto simp: run_plain run_quoted run_line run_block)

lemma run_segments:
  "list_all wf_segment gs \<Longrightarrow>
   strip stateNormal (concat (map print_segment gs)) = concat (map keep_segment gs) \<and>
   \<not> slash_quote stateNormal (concat (map print_segment gs))"
  by (induction gs) (auto simp: run_segment)

section \<open>Properties\<close>

text \<open>
  Stripping comments. A text made of plain parts, strings and comments is read, through buffers
  of any sizes whose total is larger than the result, as the same text without its comments: every
  string is kept to the byte, comment marks inside strings included, and every line end is kept.
\<close>

lemma comments_stripped:
  assumes "list_all wf_segment gs" "length (concat (map keep_segment gs)) < sum_list ns"
  shows "read_all ns (NewReader (concat (map print_segment gs))) = (concat (map keep_segment gs), True)"
  using assms run_segments [OF assms(1)] read_all_strip [of "NewReader (concat (map print_segment gs))" ns]
  by (simp add: NewReader_def)

lemma comments_stripped_witness:
  "read_all [3, 1, 5, 2, 7]
     (NewReader (concat (map print_segment
        [Plain ''{'', Quoted ''a//b'', Plain '': 1, '', BlockComment ''* x *'', LineComment '' end'' newline, Plain ''}''])))
   = (concat (map keep_segment
        [Plain ''{'', Quoted ''a//b'', Plain '': 1, '', BlockComment ''* x *'', LineComment '' end'' newline, Plain ''}'']), True)"
  by (rule comments_stripped) code_simp+

text \<open>
  On text that is not JSON the result can depend on the sizes of the buffers: after a slash that
  starts no comment, a quote opens a string only if the buffer ended at the slash.
\<close>

lemma result_depends_on_buffer:
  "fst (read_all [8, 8] (NewReader (CHR ''/'' # quote # ''//'' @ [quote]))) = [CHR ''/'', quote]"
  "fst (read_all [1, 8, 8] (NewReader (CHR ''/'' # quote # ''//'' @ [quote]))) = CHR ''/'' # quote # ''//'' @ [quote]"
  by code_simp+

end
