(* ===== verification/Utils_Natural.thy ===== *)
theory Utils_Natural
  imports Go_Path
begin

text \<open>
  \<open>utils/natural\<close>: the comparison of names with numbers, and \<open>compareImageFiles\<close> of
  \<open>core/artwork/folders_album.go\<close>, which orders image files with it. A position in a string is the rest
  of the string from there.
\<close>

definition stripZeros :: "string \<Rightarrow> string" where
  "stripZeros s =
     (let r = dropWhile (\<lambda>c. c = CHR ''0'') s in if r = [] \<and> s \<noteq> [] then [last s] else r)"

fun first_difference :: "string \<Rightarrow> string \<Rightarrow> int" where
  "first_difference (x # xs) (y # ys) = (if x \<noteq> y then int (byte x) - int (byte y) else first_difference xs ys)"
| "first_difference _ _ = 0"

definition compareNumbers :: "string \<Rightarrow> string \<Rightarrow> int" where
  "compareNumbers a b =
     (let sa = stripZeros a; sb = stripZeros b
      in if length sa \<noteq> length sb then int (length sa) - int (length sb) else first_difference sa sb)"

fun strings_Compare :: "string \<Rightarrow> string \<Rightarrow> int" where \<comment> \<open>\<open>strings.Compare\<close>\<close>
  "strings_Compare [] [] = 0"
| "strings_Compare [] (y # ys) = -1"
| "strings_Compare (x # xs) [] = 1"
| "strings_Compare (x # xs) (y # ys) =
     (if byte x < byte y then -1 else if byte y < byte x then 1 else strings_Compare xs ys)"

function Compare :: "string \<Rightarrow> string \<Rightarrow> int" where
  "Compare [] b = - int (length b)"
| "Compare (ca # a) [] = int (length (ca # a))"
| "Compare (ca # a) (cb # b) =
     (if is_digit ca \<and> is_digit cb then
        (let restA = dropWhile is_digit (ca # a); restB = dropWhile is_digit (cb # b);
             c = compareNumbers (takeWhile is_digit (ca # a)) (takeWhile is_digit (cb # b))
         in if c \<noteq> 0 then c
            else if restA \<noteq> [] \<and> restB \<noteq> [] then Compare restA restB
            else strings_Compare (ca # a) (cb # b))
      else if is_digit ca \<noteq> is_digit cb then int (byte ca) - int (byte cb)
      else if ca \<noteq> cb then int (byte ca) - int (byte cb)
      else Compare a b)"
  by pat_completeness auto
termination
  by (relation "measure (length \<circ> fst)") (auto simp: less_Suc_eq_le length_dropWhile_le)

definition cmp_Or :: "int list \<Rightarrow> int" where \<comment> \<open>\<open>cmp.Or\<close>: the first that is not zero\<close>
  "cmp_Or xs = (case dropWhile (\<lambda>x. x = 0) xs of [] \<Rightarrow> 0 | x # _ \<Rightarrow> x)"

definition TrimSuffix :: "string \<Rightarrow> string \<Rightarrow> string" where
  "TrimSuffix s suffix = (if HasPrefix (rev s) (rev suffix) then take (length s - length suffix) s else s)"

definition image_name :: "string \<Rightarrow> string" where
  "image_name a = TrimSuffix (Base a) (Ext a)"

definition compareImageFiles :: "string \<Rightarrow> string \<Rightarrow> int" where
  "compareImageFiles a0 b0 =
     (let a = ToLower a0; b = ToLower b0
      in cmp_Or [Compare (image_name a) (image_name b),
                 sgn (int (count_if (\<lambda>c. c = CHR ''/'') a) - int (count_if (\<lambda>c. c = CHR ''/'') b)),
                 Compare a b])"

section \<open>Antisymmetry\<close>

lemma byte_eq [simp]: "byte x = byte y \<longleftrightarrow> x = y"
  by (simp add: byte_def)

lemma first_difference_antisym: "length a = length b \<Longrightarrow> first_difference b a = - first_difference a b"
  by (induction a b rule: first_difference.induct) auto

lemma compareNumbers_antisym: "compareNumbers b a = - compareNumbers a b"
  using first_difference_antisym [of "stripZeros a" "stripZeros b"]
  by (simp add: compareNumbers_def Let_def)

lemma strings_Compare_antisym: "strings_Compare b a = - strings_Compare a b"
  by (induction a b rule: strings_Compare.induct) auto

lemma Compare_antisym: "Compare b a = - Compare a b"
proof (induction a b rule: Compare.induct)
  case (1 b)
  then show ?case by (cases b) auto
next
  case (3 ca a cb b)
  note n = compareNumbers_antisym [of "takeWhile is_digit (cb # b)" "takeWhile is_digit (ca # a)"]
  show ?case
  proof (cases "is_digit ca \<and> is_digit cb")
    case True
    then show ?thesis
      using 3(1) [OF True refl refl refl] n strings_Compare_antisym [of "cb # b" "ca # a"]
      by (simp add: Let_def)
  qed (use 3(2) in auto)
qed simp

section \<open>Numbers\<close>

definition number :: "string \<Rightarrow> int" where
  "number s = the (digits_value 0 s)"

lemma digits_value_Some: "list_all is_digit s \<Longrightarrow> digits_value acc s = Some (acc * 10 ^ length s + number s)"
proof (induction s arbitrary: acc)
  case (Cons c s)
  let ?d = "int (byte c) - 48"
  have "number (c # s) = ?d * 10 ^ length s + number s"
    using Cons(1) [of ?d] Cons(2) by (simp add: number_def)
  then show ?case using Cons(1) [of "10 * acc + ?d"] Cons(2) by (simp add: algebra_simps)
qed (simp add: number_def)

lemma number_Cons: "list_all is_digit (c # s) \<Longrightarrow> number (c # s) = (int (byte c) - 48) * 10 ^ length s + number s"
  using digits_value_Some [of s "int (byte c) - 48"] by (simp add: number_def)

lemma number_Nil [simp]: "number [] = 0"
  by (simp add: number_def)

lemma number_bounds: "list_all is_digit s \<Longrightarrow> 0 \<le> number s \<and> number s < 10 ^ length s"
proof (induction s)
  case (Cons c s)
  then have IH: "0 \<le> number s" "number s < 10 ^ length s" and d: "is_digit c" by auto
  have "0 \<le> int (byte c) - 48" "int (byte c) - 48 \<le> 9" using d by (auto simp: is_digit_def)
  then have "0 \<le> (int (byte c) - 48) * 10 ^ length s" "(int (byte c) - 48) * 10 ^ length s \<le> 9 * 10 ^ length s"
    by (simp_all only: mult_right_mono zero_le_power zero_le_numeral mult_nonneg_nonneg)
  moreover have "(10::int) ^ length (c # s) = 10 * 10 ^ length s" by simp
  ultimately show ?case unfolding number_Cons [OF Cons(2)] using IH by linarith
qed simp

lemma number_lower: "list_all is_digit (c # s) \<Longrightarrow> c \<noteq> CHR ''0'' \<Longrightarrow> 10 ^ length s \<le> number (c # s)"
proof -
  assume d: "list_all is_digit (c # s)" and c: "c \<noteq> CHR ''0''"
  have "byte c \<noteq> byte (CHR ''0'')" using c by simp
  then have "int (byte c) \<noteq> 48" by (simp add: byte_def)
  with d have "1 \<le> int (byte c) - 48" by (auto simp: is_digit_def)
  then have "10 ^ length s \<le> (int (byte c) - 48) * 10 ^ length s" by (simp add: mult_le_cancel_right1)
  moreover have "0 \<le> number s" using number_bounds [of s] d by simp
  ultimately show ?thesis unfolding number_Cons [OF d] by linarith
qed

lemma number_zero_char: "number (CHR ''0'' # s) = number s"
  by (simp add: number_def byte_def is_digit_def)

lemma number_dropZeros: "number (dropWhile (\<lambda>c. c = CHR ''0'') s) = number s"
  by (induction s) (auto simp: number_zero_char)

lemma stripZeros_number: "number (stripZeros s) = number s"
proof (cases "dropWhile (\<lambda>c. c = CHR ''0'') s = [] \<and> s \<noteq> []")
  case True
  then have "number s = number []" using number_dropZeros [of s] by metis
  then have "number s = 0" by simp
  moreover have "last s = CHR ''0''" using True by auto
  then have "number [last s] = 0" by (simp add: number_zero_char)
  ultimately show ?thesis using True by (simp add: stripZeros_def Let_def number_zero_char)
next
  case False
  then have "stripZeros s = dropWhile (\<lambda>c. c = CHR ''0'') s" unfolding stripZeros_def Let_def by (rule if_not_P)
  then show ?thesis by (simp only: number_dropZeros)
qed

lemma stripZeros_form:
  assumes "list_all is_digit s" "s \<noteq> []"
  obtains "stripZeros s = ''0''" | c r where "stripZeros s = c # r" "c \<noteq> CHR ''0''" "list_all is_digit (c # r)"
proof (cases "dropWhile (\<lambda>c. c = CHR ''0'') s")
  case Nil
  then have "last s = CHR ''0''" using assms(2) by auto
  with Nil assms(2) show ?thesis using that(1) by (simp add: stripZeros_def)
next
  case (Cons c r)
  then have "c \<noteq> CHR ''0''" by (simp add: dropWhile_eq_Cons_conv)
  moreover have "list_all is_digit (c # r)"
    using assms(1) Cons by (metis list_all_iff set_dropWhileD)
  ultimately show ?thesis using that(2) Cons by (simp add: stripZeros_def)
qed

lemma first_difference_number:
  "length a = length b \<Longrightarrow> list_all is_digit a \<Longrightarrow> list_all is_digit b \<Longrightarrow>
   sgn (first_difference a b) = sgn (number a - number b)"
proof (induction a b rule: first_difference.induct)
  case (1 x xs y ys)
  show ?case
  proof (cases "x = y")
    case False
    then have ne: "int (byte x) \<noteq> int (byte y)" by simp
    note b = number_bounds [of xs] number_bounds [of ys]
    have eq: "number (x # xs) - number (y # ys) =
        (int (byte x) - int (byte y)) * 10 ^ length xs + (number xs - number ys)"
      using 1(2-4) by (simp only: number_Cons) (simp add: algebra_simps)
    have small: "\<bar>number xs - number ys\<bar> < 10 ^ length xs" using b 1(2-4) by auto
    show ?thesis
    proof (cases "byte x < byte y")
      case True
      then have "(int (byte x) - int (byte y)) * 10 ^ length xs \<le> - 1 * 10 ^ length xs"
        by (intro mult_right_mono) auto
      with small eq have "number (x # xs) - number (y # ys) < 0" by linarith
      with True False show ?thesis by (simp add: sgn_if)
    next
      case lt: False
      then have "1 * 10 ^ length xs \<le> (int (byte x) - int (byte y)) * 10 ^ length xs"
        using ne lt by (intro mult_right_mono) (linarith, simp)
      with small eq have "number (x # xs) - number (y # ys) > 0" by linarith
      with lt False ne show ?thesis by (simp add: sgn_if)
    qed
  next
    case True
    with 1 show ?thesis by (simp only: number_Cons) simp
  qed
qed auto

lemma longer_number:
  assumes "list_all is_digit (c # r)" "c \<noteq> CHR ''0''" "list_all is_digit b" "length b < length (c # r)"
  shows "number b < number (c # r)"
proof -
  have "(10::int) ^ length b \<le> 10 ^ length r" using assms(4) by (simp add: power_increasing)
  with number_bounds [OF assms(3)] number_lower [OF assms(1,2)] show ?thesis by linarith
qed

lemma zero_digit [simp]: "list_all is_digit ''0''" "number ''0'' = 0"
  by (simp_all add: is_digit_def byte_def number_def)

text \<open>Digit strings of any length, with leading zeros, compare as the numbers they stand for.\<close>

lemma compareNumbers_number:
  assumes "list_all is_digit a" "list_all is_digit b" "a \<noteq> []" "b \<noteq> []"
  shows "sgn (compareNumbers a b) = sgn (number a - number b)"
proof -
  have d: "list_all is_digit (stripZeros a)" "list_all is_digit (stripZeros b)"
    using assms by (metis stripZeros_form zero_digit(1))+
  consider (eq) "length (stripZeros a) = length (stripZeros b)"
    | (lt) "length (stripZeros a) < length (stripZeros b)" | (gt) "length (stripZeros b) < length (stripZeros a)"
    by linarith
  then show ?thesis
  proof cases
    case eq
    then show ?thesis
      using first_difference_number [OF eq d] by (simp add: compareNumbers_def Let_def stripZeros_number)
  next
    case lt
    have "number (stripZeros a) < number (stripZeros b)"
      using assms(2,4)
    proof (cases rule: stripZeros_form)
      case 1
      with lt have "stripZeros a = []" by simp
      then show ?thesis using assms(1,3) by (metis stripZeros_form list.distinct(1))
    next
      case (2 c r)
      with lt d show ?thesis using longer_number by metis
    qed
    with lt show ?thesis by (simp add: compareNumbers_def Let_def stripZeros_number sgn_if)
  next
    case gt
    have "number (stripZeros b) < number (stripZeros a)"
      using assms(1,3)
    proof (cases rule: stripZeros_form)
      case 1
      with gt have "stripZeros b = []" by simp
      then show ?thesis using assms(2,4) by (metis stripZeros_form list.distinct(1))
    next
      case (2 c r)
      with gt d show ?thesis using longer_number by metis
    qed
    with gt show ?thesis by (simp add: compareNumbers_def Let_def stripZeros_number sgn_if)
  qed
qed

section \<open>Properties\<close>

lemma takeWhile_digits: "list_all is_digit x \<Longrightarrow> s = [] \<or> \<not> is_digit (hd s) \<Longrightarrow>
   takeWhile is_digit (x @ s) = x \<and> dropWhile is_digit (x @ s) = s"
  by (induction x) (cases s; auto)+

text \<open>A common prefix that does not end in a digit is skipped.\<close>

lemma Compare_prefix:
  assumes "p = [] \<or> \<not> is_digit (last p)" "a \<noteq> []" "b \<noteq> []"
  shows "Compare (p @ a) (p @ b) = Compare a b"
  using assms(1)
proof (induction "length p" arbitrary: p rule: less_induct)
  case less
  show ?case
  proof (cases p)
    case (Cons c q)
    show ?thesis
    proof (cases "is_digit c")
      case False
      have "q = [] \<or> \<not> is_digit (last q)" using less(2) Cons by (auto split: if_splits)
      with less(1) [of q] False Cons show ?thesis by simp
    next
      case True
      define x r where "x = takeWhile is_digit p" and "r = dropWhile is_digit p"
      have p: "p = x @ r" by (simp add: x_def r_def)
      have x: "list_all is_digit x" by (simp add: x_def list_all_iff) (metis set_takeWhileD)
      have "\<exists>d\<in>set p. \<not> is_digit d" using less(2) Cons last_in_set by blast
      then have r: "r \<noteq> []" by (simp add: r_def)
      then have hd: "\<not> is_digit (hd r)" by (simp add: r_def hd_dropWhile)
      have len: "length r < length p" using True Cons by (simp add: r_def less_Suc_eq_le length_dropWhile_le)
      have last: "r = [] \<or> \<not> is_digit (last r)" using less(2) p r by auto
      have t: "takeWhile is_digit (p @ z) = x" "dropWhile is_digit (p @ z) = r @ z" for z
        using takeWhile_digits [OF x, of "r @ z"] r hd by (auto simp: p)
      have "compareNumbers x x = 0" using compareNumbers_antisym [of x x] by simp
      with True Cons t [of a] t [of b] r less(1) [OF len last] show ?thesis by simp
    qed
  qed simp
qed

text \<open>
  Natural order. The comparison is antisymmetric, and names that agree up to a number are
  ordered by the value of that number, however many digits and leading zeros it is written with.
\<close>

lemma natural_order:
  assumes "p = [] \<or> \<not> is_digit (last p)"
    and "list_all is_digit x" "x \<noteq> []" "list_all is_digit y" "y \<noteq> []"
    and "s = [] \<or> \<not> is_digit (hd s)" "t = [] \<or> \<not> is_digit (hd t)" "number x < number y"
  shows "Compare (p @ x @ s) (p @ y @ t) < 0 \<and> Compare (p @ y @ t) (p @ x @ s) > 0"
proof -
  have "sgn (compareNumbers x y) = -1" using compareNumbers_number [of x y] assms by simp
  then have neg: "compareNumbers x y < 0" by (simp add: sgn_if split: if_splits)
  obtain cx x' cy y' where xy: "x = cx # x'" "y = cy # y'" using assms(3,5) by (meson list.exhaust)
  have "Compare (x @ s) (y @ t) = compareNumbers x y"
    using takeWhile_digits [OF assms(2,6)] takeWhile_digits [OF assms(4,7)] assms(2,4) neg
    by (simp add: xy)
  then have "Compare (p @ x @ s) (p @ y @ t) < 0" using Compare_prefix [OF assms(1)] assms(3,5) neg by simp
  then show ?thesis using Compare_antisym [of "p @ y @ t" "p @ x @ s"] by simp
qed

lemma natural_order_witness:
  "Compare ''disc2/cover007.jpg'' ''disc2/cover12.png'' < 0 \<and> Compare ''disc2/cover12.png'' ''disc2/cover007.jpg'' > 0"
proof -
  have "''disc2/cover'' = [] \<or> \<not> is_digit (last ''disc2/cover'')"
    "list_all is_digit ''007''" "list_all is_digit ''12''" "number ''007'' < number ''12''"
    "''.jpg'' = [] \<or> \<not> is_digit (hd ''.jpg'')" "''.png'' = [] \<or> \<not> is_digit (hd ''.png'')"
    by code_simp+
  then show ?thesis using natural_order [of "''disc2/cover''" "''007''" "''12''" "''.jpg''" "''.png''"] by simp
qed

text \<open>
  The tie-break on leading zeros makes the comparison not transitive: these three names are in a
  cycle, so sorting image files with it has no well-defined result. Two names can also compare as
  equal without being equal.
\<close>

lemma natural_order_cycle:
  "Compare ''1'' ''1a'' < 0" "Compare ''1a'' ''01b'' < 0" "Compare ''01b'' ''1'' < 0"
  "compareImageFiles ''1.jpg'' ''1a.jpg'' < 0" "compareImageFiles ''1a.jpg'' ''01b.jpg'' < 0"
  "compareImageFiles ''01b.jpg'' ''1.jpg'' < 0" "Compare ''01a'' ''1a'' = 0"
  by code_simp+

end
