(* ===== verification/Model_ArtworkID.thy ===== *)
theory Model_ArtworkID
  imports Go_Strings Auth_Claims
begin

text \<open>
  \<open>model/artwork_id.go\<close>: the identifiers of images in URLs and cache keys, \<open>kind-id_hash\<close>, and those of
  discs, \<open>album:number\<close>.
\<close>

datatype Kind =
    KindMediaFileArtwork | KindArtistArtwork | KindAlbumArtwork | KindPlaylistArtwork | KindDiscArtwork
  | KindRadioArtwork

fun kind_prefix :: "Kind \<Rightarrow> string" where
  "kind_prefix KindMediaFileArtwork = ''mf''"
| "kind_prefix KindArtistArtwork = ''ar''"
| "kind_prefix KindAlbumArtwork = ''al''"
| "kind_prefix KindPlaylistArtwork = ''pl''"
| "kind_prefix KindDiscArtwork = ''dc''"
| "kind_prefix KindRadioArtwork = ''ra''"

fun kind_name :: "Kind \<Rightarrow> string" where
  "kind_name KindMediaFileArtwork = ''media_file''"
| "kind_name KindArtistArtwork = ''artist''"
| "kind_name KindAlbumArtwork = ''album''"
| "kind_name KindPlaylistArtwork = ''playlist''"
| "kind_name KindDiscArtwork = ''disc''"
| "kind_name KindRadioArtwork = ''radio''"

definition all_kinds :: "Kind list" where
  "all_kinds = [KindMediaFileArtwork, KindArtistArtwork, KindAlbumArtwork, KindPlaylistArtwork, KindDiscArtwork,
     KindRadioArtwork]"

definition artworkKindMap :: "string \<rightharpoonup> Kind" where
  "artworkKindMap = map_of (map (\<lambda>k. (kind_prefix k, k)) all_kinds)"

definition ParseKind :: "string \<Rightarrow> Kind option" where
  "ParseKind p = artworkKindMap p"

record ArtworkID =
  aw_Kind :: Kind
  aw_ID :: string
  aw_Hash :: string
  aw_LastUpdate :: time_ns

definition ArtworkID_String :: "ArtworkID \<Rightarrow> string" where
  "ArtworkID_String i =
     (if aw_ID i = [] then []
      else let s = kind_prefix (aw_Kind i) @ ''-'' @ aw_ID i
           in if aw_Hash i \<noteq> [] then s @ ''_'' @ aw_Hash i else s)"

definition NewArtworkID :: "Kind \<Rightarrow> string \<Rightarrow> time_ns option \<Rightarrow> ArtworkID" where
  "NewArtworkID kind i lastUpdate =
     \<lparr>aw_Kind = kind, aw_ID = i, aw_Hash = [],
      aw_LastUpdate = (case lastUpdate of Some t \<Rightarrow> t | None \<Rightarrow> zero_time)\<rparr>"

definition isImageHash :: "string \<Rightarrow> bool" where
  "isImageHash s \<longleftrightarrow> length s = 16 \<and>
     list_all (\<lambda>c. 48 \<le> byte c \<and> byte c \<le> 57 \<or> 97 \<le> byte c \<and> byte c \<le> 102) s"

text \<open>\<open>strconv.ParseInt(s, 16, 64)\<close>: an optional sign, hexadecimal digits, and a value in range.\<close>

definition hex_value :: "char \<Rightarrow> int option" where
  "hex_value c =
     (let b = int (byte c)
      in if 48 \<le> b \<and> b \<le> 57 then Some (b - 48)
         else if 97 \<le> b \<and> b \<le> 102 then Some (b - 87)
         else if 65 \<le> b \<and> b \<le> 70 then Some (b - 55) else None)"

fun hex_digits :: "int \<Rightarrow> string \<Rightarrow> int option" where
  "hex_digits acc [] = Some acc"
| "hex_digits acc (c # cs) = (case hex_value c of None \<Rightarrow> None | Some d \<Rightarrow> hex_digits (16 * acc + d) cs)"

definition ParseInt16 :: "string \<Rightarrow> int option" where
  "ParseInt16 s =
     (let (neg, body) = (case s of [] \<Rightarrow> (False, []) | c # cs \<Rightarrow>
            if c = CHR ''-'' then (True, cs) else if c = CHR ''+'' then (False, cs) else (False, s))
      in if body = [] then None
         else case hex_digits 0 body of
                None \<Rightarrow> None
              | Some v \<Rightarrow> let w = (if neg then - v else v) in if in_int64 w then Some w else None)"

datatype artwork_error = InvalidArtworkId | InvalidArtworkKind | InvalidDiscArtworkId | InvalidDiscNumber

definition artwork_suffix :: "ArtworkID \<Rightarrow> string \<Rightarrow> ArtworkID" where
  "artwork_suffix i suffix =
     (if isImageHash suffix then i\<lparr>aw_Hash := suffix\<rparr>
      else if suffix \<noteq> ''0'' then
        (case ParseInt16 suffix of Some t \<Rightarrow> i\<lparr>aw_LastUpdate := t * nanos\<rparr> | None \<Rightarrow> i)
      else i)"

definition ParseArtworkID :: "string \<Rightarrow> artwork_error + ArtworkID" where
  "ParseArtworkID i =
     (case Cut (CHR ''-'') i of
        (_, None) \<Rightarrow> Inl InvalidArtworkId
      | (p, Some r) \<Rightarrow>
          (case artworkKindMap p of
             None \<Rightarrow> Inl InvalidArtworkKind
           | Some kind \<Rightarrow>
               Inr (let parsedID = \<lparr>aw_Kind = kind, aw_ID = r, aw_Hash = [], aw_LastUpdate = zero_time\<rparr>
                    in case Cut (CHR ''_'') r of
                         (_, None) \<Rightarrow> parsedID
                       | (a, Some suffix) \<Rightarrow> artwork_suffix (parsedID\<lparr>aw_ID := a\<rparr>) suffix)))"

definition DiscArtworkID :: "string \<Rightarrow> go_int \<Rightarrow> string" where
  "DiscArtworkID albumID discNumber = albumID @ '':'' @ Itoa discNumber"

definition ParseDiscArtworkID :: "string \<Rightarrow> artwork_error + string \<times> go_int" where
  "ParseDiscArtworkID i =
     (case Cut (CHR '':'') i of
        (_, None) \<Rightarrow> Inl InvalidDiscArtworkId
      | (a, Some d) \<Rightarrow>
          if d = [] then Inl InvalidDiscArtworkId
          else (case Atoi d of None \<Rightarrow> Inl InvalidDiscNumber | Some num \<Rightarrow> Inr (a, num)))"

section \<open>Properties\<close>

lemma kind_map: "artworkKindMap p = Some k \<longleftrightarrow> p = kind_prefix k"
  by (cases k) (auto simp: artworkKindMap_def all_kinds_def)

lemma kind_prefix_plain: "CHR ''-'' \<notin> set (kind_prefix k)"
  by (cases k) simp_all

lemma kind_prefix_inject: "kind_prefix k = kind_prefix k' \<longleftrightarrow> k = k'"
  by (cases k; cases k') simp_all

lemma ParseArtworkID_kind: "ParseArtworkID (kind_prefix k @ CHR ''-'' # r) =
   Inr (let parsedID = \<lparr>aw_Kind = k, aw_ID = r, aw_Hash = [], aw_LastUpdate = zero_time\<rparr>
        in case Cut (CHR ''_'') r of (_, None) \<Rightarrow> parsedID | (a, Some suffix) \<Rightarrow> artwork_suffix (parsedID\<lparr>aw_ID := a\<rparr>) suffix)"
  by (simp add: ParseArtworkID_def kind_prefix_plain kind_map [THEN iffD2, OF refl])

text \<open>
  Artwork ids read back. The text of an id without an underscore, whose hash is empty or an
  image hash, parses to that id (the time stamp is not printed); the text of a disc id parses to its
  album and number.
\<close>

lemma artwork_id_roundtrip:
  assumes "aw_ID i \<noteq> []" "CHR ''_'' \<notin> set (aw_ID i)" "aw_Hash i = [] \<or> isImageHash (aw_Hash i)"
    and "CHR '':'' \<notin> set album" "in_int64 disc"
  shows "ParseArtworkID (ArtworkID_String i) = Inr (i\<lparr>aw_LastUpdate := zero_time\<rparr>) \<and>
    ParseDiscArtworkID (DiscArtworkID album disc) = Inr (album, disc)"
proof
  show "ParseArtworkID (ArtworkID_String i) = Inr (i\<lparr>aw_LastUpdate := zero_time\<rparr>)"
    using assms(1-3)
    by (cases "aw_Hash i = []") (simp_all add: ArtworkID_String_def ParseArtworkID_kind artwork_suffix_def)
  have "Itoa disc \<noteq> []" by (simp add: Itoa_def)
  then show "ParseDiscArtworkID (DiscArtworkID album disc) = Inr (album, disc)"
    using assms(4,5) by (simp add: ParseDiscArtworkID_def DiscArtworkID_def Atoi_Itoa)
qed

lemma artwork_id_roundtrip_witness:
  "ParseArtworkID ''al-5-x_00aa11bb22cc33dd'' =
     Inr \<lparr>aw_Kind = KindAlbumArtwork, aw_ID = ''5-x'', aw_Hash = ''00aa11bb22cc33dd'', aw_LastUpdate = zero_time\<rparr> \<and>
   ParseDiscArtworkID (DiscArtworkID ''5-x'' 2) = Inr (''5-x'', 2)"
proof -
  let ?i = "\<lparr>aw_Kind = KindAlbumArtwork, aw_ID = ''5-x'', aw_Hash = ''00aa11bb22cc33dd'', aw_LastUpdate = 7\<rparr>"
  have h: "isImageHash ''00aa11bb22cc33dd''" by code_simp
  have "in_int64 2" by (simp add: in_int64_def int64_min_def int64_max_def)
  with artwork_id_roundtrip [of ?i "''5-x''" 2] h show ?thesis by (simp add: ArtworkID_String_def)
qed

text \<open>An underscore in the id itself is taken for the start of the suffix: the rest of the id is lost.\<close>

lemma underscore_truncates_id:
  "map_sum id aw_ID (ParseArtworkID (ArtworkID_String
     \<lparr>aw_Kind = KindPlaylistArtwork, aw_ID = ''my_list'', aw_Hash = [], aw_LastUpdate = zero_time\<rparr>)) = Inr ''my''"
  by code_simp

end
