(* ===== verification/Scheduler_Crontab.thy ===== *)
theory Scheduler_Crontab
  imports Go_Strings
begin

text \<open>
  \<open>scheduler/crontab_schedule.go\<close>: cron expressions with random fields \<open>a~b\<close>, resolved once before the
  expression is given to the cron library. \<open>parser.Parse\<close> of that library, \<open>time.ParseDuration\<close> and
  \<open>rand.IntN\<close> (by the index of the field) are arguments.
\<close>

datatype 'e cron_error =
    EmptySpec | MissingSpecAfterTimezone | TildeWithDescriptor string | FieldCount nat | ListsOrSteps string
  | InvalidStart string | InvalidEnd string | BelowMinimum string | AboveMaximum string | StartBeyondEnd string
  | ParserError 'e

definition fieldBounds :: "(int \<times> int) list" where
  "fieldBounds = [(0, 59), (0, 59), (0, 23), (1, 31), (1, 12), (0, 6)]"

text \<open>\<open>strconv.ParseUint(s, 10, 0)\<close> on a 64 bit machine.\<close>

definition ParseUint :: "string \<Rightarrow> int option" where
  "ParseUint s = (case parse_digits s of Some v \<Rightarrow> if v < 2 ^ 64 then Some v else None | None \<Rightarrow> None)"

definition range_part :: "string \<Rightarrow> int \<Rightarrow> int option" where
  "range_part part def = (if part \<noteq> [] then ParseUint part else Some def)"

definition resolveRandomField :: "(int \<Rightarrow> int) \<Rightarrow> string \<Rightarrow> int \<times> int \<Rightarrow> 'e cron_error + int" where
  "resolveRandomField IntN field b =
     (case Cut (CHR ''~'') field of
        (p0, p1) \<Rightarrow>
          let p1 = (case p1 of Some s \<Rightarrow> s | None \<Rightarrow> [])
          in case range_part p0 (fst b) of
               None \<Rightarrow> Inl (InvalidStart p0)
             | Some mn \<Rightarrow>
                 (case range_part p1 (snd b) of
                    None \<Rightarrow> Inl (InvalidEnd p1)
                  | Some mx \<Rightarrow>
                      if mn < fst b then Inl (BelowMinimum field)
                      else if mx > snd b then Inl (AboveMaximum field)
                      else if mn > mx then Inl (StartBeyondEnd field)
                      else Inr (mn + IntN (mx - mn + 1))))"

definition normalizeFields :: "string list \<Rightarrow> 'e cron_error + string list" where
  "normalizeFields fields =
     (if length fields = 5 then Inr (''0'' # fields)
      else if length fields = 6 then Inr fields
      else Inl (FieldCount (length fields)))"

fun resolve_fields ::
  "(nat \<Rightarrow> int \<Rightarrow> int) \<Rightarrow> nat \<Rightarrow> string list \<Rightarrow> 'e cron_error + string list" where
  "resolve_fields IntN i [] = Inr []"
| "resolve_fields IntN i (field # fields) =
     bind_result
       (if \<not> Contains field ''~'' then Inr field
        else if ContainsAny field '',/'' then Inl (ListsOrSteps field)
        else bind_result (resolveRandomField (IntN i) field (fieldBounds ! i)) (\<lambda>v. Inr (Itoa v)))
       (\<lambda>f. bind_result (resolve_fields IntN (Suc i) fields) (\<lambda>fs. Inr (f # fs)))"

definition ParseCrontab ::
  "(string \<Rightarrow> bool) \<Rightarrow> (nat \<Rightarrow> int \<Rightarrow> int) \<Rightarrow> (string \<Rightarrow> 'e + 'sched) \<Rightarrow> string \<Rightarrow> 'e cron_error + 'sched" where
  "ParseCrontab is_duration IntN Parse spec0 =
     (if spec0 = [] then Inl EmptySpec
      else
        let spec = (if is_duration spec0 then ''@every '' @ spec0 else spec0)
        in if \<not> Contains spec ''~'' then map_sum ParserError id (Parse spec)
           else
             bind_result
               (if HasPrefix spec ''TZ='' \<or> HasPrefix spec ''CRON_TZ='' then
                  (case Cut (CHR '' '') spec of
                     (_, None) \<Rightarrow> Inl MissingSpecAfterTimezone
                   | (tz, Some r) \<Rightarrow> Inr (tz @ '' '', TrimSpace ('' '' @ r)))
                else Inr ([], spec))
               (\<lambda>(tzPrefix, spec).
                  if HasPrefix spec ''@'' then Inl (TildeWithDescriptor spec)
                  else bind_result (normalizeFields (Fields spec)) (\<lambda>fields.
                       bind_result (resolve_fields IntN 0 fields) (\<lambda>fields.
                         map_sum ParserError id (Parse (tzPrefix @ Join fields '' ''))))))"

section \<open>Properties\<close>

text \<open>
  A field after resolution: unchanged without a tilde; else a number between the ends that are
  written, or the bounds of the field where an end is left out, and within these bounds.
\<close>

definition resolved :: "int \<times> int \<Rightarrow> string \<Rightarrow> string \<Rightarrow> bool" where
  "resolved b field out \<longleftrightarrow>
     (if CHR ''~'' \<notin> set field then out = field
      else \<exists>v p0 p1 mn mx. field = p0 @ ''~'' @ p1 \<and> CHR ''~'' \<notin> set p0 \<and> out = Itoa v \<and>
             range_part p0 (fst b) = Some mn \<and> range_part p1 (snd b) = Some mx \<and>
             fst b \<le> mn \<and> mn \<le> v \<and> v \<le> mx \<and> mx \<le> snd b)"

lemma Itoa_no_tilde [simp]: "CHR ''~'' \<notin> set (Itoa i)"
  using Itoa_chars [of "CHR ''~''" i] by (auto simp: is_digit_def byte_def)

lemma map_sum_Inr: "map_sum f id r = Inr x \<longleftrightarrow> r = Inr x"
  by (cases r) auto

lemma resolve_field:
  assumes rand: "\<And>n. 0 < n \<Longrightarrow> 0 \<le> r n \<and> r n < n"
    and "resolveRandomField r field b = (Inr v :: 'e cron_error + int)" "CHR ''~'' \<in> set field"
  shows "resolved b field (Itoa v)"
proof -
  obtain p0 p1 where c: "Cut (CHR ''~'') field = (p0, Some p1)"
    using assms(3) by (metis Cut_None option.exhaust surj_pair)
  from assms(2) c obtain mn mx where r: "range_part p0 (fst b) = Some mn" "range_part p1 (snd b) = Some mx"
    "fst b \<le> mn" "mx \<le> snd b" "mn \<le> mx" "v = mn + r (mx - mn + 1)"
    by (auto simp: resolveRandomField_def split: option.splits if_splits)
  from rand [of "mx - mn + 1"] r have "mn \<le> v" "v \<le> mx" by auto
  with r c assms(3) show ?thesis
    unfolding resolved_def Cut_Some
    by (simp only: if_not_P not_not) (rule exI [of _ v], rule exI [of _ p0], rule exI [of _ p1],
      rule exI [of _ mn], rule exI [of _ mx], simp)
qed

lemma resolve_fields_resolved:
  assumes rand: "\<And>i n. 0 < n \<Longrightarrow> 0 \<le> IntN i n \<and> IntN i n < n"
  shows "resolve_fields IntN i fields = (Inr out :: 'e cron_error + string list) \<Longrightarrow>
    length out = length fields \<and> (\<forall>k < length fields. resolved (fieldBounds ! (i + k)) (fields ! k) (out ! k))"
proof (induction fields arbitrary: i out)
  case (Cons f fs)
  from Cons(2) obtain o1 os where out: "out = o1 # os" and tail: "resolve_fields IntN (Suc i) fs = (Inr os :: 'e cron_error + string list)"
    and h: "CHR ''~'' \<notin> set f \<and> o1 = f \<or>
       (\<exists>v. CHR ''~'' \<in> set f \<and> o1 = Itoa v \<and> resolveRandomField (IntN i) f (fieldBounds ! i) = (Inr v :: 'e cron_error + int))"
    by (auto simp: bind_result_Inr Contains_char split: if_splits)
  have h': "resolved (fieldBounds ! i) f o1"
    using h resolve_field [of "IntN i" f "fieldBounds ! i", OF rand] by (auto simp: resolved_def)
  from Cons(1) [OF tail] h' show ?case
    by (auto simp: out nth_Cons split: nat.split)
qed simp

text \<open>
  Random fields of a schedule. Whenever a specification with a tilde is accepted, the cron library
  is given, behind the time zone if there is one, six fields: those of the specification (with second 0
  in front of five), each random one replaced by a number inside its range and inside the bounds of the
  field; no tilde is left in them, and the schedule is the library's. (Hypothesis: \<open>rand.IntN(n)\<close> is
  in \<open>[0,n)\<close>; it is never called with \<open>n\<close> below 1.)
\<close>

lemma crontab_random_fields:
  fixes Parse :: "string \<Rightarrow> 'e + 'sched"
  assumes rand: "\<And>i n. 0 < n \<Longrightarrow> 0 \<le> IntN i n \<and> IntN i n < n"
    and "ParseCrontab is_duration IntN Parse spec = Inr sched" "CHR ''~'' \<in> set spec" "\<not> is_duration spec"
  shows "\<exists>tz body fields out. (tz = [] \<and> body = spec \<or> (\<exists>r. tz = takeWhile (\<lambda>c. c \<noteq> CHR '' '') spec @ '' '' \<and>
        spec = tz @ r \<and> body = TrimSpace ('' '' @ r))) \<and>
     fields = (if length (Fields body) = 5 then ''0'' # Fields body else Fields body) \<and>
     length fields = 6 \<and> length out = 6 \<and> (\<forall>k < 6. resolved (fieldBounds ! k) (fields ! k) (out ! k)) \<and>
     CHR ''~'' \<notin> set (concat out) \<and> Parse (tz @ Join out '' '') = Inr sched"
proof -
  have c: "spec \<noteq> []" "Contains spec ''~''" using assms(3) by (auto simp: Contains_char)
  let ?body = "\<lambda>tz body. \<exists>fields out. normalizeFields (Fields body) = (Inr fields :: 'e cron_error + _) \<and>
       resolve_fields IntN 0 fields = (Inr out :: 'e cron_error + _) \<and> Parse (tz @ Join out '' '') = Inr sched"
  obtain tz body where tz: "tz = [] \<and> body = spec \<or>
      (\<exists>w r. Cut (CHR '' '') spec = (w, Some r) \<and> tz = w @ '' '' \<and> body = TrimSpace ('' '' @ r))"
    and b: "?body tz body"
    using assms(2,4) c
    by (auto simp: ParseCrontab_def bind_result_Inr map_sum_Inr Let_def split: if_splits option.splits prod.splits)
      (metis append_Nil)
  then obtain fields out where f: "normalizeFields (Fields body) = (Inr fields :: 'e cron_error + _)"
    "resolve_fields IntN 0 fields = (Inr out :: 'e cron_error + _)" "Parse (tz @ Join out '' '') = Inr sched" by blast
  have n: "fields = (if length (Fields body) = 5 then ''0'' # Fields body else Fields body)" "length fields = 6"
    using f(1) by (auto simp: normalizeFields_def split: if_splits)
  note res = resolve_fields_resolved [OF rand f(2)]
  have tilde: "CHR ''~'' \<notin> set o1" if mem: "o1 \<in> set out" for o1
  proof -
    obtain k where "k < length out" and k: "o1 = out ! k" using mem by (auto simp: in_set_conv_nth)
    then have "k < length fields" using res by simp
    with res k have "resolved (fieldBounds ! k) (fields ! k) o1" by simp
    then show ?thesis by (auto simp: resolved_def split: if_splits)
  qed
  then have tilde: "CHR ''~'' \<notin> set (concat out)" by auto
  have split: "tz = [] \<and> body = spec \<or> (\<exists>r. tz = takeWhile (\<lambda>c. c \<noteq> CHR '' '') spec @ '' '' \<and>
        spec = tz @ r \<and> body = TrimSpace ('' '' @ r))"
    using tz
  proof (elim disjE exE conjE)
    fix w r
    assume w: "Cut (CHR '' '') spec = (w, Some r)" and t: "tz = w @ '' ''" "body = TrimSpace ('' '' @ r)"
    then have "spec = w @ CHR '' '' # r" "CHR '' '' \<notin> set w" by (auto simp: Cut_Some)
    then have "takeWhile (\<lambda>c. c \<noteq> CHR '' '') spec = w" by (subst \<open>spec = _\<close>, subst takeWhile_append2) auto
    with t \<open>spec = _\<close> show ?thesis by auto
  qed auto
  have "length out = 6" "\<forall>k<6. resolved (fieldBounds ! k) (fields ! k) (out ! k)" using res n(2) by simp_all
  then show ?thesis using split n f(3) tilde by blast
qed

definition sample_cron :: string where "sample_cron = ''TZ=UTC 5~9 ~ * * 1''"

lemma crontab_random_fields_witness:
  "\<exists>tz out. length out = 6 \<and> CHR ''~'' \<notin> set (concat out) \<and> tz @ Join out '' '' = ''TZ=UTC 0 7 3 * * 1''"
proof -
  let ?r = "\<lambda>(i::nat) (n::int). if i = 1 \<and> n = 5 then 2 else if i = 2 \<and> n = 24 then 3 else (0::int)"
  let ?parse = "(Inr :: string \<Rightarrow> unit + string)"
  have r: "0 \<le> ?r i n \<and> ?r i n < n" if "0 < n" for i n using that by auto
  have p: "ParseCrontab (\<lambda>_. False) ?r ?parse sample_cron = Inr ''TZ=UTC 0 7 3 * * 1''" by code_simp
  have t: "CHR ''~'' \<in> set sample_cron" by code_simp
  from crontab_random_fields [OF r p t] obtain tz out where
    "length out = 6" "CHR ''~'' \<notin> set (concat out)" "?parse (tz @ Join out '' '') = Inr ''TZ=UTC 0 7 3 * * 1''"
    by blast
  then show ?thesis by auto
qed

end
