(* ===== verification/Playlist_Tracks.thy ===== *)
theory Playlist_Tracks
  imports Bragi_Prelude
begin

text \<open>
  The rows of \<open>playlist_tracks\<close> (\<open>persistence/playlist_track_repository.go\<close>, \<open>playlist_repository.go\<close>): the
  tracks of a playlist with their positions, under a unique index on playlist and position. A table
  is a list of rows in storage order. SQLite checks the index for each row it writes, so \<open>sql_update\<close>
  goes through the rows one by one and fails at the first collision with any other row as it is then.
\<close>

record track_row =
  tr_playlist :: string
  tr_id :: int
  tr_media :: string

datatype sql_error = UniqueViolation

definition same_key :: "track_row \<Rightarrow> track_row \<Rightarrow> bool" where
  "same_key a b \<longleftrightarrow> tr_playlist a = tr_playlist b \<and> tr_id a = tr_id b"

fun sql_update ::
  "(track_row \<Rightarrow> bool) \<Rightarrow> (track_row \<Rightarrow> int) \<Rightarrow> track_row list \<Rightarrow> track_row list \<Rightarrow> sql_error + track_row list" where
  "sql_update cond new written [] = Inr written"
| "sql_update cond new written (r # rs) =
     (if cond r then
        (let r' = r\<lparr>tr_id := new r\<rparr>
         in if list_ex (same_key r') (written @ rs) then Inl UniqueViolation
            else sql_update cond new (written @ [r']) rs)
      else sql_update cond new (written @ [r]) rs)"

definition sql_delete :: "(track_row \<Rightarrow> bool) \<Rightarrow> track_row list \<Rightarrow> track_row list" where
  "sql_delete cond rows = filter (\<lambda>r. \<not> cond r) rows"

fun sql_insert :: "track_row list \<Rightarrow> track_row list \<Rightarrow> sql_error + track_row list" where
  "sql_insert [] rows = Inr rows"
| "sql_insert (r # rs) rows =
     (if list_ex (same_key r) rows then Inl UniqueViolation else sql_insert rs (rows @ [r]))"

section \<open>Operations\<close>

fun number_from :: "string \<Rightarrow> int \<Rightarrow> string list \<Rightarrow> track_row list" where
  "number_from p k [] = []"
| "number_from p k (t # ts) = \<lparr>tr_playlist = p, tr_id = k, tr_media = t\<rparr> # number_from p (k + 1) ts"

definition addTracks :: "string \<Rightarrow> int \<Rightarrow> string list \<Rightarrow> track_row list \<Rightarrow> sql_error + track_row list" where
  "addTracks p startingPos mediaFileIds rows = sql_insert (number_from p startingPos mediaFileIds) rows"

definition updatePlaylist :: "string \<Rightarrow> string list \<Rightarrow> track_row list \<Rightarrow> sql_error + track_row list" where
  "updatePlaylist p mediaFileIds rows = addTracks p 1 mediaFileIds (sql_delete (\<lambda>r. tr_playlist r = p) rows)"

definition max_id :: "string \<Rightarrow> track_row list \<Rightarrow> int" where \<comment> \<open>\<open>max(id)\<close>; \<open>NULL\<close> reads as 0\<close>
  "max_id p rows = (case map tr_id (filter (\<lambda>r. tr_playlist r = p) rows) of [] \<Rightarrow> 0 | i # is \<Rightarrow> foldl max i is)"

definition tracks_Add :: "string \<Rightarrow> string list \<Rightarrow> track_row list \<Rightarrow> sql_error + int \<times> track_row list" where
  "tracks_Add p mediaFileIds rows =
     (if mediaFileIds = [] then Inr (0, rows)
      else map_sum id (\<lambda>rows'. (int (length mediaFileIds), rows')) (addTracks p (max_id p rows + 1) mediaFileIds rows))"

text \<open>\<open>ROW_NUMBER() OVER (ORDER BY id DESC)\<close> among the rows of the playlist.\<close>

definition row_number :: "string \<Rightarrow> track_row list \<Rightarrow> track_row \<Rightarrow> int" where
  "row_number p rows r = 1 + int (count_if (\<lambda>s. tr_playlist s = p \<and> tr_id r < tr_id s) rows)"

definition renumber :: "string \<Rightarrow> track_row list \<Rightarrow> sql_error + track_row list" where
  "renumber p rows =
     bind_result (sql_update (\<lambda>r. tr_playlist r = p \<and> tr_id r > 0) (\<lambda>r. - tr_id r) [] rows)
       (\<lambda>rows1. sql_update (\<lambda>r. tr_playlist r = p) (row_number p rows1) [] rows1)"

definition tracks_Delete :: "string \<Rightarrow> int list \<Rightarrow> track_row list \<Rightarrow> sql_error + track_row list" where
  "tracks_Delete p ids rows = renumber p (sql_delete (\<lambda>r. tr_playlist r = p \<and> tr_id r \<in> set ids) rows)"

definition tracks_DeleteAll :: "string \<Rightarrow> track_row list \<Rightarrow> sql_error + track_row list" where
  "tracks_DeleteAll p rows = renumber p (sql_delete (\<lambda>r. tr_playlist r = p) rows)"

definition sentinel :: int where "sentinel = - 999999"

definition tracks_Reorder :: "string \<Rightarrow> int \<Rightarrow> int \<Rightarrow> track_row list \<Rightarrow> sql_error + track_row list" where
  "tracks_Reorder p pos newPos rows =
     (if pos = newPos then Inr rows
      else
        bind_result (sql_update (\<lambda>r. tr_playlist r = p \<and> tr_id r = pos) (\<lambda>_. sentinel) [] rows) (\<lambda>rows1.
        bind_result
          (if pos < newPos
           then sql_update (\<lambda>r. tr_playlist r = p \<and> tr_id r > pos \<and> tr_id r \<le> newPos) (\<lambda>r. - (tr_id r - 1)) [] rows1
           else sql_update (\<lambda>r. tr_playlist r = p \<and> tr_id r \<ge> newPos \<and> tr_id r < pos) (\<lambda>r. - (tr_id r + 1)) [] rows1)
          (\<lambda>rows2.
        bind_result
          (sql_update (\<lambda>r. tr_playlist r = p \<and> tr_id r < 0 \<and> tr_id r \<noteq> sentinel) (\<lambda>r. - tr_id r) [] rows2) (\<lambda>rows3.
        sql_update (\<lambda>r. tr_playlist r = p \<and> tr_id r = sentinel) (\<lambda>_. newPos) [] rows3))))"

section \<open>Updates under the unique index\<close>

definition unique_index :: "track_row list \<Rightarrow> bool" where
  "unique_index rows \<longleftrightarrow> distinct (map (\<lambda>r. (tr_playlist r, tr_id r)) rows)"

definition written_row :: "(track_row \<Rightarrow> bool) \<Rightarrow> (track_row \<Rightarrow> int) \<Rightarrow> track_row \<Rightarrow> track_row" where
  "written_row cond new r = (if cond r then r\<lparr>tr_id := new r\<rparr> else r)"

lemma written_row_simps [simp]:
  "tr_playlist (written_row cond new r) = tr_playlist r" "tr_media (written_row cond new r) = tr_media r"
  "tr_id (written_row cond new r) = (if cond r then new r else tr_id r)"
  by (simp_all add: written_row_def)

text \<open>
  An update succeeds, in whatever order the rows are stored, when the new positions are distinct from
  each other and from all positions of other rows before the update.
\<close>

lemma sql_update_loop:
  assumes "unique_index (map (written_row cond new) (us @ rs))"
    and "\<forall>r\<in>set rs. cond r \<longrightarrow> (\<forall>s\<in>set rs. tr_playlist s = tr_playlist r \<longrightarrow> tr_id s = new r \<longrightarrow> s = r)"
    and "distinct rs"
  shows "sql_update cond new (map (written_row cond new) us) rs = Inr (map (written_row cond new) (us @ rs))"
  using assms
proof (induction rs arbitrary: us)
  case (Cons r rs)
  let ?w = "written_row cond new"
  have IH: "sql_update cond new (map ?w (us @ [r])) rs = Inr (map ?w ((us @ [r]) @ rs))"
    by (rule Cons(1)) (use Cons(2-4) in auto)
  show ?case
  proof (cases "cond r")
    case True
    have "\<not> same_key (r\<lparr>tr_id := new r\<rparr>) s" if "s \<in> set (map ?w us)" for s
      using Cons(2) that True by (auto simp: unique_index_def same_key_def)
    moreover have "\<not> same_key (r\<lparr>tr_id := new r\<rparr>) s" if "s \<in> set rs" for s
      using Cons(3,4) that True by (auto simp: same_key_def)
    ultimately have "\<not> list_ex (same_key (r\<lparr>tr_id := new r\<rparr>)) (map ?w us @ rs)"
      by (auto simp: list_ex_iff)
    moreover have w: "?w r = r\<lparr>tr_id := new r\<rparr>" using True by (simp add: written_row_def)
    ultimately show ?thesis using True IH by (simp add: Let_def w)
  next
    case False
    then have "?w r = r" by (simp add: written_row_def)
    with False IH show ?thesis by simp
  qed
qed simp

lemma sql_update_ok:
  assumes "unique_index rows" "unique_index (map (written_row cond new) rows)"
    and "\<forall>r\<in>set rows. cond r \<longrightarrow> (\<forall>s\<in>set rows. tr_playlist s = tr_playlist r \<longrightarrow> tr_id s = new r \<longrightarrow> s = r)"
  shows "sql_update cond new [] rows = Inr (map (written_row cond new) rows)"
  using sql_update_loop [of cond new "[]" rows] assms by (auto simp: unique_index_def distinct_map)

lemma unique_index_iff:
  "unique_index rows \<longleftrightarrow> distinct rows \<and>
     (\<forall>r\<in>set rows. \<forall>s\<in>set rows. tr_playlist r = tr_playlist s \<longrightarrow> tr_id r = tr_id s \<longrightarrow> r = s)"
  by (auto simp: unique_index_def distinct_map inj_on_def)

lemma unique_index_map:
  assumes "unique_index rows" "\<And>r. tr_playlist (f r) = tr_playlist r"
    and "\<And>r s. r \<in> set rows \<Longrightarrow> s \<in> set rows \<Longrightarrow> tr_playlist r = tr_playlist s \<Longrightarrow> tr_id (f r) = tr_id (f s) \<Longrightarrow> tr_id r = tr_id s"
  shows "unique_index (map f rows)"
proof -
  have inj: "r = s" if "r \<in> set rows" "s \<in> set rows" "tr_playlist (f r) = tr_playlist (f s)" "tr_id (f r) = tr_id (f s)" for r s
    using assms(1) assms(3) [OF that(1,2)] that by (simp add: assms(2) unique_index_iff)
  have "distinct rows" using assms(1) by (simp add: unique_index_iff)
  then show ?thesis using inj by (auto simp: unique_index_def distinct_map inj_on_def)
qed

section \<open>The tracks of a playlist\<close>

text \<open>
  The rows of a playlist hold the tracks \<open>ts\<close>: they are numbered 1, 2, ... in this order, in any
  storage order. \<open>playlist_content\<close> reads them by \<open>ORDER BY id\<close>.
\<close>

fun numbered_from :: "int \<Rightarrow> string list \<Rightarrow> (int \<times> string) list" where
  "numbered_from k [] = []"
| "numbered_from k (t # ts) = (k, t) # numbered_from (k + 1) ts"

definition positions :: "string \<Rightarrow> track_row list \<Rightarrow> (int \<times> string) list" where
  "positions p rows = map (\<lambda>r. (tr_id r, tr_media r)) (filter (\<lambda>r. tr_playlist r = p) rows)"

definition holds_tracks :: "string \<Rightarrow> track_row list \<Rightarrow> string list \<Rightarrow> bool" where
  "holds_tracks p rows ts \<longleftrightarrow> mset (positions p rows) = mset (numbered_from 1 ts)"

definition playlist_content :: "string \<Rightarrow> track_row list \<Rightarrow> string list" where
  "playlist_content p rows = map snd (sort_key fst (positions p rows))"

lemma numbered_from_append: "numbered_from k (xs @ ys) = numbered_from k xs @ numbered_from (k + int (length xs)) ys"
  by (induction xs arbitrary: k) (simp_all add: algebra_simps)

lemma map_snd_numbered [simp]: "map snd (numbered_from k ts) = ts"
  by (induction ts arbitrary: k) auto

lemma numbered_bounds: "(i, t) \<in> set (numbered_from k ts) \<Longrightarrow> k \<le> i \<and> i < k + int (length ts)"
  by (induction ts arbitrary: k) fastforce+

lemma numbered_sorted: "sorted (map fst (numbered_from k ts))" "distinct (map fst (numbered_from k ts))"
  by (induction ts arbitrary: k) (force dest: numbered_bounds)+

lemma numbered_shift: "map (\<lambda>(i, t). (i + d, t)) (numbered_from k ts) = numbered_from (k + d) ts"
  by (induction ts arbitrary: k) (simp_all add: algebra_simps)

lemma numbered_map_same:
  "(\<And>i. k \<le> i \<Longrightarrow> i < k + int (length ts) \<Longrightarrow> f i = i + d) \<Longrightarrow>
   map (\<lambda>(i, t). (f i, t)) (numbered_from k ts) = numbered_from (k + d) ts"
  unfolding numbered_shift [symmetric] by (rule map_cong) (auto dest: numbered_bounds)

lemma holds_tracks_content: "holds_tracks p rows ts \<Longrightarrow> playlist_content p rows = ts"
proof -
  assume h: "holds_tracks p rows ts"
  have m: "mset (positions p rows) = mset (numbered_from 1 ts)" using h by (simp add: holds_tracks_def)
  have "inj_on fst (set (positions p rows))"
    using numbered_sorted(2) [of 1 ts] mset_eq_setD [OF m] by (simp add: distinct_map)
  from sort_key_inj_key_eq [OF m this numbered_sorted(1)] show ?thesis by (simp add: playlist_content_def)
qed

section \<open>Renumbering a playlist\<close>

text \<open>All rows of one playlist with their positions changed by a function.\<close>

definition move_ids :: "string \<Rightarrow> (int \<Rightarrow> int) \<Rightarrow> track_row \<Rightarrow> track_row" where
  "move_ids p f r = (if tr_playlist r = p then r\<lparr>tr_id := f (tr_id r)\<rparr> else r)"

definition ids_of :: "string \<Rightarrow> track_row list \<Rightarrow> int set" where
  "ids_of p rows = fst ` set (positions p rows)"

lemma move_ids_simps [simp]:
  "tr_playlist (move_ids p f r) = tr_playlist r" "tr_media (move_ids p f r) = tr_media r"
  "tr_id (move_ids p f r) = (if tr_playlist r = p then f (tr_id r) else tr_id r)"
  by (simp_all add: move_ids_def)

lemma ids_of_iff: "i \<in> ids_of p rows \<longleftrightarrow> (\<exists>r\<in>set rows. tr_playlist r = p \<and> tr_id r = i)"
  by (auto simp: ids_of_def positions_def image_iff)

lemma ids_of_row [intro]: "r \<in> set rows \<Longrightarrow> tr_playlist r = p \<Longrightarrow> tr_id r \<in> ids_of p rows"
  by (auto simp: ids_of_iff)

lemma positions_move_ids:
  "positions p (map (move_ids p f) rows) = map (\<lambda>(i, t). (f i, t)) (positions p rows)"
  "q \<noteq> p \<Longrightarrow> positions q (map (move_ids p f) rows) = positions q rows"
  by (induction rows) (auto simp: positions_def)

lemma unique_index_move:
  "unique_index rows \<Longrightarrow> inj_on f (ids_of p rows) \<Longrightarrow> unique_index (map (move_ids p f) rows)"
  by (rule unique_index_map) (auto dest: inj_onD split: if_splits)

lemma move_ids_comp: "move_ids p f (move_ids p g r) = move_ids p (f \<circ> g) r"
  by (simp add: move_ids_def)

lemma ids_of_move: "ids_of p (map (move_ids p f) rows) = f ` ids_of p rows"
  unfolding ids_of_def positions_move_ids by force

text \<open>One statement on the rows of a playlist: it succeeds when its new positions collide with nothing.\<close>

lemma sql_update_playlist:
  assumes u: "unique_index rows"
    and inj: "inj_on (\<lambda>i. if c i then g i else i) (ids_of p rows)"
    and free: "\<And>i j. i \<in> ids_of p rows \<Longrightarrow> j \<in> ids_of p rows \<Longrightarrow> c i \<Longrightarrow> j = g i \<Longrightarrow> j = i"
  shows "sql_update (\<lambda>r. tr_playlist r = p \<and> c (tr_id r)) (\<lambda>r. g (tr_id r)) [] rows =
    Inr (map (move_ids p (\<lambda>i. if c i then g i else i)) rows)"
proof -
  let ?w = "written_row (\<lambda>r. tr_playlist r = p \<and> c (tr_id r)) (\<lambda>r. g (tr_id r))"
  have w: "map ?w rows = map (move_ids p (\<lambda>i. if c i then g i else i)) rows"
    by (simp add: written_row_def move_ids_def)
  have "sql_update (\<lambda>r. tr_playlist r = p \<and> c (tr_id r)) (\<lambda>r. g (tr_id r)) [] rows = Inr (map ?w rows)"
  proof (rule sql_update_ok [OF u])
    show "unique_index (map ?w rows)" unfolding w by (rule unique_index_move [OF u inj])
    show "\<forall>r\<in>set rows. tr_playlist r = p \<and> c (tr_id r) \<longrightarrow>
        (\<forall>s\<in>set rows. tr_playlist s = tr_playlist r \<longrightarrow> tr_id s = g (tr_id r) \<longrightarrow> s = r)"
    proof (intro ballI impI, elim conjE)
      fix r s
      assume r: "r \<in> set rows" "tr_playlist r = p" "c (tr_id r)" and s: "s \<in> set rows" "tr_playlist s = tr_playlist r" "tr_id s = g (tr_id r)"
      have "tr_id s \<in> ids_of p rows" "tr_id r \<in> ids_of p rows"
        by (rule ids_of_row, use r s in simp, use r s in simp)+
      from free [OF this(2,1) r(3) s(3)] have "tr_id s = tr_id r" .
      with u r s show "s = r" unfolding unique_index_iff by blast
    qed
  qed
  then show ?thesis unfolding w .
qed

text \<open>The same after earlier statements of the kind.\<close>

lemma sql_update_moved:
  assumes u: "unique_index rows" and inj: "inj_on f (ids_of p rows)" "inj_on f' (ids_of p rows)"
    and step: "\<And>i. i \<in> ids_of p rows \<Longrightarrow> f' i = (if c (f i) then g (f i) else f i)"
    and free: "\<And>i j. i \<in> ids_of p rows \<Longrightarrow> j \<in> ids_of p rows \<Longrightarrow> c (f i) \<Longrightarrow> f j = g (f i) \<Longrightarrow> j = i"
  shows "sql_update (\<lambda>r. tr_playlist r = p \<and> c (tr_id r)) (\<lambda>r. g (tr_id r)) [] (map (move_ids p f) rows) =
    Inr (map (move_ids p f') rows)"
proof -
  have inj2: "inj_on (\<lambda>i. if c i then g i else i) (ids_of p (map (move_ids p f) rows))"
    unfolding ids_of_move
  proof (rule inj_onI, elim imageE)
    fix x y i j
    assume "(if c x then g x else x) = (if c y then g y else y)" "x = f i" "y = f j" "i \<in> ids_of p rows" "j \<in> ids_of p rows"
    then have "f' i = f' j" unfolding step [OF \<open>i \<in> _\<close>] step [OF \<open>j \<in> _\<close>] by metis
    with inj(2) \<open>i \<in> _\<close> \<open>j \<in> _\<close> \<open>x = _\<close> \<open>y = _\<close> show "x = y" by (auto dest: inj_onD)
  qed
  have free2: "j = i" if "i \<in> ids_of p (map (move_ids p f) rows)" "j \<in> ids_of p (map (move_ids p f) rows)" "c i" "j = g i" for i j
  proof -
    from that(1,2) obtain i' j' where "i = f i'" "i' \<in> ids_of p rows" "j = f j'" "j' \<in> ids_of p rows"
      unfolding ids_of_move by blast
    with free [of i' j'] that(3,4) show ?thesis by simp
  qed
  have "sql_update (\<lambda>r. tr_playlist r = p \<and> c (tr_id r)) (\<lambda>r. g (tr_id r)) [] (map (move_ids p f) rows) =
      Inr (map (move_ids p (\<lambda>i. if c i then g i else i)) (map (move_ids p f) rows))"
    by (rule sql_update_playlist [OF unique_index_move [OF u inj(1)] inj2 free2])
  moreover have "move_ids p (\<lambda>i. if c i then g i else i) (move_ids p f r) = move_ids p f' r" if "r \<in> set rows" for r
    using step [OF ids_of_row [OF that]] by (auto simp: move_ids_def)
  ultimately show ?thesis by simp
qed

section \<open>Moving a track\<close>

text \<open>Where \<open>Reorder\<close> sends each position, and the four stages of the rows on the way.\<close>

definition moved :: "int \<Rightarrow> int \<Rightarrow> int \<Rightarrow> int" where
  "moved pos newPos i =
     (if i = pos then newPos
      else if pos < i \<and> i \<le> newPos then i - 1
      else if newPos \<le> i \<and> i < pos then i + 1 else i)"

definition shifted :: "int \<Rightarrow> int \<Rightarrow> int \<Rightarrow> bool" where
  "shifted pos newPos i \<longleftrightarrow> pos < i \<and> i \<le> newPos \<or> newPos \<le> i \<and> i < pos"

definition stage2 :: "int \<Rightarrow> int \<Rightarrow> int \<Rightarrow> int" where
  "stage2 pos newPos i = (if i = pos then sentinel else if shifted pos newPos i then - moved pos newPos i else i)"

definition stage3 :: "int \<Rightarrow> int \<Rightarrow> int \<Rightarrow> int" where
  "stage3 pos newPos i = (if i = pos then sentinel else moved pos newPos i)"

lemmas stages = moved_def shifted_def stage2_def stage3_def sentinel_def

text \<open>Positions in use: from 1, and small enough that no shifted one meets the sentinel.\<close>

definition small_ids :: "string \<Rightarrow> track_row list \<Rightarrow> bool" where
  "small_ids p rows \<longleftrightarrow> (\<forall>i\<in>ids_of p rows. 1 \<le> i \<and> i < 999998)"

lemma Reorder_moves:
  assumes u: "unique_index rows" and small: "small_ids p rows" and "1 \<le> pos" "1 \<le> newPos"
  shows "tracks_Reorder p pos newPos rows = Inr (map (move_ids p (moved pos newPos)) rows)"
proof (cases "pos = newPos")
  case True
  have "move_ids p (moved pos newPos) r = r" for r using True by (simp add: move_ids_def moved_def)
  with True show ?thesis by (simp add: tracks_Reorder_def map_idI)
next
  case False
  let ?I = "ids_of p rows"
  have I: "1 \<le> i" "i < 999998" if "i \<in> ?I" for i using small that by (auto simp: small_ids_def)
  have id: "map (move_ids p (\<lambda>i. i)) rows = rows" by (simp add: move_ids_def map_idI)
  have inj: "inj_on (\<lambda>i. i) ?I" "inj_on (\<lambda>i. if i = pos then sentinel else i) ?I" "inj_on (stage2 pos newPos) ?I"
    "inj_on (stage3 pos newPos) ?I" "inj_on (moved pos newPos) ?I"
    using I False assms(3,4) by (auto intro!: inj_onI simp: stages split: if_splits) force+
  have 1: "sql_update (\<lambda>r. tr_playlist r = p \<and> tr_id r = pos) (\<lambda>_. sentinel) [] rows =
      Inr (map (move_ids p (\<lambda>i. if i = pos then sentinel else i)) rows)"
    using sql_update_moved [OF u inj(1,2), where c = "\<lambda>i. i = pos" and g = "\<lambda>_. sentinel"] I
    unfolding id by (force simp: sentinel_def)
  have 2: "(if pos < newPos
        then sql_update (\<lambda>r. tr_playlist r = p \<and> tr_id r > pos \<and> tr_id r \<le> newPos) (\<lambda>r. - (tr_id r - 1)) []
               (map (move_ids p (\<lambda>i. if i = pos then sentinel else i)) rows)
        else sql_update (\<lambda>r. tr_playlist r = p \<and> tr_id r \<ge> newPos \<and> tr_id r < pos) (\<lambda>r. - (tr_id r + 1)) []
               (map (move_ids p (\<lambda>i. if i = pos then sentinel else i)) rows)) =
      Inr (map (move_ids p (stage2 pos newPos)) rows)"
  proof (cases "pos < newPos")
    case True
    have "sql_update (\<lambda>r. tr_playlist r = p \<and> tr_id r > pos \<and> tr_id r \<le> newPos) (\<lambda>r. - (tr_id r - 1)) []
        (map (move_ids p (\<lambda>i. if i = pos then sentinel else i)) rows) = Inr (map (move_ids p (stage2 pos newPos)) rows)"
      by (rule sql_update_moved [OF u inj(2,3), where c = "\<lambda>i. i > pos \<and> i \<le> newPos" and g = "\<lambda>i. - (i - 1)"])
        (use I assms(3,4) True in \<open>force simp: stages split: if_splits\<close>)+
    with True show ?thesis by simp
  next
    case le: False
    have "sql_update (\<lambda>r. tr_playlist r = p \<and> tr_id r \<ge> newPos \<and> tr_id r < pos) (\<lambda>r. - (tr_id r + 1)) []
        (map (move_ids p (\<lambda>i. if i = pos then sentinel else i)) rows) = Inr (map (move_ids p (stage2 pos newPos)) rows)"
      by (rule sql_update_moved [OF u inj(2,3), where c = "\<lambda>i. i \<ge> newPos \<and> i < pos" and g = "\<lambda>i. - (i + 1)"])
        (use I assms(3,4) le False in \<open>force simp: stages split: if_splits\<close>)+
    with le show ?thesis by simp
  qed
  have 3: "sql_update (\<lambda>r. tr_playlist r = p \<and> tr_id r < 0 \<and> tr_id r \<noteq> sentinel) (\<lambda>r. - tr_id r) []
      (map (move_ids p (stage2 pos newPos)) rows) = Inr (map (move_ids p (stage3 pos newPos)) rows)"
    by (rule sql_update_moved [OF u inj(3,4), where c = "\<lambda>i. i < 0 \<and> i \<noteq> sentinel" and g = "\<lambda>i. - i"])
      (use I assms(3,4) False in \<open>force simp: stages split: if_splits\<close>)+
  have 4: "sql_update (\<lambda>r. tr_playlist r = p \<and> tr_id r = sentinel) (\<lambda>_. newPos) []
      (map (move_ids p (stage3 pos newPos)) rows) = Inr (map (move_ids p (moved pos newPos)) rows)"
    by (rule sql_update_moved [OF u inj(4,5), where c = "\<lambda>i. i = sentinel" and g = "\<lambda>_. newPos"])
      (use I assms(3,4) False in \<open>force simp: stages split: if_splits\<close>)+
  from 1 2 3 4 False show ?thesis by (simp add: tracks_Reorder_def)
qed

text \<open>Moving the element at index \<open>i\<close> to index \<open>j\<close> of a list.\<close>

definition move_to :: "nat \<Rightarrow> nat \<Rightarrow> 'a list \<Rightarrow> 'a list" where
  "move_to i j xs = (let r = remove_at i xs in take j r @ xs ! i # drop j r)"

lemma move_to_right: "move_to (length a) (length a + length b) (a @ x # b @ c) = a @ b @ x # c"
  by (simp add: move_to_def Let_def remove_at_def)

lemma move_to_left: "move_to (length a + length b) (length a) (a @ b @ x # c) = a @ x # b @ c"
proof -
  have r: "remove_at (length (a @ b)) ((a @ b) @ x # c) = (a @ b) @ c" by (rule remove_at_middle)
  then show ?thesis by (simp add: move_to_def Let_def nth_append)
qed

lemma split_right:
  assumes "i < j" "j < length xs"
  obtains a x b c where "xs = a @ x # b @ c" "length a = i" "length a + length b = j"
proof
  show "xs = take i xs @ xs ! i # take (j - i) (drop (Suc i) xs) @ drop (j - i) (drop (Suc i) xs)"
    using assms by (subst append_take_drop_id, subst Cons_nth_drop_Suc) (auto simp: append_take_drop_id)
qed (use assms in auto)

lemma split_left:
  assumes "j < i" "i < length xs"
  obtains a b x c where "xs = a @ b @ x # c" "length a = j" "length a + length b = i"
proof
  have "take i xs = take j (take i xs) @ drop j (take i xs)" by (rule append_take_drop_id [symmetric])
  then have "take i xs = take j xs @ drop j (take i xs)" using assms by (simp add: min_def)
  then show "xs = take j xs @ drop j (take i xs) @ xs ! i # drop (Suc i) xs"
    using id_take_nth_drop [OF assms(2)] by (metis append.assoc)
qed (use assms in auto)

lemma mset_moved:
  assumes "i < length ts" "j < length ts"
  shows "mset (map (\<lambda>(k, t). (moved (int i + 1) (int j + 1) k, t)) (numbered_from 1 ts)) =
    mset (numbered_from 1 (move_to i j ts))"
proof -
  consider "i = j" | "i < j" | "j < i" by linarith
  then show ?thesis
  proof cases
    case 1
    have "move_to i j ts = ts" using restore_at [OF assms(1)] 1 by (simp add: move_to_def Let_def)
    moreover have "moved (int i + 1) (int j + 1) k = k" for k using 1 by (simp add: moved_def)
    ultimately show ?thesis by simp
  next
    case 2
    obtain a x b c where ts: "ts = a @ x # b @ c" and len: "length a = i" "length a + length b = j"
      using split_right [OF 2 assms(2)] by blast
    have J: "int j = int i + int (length b)" using len by simp
    have "map (\<lambda>(k, t). (moved (int i + 1) (int j + 1) k, t)) (numbered_from 1 a) = numbered_from (1 + 0) a"
      "map (\<lambda>(k, t). (moved (int i + 1) (int j + 1) k, t)) (numbered_from (int i + 2) b) = numbered_from (int i + 2 + - 1) b"
      "map (\<lambda>(k, t). (moved (int i + 1) (int j + 1) k, t)) (numbered_from (int j + 2) c) = numbered_from (int j + 2 + 0) c"
      by (rule numbered_map_same; use len in \<open>auto simp: moved_def\<close>)+
    moreover have "move_to i j ts = a @ b @ x # c" unfolding ts len [symmetric] by (rule move_to_right)
    moreover have "moved (int i + 1) (int j + 1) (int i + 1) = int j + 1" by (simp add: moved_def)
    ultimately show ?thesis
      using len(1) by (simp add: ts numbered_from_append algebra_simps J flip: mset_map)
  next
    case 3
    obtain a b x c where ts: "ts = a @ b @ x # c" and len: "length a = j" "length a + length b = i"
      using split_left [OF 3 assms(1)] by blast
    have J: "int i = int j + int (length b)" using len by simp
    have "map (\<lambda>(k, t). (moved (int i + 1) (int j + 1) k, t)) (numbered_from 1 a) = numbered_from (1 + 0) a"
      "map (\<lambda>(k, t). (moved (int i + 1) (int j + 1) k, t)) (numbered_from (int j + 1) b) = numbered_from (int j + 1 + 1) b"
      "map (\<lambda>(k, t). (moved (int i + 1) (int j + 1) k, t)) (numbered_from (int i + 2) c) = numbered_from (int i + 2 + 0) c"
      by (rule numbered_map_same; use len in \<open>auto simp: moved_def\<close>)+
    moreover have "move_to i j ts = a @ x # b @ c" unfolding ts len [symmetric] by (rule move_to_left)
    moreover have "moved (int i + 1) (int j + 1) (int i + 1) = int j + 1" by (simp add: moved_def)
    ultimately show ?thesis
      using len(1) by (simp add: ts numbered_from_append algebra_simps J flip: mset_map)
  qed
qed

lemma holds_tracks_ids: "holds_tracks p rows ts \<Longrightarrow> ids_of p rows = {1..int (length ts)}"
proof -
  assume "holds_tracks p rows ts"
  then have "ids_of p rows = fst ` set (numbered_from 1 ts)"
    by (simp add: ids_of_def holds_tracks_def) (metis mset_eq_setD)
  moreover have "fst ` set (numbered_from k ts) = {k..<k + int (length ts)}" for k
    by (induction ts arbitrary: k) auto
  ultimately show ?thesis by auto
qed

lemma Reorder_holds:
  assumes "unique_index rows" "holds_tracks p rows ts" "length ts < 999998" "i < length ts" "j < length ts"
  shows "\<exists>rows'. tracks_Reorder p (int i + 1) (int j + 1) rows = Inr rows' \<and> unique_index rows' \<and>
    holds_tracks p rows' (move_to i j ts) \<and> (\<forall>q. q \<noteq> p \<longrightarrow> positions q rows' = positions q rows)"
proof -
  let ?f = "moved (int i + 1) (int j + 1)"
  have ids: "ids_of p rows = {1..int (length ts)}" by (rule holds_tracks_ids [OF assms(2)])
  then have small: "small_ids p rows" using assms(3) by (auto simp: small_ids_def)
  have "inj_on ?f (ids_of p rows)"
    unfolding ids by (auto intro!: inj_onI simp: moved_def split: if_splits)
  from unique_index_move [OF assms(1) this] have "unique_index (map (move_ids p ?f) rows)" .
  moreover have "tracks_Reorder p (int i + 1) (int j + 1) rows = Inr (map (move_ids p ?f) rows)"
    by (rule Reorder_moves [OF assms(1) small]) auto
  moreover have "holds_tracks p (map (move_ids p ?f) rows) (move_to i j ts)"
    using assms(2) mset_moved [OF assms(4,5)]
    by (simp add: holds_tracks_def positions_move_ids(1) del: mset_map) (metis mset_map)
  ultimately show ?thesis by (auto simp: positions_move_ids(2))
qed

section \<open>Adding tracks\<close>

lemma sql_insert_ok: "unique_index (rows @ rs) \<Longrightarrow> sql_insert rs rows = Inr (rows @ rs)"
proof (induction rs arbitrary: rows)
  case (Cons r rs)
  then have "\<not> list_ex (same_key r) rows" by (auto simp: unique_index_def same_key_def list_ex_iff)
  with Cons show ?case by simp
qed simp

lemma number_from_rows: "r \<in> set (number_from p k ts) \<Longrightarrow> tr_playlist r = p \<and> k \<le> tr_id r"
  by (induction ts arbitrary: k) fastforce+

lemma unique_number_from: "unique_index (number_from p k ts)"
  by (induction ts arbitrary: k) (auto simp: unique_index_def dest: number_from_rows)

lemma positions_append: "positions q (rows @ rs) = positions q rows @ positions q rs"
  by (simp add: positions_def)

lemma positions_number_from: "positions q (number_from p k ts) = (if q = p then numbered_from k ts else [])"
  by (induction ts arbitrary: k) (auto simp: positions_def)

lemma addTracks_ok:
  assumes "unique_index rows" "\<forall>i\<in>ids_of p rows. i < k"
  shows "addTracks p k new rows = Inr (rows @ number_from p k new)" "unique_index (rows @ number_from p k new)"
proof -
  show u: "unique_index (rows @ number_from p k new)"
  proof -
    have "(tr_playlist r, tr_id r) \<noteq> (tr_playlist s, tr_id s)" if "r \<in> set rows" "s \<in> set (number_from p k new)" for r s
    proof
      assume "(tr_playlist r, tr_id r) = (tr_playlist s, tr_id s)"
      with number_from_rows [OF that(2)] have "tr_playlist r = p" "k \<le> tr_id r" by auto
      with ids_of_row [OF that(1)] assms(2) show False by force
    qed
    then show ?thesis using assms(1) unique_number_from [of p k new] by (auto simp: unique_index_def)
  qed
  show "addTracks p k new rows = Inr (rows @ number_from p k new)"
    unfolding addTracks_def by (rule sql_insert_ok [OF u])
qed

lemma foldl_max: "foldl max (i::int) is = Max (set (i # is))"
proof -
  have "(\<lambda>x s. max s x) = (max :: int \<Rightarrow> int \<Rightarrow> int)" by (intro ext) (simp add: max.commute)
  then show ?thesis by (simp only: Max.set_eq_fold foldl_conv_fold)
qed

lemma max_id_Max: "ids_of p rows \<noteq> {} \<Longrightarrow> max_id p rows = Max (ids_of p rows)"
proof -
  assume ne: "ids_of p rows \<noteq> {}"
  have ids: "ids_of p rows = set (map tr_id (filter (\<lambda>r. tr_playlist r = p) rows))" by (auto simp: ids_of_iff)
  with ne show ?thesis by (cases "map tr_id (filter (\<lambda>r. tr_playlist r = p) rows)") (auto simp: max_id_def foldl_max)
qed

lemma holds_tracks_max: "holds_tracks p rows ts \<Longrightarrow> max_id p rows = int (length ts)"
proof -
  assume h: "holds_tracks p rows ts"
  note ids = holds_tracks_ids [OF h]
  show ?thesis
  proof (cases "ts = []")
    case True
    then have "positions p rows = []" using h by (simp add: holds_tracks_def)
    then show ?thesis using True by (simp add: max_id_def positions_def)
  next
    case False
    then have "Max (ids_of p rows) = int (length ts)" unfolding ids by (intro Max_eqI) (cases ts; auto)+
    moreover have "ids_of p rows \<noteq> {}" unfolding ids using False by (cases ts) auto
    ultimately show ?thesis by (simp add: max_id_Max)
  qed
qed

lemma Add_holds:
  assumes "unique_index rows" "holds_tracks p rows ts"
  shows "\<exists>rows'. tracks_Add p new rows = Inr (int (length new), rows') \<and> unique_index rows' \<and>
    holds_tracks p rows' (ts @ new) \<and> (\<forall>q. q \<noteq> p \<longrightarrow> positions q rows' = positions q rows)"
proof (cases "new = []")
  case True
  with assms show ?thesis by (simp add: tracks_Add_def)
next
  case False
  let ?k = "int (length ts) + 1"
  have "\<forall>i\<in>ids_of p rows. i < ?k" using holds_tracks_ids [OF assms(2)] by auto
  note add = addTracks_ok [OF assms(1) this, of new]
  have "holds_tracks p (rows @ number_from p ?k new) (ts @ new)"
    using assms(2)
    by (simp add: holds_tracks_def positions_append positions_number_from numbered_from_append add.commute)
  with add False holds_tracks_max [OF assms(2)] show ?thesis
    by (auto simp: tracks_Add_def positions_append positions_number_from)
qed

lemma updatePlaylist_holds:
  assumes "unique_index rows"
  shows "\<exists>rows'. updatePlaylist p new rows = Inr rows' \<and> unique_index rows' \<and>
    holds_tracks p rows' new \<and> (\<forall>q. q \<noteq> p \<longrightarrow> positions q rows' = positions q rows)"
proof -
  let ?rows = "sql_delete (\<lambda>r. tr_playlist r = p) rows"
  have u: "unique_index ?rows" using assms by (auto simp: sql_delete_def unique_index_def distinct_map inj_on_def)
  have pos: "positions p ?rows = []" by (simp add: positions_def sql_delete_def)
  have others: "q \<noteq> p \<Longrightarrow> positions q ?rows = positions q rows" for q
    by (simp add: positions_def sql_delete_def) (metis (mono_tags, lifting) filter_cong)
  have "\<forall>i\<in>ids_of p ?rows. i < 1" by (auto simp: ids_of_def pos)
  note add = addTracks_ok [OF u this, of new]
  then show ?thesis
    using pos others by (auto simp: updatePlaylist_def holds_tracks_def positions_append positions_number_from)
qed

section \<open>Removing tracks\<close>

definition rank :: "string \<Rightarrow> track_row list \<Rightarrow> int \<Rightarrow> int" where
  "rank p rows i = 1 + int (count_if (\<lambda>s. tr_playlist s = p \<and> tr_id s < i) rows)"

lemma count_if_mono: "(\<And>x. x \<in> set xs \<Longrightarrow> P x \<Longrightarrow> Q x) \<Longrightarrow> count_if P xs \<le> count_if Q xs"
  by (induction xs) (auto simp: le_SucI)

lemma count_if_strict:
  "(\<And>x. x \<in> set xs \<Longrightarrow> P x \<Longrightarrow> Q x) \<Longrightarrow> x \<in> set xs \<Longrightarrow> Q x \<Longrightarrow> \<not> P x \<Longrightarrow> count_if P xs < count_if Q xs"
proof (induction xs)
  case (Cons y xs)
  have le: "count_if P xs \<le> count_if Q xs" by (rule count_if_mono) (use Cons(2) in auto)
  show ?case
  proof (cases "x = y")
    case True
    with Cons(4,5) le show ?thesis by simp
  next
    case False
    with Cons have "count_if P xs < count_if Q xs" by auto
    with Cons(2) [of y] show ?thesis by auto
  qed
qed simp

lemma rank_strict: "i \<in> ids_of p rows \<Longrightarrow> i < j \<Longrightarrow> rank p rows i < rank p rows j"
  by (auto simp: rank_def ids_of_iff intro!: count_if_strict)

lemma rank_inj: "inj_on (rank p rows) (ids_of p rows)"
  by (rule inj_onI) (metis rank_strict less_irrefl linorder_less_linear)

lemma renumber_moves:
  assumes u: "unique_index rows" and pos: "\<forall>i\<in>ids_of p rows. 1 \<le> i"
  shows "renumber p rows = Inr (map (move_ids p (rank p rows)) rows)"
proof -
  let ?n = "\<lambda>i::int. if i > 0 then - i else i"
  have pos_row: "0 < tr_id r" if "r \<in> set rows" "tr_playlist r = p" for r
    using pos ids_of_row [OF that] by force
  have inj: "inj_on ?n (ids_of p rows)"
  proof (rule inj_onI)
    fix x y assume "x \<in> ids_of p rows" "y \<in> ids_of p rows" and eq: "?n x = ?n y"
    then have "1 \<le> x" "1 \<le> y" using pos by auto
    with eq show "x = y" by simp
  qed
  have 1: "sql_update (\<lambda>r. tr_playlist r = p \<and> tr_id r > 0) (\<lambda>r. - tr_id r) [] rows = Inr (map (move_ids p ?n) rows)"
    by (rule sql_update_playlist [OF u inj]) (use pos in force)
  let ?rows = "map (move_ids p ?n) rows"
  let ?g = "\<lambda>x. 1 + int (count_if (\<lambda>s. tr_playlist s = p \<and> x < tr_id s) ?rows)"
  have g: "?g (?n i) = rank p rows i" if "i \<in> ids_of p rows" for i
  proof -
    have "count_if (\<lambda>s. tr_playlist s = p \<and> - i < tr_id s) ?rows = count_if (\<lambda>s. tr_playlist s = p \<and> tr_id s < i) rows"
      unfolding count_if_def filter_map length_map comp_def
      by (intro arg_cong [where f = length] filter_cong refl) (use pos_row in auto)
    with that pos show ?thesis by (auto simp: rank_def)
  qed
  have "sql_update (\<lambda>r. tr_playlist r = p \<and> True) (\<lambda>r. ?g (tr_id r)) [] ?rows = Inr (map (move_ids p (rank p rows)) rows)"
  proof (rule sql_update_moved [OF u inj rank_inj, where c = "\<lambda>_. True" and g = ?g])
    fix i j
    assume "i \<in> ids_of p rows" "j \<in> ids_of p rows" and eq: "?n j = ?g (?n i)"
    then have "1 \<le> j" using pos by auto
    then have "?n j < 0" by simp
    moreover have "?g (?n i) \<ge> 1" by simp
    ultimately show "j = i" using eq by linarith
  qed (use g in simp)
  with 1 show ?thesis by (simp add: renumber_def row_number_def [abs_def])
qed

lemma numbered_from_nth: "n < length ts \<Longrightarrow> numbered_from k ts ! n = (k + int n, ts ! n)"
  by (induction ts arbitrary: k n) (auto simp: nth_Cons split: nat.split)

lemma length_numbered_from [simp]: "length (numbered_from k ts) = length ts"
  by (induction ts arbitrary: k) auto

lemma filter_smaller:
  assumes "sorted_wrt (<) (map fst s)" "n < length s"
  shows "filter (\<lambda>x. fst x < (fst (s ! n) :: int)) s = take n s"
proof -
  have less: "fst (s ! a) < fst (s ! b)" if "a < b" "b < length s" for a b
    using sorted_wrt_nth_less [OF assms(1)] that by simp
  have lt: "fst x < fst (s ! n)" if x: "x \<in> set (take n s)" for x
  proof -
    obtain m where "m < n" "x = s ! m" using x assms(2) by (auto simp: in_set_conv_nth)
    with less [of m n] assms(2) show ?thesis by simp
  qed
  have ge: "\<not> fst x < fst (s ! n)" if x: "x \<in> set (drop n s)" for x
  proof -
    obtain m where m: "m < length s - n" "x = s ! (n + m)" using x by (auto simp: in_set_conv_nth)
    then have "n + m < length s" by simp
    with m(2) less [of n "n + m"] show ?thesis by (cases m) auto
  qed
  have "filter (\<lambda>x. fst x < fst (s ! n)) (take n s @ drop n s) = take n s"
    unfolding filter_append using lt ge by (auto simp: filter_id_conv filter_empty_conv)
  then show ?thesis by simp
qed

lemma rank_numbers:
  assumes u: "unique_index rows"
  shows "mset (map (\<lambda>(i, t). (rank p rows i, t)) (positions p rows)) = mset (numbered_from 1 (playlist_content p rows))"
proof -
  define s where "s = sort_key fst (positions p rows)"
  have "distinct (map fst (positions p rows))"
    using u by (auto simp: positions_def unique_index_def distinct_map inj_on_def)
  then have "distinct (map fst s)" by (simp add: s_def distinct_map)
  moreover have "sorted (map fst s)" by (simp add: s_def)
  ultimately have strict: "sorted_wrt (<) (map fst s)" by (simp add: strict_sorted_iff)
  have m: "mset s = mset (positions p rows)" by (simp add: s_def)
  have count: "rank p rows i = 1 + int (length (filter (\<lambda>x. fst x < i) s))" for i
  proof -
    have "mset (filter (\<lambda>x. fst x < i) s) = mset (filter (\<lambda>x. fst x < i) (positions p rows))"
      by (simp add: m)
    then have "length (filter (\<lambda>x. fst x < i) s) = length (filter (\<lambda>x. fst x < i) (positions p rows))"
      by (rule mset_eq_length)
    also have "filter (\<lambda>x. fst x < i) (positions p rows) =
        map (\<lambda>r. (tr_id r, tr_media r)) (filter (\<lambda>r. tr_playlist r = p \<and> tr_id r < i) rows)"
      by (simp add: positions_def filter_map comp_def conj_commute)
    finally show ?thesis by (simp add: rank_def count_if_def)
  qed
  have "map (\<lambda>(i, t). (rank p rows i, t)) s = numbered_from 1 (map snd s)"
  proof (rule nth_equalityI)
    fix n assume "n < length (map (\<lambda>(i, t). (rank p rows i, t)) s)"
    then have n: "n < length s" by simp
    with filter_smaller [OF strict n] show "map (\<lambda>(i, t). (rank p rows i, t)) s ! n = numbered_from 1 (map snd s) ! n"
      by (simp add: numbered_from_nth count case_prod_beta)
  qed simp
  then show ?thesis by (simp add: playlist_content_def flip: s_def m mset_map) (metis m mset_map)
qed

text \<open>The tracks whose positions, counted from 1, are not in the list.\<close>

definition without_positions :: "int list \<Rightarrow> string list \<Rightarrow> string list" where
  "without_positions ids ts = map snd (filter (\<lambda>x. fst x \<notin> set ids) (numbered_from 1 ts))"

lemma renumber_holds:
  assumes "unique_index rows" "\<forall>i\<in>ids_of p rows. 1 \<le> i"
  shows "\<exists>rows'. renumber p rows = Inr rows' \<and> unique_index rows' \<and>
    holds_tracks p rows' (playlist_content p rows) \<and> (\<forall>q. q \<noteq> p \<longrightarrow> positions q rows' = positions q rows)"
  using renumber_moves [OF assms] unique_index_move [OF assms(1) rank_inj] rank_numbers [OF assms(1)]
  by (simp add: holds_tracks_def positions_move_ids del: mset_map)

lemma Delete_holds:
  assumes "unique_index rows" "holds_tracks p rows ts"
  shows "\<exists>rows'. tracks_Delete p ids rows = Inr rows' \<and> unique_index rows' \<and>
    holds_tracks p rows' (without_positions ids ts) \<and> (\<forall>q. q \<noteq> p \<longrightarrow> positions q rows' = positions q rows)"
proof -
  let ?rows = "sql_delete (\<lambda>r. tr_playlist r = p \<and> tr_id r \<in> set ids) rows"
  have u: "unique_index ?rows" using assms(1) by (auto simp: sql_delete_def unique_index_def distinct_map inj_on_def)
  have pos: "positions p ?rows = filter (\<lambda>x. fst x \<notin> set ids) (positions p rows)"
    by (induction rows) (auto simp: positions_def sql_delete_def)
  have others: "positions q ?rows = positions q rows" if "q \<noteq> p" for q
    using that by (induction rows) (auto simp: positions_def sql_delete_def)
  have "ids_of p ?rows \<subseteq> ids_of p rows" by (auto simp: ids_of_def pos)
  then have "\<forall>i\<in>ids_of p ?rows. 1 \<le> i" using holds_tracks_ids [OF assms(2)] by auto
  note ren = renumber_holds [OF u this]
  have "mset (positions p rows) = mset (numbered_from 1 ts)" using assms(2) by (simp add: holds_tracks_def)
  moreover from this have "inj_on fst (set (positions p rows))"
    using numbered_sorted(2) [of 1 ts] mset_eq_setD by (metis distinct_map)
  ultimately have sorted: "sort_key fst (positions p rows) = numbered_from 1 ts"
    by (rule sort_key_inj_key_eq [OF _ _ numbered_sorted(1)])
  have "playlist_content p ?rows = without_positions ids ts"
    unfolding playlist_content_def pos without_positions_def sorted [symmetric] by (simp add: filter_sort)
  with ren others show ?thesis by (auto simp: tracks_Delete_def)
qed

lemma DeleteAll_holds:
  assumes "unique_index rows"
  shows "\<exists>rows'. tracks_DeleteAll p rows = Inr rows' \<and> unique_index rows' \<and> holds_tracks p rows' [] \<and>
    (\<forall>q. q \<noteq> p \<longrightarrow> positions q rows' = positions q rows)"
proof -
  let ?rows = "sql_delete (\<lambda>r. tr_playlist r = p) rows"
  have u: "unique_index ?rows" using assms by (auto simp: sql_delete_def unique_index_def distinct_map inj_on_def)
  have pos: "positions p ?rows = []" by (simp add: positions_def sql_delete_def)
  have others: "positions q ?rows = positions q rows" if "q \<noteq> p" for q
    using that by (induction rows) (auto simp: positions_def sql_delete_def)
  have "\<forall>i\<in>ids_of p ?rows. 1 \<le> i" by (auto simp: ids_of_def pos)
  from renumber_holds [OF u this] others pos show ?thesis
    by (auto simp: tracks_DeleteAll_def playlist_content_def)
qed

section \<open>The contract of a track store\<close>

text \<open>
  What the playlist service relies on: each operation is the corresponding operation on the list of
  tracks of one playlist and leaves the other playlists alone.
\<close>

locale track_store =
  fixes ok :: "'s \<Rightarrow> bool" and holds :: "string \<Rightarrow> 's \<Rightarrow> string list \<Rightarrow> bool" and limit :: nat
    and add :: "string \<Rightarrow> string list \<Rightarrow> 's \<Rightarrow> 'e + int \<times> 's"
    and remove :: "string \<Rightarrow> int list \<Rightarrow> 's \<Rightarrow> 'e + 's"
    and reorder :: "string \<Rightarrow> int \<Rightarrow> int \<Rightarrow> 's \<Rightarrow> 'e + 's"
    and replace :: "string \<Rightarrow> string list \<Rightarrow> 's \<Rightarrow> 'e + 's"
  assumes add_law: "ok s \<Longrightarrow> holds p s ts \<Longrightarrow>
      \<exists>s'. add p new s = Inr (int (length new), s') \<and> ok s' \<and> holds p s' (ts @ new) \<and>
        (\<forall>q us. q \<noteq> p \<longrightarrow> holds q s us \<longrightarrow> holds q s' us)"
    and remove_law: "ok s \<Longrightarrow> holds p s ts \<Longrightarrow>
      \<exists>s'. remove p ids s = Inr s' \<and> ok s' \<and> holds p s' (without_positions ids ts) \<and>
        (\<forall>q us. q \<noteq> p \<longrightarrow> holds q s us \<longrightarrow> holds q s' us)"
    and reorder_law: "ok s \<Longrightarrow> holds p s ts \<Longrightarrow> length ts < limit \<Longrightarrow> i < length ts \<Longrightarrow> j < length ts \<Longrightarrow>
      \<exists>s'. reorder p (int i + 1) (int j + 1) s = Inr s' \<and> ok s' \<and> holds p s' (move_to i j ts) \<and>
        (\<forall>q us. q \<noteq> p \<longrightarrow> holds q s us \<longrightarrow> holds q s' us)"
    and replace_law: "ok s \<Longrightarrow>
      \<exists>s'. replace p new s = Inr s' \<and> ok s' \<and> holds p s' new \<and> (\<forall>q us. q \<noteq> p \<longrightarrow> holds q s us \<longrightarrow> holds q s' us)"
begin

text \<open>The combined update of \<open>updatePlaylist\<close>: removals are by the positions before the additions.\<close>

lemma remove_then_add:
  assumes "ok s" "holds p s ts"
  shows "\<exists>s1 s2. remove p ids s = Inr s1 \<and> add p new s1 = Inr (int (length new), s2) \<and> ok s2 \<and>
    holds p s2 (without_positions ids ts @ new) \<and> (\<forall>q us. q \<noteq> p \<longrightarrow> holds q s us \<longrightarrow> holds q s2 us)"
proof -
  obtain s1 where s1: "remove p ids s = Inr s1" "ok s1" "holds p s1 (without_positions ids ts)"
    "\<forall>q us. q \<noteq> p \<longrightarrow> holds q s us \<longrightarrow> holds q s1 us"
    using remove_law [OF assms, of ids] by blast
  obtain s2 where s2: "add p new s1 = Inr (int (length new), s2)" "ok s2" "holds p s2 (without_positions ids ts @ new)"
    "\<forall>q us. q \<noteq> p \<longrightarrow> holds q s1 us \<longrightarrow> holds q s2 us"
    using add_law [OF s1(2,3), of new] by blast
  show ?thesis using s1 s2 by blast
qed

end

interpretation rows: track_store unique_index holds_tracks 999998 tracks_Add tracks_Delete tracks_Reorder updatePlaylist
proof
  show "\<exists>s'. tracks_Add p new s = Inr (int (length new), s') \<and> unique_index s' \<and> holds_tracks p s' (ts @ new) \<and>
      (\<forall>q us. q \<noteq> p \<longrightarrow> holds_tracks q s us \<longrightarrow> holds_tracks q s' us)"
    if "unique_index s" "holds_tracks p s ts" for s p ts new
    using Add_holds [OF that, of new] by (auto simp: holds_tracks_def)
  show "\<exists>s'. tracks_Delete p ids s = Inr s' \<and> unique_index s' \<and> holds_tracks p s' (without_positions ids ts) \<and>
      (\<forall>q us. q \<noteq> p \<longrightarrow> holds_tracks q s us \<longrightarrow> holds_tracks q s' us)"
    if "unique_index s" "holds_tracks p s ts" for s p ts ids
    using Delete_holds [OF that, of ids] by (auto simp: holds_tracks_def)
  show "\<exists>s'. tracks_Reorder p (int i + 1) (int j + 1) s = Inr s' \<and> unique_index s' \<and> holds_tracks p s' (move_to i j ts) \<and>
      (\<forall>q us. q \<noteq> p \<longrightarrow> holds_tracks q s us \<longrightarrow> holds_tracks q s' us)"
    if "unique_index s" "holds_tracks p s ts" "length ts < 999998" "i < length ts" "j < length ts" for s p ts i j
    using Reorder_holds [OF that] by (auto simp: holds_tracks_def)
  show "\<exists>s'. updatePlaylist p new s = Inr s' \<and> unique_index s' \<and> holds_tracks p s' new \<and>
      (\<forall>q us. q \<noteq> p \<longrightarrow> holds_tracks q s us \<longrightarrow> holds_tracks q s' us)"
    if "unique_index s" for s p new
    using updatePlaylist_holds [OF that, of p new] by (auto simp: holds_tracks_def)
qed

section \<open>Properties\<close>


definition sample_rows :: "track_row list" where
  "sample_rows = [\<lparr>tr_playlist = ''p'', tr_id = 3, tr_media = ''c''\<rparr>, \<lparr>tr_playlist = ''q'', tr_id = 1, tr_media = ''a''\<rparr>,
     \<lparr>tr_playlist = ''p'', tr_id = 1, tr_media = ''a''\<rparr>, \<lparr>tr_playlist = ''p'', tr_id = 2, tr_media = ''b''\<rparr>]"


text \<open>
  \<open>Reorder\<close> does not check its positions. A move from a position that does not exist shifts the others
  and leaves a hole; one beyond the end leaves a hole before the moved track. Removal by index, which
  takes index plus one for the position, then misses its track.
\<close>

lemma reorder_out_of_range_leaves_hole:
  "map_sum id (\<lambda>rows. sort (map tr_id (filter (\<lambda>r. tr_playlist r = ''p'') rows))) (tracks_Reorder ''p'' 1 9 sample_rows) = Inr [1, 2, 9]"
  "map_sum id (\<lambda>rows. sort (map tr_id (filter (\<lambda>r. tr_playlist r = ''p'') rows))) (tracks_Reorder ''p'' 7 2 sample_rows) = Inr [1, 3, 4]"
  by code_simp+

end
