(* ===== verification/Utils_Duration.thy ===== *)
theory Utils_Duration
  imports Go_Strings
begin

text \<open>
  Durations as text (\<open>utils/time.go\<close>): \<open>ParseDuration\<close> and \<open>FormatDuration\<close>, which add days and weeks to
  the units of Go's \<open>time\<close> package. That package's \<open>ParseDuration\<close> and \<open>Duration.String\<close> are modelled
  here as well; its and \<open>strconv\<close>'s arithmetic on \<open>float64\<close> is the argument \<open>fl\<close>.
\<close>

record DurationFloats =
  df_hours :: "string \<Rightarrow> nat \<Rightarrow> string option" \<comment> \<open>the text of \<open>ParseFloat(text) * factor\<close>, written with \<open>FormatFloat(\<dots>, 'f', -1, 64)\<close>\<close>
  df_frac :: "nat \<Rightarrow> nat \<Rightarrow> nat \<Rightarrow> nat" \<comment> \<open>\<open>uint64(float64(f) * (float64(unit) / scale))\<close>\<close>

section \<open>Go's durations\<close>

definition digit_val :: "char \<Rightarrow> nat" where "digit_val c = byte c - 48"

fun leadingInt :: "nat \<Rightarrow> string \<Rightarrow> (nat \<times> string) option" where
  "leadingInt x [] = Some (x, [])"
| "leadingInt x (c # s) =
     (if \<not> is_digit c then Some (x, c # s)
      else if x > 2 ^ 63 div 10 then None
      else (let y = x * 10 + digit_val c in if y > 2 ^ 63 then None else leadingInt y s))"

fun leadingFraction :: "nat \<Rightarrow> nat \<Rightarrow> bool \<Rightarrow> string \<Rightarrow> nat \<times> nat \<times> string" where
  "leadingFraction x scale overflow [] = (x, scale, [])"
| "leadingFraction x scale overflow (c # s) =
     (if \<not> is_digit c then (x, scale, c # s)
      else if overflow \<or> x > (2 ^ 63 - 1) div 10 then leadingFraction x scale True s
      else (let y = x * 10 + digit_val c
            in if y > 2 ^ 63 then leadingFraction x scale True s else leadingFraction y (scale * 10) False s))"

definition unit_char :: "char \<Rightarrow> bool" where "unit_char c \<longleftrightarrow> c \<noteq> CHR ''.'' \<and> \<not> is_digit c"

definition unitMap :: "string \<Rightarrow> nat option" where
  "unitMap = map_of [(''ns'', 1), (''us'', 1000), ([CHR 0xC2, CHR 0xB5, CHR ''s''], 1000),
     ([CHR 0xCE, CHR 0xBC, CHR ''s''], 1000), (''ms'', 1000000), (''s'', 1000000000),
     (''m'', 60000000000), (''h'', 3600000000000)]"

text \<open>One number with its unit: its value and the rest of the text.\<close>

definition duration_part :: "DurationFloats \<Rightarrow> string \<Rightarrow> (nat \<times> string) option" where
  "duration_part fl s =
     (case leadingInt 0 s of
        None \<Rightarrow> None
      | Some (v, s1) \<Rightarrow>
          (let pre = (length s1 \<noteq> length s);
               (f, scale, s2) = (case s1 of c # r \<Rightarrow> if c = CHR ''.'' then leadingFraction 0 1 False r else (0, 1, s1) | [] \<Rightarrow> (0, 1, s1));
               post = (case s1 of c # r \<Rightarrow> c = CHR ''.'' \<and> length s2 \<noteq> length r | [] \<Rightarrow> False);
               u = takeWhile unit_char s2
           in if \<not> pre \<and> \<not> post \<or> u = [] then None
              else case unitMap u of
                  None \<Rightarrow> None
                | Some unit \<Rightarrow>
                    if v > 2 ^ 63 div unit then None
                    else (let w = v * unit + (if f > 0 then df_frac fl f unit scale else 0)
                          in if f > 0 \<and> w > 2 ^ 63 then None else Some (w, dropWhile unit_char s2))))"

lemma leadingInt_length: "leadingInt x s = Some (v, r) \<Longrightarrow> length r \<le> length s"
  by (induction x s rule: leadingInt.induct) (auto simp: Let_def split: if_splits)

lemma leadingFraction_length: "leadingFraction x sc ov s = (f, sc', r) \<Longrightarrow> length r \<le> length s"
  by (induction x sc ov s rule: leadingFraction.induct) (auto simp: Let_def split: if_splits)

lemma duration_part_shorter: "duration_part fl s = Some (w, r) \<Longrightarrow> length r < length s"
proof -
  assume d: "duration_part fl s = Some (w, r)"
  then obtain v s1 where s1: "leadingInt 0 s = Some (v, s1)" by (auto simp: duration_part_def split: option.splits)
  obtain f scale s2 where f: "(case s1 of c # r \<Rightarrow> if c = CHR ''.'' then leadingFraction 0 1 False r else (0, 1, s1) | [] \<Rightarrow> (0, 1, s1)) = (f, scale, s2)"
    by (metis prod_cases3)
  have "length s2 \<le> length s1" using f leadingFraction_length by (fastforce split: list.splits if_splits)
  moreover have "r = dropWhile unit_char s2" "takeWhile unit_char s2 \<noteq> []"
    using d by (auto simp: duration_part_def s1 f Let_def split: option.splits if_splits)
  moreover have "length (takeWhile unit_char s2) + length (dropWhile unit_char s2) = length s2"
    by (metis length_append takeWhile_dropWhile_id)
  ultimately show ?thesis using leadingInt_length [OF s1] by (auto simp: length_greater_0_conv [symmetric] simp del: length_greater_0_conv)
qed

function duration_parts :: "DurationFloats \<Rightarrow> nat \<Rightarrow> string \<Rightarrow> nat option" where
  "duration_parts fl d s =
     (if s = [] then Some d
      else case duration_part fl s of
          None \<Rightarrow> None
        | Some (w, r) \<Rightarrow> (let d' = (d + w) mod 2 ^ 64 in if d' > 2 ^ 63 then None else duration_parts fl d' r))"
  by pat_completeness auto
termination
  by (relation "measure (\<lambda>(_, _, s). length s)") (auto dest: duration_part_shorter)

declare duration_parts.simps [simp del]

definition time_ParseDuration :: "DurationFloats \<Rightarrow> string \<Rightarrow> int option" where
  "time_ParseDuration fl s0 =
     (let neg = (case s0 of c # _ \<Rightarrow> c = CHR ''-'' | [] \<Rightarrow> False);
          s = (case s0 of c # r \<Rightarrow> if c = CHR ''-'' \<or> c = CHR ''+'' then r else s0 | [] \<Rightarrow> s0)
      in if s = ''0'' then Some 0
         else if s = [] then None
         else case duration_parts fl 0 s of
             None \<Rightarrow> None
           | Some d \<Rightarrow> if neg then Some (- int d) else if d > 2 ^ 63 - 1 then None else Some (int d))"

text \<open>\<open>fmtFrac\<close>: the last \<open>prec\<close> digits of \<open>v\<close> as a fraction without trailing zeros, and the rest of \<open>v\<close>.\<close>

fun fmtFrac :: "nat \<Rightarrow> nat \<Rightarrow> bool \<Rightarrow> string \<Rightarrow> string \<times> nat" where
  "fmtFrac 0 v print acc = (if print then CHR ''.'' # acc else acc, v)"
| "fmtFrac (Suc prec) v print acc =
     (let digit = v mod 10; print' = (print \<or> digit \<noteq> 0)
      in fmtFrac prec (v div 10) print' (if print' then char_of (48 + digit) # acc else acc))"

definition with_frac :: "nat \<Rightarrow> nat \<Rightarrow> string \<Rightarrow> string" where
  "with_frac prec u unit = (let (frac, v) = fmtFrac prec u False [] in nat_digits v @ frac @ unit)"

definition Duration_String :: "int \<Rightarrow> string" where
  "Duration_String d =
     (let u = nat \<bar>d\<bar>;
          body =
            (if u = 0 then ''0s''
             else if u < 1000 then nat_digits u @ ''ns''
             else if u < 1000000 then with_frac 3 u [CHR 0xC2, CHR 0xB5, CHR ''s'']
             else if u < 1000000000 then with_frac 6 u ''ms''
             else
               (let (frac, secs) = fmtFrac 9 u False [];
                    mins = secs div 60; hours = mins div 60
                in (if hours > 0 then nat_digits hours @ ''h'' else []) @
                   (if mins > 0 then nat_digits (mins mod 60) @ ''m'' else []) @
                   nat_digits (secs mod 60) @ frac @ ''s''))
      in if d < 0 then CHR ''-'' # body else body)"

section \<open>Days and weeks\<close>

text \<open>A match of \<open>-?\d+(?:\.\d+)?[dw]\<close> at the start of a text: the number, the unit and the rest.\<close>

definition opt_minus :: "string \<Rightarrow> string \<times> string" where
  "opt_minus s = (if HasPrefix s ''-'' then (''-'', tl s) else ([], s))"

definition opt_fraction :: "string \<Rightarrow> string \<times> string" where
  "opt_fraction s =
     (case s of
        c # q \<Rightarrow> if c = CHR ''.'' \<and> takeWhile is_digit q \<noteq> [] then (c # takeWhile is_digit q, dropWhile is_digit q) else ([], s)
      | [] \<Rightarrow> ([], s))"

definition match_day_week :: "string \<Rightarrow> (string \<times> char \<times> string) option" where
  "match_day_week s =
     (let (sign, s1) = opt_minus s;
          ds = takeWhile is_digit s1;
          (fs, s2) = opt_fraction (dropWhile is_digit s1)
      in if ds = [] then None
         else case s2 of c # r \<Rightarrow> if c = CHR ''d'' \<or> c = CHR ''w'' then Some (sign @ ds @ fs, c, r) else None | [] \<Rightarrow> None)"

lemma match_day_week_Some:
  assumes "match_day_week s = Some (t, c, r)"
  shows "s = t @ c # r" "c = CHR ''d'' \<or> c = CHR ''w''"
proof -
  obtain sign s1 where s1: "opt_minus s = (sign, s1)" by fastforce
  obtain fs s2 where s2: "opt_fraction (dropWhile is_digit s1) = (fs, s2)" by fastforce
  have "s = sign @ s1"
    using s1 by (cases s) (auto simp: opt_minus_def HasPrefix_def split: if_splits)
  moreover have "dropWhile is_digit s1 = fs @ s2"
    using s2 by (auto simp: opt_fraction_def split: list.splits if_splits)
  then have "s1 = takeWhile is_digit s1 @ fs @ s2" by (metis takeWhile_dropWhile_id)
  moreover have "s2 = c # r" "t = sign @ takeWhile is_digit s1 @ fs" "c = CHR ''d'' \<or> c = CHR ''w''"
    using assms by (auto simp: match_day_week_def s1 s2 Let_def split: list.splits if_splits)
  ultimately show "s = t @ c # r" "c = CHR ''d'' \<or> c = CHR ''w''" by simp_all
qed

function expand_day_week :: "DurationFloats \<Rightarrow> string \<Rightarrow> string" where
  "expand_day_week fl [] = []"
| "expand_day_week fl (c # s) =
     (case match_day_week (c # s) of
        None \<Rightarrow> c # expand_day_week fl s
      | Some (num, unit, r) \<Rightarrow>
          (case df_hours fl num (if unit = CHR ''w'' then 24 * 7 else 24) of
             None \<Rightarrow> num @ [unit] | Some h \<Rightarrow> h @ ''h'') @ expand_day_week fl r)"
  by pat_completeness auto
termination
  by (relation "measure (\<lambda>(_, s). length s)") (auto dest!: match_day_week_Some(1) arg_cong [of _ _ length])

datatype duration_error = InvalidDuration string | NegativeDuration string

definition ParseDuration :: "DurationFloats \<Rightarrow> string \<Rightarrow> duration_error + time_ns" where
  "ParseDuration fl s =
     (case time_ParseDuration fl (expand_day_week fl s) of
        None \<Rightarrow> Inl (InvalidDuration s)
      | Some d \<Rightarrow> if d < 0 then Inl (NegativeDuration s) else Inr d)"

definition hour_ns :: int where "hour_ns = 3600000000000"

definition formatSubDay :: "time_ns \<Rightarrow> string" where
  "formatSubDay d = (if d \<ge> hour_ns \<and> d mod hour_ns = 0 then Itoa (d div hour_ns) @ ''h'' else Duration_String d)"

definition FormatDuration :: "time_ns \<Rightarrow> string" where
  "FormatDuration d =
     (if d < 24 * hour_ns then formatSubDay d
      else
        (let weekDuration = 7 * 24 * hour_ns; weeks = d div weekDuration;
             d1 = (if weeks > 0 then d mod weekDuration else d);
             dayDuration = 24 * hour_ns; days = d1 div dayDuration;
             d2 = (if days > 0 then d1 mod dayDuration else d1)
         in (if weeks > 0 then Itoa weeks @ ''w'' else []) @ (if days > 0 then Itoa days @ ''d'' else []) @
            (if d2 > 0 then formatSubDay d2 else [])))"

section \<open>Round trip\<close>

text \<open>The arithmetic on \<open>float64\<close> is exact on whole numbers of weeks and days, and on fractions that are whole nanoseconds.\<close>

definition exact_floats :: "DurationFloats \<Rightarrow> bool" where
  "exact_floats fl \<longleftrightarrow>
     (\<forall>n k. k \<le> 168 \<and> n * k < 2 ^ 53 \<longrightarrow> df_hours fl (nat_digits n) k = Some (nat_digits (n * k))) \<and>
     (\<forall>f unit scale. scale dvd unit \<and> 0 < scale \<and> f < scale \<and> unit < 2 ^ 53 \<longrightarrow> df_frac fl f unit scale = f * (unit div scale))"

lemma leadingInt_digits:
  assumes "list_all is_digit ds" "digits_value (int x) ds = Some (int v)" "v \<le> 2 ^ 63" "r = [] \<or> \<not> is_digit (hd r)"
  shows "leadingInt x (ds @ r) = Some (v, r)"
  using assms
proof (induction ds arbitrary: x)
  case Nil
  then show ?case by (cases r) auto
next
  case (Cons c ds)
  let ?y = "x * 10 + digit_val c"
  have c: "is_digit c" "48 \<le> byte c" using Cons(2) by (auto simp: is_digit_def)
  have y: "digits_value (int ?y) ds = Some (int v)"
    using Cons(3) c by (simp add: digit_val_def of_nat_diff algebra_simps)
  then have "?y \<le> v" using digits_value_nonneg [of "int ?y" ds "int v"] by simp
  with Cons(4) have "?y \<le> 2 ^ 63" by simp
  moreover from this have "x \<le> 2 ^ 63 div 10" by simp
  ultimately show ?case using Cons y c by simp
qed

lemma leadingFraction_digits:
  assumes "list_all is_digit ds" "digits_value (int x) ds = Some (int v)" "v < 10 ^ 9" "r = [] \<or> \<not> is_digit (hd r)"
  shows "leadingFraction x sc False (ds @ r) = (v, sc * 10 ^ length ds, r)"
  using assms
proof (induction ds arbitrary: x sc)
  case Nil
  then show ?case by (cases r) auto
next
  case (Cons c ds)
  let ?y = "x * 10 + digit_val c"
  have c: "is_digit c" "48 \<le> byte c" using Cons(2) by (auto simp: is_digit_def)
  have y: "digits_value (int ?y) ds = Some (int v)"
    using Cons(3) c by (simp add: digit_val_def of_nat_diff algebra_simps)
  then have "?y \<le> v" using digits_value_nonneg [of "int ?y" ds "int v"] by simp
  with Cons(4) have "?y \<le> 2 ^ 63" "x \<le> (2 ^ 63 - 1) div 10" by simp_all
  then show ?case using Cons y c by simp
qed

text \<open>The fraction \<open>fmtFrac\<close> writes: no digit, or the digits of the remainder without its trailing zeros.\<close>

definition fraction_text :: "nat \<Rightarrow> nat \<Rightarrow> string \<Rightarrow> bool" where
  "fraction_text prec n t \<longleftrightarrow>
     t = [] \<and> n = 0 \<or>
     (\<exists>ds m k. t = CHR ''.'' # ds \<and> ds \<noteq> [] \<and> list_all is_digit ds \<and> length ds + k = prec \<and>
        digits_value 0 ds = Some (int m) \<and> m * 10 ^ k = n)"

lemma fmtFrac_spec:
  "\<exists>ds m k. fmtFrac p v (acc \<noteq> []) acc = (if ds @ acc = [] then [] else CHR ''.'' # ds @ acc, v div 10 ^ p) \<and>
     length ds + k = p \<and> list_all is_digit ds \<and> digits_value 0 ds = Some (int m) \<and> m * 10 ^ k = v mod 10 ^ p \<and>
     (acc \<noteq> [] \<longrightarrow> k = 0)"
proof (induction p arbitrary: v acc)
  case 0
  then show ?case by (intro exI [of _ "[]"] exI [of _ 0]) auto
next
  case (Suc p)
  have div: "v div 10 div 10 ^ p = v div 10 ^ Suc p" by (simp add: div_mult2_eq)
  have modv: "v mod 10 ^ Suc p = 10 * (v div 10 mod 10 ^ p) + v mod 10" by (simp add: mod_mult2_eq)
  show ?case
  proof (cases "acc = [] \<and> v mod 10 = 0")
    case True
    obtain ds m k where "fmtFrac p (v div 10) False [] = (if ds = [] then [] else CHR ''.'' # ds, v div 10 div 10 ^ p)"
      "length ds + k = p" "list_all is_digit ds" "digits_value 0 ds = Some (int m)" "m * 10 ^ k = v div 10 mod 10 ^ p"
      using Suc [of "v div 10" "[]"] unfolding append_Nil2 by auto
    then show ?thesis
      using True div modv by (intro exI [of _ ds] exI [of _ m] exI [of _ "Suc k"]) auto
  next
    case False
    let ?c = "char_of (48 + v mod 10) :: char"
    obtain ds m where f: "fmtFrac p (v div 10) True (?c # acc) = (CHR ''.'' # ds @ ?c # acc, v div 10 div 10 ^ p)"
      and m: "length ds = p" "list_all is_digit ds" "digits_value 0 ds = Some (int m)" "m = v div 10 mod 10 ^ p"
      using Suc [of "v div 10" "?c # acc"] by auto
    have "is_digit ?c" "int (byte ?c) = 48 + int (v mod 10)"
      by (simp_all add: is_digit_def byte_digit)
    moreover have "((acc \<noteq> []) \<or> v mod 10 \<noteq> 0) = True" using False by auto
    ultimately show ?thesis
      using f m div modv
      by (intro exI [of _ "ds @ [?c]"] exI [of _ "10 * m + v mod 10"] exI [of _ 0])
        (auto simp: Let_def digits_value_append)
  qed
qed

lemma fmtFrac_text:
  "fmtFrac p v False [] = (t, w) \<Longrightarrow> fraction_text p (v mod 10 ^ p) t \<and> w = v div 10 ^ p"
  using fmtFrac_spec [of p v "[]"] by (fastforce simp: fraction_text_def)

lemma not_unit_char: "is_digit c \<Longrightarrow> \<not> unit_char c" "\<not> unit_char (CHR ''.'')" "\<not> is_digit (CHR ''.'')"
  by (simp_all add: unit_char_def is_digit_def byte_def)

lemma take_unit:
  assumes "list_all unit_char u" "r = [] \<or> is_digit (hd r)"
  shows "takeWhile unit_char (u @ r) = u" "dropWhile unit_char (u @ r) = r"
  using assms by (cases r; auto simp: list_all_iff takeWhile_append2 dropWhile_append2 not_unit_char)+

lemma digits_value_bound: "digits_value (int x) ds = Some (int v) \<Longrightarrow> v < (x + 1) * 10 ^ length ds"
proof (induction ds arbitrary: x)
  case (Cons c ds)
  let ?y = "x * 10 + digit_val c"
  have c: "48 \<le> byte c" "byte c \<le> 57" using Cons(2) by (auto simp: is_digit_def split: if_splits)
  then have "digits_value (int ?y) ds = Some (int v)"
    using Cons(2) by (simp add: digit_val_def of_nat_diff algebra_simps split: if_splits)
  then have "v < (?y + 1) * 10 ^ length ds" by (rule Cons(1))
  also have "\<dots> \<le> (x + 1) * 10 * 10 ^ length ds" by (rule mult_right_mono) (use c in \<open>auto simp: digit_val_def\<close>)
  finally show ?case by (simp add: algebra_simps)
qed simp

text \<open>One number with its unit, as \<open>String\<close> and \<open>FormatDuration\<close> write it.\<close>

lemma duration_part_written:
  assumes fl: "exact_floats fl" and unit: "unitMap u = Some unit" "list_all unit_char u" "u \<noteq> []"
    and frac: "fraction_text p n t" "10 ^ p dvd unit" "p \<le> 9"
    and r: "r = [] \<or> is_digit (hd r)" and bound: "v * unit + n * (unit div 10 ^ p) \<le> 2 ^ 63"
  shows "duration_part fl (nat_digits v @ t @ u @ r) = Some (v * unit + n * (unit div 10 ^ p), r)"
proof -
  have upos: "0 < unit" "unit < 2 ^ 53"
    using unit(1) by (auto simp: unitMap_def split: if_splits)
  have v: "v \<le> 2 ^ 63 div unit"
    using bound upos by (simp add: less_eq_div_iff_mult_less_eq)
  also have "\<dots> \<le> 2 ^ 63" by simp
  finally have v63: "v \<le> 2 ^ 63" .
  have ds: "list_all is_digit (nat_digits v)" by (auto simp: list_all_iff nat_digits_all_digits)
  have hd_u: "unit_char (hd u)" using unit(2,3) by (cases u) auto
  from frac(1) consider (none) "t = []" "n = 0"
    | (some) ds m k where "t = CHR ''.'' # ds" "ds \<noteq> []" "list_all is_digit ds" "length ds + k = p"
        "digits_value 0 ds = Some (int m)" "m * 10 ^ k = n"
    by (auto simp: fraction_text_def)
  then show ?thesis
  proof cases
    case none
    have "leadingInt 0 (nat_digits v @ u @ r) = Some (v, u @ r)"
      using leadingInt_digits [OF ds, of 0 v "u @ r"] digits_value_nat_digits [of v] v63 hd_u unit(3)
      by (auto simp: unit_char_def)
    moreover obtain c q where "u @ r = c # q" "c \<noteq> CHR ''.''" using hd_u unit(3) by (cases u) (auto simp: unit_char_def)
    ultimately show ?thesis
      using none v unit take_unit [OF unit(2) r] by (simp add: duration_part_def Let_def)
  next
    case (some ds' m k)
    have "leadingInt 0 (nat_digits v @ t @ u @ r) = Some (v, t @ u @ r)"
      using leadingInt_digits [OF ds, of 0 v "t @ u @ r"] digits_value_nat_digits [of v] v63 not_unit_char(3)
      by (simp add: some(1))
    moreover have lt: "m < 10 ^ length ds'" using digits_value_bound [of 0 ds' m] some(5) by simp
    then have "m < 10 ^ 9"
      using power_increasing [of "length ds'" 9 "10 :: nat"] some(4) frac(3) by (auto intro: less_le_trans)
    then have "leadingFraction 0 1 False (ds' @ u @ r) = (m, 10 ^ length ds', u @ r)"
      using leadingFraction_digits [of ds' 0 m "u @ r" 1] some(3,5) hd_u unit(3) by (auto simp: unit_char_def)
    moreover have "df_frac fl m unit (10 ^ length ds') = n * (unit div 10 ^ p)"
    proof -
      obtain q where q: "unit = 10 ^ length ds' * 10 ^ k * q"
        using frac(2) some(4) by (auto simp: power_add [symmetric] elim: dvdE)
      have "df_frac fl m unit (10 ^ length ds') = m * (unit div 10 ^ length ds')"
        using fl lt upos(2) q unfolding exact_floats_def by (metis dvd_triv_left mult.assoc zero_less_numeral zero_less_power)
      also have "\<dots> = n * (unit div 10 ^ p)"
        using some(6) by (simp add: q some(4) [symmetric] power_add)
      finally show ?thesis .
    qed
    moreover have "n = 0" if "m = 0" using some(6) that by simp
    ultimately show ?thesis
      using some(1,2) v unit take_unit [OF unit(2) r] bound by (simp add: duration_part_def Let_def)
  qed
qed

text \<open>Reading one written number after \<open>d\<close> nanoseconds.\<close>

lemma duration_parts_written:
  assumes "exact_floats fl" "unitMap u = Some unit" "list_all unit_char u" "u \<noteq> []"
    and "fraction_text p n t" "10 ^ p dvd unit" "p \<le> 9" "r = [] \<or> is_digit (hd r)"
    and "d + (v * unit + n * (unit div 10 ^ p)) \<le> 2 ^ 63"
  shows "duration_parts fl d (nat_digits v @ t @ u @ r) = duration_parts fl (d + (v * unit + n * (unit div 10 ^ p))) r"
  using duration_part_written [OF assms(1-8)] assms(9)
  by (subst duration_parts.simps) (simp add: Let_def)

lemma whole: "fraction_text 0 0 []" by (simp add: fraction_text_def)

lemma duration_parts_whole:
  assumes "exact_floats fl" "unitMap u = Some unit" "list_all unit_char u" "u \<noteq> []" "r = [] \<or> is_digit (hd r)"
    and "d + v * unit \<le> 2 ^ 63"
  shows "duration_parts fl d (nat_digits v @ u @ r) = duration_parts fl (d + v * unit) r"
  using duration_parts_written [OF assms(1-4) whole, of r d v] assms(5,6) by simp

lemma duration_parts_Nil [simp]: "duration_parts fl d [] = Some d"
  by (simp add: duration_parts.simps)

lemma units:
  "unitMap ''ns'' = Some 1" "list_all unit_char ''ns''"
  "unitMap [CHR 0xC2, CHR 0xB5, CHR ''s''] = Some 1000" "list_all unit_char [CHR 0xC2, CHR 0xB5, CHR ''s'']"
  "unitMap ''ms'' = Some 1000000" "list_all unit_char ''ms''"
  "unitMap ''s'' = Some 1000000000" "list_all unit_char ''s''"
  "unitMap ''m'' = Some 60000000000" "list_all unit_char ''m''"
  "unitMap ''h'' = Some 3600000000000" "list_all unit_char ''h''"
  by (simp_all add: unitMap_def unit_char_def is_digit_def byte_def)

lemma hd_digits [simp]: "is_digit (hd (nat_digits n @ s))" "is_digit (hd (nat_digits n))"
  using nat_digits_all_digits [of "hd (nat_digits n)" n] by simp_all

lemma read_with_frac:
  assumes "exact_floats fl" "unitMap u = Some (10 ^ p)" "list_all unit_char u" "u \<noteq> []" "p \<le> 9" "d + w \<le> 2 ^ 63"
  shows "duration_parts fl d (with_frac p w u) = Some (d + w)"
proof -
  obtain t v where t: "fmtFrac p w False [] = (t, v)" by fastforce
  then have "fraction_text p (w mod 10 ^ p) t" "v = w div 10 ^ p" using fmtFrac_text by auto
  then show ?thesis
    using duration_parts_written [OF assms(1-4), of p "w mod 10 ^ p" t "[]" d v] assms(5,6)
    by (simp add: with_frac_def t div_mult_mod_eq)
qed

lemma read_clock:
  assumes "exact_floats fl" "d + w \<le> 2 ^ 63" "fmtFrac 9 w False [] = (t, secs)"
  shows "duration_parts fl d
     ((if secs div 60 div 60 > 0 then nat_digits (secs div 60 div 60) @ ''h'' else []) @
      (if secs div 60 > 0 then nat_digits (secs div 60 mod 60) @ ''m'' else []) @
      nat_digits (secs mod 60) @ t @ ''s'') = Some (d + w)"
proof -
  let ?h = "secs div 60 div 60" and ?m = "secs div 60 mod 60" and ?s = "secs mod 60"
  have t: "fraction_text 9 (w mod 10 ^ 9) t" and secs: "secs = w div 10 ^ 9" using fmtFrac_text [OF assms(3)] by auto
  have w: "w = ?h * 3600000000000 + ?m * 60000000000 + (?s * 1000000000 + w mod 10 ^ 9)"
  proof -
    have "secs * 1000000000 + w mod 10 ^ 9 = w" using div_mult_mod_eq [of w "10 ^ 9"] by (simp add: secs)
    moreover have "secs div 60 * 60 + ?s = secs" "?h * 60 + ?m = secs div 60" by (rule div_mult_mod_eq)+
    ultimately show ?thesis by linarith
  qed
  have s: "duration_parts fl d' (nat_digits ?s @ t @ ''s'') = Some (d' + (?s * 1000000000 + w mod 10 ^ 9))"
    if "d' + (?s * 1000000000 + w mod 10 ^ 9) \<le> 2 ^ 63" for d'
    using duration_parts_written [OF assms(1) units(7,8) _ t, of "[]" d' ?s] that by simp
  have m: "duration_parts fl d' ((if secs div 60 > 0 then nat_digits ?m @ ''m'' else []) @ nat_digits ?s @ t @ ''s'') =
      Some (d' + ?m * 60000000000 + (?s * 1000000000 + w mod 10 ^ 9))"
    if "d' + ?m * 60000000000 + (?s * 1000000000 + w mod 10 ^ 9) \<le> 2 ^ 63" for d'
    using duration_parts_whole [OF assms(1) units(9,10), of "nat_digits ?s @ t @ ''s''" d' ?m] s [of "d' + ?m * 60000000000"] s [of d'] that
    by (cases "secs div 60 = 0") simp_all
  let ?rest = "(if secs div 60 > 0 then nat_digits ?m @ ''m'' else []) @ nat_digits ?s @ t @ ''s''"
  have "is_digit (hd ?rest)" by simp
  then show ?thesis
    using duration_parts_whole [OF assms(1) units(11,12), of ?rest d ?h] m [of "d + ?h * 3600000000000"] m [of d] assms(2) w
    by (cases "?h = 0") simp_all
qed

lemma read_SubDay:
  assumes "exact_floats fl" "0 < w" "int d + w \<le> 2 ^ 63"
  shows "duration_parts fl d (formatSubDay w) = Some (d + nat w)"
proof -
  have le: "d + nat w \<le> 2 ^ 63" using assms(2,3) by simp
  show ?thesis
  proof (cases "hour_ns \<le> w \<and> w mod hour_ns = 0")
    case True
    define q where "q = w div hour_ns"
    have "w = q * hour_ns" using True div_mult_mod_eq [of w hour_ns] by (simp add: q_def)
    moreover from this have "0 \<le> q" using assms(2) by (simp add: hour_ns_def)
    ultimately have w: "nat w = nat q * 3600000000000" "Itoa q = nat_digits (nat q)"
      by (simp_all add: hour_ns_def Itoa_def nat_mult_distrib)
    then show ?thesis
      using duration_parts_whole [OF assms(1) units(11,12), of "[]" d "nat q"] True le
      by (simp add: formatSubDay_def q_def [symmetric])
  next
    case False
    let ?u = "nat w"
    have u: "nat \<bar>w\<bar> = ?u" "\<not> w < 0" "?u \<noteq> 0" using assms(2) by simp_all
    obtain t secs where t: "fmtFrac 9 ?u False [] = (t, secs)" by fastforce
    consider "?u < 1000" | "1000 \<le> ?u" "?u < 1000000" | "1000000 \<le> ?u" "?u < 1000000000" | "1000000000 \<le> ?u" by linarith
    then have "duration_parts fl d (Duration_String w) = Some (d + ?u)"
    proof cases
      case 1
      then show ?thesis
        using u le duration_parts_whole [OF assms(1) units(1,2), of "[]" d ?u] by (simp add: Duration_String_def Let_def)
    next
      case 2
      then show ?thesis
        using u read_with_frac [OF assms(1), of "[CHR 0xC2, CHR 0xB5, CHR ''s'']" 3 d ?u] units le
        by (simp add: Duration_String_def Let_def)
    next
      case 3
      then show ?thesis
        using u read_with_frac [OF assms(1), of "''ms''" 6 d ?u] units le by (simp add: Duration_String_def Let_def)
    next
      case 4
      then show ?thesis
        using u read_clock [OF assms(1) le t] t by (simp add: Duration_String_def Let_def)
    qed
    with False show ?thesis by (auto simp: formatSubDay_def)
  qed
qed

text \<open>A written duration starts with a number and goes on after it.\<close>

definition number_first :: "string \<Rightarrow> bool" where
  "number_first s \<longleftrightarrow> (\<exists>v r. s = nat_digits v @ r \<and> r \<noteq> [])"

lemma number_first_intros: "number_first (nat_digits v @ ''h'' @ r)" "r \<noteq> [] \<Longrightarrow> number_first (nat_digits v @ r)"
  by (auto simp: number_first_def)

lemma number_first_hd: "number_first s \<Longrightarrow> s \<noteq> [] \<and> is_digit (hd s)"
  by (auto simp: number_first_def)

lemma number_first_SubDay: "0 < w \<Longrightarrow> number_first (formatSubDay w)"
proof -
  assume "0 < w"
  then have "0 \<le> w div hour_ns" by (simp add: hour_ns_def pos_imp_zdiv_nonneg_iff)
  moreover have "number_first (with_frac p u (a # b))" for p u a b
    by (auto simp: with_frac_def number_first_intros split: prod.split)
  moreover have "number_first (Duration_String w)"
  proof (cases "fmtFrac 9 (nat w) False []")
    case (Pair t secs)
    have "number_first (nat_digits v @ t @ ''s'')" "number_first (nat_digits v @ ''m'' @ r)" for v r
      by (auto simp: number_first_def)
    with \<open>0 < w\<close> calculation(2) number_first_intros show ?thesis by (simp add: Duration_String_def Let_def Pair)
  qed
  ultimately show ?thesis using number_first_intros(1) [of _ "[]"] by (simp add: formatSubDay_def Itoa_def)
qed

lemma time_ParseDuration_number:
  assumes "number_first s" "duration_parts fl 0 s = Some n" "n < 2 ^ 63"
  shows "time_ParseDuration fl s = Some (int n)"
proof -
  obtain c q where s: "s = c # q" "is_digit c" using number_first_hd [OF assms(1)] by (cases s) auto
  then have "c \<noteq> CHR ''-''" "c \<noteq> CHR ''+''" by (auto simp: is_digit_def byte_def)
  moreover have "s \<noteq> ''0''"
  proof
    assume "s = ''0''"
    moreover obtain v r where r: "s = nat_digits v @ r" "r \<noteq> []" using assms(1) by (auto simp: number_first_def)
    ultimately have "length (nat_digits v @ r) = length ''0''" by simp
    moreover have "0 < length (nat_digits v)" "0 < length r" using r by simp_all
    ultimately show False by simp
  qed
  ultimately show ?thesis using s assms(2,3) by (auto simp: time_ParseDuration_def Let_def)
qed

lemma expand_plain:
  assumes "CHR ''d'' \<notin> set s" "CHR ''w'' \<notin> set s"
  shows "expand_day_week fl s = s"
  using assms
proof (induction s)
  case (Cons c s)
  have "match_day_week (c # s) = None"
  proof (rule ccontr)
    assume "match_day_week (c # s) \<noteq> None"
    then obtain t x r where "match_day_week (c # s) = Some (t, x, r)" by (metis not_None_eq prod_cases3)
    from match_day_week_Some [OF this] have "x \<in> set (c # s)" "x = CHR ''d'' \<or> x = CHR ''w''" by auto
    with Cons(2,3) show False by auto
  qed
  with Cons show ?case by simp
qed simp

lemma expand_unit:
  assumes "exact_floats fl" "n * 168 < 2 ^ 53" "c = CHR ''d'' \<or> c = CHR ''w''"
  shows "expand_day_week fl (nat_digits n @ c # r) =
     nat_digits (n * (if c = CHR ''w'' then 168 else 24)) @ ''h'' @ expand_day_week fl r"
proof -
  obtain x q where x: "nat_digits n = x # q" by (cases "nat_digits n") auto
  have "is_digit x" using hd_digits(2) [of n] x by simp
  then have "x \<noteq> CHR ''-''" by (auto simp: is_digit_def byte_def)
  moreover have "\<not> is_digit c" "c \<noteq> CHR ''.''" using assms(3) by (auto simp: is_digit_def byte_def)
  moreover have "takeWhile is_digit (nat_digits n @ c # r) = nat_digits n" "dropWhile is_digit (nat_digits n @ c # r) = c # r"
    using nat_digits_all_digits \<open>\<not> is_digit c\<close> by (simp_all add: takeWhile_append2 dropWhile_append2)
  ultimately have "match_day_week (nat_digits n @ c # r) = Some (nat_digits n, c, r)"
    using assms(3) by (simp add: match_day_week_def opt_minus_def opt_fraction_def HasPrefix_def x)
  moreover have "df_hours fl (nat_digits n) k = Some (nat_digits (n * k))" if "k \<le> 168" for k
  proof -
    have "n * k \<le> n * 168" using that by simp
    with assms(1,2) that show ?thesis unfolding exact_floats_def by (meson le_less_trans)
  qed
  ultimately show ?thesis using assms(3) by (auto simp: x)
qed

lemma SubDay_chars:
  assumes "0 < w"
  shows "CHR ''d'' \<notin> set (formatSubDay w)" "CHR ''w'' \<notin> set (formatSubDay w)"
proof -
  have n: "c \<notin> set (nat_digits v)" if "\<not> is_digit c" for c v using nat_digits_all_digits that by blast
  have dw: "\<not> is_digit (CHR ''d'')" "\<not> is_digit (CHR ''w'')" by (simp_all add: is_digit_def byte_def)
  have t: "CHR ''d'' \<notin> set (fst (fmtFrac p v False []))" "CHR ''w'' \<notin> set (fst (fmtFrac p v False []))" for p v
    using fmtFrac_text [OF prod.collapse [symmetric], of p v] dw by (auto simp: fraction_text_def list_all_iff)
  have w: "CHR ''d'' \<notin> set (with_frac p v u)" "CHR ''w'' \<notin> set (with_frac p v u)"
    if "CHR ''d'' \<notin> set u" "CHR ''w'' \<notin> set u" for p v u
    using that n dw t [of p v] by (auto simp: with_frac_def case_prod_beta)
  have i: "c \<notin> set (Itoa i)" if "\<not> is_digit c" "c \<noteq> CHR ''-''" for c i using Itoa_chars that by blast
  have "CHR ''d'' \<notin> set (Duration_String w)" "CHR ''w'' \<notin> set (Duration_String w)"
    using assms n dw w t [of 9 "nat w"] by (auto simp: Duration_String_def Let_def case_prod_beta)
  with i dw show "CHR ''d'' \<notin> set (formatSubDay w)" "CHR ''w'' \<notin> set (formatSubDay w)"
    by (auto simp: formatSubDay_def)
qed

text \<open>The text \<open>s\<close> stands for \<open>n\<close> nanoseconds, wherever it is read.\<close>

definition denotes :: "DurationFloats \<Rightarrow> string \<Rightarrow> nat \<Rightarrow> bool" where
  "denotes fl s n \<longleftrightarrow> (expand_day_week fl s = [] \<and> n = 0 \<or> number_first (expand_day_week fl s)) \<and>
     (\<forall>a. a + n \<le> 2 ^ 63 \<longrightarrow> duration_parts fl a (expand_day_week fl s) = Some (a + n))"

lemma denotes_Nil: "denotes fl [] 0"
  by (simp add: denotes_def)

lemma denotes_SubDay: "exact_floats fl \<Longrightarrow> 0 < w \<Longrightarrow> denotes fl (formatSubDay w) (nat w)"
  using read_SubDay [of fl w] by (auto simp: denotes_def expand_plain SubDay_chars number_first_SubDay)

lemma denotes_unit:
  assumes "exact_floats fl" "denotes fl r n" "c = CHR ''d'' \<or> c = CHR ''w''" "v * 168 < 2 ^ 53"
  shows "denotes fl (nat_digits v @ c # r) (v * (if c = CHR ''w'' then 168 else 24) * 3600000000000 + n)"
proof -
  let ?k = "v * (if c = CHR ''w'' then 168 else 24)" and ?x = "expand_day_week fl r"
  have x: "expand_day_week fl (nat_digits v @ c # r) = nat_digits ?k @ ''h'' @ ?x"
    by (rule expand_unit [OF assms(1,4,3)])
  have "?x = [] \<or> is_digit (hd ?x)" using assms(2) number_first_hd by (auto simp: denotes_def)
  then have "duration_parts fl a (nat_digits ?k @ ''h'' @ ?x) = Some (a + (?k * 3600000000000 + n))"
    if "a + (?k * 3600000000000 + n) \<le> 2 ^ 63" for a
    using duration_parts_whole [OF assms(1) units(11,12), of ?x a ?k] assms(2) that
    by (simp add: denotes_def add.assoc [symmetric])
  then show ?thesis using number_first_intros(1) [of ?k ?x] by (simp add: denotes_def x)
qed

lemma denotes_opt_unit:
  assumes "exact_floats fl" "denotes fl r n" "c = CHR ''d'' \<or> c = CHR ''w''" "0 \<le> i" "nat i * 168 < 2 ^ 53"
  shows "denotes fl ((if i > 0 then Itoa i @ [c] else []) @ r) (nat i * (if c = CHR ''w'' then 168 else 24) * 3600000000000 + n)"
proof (cases "i > 0")
  case True
  then show ?thesis using denotes_unit [OF assms(1-3,5)] by (simp add: Itoa_def)
next
  case False
  then have "i = 0" using assms(4) by simp
  then show ?thesis using assms(2) by simp
qed

lemma ParseDuration_denotes:
  assumes "denotes fl s n" "0 < n" "n < 2 ^ 63"
  shows "ParseDuration fl s = Inr (int n)"
  using assms time_ParseDuration_number [of "expand_day_week fl s" fl n]
  by (auto simp: denotes_def ParseDuration_def)

lemma denotes_FormatDuration:
  assumes fl: "exact_floats fl" and "0 < d" "d < 2 ^ 63"
  shows "denotes fl (FormatDuration d) (nat d)"
proof (cases "d < 24 * hour_ns")
  case True
  then show ?thesis using denotes_SubDay [OF fl assms(2)] by (simp add: FormatDuration_def)
next
  case False
  let ?week = "7 * 24 * hour_ns" and ?day = "24 * hour_ns"
  let ?w = "d div ?week" and ?d1 = "d mod ?week"
  let ?n = "?d1 div ?day" and ?s = "?d1 mod ?day"
  have d: "d = ?w * ?week + ?d1" "?d1 = ?n * ?day + ?s" by (rule div_mult_mod_eq [symmetric])+
  have nonneg: "0 \<le> ?w" "0 \<le> ?d1" "0 \<le> ?n" "0 \<le> ?s"
    using assms(2) by (simp_all add: hour_ns_def pos_imp_zdiv_nonneg_iff)
  have fmt: "FormatDuration d = (if ?w > 0 then Itoa ?w @ ''w'' else []) @ (if ?n > 0 then Itoa ?n @ ''d'' else []) @
      (if ?s > 0 then formatSubDay ?s else [])"
  proof -
    have keep: "r = a" if "a = q * m + r" "\<not> q > 0" "0 \<le> q" for a q m r :: int
    proof -
      have "q = 0" using that by simp
      then show ?thesis using that(1) by simp
    qed
    have "?d1 = d" if "\<not> ?w > 0" using keep [OF d(1) that nonneg(1)] .
    moreover have "?s = ?d1" if "\<not> ?n > 0" using keep [OF d(2) that nonneg(3)] .
    ultimately show ?thesis using False by (auto simp: FormatDuration_def Let_def)
  qed
  have sub: "denotes fl (if ?s > 0 then formatSubDay ?s else []) (nat ?s)"
    using denotes_SubDay [OF fl, of ?s] denotes_Nil by simp
  have "?n < 7" using d(2) nonneg pos_mod_bound [of ?week d] by (simp add: hour_ns_def)
  then have "nat ?n * 168 < 2 ^ 53" using nonneg(3) by simp
  then have days: "denotes fl ((if ?n > 0 then Itoa ?n @ ''d'' else []) @ (if ?s > 0 then formatSubDay ?s else []))
      (nat ?n * 24 * 3600000000000 + nat ?s)"
    using denotes_opt_unit [OF fl sub, of "CHR ''d''" ?n] nonneg(3) by (simp only: simp_thms char.inject if_False)
  have "?w * ?week \<le> d" using d(1) nonneg(2) by linarith
  then have "nat ?w * 168 < 2 ^ 53" using assms(3) nonneg(1) by (simp add: hour_ns_def)
  then have all: "denotes fl (FormatDuration d) (nat ?w * 168 * 3600000000000 + (nat ?n * 24 * 3600000000000 + nat ?s))"
    unfolding fmt using denotes_opt_unit [OF fl days, of "CHR ''w''" ?w] nonneg(1) by (simp only: simp_thms if_True)
  have "int (nat ?w * 168 * 3600000000000 + (nat ?n * 24 * 3600000000000 + nat ?s)) = d"
    using d nonneg by (simp add: hour_ns_def)
  then show ?thesis using all by (metis nat_int)
qed

text \<open>
  Durations as text. Every positive duration below \<open>2\<^sup>63\<close> nanoseconds is written so that it reads
  back exactly, weeks, days and fractions of a second included. (Hypothesis: \<open>exact_floats\<close>, products of
  \<open>float64\<close> values that are whole numbers below \<open>2\<^sup>53\<close> are exact.)
\<close>

lemma duration_roundtrip:
  assumes "exact_floats fl" "0 < d" "d < 2 ^ 63"
  shows "ParseDuration fl (FormatDuration d) = Inr d"
  using ParseDuration_denotes [OF denotes_FormatDuration [OF assms]] assms(2,3) by simp

text \<open>Whole numbers with exact products.\<close>

definition whole_floats :: DurationFloats where
  "whole_floats = \<lparr>df_hours = (\<lambda>t k. map_option (\<lambda>v. nat_digits (nat v * k)) (digits_value 0 t)),
     df_frac = (\<lambda>f unit scale. f * unit div scale)\<rparr>"

lemma whole_floats_exact: "exact_floats whole_floats"
  by (auto simp: exact_floats_def whole_floats_def digits_value_nat_digits div_mult_swap)

lemma duration_roundtrip_witness:
  "ParseDuration whole_floats (FormatDuration 788645500000000) = Inr 788645500000000"
  by (rule duration_roundtrip [OF whole_floats_exact]) simp_all

end
