(* ===== verification/Model_Criteria.thy ===== *)
theory Model_Criteria
  imports Utils_Duration Go_Path Complex_Main "HOL-Library.List_Lexorder" "HOL-Library.Char_ord"
begin

text \<open>
  The rules of smart playlists (\<open>model/criteria\<close>): the registered fields, the expressions with their
  reading from and writing to JSON, limits, child playlists and sort fields. A JSON document is its
  syntax tree, an object the list of its members in the order of the text; numbers are the values
  \<open>float64\<close> has for them. Texts are taken byte by byte, case folding is that of ASCII.
\<close>

datatype val = VNull | VBool bool | VNum rat | VStr string | VArr "val list" | VObj "(string \<times> val) list"

text \<open>
  Decoding an object into a Go map: of equal keys the last one counts. A map is represented by its
  entries in the order of the keys, in which \<open>json.Marshal\<close> also writes them.
\<close>

fun last_entries :: "(string \<times> 'a) list \<Rightarrow> (string \<times> 'a) list" where
  "last_entries [] = []"
| "last_entries (e # es) = (if fst e \<in> fst ` set es then last_entries es else e # last_entries es)"

definition map_entries :: "(string \<times> 'a) list \<Rightarrow> (string \<times> 'a) list" where
  "map_entries es = sort_key fst (last_entries es)"

section \<open>Fields\<close>

record FieldInfo =
  fi_Alias :: string
  fi_IsTag :: bool
  fi_IsRole :: bool
  fi_Numeric :: bool
  fi_Boolean :: bool
  fi_Nullable :: bool
  fi_tagAlias :: string
  fi_name :: string

definition no_info :: FieldInfo where
  "no_info = \<lparr>fi_Alias = [], fi_IsTag = False, fi_IsRole = False, fi_Numeric = False, fi_Boolean = False,
     fi_Nullable = False, fi_tagAlias = [], fi_name = []\<rparr>"

type_synonym field_map = "(string \<times> FieldInfo) list"

definition nullable_info :: FieldInfo where "nullable_info = no_info\<lparr>fi_Nullable := True\<rparr>"
definition boolean_info :: FieldInfo where "boolean_info = no_info\<lparr>fi_Boolean := True\<rparr>"
definition numeric_info :: FieldInfo where "numeric_info = no_info\<lparr>fi_Numeric := True\<rparr>"
definition gain_info :: FieldInfo where "gain_info = no_info\<lparr>fi_Numeric := True, fi_Nullable := True\<rparr>"

definition fieldMap :: field_map where
  "fieldMap =
    [(''title'', no_info), (''album'', nullable_info), (''hascoverart'', boolean_info), (''tracknumber'', no_info),
     (''discnumber'', no_info), (''year'', no_info), (''date'', no_info\<lparr>fi_tagAlias := ''recordingdate''\<rparr>),
     (''originalyear'', no_info), (''originaldate'', no_info), (''releaseyear'', no_info), (''releasedate'', no_info),
     (''size'', no_info), (''compilation'', boolean_info), (''missing'', boolean_info), (''explicitstatus'', nullable_info),
     (''dateadded'', no_info), (''datemodified'', no_info), (''discsubtitle'', nullable_info), (''comment'', nullable_info),
     (''lyrics'', nullable_info), (''sorttitle'', nullable_info), (''sortalbum'', nullable_info),
     (''sortartist'', nullable_info), (''sortalbumartist'', nullable_info), (''albumcomment'', nullable_info),
     (''catalognumber'', nullable_info), (''filepath'', no_info), (''filetype'', no_info), (''codec'', no_info),
     (''duration'', no_info), (''bitrate'', no_info), (''bitdepth'', gain_info), (''samplerate'', no_info),
     (''bpm'', gain_info), (''channels'', no_info), (''loved'', boolean_info), (''dateloved'', no_info),
     (''lastplayed'', no_info), (''daterated'', no_info), (''playcount'', no_info), (''rating'', no_info),
     (''averagerating'', numeric_info), (''albumrating'', no_info), (''albumloved'', boolean_info),
     (''albumplaycount'', no_info), (''albumlastplayed'', no_info), (''albumdateloved'', no_info),
     (''albumdaterated'', no_info), (''albumdateadded'', no_info), (''albumdatemodified'', no_info),
     (''albumduration'', no_info), (''albumsongcount'', no_info), (''albumsize'', no_info), (''artistrating'', no_info),
     (''artistloved'', boolean_info), (''artistplaycount'', no_info), (''artistlastplayed'', no_info),
     (''artistdateloved'', no_info), (''artistdaterated'', no_info), (''mbz_album_id'', nullable_info),
     (''mbz_album_artist_id'', nullable_info), (''mbz_artist_id'', nullable_info), (''mbz_recording_id'', nullable_info),
     (''mbz_release_track_id'', nullable_info), (''mbz_release_group_id'', nullable_info),
     (''rgalbumgain'', gain_info), (''rgalbumpeak'', gain_info), (''rgtrackgain'', gain_info), (''rgtrackpeak'', gain_info),
     (''library_id'', numeric_info), (''albumtype'', no_info\<lparr>fi_Alias := ''releasetype'', fi_IsTag := True\<rparr>),
     (''replaygain_album_gain'', gain_info\<lparr>fi_Alias := ''rgalbumgain''\<rparr>),
     (''replaygain_album_peak'', gain_info\<lparr>fi_Alias := ''rgalbumpeak''\<rparr>),
     (''replaygain_track_gain'', gain_info\<lparr>fi_Alias := ''rgtrackgain''\<rparr>),
     (''replaygain_track_peak'', gain_info\<lparr>fi_Alias := ''rgtrackpeak''\<rparr>), (''random'', no_info)]"

definition LookupField :: "field_map \<Rightarrow> string \<Rightarrow> FieldInfo option" where
  "LookupField fm name =
     (let key = ToLower name
      in map_option (\<lambda>f. f\<lparr>fi_name := if fi_Alias f \<noteq> [] then fi_Alias f else key\<rparr>) (map_of fm key))"

definition put_field :: "string \<Rightarrow> FieldInfo \<Rightarrow> field_map \<Rightarrow> field_map" where
  "put_field name f fm = (name, f) # filter (\<lambda>e. fst e \<noteq> name) fm"

definition add_role :: "string \<Rightarrow> field_map \<Rightarrow> field_map" where
  "add_role role fm =
     (let name = ToLower role
      in if map_of fm name \<noteq> None then fm else put_field name (no_info\<lparr>fi_IsRole := True\<rparr>) fm)"

definition AddRoles :: "string list \<Rightarrow> field_map \<Rightarrow> field_map" where
  "AddRoles roles fm = fold add_role roles fm"

text \<open>The first field, in the map's iteration order, that waits for the tag.\<close>

definition tag_alias :: "string \<Rightarrow> field_map \<Rightarrow> (string \<times> FieldInfo) option" where
  "tag_alias name fm = find (\<lambda>e. fi_tagAlias (snd e) = name) fm"

definition add_tag_name :: "string \<Rightarrow> field_map \<Rightarrow> field_map" where
  "add_tag_name tagName fm =
     (let name = ToLower tagName
      in if map_of fm name \<noteq> None then fm
         else case tag_alias name fm of
             Some (key, f) \<Rightarrow> put_field name (f\<lparr>fi_Alias := key, fi_tagAlias := []\<rparr>) fm
           | None \<Rightarrow> put_field name (no_info\<lparr>fi_IsTag := True\<rparr>) fm)"

definition AddTagNames :: "string list \<Rightarrow> field_map \<Rightarrow> field_map" where
  "AddTagNames tagNames fm = fold add_tag_name tagNames fm"

definition add_numeric_tag :: "string \<Rightarrow> field_map \<Rightarrow> field_map" where
  "add_numeric_tag tagName fm =
     (let name = ToLower tagName
      in case map_of fm name of
           Some f \<Rightarrow> put_field name (f\<lparr>fi_Numeric := True\<rparr>) fm
         | None \<Rightarrow> put_field name (no_info\<lparr>fi_IsTag := True, fi_Numeric := True\<rparr>) fm)"

definition AddNumericTags :: "string list \<Rightarrow> field_map \<Rightarrow> field_map" where
  "AddNumericTags tagNames fm = fold add_numeric_tag tagNames fm"

section \<open>Expressions\<close>

datatype operator =
  Is | IsNot | Gt | Lt | Before | After | OpContains | NotContains | StartsWith | EndsWith | InTheRange
| InTheLast | NotInTheLast | InPlaylist | NotInPlaylist | IsMissing | IsPresent

datatype Expression = All "Expression list" | Any "Expression list" | Rule operator "(string \<times> val) list"

definition expr_fields :: "Expression \<Rightarrow> (string \<times> val) list" where
  "expr_fields e = (case e of Rule op fs \<Rightarrow> fs | _ \<Rightarrow> [])"

record Criteria =
  cr_Expression :: "Expression option" \<comment> \<open>\<open>None\<close>: the nil interface\<close>
  cr_Sort :: string
  cr_Order :: string
  cr_Limit :: go_int
  cr_LimitPercent :: go_int
  cr_Offset :: go_int
  cr_RefreshDelay :: time_ns

definition EffectiveLimit :: "Criteria \<Rightarrow> go_int \<Rightarrow> go_int" where
  "EffectiveLimit c totalCount =
     (if cr_Limit c > 0 then cr_Limit c
      else if cr_LimitPercent c > 0 \<and> cr_LimitPercent c \<le> 100 then
        if totalCount \<le> 0 then 0
        else (let result = go_quot (wrap64 (totalCount * cr_LimitPercent c)) 100 in if result < 1 then 1 else result)
      else 0)"

definition IsPercentageLimit :: "Criteria \<Rightarrow> bool" where
  "IsPercentageLimit c \<longleftrightarrow> cr_Limit c = 0 \<and> cr_LimitPercent c > 0 \<and> cr_LimitPercent c \<le> 100"

definition ResolveLimit :: "Criteria \<Rightarrow> go_int \<Rightarrow> Criteria" where
  "ResolveLimit c totalCount = (if IsPercentageLimit c then c\<lparr>cr_Limit := EffectiveLimit c totalCount\<rparr> else c)"

definition id_rule :: "operator \<Rightarrow> (string \<times> val) list \<Rightarrow> string list" where
  "id_rule op fs =
     (if op = InPlaylist \<or> op = NotInPlaylist then (case map_of fs ''id'' of Some (VStr i) \<Rightarrow> [i] | _ \<Rightarrow> []) else [])"

fun extractPlaylistIds :: "Expression \<Rightarrow> string list" where
  "extractPlaylistIds (Any es) = concat (map extractPlaylistIds es)"
| "extractPlaylistIds (All es) = concat (map extractPlaylistIds es)"
| "extractPlaylistIds (Rule op fs) = id_rule op fs"

text \<open>
  \<open>slices.Sort\<close> and \<open>slices.Compact\<close>: the order of texts is the library's lexicographic order of their bytes.
\<close>

definition ChildPlaylistIds :: "Criteria \<Rightarrow> string list" where
  "ChildPlaylistIds c =
     (case cr_Expression c of
        None \<Rightarrow> [] | Some (Rule op fs) \<Rightarrow> []
      | Some e \<Rightarrow> remdups_adj (sort (extractPlaylistIds e)))"

text \<open>\<open>Walk\<close>: the visitor sees an expression before its children; its first error ends the walk.\<close>

fun Walk :: "(Expression \<Rightarrow> 's \<Rightarrow> 'e + 's) \<Rightarrow> Expression \<Rightarrow> 's \<Rightarrow> 'e + 's"
  and walk_list :: "(Expression \<Rightarrow> 's \<Rightarrow> 'e + 's) \<Rightarrow> Expression list \<Rightarrow> 's \<Rightarrow> 'e + 's" where
  "Walk visit e s =
     bind_result (visit e s) (\<lambda>s'. case e of All es \<Rightarrow> walk_list visit es s' | Any es \<Rightarrow> walk_list visit es s' | Rule _ _ \<Rightarrow> Inr s')"
| "walk_list visit [] s = Inr s"
| "walk_list visit (e # es) s = bind_result (Walk visit e s) (walk_list visit es)"

section \<open>JSON\<close>

datatype criteria_error =
  JsonType | InvalidKey string | ExpressionLength nat | BothGroups | MissingRules | InvalidRefreshDelay duration_error

text \<open>\<open>strconv.ParseBool\<close>\<close>

definition ParseBool :: "string \<Rightarrow> bool option" where
  "ParseBool s =
     (if s \<in> set [''1'', ''t'', ''T'', ''TRUE'', ''true'', ''True''] then Some True
      else if s \<in> set [''0'', ''f'', ''F'', ''FALSE'', ''false'', ''False''] then Some False else None)"

definition ToBool :: "val \<Rightarrow> bool option" where
  "ToBool v =
     (case v of VBool b \<Rightarrow> Some b | VStr s \<Rightarrow> ParseBool s
      | VNum x \<Rightarrow> if x = 1 then Some True else if x = 0 then Some False else None | _ \<Rightarrow> None)"

definition normalizeBoolValue :: "val \<Rightarrow> val" where
  "normalizeBoolValue v = (case ToBool v of Some b \<Rightarrow> VBool b | None \<Rightarrow> v)"

definition normalizeAllBoolFields :: "(string \<times> val) list \<Rightarrow> (string \<times> val) list" where
  "normalizeAllBoolFields m = map (\<lambda>(k, v). (k, normalizeBoolValue v)) m"

definition normalizeBoolFields :: "field_map \<Rightarrow> (string \<times> val) list \<Rightarrow> (string \<times> val) list" where
  "normalizeBoolFields fm m =
     map (\<lambda>(field, value). (field, case LookupField fm field of
            Some info \<Rightarrow> if fi_Boolean info then normalizeBoolValue value else value | None \<Rightarrow> value)) m"

definition operator_named :: "string \<Rightarrow> operator option" where
  "operator_named k =
     map_of [(''is'', Is), (''isnot'', IsNot), (''gt'', Gt), (''lt'', Lt), (''contains'', OpContains),
       (''notcontains'', NotContains), (''startswith'', StartsWith), (''endswith'', EndsWith),
       (''intherange'', InTheRange), (''before'', Before), (''after'', After), (''inthelast'', InTheLast),
       (''notinthelast'', NotInTheLast), (''inplaylist'', InPlaylist), (''notinplaylist'', NotInPlaylist),
       (''ismissing'', IsMissing), (''ispresent'', IsPresent)] k"

text \<open>Decoding a value into \<open>any\<close>: objects become maps, at every depth.\<close>

fun decoded :: "val \<Rightarrow> val" where
  "decoded (VArr vs) = VArr (map decoded vs)"
| "decoded (VObj kvs) = VObj (map_entries (map (\<lambda>e. (fst e, decoded (snd e))) kvs))"
| "decoded v = v"

definition decode_map :: "val \<Rightarrow> (string \<times> val) list option" where
  "decode_map v = (case v of VNull \<Rightarrow> Some [] | _ \<Rightarrow> (case decoded v of VObj m \<Rightarrow> Some m | _ \<Rightarrow> None))"

definition unmarshalExpression :: "field_map \<Rightarrow> string \<Rightarrow> val \<Rightarrow> Expression option" where
  "unmarshalExpression fm opName rawValue =
     (case decode_map rawValue of
        None \<Rightarrow> None
      | Some m \<Rightarrow>
          (let m' = normalizeBoolFields fm m
           in map_option (\<lambda>op. Rule op (if op = IsMissing \<or> op = IsPresent then normalizeAllBoolFields m' else m'))
                (operator_named opName)))"

text \<open>
  \<open>unmarshalConjunctionType.UnmarshalJSON\<close> on one array. \<open>ord\<close> is the order in which the members of
  an object are visited, which Go leaves open; it stands for the iteration over a map.
\<close>

fun collect :: "('e + 'a) list \<Rightarrow> 'e + 'a list" where
  "collect [] = Inr []"
| "collect (r # rs) = bind_result r (\<lambda>x. bind_result (collect rs) (\<lambda>xs. Inr (x # xs)))"

type_synonym member_order = "(string \<times> (criteria_error + Expression)) list \<Rightarrow> (string \<times> (criteria_error + Expression)) list"

definition decodes_to_map :: "val \<Rightarrow> bool" where
  "decodes_to_map v \<longleftrightarrow> (case v of VObj _ \<Rightarrow> True | VNull \<Rightarrow> True | _ \<Rightarrow> False)"

fun unmarshal_list :: "field_map \<Rightarrow> member_order \<Rightarrow> val \<Rightarrow> criteria_error + Expression list"
  and unmarshal_element :: "field_map \<Rightarrow> member_order \<Rightarrow> val \<Rightarrow> criteria_error + Expression list"
  and unmarshal_member :: "field_map \<Rightarrow> member_order \<Rightarrow> string \<Rightarrow> val \<Rightarrow> criteria_error + Expression" where
  "unmarshal_list fm ord v =
     (case v of
        VNull \<Rightarrow> Inr []
      | VArr vs \<Rightarrow> if list_all decodes_to_map vs
          then map_sum id concat (collect (map (unmarshal_element fm ord) vs)) else Inl JsonType
      | _ \<Rightarrow> Inl JsonType)"
| "unmarshal_element fm ord v =
     (case v of
        VObj kvs \<Rightarrow> collect (map snd (ord (map_entries (map (\<lambda>e. (fst e, unmarshal_member fm ord (ToLower (fst e)) (snd e))) kvs))))
      | _ \<Rightarrow> Inr [])"
| "unmarshal_member fm ord k v =
     (case unmarshalExpression fm k v of
        Some e \<Rightarrow> Inr e
      | None \<Rightarrow>
          (case unmarshal_list fm ord v of
             Inl _ \<Rightarrow> Inl (InvalidKey k)
           | Inr items \<Rightarrow> if k = ''any'' then Inr (Any items) else if k = ''all'' then Inr (All items) else Inl (InvalidKey k)))"

declare unmarshal_list.simps [simp del] unmarshal_element.simps [simp del] unmarshal_member.simps [simp del]

definition operator_name :: "operator \<Rightarrow> string" where
  "operator_name op =
     (case op of Is \<Rightarrow> ''is'' | IsNot \<Rightarrow> ''isNot'' | Gt \<Rightarrow> ''gt'' | Lt \<Rightarrow> ''lt'' | Before \<Rightarrow> ''before''
      | After \<Rightarrow> ''after'' | OpContains \<Rightarrow> ''contains'' | NotContains \<Rightarrow> ''notContains'' | StartsWith \<Rightarrow> ''startsWith''
      | EndsWith \<Rightarrow> ''endsWith'' | InTheRange \<Rightarrow> ''inTheRange'' | InTheLast \<Rightarrow> ''inTheLast''
      | NotInTheLast \<Rightarrow> ''notInTheLast'' | InPlaylist \<Rightarrow> ''inPlaylist'' | NotInPlaylist \<Rightarrow> ''notInPlaylist''
      | IsMissing \<Rightarrow> ''isMissing'' | IsPresent \<Rightarrow> ''isPresent'')"

text \<open>
  \<open>marshalExpression\<close> writes the key between quotes as it is. A key free of quotes, backslashes and
  control bytes stands for itself; what \<open>json.Marshal\<close> makes of the text with any other key is \<open>raw\<close>.
\<close>

definition plain_key :: "string \<Rightarrow> bool" where
  "plain_key f \<longleftrightarrow> list_all (\<lambda>c. c \<noteq> CHR 0x22 \<and> c \<noteq> CHR 0x5C \<and> 32 \<le> byte c) f"

type_synonym raw_encoder = "string \<Rightarrow> string \<Rightarrow> val \<Rightarrow> criteria_error + val"

definition marshalExpression :: "raw_encoder \<Rightarrow> string \<Rightarrow> (string \<times> val) list \<Rightarrow> criteria_error + val" where
  "marshalExpression raw name value =
     (case value of
        [(f, v)] \<Rightarrow> if plain_key f then Inr (VObj [(name, VObj [(f, v)])]) else raw name f v
      | _ \<Rightarrow> Inl (ExpressionLength (length value)))"

definition omitempty :: "string \<Rightarrow> val list \<Rightarrow> (string \<times> val) list" where
  "omitempty name vs = (if vs = [] then [] else [(name, VArr vs)])"

definition marshalConjunction :: "string \<Rightarrow> (criteria_error + val) list \<Rightarrow> criteria_error + val" where
  "marshalConjunction name rules = bind_result (collect rules) (\<lambda>vs. Inr (VObj (omitempty name vs)))"

fun expr_MarshalJSON :: "raw_encoder \<Rightarrow> Expression \<Rightarrow> criteria_error + val" where
  "expr_MarshalJSON raw (All es) = marshalConjunction ''all'' (map (expr_MarshalJSON raw) es)"
| "expr_MarshalJSON raw (Any es) = marshalConjunction ''any'' (map (expr_MarshalJSON raw) es)"
| "expr_MarshalJSON raw (Rule op fs) = marshalExpression raw (operator_name op) fs"

definition opt_string :: "string \<Rightarrow> string \<Rightarrow> (string \<times> val) list" where
  "opt_string name s = (if s = [] then [] else [(name, VStr s)])"

definition opt_int :: "string \<Rightarrow> go_int \<Rightarrow> (string \<times> val) list" where
  "opt_int name i = (if i = 0 then [] else [(name, VNum (of_int i))])"

definition MarshalJSON :: "raw_encoder \<Rightarrow> Criteria \<Rightarrow> criteria_error + val" where
  "MarshalJSON raw c =
     (let rules = (case cr_Expression c of
            Some (Any es) \<Rightarrow> collect (map (expr_MarshalJSON raw) es)
          | Some (All es) \<Rightarrow> collect (map (expr_MarshalJSON raw) es)
          | Some e \<Rightarrow> collect [expr_MarshalJSON raw e]
          | None \<Rightarrow> Inr [VNull]);
          group = (case cr_Expression c of Some (Any es) \<Rightarrow> ''any'' | _ \<Rightarrow> ''all'')
      in bind_result rules (\<lambda>vs. Inr (VObj
           (omitempty group vs @ opt_string ''sort'' (cr_Sort c) @ opt_string ''order'' (cr_Order c) @
            opt_int ''limit'' (cr_Limit c) @ opt_int ''limitPercent'' (cr_LimitPercent c) @
            opt_int ''offset'' (cr_Offset c) @
            opt_string ''refreshDelay'' (if cr_RefreshDelay c > 0 then FormatDuration (cr_RefreshDelay c) else [])))))"

record criteria_aux =
  ax_All :: "Expression list option" \<comment> \<open>\<open>optionalConjunction\<close>: \<open>None\<close> when the key is absent\<close>
  ax_Any :: "Expression list option"
  ax_Sort :: string
  ax_Order :: string
  ax_Limit :: go_int
  ax_LimitPercent :: go_int
  ax_Offset :: go_int
  ax_RefreshDelay :: string

definition string_member :: "val \<Rightarrow> string \<Rightarrow> criteria_error + string" where
  "string_member v old = (case v of VStr s \<Rightarrow> Inr s | VNull \<Rightarrow> Inr old | _ \<Rightarrow> Inl JsonType)"

definition int_member :: "val \<Rightarrow> go_int \<Rightarrow> criteria_error + go_int" where
  "int_member v old =
     (case v of VNum x \<Rightarrow> if of_int \<lfloor>x\<rfloor> = x \<and> in_int64 \<lfloor>x\<rfloor> then Inr \<lfloor>x\<rfloor> else Inl JsonType
      | VNull \<Rightarrow> Inr old | _ \<Rightarrow> Inl JsonType)"

text \<open>The decoder matches the keys of an object to the members of a struct without regard to case.\<close>

definition decode_member ::
  "field_map \<Rightarrow> member_order \<Rightarrow> string \<times> val \<Rightarrow> criteria_aux \<Rightarrow> criteria_error + criteria_aux" where
  "decode_member fm ord kv ax =
     (case kv of (k, v) \<Rightarrow>
        if EqualFold k ''all'' then map_sum id (\<lambda>es. ax\<lparr>ax_All := Some es\<rparr>) (unmarshal_list fm ord v)
        else if EqualFold k ''any'' then map_sum id (\<lambda>es. ax\<lparr>ax_Any := Some es\<rparr>) (unmarshal_list fm ord v)
        else if EqualFold k ''sort'' then map_sum id (\<lambda>s. ax\<lparr>ax_Sort := s\<rparr>) (string_member v (ax_Sort ax))
        else if EqualFold k ''order'' then map_sum id (\<lambda>s. ax\<lparr>ax_Order := s\<rparr>) (string_member v (ax_Order ax))
        else if EqualFold k ''limit'' then map_sum id (\<lambda>i. ax\<lparr>ax_Limit := i\<rparr>) (int_member v (ax_Limit ax))
        else if EqualFold k ''limitPercent'' then map_sum id (\<lambda>i. ax\<lparr>ax_LimitPercent := i\<rparr>) (int_member v (ax_LimitPercent ax))
        else if EqualFold k ''offset'' then map_sum id (\<lambda>i. ax\<lparr>ax_Offset := i\<rparr>) (int_member v (ax_Offset ax))
        else if EqualFold k ''refreshDelay'' then map_sum id (\<lambda>s. ax\<lparr>ax_RefreshDelay := s\<rparr>) (string_member v (ax_RefreshDelay ax))
        else Inr ax)"

fun decode_members ::
  "field_map \<Rightarrow> member_order \<Rightarrow> (string \<times> val) list \<Rightarrow> criteria_aux \<Rightarrow> criteria_error + criteria_aux" where
  "decode_members fm ord [] ax = Inr ax"
| "decode_members fm ord (kv # kvs) ax = bind_result (decode_member fm ord kv ax) (decode_members fm ord kvs)"

definition no_aux :: criteria_aux where
  "no_aux = \<lparr>ax_All = None, ax_Any = None, ax_Sort = [], ax_Order = [], ax_Limit = 0, ax_LimitPercent = 0,
     ax_Offset = 0, ax_RefreshDelay = []\<rparr>"

definition top_group :: "criteria_aux \<Rightarrow> criteria_error + Expression" where
  "top_group aux =
     (case ax_Any aux of
        Some (e # es) \<Rightarrow> Inr (Any (e # es))
      | _ \<Rightarrow> (case ax_All aux of Some (e # es) \<Rightarrow> Inr (All (e # es)) | _ \<Rightarrow> Inl MissingRules))"

definition criteria_of_aux :: "DurationFloats \<Rightarrow> criteria_aux \<Rightarrow> criteria_error + Criteria" where
  "criteria_of_aux fl aux =
     (if ax_All aux \<noteq> None \<and> ax_Any aux \<noteq> None then Inl BothGroups
      else bind_result (top_group aux)
        (\<lambda>expr. bind_result
           (if ax_RefreshDelay aux = [] then Inr 0
            else map_sum InvalidRefreshDelay id (ParseDuration fl (ax_RefreshDelay aux)))
           (\<lambda>delay. Inr \<lparr>cr_Expression = Some expr, cr_Sort = ax_Sort aux, cr_Order = ax_Order aux,
              cr_Limit = ax_Limit aux,
              cr_LimitPercent = (if ax_LimitPercent aux < 0 then 0 else if ax_LimitPercent aux > 100 then 100 else ax_LimitPercent aux),
              cr_Offset = ax_Offset aux, cr_RefreshDelay = delay\<rparr>)))"

definition UnmarshalJSON ::
  "field_map \<Rightarrow> member_order \<Rightarrow> DurationFloats \<Rightarrow> val \<Rightarrow> criteria_error + Criteria" where
  "UnmarshalJSON fm ord fl doc =
     bind_result (case doc of VObj kvs \<Rightarrow> decode_members fm ord kvs no_aux | VNull \<Rightarrow> Inr no_aux | _ \<Rightarrow> Inl JsonType)
       (criteria_of_aux fl)"

section \<open>Sort fields\<close>

record SortField =
  sf_Field :: string
  sf_Desc :: bool

definition sort_part :: "field_map \<Rightarrow> string \<Rightarrow> string \<Rightarrow> SortField list" where
  "sort_part fm order part0 =
     (let part = TrimSpace part0
      in if part = [] then []
         else
           (let signed = HasPrefix part ''+'' \<or> HasPrefix part ''-'';
                desc = HasPrefix part ''-'';
                name = (if signed then TrimSpace (tl part) else part)
            in case LookupField fm name of
                 None \<Rightarrow> []
               | Some info \<Rightarrow> [\<lparr>sf_Field = fi_name info, sf_Desc = (if order = ''desc'' then \<not> desc else desc)\<rparr>]))"

definition OrderByFields :: "field_map \<Rightarrow> Criteria \<Rightarrow> SortField list" where
  "OrderByFields fm c =
     (let sortValue = (if cr_Sort c = [] then ''title'' else cr_Sort c);
          order = ToLower (TrimSpace (cr_Order c));
          order' = (if order \<noteq> [] \<and> order \<noteq> ''asc'' \<and> order \<noteq> ''desc'' then [] else order);
          fields = concat (map (sort_part fm order') (split_on (CHR '','') sortValue))
      in if fields = [] then [\<lparr>sf_Field = ''title'', sf_Desc = False\<rparr>] else fields)"

definition SortFieldNames :: "field_map \<Rightarrow> Criteria \<Rightarrow> string list" where
  "SortFieldNames fm c = map sf_Field (OrderByFields fm c)"

end
