(* ===== verification/Criteria_Sql.thy ===== *)
theory Criteria_Sql
  imports Model_Criteria Auth_Claims
begin

text \<open>
  The translation of smart playlist rules to SQL (\<open>persistence/criteria_sql.go\<close>). A condition is a tree:
  the conditions of the squirrel library (\<open>And\<close>, \<open>Or\<close>, comparisons and \<open>LIKE\<close> of columns with bound
  values, the subquery of \<open>inList\<close>) and the four condition types of the file. What squirrel writes for its
  own conditions is the argument \<open>sq\<close> of \<open>ToSql\<close>. A rule with several fields is visited in the order of
  its keys, where Go leaves the order open.
\<close>

unbundle bit_operations_syntax

section \<open>Fields and joins\<close>

type_synonym smartPlaylistJoinType = int

definition smartPlaylistJoinNone :: smartPlaylistJoinType where "smartPlaylistJoinNone = 0"
definition smartPlaylistJoinAlbumAnnotation :: smartPlaylistJoinType where "smartPlaylistJoinAlbumAnnotation = 2" \<comment> \<open>\<open>1 << 1\<close>\<close>
definition smartPlaylistJoinArtistAnnotation :: smartPlaylistJoinType where "smartPlaylistJoinArtistAnnotation = 4" \<comment> \<open>\<open>1 << 2\<close>\<close>
definition smartPlaylistJoinAlbum :: smartPlaylistJoinType where "smartPlaylistJoinAlbum = 8" \<comment> \<open>\<open>1 << 3\<close>\<close>

definition join_has :: "smartPlaylistJoinType \<Rightarrow> smartPlaylistJoinType \<Rightarrow> bool" where
  "join_has j other \<longleftrightarrow> j AND other \<noteq> 0"

record smartPlaylistField =
  pf_expr :: string
  pf_order :: string
  pf_joinType :: smartPlaylistJoinType
  pf_emptyValues :: "string list"
  pf_coalesceDefault :: "val option"

definition column :: "string \<Rightarrow> smartPlaylistField" where
  "column e = \<lparr>pf_expr = e, pf_order = [], pf_joinType = smartPlaylistJoinNone, pf_emptyValues = [], pf_coalesceDefault = None\<rparr>"

definition joined :: "smartPlaylistJoinType \<Rightarrow> string \<Rightarrow> smartPlaylistField" where
  "joined j e = (column e)\<lparr>pf_joinType := j\<rparr>"

definition defaulted :: "val \<Rightarrow> smartPlaylistField \<Rightarrow> smartPlaylistField" where
  "defaulted v f = f\<lparr>pf_coalesceDefault := Some v\<rparr>"

definition smartPlaylistFields :: "(string \<times> smartPlaylistField) list" where
  "smartPlaylistFields =
    [(''title'', column ''media_file.title''), (''album'', column ''media_file.album''),
     (''hascoverart'', column ''media_file.has_cover_art''), (''tracknumber'', column ''media_file.track_number''),
     (''discnumber'', column ''media_file.disc_number''), (''year'', column ''media_file.year''),
     (''date'', column ''media_file.date''), (''originalyear'', column ''media_file.original_year''),
     (''originaldate'', column ''media_file.original_date''), (''releaseyear'', column ''media_file.release_year''),
     (''releasedate'', column ''media_file.release_date''), (''size'', column ''media_file.size''),
     (''compilation'', column ''media_file.compilation''), (''missing'', column ''media_file.missing''),
     (''explicitstatus'', column ''media_file.explicit_status''), (''dateadded'', column ''media_file.created_at''),
     (''datemodified'', column ''media_file.updated_at''), (''discsubtitle'', column ''media_file.disc_subtitle''),
     (''comment'', column ''media_file.comment''), (''lyrics'', (column ''media_file.lyrics'')\<lparr>pf_emptyValues := [''[]'']\<rparr>),
     (''sorttitle'', column ''media_file.sort_title''), (''sortalbum'', column ''media_file.sort_album_name''),
     (''sortartist'', column ''media_file.sort_artist_name''),
     (''sortalbumartist'', column ''media_file.sort_album_artist_name''),
     (''albumcomment'', column ''media_file.mbz_album_comment''), (''catalognumber'', column ''media_file.catalog_num''),
     (''filepath'', column ''media_file.path''), (''filetype'', column ''media_file.suffix''),
     (''codec'', column ''media_file.codec''), (''duration'', column ''media_file.duration''),
     (''bitrate'', column ''media_file.bit_rate''), (''bitdepth'', column ''media_file.bit_depth''),
     (''samplerate'', column ''media_file.sample_rate''), (''bpm'', column ''media_file.bpm''),
     (''channels'', column ''media_file.channels''), (''loved'', defaulted (VBool False) (column ''annotation.starred'')),
     (''dateloved'', column ''annotation.starred_at''), (''lastplayed'', column ''annotation.play_date''),
     (''daterated'', column ''annotation.rated_at''), (''playcount'', defaulted (VNum 0) (column ''annotation.play_count'')),
     (''rating'', defaulted (VNum 0) (column ''annotation.rating'')),
     (''averagerating'', column ''media_file.average_rating''),
     (''albumrating'', defaulted (VNum 0) (joined smartPlaylistJoinAlbumAnnotation ''album_annotation.rating'')),
     (''albumloved'', defaulted (VBool False) (joined smartPlaylistJoinAlbumAnnotation ''album_annotation.starred'')),
     (''albumplaycount'', defaulted (VNum 0) (joined smartPlaylistJoinAlbumAnnotation ''album_annotation.play_count'')),
     (''albumlastplayed'', joined smartPlaylistJoinAlbumAnnotation ''album_annotation.play_date''),
     (''albumdateloved'', joined smartPlaylistJoinAlbumAnnotation ''album_annotation.starred_at''),
     (''albumdaterated'', joined smartPlaylistJoinAlbumAnnotation ''album_annotation.rated_at''),
     (''albumdateadded'', joined smartPlaylistJoinAlbum ''album.created_at''),
     (''albumdatemodified'', joined smartPlaylistJoinAlbum ''album.updated_at''),
     (''albumduration'', joined smartPlaylistJoinAlbum ''album.duration''),
     (''albumsongcount'', joined smartPlaylistJoinAlbum ''album.song_count''),
     (''albumsize'', joined smartPlaylistJoinAlbum ''album.size''),
     (''artistrating'', defaulted (VNum 0) (joined smartPlaylistJoinArtistAnnotation ''artist_annotation.rating'')),
     (''artistloved'', defaulted (VBool False) (joined smartPlaylistJoinArtistAnnotation ''artist_annotation.starred'')),
     (''artistplaycount'', defaulted (VNum 0) (joined smartPlaylistJoinArtistAnnotation ''artist_annotation.play_count'')),
     (''artistlastplayed'', joined smartPlaylistJoinArtistAnnotation ''artist_annotation.play_date''),
     (''artistdateloved'', joined smartPlaylistJoinArtistAnnotation ''artist_annotation.starred_at''),
     (''artistdaterated'', joined smartPlaylistJoinArtistAnnotation ''artist_annotation.rated_at''),
     (''mbz_album_id'', column ''media_file.mbz_album_id''), (''mbz_album_artist_id'', column ''media_file.mbz_album_artist_id''),
     (''mbz_artist_id'', column ''media_file.mbz_artist_id''), (''mbz_recording_id'', column ''media_file.mbz_recording_id''),
     (''mbz_release_track_id'', column ''media_file.mbz_release_track_id''),
     (''mbz_release_group_id'', column ''media_file.mbz_release_group_id''),
     (''rgalbumgain'', column ''media_file.rg_album_gain''), (''rgalbumpeak'', column ''media_file.rg_album_peak''),
     (''rgtrackgain'', column ''media_file.rg_track_gain''), (''rgtrackpeak'', column ''media_file.rg_track_peak''),
     (''library_id'', column ''media_file.library_id''), (''random'', (column [])\<lparr>pf_order := ''random()''\<rparr>)]"

section \<open>Conditions\<close>

datatype comparator = cmpEq | cmpNe | cmpGt | cmpGe | cmpLt | cmpLe

definition cmp_satisfy :: "comparator \<Rightarrow> rat \<Rightarrow> rat \<Rightarrow> bool" where
  "cmp_satisfy c a b =
     (case c of cmpEq \<Rightarrow> a = b | cmpNe \<Rightarrow> a \<noteq> b | cmpGt \<Rightarrow> a > b | cmpGe \<Rightarrow> a \<ge> b | cmpLt \<Rightarrow> a < b | cmpLe \<Rightarrow> a \<le> b)"

definition cmp_ordering :: "comparator \<Rightarrow> bool" where
  "cmp_ordering c \<longleftrightarrow> c \<noteq> cmpEq \<and> c \<noteq> cmpNe"

datatype sqlizer =
  SqlAnd "sqlizer list"
| SqlOr "sqlizer list"
| SqlCmp comparator "(string \<times> val) list" \<comment> \<open>\<open>squirrel.Eq\<close>, \<open>NotEq\<close>, \<open>Gt\<close>, \<open>GtOrEq\<close>, \<open>Lt\<close>, \<open>LtOrEq\<close> of columns\<close>
| SqlLike bool "(string \<times> string) list" \<comment> \<open>\<open>squirrel.Like\<close>, negated \<open>NotLike\<close>\<close>
| SqlInTracks bool sqlizer \<comment> \<open>\<open>media_file.id [NOT] IN (select media_file_id from playlist_tracks pl left join playlist \<dots> where \<dots>)\<close>\<close>
| SqlTrue \<comment> \<open>\<open>squirrel.Expr("1 = 1")\<close>\<close>
| TagCond string bool "sqlizer option" bool \<comment> \<open>tag, numeric, cond, not\<close>
| RoleCond string "sqlizer option" bool
| TagCondGroup string bool "sqlizer list" bool
| RoleCondGroup string "sqlizer list" bool

datatype criteria_sql_error =
  InvalidField string | NeedsOneField | InvalidBoolean string | UnsupportedMissing string | RangeOnTag string
| NotAPair string | TagWithOthers string | BadNumber string | NoPlaylistId

record SqlEnv =
  se_fields :: field_map
  se_owner :: User
  se_format :: "val \<Rightarrow> string" \<comment> \<open>\<open>fmt.Sprintf("%v", value)\<close>\<close>
  se_parseFloat :: "string \<Rightarrow> rat option" \<comment> \<open>\<open>strconv.ParseFloat\<close>\<close>
  se_now :: time_ns
  se_date :: "time_ns \<Rightarrow> string" \<comment> \<open>\<open>Time.Format("2006-01-02")\<close>\<close>

definition singleField :: "SqlEnv \<Rightarrow> (string \<times> val) list \<Rightarrow> (string \<times> val \<times> FieldInfo) option" where
  "singleField env values =
     (case values of [(field, value)] \<Rightarrow> map_option (\<lambda>info. (field, value, info)) (LookupField (se_fields env) field) | _ \<Rightarrow> None)"

definition fieldExpr :: "string \<Rightarrow> string option" where
  "fieldExpr name = map_option pf_expr (map_of smartPlaylistFields (ToLower name))"

definition put_entry :: "string \<Rightarrow> 'a \<Rightarrow> (string \<times> 'a) list \<Rightarrow> (string \<times> 'a) list" where
  "put_entry k v m = filter (\<lambda>e. fst e \<noteq> k) m @ [(k, v)]"

fun sqlFields_loop :: "SqlEnv \<Rightarrow> (string \<times> val) list \<Rightarrow> (string \<times> val) list \<Rightarrow> criteria_sql_error + (string \<times> val) list" where
  "sqlFields_loop env acc [] = Inr acc"
| "sqlFields_loop env acc ((field, value) # rest) =
     (case LookupField (se_fields env) field of
        None \<Rightarrow> Inl (InvalidField field)
      | Some info \<Rightarrow>
          if fi_IsTag info \<or> fi_IsRole info then Inl (TagWithOthers field)
          else (case fieldExpr (fi_name info) of
              None \<Rightarrow> Inl (InvalidField field)
            | Some sqlField \<Rightarrow>
                if sqlField = [] then Inl (InvalidField field)
                else sqlFields_loop env (put_entry sqlField value acc) rest))"

definition sqlFields :: "SqlEnv \<Rightarrow> (string \<times> val) list \<Rightarrow> criteria_sql_error + (string \<times> val) list" where
  "sqlFields env values = sqlFields_loop env [] values"

definition annotationField :: "FieldInfo \<Rightarrow> smartPlaylistField option" where
  "annotationField info =
     (case map_of smartPlaylistFields (fi_name info) of
        Some f \<Rightarrow> if pf_coalesceDefault f = None then None else Some f | None \<Rightarrow> None)"

definition sqlLiteral :: "SqlEnv \<Rightarrow> val \<Rightarrow> string" where "sqlLiteral env v = se_format env v"

definition coalesced :: "SqlEnv \<Rightarrow> smartPlaylistField \<Rightarrow> string" where
  "coalesced env f =
     (case pf_coalesceDefault f of
        None \<Rightarrow> pf_expr f | Some d \<Rightarrow> ''COALESCE('' @ pf_expr f @ '', '' @ sqlLiteral env d @ '')'')"

definition jsonExpr :: "FieldInfo \<Rightarrow> sqlizer option \<Rightarrow> bool \<Rightarrow> sqlizer" where
  "jsonExpr info cond negate =
     (if fi_IsRole info then RoleCond (fi_name info) cond negate else TagCond (fi_name info) (fi_Numeric info) cond negate)"

definition boolToFloat :: "bool \<Rightarrow> rat" where "boolToFloat b = (if b then 1 else 0)"

definition toFloat :: "SqlEnv \<Rightarrow> val \<Rightarrow> rat option" where
  "toFloat env v = (case v of VNum n \<Rightarrow> Some n | VStr s \<Rightarrow> se_parseFloat env s | _ \<Rightarrow> None)"

text \<open>\<open>bareNullInclusion\<close>: \<open>None\<close> where the code answers \<open>ok = false\<close>, otherwise \<open>wrapNull\<close>.\<close>

definition bareNullInclusion :: "SqlEnv \<Rightarrow> val \<Rightarrow> comparator \<Rightarrow> val \<Rightarrow> bool option" where
  "bareNullInclusion env defaultVal cmp value =
     (case defaultVal of
        VBool b \<Rightarrow>
          if cmp_ordering cmp then None
          else map_option (\<lambda>v. cmp_satisfy cmp (boolToFloat b) (boolToFloat v)) (ToBool value)
      | _ \<Rightarrow>
          (case (toFloat env defaultVal, toFloat env value) of
             (Some d, Some v) \<Rightarrow> Some (cmp_satisfy cmp d v) | _ \<Rightarrow> None))"

definition annotationCond :: "SqlEnv \<Rightarrow> smartPlaylistField \<Rightarrow> comparator \<Rightarrow> val \<Rightarrow> sqlizer" where
  "annotationCond env f cmp value =
     (case bareNullInclusion env (case pf_coalesceDefault f of Some d \<Rightarrow> d | None \<Rightarrow> VNull) cmp value of
        None \<Rightarrow> SqlCmp cmp [(coalesced env f, value)]
      | Some wrapNull \<Rightarrow>
          if wrapNull then SqlOr [SqlCmp cmp [(pf_expr f, value)], SqlCmp cmpEq [(pf_expr f, VNull)]]
          else SqlCmp cmp [(pf_expr f, value)])"

definition comparisonExpr :: "SqlEnv \<Rightarrow> (string \<times> val) list \<Rightarrow> comparator \<Rightarrow> criteria_sql_error + sqlizer" where
  "comparisonExpr env values cmp =
     (let plain = map_sum id (SqlCmp cmp) (sqlFields env values)
      in case singleField env values of
          Some (_, value, info) \<Rightarrow>
            if fi_IsTag info \<or> fi_IsRole info then Inr (jsonExpr info (Some (SqlCmp cmp [(''value'', value)])) False)
            else (case annotationField info of Some f \<Rightarrow> Inr (annotationCond env f cmp value) | None \<Rightarrow> plain)
        | None \<Rightarrow> plain)"

definition isNotExpr :: "SqlEnv \<Rightarrow> (string \<times> val) list \<Rightarrow> criteria_sql_error + sqlizer" where
  "isNotExpr env values =
     (case singleField env values of
        Some (_, value, info) \<Rightarrow>
          if fi_IsTag info \<or> fi_IsRole info then Inr (jsonExpr info (Some (SqlCmp cmpEq [(''value'', value)])) True)
          else comparisonExpr env values cmpNe
      | None \<Rightarrow> comparisonExpr env values cmpNe)"

definition missing_column :: "string \<Rightarrow> string list \<Rightarrow> bool \<Rightarrow> sqlizer" where
  "missing_column col empties negate =
     (if negate then SqlOr (SqlCmp cmpEq [(col, VNull)] # map (\<lambda>e. SqlCmp cmpEq [(col, VStr e)]) empties)
      else SqlAnd (SqlCmp cmpNe [(col, VNull)] # map (\<lambda>e. SqlCmp cmpNe [(col, VStr e)]) empties))"

definition missingExpr :: "SqlEnv \<Rightarrow> (string \<times> val) list \<Rightarrow> bool \<Rightarrow> criteria_sql_error + sqlizer" where
  "missingExpr env values checkAbsence =
     (case singleField env values of
        None \<Rightarrow> (case values of [(field, _)] \<Rightarrow> Inl (InvalidField field) | _ \<Rightarrow> Inl NeedsOneField)
      | Some (field, value, info) \<Rightarrow>
          (case value of
             VBool b \<Rightarrow>
               (let negate = (checkAbsence = b)
                in if fi_IsTag info \<or> fi_IsRole info then Inr (jsonExpr info None negate)
                   else if fi_Nullable info then
                     (case map_of smartPlaylistFields (fi_name info) of
                        None \<Rightarrow> Inl (InvalidField field)
                      | Some f \<Rightarrow>
                          if pf_expr f = [] then Inl (InvalidField field)
                          else Inr (missing_column (pf_expr f)
                                 (if \<not> fi_Numeric info \<and> \<not> fi_Boolean info then [] # pf_emptyValues f else []) negate))
                   else Inl (UnsupportedMissing field))
           | _ \<Rightarrow> Inl (InvalidBoolean field)))"

text \<open>The \<open>LIKE\<close> patterns \<open>%%%v%%\<close>, \<open>%v%%\<close> and \<open>%%%v\<close>.\<close>

definition like_pattern :: "SqlEnv \<Rightarrow> bool \<times> bool \<Rightarrow> val \<Rightarrow> string" where
  "like_pattern env p v = (if fst p then ''%'' else []) @ se_format env v @ (if snd p then ''%'' else [])"

definition likeExpr :: "SqlEnv \<Rightarrow> (string \<times> val) list \<Rightarrow> bool \<times> bool \<Rightarrow> bool \<Rightarrow> criteria_sql_error + sqlizer" where
  "likeExpr env values p negate =
     (let plain = map_sum id (\<lambda>m. SqlLike negate (map (\<lambda>(f, v). (f, like_pattern env p v)) m)) (sqlFields env values)
      in case singleField env values of
          Some (_, value, info) \<Rightarrow>
            if fi_IsTag info \<or> fi_IsRole info then
              Inr (jsonExpr info (Some (SqlLike False [(''value'', like_pattern env p value)])) negate)
            else (case annotationField info of
                Some f \<Rightarrow> Inr (SqlLike negate [(coalesced env f, like_pattern env p value)]) | None \<Rightarrow> plain)
        | None \<Rightarrow> plain)"

definition rangeExpr :: "SqlEnv \<Rightarrow> (string \<times> val) list \<Rightarrow> criteria_sql_error + sqlizer" where
  "rangeExpr env values =
     (case singleField env values of
        None \<Rightarrow> Inl (InvalidField (case values of [(field, _)] \<Rightarrow> field | _ \<Rightarrow> []))
      | Some (field, value, info) \<Rightarrow>
          if fi_IsTag info \<or> fi_IsRole info then Inl (RangeOnTag field)
          else (case value of
              VArr [low, high] \<Rightarrow>
                bind_result (comparisonExpr env [(field, low)] cmpGe)
                  (\<lambda>l. bind_result (comparisonExpr env [(field, high)] cmpLe) (\<lambda>h. Inr (SqlAnd [l, h])))
            | _ \<Rightarrow> Inl (NotAPair field)))"

definition startOfPeriod :: "SqlEnv \<Rightarrow> go_int \<Rightarrow> time_ns \<Rightarrow> string" where
  "startOfPeriod env numDays from = se_date env (from + wrap64 (wrap64 (-24 * numDays) * 3600000000000))"

definition first_entry :: "(string \<times> val) list \<Rightarrow> string \<times> val" where
  "first_entry m = (case m of e # _ \<Rightarrow> e | [] \<Rightarrow> ([], VNull))"

definition period_cond :: "string \<Rightarrow> string \<Rightarrow> bool \<Rightarrow> sqlizer" where
  "period_cond field firstDate negate =
     (if negate then SqlOr [SqlCmp cmpLt [(field, VStr firstDate)], SqlCmp cmpEq [(field, VNull)]]
      else SqlCmp cmpGt [(field, VStr firstDate)])"

definition periodExpr :: "SqlEnv \<Rightarrow> (string \<times> val) list \<Rightarrow> bool \<Rightarrow> criteria_sql_error + sqlizer" where
  "periodExpr env values negate =
     bind_result (sqlFields env values) (\<lambda>m.
       case Atoi (se_format env (snd (first_entry m))) of
         None \<Rightarrow> Inl (BadNumber (se_format env (snd (first_entry m))))
       | Some days \<Rightarrow> Inr (period_cond (fst (first_entry m)) (startOfPeriod env days (se_now env)) negate))"

definition inList :: "SqlEnv \<Rightarrow> (string \<times> val) list \<Rightarrow> bool \<Rightarrow> criteria_sql_error + sqlizer" where
  "inList env values negate =
     (case map_of values ''id'' of
        Some (VStr playlistID) \<Rightarrow>
          (let owner = se_owner env;
               visible = (if u_IsAdmin owner then []
                 else if u_ID owner = [] then [SqlCmp cmpEq [(''playlist.public'', VNum 1)]]
                 else [SqlOr [SqlCmp cmpEq [(''playlist.public'', VNum 1)], SqlCmp cmpEq [(''playlist.owner_id'', VStr (u_ID owner))]]])
           in Inr (SqlInTracks negate (SqlAnd (SqlCmp cmpEq [(''pl.playlist_id'', VStr playlistID)] # visible))))
      | _ \<Rightarrow> Inl NoPlaylistId)"

section \<open>Merging conditions on one tag or role\<close>

definition jsonCondBatchSize :: nat where "jsonCondBatchSize = 350"

text \<open>\<open>slices.Chunk\<close>: consecutive parts of \<open>n\<close> elements, the last one possibly shorter.\<close>

function chunk :: "nat \<Rightarrow> 'a list \<Rightarrow> 'a list list" where
  "chunk n xs = (if xs = [] \<or> n = 0 then [] else take n xs # chunk n (drop n xs))"
  by pat_completeness auto
termination by (relation "measure (length \<circ> snd)") auto

declare chunk.simps [simp del]

lemma concat_chunk: "0 < n \<Longrightarrow> concat (chunk n xs) = xs"
  by (induction n xs rule: chunk.induct) (subst chunk.simps, auto)

text \<open>The tag of a group decides whether its values are read as numbers.\<close>

definition group_key :: "bool \<Rightarrow> sqlizer \<Rightarrow> string option" where
  "group_key negated s =
     (case s of
        RoleCond role (Some _) n \<Rightarrow> if n = negated then Some (''role:'' @ role) else None
      | TagCond tag _ (Some _) n \<Rightarrow> if n = negated then Some (''tag:'' @ tag) else None
      | _ \<Rightarrow> None)"

definition inner_cond :: "sqlizer \<Rightarrow> sqlizer" where
  "inner_cond s = (case s of RoleCond _ (Some c) _ \<Rightarrow> c | TagCond _ _ (Some c) _ \<Rightarrow> c | _ \<Rightarrow> s)"

definition group_of :: "bool \<Rightarrow> string \<Rightarrow> sqlizer list \<Rightarrow> sqlizer list" where
  "group_of negated key conds = filter (\<lambda>s. group_key negated s = Some key) conds"

definition merged_key :: "bool \<Rightarrow> sqlizer list \<Rightarrow> string \<Rightarrow> bool" where
  "merged_key negated conds key \<longleftrightarrow> 2 \<le> length (group_of negated key conds)"

definition merge_group :: "bool \<Rightarrow> sqlizer list \<Rightarrow> string \<Rightarrow> sqlizer list" where
  "merge_group negated conds key =
     (let g = group_of negated key conds
      in if length g < 2 then []
         else map (\<lambda>batch. case hd g of
                TagCond tag numeric _ _ \<Rightarrow> TagCondGroup tag numeric batch negated
              | _ \<Rightarrow> RoleCondGroup (drop (length ''role:'') key) batch negated)
            (chunk jsonCondBatchSize (map inner_cond g)))"

definition group_keys :: "bool \<Rightarrow> sqlizer list \<Rightarrow> string list" where
  "group_keys negated conds = remdups_adj (sort (List.map_filter (group_key negated) conds))"

definition mergeSameFieldConds :: "bool \<Rightarrow> sqlizer list \<Rightarrow> sqlizer list \<times> bool" where
  "mergeSameFieldConds negated conds =
     (let removed = (\<lambda>s. case group_key negated s of Some key \<Rightarrow> merged_key negated conds key | None \<Rightarrow> False)
      in if \<not> list_ex removed conds then (conds, False)
         else (filter (\<lambda>s. \<not> removed s) conds @ concat (map (merge_group negated conds) (group_keys negated conds)), True))"

definition mergeJsonConds :: "sqlizer list \<Rightarrow> sqlizer" where
  "mergeJsonConds conds = (case mergeSameFieldConds False conds of (merged, ok) \<Rightarrow> if ok then SqlOr merged else SqlOr conds)"

definition mergeNegatedJsonConds :: "sqlizer list \<Rightarrow> sqlizer" where
  "mergeNegatedJsonConds conds = (case mergeSameFieldConds True conds of (merged, ok) \<Rightarrow> if ok then SqlAnd merged else SqlAnd conds)"

definition ruleSQL :: "SqlEnv \<Rightarrow> operator \<Rightarrow> (string \<times> val) list \<Rightarrow> criteria_sql_error + sqlizer" where
  "ruleSQL env op fs =
     (case op of
        Is \<Rightarrow> comparisonExpr env fs cmpEq
      | IsNot \<Rightarrow> isNotExpr env fs
      | Gt \<Rightarrow> comparisonExpr env fs cmpGt
      | Lt \<Rightarrow> comparisonExpr env fs cmpLt
      | Before \<Rightarrow> comparisonExpr env fs cmpLt
      | After \<Rightarrow> comparisonExpr env fs cmpGt
      | OpContains \<Rightarrow> likeExpr env fs (True, True) False
      | NotContains \<Rightarrow> likeExpr env fs (True, True) True
      | StartsWith \<Rightarrow> likeExpr env fs (False, True) False
      | EndsWith \<Rightarrow> likeExpr env fs (True, False) False
      | InTheRange \<Rightarrow> rangeExpr env fs
      | InTheLast \<Rightarrow> periodExpr env fs False
      | NotInTheLast \<Rightarrow> periodExpr env fs True
      | InPlaylist \<Rightarrow> inList env fs False
      | NotInPlaylist \<Rightarrow> inList env fs True
      | IsMissing \<Rightarrow> missingExpr env fs True
      | IsPresent \<Rightarrow> missingExpr env fs False)"

fun exprSQL :: "SqlEnv \<Rightarrow> Expression \<Rightarrow> criteria_sql_error + sqlizer" where
  "exprSQL env (All es) = map_sum id mergeNegatedJsonConds (collect (map (exprSQL env) es))"
| "exprSQL env (Any es) = map_sum id mergeJsonConds (collect (map (exprSQL env) es))"
| "exprSQL env (Rule op fs) = ruleSQL env op fs"

definition criteria_Where :: "SqlEnv \<Rightarrow> Criteria \<Rightarrow> criteria_sql_error + sqlizer" where
  "criteria_Where env c = (case cr_Expression c of None \<Rightarrow> Inr SqlTrue | Some e \<Rightarrow> exprSQL env e)"

section \<open>Text\<close>

text \<open>
  What squirrel writes: \<open>sq_cond\<close> for a comparison, \<open>sq_join\<close> for the parts of an \<open>And\<close> or \<open>Or\<close>,
  \<open>sq_subquery\<close> for the selection of \<open>inList\<close> with its filters. A text comes with the bound values.
\<close>

type_synonym sql_text = "string \<times> val list"

record Squirrel =
  sq_cond :: "sqlizer \<Rightarrow> string + sql_text"
  sq_join :: "bool \<Rightarrow> sql_text list \<Rightarrow> sql_text"
  sq_subquery :: "sqlizer \<Rightarrow> string + sql_text"

definition roleCondSQL :: "string + sql_text \<Rightarrow> string + sql_text" where
  "roleCondSQL t = map_sum id (\<lambda>(sql, args). (ReplaceAll sql ''value'' ''artist.name'', args)) t"

definition roleExistsSQL :: "string \<Rightarrow> string" where
  "roleExistsSQL innerCond =
     ''exists (select 1 from media_file_artists mfa join artist on artist.id = mfa.artist_id '' @
     ''where mfa.media_file_id = media_file.id and mfa.role = ? and '' @ innerCond @ '')''"

definition not_sql :: "bool \<Rightarrow> string \<Rightarrow> string" where
  "not_sql n cond = (if n then ''not '' @ cond else cond)"

definition numeric_value :: "bool \<Rightarrow> string \<Rightarrow> string" where
  "numeric_value numeric cond = (if numeric then ReplaceAll cond ''value'' ''CAST(value AS REAL)'' else cond)"

definition tag_exists :: "string \<Rightarrow> string option \<Rightarrow> string" where
  "tag_exists tag cond =
     ''exists (select 1 from json_tree(media_file.tags, '' @ [CHR 0x27] @ ''$.'' @ tag @ [CHR 0x27] @ '') where key='' @
     [CHR 0x27] @ ''value'' @ [CHR 0x27] @ (case cond of Some c \<Rightarrow> '' and '' @ c | None \<Rightarrow> []) @ '')''"

text \<open>The methods \<open>ToSql\<close> of \<open>tagCond\<close>, \<open>roleCond\<close> and their groups, over the texts of the parts.\<close>

definition tagCond_ToSql :: "string \<Rightarrow> bool \<Rightarrow> (string + sql_text) option \<Rightarrow> bool \<Rightarrow> string + sql_text" where
  "tagCond_ToSql tag numeric cond n =
     (case cond of
        Some t \<Rightarrow> map_sum id (\<lambda>(sql, args). (not_sql n (tag_exists tag (Some (numeric_value numeric sql))), args)) t
      | None \<Rightarrow> Inr (not_sql n (tag_exists tag None), []))"

definition roleCond_ToSql :: "string \<Rightarrow> (string + sql_text) option \<Rightarrow> bool \<Rightarrow> string + sql_text" where
  "roleCond_ToSql role cond n =
     (case cond of
        Some t \<Rightarrow> map_sum id (\<lambda>(sql, args). (not_sql n (roleExistsSQL sql), VStr role # args)) (roleCondSQL t)
      | None \<Rightarrow> Inr (not_sql n (''exists (select 1 from media_file_artists mfa where mfa.media_file_id = media_file.id and mfa.role = ?)''),
                  [VStr role]))"

definition roleCondGroup_ToSql :: "string \<Rightarrow> (string + sql_text) list \<Rightarrow> bool \<Rightarrow> string + sql_text" where
  "roleCondGroup_ToSql role conds n =
     map_sum id (\<lambda>ts. (not_sql n (roleExistsSQL (''('' @ Join (map fst ts) '' OR '' @ '')'')), VStr role # concat (map snd ts)))
       (collect (map roleCondSQL conds))"

definition tagCondGroup_ToSql :: "string \<Rightarrow> bool \<Rightarrow> (string + sql_text) list \<Rightarrow> bool \<Rightarrow> string + sql_text" where
  "tagCondGroup_ToSql tag numeric conds n =
     map_sum id (\<lambda>ts. (not_sql n (tag_exists tag (Some (''('' @ Join (map (numeric_value numeric \<circ> fst) ts) '' OR '' @ '')''))),
         concat (map snd ts)))
       (collect conds)"

fun ToSql :: "Squirrel \<Rightarrow> sqlizer \<Rightarrow> string + sql_text" where
  "ToSql sq (SqlAnd ss) = map_sum id (sq_join sq True) (collect (map (ToSql sq) ss))"
| "ToSql sq (SqlOr ss) = map_sum id (sq_join sq False) (collect (map (ToSql sq) ss))"
| "ToSql sq (SqlInTracks negate filters) =
     map_sum id (\<lambda>(sql, args). ((if negate then ''media_file.id NOT IN ('' else ''media_file.id IN ('') @ sql @ '')'', args))
       (sq_subquery sq filters)"
| "ToSql sq (TagCond tag numeric cond n) = tagCond_ToSql tag numeric (map_option (ToSql sq) cond) n"
| "ToSql sq (RoleCond role cond n) = roleCond_ToSql role (map_option (ToSql sq) cond) n"
| "ToSql sq (TagCondGroup tag numeric conds n) = tagCondGroup_ToSql tag numeric (map (ToSql sq) conds) n"
| "ToSql sq (RoleCondGroup role conds n) = roleCondGroup_ToSql role (map (ToSql sq) conds) n"
| "ToSql sq s = sq_cond sq s"

section \<open>Joins and order\<close>

definition fieldJoinType :: "SqlEnv \<Rightarrow> string \<Rightarrow> smartPlaylistJoinType" where
  "fieldJoinType env name =
     (case LookupField (se_fields env) name of
        None \<Rightarrow> smartPlaylistJoinNone
      | Some info \<Rightarrow>
          (case map_of smartPlaylistFields (fi_name info) of None \<Rightarrow> smartPlaylistJoinNone | Some f \<Rightarrow> pf_joinType f))"

definition join_visitor :: "SqlEnv \<Rightarrow> Expression \<Rightarrow> smartPlaylistJoinType \<Rightarrow> unit + smartPlaylistJoinType" where
  "join_visitor env e joins = Inr (fold (\<lambda>kv j. j OR fieldJoinType env (fst kv)) (expr_fields e) joins)"

definition ExpressionJoins :: "SqlEnv \<Rightarrow> Criteria \<Rightarrow> smartPlaylistJoinType" where
  "ExpressionJoins env c =
     (case cr_Expression c of
        None \<Rightarrow> smartPlaylistJoinNone
      | Some e \<Rightarrow> (case Walk (join_visitor env) e smartPlaylistJoinNone of Inr j \<Rightarrow> j | Inl _ \<Rightarrow> smartPlaylistJoinNone))"

definition RequiredJoins :: "SqlEnv \<Rightarrow> Criteria \<Rightarrow> smartPlaylistJoinType" where
  "RequiredJoins env c =
     fold (\<lambda>name j. j OR fieldJoinType env name) (SortFieldNames (se_fields env) c) (ExpressionJoins env c)"

definition json_first :: "string \<Rightarrow> string \<Rightarrow> string \<Rightarrow> string" where
  "json_first col name member =
     ''COALESCE(json_extract('' @ col @ '', '' @ [CHR 0x27] @ ''$.'' @ name @ ''[0].'' @ member @ [CHR 0x27] @ ''), '' @
     [CHR 0x27, CHR 0x27] @ '')''"

definition sort_column :: "SqlEnv \<Rightarrow> FieldInfo \<Rightarrow> smartPlaylistField option \<Rightarrow> string option" where
  "sort_column env info field =
     map_option (\<lambda>mapped. if fi_Numeric info then ''CAST('' @ mapped @ '' AS REAL)'' else mapped)
       (if fi_IsTag info then Some (json_first ''media_file.tags'' (fi_name info) ''value'')
        else if fi_IsRole info then Some (json_first ''media_file.participants'' (fi_name info) ''name'')
        else case field of None \<Rightarrow> None | Some f \<Rightarrow> if pf_expr f = [] then None else Some (coalesced env f))"

definition sortExpr :: "SqlEnv \<Rightarrow> string \<Rightarrow> string option" where
  "sortExpr env sortField =
     (case LookupField (se_fields env) sortField of
        None \<Rightarrow> None
      | Some info \<Rightarrow>
          (case map_of smartPlaylistFields (fi_name info) of
             Some f \<Rightarrow> if pf_order f \<noteq> [] then Some (pf_order f) else sort_column env info (Some f)
           | None \<Rightarrow> sort_column env info None))"

definition OrderBy :: "SqlEnv \<Rightarrow> Criteria \<Rightarrow> string" where
  "OrderBy env c =
     Join (concat (map (\<lambda>sf. case sortExpr env (sf_Field sf) of
              None \<Rightarrow> [] | Some mapped \<Rightarrow> [mapped @ '' '' @ (if sf_Desc sf then ''desc'' else ''asc'')])
            (OrderByFields (se_fields env) c))) '', ''"

end
