(* ===== verification/Model_Criteria_Correct.thy ===== *)
theory Model_Criteria_Correct
  imports Model_Criteria "HOL-Library.Multiset"
begin

text \<open>
  Smart playlist rules: what is read can be saved and read again; limits and child playlists.
\<close>

section \<open>Reading and writing\<close>

lemma collect_map_Inr [simp]: "collect (map Inr xs) = Inr xs"
  by (induction xs) simp_all

lemma collect_InrD: "collect rs = Inr xs \<Longrightarrow> rs = map Inr xs"
  by (induction rs arbitrary: xs) (auto simp: bind_result_Inr)

lemma collect_Inr: "collect rs = Inr xs \<longleftrightarrow> rs = map Inr xs"
  using collect_InrD by auto

lemma set_last_entries: "set (last_entries es) \<subseteq> set es"
  by (induction es) auto

lemma last_entries_keys [simp]: "fst ` set (last_entries es) = fst ` set es"
  by (induction es) (simp_all add: insert_absorb)

lemma distinct_last_entries: "distinct (map fst (last_entries es))"
proof (induction es)
  case (Cons e es)
  then show ?case using last_entries_keys [of es] by (auto simp del: last_entries_keys)
qed simp

lemma last_entries_distinct: "distinct (map fst es) \<Longrightarrow> last_entries es = es"
  by (induction es) auto

lemma map_entries_simps [simp]: "map_entries [] = []" "map_entries [e] = [e]"
  by (simp_all add: map_entries_def)

lemma set_map_entries: "set (map_entries es) \<subseteq> set es"
  using set_last_entries [of es] by (simp add: map_entries_def)

lemma map_entries_idem [simp]: "map_entries (map_entries es) = map_entries es"
proof -
  have "distinct (map fst (sort_key fst (last_entries es)))"
    using distinct_last_entries [of es] by (simp add: distinct_map)
  then show ?thesis by (simp add: map_entries_def last_entries_distinct sort_key_id_if_sorted)
qed

lemma decoded_idem [simp]: "decoded (decoded v) = decoded v"
proof (induction v rule: decoded.induct)
  case (2 kvs)
  let ?m = "map_entries (map (\<lambda>e. (fst e, decoded (snd e))) kvs)"
  have "map (\<lambda>e. (fst e, decoded (snd e))) ?m = ?m"
    using 2 set_map_entries [of "map (\<lambda>e. (fst e, decoded (snd e))) kvs"] by (force intro!: map_idI)
  then show ?case by simp
qed simp_all

lemma normalizeBoolValue_cases: "normalizeBoolValue v = v \<or> (\<exists>b. normalizeBoolValue v = VBool b)"
  by (simp add: normalizeBoolValue_def split: option.split)

lemma normalizeBoolValue_idem [simp]: "normalizeBoolValue (normalizeBoolValue v) = normalizeBoolValue v"
  by (auto simp: normalizeBoolValue_def ToBool_def split: option.split)

lemma decoded_normalize: "decoded v = v \<Longrightarrow> decoded (normalizeBoolValue v) = normalizeBoolValue v"
  using normalizeBoolValue_cases [of v] by auto

text \<open>What reading leaves in a rule: decoded values, and a \<open>bool\<close> wherever the field or the operator asks for one.\<close>

definition boolean_field :: "field_map \<Rightarrow> string \<Rightarrow> bool" where
  "boolean_field fm f \<longleftrightarrow> (case LookupField fm f of Some info \<Rightarrow> fi_Boolean info | None \<Rightarrow> False)"

fun settled :: "field_map \<Rightarrow> Expression \<Rightarrow> bool" where
  "settled fm (All es) \<longleftrightarrow> list_all (settled fm) es"
| "settled fm (Any es) \<longleftrightarrow> list_all (settled fm) es"
| "settled fm (Rule op fs) \<longleftrightarrow> list_all (\<lambda>(f, v). decoded v = v \<and>
     (boolean_field fm f \<or> op = IsMissing \<or> op = IsPresent \<longrightarrow> normalizeBoolValue v = v)) fs"

lemma normalizeBoolFields_alt:
  "normalizeBoolFields fm m = map (\<lambda>(f, v). (f, if boolean_field fm f then normalizeBoolValue v else v)) m"
  by (auto simp: normalizeBoolFields_def boolean_field_def split: option.split)

lemma decode_map_decoded: "decode_map v = Some m \<Longrightarrow> (f, w) \<in> set m \<Longrightarrow> decoded w = w"
proof (cases v)
  case (VObj kvs)
  assume "decode_map v = Some m" "(f, w) \<in> set m"
  then have "(f, w) \<in> set (map (\<lambda>e. (fst e, decoded (snd e))) kvs)"
    using set_map_entries [of "map (\<lambda>e. (fst e, decoded (snd e))) kvs"] by (auto simp: decode_map_def VObj)
  then show ?thesis by auto
qed (auto simp: decode_map_def)

lemma unmarshalExpression_settled:
  assumes "unmarshalExpression fm k v = Some e"
  shows "settled fm e"
proof -
  obtain m op where m: "decode_map v = Some m"
    and op: "e = Rule op (if op = IsMissing \<or> op = IsPresent then normalizeAllBoolFields (normalizeBoolFields fm m)
                else normalizeBoolFields fm m)"
    using assms by (auto simp: unmarshalExpression_def Let_def split: option.splits)
  have "decoded w = w \<and> (boolean_field fm f \<longrightarrow> normalizeBoolValue w = w)"
    if "(f, w) \<in> set (normalizeBoolFields fm m)" for f w
    using that decode_map_decoded [OF m] by (auto simp: normalizeBoolFields_alt decoded_normalize)
  then show ?thesis by (fastforce simp: op list_all_iff normalizeAllBoolFields_def decoded_normalize)
qed

lemma unmarshal_list_Inr:
  "unmarshal_list fm ord v = Inr es \<longleftrightarrow>
     v = VNull \<and> es = [] \<or>
     (\<exists>vs ess. v = VArr vs \<and> list_all decodes_to_map vs \<and> map (unmarshal_element fm ord) vs = map Inr ess \<and> es = concat ess)"
proof (cases v)
  case (VArr vs)
  show ?thesis
  proof (cases "collect (map (unmarshal_element fm ord) vs)")
    case (Inr ess)
    then show ?thesis by (auto simp: VArr unmarshal_list.simps collect_Inr [symmetric])
  qed (auto simp: VArr unmarshal_list.simps collect_Inr [symmetric])
qed (auto simp: unmarshal_list.simps)

lemma unmarshal_element_Inr:
  assumes "\<And>es. mset (ord es) = mset es" "unmarshal_element fm ord v = Inr es" "e \<in> set es"
  shows "\<exists>kvs kv. v = VObj kvs \<and> kv \<in> set kvs \<and> unmarshal_member fm ord (ToLower (fst kv)) (snd kv) = Inr e"
proof -
  let ?h = "\<lambda>e. (fst e, unmarshal_member fm ord (ToLower (fst e)) (snd e))"
  obtain kvs where kvs: "v = VObj kvs" using assms(2,3) by (cases v) (auto simp: unmarshal_element.simps)
  have "map snd (ord (map_entries (map ?h kvs))) = map Inr es"
    using assms(2) by (simp add: kvs unmarshal_element.simps collect_Inr)
  then have "set (map snd (ord (map_entries (map ?h kvs)))) = Inr ` set es" by simp
  then have "Inr e \<in> snd ` set (map_entries (map ?h kvs))"
    unfolding set_map mset_eq_setD [OF assms(1)] using assms(3) by blast
  then have "Inr e \<in> snd ` set (map ?h kvs)" using set_map_entries [of "map ?h kvs"] by blast
  then obtain kv where "kv \<in> set kvs" "Inr e = unmarshal_member fm ord (ToLower (fst kv)) (snd kv)" by auto
  then show ?thesis using kvs by metis
qed

lemma unmarshal_settled:
  "unmarshal_list fm ord v = Inr es \<Longrightarrow> (\<And>es. mset (ord es) = mset es) \<Longrightarrow> list_all (settled fm) es"
  "unmarshal_element fm ord v = Inr es \<Longrightarrow> (\<And>es. mset (ord es) = mset es) \<Longrightarrow> list_all (settled fm) es"
  "unmarshal_member fm ord k v = Inr e \<Longrightarrow> (\<And>es. mset (ord es) = mset es) \<Longrightarrow> settled fm e"
proof (induction fm ord v and fm ord v and fm ord k v arbitrary: es and es and e
    rule: unmarshal_list_unmarshal_element_unmarshal_member.induct)
  case (1 fm ord v)
  consider "es = []" | vs ess where "v = VArr vs" "list_all decodes_to_map vs"
      "map (unmarshal_element fm ord) vs = map Inr ess" "es = concat ess"
    using 1(2) by (auto simp: unmarshal_list_Inr)
  then show ?case
  proof cases
    case (2 vs ess)
    have "\<exists>x\<in>set vs. unmarshal_element fm ord x = Inr xs" if "xs \<in> set ess" for xs
      using that 2(3) by (metis image_iff image_set)
    then show ?thesis using 1(1) [OF 2(1,2)] 1(3) 2(4) by (fastforce simp: list_all_iff)
  qed simp
next
  case (2 fm ord v)
  show ?case
  proof (unfold list_all_iff, intro ballI)
    fix e assume "e \<in> set es"
    from unmarshal_element_Inr [OF 2(3,2) this] 2(1,3) show "settled fm e" by blast
  qed
next
  case (3 fm ord k v)
  then show ?case
    by (auto simp: unmarshal_member.simps unmarshalExpression_settled split: option.splits sum.splits if_splits)
qed

text \<open>The expressions that survive saving: groups with a member, rules on exactly one field.\<close>

fun saveable :: "Expression \<Rightarrow> bool" where
  "saveable (All es) \<longleftrightarrow> es \<noteq> [] \<and> list_all saveable es"
| "saveable (Any es) \<longleftrightarrow> es \<noteq> [] \<and> list_all saveable es"
| "saveable (Rule op fs) \<longleftrightarrow> (case fs of [(f, v)] \<Rightarrow> plain_key f | _ \<Rightarrow> False)"

lemma operator_named_name [simp]: "operator_named (ToLower (operator_name op)) = Some op"
  by (induction op) code_simp+

lemma unmarshal_rule:
  assumes "settled fm (Rule op [(f, v)])"
  shows "unmarshal_member fm ord (ToLower (operator_name op)) (VObj [(f, v)]) = Inr (Rule op [(f, v)])"
  using assms
  by (auto simp: unmarshal_member.simps unmarshalExpression_def decode_map_def Let_def
      normalizeBoolFields_alt normalizeAllBoolFields_def)

lemma ord_singleton: "(\<And>es. mset (ord es) = mset es) \<Longrightarrow> ord [x] = [x]"
  by (metis mset_single_iff_right mset.simps)

text \<open>An expression written out is an object with one member, and that member reads back.\<close>

definition reads_back :: "field_map \<Rightarrow> member_order \<Rightarrow> Expression \<Rightarrow> val \<Rightarrow> bool" where
  "reads_back fm ord e v \<longleftrightarrow> (\<exists>k w. v = VObj [(k, w)] \<and> unmarshal_member fm ord (ToLower k) w = Inr e)"

lemma unmarshal_group:
  assumes ord: "\<And>es. mset (ord es) = mset es" and "list_all2 (reads_back fm ord) es vs"
  shows "unmarshal_list fm ord (VArr vs) = Inr es"
proof -
  have one: "unmarshal_element fm ord v = Inr [e]" "decodes_to_map v" if "reads_back fm ord e v" for e v
    using that ord_singleton [OF ord] by (auto simp: reads_back_def unmarshal_element.simps decodes_to_map_def)
  have "map (unmarshal_element fm ord) vs = map Inr (map (\<lambda>e. [e]) es)" "list_all decodes_to_map vs"
    using assms(2) one by (induction rule: list_all2_induct) auto
  then have "collect (map (unmarshal_element fm ord) vs) = Inr (map (\<lambda>e. [e]) es)" by (simp only: collect_Inr)
  with \<open>list_all decodes_to_map vs\<close> show ?thesis by (simp add: unmarshal_list.simps)
qed

lemma marshalled_list:
  assumes "\<And>e. e \<in> set es \<Longrightarrow> \<exists>v. f e = Inr v \<and> P e v"
  shows "\<exists>vs. collect (map f es) = Inr vs \<and> list_all2 P es vs"
  using assms
proof (induction es)
  case (Cons e es)
  obtain v where "f e = Inr v" "P e v" using Cons(2) [of e] by auto
  moreover obtain vs where "collect (map f es) = Inr vs" "list_all2 P es vs" using Cons by auto
  ultimately show ?case by auto
qed simp

lemma unmarshal_conjunction:
  assumes "unmarshal_list fm ord (VArr vs) = Inr es"
  shows "unmarshal_member fm ord ''all'' (VArr vs) = Inr (All es)" "unmarshal_member fm ord ''any'' (VArr vs) = Inr (Any es)"
  using assms by (simp_all add: unmarshal_member.simps unmarshalExpression_def decode_map_def)

lemma lower_groups [simp]: "ToLower ''all'' = ''all''" "ToLower ''any'' = ''any''"
  by (simp_all add: ToLower_def char_lower_def byte_def)

lemma expr_roundtrip:
  assumes ord: "\<And>es. mset (ord es) = mset es"
  shows "saveable e \<Longrightarrow> settled fm e \<Longrightarrow> \<exists>v. expr_MarshalJSON raw e = Inr v \<and> reads_back fm ord e v"
proof (induction e)
  case (All es)
  then obtain vs where vs: "collect (map (expr_MarshalJSON raw) es) = Inr vs" "list_all2 (reads_back fm ord) es vs"
    using marshalled_list [of es "expr_MarshalJSON raw" "reads_back fm ord"] by (auto simp: list_all_iff)
  then have "vs \<noteq> []" using All(2) by (auto simp: list_all2_iff)
  with vs show ?case
    by (simp add: marshalConjunction_def omitempty_def reads_back_def
        unmarshal_conjunction [OF unmarshal_group [OF ord vs(2)]])
next
  case (Any es)
  then obtain vs where vs: "collect (map (expr_MarshalJSON raw) es) = Inr vs" "list_all2 (reads_back fm ord) es vs"
    using marshalled_list [of es "expr_MarshalJSON raw" "reads_back fm ord"] by (auto simp: list_all_iff)
  then have "vs \<noteq> []" using Any(2) by (auto simp: list_all2_iff)
  with vs show ?case
    by (simp add: marshalConjunction_def omitempty_def reads_back_def
        unmarshal_conjunction [OF unmarshal_group [OF ord vs(2)]])
next
  case (Rule op fs)
  then obtain f v where fs: "fs = [(f, v)]" "plain_key f" by (auto split: list.splits)
  then show ?case
    using unmarshal_rule [of fm op f v ord] Rule(2) by (simp add: marshalExpression_def reads_back_def)
qed

lemma int_member_of_int [simp]: "in_int64 i \<Longrightarrow> int_member (VNum (of_int i)) old = Inr i"
  by (simp add: int_member_def)

lemma decode_members_append:
  "decode_members fm ord (as @ bs) ax = bind_result (decode_members fm ord as ax) (decode_members fm ord bs)"
  by (induction as arbitrary: ax) (auto simp: bind_result_def split: sum.split)

lemma decode_group:
  assumes "unmarshal_list fm ord (VArr vs) = Inr es" "vs \<noteq> []"
  shows "decode_members fm ord (omitempty ''all'' vs) ax = Inr (ax\<lparr>ax_All := Some es\<rparr>)"
    "decode_members fm ord (omitempty ''any'' vs) ax = Inr (ax\<lparr>ax_Any := Some es\<rparr>)"
proof -
  have "EqualFold ''all'' ''all''" "\<not> EqualFold ''any'' ''all''" "EqualFold ''any'' ''any''" by code_simp+
  then show "decode_members fm ord (omitempty ''all'' vs) ax = Inr (ax\<lparr>ax_All := Some es\<rparr>)"
    "decode_members fm ord (omitempty ''any'' vs) ax = Inr (ax\<lparr>ax_Any := Some es\<rparr>)"
    using assms by (simp_all add: omitempty_def decode_member_def)
qed

lemma decode_options:
  "ax_Sort ax = [] \<Longrightarrow> decode_members fm ord (opt_string ''sort'' s) ax = Inr (ax\<lparr>ax_Sort := s\<rparr>)"
  "ax_Order ax = [] \<Longrightarrow> decode_members fm ord (opt_string ''order'' s) ax = Inr (ax\<lparr>ax_Order := s\<rparr>)"
  "ax_RefreshDelay ax = [] \<Longrightarrow> decode_members fm ord (opt_string ''refreshDelay'' s) ax = Inr (ax\<lparr>ax_RefreshDelay := s\<rparr>)"
  "ax_Limit ax = 0 \<Longrightarrow> in_int64 i \<Longrightarrow> decode_members fm ord (opt_int ''limit'' i) ax = Inr (ax\<lparr>ax_Limit := i\<rparr>)"
  "ax_LimitPercent ax = 0 \<Longrightarrow> in_int64 i \<Longrightarrow> decode_members fm ord (opt_int ''limitPercent'' i) ax = Inr (ax\<lparr>ax_LimitPercent := i\<rparr>)"
  "ax_Offset ax = 0 \<Longrightarrow> in_int64 i \<Longrightarrow> decode_members fm ord (opt_int ''offset'' i) ax = Inr (ax\<lparr>ax_Offset := i\<rparr>)"
proof -
  have n: "list_all (\<lambda>(a, b). \<not> EqualFold a b)
     [(''sort'', ''all''), (''sort'', ''any''), (''order'', ''all''), (''order'', ''any''), (''order'', ''sort''),
      (''limit'', ''all''), (''limit'', ''any''), (''limit'', ''sort''), (''limit'', ''order''),
      (''limitPercent'', ''all''), (''limitPercent'', ''any''), (''limitPercent'', ''sort''), (''limitPercent'', ''order''),
      (''limitPercent'', ''limit''), (''offset'', ''all''), (''offset'', ''any''), (''offset'', ''sort''),
      (''offset'', ''order''), (''offset'', ''limit''), (''offset'', ''limitPercent''),
      (''refreshDelay'', ''all''), (''refreshDelay'', ''any''), (''refreshDelay'', ''sort''), (''refreshDelay'', ''order''),
      (''refreshDelay'', ''limit''), (''refreshDelay'', ''limitPercent''), (''refreshDelay'', ''offset'')]"
    by code_simp
  note defs = opt_string_def opt_int_def decode_member_def string_member_def
  show "ax_Sort ax = [] \<Longrightarrow> decode_members fm ord (opt_string ''sort'' s) ax = Inr (ax\<lparr>ax_Sort := s\<rparr>)"
    using n by (simp add: defs)
  show "ax_Order ax = [] \<Longrightarrow> decode_members fm ord (opt_string ''order'' s) ax = Inr (ax\<lparr>ax_Order := s\<rparr>)"
    using n by (simp add: defs)
  show "ax_RefreshDelay ax = [] \<Longrightarrow> decode_members fm ord (opt_string ''refreshDelay'' s) ax = Inr (ax\<lparr>ax_RefreshDelay := s\<rparr>)"
    using n by (simp add: defs)
  show "ax_Limit ax = 0 \<Longrightarrow> in_int64 i \<Longrightarrow> decode_members fm ord (opt_int ''limit'' i) ax = Inr (ax\<lparr>ax_Limit := i\<rparr>)"
    using n by (simp add: defs)
  show "ax_LimitPercent ax = 0 \<Longrightarrow> in_int64 i \<Longrightarrow> decode_members fm ord (opt_int ''limitPercent'' i) ax = Inr (ax\<lparr>ax_LimitPercent := i\<rparr>)"
    using n by (simp add: defs)
  show "ax_Offset ax = 0 \<Longrightarrow> in_int64 i \<Longrightarrow> decode_members fm ord (opt_int ''offset'' i) ax = Inr (ax\<lparr>ax_Offset := i\<rparr>)"
    using n by (simp add: defs)
qed

definition aux_ok :: "field_map \<Rightarrow> criteria_aux \<Rightarrow> bool" where
  "aux_ok fm ax \<longleftrightarrow> in_int64 (ax_Limit ax) \<and> in_int64 (ax_LimitPercent ax) \<and> in_int64 (ax_Offset ax) \<and>
     (\<forall>es. ax_All ax = Some es \<longrightarrow> list_all (settled fm) es) \<and> (\<forall>es. ax_Any ax = Some es \<longrightarrow> list_all (settled fm) es)"

lemma int_member_range: "int_member v old = Inr i \<Longrightarrow> in_int64 old \<Longrightarrow> in_int64 i"
  by (auto simp: int_member_def split: val.splits if_splits)

lemma map_sum_Inr_iff: "map_sum id f m = Inr b \<longleftrightarrow> (\<exists>a. m = Inr a \<and> b = f a)"
  by (cases m) auto

lemma decode_member_ok:
  assumes "decode_member fm ord kv ax = Inr ax'" "\<And>es. mset (ord es) = mset es" "aux_ok fm ax"
  shows "aux_ok fm ax'"
  using assms unmarshal_settled(1) [of fm ord] int_member_range
  by (cases kv) (auto simp: decode_member_def map_sum_Inr_iff aux_ok_def split: if_splits)

lemma decode_members_ok:
  assumes "decode_members fm ord kvs ax = Inr ax'" "\<And>es. mset (ord es) = mset es" "aux_ok fm ax"
  shows "aux_ok fm ax'"
  using assms
proof (induction kvs arbitrary: ax)
  case (Cons kv kvs)
  then obtain ax1 where "decode_member fm ord kv ax = Inr ax1" "decode_members fm ord kvs ax1 = Inr ax'"
    by (auto simp: bind_result_Inr)
  with Cons decode_member_ok show ?case by blast
qed simp

lemma top_group_settled:
  assumes "top_group aux = Inr e" "aux_ok fm aux"
  shows "\<exists>es. (e = All es \<or> e = Any es) \<and> es \<noteq> [] \<and> list_all (settled fm) es"
  using assms by (auto simp: top_group_def aux_ok_def split: option.splits list.splits)

text \<open>What a criteria that was read looks like.\<close>

definition criteria_read :: "field_map \<Rightarrow> Criteria \<Rightarrow> bool" where
  "criteria_read fm c \<longleftrightarrow>
     (\<exists>es. (cr_Expression c = Some (All es) \<or> cr_Expression c = Some (Any es)) \<and> es \<noteq> [] \<and> list_all (settled fm) es) \<and>
     in_int64 (cr_Limit c) \<and> 0 \<le> cr_LimitPercent c \<and> cr_LimitPercent c \<le> 100 \<and> in_int64 (cr_Offset c)"

lemma UnmarshalJSON_read:
  assumes "UnmarshalJSON fm ord fl doc = Inr c" "\<And>es. mset (ord es) = mset es"
  shows "criteria_read fm c" "cr_RefreshDelay c = 0 \<or> (\<exists>s. ParseDuration fl s = Inr (cr_RefreshDelay c))"
proof -
  have no: "aux_ok fm no_aux" by (simp add: aux_ok_def no_aux_def in_int64_def int64_min_def int64_max_def)
  obtain aux where aux: "aux_ok fm aux" and c: "criteria_of_aux fl aux = Inr c"
    using assms(1) no decode_members_ok [OF _ assms(2) no]
    by (auto simp: UnmarshalJSON_def bind_result_Inr split: val.splits)
  then obtain e where "top_group aux = Inr e" "cr_Expression c = Some e"
    by (auto simp: criteria_of_aux_def bind_result_Inr split: if_splits)
  with top_group_settled [OF _ aux] c aux show "criteria_read fm c"
    by (force simp: criteria_read_def criteria_of_aux_def bind_result_Inr aux_ok_def split: if_splits)
  show "cr_RefreshDelay c = 0 \<or> (\<exists>s. ParseDuration fl s = Inr (cr_RefreshDelay c))"
  proof (cases "ParseDuration fl (ax_RefreshDelay aux)")
    case (Inr d)
    then show ?thesis using c by (auto simp: criteria_of_aux_def bind_result_Inr split: if_splits)
  qed (use c in \<open>auto simp: criteria_of_aux_def bind_result_Inr split: if_splits\<close>)
qed

text \<open>The members of a written criteria, read in turn.\<close>

lemma decode_written:
  assumes "in_int64 (cr_Limit c)" "in_int64 (cr_LimitPercent c)" "in_int64 (cr_Offset c)"
    and "ax = no_aux \<lparr>ax_All := al, ax_Any := an\<rparr>"
  shows "decode_members fm ord (opt_string ''sort'' (cr_Sort c) @ opt_string ''order'' (cr_Order c) @
            opt_int ''limit'' (cr_Limit c) @ opt_int ''limitPercent'' (cr_LimitPercent c) @
            opt_int ''offset'' (cr_Offset c) @ opt_string ''refreshDelay'' delay) ax =
     Inr \<lparr>ax_All = al, ax_Any = an, ax_Sort = cr_Sort c, ax_Order = cr_Order c, ax_Limit = cr_Limit c,
       ax_LimitPercent = cr_LimitPercent c, ax_Offset = cr_Offset c, ax_RefreshDelay = delay\<rparr>"
  using assms by (simp add: decode_members_append decode_options no_aux_def)

lemma ParseDuration_range: "ParseDuration fl s = Inr d \<Longrightarrow> 0 \<le> d \<and> d < 2 ^ 63"
proof -
  assume d: "ParseDuration fl s = Inr d"
  then have "time_ParseDuration fl (expand_day_week fl s) = Some d" "\<not> d < 0"
    by (auto simp: ParseDuration_def split: option.splits if_splits)
  then show ?thesis by (auto simp: time_ParseDuration_def Let_def split: if_splits option.splits)
qed

lemma criteria_of_written:
  assumes "e = All (x # xs) \<and> al = Some (x # xs) \<and> an = None \<or> e = Any (x # xs) \<and> al = None \<and> an = Some (x # xs)"
    and "cr_Expression c = Some e" "0 \<le> cr_LimitPercent c" "cr_LimitPercent c \<le> 100"
    and "exact_floats fl" "0 \<le> cr_RefreshDelay c" "cr_RefreshDelay c < 2 ^ 63"
  shows "criteria_of_aux fl \<lparr>ax_All = al, ax_Any = an, ax_Sort = cr_Sort c, ax_Order = cr_Order c, ax_Limit = cr_Limit c,
     ax_LimitPercent = cr_LimitPercent c, ax_Offset = cr_Offset c,
     ax_RefreshDelay = (if cr_RefreshDelay c > 0 then FormatDuration (cr_RefreshDelay c) else [])\<rparr> = Inr c"
proof -
  have "FormatDuration d \<noteq> []" if "0 < d" "d < 2 ^ 63" for d
  proof
    assume "FormatDuration d = []"
    then have "ParseDuration fl (FormatDuration d) = Inl (InvalidDuration [])"
      by (simp add: ParseDuration_def time_ParseDuration_def)
    with duration_roundtrip [OF assms(5) that] show False by simp
  qed
  then show ?thesis
    using assms duration_roundtrip [OF assms(5), of "cr_RefreshDelay c"]
    by (cases "cr_RefreshDelay c > 0") (auto simp: criteria_of_aux_def top_group_def)
qed

section \<open>Properties\<close>

text \<open>
  C25. Saved rules load unchanged. Whatever document a criteria was read from: if its groups have a
  member and its rules name exactly one field (with a plain key), writing it succeeds, and reading the
  result gives back the same criteria - expressions, values with their normalised booleans, sort, limits
  and refresh delay. (Hypotheses: a map is iterated in some order of its entries; \<open>exact_floats\<close>.)
\<close>

theorem criteria_saved_and_loaded:
  assumes ord: "\<And>es. mset (ord es) = mset es" and fl: "exact_floats fl"
    and read: "UnmarshalJSON fm ord fl doc = Inr c" and e: "cr_Expression c = Some e" "saveable e"
  shows "\<exists>doc'. MarshalJSON raw c = Inr doc' \<and> UnmarshalJSON fm ord fl doc' = Inr c"
proof -
  note c = UnmarshalJSON_read [OF read ord]
  obtain x xs where es: "e = All (x # xs) \<or> e = Any (x # xs)" "list_all (settled fm) (x # xs)"
    using c(1) e(1) by (fastforce simp: criteria_read_def neq_Nil_conv)
  then have "list_all saveable (x # xs)" using e(2) by auto
  then obtain vs where vs: "collect (map (expr_MarshalJSON raw) (x # xs)) = Inr vs" "list_all2 (reads_back fm ord) (x # xs) vs"
    using marshalled_list [of "x # xs" "expr_MarshalJSON raw" "reads_back fm ord"] expr_roundtrip [OF ord] es(2)
    by (metis list_all_iff)
  have ne: "vs \<noteq> []" using vs(2) by auto
  have ints: "in_int64 (cr_Limit c)" "in_int64 (cr_LimitPercent c)" "in_int64 (cr_Offset c)"
    using c(1) by (auto simp: criteria_read_def in_int64_def int64_min_def int64_max_def)
  have delay: "0 \<le> cr_RefreshDelay c" "cr_RefreshDelay c < 2 ^ 63" using c(2) ParseDuration_range by force+
  have percent: "0 \<le> cr_LimitPercent c" "cr_LimitPercent c \<le> 100" using c(1) by (auto simp: criteria_read_def)
  note members = decode_group [OF unmarshal_group [OF ord vs(2)] ne] decode_written [OF ints]
  from es(1) show ?thesis
  proof
    assume all: "e = All (x # xs)"
    then show ?thesis
      using e(1) vs(1) members criteria_of_written [OF _ e(1) percent fl delay, of x xs "Some (x # xs)" None]
      by (simp add: MarshalJSON_def UnmarshalJSON_def decode_members_append no_aux_def)
  next
    assume any: "e = Any (x # xs)"
    then show ?thesis
      using e(1) vs(1) members criteria_of_written [OF _ e(1) percent fl delay, of x xs None "Some (x # xs)"]
      by (simp add: MarshalJSON_def UnmarshalJSON_def decode_members_append no_aux_def)
  qed
qed

definition sample_rules :: val where
  "sample_rules = VObj [(''any'', VArr [VObj [(''IS'', VObj [(''loved'', VStr ''true'')])],
       VObj [(''all'', VArr [VObj [(''gt'', VObj [(''rating'', VNum 3)])], VObj [(''inPlaylist'', VObj [(''id'', VStr ''p'')])]])]]),
     (''sort'', VStr ''-title''), (''limitPercent'', VNum 150)]"

definition sample_criteria :: Criteria where
  "sample_criteria = \<lparr>cr_Expression = Some (Any [Rule Is [(''loved'', VBool True)],
       All [Rule Gt [(''rating'', VNum 3)], Rule InPlaylist [(''id'', VStr ''p'')]]]),
     cr_Sort = ''-title'', cr_Order = [], cr_Limit = 0, cr_LimitPercent = 100, cr_Offset = 0, cr_RefreshDelay = 0\<rparr>"

lemma sample_read: "UnmarshalJSON fieldMap id whole_floats sample_rules = Inr sample_criteria"
  by code_simp

theorem criteria_saved_and_loaded_witness:
  "UnmarshalJSON fieldMap id whole_floats sample_rules = Inr sample_criteria \<and>
   (\<exists>doc'. MarshalJSON (\<lambda>_ _ _. Inl JsonType) sample_criteria = Inr doc' \<and>
      UnmarshalJSON fieldMap id whole_floats doc' = Inr sample_criteria)"
proof
  show "UnmarshalJSON fieldMap id whole_floats sample_rules = Inr sample_criteria" by (rule sample_read)
  have "saveable (the (cr_Expression sample_criteria))" by code_simp
  then show "\<exists>doc'. MarshalJSON (\<lambda>_ _ _. Inl JsonType) sample_criteria = Inr doc' \<and>
      UnmarshalJSON fieldMap id whole_floats doc' = Inr sample_criteria"
    using criteria_saved_and_loaded [OF _ whole_floats_exact sample_read] by (simp add: sample_criteria_def)
qed

text \<open>A nested group that is empty is accepted and written as an empty object, which reading drops: the rules change.\<close>

lemma empty_group_is_lost:
  "\<exists>doc doc' c c'. UnmarshalJSON fieldMap id whole_floats doc = Inr c \<and> MarshalJSON raw c = Inr doc' \<and>
     UnmarshalJSON fieldMap id whole_floats doc' = Inr c' \<and>
     cr_Expression c = Some (All [Any [], Rule Gt [(''rating'', VNum 3)]]) \<and>
     cr_Expression c' = Some (All [Rule Gt [(''rating'', VNum 3)]])"
proof -
  let ?doc = "VObj [(''all'', VArr [VObj [(''any'', VArr [])], VObj [(''gt'', VObj [(''rating'', VNum 3)])]])]"
  let ?doc' = "VObj [(''all'', VArr [VObj [], VObj [(''gt'', VObj [(''rating'', VNum 3)])]])]"
  let ?c = "\<lparr>cr_Expression = Some (All [Any [], Rule Gt [(''rating'', VNum 3)]]), cr_Sort = [], cr_Order = [], cr_Limit = 0,
     cr_LimitPercent = 0, cr_Offset = 0, cr_RefreshDelay = 0\<rparr>"
  have "UnmarshalJSON fieldMap id whole_floats ?doc = Inr ?c" by code_simp
  moreover have "MarshalJSON raw ?c = Inr ?doc'"
    by (simp add: MarshalJSON_def marshalConjunction_def marshalExpression_def omitempty_def opt_string_def opt_int_def
        operator_name_def plain_key_def byte_def)
  moreover have "UnmarshalJSON fieldMap id whole_floats ?doc' = Inr (?c\<lparr>cr_Expression := Some (All [Rule Gt [(''rating'', VNum 3)]])\<rparr>)"
    by code_simp
  ultimately show ?thesis by fastforce
qed

text \<open>A rule on two fields is accepted, and cannot be saved.\<close>

lemma two_fields_cannot_be_saved:
  assumes "length fs \<noteq> 1"
  shows "\<exists>n. MarshalJSON raw (c\<lparr>cr_Expression := Some (All [Rule op fs])\<rparr>) = Inl (ExpressionLength n)"
  using assms by (cases fs; cases "tl fs") (auto simp: MarshalJSON_def marshalExpression_def)

text \<open>A percentage limit resolves to at least one and at most all of the matching tracks.\<close>

lemma percentage_limit_bounds:
  assumes "IsPercentageLimit c" "0 < matching" "matching \<le> 10 ^ 16"
  shows "1 \<le> cr_Limit (ResolveLimit c matching) \<and> cr_Limit (ResolveLimit c matching) \<le> matching"
proof -
  let ?p = "cr_LimitPercent c"
  have p: "0 < ?p" "?p \<le> 100" "cr_Limit c = 0" using assms(1) by (auto simp: IsPercentageLimit_def)
  have le: "0 \<le> matching * ?p" "matching * ?p \<le> matching * 100" using assms(2) p by simp_all
  then have "wrap64 (matching * ?p) = matching * ?p" using assms(3) by (intro wrap64_id) simp_all
  moreover have "matching * ?p div 100 \<le> matching" using zdiv_mono1 [OF le(2), of 100] by simp
  ultimately show ?thesis
    using assms p le by (auto simp: ResolveLimit_def EffectiveLimit_def go_quot_def Let_def)
qed

lemma sorted_compact_distinct: "sorted xs \<Longrightarrow> distinct (remdups_adj xs)"
  by (induction xs rule: remdups_adj.induct) auto

text \<open>The child playlists are those the rules name, at any depth, each once.\<close>

lemma ChildPlaylistIds_set:
  assumes "cr_Expression c = Some e" "\<And>op fs. e \<noteq> Rule op fs"
  shows "set (ChildPlaylistIds c) = set (extractPlaylistIds e) \<and> distinct (ChildPlaylistIds c)"
  using assms by (cases e) (auto simp: ChildPlaylistIds_def sorted_compact_distinct)

end
