(* ===== verification/Criteria_Sql_Correct.thy ===== *)
theory Criteria_Sql_Correct
  imports Criteria_Sql Model_Criteria_Correct
begin

text \<open>
  The SQL of smart playlist rules means what the rules say: a semantics of conditions on a row, with the
  equivalence of the two optimisations (merged \<open>EXISTS\<close> subqueries, index-friendly comparisons of
  nullable columns) to the plain reading; the columns a query uses and their joins; whose playlists a
  rule can read.
\<close>

section \<open>Semantics of conditions\<close>

text \<open>
  A row: its columns (\<open>VNull\<close> for \<open>NULL\<close>), the values of its tags, the names of its artists by role, and
  the rows of \<open>playlist_tracks\<close> joined with \<open>playlist\<close> that \<open>inList\<close> selects from. \<open>holds\<close> says that a
  condition is true (not \<open>false\<close> and not \<open>NULL\<close>), which is what \<open>WHERE\<close> and \<open>EXISTS\<close> ask.
\<close>

record SqlRow =
  row_column :: "string \<Rightarrow> val"
  row_tags :: "string \<Rightarrow> val list"
  row_roles :: "string \<Rightarrow> val list"
  row_media :: string
  row_listed :: "(string \<times> (string \<Rightarrow> val)) list"

record SqlEngine =
  en_compare :: "comparator \<Rightarrow> val \<Rightarrow> val \<Rightarrow> bool" \<comment> \<open>a column's value and a bound value\<close>
  en_like :: "bool \<Rightarrow> val \<Rightarrow> string \<Rightarrow> bool"
  en_real :: "val \<Rightarrow> val" \<comment> \<open>\<open>CAST(value AS REAL)\<close>\<close>

fun holds :: "SqlEngine \<Rightarrow> SqlRow \<Rightarrow> (string \<Rightarrow> val) \<Rightarrow> sqlizer \<Rightarrow> bool" where
  "holds E R col (SqlAnd ss) \<longleftrightarrow> list_all (holds E R col) ss"
| "holds E R col (SqlOr ss) \<longleftrightarrow> list_ex (holds E R col) ss"
| "holds E R col (SqlCmp c fs) \<longleftrightarrow> list_all (\<lambda>(f, v). en_compare E c (col f) v) fs"
| "holds E R col (SqlLike n fs) \<longleftrightarrow> list_all (\<lambda>(f, p). en_like E n (col f) p) fs"
| "holds E R col (SqlInTracks n filters) \<longleftrightarrow>
     list_ex (\<lambda>(m, cols). m = row_media R \<and> holds E R cols filters) (row_listed R) \<noteq> n"
| "holds E R col SqlTrue \<longleftrightarrow> True"
| "holds E R col (TagCond tag numeric cond n) \<longleftrightarrow>
     list_ex (\<lambda>v. case cond of None \<Rightarrow> True | Some c \<Rightarrow> holds E R (\<lambda>_. if numeric then en_real E v else v) c) (row_tags R tag) \<noteq> n"
| "holds E R col (RoleCond role cond n) \<longleftrightarrow>
     list_ex (\<lambda>v. case cond of None \<Rightarrow> True | Some c \<Rightarrow> holds E R (\<lambda>_. v) c) (row_roles R role) \<noteq> n"
| "holds E R col (TagCondGroup tag numeric conds n) \<longleftrightarrow>
     list_ex (\<lambda>v. list_ex (holds E R (\<lambda>_. if numeric then en_real E v else v)) conds) (row_tags R tag) \<noteq> n"
| "holds E R col (RoleCondGroup role conds n) \<longleftrightarrow>
     list_ex (\<lambda>v. list_ex (holds E R (\<lambda>_. v)) conds) (row_roles R role) \<noteq> n"

section \<open>Merging\<close>

definition numeric_by_tag :: "sqlizer list \<Rightarrow> bool" where
  "numeric_by_tag conds \<longleftrightarrow>
     (\<forall>t a b c d m n. TagCond t a c m \<in> set conds \<and> TagCond t b d n \<in> set conds \<longrightarrow> a = b)"

lemma group_key_cases:
  assumes "group_key neg s = Some key"
  obtains (role) r c where "s = RoleCond r (Some c) neg" "key = ''role:'' @ r" "inner_cond s = c"
    | (tag) t b c where "s = TagCond t b (Some c) neg" "key = ''tag:'' @ t" "inner_cond s = c"
  using assms by (auto simp: group_key_def inner_cond_def split: sqlizer.splits option.splits if_splits)

text \<open>The conditions of a merged group hold exactly when one (or, negated, each) of the merged conditions does.\<close>

lemma merge_group_holds:
  assumes "numeric_by_tag conds" "merged_key neg conds key"
  shows "(\<exists>m\<in>set (merge_group neg conds key). holds E R col m \<noteq> neg) \<longleftrightarrow>
    (\<exists>s\<in>set (group_of neg key conds). holds E R col s \<noteq> neg)"
proof -
  let ?g = "group_of neg key conds"
  obtain s0 rest where g: "?g = s0 # rest" using assms(2) by (cases ?g) (auto simp: merged_key_def)
  have hd: "hd ?g = s0" by (simp add: g)
  have key: "group_key neg s = Some key" if "s \<in> set ?g" for s using that by (simp add: group_of_def)
  have parts: "set (concat (chunk jsonCondBatchSize (map inner_cond ?g))) = inner_cond ` set ?g"
    by (simp add: concat_chunk jsonCondBatchSize_def)
  have "group_key neg s0 = Some key" using key [of s0] g by simp
  then show ?thesis
  proof (cases rule: group_key_cases)
    case (role r c)
    have same: "\<exists>c. s = RoleCond r (Some c) neg \<and> inner_cond s = c" if "s \<in> set ?g" for s
      using key [OF that] role(2) by (cases rule: group_key_cases) auto
    have "(\<exists>m\<in>set (merge_group neg conds key). holds E R col m \<noteq> neg) \<longleftrightarrow>
        (\<exists>batch\<in>set (chunk jsonCondBatchSize (map inner_cond ?g)). \<exists>v\<in>set (row_roles R r). \<exists>c\<in>set batch. holds E R (\<lambda>_. v) c)"
    proof -
      have "merge_group neg conds key = map (\<lambda>batch. RoleCondGroup r batch neg) (chunk jsonCondBatchSize (map inner_cond ?g))"
        using assms(2) hd role(1,2) by (simp add: merge_group_def merged_key_def Let_def)
      then show ?thesis by (auto simp: list_ex_iff)
    qed
    also have "\<dots> \<longleftrightarrow> (\<exists>v\<in>set (row_roles R r). \<exists>c\<in>set (concat (chunk jsonCondBatchSize (map inner_cond ?g))). holds E R (\<lambda>_. v) c)"
      by auto
    also have "\<dots> \<longleftrightarrow> (\<exists>s\<in>set ?g. holds E R col s \<noteq> neg)"
    proof -
      have "holds E R col s \<noteq> neg \<longleftrightarrow> (\<exists>v\<in>set (row_roles R r). holds E R (\<lambda>_. v) (inner_cond s))" if mem_g: "s \<in> set ?g" for s
      proof -
        obtain c' where s: "s = RoleCond r (Some c') neg" "inner_cond s = c'" using same [OF mem_g] by blast
        show ?thesis unfolding s(2) by (auto simp: s(1) list_ex_iff)
      qed
      then show ?thesis unfolding parts by blast
    qed
    finally show ?thesis .
  next
    case (tag t b c)
    have mem: "s \<in> set conds" if "s \<in> set ?g" for s using that by (simp add: group_of_def)
    have same: "\<exists>c. s = TagCond t b (Some c) neg \<and> inner_cond s = c" if "s \<in> set ?g" for s
      using key [OF that]
    proof (cases rule: group_key_cases)
      case (tag t' b' c')
      moreover have "b' = b" if "t' = t"
        using assms(1) mem [OF \<open>s \<in> set ?g\<close>] mem [of s0] g tag(1) \<open>s0 = TagCond t b (Some c) neg\<close> that
        unfolding numeric_by_tag_def by (metis list.set_intros(1))
      ultimately show ?thesis using \<open>key = ''tag:'' @ t\<close> by auto
    qed (use tag(2) in auto)
    have "(\<exists>m\<in>set (merge_group neg conds key). holds E R col m \<noteq> neg) \<longleftrightarrow>
        (\<exists>batch\<in>set (chunk jsonCondBatchSize (map inner_cond ?g)). \<exists>v\<in>set (row_tags R t). \<exists>c\<in>set batch.
          holds E R (\<lambda>_. if b then en_real E v else v) c)"
    proof -
      have "merge_group neg conds key = map (\<lambda>batch. TagCondGroup t b batch neg) (chunk jsonCondBatchSize (map inner_cond ?g))"
        using assms(2) hd tag(1,2) by (simp add: merge_group_def merged_key_def Let_def)
      then show ?thesis by (auto simp: list_ex_iff)
    qed
    also have "\<dots> \<longleftrightarrow> (\<exists>v\<in>set (row_tags R t). \<exists>c\<in>set (concat (chunk jsonCondBatchSize (map inner_cond ?g))).
          holds E R (\<lambda>_. if b then en_real E v else v) c)"
      unfolding set_concat by blast
    also have "\<dots> \<longleftrightarrow> (\<exists>s\<in>set ?g. holds E R col s \<noteq> neg)"
    proof -
      have "holds E R col s \<noteq> neg \<longleftrightarrow> (\<exists>v\<in>set (row_tags R t). holds E R (\<lambda>_. if b then en_real E v else v) (inner_cond s))"
        if mem_g: "s \<in> set ?g" for s
      proof -
        obtain c' where s: "s = TagCond t b (Some c') neg" "inner_cond s = c'" using same [OF mem_g] by blast
        show ?thesis unfolding s(2) by (auto simp: s(1) list_ex_iff)
      qed
      then show ?thesis unfolding parts by blast
    qed
    finally show ?thesis .
  qed
qed

lemma group_keys_set: "set (group_keys neg conds) = {key. \<exists>s\<in>set conds. group_key neg s = Some key}"
proof -
  have "set (List.map_filter f xs) = {y. \<exists>x\<in>set xs. f x = Some y}" for f :: "sqlizer \<Rightarrow> string option" and xs
    by (induction xs) (auto split: option.splits)
  then show ?thesis by (simp add: group_keys_def)
qed

lemma merge_group_small: "\<not> merged_key neg conds key \<Longrightarrow> merge_group neg conds key = []"
  by (simp add: merge_group_def merged_key_def)

text \<open>A merge changes neither the disjunction of the conditions nor, for negated ones, their conjunction.\<close>

lemma mergeSameFieldConds_holds:
  assumes "numeric_by_tag conds"
  shows "(\<exists>s\<in>set (fst (mergeSameFieldConds neg conds)). holds E R col s \<noteq> neg) \<longleftrightarrow> (\<exists>s\<in>set conds. holds E R col s \<noteq> neg)"
proof -
  let ?removed = "\<lambda>s. case group_key neg s of Some key \<Rightarrow> merged_key neg conds key | None \<Rightarrow> False"
  have "(\<exists>key\<in>set (group_keys neg conds). \<exists>m\<in>set (merge_group neg conds key). holds E R col m \<noteq> neg) \<longleftrightarrow>
      (\<exists>s\<in>set conds. ?removed s \<and> holds E R col s \<noteq> neg)"
  proof -
    have m: "(\<exists>m\<in>set (merge_group neg conds key). holds E R col m \<noteq> neg) \<longleftrightarrow>
        merged_key neg conds key \<and> (\<exists>s\<in>set conds. group_key neg s = Some key \<and> holds E R col s \<noteq> neg)" for key
      using merge_group_holds [OF assms, of neg key E R col] merge_group_small [of neg conds key]
      by (cases "merged_key neg conds key") (auto simp: group_of_def)
    have r: "?removed s \<longleftrightarrow> (\<exists>key. group_key neg s = Some key \<and> merged_key neg conds key)" for s
      by (auto split: option.splits)
    show ?thesis unfolding group_keys_set m r by blast
  qed
  then show ?thesis by (auto simp: mergeSameFieldConds_def Let_def)
qed

lemma mergeJsonConds_holds:
  "numeric_by_tag conds \<Longrightarrow> holds E R col (mergeJsonConds conds) \<longleftrightarrow> list_ex (holds E R col) conds"
  using mergeSameFieldConds_holds [of conds False E R col]
  by (auto simp: mergeJsonConds_def list_ex_iff split: prod.splits)

lemma mergeNegatedJsonConds_holds:
  "numeric_by_tag conds \<Longrightarrow> holds E R col (mergeNegatedJsonConds conds) \<longleftrightarrow> list_all (holds E R col) conds"
  using mergeSameFieldConds_holds [of conds True E R col]
  by (auto simp: mergeNegatedJsonConds_def list_all_iff split: prod.splits)

section \<open>The meaning of rules\<close>

text \<open>
  What the database engine does, as documented: a comparison with \<open>NULL\<close> is not true, \<open>= NULL\<close> is
  written \<open>IS NULL\<close>, numbers and booleans are compared by value, \<open>COALESCE\<close> replaces \<open>NULL\<close>.
\<close>

definition engine_ok :: "SqlEnv \<Rightarrow> SqlEngine \<Rightarrow> bool" where
  "engine_ok env E \<longleftrightarrow>
     (\<forall>c v. v \<noteq> VNull \<longrightarrow> \<not> en_compare E c VNull v) \<and>
     (\<forall>x. en_compare E cmpEq x VNull \<longleftrightarrow> x = VNull) \<and>
     (\<forall>c d v x. toFloat env v = Some x \<longrightarrow> en_compare E c (VNum d) v = cmp_satisfy c d x) \<and>
     (\<forall>c b v x. \<not> cmp_ordering c \<and> ToBool v = Some x \<longrightarrow>
        en_compare E c (VBool b) v = cmp_satisfy c (boolToFloat b) (boolToFloat x))"

definition or_default :: "val \<Rightarrow> val \<Rightarrow> val" where
  "or_default d x = (if x = VNull then d else x)"

definition row_ok :: "SqlEnv \<Rightarrow> (string \<Rightarrow> val) \<Rightarrow> bool" where
  "row_ok env col \<longleftrightarrow> list_all (\<lambda>(name, f). case pf_coalesceDefault f of None \<Rightarrow> True
     | Some d \<Rightarrow> col (coalesced env f) = or_default d (col (pf_expr f))) smartPlaylistFields"

text \<open>The plain reading: a nullable annotation column counts as its default where the row has none.\<close>

definition comparison_meaning ::
  "SqlEnv \<Rightarrow> SqlEngine \<Rightarrow> SqlRow \<Rightarrow> (string \<Rightarrow> val) \<Rightarrow> (string \<times> val) list \<Rightarrow> comparator \<Rightarrow> bool" where
  "comparison_meaning env E R col fs cmp =
     (case singleField env fs of
        Some (_, value, info) \<Rightarrow>
          (case (if fi_IsTag info \<or> fi_IsRole info then None else annotationField info) of
             Some f \<Rightarrow> en_compare E cmp (or_default (the (pf_coalesceDefault f)) (col (pf_expr f))) value
           | None \<Rightarrow> (\<exists>s. comparisonExpr env fs cmp = Inr s \<and> holds E R col s))
      | None \<Rightarrow> (\<exists>s. comparisonExpr env fs cmp = Inr s \<and> holds E R col s))"

definition on_json :: "SqlEnv \<Rightarrow> (string \<times> val) list \<Rightarrow> bool" where
  "on_json env fs \<longleftrightarrow> (case singleField env fs of Some (_, _, info) \<Rightarrow> fi_IsTag info \<or> fi_IsRole info | None \<Rightarrow> False)"

definition rule_meaning ::
  "SqlEnv \<Rightarrow> SqlEngine \<Rightarrow> SqlRow \<Rightarrow> (string \<Rightarrow> val) \<Rightarrow> operator \<Rightarrow> (string \<times> val) list \<Rightarrow> bool" where
  "rule_meaning env E R col op fs =
     (if op = Is then comparison_meaning env E R col fs cmpEq
      else if op = IsNot \<and> \<not> on_json env fs then comparison_meaning env E R col fs cmpNe
      else if op = Gt \<or> op = After then comparison_meaning env E R col fs cmpGt
      else if op = Lt \<or> op = Before then comparison_meaning env E R col fs cmpLt
      else if op = InTheRange then
        (case fs of [(field, VArr [low, high])] \<Rightarrow>
             comparison_meaning env E R col [(field, low)] cmpGe \<and> comparison_meaning env E R col [(field, high)] cmpLe
         | _ \<Rightarrow> False)
      else (\<exists>s. ruleSQL env op fs = Inr s \<and> holds E R col s))"

fun rules_meaning :: "SqlEnv \<Rightarrow> SqlEngine \<Rightarrow> SqlRow \<Rightarrow> (string \<Rightarrow> val) \<Rightarrow> Expression \<Rightarrow> bool" where
  "rules_meaning env E R col (All es) \<longleftrightarrow> list_all (rules_meaning env E R col) es"
| "rules_meaning env E R col (Any es) \<longleftrightarrow> list_ex (rules_meaning env E R col) es"
| "rules_meaning env E R col (Rule op fs) \<longleftrightarrow> rule_meaning env E R col op fs"

lemma defaults_table: "list_all (\<lambda>(_, f). pf_coalesceDefault f \<in> {None, Some (VNum 0), Some (VBool False)}) smartPlaylistFields"
  by code_simp

lemma annotationField_Some:
  assumes "annotationField info = Some f"
  obtains d where "(fi_name info, f) \<in> set smartPlaylistFields" "pf_coalesceDefault f = Some d" "d = VNum 0 \<or> d = VBool False"
proof -
  have f: "(fi_name info, f) \<in> set smartPlaylistFields" "pf_coalesceDefault f \<noteq> None"
    using assms by (auto simp: annotationField_def map_of_SomeD split: option.splits if_splits)
  then show thesis using defaults_table that by (fastforce simp: list_all_iff)
qed

lemma annotationCond_holds:
  assumes E: "engine_ok env E" and R: "row_ok env col" and f: "annotationField info = Some f"
  shows "holds E R col (annotationCond env f cmp v) \<longleftrightarrow>
     en_compare E cmp (or_default (the (pf_coalesceDefault f)) (col (pf_expr f))) v"
proof -
  obtain d where d: "(fi_name info, f) \<in> set smartPlaylistFields" "pf_coalesceDefault f = Some d" "d = VNum 0 \<or> d = VBool False"
    by (rule annotationField_Some [OF f])
  show ?thesis
  proof (cases "bareNullInclusion env d cmp v")
    case None
    have "col (coalesced env f) = or_default d (col (pf_expr f))" using R d(1,2) by (fastforce simp: row_ok_def list_all_iff)
    then show ?thesis using None d(2) by (simp add: annotationCond_def)
  next
    case (Some w)
    have w: "en_compare E cmp d v = w" "v \<noteq> VNull"
    proof -
      consider x where "d = VNum 0" "toFloat env v = Some x" "w = cmp_satisfy cmp 0 x"
        | x where "d = VBool False" "\<not> cmp_ordering cmp" "ToBool v = Some x" "w = cmp_satisfy cmp (boolToFloat False) (boolToFloat x)"
        using Some d(3) by (auto simp: bareNullInclusion_def toFloat_def [of _ "VNum 0"] split: if_splits option.splits)
      then show "en_compare E cmp d v = w" "v \<noteq> VNull"
        using E unfolding engine_ok_def by (cases; auto simp: toFloat_def ToBool_def)+
    qed
    have null: "\<not> en_compare E cmp VNull v" "en_compare E cmpEq x VNull \<longleftrightarrow> x = VNull" for x
      using E w(2) by (auto simp: engine_ok_def)
    show ?thesis using Some d(2) w null by (auto simp: annotationCond_def or_default_def)
  qed
qed

lemma comparisonExpr_holds:
  assumes "engine_ok env E" "row_ok env col" "comparisonExpr env fs cmp = Inr s"
  shows "holds E R col s \<longleftrightarrow> comparison_meaning env E R col fs cmp"
proof (cases "singleField env fs")
  case None
  then show ?thesis using assms(3) by (simp add: comparison_meaning_def)
next
  case (Some x)
  obtain field w info where x: "x = (field, w, info)" by (cases x)
  show ?thesis
  proof (cases "if fi_IsTag info \<or> fi_IsRole info then None else annotationField info")
    case None
    then show ?thesis using assms(3) Some x by (simp add: comparison_meaning_def)
  next
    case f: (Some f)
    then have "annotationField info = Some f" "s = annotationCond env f cmp w"
      using assms(3) Some x by (auto simp: comparisonExpr_def split: if_splits)
    with annotationCond_holds [OF assms(1,2)] Some x f show ?thesis by (simp add: comparison_meaning_def)
  qed
qed

text \<open>Tag fields with the same name agree on being numeric.\<close>

definition canonical_name :: "string \<times> FieldInfo \<Rightarrow> string" where
  "canonical_name kf = (if fi_Alias (snd kf) \<noteq> [] then fi_Alias (snd kf) else fst kf)"

definition numeric_by_name :: "field_map \<Rightarrow> bool" where
  "numeric_by_name fm \<longleftrightarrow>
     list_all (\<lambda>a. fi_IsTag (snd a) \<longrightarrow> list_all (\<lambda>b. fi_IsTag (snd b) \<and> canonical_name a = canonical_name b \<longrightarrow>
        fi_Numeric (snd a) = fi_Numeric (snd b)) fm) fm"

lemma LookupField_Some:
  assumes "LookupField fm name = Some info"
  obtains kf where "kf \<in> set fm" "fi_name info = canonical_name kf" "fi_IsTag info = fi_IsTag (snd kf)"
    "fi_Numeric info = fi_Numeric (snd kf)"
proof -
  obtain f where f: "map_of fm (ToLower name) = Some f"
    "info = f\<lparr>fi_name := if fi_Alias f \<noteq> [] then fi_Alias f else ToLower name\<rparr>"
    using assms by (auto simp: LookupField_def Let_def)
  show thesis by (rule that [of "(ToLower name, f)"]) (use f in \<open>auto simp: canonical_name_def map_of_SomeD\<close>)
qed

text \<open>A tag condition names a registered tag.\<close>

definition names_tag :: "field_map \<Rightarrow> sqlizer \<Rightarrow> bool" where
  "names_tag fm s \<longleftrightarrow> (case s of TagCond t b c n \<Rightarrow>
     (\<exists>name info. LookupField fm name = Some info \<and> fi_IsTag info \<and> fi_name info = t \<and> fi_Numeric info = b) | _ \<Rightarrow> True)"

lemma singleField_Some:
  assumes "singleField env fs = Some (field, v, info)"
  shows "fs = [(field, v)]" "LookupField (se_fields env) field = Some info"
  using assms by (auto simp: singleField_def split: list.splits)

lemma names_tag_jsonExpr:
  assumes "singleField env fs = Some (field, v, info)" "fi_IsTag info \<or> fi_IsRole info"
  shows "names_tag (se_fields env) (jsonExpr info c n)"
  using assms singleField_Some(2) [OF assms(1)] by (auto simp: names_tag_def jsonExpr_def)

lemma names_tag_simps [simp]:
  "names_tag fm (SqlAnd ss)" "names_tag fm (SqlOr ss)" "names_tag fm (SqlCmp c fs)" "names_tag fm (SqlLike n ps)"
  "names_tag fm (SqlInTracks n filters)" "names_tag fm (mergeJsonConds cs)" "names_tag fm (mergeNegatedJsonConds cs)"
  "names_tag fm (missing_column col es n)" "names_tag fm (annotationCond env f cmp v)"
  by (auto simp: names_tag_def mergeJsonConds_def mergeNegatedJsonConds_def missing_column_def annotationCond_def
      split: prod.splits option.splits)

lemma comparisonExpr_names: "comparisonExpr env fs cmp = Inr s \<Longrightarrow> names_tag (se_fields env) s"
  using names_tag_jsonExpr
  by (auto simp: comparisonExpr_def Let_def map_sum_Inr_iff split: option.splits if_splits prod.splits)

lemma ruleSQL_names: "ruleSQL env op fs = Inr s \<Longrightarrow> names_tag (se_fields env) s"
proof -
  note json = names_tag_jsonExpr
  have "isNotExpr env fs = Inr s \<Longrightarrow> names_tag (se_fields env) s"
    using json comparisonExpr_names by (auto simp: isNotExpr_def split: option.splits if_splits)
  moreover have "missingExpr env fs b = Inr s \<Longrightarrow> names_tag (se_fields env) s" for b
    using json by (auto simp: missingExpr_def Let_def split: option.splits if_splits val.splits list.splits)
  moreover have "likeExpr env fs p b = Inr s \<Longrightarrow> names_tag (se_fields env) s" for p b
    using json by (auto simp: likeExpr_def Let_def map_sum_Inr_iff split: option.splits if_splits)
  moreover have "rangeExpr env fs = Inr s \<Longrightarrow> names_tag (se_fields env) s"
    by (auto simp: rangeExpr_def bind_result_Inr split: option.splits if_splits val.splits list.splits)
  moreover have "periodExpr env fs b = Inr s \<Longrightarrow> names_tag (se_fields env) s" for b
    by (auto simp: periodExpr_def period_cond_def bind_result_Inr split: option.splits)
  moreover have "inList env fs b = Inr s \<Longrightarrow> names_tag (se_fields env) s" for b
    by (auto simp: inList_def Let_def split: option.splits val.splits)
  ultimately show "ruleSQL env op fs = Inr s \<Longrightarrow> names_tag (se_fields env) s"
    using comparisonExpr_names by (cases op) (auto simp: ruleSQL_def)
qed

lemma exprSQL_names: "exprSQL env e = Inr s \<Longrightarrow> names_tag (se_fields env) s"
  by (cases e) (auto simp: ruleSQL_names map_sum_Inr_iff)

lemma numeric_by_tag_names:
  assumes "numeric_by_name fm" "list_all (names_tag fm) conds"
  shows "numeric_by_tag conds"
  unfolding numeric_by_tag_def
proof clarify
  fix t a b c d m n
  assume ab: "TagCond t a c m \<in> set conds" "TagCond t b d n \<in> set conds"
  have "\<exists>kf\<in>set fm. canonical_name kf = t \<and> fi_IsTag (snd kf) \<and> fi_Numeric (snd kf) = x" if mem: "TagCond t x y z \<in> set conds" for x y z
  proof -
    obtain name info where i: "LookupField fm name = Some info" "fi_IsTag info" "fi_name info = t" "fi_Numeric info = x"
      using assms(2) mem by (fastforce simp: list_all_iff names_tag_def)
    show ?thesis by (rule LookupField_Some [OF i(1)]) (use i in auto)
  qed
  from this [OF ab(1)] this [OF ab(2)] assms(1) show "a = b"
    by (fastforce simp: numeric_by_name_def list_all_iff)
qed

lemma rangeExpr_parts:
  assumes "rangeExpr env fs = Inr s"
  obtains field low high l h where "fs = [(field, VArr [low, high])]"
    "comparisonExpr env [(field, low)] cmpGe = Inr l" "comparisonExpr env [(field, high)] cmpLe = Inr h" "s = SqlAnd [l, h]"
  using assms singleField_Some
  by (fastforce simp: rangeExpr_def bind_result_Inr split: option.splits if_splits val.splits list.splits)

lemma rangeExpr_holds:
  assumes "engine_ok env E" "row_ok env col" "rangeExpr env fs = Inr s"
  shows "holds E R col s \<longleftrightarrow> rule_meaning env E R col InTheRange fs"
  by (rule rangeExpr_parts [OF assms(3)])
    (use comparisonExpr_holds [OF assms(1,2)] in \<open>simp add: rule_meaning_def\<close>)

lemma isNot_holds:
  assumes "engine_ok env E" "row_ok env col" "isNotExpr env fs = Inr s"
  shows "holds E R col s \<longleftrightarrow> rule_meaning env E R col IsNot fs"
proof (cases "on_json env fs")
  case True
  then show ?thesis using assms(3) by (simp add: rule_meaning_def ruleSQL_def)
next
  case False
  then have "comparisonExpr env fs cmpNe = Inr s"
    using assms(3) by (auto simp: isNotExpr_def on_json_def split: option.splits if_splits)
  from comparisonExpr_holds [OF assms(1,2) this] False show ?thesis by (simp add: rule_meaning_def)
qed

lemma ruleSQL_holds:
  assumes "engine_ok env E" "row_ok env col" "ruleSQL env op fs = Inr s"
  shows "holds E R col s \<longleftrightarrow> rule_meaning env E R col op fs"
  using assms(3) comparisonExpr_holds [OF assms(1,2)] rangeExpr_holds [OF assms(1,2)] isNot_holds [OF assms(1,2)]
  by (cases op) (auto simp: ruleSQL_def rule_meaning_def)

lemma exprSQL_meaning:
  assumes "engine_ok env E" "row_ok env col" "numeric_by_name (se_fields env)"
  shows "exprSQL env e = Inr s \<Longrightarrow> holds E R col s \<longleftrightarrow> rules_meaning env E R col e"
proof (induction e arbitrary: s)
  case (All es)
  then obtain ss where ss: "map (exprSQL env) es = map Inr ss" "s = mergeNegatedJsonConds ss"
    by (auto simp: map_sum_Inr_iff collect_Inr)
  then have each: "list_all2 (\<lambda>e s. exprSQL env e = Inr s) es ss"
    by (simp add: list_all2_conv_all_nth) (metis length_map nth_map)
  have "numeric_by_tag ss"
    using numeric_by_tag_names [OF assms(3)] each exprSQL_names by (fastforce simp: list_all_iff list_all2_conv_all_nth in_set_conv_nth)
  then have "holds E R col s \<longleftrightarrow> list_all (holds E R col) ss" by (simp add: ss mergeNegatedJsonConds_holds)
  also have "\<dots> \<longleftrightarrow> list_all (rules_meaning env E R col) es"
    using each All(1) by (induction rule: list_all2_induct) auto
  finally show ?case by simp
next
  case (Any es)
  then obtain ss where ss: "map (exprSQL env) es = map Inr ss" "s = mergeJsonConds ss"
    by (auto simp: map_sum_Inr_iff collect_Inr)
  then have each: "list_all2 (\<lambda>e s. exprSQL env e = Inr s) es ss"
    by (simp add: list_all2_conv_all_nth) (metis length_map nth_map)
  have "numeric_by_tag ss"
    using numeric_by_tag_names [OF assms(3)] each exprSQL_names by (fastforce simp: list_all_iff list_all2_conv_all_nth in_set_conv_nth)
  then have "holds E R col s \<longleftrightarrow> list_ex (holds E R col) ss" by (simp add: ss mergeJsonConds_holds)
  also have "\<dots> \<longleftrightarrow> list_ex (rules_meaning env E R col) es"
    using each Any(1) by (induction rule: list_all2_induct) auto
  finally show ?case by simp
qed (use ruleSQL_holds [OF assms(1,2)] in simp)

section \<open>Columns and joins\<close>

text \<open>The columns of the selected tables that a condition compares, and the tags whose names its text contains.\<close>

fun columns :: "sqlizer \<Rightarrow> string list" where
  "columns (SqlAnd ss) = concat (map columns ss)"
| "columns (SqlOr ss) = concat (map columns ss)"
| "columns (SqlCmp c fs) = map fst fs"
| "columns (SqlLike n ps) = map fst ps"
| "columns _ = []"

fun tag_names :: "sqlizer \<Rightarrow> string list" where
  "tag_names (SqlAnd ss) = concat (map tag_names ss)"
| "tag_names (SqlOr ss) = concat (map tag_names ss)"
| "tag_names (TagCond t _ _ _) = [t]"
| "tag_names (TagCondGroup t _ _ _) = [t]"
| "tag_names _ = []"

definition column_of :: "SqlEnv \<Rightarrow> string \<Rightarrow> string \<Rightarrow> bool" where
  "column_of env field col \<longleftrightarrow>
     (\<exists>info f. LookupField (se_fields env) field = Some info \<and> map_of smartPlaylistFields (fi_name info) = Some f \<and>
        pf_expr f \<noteq> [] \<and> (col = pf_expr f \<or> col = coalesced env f))"

definition lower_names :: "field_map \<Rightarrow> bool" where
  "lower_names fm \<longleftrightarrow> list_all (\<lambda>kf. ToLower (canonical_name kf) = canonical_name kf) fm"

lemma LookupField_lower:
  assumes "lower_names fm" "LookupField fm name = Some info"
  shows "ToLower (fi_name info) = fi_name info"
  by (rule LookupField_Some [OF assms(2)]) (use assms(1) in \<open>simp add: lower_names_def list_all_iff\<close>)

lemma put_entry_keys: "fst ` set (put_entry k v m) = insert k (fst ` set m)"
  by (auto simp: put_entry_def image_iff)

lemma sqlFields_loop_columns:
  assumes "lower_names (se_fields env)"
  shows "sqlFields_loop env acc fs = Inr m \<Longrightarrow> col \<in> fst ` set m \<Longrightarrow>
     col \<in> fst ` set acc \<or> (\<exists>field\<in>fst ` set fs. column_of env field col)"
proof (induction fs arbitrary: acc)
  case (Cons e rest)
  obtain field v where e: "e = (field, v)" by fastforce
  obtain info sqlField where i: "LookupField (se_fields env) field = Some info" "fieldExpr (fi_name info) = Some sqlField" "sqlField \<noteq> []"
    and rest: "sqlFields_loop env (put_entry sqlField v acc) rest = Inr m"
    using Cons(2) by (auto simp: e split: option.splits if_splits)
  have "column_of env field sqlField"
    using i LookupField_lower [OF assms i(1)] by (auto simp: column_of_def fieldExpr_def)
  moreover have "col \<in> insert sqlField (fst ` set acc) \<or> (\<exists>field\<in>fst ` set rest. column_of env field col)"
    using Cons(1) [OF rest Cons(3)] by (simp add: put_entry_keys)
  ultimately show ?case by (auto simp: e)
qed auto

lemma sqlFields_columns:
  assumes "lower_names (se_fields env)" "sqlFields env fs = Inr m" "col \<in> fst ` set m"
  shows "\<exists>field\<in>fst ` set fs. column_of env field col"
  using sqlFields_loop_columns [OF assms(1), of "[]" fs m col] assms(2,3) by (simp add: sqlFields_def)

definition rule_columns :: "SqlEnv \<Rightarrow> (string \<times> val) list \<Rightarrow> sqlizer \<Rightarrow> bool" where
  "rule_columns env fs s \<longleftrightarrow> (\<forall>col\<in>set (columns s). \<exists>field\<in>fst ` set fs. column_of env field col)"

lemma rule_columns_simps [simp]:
  "rule_columns env fs (jsonExpr info c n)" "rule_columns env fs (SqlInTracks n filters)"
  by (simp_all add: rule_columns_def jsonExpr_def)

lemma table_columns: "list_all (\<lambda>(_, f). pf_coalesceDefault f \<noteq> None \<longrightarrow> pf_expr f \<noteq> []) smartPlaylistFields"
  by code_simp

lemma annotation_column:
  assumes "singleField env fs = Some (field, v, info)" "annotationField info = Some f"
  shows "\<exists>field\<in>fst ` set fs. column_of env field (pf_expr f)" "\<exists>field\<in>fst ` set fs. column_of env field (coalesced env f)"
proof -
  have f: "map_of smartPlaylistFields (fi_name info) = Some f" "pf_coalesceDefault f \<noteq> None"
    using assms(2) by (auto simp: annotationField_def split: option.splits if_splits)
  then have "pf_expr f \<noteq> []" using table_columns map_of_SomeD [OF f(1)] by (fastforce simp: list_all_iff)
  with f singleField_Some [OF assms(1)] show "\<exists>field\<in>fst ` set fs. column_of env field (pf_expr f)"
    "\<exists>field\<in>fst ` set fs. column_of env field (coalesced env f)"
    by (auto simp: column_of_def)
qed

lemma comparisonExpr_columns:
  assumes "lower_names (se_fields env)" "comparisonExpr env fs cmp = Inr s"
  shows "rule_columns env fs s"
proof -
  have plain: "rule_columns env fs s" if "map_sum id (SqlCmp cmp) (sqlFields env fs) = Inr s"
    using that sqlFields_columns [OF assms(1)] by (fastforce simp: map_sum_Inr_iff rule_columns_def)
  show ?thesis
  proof (cases "singleField env fs")
    case None
    then show ?thesis using assms(2) plain by (simp add: comparisonExpr_def)
  next
    case (Some x)
    obtain field w info where x: "x = (field, w, info)" by (cases x)
    have "rule_columns env fs (annotationCond env f cmp w)" if "annotationField info = Some f" for f
      using annotation_column [OF Some [unfolded x] that]
      by (auto simp: rule_columns_def annotationCond_def split: option.splits)
    with Some x assms(2) plain show ?thesis
      by (auto simp: comparisonExpr_def Let_def split: if_splits option.splits)
  qed
qed

lemma ruleSQL_columns:
  assumes lower: "lower_names (se_fields env)" and nil: "Atoi (se_format env VNull) = None" and s: "ruleSQL env op fs = Inr s"
  shows "rule_columns env fs s"
proof -
  note cmp = comparisonExpr_columns [OF lower]
  have "rule_columns env fs s" if "isNotExpr env fs = Inr s"
    using that cmp by (auto simp: isNotExpr_def split: option.splits if_splits)
  moreover have "rule_columns env fs s" if m: "missingExpr env fs b = Inr s" for b
  proof -
    have "rule_columns env fs (missing_column (pf_expr f) es n)"
      if "singleField env fs = Some (field, v, info)" "map_of smartPlaylistFields (fi_name info) = Some f" "pf_expr f \<noteq> []" for field v info f es n
    proof -
      have "\<exists>field\<in>fst ` set fs. column_of env field (pf_expr f)"
        using singleField_Some [OF that(1)] that(2,3) by (auto simp: column_of_def)
      then show ?thesis by (auto simp: rule_columns_def missing_column_def)
    qed
    with m show ?thesis
      by (auto simp: missingExpr_def Let_def split: option.splits if_splits val.splits list.splits)
  qed
  moreover have "rule_columns env fs s" if l: "likeExpr env fs p b = Inr s" for p b
  proof -
    have plain: "rule_columns env fs (SqlLike b (map (\<lambda>(f, v). (f, like_pattern env p v)) m))" if "sqlFields env fs = Inr m" for m
    proof -
      have "set (columns (SqlLike b (map (\<lambda>(f, v). (f, like_pattern env p v)) m))) = fst ` set m"
        by (auto simp: image_image case_prod_beta)
      with sqlFields_columns [OF lower that] show ?thesis by (simp only: rule_columns_def ball_simps) blast
    qed
    have "rule_columns env fs (SqlLike b [(coalesced env f, t)])"
      if "singleField env fs = Some (field, v, info)" "annotationField info = Some f" for field v info f t
      using annotation_column(2) [OF that] by (simp add: rule_columns_def)
    with l plain show ?thesis
      by (auto simp: likeExpr_def Let_def map_sum_Inr_iff split: option.splits if_splits)
  qed
  moreover have "rule_columns env fs s" if r: "rangeExpr env fs = Inr s"
    by (rule rangeExpr_parts [OF r]) (use cmp in \<open>fastforce simp: rule_columns_def\<close>)
  moreover have "rule_columns env fs s" if p: "periodExpr env fs b = Inr s" for b
  proof -
    obtain m d where m: "sqlFields env fs = Inr m" "s = period_cond (fst (first_entry m)) d b" "m \<noteq> []"
      using p nil by (auto simp: periodExpr_def bind_result_Inr first_entry_def split: option.splits list.splits)
    then have "fst (first_entry m) \<in> fst ` set m" by (cases m) (auto simp: first_entry_def)
    from sqlFields_columns [OF lower m(1) this] show ?thesis by (auto simp: m(2) rule_columns_def period_cond_def)
  qed
  moreover have "rule_columns env fs s" if "inList env fs b = Inr s" for b
    using that by (auto simp: inList_def Let_def split: option.splits val.splits)
  ultimately show ?thesis using s cmp by (cases op) (auto simp: ruleSQL_def)
qed

fun rule_fields :: "Expression \<Rightarrow> string list" where
  "rule_fields (All es) = concat (map rule_fields es)"
| "rule_fields (Any es) = concat (map rule_fields es)"
| "rule_fields (Rule op fs) = map fst fs"

lemma merged_columns:
  "set (concat (map columns (fst (mergeSameFieldConds neg conds)))) \<subseteq> set (concat (map columns conds))"
proof -
  have "columns m = []" if "m \<in> set (merge_group neg conds key)" for m key
    using that by (auto simp: merge_group_def Let_def split: if_splits sqlizer.splits)
  moreover have "m \<in> set conds \<or> (\<exists>key. m \<in> set (merge_group neg conds key))" if "m \<in> set (fst (mergeSameFieldConds neg conds))" for m
    using that by (auto simp: mergeSameFieldConds_def Let_def split: if_splits)
  ultimately show ?thesis by fastforce
qed

lemma exprSQL_columns:
  assumes "lower_names (se_fields env)" "Atoi (se_format env VNull) = None"
  shows "exprSQL env e = Inr s \<Longrightarrow> col \<in> set (columns s) \<Longrightarrow> \<exists>field\<in>set (rule_fields e). column_of env field col"
proof (induction e arbitrary: s)
  case (All es)
  then obtain ss where ss: "map (exprSQL env) es = map Inr ss" "s = mergeNegatedJsonConds ss"
    by (auto simp: map_sum_Inr_iff collect_Inr)
  then have "col \<in> set (concat (map columns ss))"
    using All(3) merged_columns [of True ss] by (auto simp: mergeNegatedJsonConds_def split: prod.splits if_splits)
  then obtain t where t: "t \<in> set ss" "col \<in> set (columns t)" by auto
  then obtain i where "i < length ss" "col \<in> set (columns (ss ! i))" by (metis in_set_conv_nth)
  moreover from this have "exprSQL env (es ! i) = Inr (ss ! i)" "i < length es"
    using ss(1) by (metis length_map nth_map)+
  ultimately show ?case using All(1) [of "es ! i" "ss ! i"] by auto
next
  case (Any es)
  then obtain ss where ss: "map (exprSQL env) es = map Inr ss" "s = mergeJsonConds ss"
    by (auto simp: map_sum_Inr_iff collect_Inr)
  then have "col \<in> set (concat (map columns ss))"
    using Any(3) merged_columns [of False ss] by (auto simp: mergeJsonConds_def split: prod.splits if_splits)
  then obtain t where t: "t \<in> set ss" "col \<in> set (columns t)" by auto
  then obtain i where "i < length ss" "col \<in> set (columns (ss ! i))" by (metis in_set_conv_nth)
  moreover from this have "exprSQL env (es ! i) = Inr (ss ! i)" "i < length es"
    using ss(1) by (metis length_map nth_map)+
  ultimately show ?case using Any(1) [of "es ! i" "ss ! i"] by auto
next
  case (Rule op fs)
  then show ?case using ruleSQL_columns [OF assms, of op fs s] by (auto simp: rule_columns_def)
qed

lemma join_has_or [simp]: "join_has (a OR b) x \<longleftrightarrow> join_has a x \<or> join_has b x"
  by (simp add: join_has_def bit.conj_disj_distrib2 or_eq_0_iff)

lemma join_has_fold: "join_has (fold (\<lambda>kv j. j OR g kv) xs a) x \<longleftrightarrow> join_has a x \<or> (\<exists>kv\<in>set xs. join_has (g kv) x)"
  by (induction xs arbitrary: a) auto

lemma Walk_joins:
  shows "\<exists>j'. Walk (join_visitor env) e j = Inr j' \<and>
      (\<forall>x. join_has j' x \<longleftrightarrow> join_has j x \<or> (\<exists>field\<in>set (rule_fields e). join_has (fieldJoinType env field) x))"
    and "\<exists>j'. walk_list (join_visitor env) es j = Inr j' \<and>
      (\<forall>x. join_has j' x \<longleftrightarrow> join_has j x \<or> (\<exists>e\<in>set es. \<exists>field\<in>set (rule_fields e). join_has (fieldJoinType env field) x))"
proof (induction "join_visitor env" e j and "join_visitor env" es j rule: Walk_walk_list.induct)
  case (1 e j)
  then show ?case
    by (cases e) (auto simp: join_visitor_def expr_fields_def join_has_fold)
next
  case (3 e es j)
  then show ?case by (force)
qed simp

text \<open>The tables a query may name: those it always selects from, and those it joins.\<close>

definition table_of :: "string \<Rightarrow> string" where "table_of col = takeWhile (\<lambda>c. c \<noteq> CHR ''.'') col"

definition joined_tables :: "(string \<times> smartPlaylistJoinType) list" where
  "joined_tables = [(''album_annotation'', smartPlaylistJoinAlbumAnnotation),
     (''artist_annotation'', smartPlaylistJoinArtistAnnotation), (''album'', smartPlaylistJoinAlbum)]"

definition available :: "smartPlaylistJoinType \<Rightarrow> string \<Rightarrow> bool" where
  "available j t \<longleftrightarrow> t \<in> set [''media_file'', ''annotation''] \<or> list_ex (\<lambda>(u, x). t = u \<and> join_has j x) joined_tables"

lemma join_has_self:
  "join_has smartPlaylistJoinAlbumAnnotation smartPlaylistJoinAlbumAnnotation"
  "join_has smartPlaylistJoinArtistAnnotation smartPlaylistJoinArtistAnnotation"
  "join_has smartPlaylistJoinAlbum smartPlaylistJoinAlbum"
  by (simp_all add: join_has_def smartPlaylistJoinAlbumAnnotation_def smartPlaylistJoinArtistAnnotation_def smartPlaylistJoinAlbum_def)

lemma tables_joined: "list_all (\<lambda>(_, f). pf_expr f \<noteq> [] \<longrightarrow> available (pf_joinType f) (table_of (pf_expr f))) smartPlaylistFields"
proof -
  have "list_all (\<lambda>(_, f). pf_expr f = [] \<or> table_of (pf_expr f) \<in> set [''media_file'', ''annotation''] \<or>
     (table_of (pf_expr f), pf_joinType f) \<in> set joined_tables) smartPlaylistFields" by code_simp
  moreover have "list_all (\<lambda>(_, x). join_has x x) joined_tables" by (simp add: joined_tables_def join_has_self)
  ultimately show ?thesis unfolding available_def list_all_iff list_ex_iff by fast
qed

lemma available_mono: "available j t \<Longrightarrow> (\<And>x. join_has j x \<Longrightarrow> join_has j' x) \<Longrightarrow> available j' t"
  unfolding available_def list_ex_iff by fast

lemma column_available:
  assumes "column_of env field col" "\<And>x. join_has (fieldJoinType env field) x \<Longrightarrow> join_has j x"
  shows "\<exists>(name, f)\<in>set smartPlaylistFields. (col = pf_expr f \<or> col = coalesced env f) \<and> available j (table_of (pf_expr f))"
proof -
  obtain info f where f: "LookupField (se_fields env) field = Some info" "map_of smartPlaylistFields (fi_name info) = Some f"
    "pf_expr f \<noteq> []" "col = pf_expr f \<or> col = coalesced env f" using assms(1) by (auto simp: column_of_def)
  have mem: "(fi_name info, f) \<in> set smartPlaylistFields" using f(2) by (rule map_of_SomeD)
  then have "available (pf_joinType f) (table_of (pf_expr f))" using tables_joined f(3) by (fastforce simp: list_all_iff)
  moreover have "fieldJoinType env field = pf_joinType f" using f(1,2) by (simp add: fieldJoinType_def)
  ultimately have "available j (table_of (pf_expr f))" using assms(2) by (metis available_mono)
  with mem f(4) show ?thesis by fastforce
qed

lemma ExpressionJoins_has:
  assumes "cr_Expression c = Some e" "field \<in> set (rule_fields e)" "join_has (fieldJoinType env field) x"
  shows "join_has (ExpressionJoins env c) x"
proof -
  obtain j where "Walk (join_visitor env) e smartPlaylistJoinNone = Inr j"
    "\<And>x. join_has j x \<longleftrightarrow> join_has smartPlaylistJoinNone x \<or> (\<exists>field\<in>set (rule_fields e). join_has (fieldJoinType env field) x)"
    using Walk_joins(1) [of env e smartPlaylistJoinNone] by blast
  with assms show ?thesis by (auto simp: ExpressionJoins_def)
qed

text \<open>Merged groups name the tags of the conditions they stand for.\<close>

lemma merged_tags:
  "set (concat (map tag_names (fst (mergeSameFieldConds neg conds)))) \<subseteq> set (concat (map tag_names conds))"
proof -
  have group: "set (tag_names m) \<subseteq> set (concat (map tag_names conds))" if m: "m \<in> set (merge_group neg conds key)" for m key
  proof -
    obtain s0 rest where g: "group_of neg key conds = s0 # rest"
      using m by (cases "group_of neg key conds") (auto simp: merge_group_def Let_def)
    then have "s0 \<in> set conds" using set_filter [of "\<lambda>s. group_key neg s = Some key" conds] by (auto simp: group_of_def)
    moreover have "set (tag_names m) \<subseteq> set (tag_names s0)"
      using that by (auto simp: merge_group_def g Let_def split: if_splits sqlizer.splits)
    ultimately show ?thesis by auto
  qed
  moreover have "m \<in> set conds \<or> (\<exists>key. m \<in> set (merge_group neg conds key))" if "m \<in> set (fst (mergeSameFieldConds neg conds))" for m
    using that by (auto simp: mergeSameFieldConds_def Let_def split: if_splits)
  ultimately show ?thesis by fastforce
qed

definition registered_tag :: "field_map \<Rightarrow> string \<Rightarrow> bool" where
  "registered_tag fm t \<longleftrightarrow> list_ex (\<lambda>kf. fi_IsTag (snd kf) \<and> canonical_name kf = t) fm"

text \<open>A rule becomes one tag or role condition, or a condition on columns.\<close>

fun on_columns :: "sqlizer \<Rightarrow> bool" where
  "on_columns (SqlAnd ss) \<longleftrightarrow> list_all on_columns ss"
| "on_columns (SqlOr ss) \<longleftrightarrow> list_all on_columns ss"
| "on_columns (SqlCmp _ _) \<longleftrightarrow> True"
| "on_columns (SqlLike _ _) \<longleftrightarrow> True"
| "on_columns _ \<longleftrightarrow> False"

definition simple_cond :: "sqlizer \<Rightarrow> bool" where
  "simple_cond s \<longleftrightarrow> (case s of SqlCmp _ _ \<Rightarrow> True | SqlLike _ _ \<Rightarrow> True | _ \<Rightarrow> False)"

definition rule_shape :: "SqlEnv \<Rightarrow> sqlizer \<Rightarrow> bool" where
  "rule_shape env s \<longleftrightarrow> on_columns s \<or>
     (\<exists>t b c n. s = TagCond t b c n \<and> registered_tag (se_fields env) t \<and> pred_option simple_cond c) \<or>
     (\<exists>r c n. s = RoleCond r c n \<and> pred_option simple_cond c) \<or>
     (\<exists>i n. inList env [(''id'', VStr i)] n = Inr s)"

lemma rule_shape_json:
  assumes "singleField env fs = Some (field, v, info)" "fi_IsTag info \<or> fi_IsRole info" "pred_option simple_cond c"
  shows "rule_shape env (jsonExpr info c n)"
proof (cases "fi_IsRole info")
  case False
  have "registered_tag (se_fields env) (fi_name info)"
    by (rule LookupField_Some [OF singleField_Some(2) [OF assms(1)]])
      (use assms(2) False in \<open>auto simp: registered_tag_def list_ex_iff\<close>)
  then show ?thesis using False assms(3) by (simp add: rule_shape_def jsonExpr_def)
qed (use assms(3) in \<open>simp add: rule_shape_def jsonExpr_def\<close>)

lemma rule_shape_simps [simp]:
  "rule_shape env (SqlCmp c fs)" "rule_shape env (SqlLike n ps)" "rule_shape env (annotationCond env f cmp v)"
  "rule_shape env (missing_column col es n)" "rule_shape env (period_cond col d n)"
  by (auto simp: rule_shape_def annotationCond_def missing_column_def period_cond_def list_all_iff split: option.splits)

lemma comparisonExpr_shape:
  assumes "comparisonExpr env fs cmp = Inr s"
  shows "rule_shape env s"
  using assms rule_shape_json
  by (auto simp: comparisonExpr_def Let_def map_sum_Inr_iff simple_cond_def split: option.splits if_splits)

lemma comparisonExpr_on_columns:
  assumes "comparisonExpr env fs cmp = Inr s" "\<not> on_json env fs"
  shows "on_columns s"
proof -
  have "on_columns (annotationCond env f cmp v)" for f v by (auto simp: annotationCond_def split: option.splits)
  with assms show ?thesis
    by (auto simp: comparisonExpr_def on_json_def Let_def map_sum_Inr_iff split: option.splits if_splits)
qed

lemma ruleSQL_shape: "ruleSQL env op fs = Inr s \<Longrightarrow> rule_shape env s"
proof -
  note json = rule_shape_json
  have "isNotExpr env fs = Inr s \<Longrightarrow> rule_shape env s"
    using json comparisonExpr_shape by (auto simp: isNotExpr_def simple_cond_def split: option.splits if_splits)
  moreover have "missingExpr env fs b = Inr s \<Longrightarrow> rule_shape env s" for b
    using json by (auto simp: missingExpr_def Let_def split: option.splits if_splits val.splits list.splits)
  moreover have "likeExpr env fs p b = Inr s \<Longrightarrow> rule_shape env s" for p b
    using json by (auto simp: likeExpr_def Let_def map_sum_Inr_iff simple_cond_def split: option.splits if_splits)
  moreover have "rule_shape env s" if r: "rangeExpr env fs = Inr s"
  proof (rule rangeExpr_parts [OF r])
    fix field low high l h
    assume fs: "fs = [(field, VArr [low, high])]" and l: "comparisonExpr env [(field, low)] cmpGe = Inr l"
      and h: "comparisonExpr env [(field, high)] cmpLe = Inr h" and s: "s = SqlAnd [l, h]"
    have "\<not> on_json env [(field, v)]" for v
      using r fs by (auto simp: rangeExpr_def on_json_def singleField_def split: option.splits if_splits)
    with comparisonExpr_on_columns [OF l] comparisonExpr_on_columns [OF h] show "rule_shape env s"
      by (simp add: s rule_shape_def)
  qed
  moreover have "periodExpr env fs b = Inr s \<Longrightarrow> rule_shape env s" for b
    by (auto simp: periodExpr_def bind_result_Inr split: option.splits)
  moreover have "inList env fs b = Inr s \<Longrightarrow> rule_shape env s" for b
    by (auto simp: inList_def rule_shape_def Let_def split: option.splits val.splits)
  ultimately show "ruleSQL env op fs = Inr s \<Longrightarrow> rule_shape env s"
    using comparisonExpr_shape by (cases op) (auto simp: ruleSQL_def)
qed

section \<open>Whose playlists a rule reads\<close>

text \<open>The playlists a rule's owner may read: all for an administrator, else public ones and their own.\<close>

definition visible_row :: "SqlEnv \<Rightarrow> SqlEngine \<Rightarrow> (string \<Rightarrow> val) \<Rightarrow> bool" where
  "visible_row env E cols \<longleftrightarrow> u_IsAdmin (se_owner env) \<or> en_compare E cmpEq (cols ''playlist.public'') (VNum 1) \<or>
     u_ID (se_owner env) \<noteq> [] \<and> en_compare E cmpEq (cols ''playlist.owner_id'') (VStr (u_ID (se_owner env)))"

definition same_for_owner :: "SqlEnv \<Rightarrow> SqlEngine \<Rightarrow> SqlRow \<Rightarrow> SqlRow \<Rightarrow> bool" where
  "same_for_owner env E R R' \<longleftrightarrow>
     row_tags R = row_tags R' \<and> row_roles R = row_roles R' \<and> row_media R = row_media R' \<and>
     filter (\<lambda>l. visible_row env E (snd l)) (row_listed R) = filter (\<lambda>l. visible_row env E (snd l)) (row_listed R')"

fun guarded :: "SqlEnv \<Rightarrow> sqlizer \<Rightarrow> bool" where
  "guarded env (SqlAnd ss) \<longleftrightarrow> list_all (guarded env) ss"
| "guarded env (SqlOr ss) \<longleftrightarrow> list_all (guarded env) ss"
| "guarded env (SqlInTracks n f) \<longleftrightarrow> (\<exists>i. inList env [(''id'', VStr i)] n = Inr (SqlInTracks n f))"
| "guarded env (TagCond _ _ c _) \<longleftrightarrow> pred_option simple_cond c"
| "guarded env (RoleCond _ c _) \<longleftrightarrow> pred_option simple_cond c"
| "guarded env (TagCondGroup _ _ cs _) \<longleftrightarrow> list_all simple_cond cs"
| "guarded env (RoleCondGroup _ cs _) \<longleftrightarrow> list_all simple_cond cs"
| "guarded env _ \<longleftrightarrow> True"

lemma holds_simple: "simple_cond s \<Longrightarrow> holds E R col s = holds E R' col s"
  by (cases s) (simp_all add: simple_cond_def)

lemma holds_list: "list_all simple_cond cs \<Longrightarrow> list_ex (holds E R col) cs = list_ex (holds E R' col) cs"
  by (induction cs) (simp_all add: holds_simple [of _ E R col R'])

lemma filters_visible:
  assumes "inList env [(''id'', VStr i)] n = Inr (SqlInTracks n f)" "holds E R cols f"
  shows "visible_row env E cols"
  using assms by (auto simp: inList_def visible_row_def Let_def split: if_splits)

lemma filters_rowless:
  assumes "inList env [(''id'', VStr i)] n = Inr (SqlInTracks n f)"
  shows "holds E R cols f = holds E R' cols f"
  using assms by (auto simp: inList_def Let_def split: if_splits)

lemma holds_same_for_owner:
  assumes "same_for_owner env E R R'"
  shows "guarded env s \<Longrightarrow> holds E R col s = holds E R' col s"
proof (induction s arbitrary: col)
  case (SqlAnd ss)
  then show ?case by (induction ss) auto
next
  case (SqlOr ss)
  then show ?case by (induction ss) auto
next
  case (SqlInTracks n f)
  then obtain i where i: "inList env [(''id'', VStr i)] n = Inr (SqlInTracks n f)" by auto
  have vis: "list_ex (\<lambda>(m, cols). m = row_media R \<and> holds E Q cols f) ls \<longleftrightarrow>
      list_ex (\<lambda>(m, cols). m = row_media R \<and> holds E Q cols f) (filter (\<lambda>l. visible_row env E (snd l)) ls)" for Q ls
    using filters_visible [OF i] by (induction ls) auto
  have m: "row_media R' = row_media R" using assms by (simp add: same_for_owner_def)
  show ?case
    unfolding holds.simps m vis [of _ "row_listed R"] vis [of _ "row_listed R'"]
    using assms filters_rowless [OF i, of E R _ R'] by (simp add: same_for_owner_def)
next
  case (TagCond t b c n)
  then show ?case using assms holds_simple [of _ E R _ R'] by (cases c) (auto simp: same_for_owner_def)
next
  case (RoleCond r c n)
  then show ?case using assms holds_simple [of _ E R _ R'] by (cases c) (auto simp: same_for_owner_def)
next
  case (TagCondGroup t b cs n)
  then show ?case using assms holds_list [of cs E R _ R'] by (simp add: same_for_owner_def)
next
  case (RoleCondGroup r cs n)
  then show ?case using assms holds_list [of cs E R _ R'] by (simp add: same_for_owner_def)
qed simp_all

lemma on_columns_guarded: "on_columns s \<Longrightarrow> guarded env s"
  by (induction s) (auto simp: list_all_iff)

lemma rule_shape_guarded: "rule_shape env s \<Longrightarrow> guarded env s"
  by (auto simp: rule_shape_def on_columns_guarded) (auto simp: inList_def Let_def)

lemma merged_guarded:
  assumes "list_all (guarded env) conds"
  shows "list_all (guarded env) (fst (mergeSameFieldConds neg conds))"
proof -
  have inner: "simple_cond (inner_cond s)" if "s \<in> set (group_of neg key conds)" for s key
  proof -
    have "guarded env s" "group_key neg s = Some key" using that assms by (auto simp: group_of_def list_all_iff)
    then show ?thesis by (elim group_key_cases) auto
  qed
  have "guarded env m" if m: "m \<in> set (merge_group neg conds key)" for m key
  proof -
    have "x \<in> inner_cond ` set (group_of neg key conds)"
      if "batch \<in> set (chunk jsonCondBatchSize (map inner_cond (group_of neg key conds)))" "x \<in> set batch" for batch x
    proof -
      have "x \<in> set (concat (chunk jsonCondBatchSize (map inner_cond (group_of neg key conds))))" using that by auto
      then show ?thesis by (simp add: concat_chunk jsonCondBatchSize_def)
    qed
    then show ?thesis using m inner by (fastforce simp: merge_group_def Let_def list_all_iff split: if_splits sqlizer.splits)
  qed
  with assms show ?thesis by (auto simp: mergeSameFieldConds_def Let_def list_all_iff split: if_splits)
qed

lemma exprSQL_guarded: "exprSQL env e = Inr s \<Longrightarrow> guarded env s"
proof (induction e arbitrary: s)
  case (All es)
  then obtain ss where ss: "map (exprSQL env) es = map Inr ss" "s = mergeNegatedJsonConds ss"
    by (auto simp: map_sum_Inr_iff collect_Inr)
  then have "list_all (guarded env) ss" using All(1) by (metis (no_types, lifting) image_iff image_set list_all_iff)
  then show ?case using merged_guarded [of env ss True] by (auto simp: ss(2) mergeNegatedJsonConds_def split: prod.splits)
next
  case (Any es)
  then obtain ss where ss: "map (exprSQL env) es = map Inr ss" "s = mergeJsonConds ss"
    by (auto simp: map_sum_Inr_iff collect_Inr)
  then have "list_all (guarded env) ss" using Any(1) by (metis (no_types, lifting) image_iff image_set list_all_iff)
  then show ?case using merged_guarded [of env ss False] by (auto simp: ss(2) mergeJsonConds_def split: prod.splits)
next
  case (Rule op fs)
  then show ?case using ruleSQL_shape rule_shape_guarded by simp
qed

lemma exprSQL_tags: "exprSQL env e = Inr s \<Longrightarrow> t \<in> set (tag_names s) \<Longrightarrow> registered_tag (se_fields env) t"
proof (induction e arbitrary: s)
  case (All es)
  then obtain ss where ss: "map (exprSQL env) es = map Inr ss" "s = mergeNegatedJsonConds ss"
    by (auto simp: map_sum_Inr_iff collect_Inr)
  then have "t \<in> set (concat (map tag_names ss))"
    using All(3) merged_tags [of True ss] by (auto simp: mergeNegatedJsonConds_def split: prod.splits if_splits)
  then obtain x where x: "x \<in> set ss" "t \<in> set (tag_names x)" by auto
  then obtain e where "e \<in> set es" "exprSQL env e = Inr x" using ss(1) by (metis (no_types, lifting) image_iff image_set)
  then show ?case using All(1) x(2) by blast
next
  case (Any es)
  then obtain ss where ss: "map (exprSQL env) es = map Inr ss" "s = mergeJsonConds ss"
    by (auto simp: map_sum_Inr_iff collect_Inr)
  then have "t \<in> set (concat (map tag_names ss))"
    using Any(3) merged_tags [of False ss] by (auto simp: mergeJsonConds_def split: prod.splits if_splits)
  then obtain x where x: "x \<in> set ss" "t \<in> set (tag_names x)" by auto
  then obtain e where "e \<in> set es" "exprSQL env e = Inr x" using ss(1) by (metis (no_types, lifting) image_iff image_set)
  then show ?case using Any(1) x(2) by blast
next
  case (Rule op fs)
  have "tag_names s = []" if "on_columns s" for s using that by (induction s) (auto simp: list_all_iff)
  then show ?case
    using ruleSQL_shape [of env op fs s] Rule by (auto simp: rule_shape_def) (auto simp: inList_def Let_def)
qed

section \<open>Bound values\<close>

text \<open>A condition with its bound values replaced: of a value only whether it is null or a list, and of what length, is left.\<close>

definition blank_val :: "val \<Rightarrow> val" where
  "blank_val v = (case v of VNull \<Rightarrow> VNull | VArr vs \<Rightarrow> VArr (map (\<lambda>_. VBool False) vs) | _ \<Rightarrow> VBool False)"

fun blank :: "sqlizer \<Rightarrow> sqlizer" where
  "blank (SqlAnd ss) = SqlAnd (map blank ss)"
| "blank (SqlOr ss) = SqlOr (map blank ss)"
| "blank (SqlCmp c fs) = SqlCmp c (map (\<lambda>(f, v). (f, blank_val v)) fs)"
| "blank (SqlLike n ps) = SqlLike n (map (\<lambda>(f, p). (f, [])) ps)"
| "blank (SqlInTracks n f) = SqlInTracks n (blank f)"
| "blank SqlTrue = SqlTrue"
| "blank (TagCond t b c n) = TagCond t b (map_option blank c) n"
| "blank (RoleCond r c n) = RoleCond [] (map_option blank c) n"
| "blank (TagCondGroup t b cs n) = TagCondGroup t b (map blank cs) n"
| "blank (RoleCondGroup r cs n) = RoleCondGroup [] (map blank cs) n"

text \<open>Two results with the same text, or both failures.\<close>

definition same_text :: "string + sql_text \<Rightarrow> string + sql_text \<Rightarrow> bool" where
  "same_text a b \<longleftrightarrow> rel_sum (\<lambda>_ _. True) (\<lambda>x y. fst x = fst y) a b"

text \<open>squirrel writes a placeholder for every bound value: its text depends on columns and shapes only.\<close>

definition binds_values :: "Squirrel \<Rightarrow> bool" where
  "binds_values sq \<longleftrightarrow>
     (\<forall>s. same_text (sq_cond sq s) (sq_cond sq (blank s))) \<and> (\<forall>s. same_text (sq_subquery sq s) (sq_subquery sq (blank s))) \<and>
     (\<forall>b ts us. map fst ts = map fst us \<longrightarrow> fst (sq_join sq b ts) = fst (sq_join sq b us))"

lemma binds_join: "binds_values sq \<Longrightarrow> map fst ts = map fst us \<Longrightarrow> fst (sq_join sq b ts) = fst (sq_join sq b us)"
  unfolding binds_values_def by blast

lemma binds_cond: "binds_values sq \<Longrightarrow> same_text (sq_cond sq s) (sq_cond sq (blank s))"
  and binds_subquery: "binds_values sq \<Longrightarrow> same_text (sq_subquery sq s) (sq_subquery sq (blank s))"
  unfolding binds_values_def by blast+

lemma collect_same_text:
  assumes "list_all2 same_text xs ys"
  shows "rel_sum (\<lambda>_ _. True) (\<lambda>ts us. map fst ts = map fst us) (collect xs) (collect ys)"
  using assms
proof (induction rule: list_all2_induct)
  case (Cons x xs y ys)
  then show ?case by (cases x; cases y; cases "collect xs"; cases "collect ys") (auto simp: same_text_def)
qed simp

lemma same_text_map:
  assumes "rel_sum (\<lambda>_ _. True) R a b" "\<And>x y. R x y \<Longrightarrow> fst (f x) = fst (g y)"
  shows "same_text (map_sum id f a) (map_sum id g b)"
  using assms by (cases a; cases b) (auto simp: same_text_def)

lemma same_text_map_text:
  "same_text a b \<Longrightarrow> (\<And>x y. fst x = fst y \<Longrightarrow> fst (f x) = fst (g y)) \<Longrightarrow> same_text (map_sum id f a) (map_sum id g b)"
  unfolding same_text_def [of a b] by (rule same_text_map)

lemma roleCondSQL_same: "same_text a b \<Longrightarrow> same_text (roleCondSQL a) (roleCondSQL b)"
  by (cases a; cases b) (auto simp: same_text_def roleCondSQL_def)

lemma ToSql_blank:
  assumes "binds_values sq"
  shows "same_text (ToSql sq s) (ToSql sq (blank s))"
proof (induction s)
  case (SqlAnd ss)
  then have "list_all2 same_text (map (ToSql sq) ss) (map (ToSql sq) (map blank ss))" by (simp add: list_all2_conv_all_nth)
  from collect_same_text [OF this] show ?case
    unfolding ToSql.simps blank.simps by (rule same_text_map) (rule binds_join [OF assms])
next
  case (SqlOr ss)
  then have "list_all2 same_text (map (ToSql sq) ss) (map (ToSql sq) (map blank ss))" by (simp add: list_all2_conv_all_nth)
  from collect_same_text [OF this] show ?case
    unfolding ToSql.simps blank.simps by (rule same_text_map) (rule binds_join [OF assms])
next
  case (TagCond t b c n)
  show ?case
  proof (cases c)
    case (Some x)
    then have "same_text (ToSql sq x) (ToSql sq (blank x))" using TagCond by simp
    then show ?thesis by (simp add: Some tagCond_ToSql_def case_prod_beta same_text_map_text)
  qed (simp add: tagCond_ToSql_def same_text_def)
next
  case (RoleCond r c n)
  show ?case
  proof (cases c)
    case (Some x)
    then have "same_text (roleCondSQL (ToSql sq x)) (roleCondSQL (ToSql sq (blank x)))"
      using RoleCond roleCondSQL_same by simp
    then show ?thesis by (simp add: Some roleCond_ToSql_def case_prod_beta same_text_map_text)
  qed (simp add: roleCond_ToSql_def same_text_def)
next
  case (TagCondGroup t b cs n)
  then have "list_all2 same_text (map (ToSql sq) cs) (map (ToSql sq) (map blank cs))" by (simp add: list_all2_conv_all_nth)
  from collect_same_text [OF this] show ?case
    by (auto simp: tagCondGroup_ToSql_def map_map [symmetric] simp del: map_map intro!: same_text_map)
next
  case (RoleCondGroup r cs n)
  then have "list_all2 same_text (map roleCondSQL (map (ToSql sq) cs)) (map roleCondSQL (map (ToSql sq) (map blank cs)))"
    by (simp add: list_all2_conv_all_nth roleCondSQL_same)
  from collect_same_text [OF this] show ?case
    by (auto simp: roleCondGroup_ToSql_def intro!: same_text_map)
next
  case (SqlInTracks n f)
  from binds_subquery [OF assms, of f] show ?case
    unfolding ToSql.simps blank.simps by (simp add: case_prod_beta same_text_map_text)
next
  case (SqlCmp c fs)
  then show ?case using binds_cond [OF assms, of "SqlCmp c fs"] by simp
next
  case (SqlLike n ps)
  then show ?case using binds_cond [OF assms, of "SqlLike n ps"] by simp
next
  case SqlTrue
  then show ?case using binds_cond [OF assms, of SqlTrue] by simp
qed

section \<open>Properties\<close>



text \<open>
  C9. A smart playlist does not leak other users' playlists. Whether a track matches a rule set depends,
  of all playlists, only on those its owner may read - public ones and the owner's (all of them for an
  administrator): whatever tracks the other playlists have, the result is the same.
\<close>

theorem smart_rules_read_visible_playlists:
  assumes "criteria_Where env c = Inr s" "same_for_owner env E R R'" "row_column R = row_column R'"
  shows "holds E R (row_column R) s \<longleftrightarrow> holds E R' (row_column R') s"
proof -
  have "guarded env s"
    using assms(1) exprSQL_guarded by (auto simp: criteria_Where_def split: option.splits)
  from holds_same_for_owner [OF assms(2) this] assms(3) show ?thesis by simp
qed

section \<open>Examples\<close>

definition sample_format :: "val \<Rightarrow> string" where
  "sample_format v = (case v of VNull \<Rightarrow> ''<nil>'' | VBool b \<Rightarrow> (if b then ''true'' else ''false'') | VNum x \<Rightarrow> Itoa \<lfloor>x\<rfloor>
     | VStr t \<Rightarrow> t | _ \<Rightarrow> ''...'')"

definition sample_user :: User where
  "sample_user = \<lparr>u_ID = ''u1'', u_UserName = ''ann'', u_Name = ''Ann'', u_Email = [], u_IsAdmin = False, u_Libraries = [1],
     u_Password = [], u_NewPassword = []\<rparr>"

definition sample_env :: SqlEnv where
  "sample_env = \<lparr>se_fields = AddRoles [''artist''] (AddTagNames [''genre''] fieldMap), se_owner = sample_user, se_format = sample_format,
     se_parseFloat = (\<lambda>t. map_option of_int (Atoi t)), se_now = 0, se_date = (\<lambda>t. ''2024-01-01'')\<rparr>"

definition sample_compare :: "comparator \<Rightarrow> val \<Rightarrow> val \<Rightarrow> bool" where
  "sample_compare c x v =
     (if v = VNull then (c = cmpEq) = (x = VNull) \<and> (c = cmpEq \<or> c = cmpNe)
      else case x of
          VNum d \<Rightarrow> (case toFloat sample_env v of Some y \<Rightarrow> cmp_satisfy c d y | None \<Rightarrow> False)
        | VBool b \<Rightarrow> (case ToBool v of Some y \<Rightarrow> cmp_satisfy c (boolToFloat b) (boolToFloat y) | None \<Rightarrow> False)
        | VStr t \<Rightarrow> c = cmpEq \<and> v = VStr t \<or> c = cmpNe \<and> v \<noteq> VStr t
        | _ \<Rightarrow> False)"

definition sample_engine :: SqlEngine where
  "sample_engine = \<lparr>en_compare = sample_compare, en_like = (\<lambda>n x p. \<not> n), en_real = id\<rparr>"

lemma sample_engine_ok: "engine_ok sample_env sample_engine"
proof -
  have "toFloat sample_env VNull = None" "ToBool VNull = None" by (simp_all add: toFloat_def ToBool_def)
  then show ?thesis by (auto simp: engine_ok_def sample_engine_def sample_compare_def split: val.splits)
qed

text \<open>A row without annotations, tagged as jazz, that two playlists list: one of the user's and a private one of another user.\<close>

definition sample_row :: SqlRow where
  "sample_row = \<lparr>row_column = (\<lambda>col. if HasPrefix col ''COALESCE('' then (if Contains col ''starred'' then VBool False else VNum 0) else VNull),
     row_tags = (\<lambda>t. if t = ''genre'' then [VStr ''Jazz''] else []), row_roles = (\<lambda>r. []), row_media = ''m1'',
     row_listed = [(''m1'', \<lambda>col. if col = ''pl.playlist_id'' then VStr ''p1'' else if col = ''playlist.owner_id'' then VStr ''u1'' else VNum 0),
       (''m1'', \<lambda>col. if col = ''pl.playlist_id'' then VStr ''p2'' else if col = ''playlist.owner_id'' then VStr ''u2'' else VNum 0)]\<rparr>"

definition sample_expr :: Expression where
  "sample_expr = All [Any [Rule Is [(''genre'', VStr ''Rock'')], Rule Is [(''genre'', VStr ''Jazz'')]], Rule Lt [(''albumrating'', VNum 3)],
     Rule InPlaylist [(''id'', VStr ''p1'')]]"

definition sample_where :: sqlizer where
  "sample_where = SqlAnd [
     SqlOr [TagCondGroup ''genre'' False [SqlCmp cmpEq [(''value'', VStr ''Rock'')], SqlCmp cmpEq [(''value'', VStr ''Jazz'')]] False],
     SqlOr [SqlCmp cmpLt [(''album_annotation.rating'', VNum 3)], SqlCmp cmpEq [(''album_annotation.rating'', VNull)]],
     SqlInTracks False (SqlAnd [SqlCmp cmpEq [(''pl.playlist_id'', VStr ''p1'')],
       SqlOr [SqlCmp cmpEq [(''playlist.public'', VNum 1)], SqlCmp cmpEq [(''playlist.owner_id'', VStr ''u1'')]]])]"

definition sample_rule_set :: Criteria where
  "sample_rule_set = \<lparr>cr_Expression = Some sample_expr, cr_Sort = [], cr_Order = [], cr_Limit = 0, cr_LimitPercent = 0,
     cr_Offset = 0, cr_RefreshDelay = 0\<rparr>"

lemma sample_sql: "exprSQL sample_env sample_expr = Inr sample_where"
  by code_simp


text \<open>A stand-in for squirrel: every text lists columns, never values.\<close>

definition sample_squirrel :: Squirrel where
  "sample_squirrel = \<lparr>sq_cond = (\<lambda>s. Inr (Join (columns s) '','', [])), sq_join = (\<lambda>b ts. (Join (map fst ts) (if b then '' AND '' else '' OR ''), [])),
     sq_subquery = (\<lambda>s. Inr (''select'', []))\<rparr>"

lemma sample_binds: "binds_values sample_squirrel"
proof -
  have "columns (blank s) = columns s" for s
    by (induction s) (auto simp: case_prod_beta comp_def intro!: arg_cong [of _ _ concat])
  then show ?thesis by (simp add: binds_values_def sample_squirrel_def same_text_def)
qed


theorem smart_rules_read_visible_playlists_witness:
  "holds sample_engine sample_row (row_column sample_row) sample_where \<longleftrightarrow>
   holds sample_engine (sample_row\<lparr>row_listed := take 1 (row_listed sample_row)\<rparr>) (row_column sample_row) sample_where"
proof -
  have w: "criteria_Where sample_env sample_rule_set = Inr sample_where"
    using sample_sql by (simp add: criteria_Where_def sample_rule_set_def)
  have v: "same_for_owner sample_env sample_engine sample_row (sample_row\<lparr>row_listed := take 1 (row_listed sample_row)\<rparr>)"
  proof -
    have "\<not> u_IsAdmin (se_owner sample_env)" "u_ID (se_owner sample_env) = ''u1''" by (simp_all add: sample_env_def sample_user_def)
    then show ?thesis
      by (simp add: same_for_owner_def sample_row_def visible_row_def sample_engine_def sample_compare_def toFloat_def cmp_satisfy_def)
  qed
  from smart_rules_read_visible_playlists [OF w v] show ?thesis by simp
qed

text \<open>
  \<open>startOfPeriod\<close> multiplies hours by nanoseconds in 64 bits: a period of more than 106751 days wraps, and
  the first date lies in the future.
\<close>

lemma long_period_wraps: "startOfPeriod env 106752 now = se_date env (now + 9223371273709551616)"
  by (simp add: startOfPeriod_def wrap64_def signed_take_bit_eq_if_negative)

end
