(* ===== verification/Model_Playlist.thy ===== *)
theory Model_Playlist
  imports Model_MediaFile Model_Criteria
begin

text \<open>
  A playlist and its tracks (\<open>model/playlist.go\<close>). The fields that are not columns and that no operation
  here reads (\<open>OwnerName\<close>, the annotations, the image) are left out. Durations are \<open>float32\<close>; the
  addition of two of them is an argument.
\<close>

record PlaylistTrack =
  ptk_ID :: string
  ptk_MediaFileID :: string
  ptk_PlaylistID :: string
  ptk_MediaFile :: MediaFile

type_synonym PlaylistTracks = "PlaylistTrack list"

record Playlist =
  pls_ID :: string
  pls_Name :: string
  pls_Comment :: string
  pls_Duration :: float32
  pls_Size :: go_int
  pls_SongCount :: go_int
  pls_OwnerID :: string
  pls_Public :: bool
  pls_Tracks :: PlaylistTracks
  pls_Path :: string
  pls_Sync :: bool
  pls_UploadedImage :: string
  pls_ExternalImageURL :: string
  pls_CreatedAt :: time_ns
  pls_UpdatedAt :: time_ns
  pls_Rules :: "Criteria option"
  pls_EvaluatedAt :: "time_ns option"

definition zero_Playlist :: Playlist where
  "zero_Playlist =
     \<lparr>pls_ID = [], pls_Name = [], pls_Comment = [], pls_Duration = 0, pls_Size = 0, pls_SongCount = 0,
      pls_OwnerID = [], pls_Public = False, pls_Tracks = [], pls_Path = [], pls_Sync = False,
      pls_UploadedImage = [], pls_ExternalImageURL = [], pls_CreatedAt = 0, pls_UpdatedAt = 0,
      pls_Rules = None, pls_EvaluatedAt = None\<rparr>"

definition IsSmartPlaylist :: "Playlist \<Rightarrow> bool" where
  "IsSmartPlaylist pls \<longleftrightarrow> (case pls_Rules pls of None \<Rightarrow> False | Some c \<Rightarrow> cr_Expression c \<noteq> None)"

definition RefreshDelay :: "time_ns \<Rightarrow> Playlist \<Rightarrow> time_ns" where \<comment> \<open>the first argument is \<open>conf.Server.SmartPlaylistRefreshDelay\<close>\<close>
  "RefreshDelay conf pls =
     (case pls_Rules pls of
        Some c \<Rightarrow> if IsSmartPlaylist pls \<and> cr_RefreshDelay c > 0 then cr_RefreshDelay c else conf
      | None \<Rightarrow> conf)"

definition track_MediaFiles :: "PlaylistTracks \<Rightarrow> MediaFiles" where
  "track_MediaFiles ts = map ptk_MediaFile ts"

definition pls_MediaFiles :: "Playlist \<Rightarrow> MediaFiles" where
  "pls_MediaFiles pls = (if pls_Tracks pls = [] then [] else track_MediaFiles (pls_Tracks pls))"

definition refreshStats :: "(float32 \<Rightarrow> float32 \<Rightarrow> float32) \<Rightarrow> Playlist \<Rightarrow> Playlist" where
  "refreshStats add32 pls =
     pls\<lparr>pls_SongCount := int (length (pls_Tracks pls)),
        pls_Duration := foldl (\<lambda>d t. add32 d (mf_Duration (ptk_MediaFile t))) 0 (pls_Tracks pls),
        pls_Size := foldl (\<lambda>n t. wrap64 (n + mf_Size (ptk_MediaFile t))) 0 (pls_Tracks pls)\<rparr>"

definition SetTracks :: "(float32 \<Rightarrow> float32 \<Rightarrow> float32) \<Rightarrow> PlaylistTracks \<Rightarrow> Playlist \<Rightarrow> Playlist" where
  "SetTracks add32 tracks pls = refreshStats add32 (pls\<lparr>pls_Tracks := tracks\<rparr>)"

definition pls_RemoveTracks :: "(float32 \<Rightarrow> float32 \<Rightarrow> float32) \<Rightarrow> go_int list \<Rightarrow> Playlist \<Rightarrow> Playlist" where
  "pls_RemoveTracks add32 idxToRemove pls =
     refreshStats add32 (pls\<lparr>pls_Tracks :=
       map snd (filter (\<lambda>(i, t). int i \<notin> set idxToRemove) (enumerate 0 (pls_Tracks pls)))\<rparr>)"

fun tracks_from :: "string \<Rightarrow> int \<Rightarrow> MediaFile list \<Rightarrow> PlaylistTracks" where
  "tracks_from p pos [] = []"
| "tracks_from p pos (mf # mfs) =
     \<lparr>ptk_ID = Itoa (pos + 1), ptk_MediaFileID = mf_ID mf, ptk_PlaylistID = p, ptk_MediaFile = mf\<rparr> #
     tracks_from p (pos + 1) mfs"

definition AddMediaFiles :: "(float32 \<Rightarrow> float32 \<Rightarrow> float32) \<Rightarrow> MediaFiles \<Rightarrow> Playlist \<Rightarrow> Playlist" where
  "AddMediaFiles add32 mfs pls =
     refreshStats add32 (pls\<lparr>pls_Tracks :=
       pls_Tracks pls @ tracks_from (pls_ID pls) (int (length (pls_Tracks pls))) mfs\<rparr>)"

definition AddMediaFilesByID :: "(float32 \<Rightarrow> float32 \<Rightarrow> float32) \<Rightarrow> string list \<Rightarrow> Playlist \<Rightarrow> Playlist" where
  "AddMediaFilesByID add32 mediaFileIds pls =
     refreshStats add32 (pls\<lparr>pls_Tracks :=
       pls_Tracks pls @ tracks_from (pls_ID pls) (int (length (pls_Tracks pls)))
         (map (\<lambda>i. zero_MediaFile\<lparr>mf_ID := i\<rparr>) mediaFileIds)\<rparr>)"

lemma tracks_from_media [simp]: "map ptk_MediaFile (tracks_from p pos mfs) = mfs"
  by (induction mfs arbitrary: pos) auto

lemma tracks_from_Nil [simp]: "tracks_from p pos mfs = [] \<longleftrightarrow> mfs = []"
  by (cases mfs) auto

lemma refreshStats_simps [simp]:
  "pls_ID (refreshStats a pls) = pls_ID pls" "pls_OwnerID (refreshStats a pls) = pls_OwnerID pls"
  "pls_Tracks (refreshStats a pls) = pls_Tracks pls" "pls_Rules (refreshStats a pls) = pls_Rules pls"
  "pls_Name (refreshStats a pls) = pls_Name pls" "pls_Public (refreshStats a pls) = pls_Public pls"
  by (simp_all add: refreshStats_def)

lemma AddMediaFilesByID_simps [simp]:
  "pls_ID (AddMediaFilesByID a ids pls) = pls_ID pls" "pls_OwnerID (AddMediaFilesByID a ids pls) = pls_OwnerID pls"
  "pls_Rules (AddMediaFilesByID a ids pls) = pls_Rules pls" "pls_Name (AddMediaFilesByID a ids pls) = pls_Name pls"
  by (simp_all add: AddMediaFilesByID_def)

lemma AddMediaFilesByID_media: "map mf_ID (pls_MediaFiles (AddMediaFilesByID a ids (pls\<lparr>pls_Tracks := []\<rparr>))) = ids"
  by (simp add: AddMediaFilesByID_def pls_MediaFiles_def track_MediaFiles_def o_def)

lemma IsSmartPlaylist_cong: "pls_Rules p = pls_Rules q \<Longrightarrow> IsSmartPlaylist p = IsSmartPlaylist q"
  by (simp add: IsSmartPlaylist_def)

end
