(* ===== verification/Playlist_Store.thy ===== *)
theory Playlist_Store
  imports Model_Playlist Criteria_Sql Playlist_Tracks
begin

text \<open>
  The playlist repository (\<open>persistence/playlist_repository.go\<close>, \<open>playlist_track_repository.go\<close>,
  \<open>smart_playlist_repository.go\<close> and \<open>put\<close>, \<open>delete\<close>, \<open>applyLibraryFilter\<close> of \<open>sql_base_repository.go\<close>), run
  statement by statement on the tables it reads and writes. Any statement may fail: \<open>st_fails\<close> says which,
  by their number, and a failed one changes nothing. A foreign key and the primary key fail the statement
  that violates them. The arguments in \<open>playlist_env\<close> stand for the clock, the random ids, the engine's
  selection for a smart playlist, its conversions, and the JSON and SQL libraries of the rules.
\<close>

section \<open>Tables, arguments and statements\<close>

record media_row = MediaFile +
  mr_Missing :: bool
  mr_ReleaseDate :: string

record playlist_row =
  row_playlist :: Playlist \<comment> \<open>the columns but \<open>rules\<close>\<close>
  row_rules :: "val option" \<comment> \<open>the JSON document of \<open>rules\<close>; \<open>None\<close> for \<open>NULL\<close> or the empty text\<close>

record playlist_db =
  db_rows :: "playlist_row list"
  db_tracks :: "track_row list"
  db_media :: "media_row list"
  db_users :: "string list"
  db_libraries :: "go_int list"
  db_user_library :: "(string \<times> go_int) list"
  db_covers :: "string list" \<comment> \<open>playlists queued for a new cover\<close>
  db_clock :: nat \<comment> \<open>statements run so far\<close>

datatype store_error = ErrNotFound | ErrNotAuthorized | ErrPartialUpdate | ErrInvalidCriteria | ErrDb | ErrNilRepository
  | ErrImage | ErrFile | ErrParse | ErrNotInLibrary | RestNotFound | RestPermissionDenied | StackOverflow

record smart_query =
  sm_user :: string
  sm_library :: bool \<comment> \<open>restricted to the user's libraries\<close>
  sm_joins :: smartPlaylistJoinType
  sm_where :: sqlizer
  sm_order :: string

record playlist_env =
  st_fails :: "nat \<Rightarrow> bool"
  st_now :: "nat \<Rightarrow> time_ns"
  st_newId :: "nat \<Rightarrow> string"
  st_select :: "smart_query \<Rightarrow> playlist_db \<Rightarrow> (int \<times> string) list" \<comment> \<open>\<open>row_number()\<close> and media file, in the order of the result\<close>
  st_orderMedia :: "media_row list \<Rightarrow> media_row list" \<comment> \<open>\<open>ORDER BY album_artist, album, \<dots>\<close>\<close>
  st_position :: "string \<Rightarrow> int option" \<comment> \<open>a bound text compared with an integer column\<close>
  st_sumDuration :: "float32 list \<Rightarrow> float32"
  st_add32 :: "float32 \<Rightarrow> float32 \<Rightarrow> float32"
  st_refreshDelay :: time_ns
  st_depth :: nat \<comment> \<open>nested refreshes that fit the goroutine's stack\<close>
  st_fields :: field_map
  st_members :: member_order
  st_floats :: DurationFloats
  st_raw :: raw_encoder
  st_format :: "val \<Rightarrow> string"
  st_parseFloat :: "string \<Rightarrow> rat option"
  st_date :: "time_ns \<Rightarrow> string"

type_synonym 'a db_op = "playlist_db \<Rightarrow> (store_error + 'a) \<times> playlist_db"

definition return_op :: "'a \<Rightarrow> 'a db_op" where
  "return_op a db = (Inr a, db)"

definition throw_op :: "store_error \<Rightarrow> 'a db_op" where
  "throw_op e db = (Inl e, db)"

definition bind_op :: "'a db_op \<Rightarrow> ('a \<Rightarrow> 'b db_op) \<Rightarrow> 'b db_op" where
  "bind_op m k db = (case m db of (Inl e, db') \<Rightarrow> (Inl e, db') | (Inr a, db') \<Rightarrow> k a db')"

definition try_op :: "'a db_op \<Rightarrow> (store_error + 'a) db_op" where \<comment> \<open>the caller looks at the error\<close>
  "try_op m db = (case m db of (r, db') \<Rightarrow> (if r = Inl StackOverflow then Inl StackOverflow else Inr r, db'))"

definition lift_op :: "store_error + 'a \<Rightarrow> 'a db_op" where
  "lift_op r db = (r, db)"

definition statement :: "playlist_env \<Rightarrow> (playlist_db \<Rightarrow> store_error + 'a \<times> playlist_db) \<Rightarrow> 'a db_op" where
  "statement env f db =
     (let db1 = db\<lparr>db_clock := Suc (db_clock db)\<rparr>
      in if st_fails env (db_clock db) then (Inl ErrDb, db1)
         else case f db1 of Inl e \<Rightarrow> (Inl e, db1) | Inr (a, db2) \<Rightarrow> (Inr a, db2))"

definition select :: "playlist_env \<Rightarrow> (playlist_db \<Rightarrow> 'a) \<Rightarrow> 'a db_op" where
  "select env f = statement env (\<lambda>db. Inr (f db, db))"

definition track_statement :: "playlist_env \<Rightarrow> (track_row list \<Rightarrow> sql_error + track_row list) \<Rightarrow> unit db_op" where
  "track_statement env f =
     statement env (\<lambda>db. case f (db_tracks db) of Inl _ \<Rightarrow> Inl ErrDb | Inr rows \<Rightarrow> Inr ((), db\<lparr>db_tracks := rows\<rparr>))"

text \<open>\<open>WithTx\<close>: the block's writes are kept only if it succeeds and the commit does.\<close>

definition rolled_back :: "playlist_db \<Rightarrow> playlist_db \<Rightarrow> playlist_db" where
  "rolled_back db db' = db\<lparr>db_clock := db_clock db'\<rparr>"

definition WithTx :: "playlist_env \<Rightarrow> 'a db_op \<Rightarrow> 'a db_op" where
  "WithTx env block db =
     (case bind_op (select env (\<lambda>_. ())) (\<lambda>_. bind_op block (\<lambda>a. bind_op (select env (\<lambda>_. ())) (\<lambda>_. return_op a))) db of
        (Inl e, db') \<Rightarrow> (Inl e, rolled_back db db')
      | (Inr a, db') \<Rightarrow> (Inr a, db'))"

section \<open>Users\<close>

definition invalidUserId :: string where "invalidUserId = ''-1''"

definition zero_User :: User where
  "zero_User = \<lparr>u_ID = [], u_UserName = [], u_Name = [], u_Email = [], u_IsAdmin = False, u_Libraries = [],
     u_Password = [], u_NewPassword = []\<rparr>"

type_synonym user_ctx = "User option" \<comment> \<open>\<open>request.UserFrom\<close>\<close>

definition UserFrom :: "user_ctx \<Rightarrow> User" where
  "UserFrom ctx = (case ctx of None \<Rightarrow> zero_User | Some u \<Rightarrow> u)"

definition loggedUser :: "user_ctx \<Rightarrow> User" where
  "loggedUser ctx = (case ctx of None \<Rightarrow> zero_User\<lparr>u_ID := invalidUserId\<rparr> | Some u \<Rightarrow> u)"

definition pls_userFilter :: "user_ctx \<Rightarrow> Playlist \<Rightarrow> bool" where
  "pls_userFilter ctx pls \<longleftrightarrow> (let user = loggedUser ctx in u_IsAdmin user \<or> pls_Public pls \<or> pls_OwnerID pls = u_ID user)"

definition userSeesAllLibraries :: "playlist_env \<Rightarrow> user_ctx \<Rightarrow> bool db_op" where
  "userSeesAllLibraries env ctx =
     (let user = loggedUser ctx
      in if u_IsAdmin user \<or> u_ID user = invalidUserId then return_op True
         else bind_op (try_op (select env (\<lambda>db. length (db_libraries db)))) (\<lambda>r.
           return_op (case r of Inl _ \<Rightarrow> False | Inr n \<Rightarrow> n \<noteq> 0 \<and> length (u_Libraries user) = n)))"

text \<open>\<open>applyLibraryFilter\<close>: whether the query is restricted, and the restriction.\<close>

definition applyLibraryFilter :: "playlist_env \<Rightarrow> user_ctx \<Rightarrow> bool db_op" where
  "applyLibraryFilter env ctx =
     (let user = loggedUser ctx
      in if u_IsAdmin user \<or> u_ID user = invalidUserId then return_op False
         else bind_op (userSeesAllLibraries env ctx) (\<lambda>allOfThem. return_op (\<not> allOfThem)))"

definition library_granted :: "user_ctx \<Rightarrow> playlist_db \<Rightarrow> go_int \<Rightarrow> bool" where
  "library_granted ctx db lib \<longleftrightarrow> (u_ID (loggedUser ctx), lib) \<in> set (db_user_library db)"

section \<open>Rows\<close>

definition scan_rules :: "playlist_env \<Rightarrow> val option \<Rightarrow> store_error + Criteria option" where
  "scan_rules env doc =
     (case doc of
        None \<Rightarrow> Inr None
      | Some VNull \<Rightarrow> Inr None
      | Some d \<Rightarrow> (case UnmarshalJSON (st_fields env) (st_members env) (st_floats env) d of
          Inl _ \<Rightarrow> Inl ErrDb | Inr c \<Rightarrow> Inr (Some c)))"

definition PostScan :: "playlist_env \<Rightarrow> playlist_row \<Rightarrow> store_error + Playlist" where
  "PostScan env r = bind_result (scan_rules env (row_rules r)) (\<lambda>rules. Inr ((row_playlist r)\<lparr>pls_Rules := rules\<rparr>))"

definition PostMapArgs :: "playlist_env \<Rightarrow> Playlist \<Rightarrow> store_error + val option" where \<comment> \<open>\<open>None\<close>: the column is not written\<close>
  "PostMapArgs env pls =
     (case pls_Rules pls of
        Some c \<Rightarrow> if IsSmartPlaylist pls then
            (case MarshalJSON (st_raw env) c of Inl _ \<Rightarrow> Inl ErrInvalidCriteria | Inr doc \<Rightarrow> Inr (Some doc))
          else Inr None
      | None \<Rightarrow> Inr None)"

definition row_id :: "playlist_row \<Rightarrow> string" where "row_id r = pls_ID (row_playlist r)"
definition row_owner :: "playlist_row \<Rightarrow> string" where "row_owner r = pls_OwnerID (row_playlist r)"

definition selectPlaylist :: "playlist_env \<Rightarrow> (Playlist \<Rightarrow> bool) \<Rightarrow> Playlist list db_op" where
  "selectPlaylist env cond =
     bind_op (select env (\<lambda>db. filter (\<lambda>r. row_owner r \<in> set (db_users db) \<and> cond (row_playlist r)) (db_rows db)))
       (\<lambda>rows. lift_op (collect (map (PostScan env) rows)))"

definition findBy :: "playlist_env \<Rightarrow> (Playlist \<Rightarrow> bool) \<Rightarrow> Playlist db_op" where
  "findBy env cond =
     bind_op (selectPlaylist env cond) (\<lambda>ps. case ps of [] \<Rightarrow> throw_op ErrNotFound | p # _ \<Rightarrow> return_op p)"

definition repo_Get :: "playlist_env \<Rightarrow> user_ctx \<Rightarrow> string \<Rightarrow> Playlist db_op" where
  "repo_Get env ctx i = findBy env (\<lambda>p. pls_ID p = i \<and> pls_userFilter ctx p)"

definition FindByPath :: "playlist_env \<Rightarrow> string \<Rightarrow> Playlist db_op" where
  "FindByPath env path = findBy env (\<lambda>p. pls_Path p = path)"

definition repo_GetAll :: "playlist_env \<Rightarrow> user_ctx \<Rightarrow> (Playlist \<Rightarrow> bool) \<Rightarrow> Playlist list db_op" where
  "repo_GetAll env ctx cond = selectPlaylist env (\<lambda>p. cond p \<and> pls_userFilter ctx p)"

definition GetPlaylists :: "playlist_env \<Rightarrow> user_ctx \<Rightarrow> string \<Rightarrow> Playlist list db_op" where
  "GetPlaylists env ctx mediaFileId =
     bind_op (select env (\<lambda>db. concat (map (\<lambda>r. map (\<lambda>_. r) (filter (\<lambda>t. tr_playlist t = row_id r \<and> tr_media t = mediaFileId) (db_tracks db)))
          (filter (\<lambda>r. row_owner r \<in> set (db_users db) \<and> pls_userFilter ctx (row_playlist r)) (db_rows db)))))
       (\<lambda>rows. lift_op (collect (map (PostScan env) rows)))"

definition repo_Exists :: "playlist_env \<Rightarrow> user_ctx \<Rightarrow> string \<Rightarrow> bool db_op" where
  "repo_Exists env ctx i = select env (\<lambda>db. list_ex (\<lambda>r. row_id r = i \<and> pls_userFilter ctx (row_playlist r)) (db_rows db))"

text \<open>
  \<open>put\<close>: an update of the row with the id - all columns, or those listed, never \<open>created_at\<close> - or, where
  there is none, an insert, under a new random id if the id is empty.
\<close>

definition write_columns :: "(string \<Rightarrow> bool) \<Rightarrow> Playlist \<Rightarrow> val option \<Rightarrow> playlist_row \<Rightarrow> playlist_row" where
  "write_columns w p rules r =
     (let o' = row_playlist r
      in \<lparr>row_playlist = o'\<lparr>
            pls_Name := (if w ''name'' then pls_Name p else pls_Name o'),
            pls_Comment := (if w ''comment'' then pls_Comment p else pls_Comment o'),
            pls_Duration := (if w ''duration'' then pls_Duration p else pls_Duration o'),
            pls_Size := (if w ''size'' then pls_Size p else pls_Size o'),
            pls_SongCount := (if w ''song_count'' then pls_SongCount p else pls_SongCount o'),
            pls_OwnerID := (if w ''owner_id'' then pls_OwnerID p else pls_OwnerID o'),
            pls_Public := (if w ''public'' then pls_Public p else pls_Public o'),
            pls_Path := (if w ''path'' then pls_Path p else pls_Path o'),
            pls_Sync := (if w ''sync'' then pls_Sync p else pls_Sync o'),
            pls_UploadedImage := (if w ''uploaded_image'' then pls_UploadedImage p else pls_UploadedImage o'),
            pls_ExternalImageURL := (if w ''external_image_url'' then pls_ExternalImageURL p else pls_ExternalImageURL o'),
            pls_UpdatedAt := (if w ''updated_at'' then pls_UpdatedAt p else pls_UpdatedAt o'),
            pls_EvaluatedAt := (if w ''evaluated_at'' then pls_EvaluatedAt p else pls_EvaluatedAt o')\<rparr>,
          row_rules = (if rules \<noteq> None \<and> w ''rules'' then rules else row_rules r)\<rparr>)"

definition update_rows :: "string \<Rightarrow> (playlist_row \<Rightarrow> playlist_row) \<Rightarrow> playlist_db \<Rightarrow> playlist_db" where
  "update_rows i f db = db\<lparr>db_rows := map (\<lambda>r. if row_id r = i then f r else r) (db_rows db)\<rparr>"

definition filterUpdateValues :: "string list \<Rightarrow> string \<Rightarrow> bool" where
  "filterUpdateValues cols c \<longleftrightarrow> cols = [] \<or> c \<in> set cols"

definition owner_known :: "playlist_db \<Rightarrow> bool" where \<comment> \<open>the foreign key of \<open>owner_id\<close>\<close>
  "owner_known db \<longleftrightarrow> list_all (\<lambda>r. row_owner r \<in> set (db_users db)) (db_rows db)"

definition repo_put :: "playlist_env \<Rightarrow> string \<Rightarrow> Playlist \<Rightarrow> string list \<Rightarrow> string db_op" where
  "repo_put env i p cols =
     bind_op (lift_op (PostMapArgs env p)) (\<lambda>rules.
     bind_op
       (if i = [] then return_op False
        else statement env (\<lambda>db.
          if list_ex (\<lambda>r. row_id r = i) (db_rows db) then
            (if filterUpdateValues cols ''owner_id'' \<and> pls_OwnerID p \<notin> set (db_users db) then Inl ErrDb
             else Inr (True, update_rows i (write_columns (filterUpdateValues cols) p rules) db))
          else Inr (False, db)))
       (\<lambda>updated.
     if updated then return_op i
     else statement env (\<lambda>db.
       let i' = (if i = [] then st_newId env (db_clock db) else i)
       in if list_ex (\<lambda>r. row_id r = i') (db_rows db) \<or> pls_OwnerID p \<notin> set (db_users db) then Inl ErrDb
          else Inr (i', db\<lparr>db_rows := db_rows db @ [\<lparr>row_playlist = p\<lparr>pls_ID := i', pls_Tracks := [], pls_Rules := None\<rparr>, row_rules = rules\<rparr>]\<rparr>))))"

section \<open>Counters and covers\<close>

text \<open>The nearest \<open>float32\<close> to an integer: 24 bits, ties to even.\<close>

fun excess_bits :: "nat \<Rightarrow> nat" where
  "excess_bits n = (if n < 2 ^ 24 then 0 else Suc (excess_bits (n div 2)))"

declare excess_bits.simps [simp del]

definition f32_of_int :: "int \<Rightarrow> int" where
  "f32_of_int i =
     (let n = nat \<bar>i\<bar>; e = excess_bits n; q = n div 2 ^ e; r = n mod 2 ^ e;
          q' = (if 2 * r > 2 ^ e \<or> 2 * r = 2 ^ e \<and> odd q then q + 1 else q)
      in sgn i * int (q' * 2 ^ e))"

definition listed_media :: "string \<Rightarrow> playlist_db \<Rightarrow> media_row list" where
  "listed_media p db =
     concat (map (\<lambda>t. filter (\<lambda>m. mf_ID m = tr_media t) (db_media db)) (filter (\<lambda>t. tr_playlist t = p) (db_tracks db)))"

definition refreshCounters :: "playlist_env \<Rightarrow> Playlist \<Rightarrow> Playlist db_op" where
  "refreshCounters env pls =
     bind_op (select env (\<lambda>db. let ms = listed_media (pls_ID pls) db
         in (st_sumDuration env (map mf_Duration ms), f32_of_int (sum_list (map mf_Size ms)), f32_of_int (int (length ms)))))
       (\<lambda>(duration, size', songs).
     bind_op (statement env (\<lambda>db. Inr ((), update_rows (pls_ID pls) (\<lambda>r. r\<lparr>row_playlist := (row_playlist r)\<lparr>
          pls_Duration := duration, pls_Size := size', pls_SongCount := songs, pls_UpdatedAt := st_now env (db_clock db)\<rparr>\<rparr>) db)))
       (\<lambda>_. return_op (pls\<lparr>pls_SongCount := songs, pls_Duration := duration, pls_Size := size'\<rparr>)))"

definition enqueueCoverRebuild :: "playlist_env \<Rightarrow> string \<Rightarrow> unit db_op" where
  "enqueueCoverRebuild env i =
     bind_op (try_op (statement env (\<lambda>db. Inr ((), db\<lparr>db_covers := db_covers db @ [i]\<rparr>)))) (\<lambda>_. return_op ())"

section \<open>Tracks\<close>

definition insert_tracks :: "string \<Rightarrow> track_row list \<Rightarrow> playlist_db \<Rightarrow> store_error + unit \<times> playlist_db" where
  "insert_tracks p new db =
     (if new \<noteq> [] \<and> \<not> list_ex (\<lambda>r. row_id r = p) (db_rows db) then Inl ErrDb
      else case sql_insert new (db_tracks db) of Inl _ \<Rightarrow> Inl ErrDb | Inr rows \<Rightarrow> Inr ((), db\<lparr>db_tracks := rows\<rparr>))"

fun add_chunks :: "playlist_env \<Rightarrow> string \<Rightarrow> int \<Rightarrow> string list list \<Rightarrow> unit db_op" where
  "add_chunks env p pos [] = return_op ()"
| "add_chunks env p pos (c # cs) =
     bind_op (statement env (insert_tracks p (number_from p pos c))) (\<lambda>_. add_chunks env p (pos + int (length c)) cs)"

definition repo_addTracks :: "playlist_env \<Rightarrow> string \<Rightarrow> int \<Rightarrow> string list \<Rightarrow> unit db_op" where
  "repo_addTracks env p startingPos mediaFileIds =
     bind_op (add_chunks env p startingPos (chunk 200 mediaFileIds)) (\<lambda>_.
     bind_op (enqueueCoverRebuild env p) (\<lambda>_.
     bind_op (refreshCounters env (zero_Playlist\<lparr>pls_ID := p\<rparr>)) (\<lambda>_. return_op ())))"

definition repo_updatePlaylist :: "playlist_env \<Rightarrow> string \<Rightarrow> string list \<Rightarrow> unit db_op" where
  "repo_updatePlaylist env p mediaFileIds =
     bind_op (track_statement env (\<lambda>rows. Inr (sql_delete (\<lambda>t. tr_playlist t = p) rows))) (\<lambda>_.
     repo_addTracks env p 1 mediaFileIds)"

definition updateTracks :: "playlist_env \<Rightarrow> string \<Rightarrow> MediaFiles \<Rightarrow> unit db_op" where
  "updateTracks env i tracks = repo_updatePlaylist env i (map mf_ID tracks)"

definition repo_renumber :: "playlist_env \<Rightarrow> string \<Rightarrow> unit db_op" where
  "repo_renumber env p =
     bind_op (track_statement env (sql_update (\<lambda>r. tr_playlist r = p \<and> tr_id r > 0) (\<lambda>r. - tr_id r) [])) (\<lambda>_.
     bind_op (track_statement env (\<lambda>rows. sql_update (\<lambda>r. tr_playlist r = p) (row_number p rows) [] rows)) (\<lambda>_.
     bind_op (enqueueCoverRebuild env p) (\<lambda>_.
     bind_op (refreshCounters env (zero_Playlist\<lparr>pls_ID := p\<rparr>)) (\<lambda>_. return_op ()))))"

text \<open>\<open>Put\<close> returns the playlist's id; the playlist given keeps its other fields.\<close>

definition Put :: "playlist_env \<Rightarrow> Playlist \<Rightarrow> string list \<Rightarrow> string db_op" where
  "Put env p cols =
     (if cols \<noteq> [] then
        (if pls_ID p = [] then throw_op ErrPartialUpdate
         else bind_op (repo_put env (pls_ID p) p cols) (\<lambda>_. return_op (pls_ID p)))
      else (\<lambda>db.
        (let isNew = (pls_ID p = []); now = st_now env (db_clock db);
             q = (if isNew then p\<lparr>pls_CreatedAt := now, pls_UpdatedAt := now\<rparr> else p\<lparr>pls_UpdatedAt := now\<rparr>)
         in bind_op (repo_put env (pls_ID q) q []) (\<lambda>i.
              if IsSmartPlaylist p then return_op i
              else if pls_Tracks q \<noteq> [] then bind_op (updateTracks env i (pls_MediaFiles p)) (\<lambda>_. return_op i)
              else bind_op (if isNew then enqueueCoverRebuild env i else return_op ()) (\<lambda>_.
                   bind_op (refreshCounters env (q\<lparr>pls_ID := i\<rparr>)) (\<lambda>_. return_op i))) db)))"

definition repo_Delete :: "playlist_env \<Rightarrow> user_ctx \<Rightarrow> string \<Rightarrow> unit db_op" where \<comment> \<open>the tracks go with the playlist: \<open>on delete cascade\<close>\<close>
  "repo_Delete env ctx i =
     statement env (\<lambda>db.
       let gone = (\<lambda>r. row_id r = i \<and> pls_userFilter ctx (row_playlist r))
       in Inr ((), db\<lparr>db_rows := filter (\<lambda>r. \<not> gone r) (db_rows db),
            db_tracks := (if list_ex gone (db_rows db) then sql_delete (\<lambda>t. tr_playlist t = i) (db_tracks db) else db_tracks db)\<rparr>))"


section \<open>The track repository\<close>

definition trk_Add :: "playlist_env \<Rightarrow> string \<Rightarrow> string list \<Rightarrow> int db_op" where
  "trk_Add env p mediaFileIds =
     (if mediaFileIds = [] then return_op 0
      else
        bind_op (statement env (\<lambda>db. let m = max_id p (db_tracks db) in if int32_of m = m then Inr (m, db) else Inl ErrDb)) (\<lambda>m.
        bind_op (repo_addTracks env p (int32_of (m + 1)) mediaFileIds) (\<lambda>_. return_op (int (length mediaFileIds)))))"

definition addMediaFileIds :: "playlist_env \<Rightarrow> string \<Rightarrow> (media_row \<Rightarrow> bool) \<Rightarrow> int db_op" where
  "addMediaFileIds env p cond =
     bind_op (select env (\<lambda>db. map mf_ID (st_orderMedia env (filter cond (db_media db))))) (trk_Add env p)"

record DiscID =
  di_AlbumID :: string
  di_ReleaseDate :: string
  di_DiscNumber :: go_int

definition trk_AddAlbums :: "playlist_env \<Rightarrow> string \<Rightarrow> string list \<Rightarrow> int db_op" where
  "trk_AddAlbums env p albumIds = addMediaFileIds env p (\<lambda>m. mf_AlbumID m \<in> set albumIds)"

definition trk_AddArtists :: "playlist_env \<Rightarrow> string \<Rightarrow> string list \<Rightarrow> int db_op" where
  "trk_AddArtists env p artistIds = addMediaFileIds env p (\<lambda>m. mf_AlbumArtistID m \<in> set artistIds)"

definition trk_AddDiscs :: "playlist_env \<Rightarrow> string \<Rightarrow> DiscID list \<Rightarrow> int db_op" where
  "trk_AddDiscs env p discs =
     (if discs = [] then return_op 0
      else addMediaFileIds env p (\<lambda>m. list_ex (\<lambda>d. mf_AlbumID m = di_AlbumID d \<and> mr_ReleaseDate m = di_ReleaseDate d \<and>
             mf_DiscNumber m = di_DiscNumber d) discs))"

definition trk_Delete :: "playlist_env \<Rightarrow> string \<Rightarrow> string list \<Rightarrow> unit db_op" where
  "trk_Delete env p ids =
     bind_op (track_statement env (\<lambda>rows. Inr (sql_delete (\<lambda>t. tr_playlist t = p \<and> Some (tr_id t) \<in> st_position env ` set ids) rows)))
       (\<lambda>_. repo_renumber env p)"

definition trk_DeleteAll :: "playlist_env \<Rightarrow> string \<Rightarrow> unit db_op" where
  "trk_DeleteAll env p =
     bind_op (track_statement env (\<lambda>rows. Inr (sql_delete (\<lambda>t. tr_playlist t = p) rows))) (\<lambda>_. repo_renumber env p)"

definition trk_Reorder :: "playlist_env \<Rightarrow> string \<Rightarrow> int \<Rightarrow> int \<Rightarrow> unit db_op" where
  "trk_Reorder env p pos newPos =
     (if pos = newPos then return_op ()
      else
        bind_op (track_statement env (sql_update (\<lambda>r. tr_playlist r = p \<and> tr_id r = pos) (\<lambda>_. sentinel) [])) (\<lambda>_.
        bind_op (track_statement env
          (if pos < newPos
           then sql_update (\<lambda>r. tr_playlist r = p \<and> tr_id r > pos \<and> tr_id r \<le> newPos) (\<lambda>r. - (tr_id r - 1)) []
           else sql_update (\<lambda>r. tr_playlist r = p \<and> tr_id r \<ge> newPos \<and> tr_id r < pos) (\<lambda>r. - (tr_id r + 1)) [])) (\<lambda>_.
        bind_op (track_statement env
          (sql_update (\<lambda>r. tr_playlist r = p \<and> tr_id r < 0 \<and> tr_id r \<noteq> sentinel) (\<lambda>r. - tr_id r) [])) (\<lambda>_.
        track_statement env (sql_update (\<lambda>r. tr_playlist r = p \<and> tr_id r = sentinel) (\<lambda>_. newPos) [])))))"

section \<open>Smart playlists\<close>

definition criteria_env :: "playlist_env \<Rightarrow> User \<Rightarrow> time_ns \<Rightarrow> SqlEnv" where \<comment> \<open>\<open>newSmartPlaylistCriteria\<close> with the owner\<close>
  "criteria_env env usr now =
     \<lparr>se_fields = st_fields env, se_owner = usr, se_format = st_format env, se_parseFloat = st_parseFloat env,
      se_now = now, se_date = st_date env\<rparr>"

definition shouldRefreshSmartPlaylist :: "playlist_env \<Rightarrow> time_ns \<Rightarrow> Playlist \<Rightarrow> User \<Rightarrow> bool" where
  "shouldRefreshSmartPlaylist env now pls usr \<longleftrightarrow>
     IsSmartPlaylist pls \<and>
     (case pls_EvaluatedAt pls of None \<Rightarrow> True | Some evaluated \<Rightarrow> \<not> now - evaluated < RefreshDelay (st_refreshDelay env) pls) \<and>
     pls_OwnerID pls = u_ID usr"

definition matching_query :: "playlist_env \<Rightarrow> user_ctx \<Rightarrow> User \<Rightarrow> time_ns \<Rightarrow> smartPlaylistJoinType \<Rightarrow> Criteria \<Rightarrow> smart_query db_op" where
  "matching_query env ctx usr now joins c =
     bind_op (applyLibraryFilter env ctx) (\<lambda>restricted.
       case criteria_Where (criteria_env env usr now) c of
         Inl _ \<Rightarrow> throw_op ErrInvalidCriteria
       | Inr cond \<Rightarrow> return_op \<lparr>sm_user = u_ID usr, sm_library = restricted, sm_joins = joins, sm_where = cond, sm_order = []\<rparr>)"

definition resolvePercentageLimit :: "playlist_env \<Rightarrow> user_ctx \<Rightarrow> User \<Rightarrow> time_ns \<Rightarrow> Criteria \<Rightarrow> Criteria db_op" where
  "resolvePercentageLimit env ctx usr now c =
     (if \<not> IsPercentageLimit c then return_op c
      else
        bind_op (matching_query env ctx usr now (ExpressionJoins (criteria_env env usr now) c) c) (\<lambda>q.
        bind_op (select env (\<lambda>db. int (length (st_select env q db)))) (\<lambda>n. return_op (ResolveLimit c n))))"

text \<open>
  The rows the query of \<open>buildSmartPlaylistQuery\<close> and \<open>addCriteria\<close> gives to the insert. A negative
  offset is out of the engine's range: the statement fails.
\<close>

definition limited :: "Criteria \<Rightarrow> 'a list \<Rightarrow> store_error + 'a list" where
  "limited c xs =
     (if cr_Limit c > 0 then (if cr_Offset c < 0 then Inl ErrDb else Inr (take (nat (cr_Limit c)) (drop (nat (cr_Offset c)) xs)))
      else Inr xs)"

definition insert_selected :: "playlist_env \<Rightarrow> string \<Rightarrow> Criteria \<Rightarrow> smart_query \<Rightarrow> unit db_op" where
  "insert_selected env p c q =
     statement env (\<lambda>db.
       bind_result (limited c (st_select env q db)) (\<lambda>sel.
         insert_tracks p (map (\<lambda>(i, m). \<lparr>tr_playlist = p, tr_id = i, tr_media = m\<rparr>) sel) db))"

definition set_evaluated :: "playlist_env \<Rightarrow> string \<Rightarrow> time_ns db_op" where
  "set_evaluated env p =
     statement env (\<lambda>db. let now = st_now env (db_clock db)
       in Inr (now, update_rows p (\<lambda>r. r\<lparr>row_playlist := (row_playlist r)\<lparr>pls_EvaluatedAt := Some now\<rparr>\<rparr>) db))"

definition fill_playlist :: "playlist_env \<Rightarrow> user_ctx \<Rightarrow> Playlist \<Rightarrow> Criteria \<Rightarrow> Playlist db_op" where
  "fill_playlist env ctx pls c = (\<lambda>db.
     (let usr = loggedUser ctx; now = st_now env (db_clock db); cenv = criteria_env env usr now
      in bind_op (resolvePercentageLimit env ctx usr now c) (\<lambda>c'.
         bind_op (matching_query env ctx usr now (RequiredJoins cenv c') c') (\<lambda>q.
         bind_op (insert_selected env (pls_ID pls) c' (q\<lparr>sm_order := OrderBy cenv c'\<rparr>)) (\<lambda>_.
         bind_op (refreshCounters env pls) (\<lambda>pls1.
         bind_op (set_evaluated env (pls_ID pls)) (\<lambda>evaluated.
         return_op (pls1\<lparr>pls_EvaluatedAt := Some evaluated\<rparr>)))))) db))"

text \<open>
  \<open>refreshSmartPlaylist\<close> and \<open>refreshChildPlaylists\<close> call each other on the playlists that the rules refer to;
  the first argument counts the nested calls that still fit the stack. The result says whether the refresh
  went through, with the playlist as it left it.
\<close>

fun refresh_each :: "(Playlist \<Rightarrow> 'a db_op) \<Rightarrow> Playlist list \<Rightarrow> unit db_op" where
  "refresh_each refresh [] = return_op ()"
| "refresh_each refresh (p # ps) = bind_op (refresh p) (\<lambda>_. refresh_each refresh ps)"

definition refreshChildPlaylists :: "(Playlist \<Rightarrow> 'a db_op) \<Rightarrow> playlist_env \<Rightarrow> user_ctx \<Rightarrow> Criteria \<Rightarrow> unit db_op" where
  "refreshChildPlaylists refresh env ctx c =
     (if ChildPlaylistIds c = [] then return_op ()
      else bind_op (repo_GetAll env ctx (\<lambda>p. pls_ID p \<in> set (ChildPlaylistIds c))) (refresh_each refresh))"

fun refreshSmartPlaylist :: "nat \<Rightarrow> playlist_env \<Rightarrow> user_ctx \<Rightarrow> Playlist \<Rightarrow> (bool \<times> Playlist) db_op" where
  "refreshSmartPlaylist 0 env ctx pls = throw_op StackOverflow"
| "refreshSmartPlaylist (Suc n) env ctx pls = (\<lambda>db.
     case pls_Rules pls of
       None \<Rightarrow> (Inr (False, pls), db)
     | Some c \<Rightarrow>
         if \<not> shouldRefreshSmartPlaylist env (st_now env (db_clock db)) pls (loggedUser ctx) then (Inr (False, pls), db)
         else
           bind_op (try_op
             (bind_op (track_statement env (\<lambda>rows. Inr (sql_delete (\<lambda>t. tr_playlist t = pls_ID pls) rows))) (\<lambda>_.
              bind_op (refreshChildPlaylists (refreshSmartPlaylist n env ctx) env ctx c) (\<lambda>_.
              fill_playlist env ctx pls c))))
           (\<lambda>r. return_op (case r of Inl _ \<Rightarrow> (False, pls) | Inr pls' \<Rightarrow> (True, pls'))) db)"

definition refresh_smart :: "playlist_env \<Rightarrow> user_ctx \<Rightarrow> Playlist \<Rightarrow> (bool \<times> Playlist) db_op" where
  "refresh_smart env = refreshSmartPlaylist (st_depth env) env"

section \<open>Reading tracks\<close>

text \<open>\<open>Tracks\<close>: \<open>None\<close> is the nil repository.\<close>

definition repo_Tracks :: "playlist_env \<Rightarrow> user_ctx \<Rightarrow> string \<Rightarrow> bool \<Rightarrow> string option db_op" where
  "repo_Tracks env ctx p refresh =
     bind_op (try_op (repo_Get env ctx p)) (\<lambda>r.
       case r of Inl _ \<Rightarrow> return_op None
       | Inr pls \<Rightarrow> bind_op (if refresh then refresh_smart env ctx pls else return_op (False, pls)) (\<lambda>_. return_op (Some p)))"

definition with_tracks :: "playlist_env \<Rightarrow> user_ctx \<Rightarrow> string \<Rightarrow> (string \<Rightarrow> 'a db_op) \<Rightarrow> 'a db_op" where \<comment> \<open>a call on a nil repository panics\<close>
  "with_tracks env ctx p f =
     bind_op (repo_Tracks env ctx p False) (\<lambda>t. case t of None \<Rightarrow> throw_op ErrNilRepository | Some q \<Rightarrow> f q)"

definition loadTracks :: "playlist_env \<Rightarrow> user_ctx \<Rightarrow> string \<Rightarrow> PlaylistTracks db_op" where \<comment> \<open>with the condition of \<open>GetWithTracks\<close>\<close>
  "loadTracks env ctx p =
     bind_op (applyLibraryFilter env ctx) (\<lambda>restricted.
     select env (\<lambda>db.
       concat (map (\<lambda>t. map (\<lambda>m. \<lparr>ptk_ID = Itoa (tr_id t), ptk_MediaFileID = tr_media t, ptk_PlaylistID = p, ptk_MediaFile = MediaFile.truncate m\<rparr>)
           (filter (\<lambda>m. mf_ID m = tr_media t \<and> \<not> mr_Missing m \<and> mf_LibraryID m \<in> set (db_libraries db) \<and>
                (restricted \<longrightarrow> library_granted ctx db (mf_LibraryID m))) (db_media db)))
         (sort_key tr_id (filter (\<lambda>t. tr_playlist t = p) (db_tracks db))))))"

definition repo_GetWithTracks :: "playlist_env \<Rightarrow> user_ctx \<Rightarrow> string \<Rightarrow> bool \<Rightarrow> Playlist db_op" where
  "repo_GetWithTracks env ctx i refresh =
     bind_op (repo_Get env ctx i) (\<lambda>pls.
     bind_op (if refresh then refresh_smart env ctx pls else return_op (False, pls)) (\<lambda>(_, pls1).
     bind_op (loadTracks env ctx i) (\<lambda>tracks. return_op (SetTracks (st_add32 env) tracks pls1))))"

section \<open>Orphans\<close>

definition orphan :: "playlist_db \<Rightarrow> track_row \<Rightarrow> bool" where
  "orphan db t \<longleftrightarrow> tr_media t \<notin> mf_ID ` set (db_media db)"

fun remove_each :: "playlist_env \<Rightarrow> string list \<Rightarrow> unit db_op" where
  "remove_each env [] = return_op ()"
| "remove_each env (p # ps) =
     bind_op (statement env (\<lambda>db.
         let gone = (\<lambda>t. tr_playlist t = p \<and> orphan db t)
         in Inr (count_if gone (db_tracks db), db\<lparr>db_tracks := sql_delete gone (db_tracks db)\<rparr>))) (\<lambda>n.
     if n = 0 then throw_op ErrDb
     else bind_op (repo_renumber env p) (\<lambda>_. remove_each env ps))"

definition removeOrphans :: "playlist_env \<Rightarrow> unit db_op" where
  "removeOrphans env =
     bind_op (select env (\<lambda>db. remdups (map tr_playlist (filter (\<lambda>t. orphan db t \<and> tr_playlist t \<in> set (map row_id (db_rows db))) (db_tracks db)))))
       (remove_each env)"

end
