(* ===== verification/Playlist_Service.thy ===== *)
theory Playlist_Service
  imports Playlist_Store
begin

text \<open>
  The playlist service (\<open>core/playlists/playlists.go\<close>, \<open>rest_adapter.go\<close>) over the repository: who may
  change which playlist. Requests are run one after the other. The image uploader's outcome is part of the
  request; \<open>EnqueueArtwork\<close> queues the playlist's cover.
\<close>

section \<open>Operations\<close>

text \<open>\<open>Get\<close>, \<open>GetAll\<close>, \<open>GetWithTracks\<close> and \<open>GetPlaylists\<close> are the repository's.\<close>

definition svc_Tracks :: "playlist_env \<Rightarrow> user_ctx \<Rightarrow> string \<Rightarrow> string db_op" where
  "svc_Tracks env ctx i =
     bind_op (repo_Get env ctx i) (\<lambda>_.
     bind_op (repo_Tracks env ctx i True) (\<lambda>t. case t of None \<Rightarrow> throw_op ErrNotFound | Some q \<Rightarrow> return_op q))"

definition checkWritable :: "playlist_env \<Rightarrow> user_ctx \<Rightarrow> string \<Rightarrow> Playlist db_op" where
  "checkWritable env ctx i =
     bind_op (repo_Get env ctx i) (\<lambda>pls.
       let usr = UserFrom ctx
       in if \<not> u_IsAdmin usr \<and> pls_OwnerID pls \<noteq> u_ID usr then throw_op ErrNotAuthorized else return_op pls)"

definition checkTracksEditable :: "playlist_env \<Rightarrow> user_ctx \<Rightarrow> string \<Rightarrow> Playlist db_op" where
  "checkTracksEditable env ctx i =
     bind_op (checkWritable env ctx i) (\<lambda>pls.
       if IsSmartPlaylist pls then throw_op ErrNotAuthorized else return_op pls)"

definition svc_Create :: "playlist_env \<Rightarrow> user_ctx \<Rightarrow> string \<Rightarrow> string \<Rightarrow> string list \<Rightarrow> string db_op" where
  "svc_Create env ctx playlistId name ids =
     (let usr = UserFrom ctx
      in WithTx env
        (bind_op
          (if playlistId \<noteq> [] then
             bind_op (repo_Get env ctx playlistId) (\<lambda>pls.
               if IsSmartPlaylist pls then throw_op ErrNotAuthorized
               else if \<not> u_IsAdmin usr \<and> pls_OwnerID pls \<noteq> u_ID usr then throw_op ErrNotAuthorized
               else return_op pls)
           else return_op (zero_Playlist\<lparr>pls_Name := name, pls_OwnerID := u_ID usr\<rparr>))
          (\<lambda>pls. Put env (AddMediaFilesByID (st_add32 env) ids (pls\<lparr>pls_Tracks := []\<rparr>)) [])))"

definition svc_Delete :: "playlist_env \<Rightarrow> user_ctx \<Rightarrow> string \<Rightarrow> unit db_op" where
  "svc_Delete env ctx i = bind_op (checkWritable env ctx i) (\<lambda>_. repo_Delete env ctx i)"

definition updateMetadata :: "playlist_env \<Rightarrow> Playlist \<Rightarrow> string option \<Rightarrow> string option \<Rightarrow> bool option \<Rightarrow> unit db_op" where
  "updateMetadata env pls name comment pub =
     (let p1 = (case name of None \<Rightarrow> pls | Some s \<Rightarrow> pls\<lparr>pls_Name := s\<rparr>);
          p2 = (case comment of None \<Rightarrow> p1 | Some s \<Rightarrow> p1\<lparr>pls_Comment := s\<rparr>);
          p3 = (case pub of None \<Rightarrow> p2 | Some b \<Rightarrow> p2\<lparr>pls_Public := b\<rparr>)
      in bind_op (Put env p3 []) (\<lambda>_. return_op ()))"

definition svc_Update ::
  "playlist_env \<Rightarrow> user_ctx \<Rightarrow> string \<Rightarrow> string option \<Rightarrow> string option \<Rightarrow> bool option \<Rightarrow> string list \<Rightarrow> go_int list \<Rightarrow> unit db_op" where
  "svc_Update env ctx playlistID name comment pub idsToAdd idxToRemove =
     bind_op (if idsToAdd \<noteq> [] \<or> idxToRemove \<noteq> [] then checkTracksEditable env ctx playlistID
              else checkWritable env ctx playlistID) (\<lambda>pls.
     WithTx env
       (if idxToRemove \<noteq> [] then
          with_tracks env ctx playlistID (\<lambda>t.
            bind_op (trk_Delete env t (map (\<lambda>idx. Itoa (wrap64 (idx + 1))) idxToRemove)) (\<lambda>_.
            bind_op (if idsToAdd \<noteq> [] then trk_Add env t idsToAdd else return_op 0) (\<lambda>_.
            updateMetadata env pls name comment pub)))
        else
          bind_op (if idsToAdd \<noteq> [] then with_tracks env ctx playlistID (\<lambda>t. trk_Add env t idsToAdd) else return_op 0) (\<lambda>_.
          if name = None \<and> comment = None \<and> pub = None then return_op ()
          else updateMetadata env pls name comment pub)))"

definition AddTracks :: "playlist_env \<Rightarrow> user_ctx \<Rightarrow> string \<Rightarrow> string list \<Rightarrow> int db_op" where
  "AddTracks env ctx i ids =
     bind_op (checkTracksEditable env ctx i) (\<lambda>_. with_tracks env ctx i (\<lambda>t. trk_Add env t ids))"

definition AddAlbums :: "playlist_env \<Rightarrow> user_ctx \<Rightarrow> string \<Rightarrow> string list \<Rightarrow> int db_op" where
  "AddAlbums env ctx i albumIds =
     bind_op (checkTracksEditable env ctx i) (\<lambda>_. with_tracks env ctx i (\<lambda>t. trk_AddAlbums env t albumIds))"

definition AddArtists :: "playlist_env \<Rightarrow> user_ctx \<Rightarrow> string \<Rightarrow> string list \<Rightarrow> int db_op" where
  "AddArtists env ctx i artistIds =
     bind_op (checkTracksEditable env ctx i) (\<lambda>_. with_tracks env ctx i (\<lambda>t. trk_AddArtists env t artistIds))"

definition AddDiscs :: "playlist_env \<Rightarrow> user_ctx \<Rightarrow> string \<Rightarrow> DiscID list \<Rightarrow> int db_op" where
  "AddDiscs env ctx i discs =
     bind_op (checkTracksEditable env ctx i) (\<lambda>_. with_tracks env ctx i (\<lambda>t. trk_AddDiscs env t discs))"

definition svc_RemoveTracks :: "playlist_env \<Rightarrow> user_ctx \<Rightarrow> string \<Rightarrow> string list \<Rightarrow> unit db_op" where
  "svc_RemoveTracks env ctx i trackIds =
     bind_op (checkTracksEditable env ctx i) (\<lambda>_. WithTx env (with_tracks env ctx i (\<lambda>t. trk_Delete env t trackIds)))"

definition ReorderTrack :: "playlist_env \<Rightarrow> user_ctx \<Rightarrow> string \<Rightarrow> go_int \<Rightarrow> go_int \<Rightarrow> unit db_op" where
  "ReorderTrack env ctx i pos newPos =
     bind_op (checkTracksEditable env ctx i) (\<lambda>_. WithTx env (with_tracks env ctx i (\<lambda>t. trk_Reorder env t pos newPos)))"

definition svc_SetImage :: "playlist_env \<Rightarrow> user_ctx \<Rightarrow> string \<Rightarrow> store_error + string \<Rightarrow> unit db_op" where
  "svc_SetImage env ctx i uploaded =
     bind_op (checkWritable env ctx i) (\<lambda>pls.
     bind_op (lift_op uploaded) (\<lambda>filename.
     bind_op (Put env (pls\<lparr>pls_UploadedImage := filename\<rparr>) []) (\<lambda>_. enqueueCoverRebuild env (pls_ID pls))))"

definition svc_RemoveImage :: "playlist_env \<Rightarrow> user_ctx \<Rightarrow> string \<Rightarrow> store_error + unit \<Rightarrow> unit db_op" where
  "svc_RemoveImage env ctx i removed =
     bind_op (checkWritable env ctx i) (\<lambda>pls.
     bind_op (lift_op removed) (\<lambda>_.
     bind_op (Put env (pls\<lparr>pls_UploadedImage := []\<rparr>) []) (\<lambda>_. enqueueCoverRebuild env (pls_ID pls))))"

section \<open>The REST adapter\<close>

definition savePlaylist :: "playlist_env \<Rightarrow> user_ctx \<Rightarrow> Playlist \<Rightarrow> string db_op" where
  "savePlaylist env ctx pls =
     Put env (pls\<lparr>pls_OwnerID := u_ID (UserFrom ctx), pls_ID := [], pls_Path := [], pls_Sync := False,
        pls_UploadedImage := [], pls_ExternalImageURL := [], pls_EvaluatedAt := None\<rparr>) []"

definition sentFields :: "string list \<Rightarrow> string \<Rightarrow> bool" where
  "sentFields cols field \<longleftrightarrow> cols = [] \<or> ToLower field \<in> set (map ToLower cols)"

definition rulesEqual :: "Criteria option \<Rightarrow> Criteria option \<Rightarrow> bool" where
  "rulesEqual a b \<longleftrightarrow> a = b"

definition applyContentUpdate ::
  "playlist_env \<Rightarrow> Playlist \<Rightarrow> Playlist \<Rightarrow> (string \<Rightarrow> bool) \<Rightarrow> bool \<Rightarrow> bool \<Rightarrow> bool \<Rightarrow> bool \<Rightarrow> unit db_op" where
  "applyContentUpdate env current entity sent nameChanged commentChanged ownerChanged rulesChanged =
     (let c1 = (if ownerChanged then current\<lparr>pls_OwnerID := pls_OwnerID entity\<rparr> else current);
          c2 = (if rulesChanged then c1\<lparr>pls_Rules := pls_Rules entity, pls_EvaluatedAt := None\<rparr> else c1);
          c3 = (if sent ''sync'' \<and> pls_Path c2 \<noteq> [] \<and> pls_Sync c2 \<noteq> pls_Sync entity then c2\<lparr>pls_Sync := pls_Sync entity\<rparr> else c2)
      in updateMetadata env c3 (if nameChanged then Some (pls_Name entity) else None)
           (if commentChanged then Some (pls_Comment entity) else None)
           (if sent ''public'' then Some (pls_Public entity) else None))"

definition applyFlagsOnly :: "playlist_env \<Rightarrow> Playlist \<Rightarrow> Playlist \<Rightarrow> (string \<Rightarrow> bool) \<Rightarrow> unit db_op" where
  "applyFlagsOnly env current entity sent =
     (let syncs = sent ''sync'' \<and> pls_Path current \<noteq> [] \<and> pls_Sync current \<noteq> pls_Sync entity;
          c1 = (if syncs then current\<lparr>pls_Sync := pls_Sync entity\<rparr> else current);
          pubs = sent ''public'' \<and> pls_Public c1 \<noteq> pls_Public entity;
          c2 = (if pubs then c1\<lparr>pls_Public := pls_Public entity\<rparr> else c1);
          updateCols = (if syncs then [''sync''] else []) @ (if pubs then [''public''] else [])
      in if updateCols = [] then return_op ()
         else bind_op (Put env c2 updateCols) (\<lambda>_. return_op ()))"

definition rest_error :: "store_error \<Rightarrow> store_error" where
  "rest_error e = (case e of ErrNotFound \<Rightarrow> RestNotFound | ErrNotAuthorized \<Rightarrow> RestPermissionDenied | _ \<Rightarrow> e)"

definition map_error :: "(store_error \<Rightarrow> store_error) \<Rightarrow> 'a db_op \<Rightarrow> 'a db_op" where
  "map_error f m db = (case m db of (Inl e, db') \<Rightarrow> (Inl (f e), db') | (Inr a, db') \<Rightarrow> (Inr a, db'))"

definition updatePlaylistEntity :: "playlist_env \<Rightarrow> user_ctx \<Rightarrow> string \<Rightarrow> Playlist \<Rightarrow> string list \<Rightarrow> unit db_op" where
  "updatePlaylistEntity env ctx i entity cols =
     bind_op (map_error rest_error (checkWritable env ctx i)) (\<lambda>current.
       let sent = sentFields cols; usr = UserFrom ctx;
           ownerChanged = (sent ''ownerId'' \<and> pls_OwnerID entity \<noteq> [] \<and> pls_OwnerID entity \<noteq> pls_OwnerID current)
       in if \<not> u_IsAdmin usr \<and> ownerChanged then throw_op RestPermissionDenied
          else
            (let nameChanged = (sent ''name'' \<and> pls_Name entity \<noteq> pls_Name current);
                 commentChanged = (sent ''comment'' \<and> pls_Comment entity \<noteq> pls_Comment current);
                 rulesChanged = (sent ''rules'' \<and> \<not> rulesEqual (pls_Rules current) (pls_Rules entity))
             in if nameChanged \<or> commentChanged \<or> ownerChanged \<or> rulesChanged
                then applyContentUpdate env current entity sent nameChanged commentChanged ownerChanged rulesChanged
                else applyFlagsOnly env current entity sent))"

definition rest_Delete :: "playlist_env \<Rightarrow> user_ctx \<Rightarrow> string \<Rightarrow> unit db_op" where
  "rest_Delete env ctx i = map_error rest_error (svc_Delete env ctx i)"

definition TracksRepository :: "playlist_env \<Rightarrow> user_ctx \<Rightarrow> string \<Rightarrow> bool \<Rightarrow> string option db_op" where
  "TracksRepository env ctx i refresh = repo_Tracks env ctx i refresh"

section \<open>Requests\<close>

text \<open>What a client can ask for through the Subsonic and the native API, import apart.\<close>

datatype playlist_request =
    ReqGetAll | ReqGet string | ReqGetWithTracks string | ReqTracks string | ReqTracksRepository string bool | ReqGetPlaylists string
  | ReqCreate string string "string list"
  | ReqDelete string
  | ReqUpdate string "string option" "string option" "bool option" "string list" "go_int list"
  | ReqAddTracks string "string list" | ReqAddAlbums string "string list" | ReqAddArtists string "string list"
  | ReqAddDiscs string "DiscID list"
  | ReqRemoveTracks string "string list" | ReqReorderTrack string go_int go_int
  | ReqSetImage string "store_error + string" | ReqRemoveImage string "store_error + unit"
  | ReqSave Playlist | ReqUpdateEntity string Playlist "string list" | ReqRestDelete string

datatype playlist_reply = Done | Ids "string list" | Added int | Lists "Playlist list"

definition reply :: "('a \<Rightarrow> playlist_reply) \<Rightarrow> 'a db_op \<Rightarrow> playlist_reply db_op" where
  "reply f m = bind_op m (\<lambda>a. return_op (f a))"

fun serve :: "playlist_env \<Rightarrow> user_ctx \<Rightarrow> playlist_request \<Rightarrow> playlist_reply db_op" where
  "serve env ctx ReqGetAll = reply Lists (repo_GetAll env ctx (\<lambda>_. True))"
| "serve env ctx (ReqGet i) = reply (\<lambda>p. Lists [p]) (repo_Get env ctx i)"
| "serve env ctx (ReqGetWithTracks i) = reply (\<lambda>p. Lists [p]) (repo_GetWithTracks env ctx i True)"
| "serve env ctx (ReqTracks i) = reply (\<lambda>t. Ids [t]) (svc_Tracks env ctx i)"
| "serve env ctx (ReqTracksRepository i refresh) =
     reply (\<lambda>t. Ids (case t of None \<Rightarrow> [] | Some q \<Rightarrow> [q])) (TracksRepository env ctx i refresh)"
| "serve env ctx (ReqGetPlaylists m) = reply Lists (GetPlaylists env ctx m)"
| "serve env ctx (ReqCreate i name ids) = reply (\<lambda>i. Ids [i]) (svc_Create env ctx i name ids)"
| "serve env ctx (ReqDelete i) = reply (\<lambda>_. Done) (svc_Delete env ctx i)"
| "serve env ctx (ReqUpdate i name comment pub add remove) = reply (\<lambda>_. Done) (svc_Update env ctx i name comment pub add remove)"
| "serve env ctx (ReqAddTracks i ids) = reply Added (AddTracks env ctx i ids)"
| "serve env ctx (ReqAddAlbums i ids) = reply Added (AddAlbums env ctx i ids)"
| "serve env ctx (ReqAddArtists i ids) = reply Added (AddArtists env ctx i ids)"
| "serve env ctx (ReqAddDiscs i ds) = reply Added (AddDiscs env ctx i ds)"
| "serve env ctx (ReqRemoveTracks i ids) = reply (\<lambda>_. Done) (svc_RemoveTracks env ctx i ids)"
| "serve env ctx (ReqReorderTrack i pos newPos) = reply (\<lambda>_. Done) (ReorderTrack env ctx i pos newPos)"
| "serve env ctx (ReqSetImage i up) = reply (\<lambda>_. Done) (svc_SetImage env ctx i up)"
| "serve env ctx (ReqRemoveImage i rm) = reply (\<lambda>_. Done) (svc_RemoveImage env ctx i rm)"
| "serve env ctx (ReqSave pls) = reply (\<lambda>i. Ids [i]) (savePlaylist env ctx pls)"
| "serve env ctx (ReqUpdateEntity i e cols) = reply (\<lambda>_. Done) (updatePlaylistEntity env ctx i e cols)"
| "serve env ctx (ReqRestDelete i) = reply (\<lambda>_. Done) (rest_Delete env ctx i)"

end
