(* ===== verification/Playlist_Invariants.thy ===== *)
theory Playlist_Invariants
  imports Playlist_Service
begin

text \<open>
  What every playlist request keeps. The interfaces are \<open>refresh_invariant\<close>, a property of the tables that
  survives what reads and refreshes write - the tracks and the counters of a playlist that is \<open>mine\<close> - and
  \<open>playlist_invariant\<close>, which also survives the edits of a permitted request, with an owner that is \<open>own\<close>. The
  client lemmas, one per operation, follow the code; the interpretations are the integrity of the tables
  and the playlists of the other users.
\<close>

section \<open>Effects of single writes\<close>

definition row_ids :: "playlist_db \<Rightarrow> string set" where
  "row_ids db = row_id ` set (db_rows db)"

definition track_write :: "string \<Rightarrow> playlist_db \<Rightarrow> track_row list \<Rightarrow> bool" where
  "track_write p db rows' \<longleftrightarrow>
     (unique_index (db_tracks db) \<longrightarrow> unique_index rows') \<and>
     filter (\<lambda>t. tr_playlist t \<noteq> p) rows' = filter (\<lambda>t. tr_playlist t \<noteq> p) (db_tracks db) \<and>
     tr_playlist ` set rows' \<subseteq> tr_playlist ` set (db_tracks db) \<union> row_ids db"

lemma sql_update_effect:
  assumes "sql_update cond new us rs = Inr rows'" "\<And>r. cond r \<Longrightarrow> tr_playlist r = p"
  shows "filter (\<lambda>t. tr_playlist t \<noteq> p) rows' = filter (\<lambda>t. tr_playlist t \<noteq> p) (us @ rs)"
    and "tr_playlist ` set rows' = tr_playlist ` set (us @ rs)"
    and "unique_index (us @ rs) \<Longrightarrow> unique_index rows'"
proof -
  have "filter (\<lambda>t. tr_playlist t \<noteq> p) rows' = filter (\<lambda>t. tr_playlist t \<noteq> p) (us @ rs) \<and>
      tr_playlist ` set rows' = tr_playlist ` set (us @ rs) \<and> (unique_index (us @ rs) \<longrightarrow> unique_index rows')"
    using assms(1)
  proof (induction rs arbitrary: us)
    case (Cons r rs)
    show ?case
    proof (cases "cond r")
      case False
      then show ?thesis using Cons.IH [of "us @ [r]"] Cons.prems by simp
    next
      case True
      let ?r = "r\<lparr>tr_id := new r\<rparr>"
      from True Cons.prems have free: "\<not> list_ex (same_key ?r) (us @ rs)"
        and rest: "sql_update cond new (us @ [?r]) rs = Inr rows'"
        by (simp_all add: Let_def split: if_splits)
      have "unique_index (us @ [?r] @ rs)" if "unique_index (us @ r # rs)"
        using that free by (auto simp: unique_index_def same_key_def list_ex_iff)
      then show ?thesis using Cons.IH [OF rest] assms(2) [OF True] by (auto simp del: append.simps(2))
    qed
  qed simp
  then show "filter (\<lambda>t. tr_playlist t \<noteq> p) rows' = filter (\<lambda>t. tr_playlist t \<noteq> p) (us @ rs)"
    "tr_playlist ` set rows' = tr_playlist ` set (us @ rs)" "unique_index (us @ rs) \<Longrightarrow> unique_index rows'"
    by blast+
qed

lemma track_write_update:
  "sql_update cond new [] (db_tracks db) = Inr rows' \<Longrightarrow> (\<And>r. cond r \<Longrightarrow> tr_playlist r = p) \<Longrightarrow> track_write p db rows'"
  using sql_update_effect [of cond new "[]" "db_tracks db" rows' p] by (simp add: track_write_def)

lemma track_write_delete:
  "(\<And>r. cond r \<Longrightarrow> tr_playlist r = p) \<Longrightarrow> track_write p db (sql_delete cond (db_tracks db))"
  by (auto simp: track_write_def sql_delete_def unique_index_def distinct_map_filter intro!: filter_cong)

lemma sql_insert_effect:
  "sql_insert new rows = Inr rows' \<Longrightarrow> rows' = rows @ new \<and> (unique_index rows \<longrightarrow> unique_index rows')"
proof (induction new arbitrary: rows)
  case (Cons r new)
  then have free: "\<not> list_ex (same_key r) rows" and rest: "sql_insert new (rows @ [r]) = Inr rows'"
    by (simp_all split: if_splits)
  have "unique_index (rows @ [r])" if "unique_index rows"
    using that free by (auto simp: unique_index_def same_key_def list_ex_iff)
  with Cons.IH [OF rest] show ?case by auto
qed simp

lemma track_write_insert:
  assumes "insert_tracks p new db = Inr (x, db')" "list_all (\<lambda>t. tr_playlist t = p) new"
  shows "\<exists>rows'. db' = db\<lparr>db_tracks := rows'\<rparr> \<and> track_write p db rows'"
proof -
  from assms(1) obtain rows' where ins: "sql_insert new (db_tracks db) = Inr rows'" and db': "db' = db\<lparr>db_tracks := rows'\<rparr>"
    and known: "new = [] \<or> p \<in> row_ids db"
    by (auto simp: insert_tracks_def row_ids_def list_ex_iff split: if_splits sum.splits)
  from sql_insert_effect [OF ins] assms(2) known have "track_write p db rows'"
    by (auto simp: track_write_def list_all_iff)
  with db' show ?thesis by blast
qed

lemma PostScan_keys:
  "PostScan env r = Inr p \<Longrightarrow> pls_ID p = row_id r \<and> pls_OwnerID p = row_owner r \<and> pls_Public p = pls_Public (row_playlist r)"
  by (auto simp: PostScan_def bind_result_Inr row_id_def row_owner_def)

lemma collect_set: "collect xs = Inr ys \<Longrightarrow> y \<in> set ys \<Longrightarrow> Inr y \<in> set xs"
  by (induction xs arbitrary: ys) (auto simp: bind_result_Inr)

section \<open>The interface\<close>

text \<open>What a refresh of counters or of a smart playlist writes into a row.\<close>

definition touched :: "playlist_row \<Rightarrow> playlist_row \<Rightarrow> bool" where
  "touched r r' \<longleftrightarrow> row_rules r' = row_rules r \<and>
     (\<exists>d s n u e. row_playlist r' = (row_playlist r)\<lparr>pls_Duration := d, pls_Size := s, pls_SongCount := n, pls_UpdatedAt := u, pls_EvaluatedAt := e\<rparr>)"

lemma touchedI:
  "touched r (r\<lparr>row_playlist := (row_playlist r)\<lparr>pls_Duration := d, pls_Size := s, pls_SongCount := n, pls_UpdatedAt := u\<rparr>\<rparr>)"
  "touched r (r\<lparr>row_playlist := (row_playlist r)\<lparr>pls_EvaluatedAt := e\<rparr>\<rparr>)"
proof -
  have "(p::Playlist)\<lparr>pls_Duration := d, pls_Size := s, pls_SongCount := n, pls_UpdatedAt := u\<rparr> =
      p\<lparr>pls_Duration := d, pls_Size := s, pls_SongCount := n, pls_UpdatedAt := u, pls_EvaluatedAt := pls_EvaluatedAt p\<rparr>" for p by simp
  then show "touched r (r\<lparr>row_playlist := (row_playlist r)\<lparr>pls_Duration := d, pls_Size := s, pls_SongCount := n, pls_UpdatedAt := u\<rparr>\<rparr>)"
    unfolding touched_def by (simp (no_asm_simp)) metis
  have "(p::Playlist)\<lparr>pls_EvaluatedAt := e\<rparr> =
      p\<lparr>pls_Duration := pls_Duration p, pls_Size := pls_Size p, pls_SongCount := pls_SongCount p, pls_UpdatedAt := pls_UpdatedAt p, pls_EvaluatedAt := e\<rparr>" for p by simp
  then show "touched r (r\<lparr>row_playlist := (row_playlist r)\<lparr>pls_EvaluatedAt := e\<rparr>\<rparr>)"
    unfolding touched_def by (simp (no_asm_simp)) metis
qed

lemma touched_keys: "touched r r' \<Longrightarrow> row_id r' = row_id r \<and> row_owner r' = row_owner r \<and> row_rules r' = row_rules r"
  by (auto simp: touched_def row_id_def row_owner_def)

locale refresh_invariant =
  fixes I :: "playlist_db \<Rightarrow> bool" and mine :: "string \<Rightarrow> bool" and own :: "string \<Rightarrow> bool"
  assumes I_clock: "I db \<Longrightarrow> I (db\<lparr>db_clock := n\<rparr>)"
    and I_tracks: "I db \<Longrightarrow> mine p \<Longrightarrow> track_write p db rows' \<Longrightarrow> I (db\<lparr>db_tracks := rows'\<rparr>)"
    and I_touch: "I db \<Longrightarrow> mine p \<Longrightarrow> (\<And>r. touched r (f r)) \<Longrightarrow> I (update_rows p f db)"
    and mine_row: "I db \<Longrightarrow> r \<in> set (db_rows db) \<Longrightarrow> own (row_owner r) \<Longrightarrow> mine (row_id r)"
begin

text \<open>An operation keeps the invariant whatever it returns, and what it returns on success satisfies \<open>Q\<close>.\<close>

definition keeps :: "'a db_op \<Rightarrow> ('a \<Rightarrow> bool) \<Rightarrow> bool" where
  "keeps m Q \<longleftrightarrow> (\<forall>db. I db \<longrightarrow> I (snd (m db)) \<and> (\<forall>a. fst (m db) = Inr a \<longrightarrow> Q a))"

lemma keepsI: "(\<And>db. I db \<Longrightarrow> I (snd (m db)) \<and> (\<forall>a. fst (m db) = Inr a \<longrightarrow> Q a)) \<Longrightarrow> keeps m Q"
  by (simp add: keeps_def)

lemma keeps_at: "(\<And>db0. keeps (m db0) Q) \<Longrightarrow> keeps (\<lambda>db. m db db) Q"
  by (simp add: keeps_def)

lemma keeps_mono: "keeps m Q \<Longrightarrow> (\<And>a. Q a \<Longrightarrow> R a) \<Longrightarrow> keeps m R"
  by (simp add: keeps_def)

lemma keeps_return: "Q a \<Longrightarrow> keeps (return_op a) Q"
  by (simp add: keeps_def return_op_def)

lemma keeps_throw: "keeps (throw_op e) Q"
  by (simp add: keeps_def throw_op_def)

lemma keeps_lift: "(\<And>a. r = Inr a \<Longrightarrow> Q a) \<Longrightarrow> keeps (lift_op r) Q"
  by (simp add: keeps_def lift_op_def)

lemma keeps_bind: "keeps m Q \<Longrightarrow> (\<And>a. Q a \<Longrightarrow> keeps (k a) R) \<Longrightarrow> keeps (bind_op m k) R"
  by (auto simp: keeps_def bind_op_def split: prod.splits sum.splits)

lemma keeps_try: "keeps m Q \<Longrightarrow> keeps (try_op m) (\<lambda>r. \<forall>a. r = Inr a \<longrightarrow> Q a)"
  by (auto simp: keeps_def try_op_def split: prod.splits if_splits)

lemma keeps_map_error: "keeps m Q \<Longrightarrow> keeps (map_error f m) Q"
  by (auto simp: keeps_def map_error_def split: prod.splits sum.splits)

lemma keeps_statement:
  assumes "\<And>db a db'. I db \<Longrightarrow> f db = Inr (a, db') \<Longrightarrow> I db' \<and> Q a"
  shows "keeps (statement env f) Q"
proof (rule keepsI)
  fix db assume db: "I db"
  let ?db1 = "db\<lparr>db_clock := Suc (db_clock db)\<rparr>"
  have "I ?db1" using db by (rule I_clock)
  then show "I (snd (statement env f db)) \<and> (\<forall>a. fst (statement env f db) = Inr a \<longrightarrow> Q a)"
    using assms [of ?db1] by (cases "f ?db1") (auto simp: statement_def Let_def split: if_splits)
qed

lemma keeps_select: "(\<And>db. I db \<Longrightarrow> Q (f db)) \<Longrightarrow> keeps (select env f) Q"
  unfolding select_def by (rule keeps_statement) auto

lemma keeps_select_any: "keeps (select env f) (\<lambda>_. True)"
  by (rule keeps_select) simp

lemma keeps_WithTx:
  assumes "keeps block Q"
  shows "keeps (WithTx env block) Q"
proof (rule keepsI)
  fix db assume db: "I db"
  let ?m = "bind_op (select env (\<lambda>_. ())) (\<lambda>_. bind_op block (\<lambda>a. bind_op (select env (\<lambda>_. ())) (\<lambda>_. return_op a)))"
  have "keeps ?m Q"
    by (rule keeps_bind [OF keeps_select_any], rule keeps_bind [OF assms], rule keeps_bind [OF keeps_select_any])
       (rule keeps_return)
  with db I_clock [OF db] show "I (snd (WithTx env block db)) \<and> (\<forall>a. fst (WithTx env block db) = Inr a \<longrightarrow> Q a)"
    by (auto simp: keeps_def WithTx_def rolled_back_def split: prod.splits sum.splits)
qed

lemma keeps_track_statement:
  assumes "mine p" "\<And>db rows'. f (db_tracks db) = Inr rows' \<Longrightarrow> track_write p db rows'"
  shows "keeps (track_statement env f) (\<lambda>_. True)"
  unfolding track_statement_def
  by (rule keeps_statement) (auto split: sum.splits intro: I_tracks [OF _ assms(1)] assms(2))


lemmas keeps_unit = keeps_return [of "\<lambda>_. True", OF TrueI]

lemma keeps_refreshCounters:
  assumes "mine (pls_ID pls)"
  shows "keeps (refreshCounters env pls) (\<lambda>_. True)"
proof -
  have "keeps (statement env (\<lambda>db. Inr ((), update_rows (pls_ID pls) (\<lambda>r. r\<lparr>row_playlist := (row_playlist r)\<lparr>
      pls_Duration := d, pls_Size := s, pls_SongCount := n, pls_UpdatedAt := st_now env (db_clock db)\<rparr>\<rparr>) db))) (\<lambda>_. True)" for d s n
    by (rule keeps_statement) (auto intro!: I_touch assms touchedI)
  then show ?thesis
    unfolding refreshCounters_def
    by (intro keeps_bind [OF keeps_select_any]) (auto intro!: keeps_bind [OF _ keeps_unit])
qed

lemma keeps_insert_tracks:
  "mine p \<Longrightarrow> list_all (\<lambda>t. tr_playlist t = p) new \<Longrightarrow> keeps (statement env (insert_tracks p new)) (\<lambda>_. True)"
  by (rule keeps_statement) (auto dest!: track_write_insert intro: I_tracks)

lemma keeps_delete_tracks:
  "mine p \<Longrightarrow> (\<And>r. cond r \<Longrightarrow> tr_playlist r = p) \<Longrightarrow> keeps (track_statement env (\<lambda>rows. Inr (sql_delete cond rows))) (\<lambda>_. True)"
  by (rule keeps_track_statement [of p]) (auto intro: track_write_delete)

lemma keeps_update_tracks:
  "mine p \<Longrightarrow> (\<And>r. cond r \<Longrightarrow> tr_playlist r = p) \<Longrightarrow> keeps (track_statement env (\<lambda>rows. sql_update cond (new rows) [] rows)) (\<lambda>_. True)"
  by (rule keeps_track_statement [of p]) (auto intro: track_write_update)

lemma keeps_selectPlaylist:
  "keeps (selectPlaylist env cond)
     (\<lambda>ps. \<forall>p\<in>set ps. (own (pls_OwnerID p) \<longrightarrow> mine (pls_ID p)) \<and> (\<exists>r. PostScan env r = Inr p \<and> cond (row_playlist r)))"
proof -
  have "keeps (select env (\<lambda>db. filter (\<lambda>r. row_owner r \<in> set (db_users db) \<and> cond (row_playlist r)) (db_rows db)))
     (\<lambda>rs. \<forall>r\<in>set rs. (own (row_owner r) \<longrightarrow> mine (row_id r)) \<and> cond (row_playlist r))"
    by (rule keeps_select) (auto intro: mine_row)
  then show ?thesis
    unfolding selectPlaylist_def
  proof (rule keeps_bind)
    fix rs assume rs: "\<forall>r\<in>set rs. (own (row_owner r) \<longrightarrow> mine (row_id r)) \<and> cond (row_playlist r)"
    show "keeps (lift_op (collect (map (PostScan env) rs))) (\<lambda>ps. \<forall>p\<in>set ps. (own (pls_OwnerID p) \<longrightarrow> mine (pls_ID p)) \<and>
        (\<exists>r. PostScan env r = Inr p \<and> cond (row_playlist r)))"
    proof (intro keeps_lift ballI)
      fix ps p assume "collect (map (PostScan env) rs) = Inr ps" "p \<in> set ps"
      then obtain r where "r \<in> set rs" "PostScan env r = Inr p" by (fastforce dest: collect_set)
      with rs PostScan_keys [of env r p] show "(own (pls_OwnerID p) \<longrightarrow> mine (pls_ID p)) \<and>
          (\<exists>r. PostScan env r = Inr p \<and> cond (row_playlist r))" by auto
    qed
  qed
qed

lemma keeps_Get: "keeps (repo_Get env ctx i) (\<lambda>p. pls_ID p = i \<and> (own (pls_OwnerID p) \<longrightarrow> mine i))"
proof -
  have "keeps (selectPlaylist env (\<lambda>p. pls_ID p = i \<and> pls_userFilter ctx p))
      (\<lambda>ps. \<forall>p\<in>set ps. pls_ID p = i \<and> (own (pls_OwnerID p) \<longrightarrow> mine i))"
    by (rule keeps_mono [OF keeps_selectPlaylist]) (auto dest!: PostScan_keys simp: row_id_def)
  then show ?thesis
    unfolding repo_Get_def findBy_def
    by (rule keeps_bind) (auto split: list.split intro: keeps_throw keeps_return)
qed

lemma keeps_GetAll: "keeps (repo_GetAll env ctx cond) (\<lambda>ps. \<forall>p\<in>set ps. own (pls_OwnerID p) \<longrightarrow> mine (pls_ID p))"
  unfolding repo_GetAll_def by (rule keeps_mono [OF keeps_selectPlaylist]) auto

lemma keeps_library: "keeps (applyLibraryFilter env ctx) (\<lambda>_. True)"
proof -
  have "keeps (userSeesAllLibraries env ctx) (\<lambda>_. True)"
    unfolding userSeesAllLibraries_def Let_def
    by (auto intro!: keeps_unit keeps_bind [OF keeps_try [OF keeps_select_any] keeps_unit])
  then show ?thesis
    unfolding applyLibraryFilter_def Let_def by (auto intro!: keeps_unit keeps_bind [OF _ keeps_unit])
qed

lemma keeps_fill:
  assumes "mine (pls_ID pls)"
  shows "keeps (fill_playlist env ctx pls c) (\<lambda>_. True)"
proof -
  have query: "keeps (matching_query env ctx usr now joins c) (\<lambda>_. True)" for usr now joins c
    unfolding matching_query_def
    by (rule keeps_bind [OF keeps_library]) (auto split: sum.split intro: keeps_throw keeps_unit)
  have limit: "keeps (resolvePercentageLimit env ctx usr now c) (\<lambda>_. True)" for usr now
    unfolding resolvePercentageLimit_def
    by (auto intro!: keeps_unit keeps_bind [OF query] keeps_bind [OF keeps_select_any])
  have ins: "keeps (insert_selected env (pls_ID pls) c q) (\<lambda>_. True)" for c q
    unfolding insert_selected_def
    by (rule keeps_statement) (auto simp: bind_result_Inr list_all_iff dest!: track_write_insert intro: I_tracks assms)
  have eval: "keeps (set_evaluated env (pls_ID pls)) (\<lambda>_. True)"
    unfolding set_evaluated_def Let_def
    by (rule keeps_statement) (auto intro!: I_touch assms touchedI)
  show ?thesis
    unfolding fill_playlist_def Let_def
    by (rule keeps_at, intro keeps_bind [OF limit] keeps_bind [OF query] keeps_bind [OF ins]
        keeps_bind [OF keeps_refreshCounters] keeps_bind [OF eval] keeps_unit assms)
qed

text \<open>The owners a request may write for: the requesting user's, and everybody for an administrator.\<close>

definition acts :: "user_ctx \<Rightarrow> bool" where
  "acts ctx \<longleftrightarrow> own (u_ID (UserFrom ctx)) \<and> own (u_ID (loggedUser ctx)) \<and> (u_IsAdmin (UserFrom ctx) \<longrightarrow> (\<forall>o'. own o'))"

lemma keeps_each: "(\<And>p. p \<in> set ps \<Longrightarrow> keeps (f p) (\<lambda>_. True)) \<Longrightarrow> keeps (refresh_each f ps) (\<lambda>_. True)"
  by (induction ps) (auto intro!: keeps_unit keeps_bind [of _ "\<lambda>_. True"])

lemma keeps_refresh:
  "acts ctx \<Longrightarrow> (own (pls_OwnerID pls) \<Longrightarrow> mine (pls_ID pls)) \<Longrightarrow> keeps (refreshSmartPlaylist n env ctx pls) (\<lambda>_. True)"
proof (induction n arbitrary: pls)
  case 0
  then show ?case by (simp add: keeps_throw)
next
  case (Suc n)
  show ?case
  proof (cases "pls_Rules pls")
    case None
    then show ?thesis by (auto intro!: keepsI)
  next
    case (Some c)
    let ?body = "bind_op (try_op
        (bind_op (track_statement env (\<lambda>rows. Inr (sql_delete (\<lambda>t. tr_playlist t = pls_ID pls) rows))) (\<lambda>_.
         bind_op (refreshChildPlaylists (refreshSmartPlaylist n env ctx) env ctx c) (\<lambda>_. fill_playlist env ctx pls c))))
      (\<lambda>r. return_op (case r of Inl _ \<Rightarrow> (False, pls) | Inr pls' \<Rightarrow> (True, pls')))"
    have children: "keeps (refreshChildPlaylists (refreshSmartPlaylist n env ctx) env ctx c) (\<lambda>_. True)"
      unfolding refreshChildPlaylists_def
      by (auto intro!: keeps_unit keeps_bind [OF keeps_GetAll] keeps_each Suc.IH [OF Suc.prems(1)])
    have body: "keeps ?body (\<lambda>_. True)" if m: "mine (pls_ID pls)"
      by (rule keeps_bind [OF keeps_try [of _ "\<lambda>_. True"] keeps_unit], rule keeps_bind [OF keeps_delete_tracks [OF m]], simp,
          rule keeps_bind [OF children keeps_fill [OF m]])
    show ?thesis
    proof (rule keepsI)
      fix db assume db: "I db"
      show "I (snd (refreshSmartPlaylist (Suc n) env ctx pls db)) \<and> (\<forall>a. fst (refreshSmartPlaylist (Suc n) env ctx pls db) = Inr a \<longrightarrow> True)"
      proof (cases "shouldRefreshSmartPlaylist env (st_now env (db_clock db)) pls (loggedUser ctx)")
        case True
        then have "own (pls_OwnerID pls)" using Suc.prems(1) by (simp add: shouldRefreshSmartPlaylist_def acts_def)
        from body [OF Suc.prems(2) [OF this]] have "I (snd (?body db))" using db unfolding keeps_def by blast
        with Some True show ?thesis by simp
      qed (use Some db in simp)
    qed
  qed
qed

lemma keeps_refresh_if:
  "acts ctx \<Longrightarrow> (own (pls_OwnerID pls) \<Longrightarrow> mine (pls_ID pls)) \<Longrightarrow>
   keeps (if b then refresh_smart env ctx pls else return_op (False, pls)) (\<lambda>_. True)"
  by (auto simp: refresh_smart_def intro: keeps_unit keeps_refresh)

lemma keeps_Tracks:
  assumes "acts ctx"
  shows "keeps (repo_Tracks env ctx p refresh) (\<lambda>t. \<forall>q. t = Some q \<longrightarrow> q = p)"
  unfolding repo_Tracks_def
proof (rule keeps_bind [OF keeps_try [OF keeps_Get]])
  fix r :: "store_error + Playlist"
  assume r: "\<forall>pls. r = Inr pls \<longrightarrow> pls_ID pls = p \<and> (own (pls_OwnerID pls) \<longrightarrow> mine p)"
  have "keeps (bind_op (if refresh then refresh_smart env ctx pls else return_op (False, pls)) (\<lambda>_. return_op (Some p)))
      (\<lambda>t. \<forall>q. t = Some q \<longrightarrow> q = p)" if "r = Inr pls" for pls
    by (rule keeps_bind [OF keeps_refresh_if [OF assms]]) (use r that in \<open>auto intro: keeps_return\<close>)
  then show "keeps (case r of Inl _ \<Rightarrow> return_op None
      | Inr pls \<Rightarrow> bind_op (if refresh then refresh_smart env ctx pls else return_op (False, pls)) (\<lambda>_. return_op (Some p)))
      (\<lambda>t. \<forall>q. t = Some q \<longrightarrow> q = p)"
    by (cases r) (auto intro: keeps_return)
qed

lemma keeps_loadTracks: "keeps (loadTracks env ctx p) (\<lambda>_. True)"
  unfolding loadTracks_def by (rule keeps_bind [OF keeps_library keeps_select_any])

lemma keeps_GetWithTracks: "acts ctx \<Longrightarrow> keeps (repo_GetWithTracks env ctx i refresh) (\<lambda>_. True)"
  unfolding repo_GetWithTracks_def
  by (rule keeps_bind [OF keeps_Get], rule keeps_bind [OF keeps_refresh_if])
     (auto intro!: keeps_bind [OF keeps_loadTracks keeps_unit])

lemma keeps_GetPlaylists: "keeps (GetPlaylists env ctx m) (\<lambda>_. True)"
  unfolding GetPlaylists_def by (rule keeps_bind [OF keeps_select_any]) (rule keeps_lift, simp)

lemma keeps_svc_Tracks: "acts ctx \<Longrightarrow> keeps (svc_Tracks env ctx i) (\<lambda>_. True)"
  unfolding svc_Tracks_def
  by (rule keeps_bind [OF keeps_Get], rule keeps_bind [OF keeps_Tracks]) (auto split: option.split intro: keeps_throw keeps_unit)

lemma keeps_reply: "keeps m Q \<Longrightarrow> keeps (reply f m) (\<lambda>_. True)"
  unfolding reply_def by (rule keeps_bind [OF _ keeps_unit])

end

text \<open>For requests that edit: new rows, deletions, and other columns of a row.\<close>

locale playlist_invariant = refresh_invariant +
  assumes I_covers: "I db \<Longrightarrow> I (db\<lparr>db_covers := cs\<rparr>)"
    and I_update: "I db \<Longrightarrow> mine p \<Longrightarrow>
      (\<And>r. r \<in> set (db_rows db) \<Longrightarrow> row_id r = p \<Longrightarrow> row_id (f r) = p \<and>
         (row_owner (f r) = row_owner r \<or> own (row_owner (f r)) \<and> row_owner (f r) \<in> set (db_users db))) \<Longrightarrow>
      I (update_rows p f db)"
    and I_insert: "I db \<Longrightarrow> row_id r \<notin> row_ids db \<Longrightarrow> own (row_owner r) \<Longrightarrow> row_owner r \<in> set (db_users db) \<Longrightarrow>
      I (db\<lparr>db_rows := db_rows db @ [r]\<rparr>)"
    and I_delete: "I db \<Longrightarrow> mine p \<Longrightarrow> p \<in> row_ids db \<Longrightarrow>
      I (db\<lparr>db_rows := filter (\<lambda>r. row_id r \<noteq> p) (db_rows db), db_tracks := sql_delete (\<lambda>t. tr_playlist t = p) (db_tracks db)\<rparr>)"
    and mine_new: "I db \<Longrightarrow> i \<notin> row_ids db \<Longrightarrow> mine i"
    and distinct_rows: "I db \<Longrightarrow> distinct (map row_id (db_rows db))"
begin

lemma keeps_enqueue: "keeps (enqueueCoverRebuild env i) (\<lambda>_. True)"
  unfolding enqueueCoverRebuild_def
  by (rule keeps_bind [OF keeps_try [of _ "\<lambda>_. True"] keeps_unit], rule keeps_statement) (auto intro: I_covers)

lemma keeps_add_chunks: "mine p \<Longrightarrow> keeps (add_chunks env p pos cs) (\<lambda>_. True)"
  by (induction cs arbitrary: pos)
     (auto intro!: keeps_unit keeps_bind [OF keeps_insert_tracks] simp: list_all_iff dest: number_from_rows)

lemma keeps_addTracks: "mine p \<Longrightarrow> keeps (repo_addTracks env p pos ids) (\<lambda>_. True)"
  unfolding repo_addTracks_def
  by (intro keeps_bind [OF keeps_add_chunks] keeps_bind [OF keeps_enqueue] keeps_bind [OF keeps_refreshCounters] keeps_unit) auto

lemma keeps_updatePlaylist: "mine p \<Longrightarrow> keeps (repo_updatePlaylist env p ids) (\<lambda>_. True)"
  unfolding repo_updatePlaylist_def by (intro keeps_bind [OF keeps_delete_tracks [of p]] keeps_addTracks) auto

lemma keeps_renumber: "mine p \<Longrightarrow> keeps (repo_renumber env p) (\<lambda>_. True)"
  unfolding repo_renumber_def
  by (intro keeps_bind [OF keeps_update_tracks [of p]] keeps_bind [OF keeps_enqueue] keeps_bind [OF keeps_refreshCounters] keeps_unit) auto

lemma keeps_repo_put:
  assumes "i \<noteq> [] \<Longrightarrow> mine i" "own (pls_OwnerID p)"
  shows "keeps (repo_put env i p cols) mine"
proof -
  have upd: "keeps (statement env (\<lambda>db. if list_ex (\<lambda>r. row_id r = i) (db_rows db) then
      (if filterUpdateValues cols ''owner_id'' \<and> pls_OwnerID p \<notin> set (db_users db) then Inl ErrDb
       else Inr (True, update_rows i (write_columns (filterUpdateValues cols) p rules) db))
      else Inr (False, db))) (\<lambda>_. True)" if "i \<noteq> []" for rules
    by (rule keeps_statement)
       (auto intro!: I_update assms that simp: row_id_def row_owner_def write_columns_def Let_def split: if_splits)
  have ins: "keeps (statement env (\<lambda>db. let i' = (if i = [] then st_newId env (db_clock db) else i)
      in if list_ex (\<lambda>r. row_id r = i') (db_rows db) \<or> pls_OwnerID p \<notin> set (db_users db) then Inl ErrDb
         else Inr (i', db\<lparr>db_rows := db_rows db @ [\<lparr>row_playlist = p\<lparr>pls_ID := i', pls_Tracks := [], pls_Rules := None\<rparr>, row_rules = rules\<rparr>]\<rparr>)))
      mine" for rules
  proof (rule keeps_statement)
    fix db a db' assume db: "I db"
    let ?i = "if i = [] then st_newId env (db_clock db) else i"
    let ?r = "\<lparr>row_playlist = p\<lparr>pls_ID := ?i, pls_Tracks := [], pls_Rules := None\<rparr>, row_rules = rules\<rparr>"
    assume "(let i' = ?i in if list_ex (\<lambda>r. row_id r = i') (db_rows db) \<or> pls_OwnerID p \<notin> set (db_users db) then Inl ErrDb
       else Inr (i', db\<lparr>db_rows := db_rows db @ [\<lparr>row_playlist = p\<lparr>pls_ID := i', pls_Tracks := [], pls_Rules := None\<rparr>, row_rules = rules\<rparr>]\<rparr>)) = Inr (a, db')"
    then have new: "?i \<notin> row_ids db" and user: "pls_OwnerID p \<in> set (db_users db)" and a: "a = ?i"
      and db': "db' = db\<lparr>db_rows := db_rows db @ [?r]\<rparr>"
      by (auto simp: Let_def row_ids_def list_ex_iff split: if_splits)
    have "I (db\<lparr>db_rows := db_rows db @ [?r]\<rparr>)"
      by (rule I_insert) (use db new user assms(2) in \<open>auto simp: row_id_def row_owner_def\<close>)
    with a db' mine_new [OF db new] show "I db' \<and> mine a" by simp
  qed
  show ?thesis
    unfolding repo_put_def
    by (rule keeps_bind [OF keeps_lift [of _ "\<lambda>_. True"]], simp,
        rule keeps_bind [where Q = "\<lambda>updated. updated \<longrightarrow> i \<noteq> []"])
       (auto intro!: keeps_return ins assms(1) intro: keeps_mono [OF upd])
qed

lemma keeps_Put:
  assumes "pls_ID p \<noteq> [] \<Longrightarrow> mine (pls_ID p)" "own (pls_OwnerID p)"
  shows "keeps (Put env p cols) mine"
proof -
  have tail: "keeps (if IsSmartPlaylist p then return_op i
      else if ts \<noteq> [] then bind_op (updateTracks env i ms) (\<lambda>_. return_op i)
      else bind_op (if b then enqueueCoverRebuild env i else return_op ()) (\<lambda>_.
           bind_op (refreshCounters env (q\<lparr>pls_ID := i\<rparr>)) (\<lambda>_. return_op i))) mine" if "mine i" for i ts ms b q
    using that unfolding updateTracks_def
    by (auto intro!: keeps_return keeps_bind [OF keeps_updatePlaylist] keeps_bind [OF keeps_enqueue]
        keeps_bind [OF keeps_refreshCounters] keeps_bind [OF keeps_unit])
  have full: "keeps (\<lambda>db. let isNew = (pls_ID p = []); now = st_now env (db_clock db);
        q = (if isNew then p\<lparr>pls_CreatedAt := now, pls_UpdatedAt := now\<rparr> else p\<lparr>pls_UpdatedAt := now\<rparr>)
      in bind_op (repo_put env (pls_ID q) q []) (\<lambda>i. if IsSmartPlaylist p then return_op i
      else if pls_Tracks q \<noteq> [] then bind_op (updateTracks env i (pls_MediaFiles p)) (\<lambda>_. return_op i)
      else bind_op (if isNew then enqueueCoverRebuild env i else return_op ()) (\<lambda>_.
           bind_op (refreshCounters env (q\<lparr>pls_ID := i\<rparr>)) (\<lambda>_. return_op i))) db) mine"
    unfolding Let_def
    by (rule keeps_at, rule keeps_bind [OF keeps_repo_put tail]) (use assms in \<open>auto split: if_splits\<close>)
  show ?thesis
  proof (cases "cols = []")
    case True
    then show ?thesis using full by (simp add: Put_def)
  next
    case False
    then show ?thesis using assms
      by (auto simp: Put_def intro!: keeps_throw keeps_bind [OF keeps_repo_put] keeps_return)
  qed
qed

lemma keeps_track_ops:
  assumes "mine p"
  shows "keeps (trk_Add env p ids) (\<lambda>_. True)" "keeps (trk_AddAlbums env p ids) (\<lambda>_. True)"
    "keeps (trk_AddArtists env p ids) (\<lambda>_. True)" "keeps (trk_AddDiscs env p ds) (\<lambda>_. True)"
    "keeps (trk_Delete env p ids) (\<lambda>_. True)" "keeps (trk_DeleteAll env p) (\<lambda>_. True)"
    "keeps (trk_Reorder env p pos newPos) (\<lambda>_. True)"
proof -
  show add: "keeps (trk_Add env p ids) (\<lambda>_. True)" for ids
    unfolding trk_Add_def using assms
    by (auto intro!: keeps_unit keeps_bind [OF keeps_statement [where Q = "\<lambda>_. True"]] keeps_bind [OF keeps_addTracks]
        simp: Let_def split: if_splits)
  have sel: "keeps (addMediaFileIds env p cond) (\<lambda>_. True)" for cond
    unfolding addMediaFileIds_def by (rule keeps_bind [OF keeps_select_any add])
  show "keeps (trk_AddAlbums env p ids) (\<lambda>_. True)" "keeps (trk_AddArtists env p ids) (\<lambda>_. True)"
    "keeps (trk_AddDiscs env p ds) (\<lambda>_. True)"
    by (auto simp: trk_AddAlbums_def trk_AddArtists_def trk_AddDiscs_def intro: sel keeps_unit)
  show "keeps (trk_Delete env p ids) (\<lambda>_. True)" "keeps (trk_DeleteAll env p) (\<lambda>_. True)"
    unfolding trk_Delete_def trk_DeleteAll_def
    by (intro keeps_bind [OF keeps_delete_tracks [OF assms]] keeps_renumber [OF assms]; simp)+
  show "keeps (trk_Reorder env p pos newPos) (\<lambda>_. True)"
    unfolding trk_Reorder_def
    by (auto intro!: keeps_unit keeps_update_tracks [OF assms] keeps_bind [OF keeps_update_tracks [OF assms]])
qed

lemma keeps_with_tracks:
  assumes "acts ctx" "keeps (f p) Q"
  shows "keeps (with_tracks env ctx p f) Q"
  unfolding with_tracks_def
  by (rule keeps_bind [OF keeps_Tracks [OF assms(1)]]) (use assms(2) in \<open>auto split: option.split intro: keeps_throw\<close>)

lemma keeps_Delete:
  assumes "mine i"
  shows "keeps (repo_Delete env ctx i) (\<lambda>_. True)"
  unfolding repo_Delete_def
proof (rule keeps_statement, unfold Let_def)
  let ?gone = "\<lambda>r. row_id r = i \<and> pls_userFilter ctx (row_playlist r)"
  fix db and a :: unit and db'
  assume db: "I db" and eq: "Inr ((), db\<lparr>db_rows := filter (\<lambda>r. \<not> ?gone r) (db_rows db),
      db_tracks := (if list_ex ?gone (db_rows db) then sql_delete (\<lambda>t. tr_playlist t = i) (db_tracks db) else db_tracks db)\<rparr>) =
    (Inr (a, db') :: store_error + unit \<times> playlist_db)"
  show "I db' \<and> True"
  proof (cases "list_ex ?gone (db_rows db)")
    case True
    then obtain r where r: "r \<in> set (db_rows db)" "?gone r" by (auto simp: list_ex_iff)
    have "filter (\<lambda>r. \<not> ?gone r) (db_rows db) = filter (\<lambda>r. row_id r \<noteq> i) (db_rows db)"
      by (rule filter_cong) (use r distinct_rows [OF db] in \<open>auto simp: distinct_map dest: inj_onD\<close>)
    with True eq I_delete [OF db assms] r show ?thesis by (auto simp: row_ids_def)
  next
    case False
    then have "filter (\<lambda>r. \<not> ?gone r) (db_rows db) = db_rows db" by (intro filter_True) (auto simp: list_ex_iff)
    with False eq db show ?thesis by simp
  qed
qed

lemma keeps_checkWritable:
  assumes "acts ctx"
  shows "keeps (checkWritable env ctx i) (\<lambda>p. pls_ID p = i \<and> mine i \<and> own (pls_OwnerID p) \<and>
    (u_IsAdmin (UserFrom ctx) \<or> pls_OwnerID p = u_ID (UserFrom ctx)))"
  unfolding checkWritable_def Let_def
  by (rule keeps_bind [OF keeps_Get]) (use assms in \<open>auto simp: acts_def intro!: keeps_throw keeps_return\<close>)

lemma keeps_checkTracksEditable:
  "acts ctx \<Longrightarrow> keeps (checkTracksEditable env ctx i) (\<lambda>p. pls_ID p = i \<and> mine i \<and> own (pls_OwnerID p))"
  unfolding checkTracksEditable_def
  by (rule keeps_bind [OF keeps_checkWritable]) (auto intro: keeps_throw keeps_return)

lemma keeps_updateMetadata:
  "mine (pls_ID p) \<Longrightarrow> own (pls_OwnerID p) \<Longrightarrow> keeps (updateMetadata env p name comment pub) (\<lambda>_. True)"
  unfolding updateMetadata_def Let_def
  by (rule keeps_bind [OF keeps_Put keeps_unit]) (auto split: option.splits)

lemma keeps_svc_Create:
  assumes "acts ctx"
  shows "keeps (svc_Create env ctx i name ids) (\<lambda>_. True)"
proof -
  have "keeps (if i \<noteq> [] then
       bind_op (repo_Get env ctx i) (\<lambda>pls.
         if IsSmartPlaylist pls then throw_op ErrNotAuthorized
         else if \<not> u_IsAdmin (UserFrom ctx) \<and> pls_OwnerID pls \<noteq> u_ID (UserFrom ctx) then throw_op ErrNotAuthorized
         else return_op pls)
     else return_op (zero_Playlist\<lparr>pls_Name := name, pls_OwnerID := u_ID (UserFrom ctx)\<rparr>))
    (\<lambda>p. (pls_ID p \<noteq> [] \<longrightarrow> mine (pls_ID p)) \<and> own (pls_OwnerID p))"
    using assms
    by (auto simp: acts_def zero_Playlist_def intro!: keeps_return keeps_throw keeps_bind [OF keeps_Get])
  then show ?thesis
    unfolding svc_Create_def Let_def
    by (intro keeps_WithTx) (rule keeps_bind, assumption, rule keeps_mono [OF keeps_Put], auto)
qed

lemma keeps_svc_Update:
  assumes "acts ctx"
  shows "keeps (svc_Update env ctx i name comment pub add remove) (\<lambda>_. True)"
proof -
  have check: "keeps (if add \<noteq> [] \<or> remove \<noteq> [] then checkTracksEditable env ctx i else checkWritable env ctx i)
      (\<lambda>p. pls_ID p = i \<and> mine i \<and> own (pls_OwnerID p))"
    using keeps_checkTracksEditable [OF assms] keeps_mono [OF keeps_checkWritable [OF assms]] by (auto split: if_splits)
  show ?thesis
    unfolding svc_Update_def
    by (rule keeps_bind [OF check], rule keeps_WithTx)
       (auto intro!: keeps_with_tracks assms keeps_bind [OF keeps_track_ops(5)] keeps_bind [OF keeps_track_ops(1)]
         keeps_bind [OF keeps_unit] keeps_bind [OF keeps_with_tracks [OF assms keeps_track_ops(1)]] keeps_updateMetadata keeps_unit)
qed

lemma keeps_entity:
  assumes "acts ctx"
  shows "keeps (updatePlaylistEntity env ctx i entity cols) (\<lambda>_. True)"
  unfolding updatePlaylistEntity_def Let_def
proof (rule keeps_bind [OF keeps_map_error [OF keeps_checkWritable [OF assms]]])
  fix p :: Playlist
  assume p: "pls_ID p = i \<and> mine i \<and> own (pls_OwnerID p) \<and> (u_IsAdmin (UserFrom ctx) \<or> pls_OwnerID p = u_ID (UserFrom ctx))"
  have content: "keeps (applyContentUpdate env p entity sent nc cc oc rc) (\<lambda>_. True)" if "oc \<longrightarrow> u_IsAdmin (UserFrom ctx)" for sent nc cc oc rc
    unfolding applyContentUpdate_def Let_def
    by (rule keeps_updateMetadata) (use that p assms in \<open>auto simp: acts_def\<close>)
  have flags: "keeps (applyFlagsOnly env p entity sent) (\<lambda>_. True)" for sent
    unfolding applyFlagsOnly_def Let_def
    by (auto intro!: keeps_unit keeps_bind [OF keeps_Put keeps_unit] simp: p)
  let ?oc = "sentFields cols ''ownerId'' \<and> pls_OwnerID entity \<noteq> [] \<and> pls_OwnerID entity \<noteq> pls_OwnerID p"
  show "keeps (if \<not> u_IsAdmin (UserFrom ctx) \<and> ?oc then throw_op RestPermissionDenied
     else if (sentFields cols ''name'' \<and> pls_Name entity \<noteq> pls_Name p) \<or>
         (sentFields cols ''comment'' \<and> pls_Comment entity \<noteq> pls_Comment p) \<or> ?oc \<or>
         (sentFields cols ''rules'' \<and> \<not> rulesEqual (pls_Rules p) (pls_Rules entity))
       then applyContentUpdate env p entity (sentFields cols) (sentFields cols ''name'' \<and> pls_Name entity \<noteq> pls_Name p)
         (sentFields cols ''comment'' \<and> pls_Comment entity \<noteq> pls_Comment p) ?oc
         (sentFields cols ''rules'' \<and> \<not> rulesEqual (pls_Rules p) (pls_Rules entity))
       else applyFlagsOnly env p entity (sentFields cols)) (\<lambda>_. True)"
    using content flags keeps_throw by (auto split: if_splits)
qed

lemma keeps_track_requests:
  assumes "acts ctx"
  shows "keeps (AddTracks env ctx i ids) (\<lambda>_. True)" "keeps (AddAlbums env ctx i ids) (\<lambda>_. True)"
    "keeps (AddArtists env ctx i ids) (\<lambda>_. True)" "keeps (AddDiscs env ctx i ds) (\<lambda>_. True)"
    "keeps (svc_RemoveTracks env ctx i ids) (\<lambda>_. True)" "keeps (ReorderTrack env ctx i pos newPos) (\<lambda>_. True)"
  unfolding AddTracks_def AddAlbums_def AddArtists_def AddDiscs_def svc_RemoveTracks_def ReorderTrack_def
  by (rule keeps_bind [OF keeps_checkTracksEditable [OF assms]];
      auto intro!: keeps_WithTx keeps_with_tracks [OF assms] keeps_track_ops)+

lemma keeps_image:
  assumes "acts ctx"
  shows "keeps (svc_SetImage env ctx i up) (\<lambda>_. True)" "keeps (svc_RemoveImage env ctx i rm) (\<lambda>_. True)"
  unfolding svc_SetImage_def svc_RemoveImage_def
  by (rule keeps_bind [OF keeps_checkWritable [OF assms]], rule keeps_bind [OF keeps_lift [of _ "\<lambda>_. True"]], simp,
      rule keeps_bind [OF keeps_Put keeps_enqueue]; auto)+

lemma keeps_savePlaylist: "acts ctx \<Longrightarrow> keeps (savePlaylist env ctx p) (\<lambda>_. True)"
  unfolding savePlaylist_def by (rule keeps_mono [OF keeps_Put]) (auto simp: acts_def)

lemma keeps_svc_Delete: "acts ctx \<Longrightarrow> keeps (svc_Delete env ctx i) (\<lambda>_. True)"
  unfolding svc_Delete_def by (rule keeps_bind [OF keeps_checkWritable keeps_Delete]) auto

lemma keeps_serve: "acts ctx \<Longrightarrow> keeps (serve env ctx req) (\<lambda>_. True)"
  by (cases req)
     (auto simp: rest_Delete_def TracksRepository_def
       intro!: keeps_reply keeps_GetAll keeps_Get keeps_GetWithTracks keeps_svc_Tracks keeps_Tracks keeps_GetPlaylists
         keeps_svc_Create keeps_svc_Delete keeps_svc_Update keeps_track_requests keeps_image keeps_savePlaylist keeps_entity keeps_map_error)

end

section \<open>Integrity of the tables\<close>

definition tables_ok :: "playlist_db \<Rightarrow> bool" where
  "tables_ok db \<longleftrightarrow> distinct (map row_id (db_rows db)) \<and> unique_index (db_tracks db) \<and>
     list_all (\<lambda>t. list_ex (\<lambda>r. row_id r = tr_playlist t) (db_rows db)) (db_tracks db) \<and> owner_known db"

lemma tables_ok_iff:
  "tables_ok db \<longleftrightarrow> distinct (map row_id (db_rows db)) \<and> unique_index (db_tracks db) \<and>
     tr_playlist ` set (db_tracks db) \<subseteq> row_ids db \<and> owner_known db"
proof -
  have "list_all (\<lambda>t. list_ex (\<lambda>r. row_id r = tr_playlist t) (db_rows db)) (db_tracks db) \<longleftrightarrow> tr_playlist ` set (db_tracks db) \<subseteq> row_ids db"
    unfolding list_all_iff list_ex_iff row_ids_def image_subset_iff image_iff by metis
  then show ?thesis by (simp only: tables_ok_def)
qed

lemma update_rows_ids:
  assumes "\<And>r. r \<in> set (db_rows db) \<Longrightarrow> row_id r = p \<Longrightarrow> row_id (f r) = p"
  shows "map row_id (db_rows (update_rows p f db)) = map row_id (db_rows db)" "row_ids (update_rows p f db) = row_ids db"
proof -
  show ids: "map row_id (db_rows (update_rows p f db)) = map row_id (db_rows db)"
    using assms by (auto simp: update_rows_def)
  from arg_cong [OF ids, of set] show "row_ids (update_rows p f db) = row_ids db" by (simp add: row_ids_def)
qed

lemma tables_ok_update:
  assumes ok: "tables_ok db"
    and f: "\<And>r. r \<in> set (db_rows db) \<Longrightarrow> row_id r = p \<Longrightarrow> row_id (f r) = p \<and>
      (row_owner (f r) = row_owner r \<or> row_owner (f r) \<in> set (db_users db))"
  shows "tables_ok (update_rows p f db)"
proof -
  have "owner_known (update_rows p f db)"
    using ok f by (fastforce simp: tables_ok_def owner_known_def list_all_iff update_rows_def)
  moreover have "db_tracks (update_rows p f db) = db_tracks db" by (simp add: update_rows_def)
  ultimately show ?thesis
    using ok update_rows_ids [of db p f] f by (auto simp: tables_ok_iff)
qed

interpretation integrity: playlist_invariant tables_ok "\<lambda>_. True" "\<lambda>_. True"
proof
  show "tables_ok (update_rows p f db)" if "tables_ok db" "\<And>r. touched r (f r)" for db p f
    by (rule tables_ok_update [OF that(1)]) (use touched_keys [OF that(2)] in simp)
next
  show "tables_ok (update_rows p f db)" if "tables_ok db"
    "\<And>r. r \<in> set (db_rows db) \<Longrightarrow> row_id r = p \<Longrightarrow> row_id (f r) = p \<and>
      (row_owner (f r) = row_owner r \<or> True \<and> row_owner (f r) \<in> set (db_users db))" for db p f
    by (rule tables_ok_update [OF that(1)]) (use that(2) in simp)
next
  fix db p
  assume ok: "tables_ok db"
  have "tr_playlist t \<in> row_id ` {r \<in> set (db_rows db). row_id r \<noteq> p}" if "t \<in> set (db_tracks db)" "tr_playlist t \<noteq> p" for t
  proof -
    have "tr_playlist t \<in> row_ids db" using that(1) ok by (auto simp: tables_ok_iff)
    then obtain r where "r \<in> set (db_rows db)" "tr_playlist t = row_id r" by (auto simp: row_ids_def)
    with that(2) show ?thesis by (intro image_eqI [of _ _ r]) simp_all
  qed
  with ok show "tables_ok (db\<lparr>db_rows := filter (\<lambda>r. row_id r \<noteq> p) (db_rows db), db_tracks := sql_delete (\<lambda>t. tr_playlist t = p) (db_tracks db)\<rparr>)"
    by (auto simp: tables_ok_iff sql_delete_def unique_index_def distinct_map_filter owner_known_def list_all_iff row_ids_def)
qed (auto simp: tables_ok_iff track_write_def owner_known_def row_ids_def)

section \<open>The playlists of other users\<close>

definition others :: "string \<Rightarrow> playlist_db \<Rightarrow> playlist_row list" where
  "others u db = filter (\<lambda>r. row_owner r \<noteq> u) (db_rows db)"

definition foreign :: "string \<Rightarrow> playlist_db \<Rightarrow> playlist_row list \<times> track_row list" where
  "foreign u db = (others u db, filter (\<lambda>t. list_ex (\<lambda>r. row_id r = tr_playlist t) (others u db)) (db_tracks db))"

definition foreign_kept :: "string \<Rightarrow> playlist_row list \<times> track_row list \<Rightarrow> playlist_db \<Rightarrow> bool" where
  "foreign_kept u F db \<longleftrightarrow> distinct (map row_id (db_rows db)) \<and> foreign u db = F"

lemma foreign_eqI:
  assumes "others u db' = others u db"
    and "filter (\<lambda>t. tr_playlist t \<in> row_id ` set (others u db)) (db_tracks db') =
      filter (\<lambda>t. tr_playlist t \<in> row_id ` set (others u db)) (db_tracks db)"
  shows "foreign u db' = foreign u db"
proof -
  have "list_ex (\<lambda>r. row_id r = tr_playlist t) (others u db) \<longleftrightarrow> tr_playlist t \<in> row_id ` set (others u db)" for t :: track_row
    unfolding list_ex_iff image_iff by metis
  then show ?thesis using assms by (simp add: foreign_def)
qed

lemma filter_weaker:
  assumes "filter P xs = filter P ys" "\<And>x. Q x \<Longrightarrow> P x"
  shows "filter Q xs = filter Q ys"
proof -
  have "filter Q zs = filter Q (filter P zs)" for zs by (simp add: assms(2)) (metis assms(2))
  then show ?thesis using assms(1) by metis
qed

lemma others_row_owner:
  assumes "distinct (map row_id (db_rows db))" "r \<in> set (db_rows db)" "row_id r \<notin> row_id ` set (others u db)"
  shows "row_owner r = u"
  using assms by (auto simp: others_def)

lemma foreign_kept_update:
  assumes ok: "foreign_kept u F db" and p: "p \<notin> row_id ` set (fst F)"
    and f: "\<And>r. r \<in> set (db_rows db) \<Longrightarrow> row_id r = p \<Longrightarrow> row_id (f r) = p \<and> (row_owner (f r) = row_owner r \<or> row_owner (f r) = u)"
  shows "foreign_kept u F (update_rows p f db)"
proof -
  have mine: "row_owner r = u" if "r \<in> set (db_rows db)" "row_id r = p" for r
    using that p ok others_row_owner [of db r u] by (auto simp: foreign_kept_def foreign_def)
  have "filter (\<lambda>r. row_owner r \<noteq> u) (map (\<lambda>r. if row_id r = p then f r else r) rs) = filter (\<lambda>r. row_owner r \<noteq> u) rs"
    if "set rs \<subseteq> set (db_rows db)" for rs
    using that by (induction rs) (use f mine in \<open>auto\<close>)
  then have "others u (update_rows p f db) = others u db" by (simp add: others_def update_rows_def)
  then have "foreign u (update_rows p f db) = foreign u db"
    by (rule foreign_eqI) (simp add: update_rows_def)
  with ok update_rows_ids(1) [of db p f] f show ?thesis
    by (simp add: foreign_kept_def)
qed

interpretation privacy: playlist_invariant "foreign_kept u F" "\<lambda>p. p \<notin> row_id ` set (fst F)" "\<lambda>o'. o' = u" for u F
proof
  fix db p rows'
  assume ok: "foreign_kept u F db" and p: "p \<notin> row_id ` set (fst F)" and w: "track_write p db rows'"
  have "foreign u (db\<lparr>db_tracks := rows'\<rparr>) = foreign u db"
  proof (rule foreign_eqI)
    show "filter (\<lambda>t. tr_playlist t \<in> row_id ` set (others u db)) (db_tracks (db\<lparr>db_tracks := rows'\<rparr>)) =
        filter (\<lambda>t. tr_playlist t \<in> row_id ` set (others u db)) (db_tracks db)"
      by (rule filter_weaker [where P = "\<lambda>t. tr_playlist t \<noteq> p"])
         (use w p ok in \<open>auto simp: track_write_def foreign_kept_def foreign_def\<close>)
  qed (simp add: others_def)
  with ok show "foreign_kept u F (db\<lparr>db_tracks := rows'\<rparr>)" by (simp add: foreign_kept_def)
next
  show "foreign_kept u F (update_rows p f db)" if "foreign_kept u F db" "p \<notin> row_id ` set (fst F)" "\<And>r. touched r (f r)" for db p f
    by (rule foreign_kept_update [OF that(1,2)]) (use touched_keys [OF that(3)] in simp)
next
  show "foreign_kept u F (update_rows p f db)" if "foreign_kept u F db" "p \<notin> row_id ` set (fst F)"
    "\<And>r. r \<in> set (db_rows db) \<Longrightarrow> row_id r = p \<Longrightarrow> row_id (f r) = p \<and>
      (row_owner (f r) = row_owner r \<or> row_owner (f r) = u \<and> row_owner (f r) \<in> set (db_users db))" for db p f
    by (rule foreign_kept_update [OF that(1,2)]) (use that(3) in blast)
next
  fix db r
  assume ok: "foreign_kept u F db" and r: "row_id r \<notin> row_ids db" "row_owner r = u"
  have "foreign u (db\<lparr>db_rows := db_rows db @ [r]\<rparr>) = foreign u db"
    by (rule foreign_eqI) (simp_all add: others_def r(2))
  with ok r show "foreign_kept u F (db\<lparr>db_rows := db_rows db @ [r]\<rparr>)" by (simp add: foreign_kept_def row_ids_def)
next
  fix db p
  assume ok: "foreign_kept u F db" and p: "p \<notin> row_id ` set (fst F)"
  let ?db = "db\<lparr>db_rows := filter (\<lambda>r. row_id r \<noteq> p) (db_rows db), db_tracks := sql_delete (\<lambda>t. tr_playlist t = p) (db_tracks db)\<rparr>"
  have pn: "p \<notin> row_id ` set (others u db)" using p ok by (auto simp: foreign_kept_def foreign_def)
  have "foreign u ?db = foreign u db"
  proof (rule foreign_eqI)
    show "others u ?db = others u db"
      unfolding others_def by (simp, rule filter_cong) (use pn in \<open>auto simp: others_def\<close>)
    show "filter (\<lambda>t. tr_playlist t \<in> row_id ` set (others u db)) (db_tracks ?db) =
        filter (\<lambda>t. tr_playlist t \<in> row_id ` set (others u db)) (db_tracks db)"
      by (simp add: sql_delete_def, rule filter_cong) (use pn in auto)
  qed
  with ok show "foreign_kept u F ?db" by (simp add: foreign_kept_def distinct_map_filter)
next
  fix db r
  assume ok: "foreign_kept u F db" and r: "r \<in> set (db_rows db)" "row_owner r = u"
  have "row_id r \<noteq> row_id s" if "s \<in> set (others u db)" for s
    using that r ok by (auto simp: others_def foreign_kept_def distinct_map dest: inj_onD)
  moreover have "fst F = others u db" using ok by (auto simp: foreign_kept_def foreign_def)
  ultimately show "row_id r \<notin> row_id ` set (fst F)" by (metis image_iff)
qed (auto simp: foreign_kept_def foreign_def others_def row_ids_def)

end
