(* ===== verification/Playlist_Refresh.thy ===== *)
theory Playlist_Refresh
  imports Playlist_Invariants
begin

text \<open>
  The recursion of \<open>refreshSmartPlaylist\<close>: a refresh calls itself on the playlists its rules name, with no
  guard against cycles. It returns when the references have no cycle; a playlist that names itself
  exhausts any stack.
\<close>

section \<open>References\<close>

definition rules_of :: "playlist_db \<Rightarrow> (string \<times> val option) list" where
  "rules_of db = map (\<lambda>r. (row_id r, row_rules r)) (db_rows db)"

text \<open>A ranking of the playlists that every reference to an existing playlist descends.\<close>

definition descends :: "playlist_env \<Rightarrow> (string \<Rightarrow> nat) \<Rightarrow> (string \<times> val option) list \<Rightarrow> bool" where
  "descends env rk R \<longleftrightarrow>
     list_all (\<lambda>(i, doc). case scan_rules env doc of
         Inr (Some c) \<Rightarrow> list_all (\<lambda>j. list_ex (\<lambda>(k, _). k = j) R \<longrightarrow> rk j < rk i) (ChildPlaylistIds c)
       | _ \<Rightarrow> True) R"

definition loaded :: "playlist_env \<Rightarrow> (string \<times> val option) list \<Rightarrow> Playlist \<Rightarrow> bool" where
  "loaded env R pls \<longleftrightarrow> list_ex (\<lambda>(i, doc). pls_ID pls = i \<and> scan_rules env doc = Inr (pls_Rules pls)) R"

lemma rules_of_update:
  "(\<And>r. touched r (f r)) \<Longrightarrow> rules_of (update_rows p f db) = rules_of db"
  using touched_keys by (auto simp: rules_of_def update_rows_def)

interpretation references: refresh_invariant "\<lambda>db. rules_of db = R" "\<lambda>_. True" "\<lambda>_. True" for R
  by unfold_locales (auto simp: rules_of_update, auto simp: rules_of_def)

lemma references_acts: "references.acts ctx"
  by (simp add: references.acts_def)

lemma PostScan_loaded: "PostScan env r = Inr p \<Longrightarrow> r \<in> set (db_rows db) \<Longrightarrow> loaded env (rules_of db) p"
  by (force simp: PostScan_def bind_result_Inr loaded_def rules_of_def list_ex_iff row_id_def)

lemma keeps_loaded:
  "references.keeps R (repo_GetAll env ctx (\<lambda>p. pls_ID p \<in> set ids)) (\<lambda>ps. \<forall>p\<in>set ps. loaded env R p \<and> pls_ID p \<in> set ids)"
proof -
  have "references.keeps R (select env (\<lambda>db. filter (\<lambda>r. row_owner r \<in> set (db_users db) \<and>
      (pls_ID (row_playlist r) \<in> set ids \<and> pls_userFilter ctx (row_playlist r))) (db_rows db)))
    (\<lambda>rs. \<forall>r\<in>set rs. row_id r \<in> set ids \<and> (\<forall>p. PostScan env r = Inr p \<longrightarrow> loaded env R p))"
    by (rule references.keeps_select) (auto simp: row_id_def intro: PostScan_loaded)
  then show ?thesis
    unfolding repo_GetAll_def selectPlaylist_def
  proof (rule references.keeps_bind)
    fix rs assume rs: "\<forall>r\<in>set rs. row_id r \<in> set ids \<and> (\<forall>p. PostScan env r = Inr p \<longrightarrow> loaded env R p)"
    show "references.keeps R (lift_op (collect (map (PostScan env) rs))) (\<lambda>ps. \<forall>p\<in>set ps. loaded env R p \<and> pls_ID p \<in> set ids)"
    proof (intro references.keeps_lift ballI)
      fix ps p assume "collect (map (PostScan env) rs) = Inr ps" "p \<in> set ps"
      then obtain r where "r \<in> set rs" "PostScan env r = Inr p" by (fastforce dest: collect_set)
      with rs PostScan_keys [of env r p] show "loaded env R p \<and> pls_ID p \<in> set ids" by auto
    qed
  qed
qed

section \<open>Operations that do not recurse\<close>

definition shallow :: "'a db_op \<Rightarrow> bool" where
  "shallow m \<longleftrightarrow> (\<forall>db. fst (m db) \<noteq> Inl StackOverflow)"

lemma shallow_basic: "shallow (return_op a)" "e \<noteq> StackOverflow \<Longrightarrow> shallow (throw_op e)" "r \<noteq> Inl StackOverflow \<Longrightarrow> shallow (lift_op r)"
  by (simp_all add: shallow_def return_op_def throw_op_def lift_op_def)

lemma shallow_bind: "shallow m \<Longrightarrow> (\<And>a. shallow (k a)) \<Longrightarrow> shallow (bind_op m k)"
  unfolding shallow_def bind_op_def by (auto split: prod.splits sum.splits) (metis fst_conv)

lemma shallow_statement: "(\<And>db. f db \<noteq> Inl StackOverflow) \<Longrightarrow> shallow (statement env f)"
  unfolding shallow_def statement_def Let_def by (auto split: sum.splits)

lemma shallow_select: "shallow (select env f)"
  unfolding select_def by (rule shallow_statement) simp

lemma shallow_try: "shallow m \<Longrightarrow> shallow (try_op m)"
  unfolding shallow_def try_op_def by (auto split: prod.splits) (metis fst_conv)

lemma shallow_track_statement: "shallow (track_statement env f)"
  unfolding track_statement_def by (rule shallow_statement) (auto split: sum.splits)

lemma collect_overflow: "collect xs = Inl e \<Longrightarrow> Inl e \<in> set xs"
  by (induction xs) (auto simp: bind_result_def split: sum.splits)

lemma PostScan_shallow: "PostScan env r \<noteq> Inl StackOverflow"
  by (auto simp: PostScan_def scan_rules_def bind_result_def split: option.splits val.splits sum.splits)

lemma shallow_GetAll: "shallow (repo_GetAll env ctx cond)"
  unfolding repo_GetAll_def selectPlaylist_def
  by (rule shallow_bind [OF shallow_select], rule shallow_basic) (use PostScan_shallow in \<open>fastforce dest: collect_overflow\<close>)

lemma shallow_fill: "shallow (fill_playlist env ctx pls c)"
proof -
  have lib: "shallow (applyLibraryFilter env ctx)"
    unfolding applyLibraryFilter_def userSeesAllLibraries_def Let_def
    by (auto intro!: shallow_bind shallow_basic shallow_try shallow_select)
  have query: "shallow (matching_query env ctx usr now joins c)" for usr now joins c
    unfolding matching_query_def by (rule shallow_bind [OF lib]) (auto split: sum.split intro: shallow_basic)
  have limit: "shallow (resolvePercentageLimit env ctx usr now c)" for usr now
    unfolding resolvePercentageLimit_def by (auto intro!: shallow_basic shallow_bind [OF query] shallow_bind [OF shallow_select])
  have ins: "shallow (insert_selected env p c q)" for p c q
    unfolding insert_selected_def
    by (rule shallow_statement) (auto simp: bind_result_def limited_def insert_tracks_def split: sum.splits)
  have counters: "shallow (refreshCounters env pls)"
    unfolding refreshCounters_def
    by (intro shallow_bind [OF shallow_select]) (auto intro!: shallow_bind shallow_basic shallow_statement)
  have evaluated: "shallow (set_evaluated env p)" for p
    unfolding set_evaluated_def by (rule shallow_statement) (simp add: Let_def)
  have "shallow (bind_op (resolvePercentageLimit env ctx usr now c) (\<lambda>c'. bind_op (matching_query env ctx usr now (RequiredJoins (criteria_env env usr now) c') c') (\<lambda>q.
      bind_op (insert_selected env (pls_ID pls) c' (q\<lparr>sm_order := OrderBy (criteria_env env usr now) c'\<rparr>)) (\<lambda>_.
      bind_op (refreshCounters env pls) (\<lambda>pls1. bind_op (set_evaluated env (pls_ID pls)) (\<lambda>at'. return_op (pls1\<lparr>pls_EvaluatedAt := Some at'\<rparr>)))))))" for usr now
    by (intro shallow_bind [OF limit] shallow_bind [OF query] shallow_bind [OF ins] shallow_bind [OF counters] shallow_bind [OF evaluated] shallow_basic)
  then show ?thesis unfolding fill_playlist_def Let_def shallow_def by blast
qed

section \<open>Enough stack\<close>

text \<open>The operation does not overflow in a state with the rules \<open>R\<close>.\<close>

definition fits :: "(string \<times> val option) list \<Rightarrow> 'a db_op \<Rightarrow> bool" where
  "fits R m \<longleftrightarrow> (\<forall>db. rules_of db = R \<longrightarrow> fst (m db) \<noteq> Inl StackOverflow)"

lemma fits_shallow: "shallow m \<Longrightarrow> fits R m"
  by (simp add: fits_def shallow_def)

lemma fits_bind:
  "fits R m \<Longrightarrow> references.keeps R m Q \<Longrightarrow> (\<And>a. Q a \<Longrightarrow> fits R (k a)) \<Longrightarrow> fits R (bind_op m k)"
  unfolding fits_def references.keeps_def bind_op_def
  by (auto split: prod.splits sum.splits)

lemma fits_try: "fits R m \<Longrightarrow> fits R (try_op m)"
  unfolding fits_def try_op_def by (auto split: prod.splits)

lemma fits_then: "fits R m \<Longrightarrow> fits R (bind_op m (\<lambda>a. return_op (g a)))"
  unfolding fits_def bind_op_def return_op_def by (auto split: prod.splits sum.splits)

lemma fits_each:
  assumes "\<And>p. p \<in> set ps \<Longrightarrow> fits R (refreshSmartPlaylist n env ctx p)"
  shows "fits R (refresh_each (refreshSmartPlaylist n env ctx) ps)"
  using assms
proof (induction ps)
  case (Cons p ps)
  have "references.keeps R (refreshSmartPlaylist n env ctx p) (\<lambda>_. True)"
    by (rule references.keeps_refresh [OF references_acts]) simp
  then show ?case using Cons by (auto intro!: fits_bind)
qed (auto intro: fits_shallow shallow_basic)

lemma child_descends:
  assumes "descends env rk R" "loaded env R pls" "pls_Rules pls = Some c" "loaded env R q" "pls_ID q \<in> set (ChildPlaylistIds c)"
  shows "rk (pls_ID q) < rk (pls_ID pls)"
proof -
  obtain doc where "(pls_ID pls, doc) \<in> set R" "scan_rules env doc = Inr (Some c)"
    using assms(2,3) by (auto simp: loaded_def list_ex_iff)
  with assms(1) have all: "list_all (\<lambda>j. list_ex (\<lambda>(k, _). k = j) R \<longrightarrow> rk j < rk (pls_ID pls)) (ChildPlaylistIds c)"
    by (fastforce simp: descends_def list_all_iff)
  have "list_ex (\<lambda>(k, _). k = pls_ID q) R" using assms(4) by (auto simp: loaded_def list_ex_iff)
  with all assms(5) show ?thesis by (auto simp: list_all_iff)
qed

lemma refresh_fits:
  "descends env rk R \<Longrightarrow> loaded env R pls \<Longrightarrow> rk (pls_ID pls) < n \<Longrightarrow> fits R (refreshSmartPlaylist n env ctx pls)"
proof (induction n arbitrary: pls)
  case (Suc n)
  show ?case
  proof (cases "pls_Rules pls")
    case None
    then show ?thesis by (simp add: fits_def)
  next
    case (Some c)
    let ?children = "refreshChildPlaylists (refreshSmartPlaylist n env ctx) env ctx c"
    have "fits R (refresh_each (refreshSmartPlaylist n env ctx) ps)"
      if "\<forall>p\<in>set ps. loaded env R p \<and> pls_ID p \<in> set (ChildPlaylistIds c)" for ps
    proof (rule fits_each, rule Suc.IH [OF Suc.prems(1)])
      fix p assume "p \<in> set ps"
      with that show "loaded env R p" by blast
      show "rk (pls_ID p) < n"
        using child_descends [OF Suc.prems(1,2) Some] that \<open>p \<in> set ps\<close> Suc.prems(3) by fastforce
    qed
    then have children: "fits R ?children"
      unfolding refreshChildPlaylists_def
      by (auto intro: fits_shallow shallow_basic intro!: fits_bind [OF fits_shallow [OF shallow_GetAll] keeps_loaded])
    have kept: "references.keeps R ?children (\<lambda>_. True)"
      unfolding refreshChildPlaylists_def
      by (auto intro!: references.keeps_unit references.keeps_bind [OF references.keeps_GetAll] references.keeps_each
          references.keeps_refresh [OF references_acts])
    have "fits R (bind_op (track_statement env (\<lambda>rows. Inr (sql_delete (\<lambda>t. tr_playlist t = pls_ID pls) rows))) (\<lambda>_.
        bind_op ?children (\<lambda>_. fill_playlist env ctx pls c)))"
      by (rule fits_bind [OF fits_shallow [OF shallow_track_statement] references.keeps_delete_tracks], simp, simp,
          rule fits_bind [OF children kept fits_shallow [OF shallow_fill]])
    then have "fits R (bind_op (try_op (bind_op (track_statement env (\<lambda>rows. Inr (sql_delete (\<lambda>t. tr_playlist t = pls_ID pls) rows))) (\<lambda>_.
        bind_op ?children (\<lambda>_. fill_playlist env ctx pls c))))
        (\<lambda>r. return_op (case r of Inl _ \<Rightarrow> (False, pls) | Inr pls' \<Rightarrow> (True, pls'))))" (is "fits R ?body")
      by (rule fits_then [OF fits_try])
    then show ?thesis using Some by (auto simp: fits_def)
  qed
qed simp

section \<open>A playlist that names itself\<close>

lemma filter_unique: "distinct (map f xs) \<Longrightarrow> x \<in> set xs \<Longrightarrow> P x \<Longrightarrow> (\<And>y. P y \<Longrightarrow> f y = f x) \<Longrightarrow> filter P xs = [x]"
proof (induction xs)
  case (Cons y ys)
  show ?case
  proof (cases "y = x")
    case True
    have "\<not> P z" if "z \<in> set ys" for z
    proof
      assume "P z"
      then have "f z = f x" by (rule Cons.prems(4))
      then have "f x \<in> f ` set ys" using that by (metis image_eqI)
      with True Cons.prems(1) show False by simp
    qed
    then have "filter P ys = []" by (simp add: filter_empty_conv)
    with True Cons.prems(3) show ?thesis by simp
  next
    case False
    then have "x \<in> set ys" using Cons.prems by simp
    moreover have "\<not> P y"
    proof
      assume "P y"
      then have "f y = f x" by (rule Cons.prems(4))
      with \<open>x \<in> set ys\<close> Cons.prems(1) show False by auto
    qed
    ultimately show ?thesis using Cons.IH [OF _ \<open>x \<in> set ys\<close> Cons.prems(3,4)] Cons.prems(1) by simp
  qed
qed simp

text \<open>
  A smart playlist whose rules name the playlist itself exhausts the stack, whatever its size: the inner
  refresh finds the playlist as stale as the outer one did.
\<close>

lemma self_reference_overflows:
  assumes "\<And>n. \<not> st_fails env n" "distinct (map row_id (db_rows db))" "r \<in> set (db_rows db)"
    and "PostScan env r = Inr pls" "pls_Rules pls = Some c" "ChildPlaylistIds c = [pls_ID pls]"
    and "IsSmartPlaylist pls" "pls_EvaluatedAt pls = None" "pls_OwnerID pls = u_ID (loggedUser ctx)"
    and "u_ID (loggedUser ctx) \<in> set (db_users db)"
  shows "fst (refreshSmartPlaylist n env ctx pls db) = Inl StackOverflow"
  using assms(2,3,10)
proof (induction n arbitrary: db)
  case (Suc n)
  note keys = PostScan_keys [OF assms(4)]
  have should: "shouldRefreshSmartPlaylist env t pls (loggedUser ctx)" for t
    using assms(7-9) by (simp add: shouldRefreshSmartPlaylist_def)
  let ?db1 = "db\<lparr>db_clock := Suc (db_clock db), db_tracks := sql_delete (\<lambda>t. tr_playlist t = pls_ID pls) (db_tracks db)\<rparr>"
  let ?db2 = "?db1\<lparr>db_clock := Suc (Suc (db_clock db))\<rparr>"
  have del: "track_statement env (\<lambda>rows. Inr (sql_delete (\<lambda>t. tr_playlist t = pls_ID pls) rows)) db = (Inr (), ?db1)"
    using assms(1) by (simp add: track_statement_def statement_def)
  have "filter (\<lambda>s. row_owner s \<in> set (db_users db) \<and> pls_ID (row_playlist s) = pls_ID pls \<and> pls_userFilter ctx (row_playlist s)) (db_rows db) = [r]"
    by (rule filter_unique [OF Suc.prems(1,2)])
       (use keys assms(9) Suc.prems(3) in \<open>auto simp: row_id_def row_owner_def pls_userFilter_def Let_def\<close>)
  then have children: "repo_GetAll env ctx (\<lambda>p. pls_ID p \<in> set (ChildPlaylistIds c)) ?db1 = (Inr [pls], ?db2)"
    using assms(1,4,6)
    by (simp add: repo_GetAll_def selectPlaylist_def bind_op_def select_def statement_def lift_op_def)
  have inner: "fst (refreshSmartPlaylist n env ctx pls ?db2) = Inl StackOverflow"
    by (rule Suc.IH) (use Suc.prems in simp_all)
  obtain db3 where db3: "refreshSmartPlaylist n env ctx pls ?db2 = (Inl StackOverflow, db3)"
    using inner by (cases "refreshSmartPlaylist n env ctx pls ?db2") simp
  show ?case
    using assms(5,6) should del children db3
    by (simp add: bind_op_def try_op_def refreshChildPlaylists_def)
qed (simp add: throw_op_def)

section \<open>Properties\<close>

text \<open>
  C21. Refreshing a smart playlist comes to an end. If the references between playlists descend some
  ranking - there is no cycle - a refresh returns, whichever statements fail, with as many nested calls as
  the rank of the playlist: it says whether it went through, and never exhausts a stack of that depth.
\<close>

theorem smart_refresh_returns:
  assumes "descends env rk (rules_of db)" "loaded env (rules_of db) pls" "rk (pls_ID pls) < n"
  shows "\<exists>done' pls'. fst (refreshSmartPlaylist n env ctx pls db) = Inr (done', pls')"
proof -
  have over: "fst (refreshSmartPlaylist n env ctx pls db) \<noteq> Inl StackOverflow"
    using refresh_fits [OF assms] by (simp add: fits_def)
  have "fst (refreshSmartPlaylist n env ctx pls db) = Inl e \<Longrightarrow> e = StackOverflow" for e
    by (cases n) (auto simp: bind_op_def try_op_def return_op_def throw_op_def split: option.splits if_splits prod.splits sum.splits)
  with over show ?thesis by (cases "fst (refreshSmartPlaylist n env ctx pls db)") auto
qed

text \<open>A database with a playlist \<open>p\<close> of Ann's, a smart playlist \<open>s\<close> over it, and one, \<open>t\<close>, that names itself.\<close>

definition sample_store :: playlist_env where
  "sample_store =
     \<lparr>st_fails = (\<lambda>_. False), st_now = int, st_newId = (\<lambda>n. CHR ''n'' # Itoa (int n)),
      st_select = (\<lambda>q db. map (\<lambda>(i, m). (int i, m)) (enumerate 1 (map mf_ID (db_media db)))),
      st_orderMedia = (\<lambda>ms. ms), st_position = Atoi, st_sumDuration = (\<lambda>_. 0), st_add32 = (\<lambda>a b. a), st_refreshDelay = 60, st_depth = 9,
      st_fields = fieldMap, st_members = (\<lambda>es. es), st_floats = whole_floats, st_raw = (\<lambda>_ _ v. Inr v),
      st_format = (\<lambda>_. ''v''), st_parseFloat = (\<lambda>_. None), st_date = (\<lambda>_. ''2026-01-01'')\<rparr>"

definition in_list :: "string \<Rightarrow> val" where
  "in_list i = VObj [(''all'', VArr [VObj [(''inPlaylist'', VObj [(''id'', VStr i)])]])]"

definition sample_list :: "string \<Rightarrow> string \<Rightarrow> val option \<Rightarrow> playlist_row" where
  "sample_list i o' doc = \<lparr>row_playlist = zero_Playlist\<lparr>pls_ID := i, pls_OwnerID := o'\<rparr>, row_rules = doc\<rparr>"

definition sample_song :: "string \<Rightarrow> media_row" where
  "sample_song i = MediaFile.extend (zero_MediaFile\<lparr>mf_ID := i, mf_Size := 10, mf_LibraryID := 1\<rparr>) \<lparr>mr_Missing = False, mr_ReleaseDate = []\<rparr>"

definition sample_tables :: playlist_db where
  "sample_tables =
     \<lparr>db_rows = [sample_list ''p'' ''ann'' None, sample_list ''s'' ''ann'' (Some (in_list ''p'')),
        sample_list ''t'' ''ann'' (Some (in_list ''t'')), sample_list ''q'' ''eve'' None],
      db_tracks = number_from ''p'' 1 [''a'', ''b'', ''c''] @ number_from ''q'' 1 [''c''],
      db_media = [sample_song ''a'', sample_song ''b'', sample_song ''c''], db_users = [''ann'', ''eve''], db_libraries = [1],
      db_user_library = [(''ann'', 1)], db_covers = [], db_clock = 0\<rparr>"

definition sample_member :: "string \<Rightarrow> User" where
  "sample_member i = zero_User\<lparr>u_ID := i, u_Libraries := [1]\<rparr>"

definition smart_rules :: "string \<Rightarrow> Criteria" where
  "smart_rules i = \<lparr>cr_Expression = Some (All [Rule InPlaylist [(''id'', VStr i)]]), cr_Sort = [], cr_Order = [], cr_Limit = 0,
     cr_LimitPercent = 0, cr_Offset = 0, cr_RefreshDelay = 0\<rparr>"

definition smart_list :: "string \<Rightarrow> Playlist" where
  "smart_list i = zero_Playlist\<lparr>pls_ID := i, pls_OwnerID := ''ann'', pls_Rules := Some (smart_rules (if i = ''s'' then ''p'' else i))\<rparr>"

theorem smart_refresh_returns_witness:
  "\<exists>done' pls'. fst (refreshSmartPlaylist 2 sample_store (Some (sample_member ''ann'')) (smart_list ''s'')
     (sample_tables\<lparr>db_rows := filter (\<lambda>r. row_id r \<noteq> ''t'') (db_rows sample_tables)\<rparr>)) = Inr (done', pls')"
proof (rule smart_refresh_returns)
  let ?db = "sample_tables\<lparr>db_rows := filter (\<lambda>r. row_id r \<noteq> ''t'') (db_rows sample_tables)\<rparr>"
  show "descends sample_store (\<lambda>i. if i = ''s'' then 1 else 0) (rules_of ?db)" "loaded sample_store (rules_of ?db) (smart_list ''s'')"
    by code_simp+
  show "(if pls_ID (smart_list ''s'') = ''s'' then 1 else 0) < (2::nat)" by simp
qed

lemma self_reference_sample:
  "fst (refreshSmartPlaylist n sample_store (Some (sample_member ''ann'')) (smart_list ''t'') sample_tables) = Inl StackOverflow"
proof (rule self_reference_overflows [where c = "smart_rules ''t''"])
  show "\<not> st_fails sample_store m" for m by (simp add: sample_store_def)
  show "PostScan sample_store (sample_list ''t'' ''ann'' (Some (in_list ''t''))) = Inr (smart_list ''t'')"
    "distinct (map row_id (db_rows sample_tables))" "ChildPlaylistIds (smart_rules ''t'') = [pls_ID (smart_list ''t'')]"
    "u_ID (loggedUser (Some (sample_member ''ann''))) \<in> set (db_users sample_tables)" "IsSmartPlaylist (smart_list ''t'')"
    by code_simp+
qed (simp_all add: sample_tables_def smart_list_def zero_Playlist_def loggedUser_def sample_member_def)

text \<open>
  A refresh deletes the old tracks first and runs outside a transaction: when the next statement fails, the
  smart playlist is left empty.
\<close>

lemma failed_refresh_loses_tracks:
  assumes "pls_Rules pls = Some c" "ChildPlaylistIds c \<noteq> []"
    and "shouldRefreshSmartPlaylist env (st_now env (db_clock db)) pls (loggedUser ctx)"
    and "\<not> st_fails env (db_clock db)" "st_fails env (Suc (db_clock db))"
  shows "refreshSmartPlaylist (Suc n) env ctx pls db =
    (Inr (False, pls), db\<lparr>db_clock := Suc (Suc (db_clock db)), db_tracks := sql_delete (\<lambda>t. tr_playlist t = pls_ID pls) (db_tracks db)\<rparr>)"
  using assms
  by (simp add: bind_op_def try_op_def return_op_def track_statement_def statement_def refreshChildPlaylists_def repo_GetAll_def
      selectPlaylist_def select_def)

text \<open>The number of songs and the size pass through a \<open>float32\<close>: above \<open>2^24\<close> they are rounded.\<close>

lemma counters_rounded: "f32_of_int 16777217 = 16777216"
proof -
  have "excess_bits 8388608 = 0" by (subst excess_bits.simps) simp
  then have "excess_bits 16777217 = 1" by (subst excess_bits.simps) simp
  then show ?thesis by (simp add: f32_of_int_def Let_def)
qed

end
