(* ===== verification/Playlist_Update.thy ===== *)
theory Playlist_Update
  imports Playlist_Refresh
begin

text \<open>
  What \<open>Update\<close> does when no statement fails: from the service through the repository's statements down to
  the list of tracks that the rows hold (the refinement of \<open>Playlist_Tracks\<close>).
\<close>

definition calm :: "playlist_env \<Rightarrow> bool" where
  "calm env \<longleftrightarrow> (\<forall>n. \<not> st_fails env n)"

text \<open>
  The tables while an edit of playlist \<open>p\<close> runs: the tracks are \<open>T\<close>, and of the rows \<open>rows0\<close> it started
  with only that of \<open>p\<close> may have new counters.
\<close>

definition kept_row :: "string \<Rightarrow> playlist_row \<Rightarrow> playlist_row \<Rightarrow> bool" where
  "kept_row p r r' \<longleftrightarrow> (if row_id r = p then touched r r' else r' = r)"

definition editing :: "string \<Rightarrow> playlist_row list \<Rightarrow> string list \<Rightarrow> track_row list \<Rightarrow> playlist_db \<Rightarrow> bool" where
  "editing p rows0 us T db \<longleftrightarrow> db_users db = us \<and> db_tracks db = T \<and>
     list_all2 (kept_row p) rows0 (db_rows db)"

lemma touched_refl: "touched r r"
proof -
  have "r = r\<lparr>row_playlist := (row_playlist r)\<lparr>pls_EvaluatedAt := pls_EvaluatedAt (row_playlist r)\<rparr>\<rparr>" by simp
  then show ?thesis using touchedI(2) by metis
qed

lemma touched_trans: "touched r s \<Longrightarrow> touched s t \<Longrightarrow> touched r t"
  unfolding touched_def by clarsimp blast

lemma editing_start: "editing p (db_rows db) (db_users db) (db_tracks db) db"
  by (auto simp: editing_def kept_row_def touched_refl intro!: list_all2_refl)

lemma editing_clock: "editing p rows0 us T db \<Longrightarrow> editing p rows0 us T (db\<lparr>db_clock := n\<rparr>)"
  by (simp add: editing_def)

lemma editing_ids:
  assumes "editing p rows0 us T db"
  shows "map row_id (db_rows db) = map row_id rows0"
proof -
  have "list_all2 (\<lambda>r r'. row_id r' = row_id r) rows0 (db_rows db)"
    using assms unfolding editing_def
    by (auto elim!: list_all2_mono dest: touched_keys simp: kept_row_def split: if_splits)
  then show ?thesis by (induction rule: list_all2_induct) simp_all
qed

lemma editing_update:
  assumes "editing p rows0 us T db" "\<And>r. touched r (f r)"
  shows "editing p rows0 us T (update_rows p f db)"
proof -
  have "list_all2 (kept_row p) rows0
      (map (\<lambda>r. if row_id r = p then f r else r) (db_rows db))"
    unfolding list_all2_map2
    using assms(1) unfolding editing_def
    by (auto elim!: list_all2_mono dest: touched_keys intro: touched_trans [OF _ assms(2)] simp: kept_row_def)
  then show ?thesis using assms(1) by (simp add: editing_def update_rows_def)
qed

text \<open>An operation succeeds and leads to a state in which \<open>P\<close> holds.\<close>

definition yields :: "'a db_op \<Rightarrow> playlist_db \<Rightarrow> ('a \<Rightarrow> playlist_db \<Rightarrow> bool) \<Rightarrow> bool" where
  "yields m db P \<longleftrightarrow> (\<exists>a db'. m db = (Inr a, db') \<and> P a db')"

lemma yields_bind: "yields m db P \<Longrightarrow> (\<And>a db'. P a db' \<Longrightarrow> yields (k a) db' Q) \<Longrightarrow> yields (bind_op m k) db Q"
  unfolding yields_def bind_op_def by fastforce

lemma yields_return: "P a db \<Longrightarrow> yields (return_op a) db P"
  by (simp add: yields_def return_op_def)

lemma yields_mono: "yields m db P \<Longrightarrow> (\<And>a db'. P a db' \<Longrightarrow> Q a db') \<Longrightarrow> yields m db Q"
  unfolding yields_def by blast

lemma yields_statement:
  assumes "calm env" "f (db\<lparr>db_clock := Suc (db_clock db)\<rparr>) = Inr (a, db')" "P a db'"
  shows "yields (statement env f) db P"
  using assms by (simp add: yields_def calm_def statement_def Let_def)

lemma yields_select:
  assumes "calm env" "P (f (db\<lparr>db_clock := Suc (db_clock db)\<rparr>)) (db\<lparr>db_clock := Suc (db_clock db)\<rparr>)"
  shows "yields (select env f) db P"
  using assms by (simp add: yields_def calm_def select_def statement_def Let_def)

lemma yields_WithTx:
  assumes "calm env" "yields block (db\<lparr>db_clock := Suc (db_clock db)\<rparr>) P" "\<And>a db' n. P a db' \<Longrightarrow> P a (db'\<lparr>db_clock := n\<rparr>)"
  shows "yields (WithTx env block) db P"
proof -
  let ?m = "bind_op (select env (\<lambda>_. ())) (\<lambda>_. bind_op block (\<lambda>a. bind_op (select env (\<lambda>_. ())) (\<lambda>_. return_op a)))"
  have "yields (bind_op block (\<lambda>a. bind_op (select env (\<lambda>_. ())) (\<lambda>_. return_op a))) (db\<lparr>db_clock := Suc (db_clock db)\<rparr>) P"
    by (rule yields_bind [OF assms(2)], rule yields_bind, rule yields_select [OF assms(1)])
       (rule assms(3), assumption, rule yields_return)
  then have "yields ?m db P" by (intro yields_bind [OF yields_select [OF assms(1), where P = "\<lambda>_ d. d = db\<lparr>db_clock := Suc (db_clock db)\<rparr>"]]) auto
  then show ?thesis by (auto simp: yields_def WithTx_def)
qed

section \<open>Statements on tracks\<close>

lemma edit_tracks:
  "calm env \<Longrightarrow> editing p rows0 us T db \<Longrightarrow> f T = Inr T' \<Longrightarrow> yields (track_statement env f) db (\<lambda>_. editing p rows0 us T')"
  unfolding track_statement_def by (rule yields_statement) (auto simp: editing_def)

lemma edit_enqueue:
  "calm env \<Longrightarrow> editing p rows0 us T db \<Longrightarrow> yields (enqueueCoverRebuild env i) db (\<lambda>_. editing p rows0 us T)"
  by (auto simp: enqueueCoverRebuild_def yields_def bind_op_def try_op_def statement_def calm_def return_op_def editing_def)

lemma edit_counters:
  assumes "calm env" "editing (pls_ID pls) rows0 us T db"
  shows "yields (refreshCounters env pls) db (\<lambda>_. editing (pls_ID pls) rows0 us T)"
  unfolding refreshCounters_def
proof (rule yields_bind [OF yields_select [OF assms(1), where P = "\<lambda>_. editing (pls_ID pls) rows0 us T"]])
  show "editing (pls_ID pls) rows0 us T (db\<lparr>db_clock := Suc (db_clock db)\<rparr>)" using assms(2) by (rule editing_clock)
  fix x :: "float32 \<times> int \<times> int" and db' assume db': "editing (pls_ID pls) rows0 us T db'"
  obtain d s n where x: "x = (d, s, n)" by (cases x)
  have "yields (statement env (\<lambda>db. Inr ((), update_rows (pls_ID pls) (\<lambda>r. r\<lparr>row_playlist := (row_playlist r)\<lparr>
      pls_Duration := d, pls_Size := s, pls_SongCount := n, pls_UpdatedAt := st_now env (db_clock db)\<rparr>\<rparr>) db))) db'
      (\<lambda>_. editing (pls_ID pls) rows0 us T)"
    by (rule yields_statement [OF assms(1) refl]) (rule editing_update [OF editing_clock [OF db'] touchedI(1)])
  then show "yields (case x of (duration, size', songs) \<Rightarrow>
      bind_op (statement env (\<lambda>db. Inr ((), update_rows (pls_ID pls) (\<lambda>r. r\<lparr>row_playlist := (row_playlist r)\<lparr>
        pls_Duration := duration, pls_Size := size', pls_SongCount := songs, pls_UpdatedAt := st_now env (db_clock db)\<rparr>\<rparr>) db)))
      (\<lambda>_. return_op (pls\<lparr>pls_SongCount := songs, pls_Duration := duration, pls_Size := size'\<rparr>))) db'
      (\<lambda>_. editing (pls_ID pls) rows0 us T)"
    unfolding x by (auto intro: yields_bind yields_return)
qed

lemma edit_finish:
  assumes "calm env" "editing p rows0 us T db"
  shows "yields (bind_op (enqueueCoverRebuild env p) (\<lambda>_. bind_op (refreshCounters env (zero_Playlist\<lparr>pls_ID := p\<rparr>)) (\<lambda>_. return_op ())))
    db (\<lambda>_. editing p rows0 us T)"
proof (rule yields_bind [OF edit_enqueue [OF assms]])
  fix db' assume "editing p rows0 us T db'"
  then have "yields (refreshCounters env (zero_Playlist\<lparr>pls_ID := p\<rparr>)) db' (\<lambda>_. editing p rows0 us T)"
    using edit_counters [OF assms(1), of "zero_Playlist\<lparr>pls_ID := p\<rparr>"] by simp
  then show "yields (bind_op (refreshCounters env (zero_Playlist\<lparr>pls_ID := p\<rparr>)) (\<lambda>_. return_op ())) db' (\<lambda>_. editing p rows0 us T)"
    by (rule yields_bind) (rule yields_return)
qed

lemma sql_insert_append: "sql_insert (xs @ ys) T = Inr T' \<Longrightarrow> \<exists>T1. sql_insert xs T = Inr T1 \<and> sql_insert ys T1 = Inr T'"
  by (induction xs arbitrary: T) (auto split: if_splits)

lemma number_from_append: "number_from p k (xs @ ys) = number_from p k xs @ number_from p (k + int (length xs)) ys"
  by (induction xs arbitrary: k) (auto simp: algebra_simps)

lemma edit_chunks:
  assumes "calm env" "p \<in> row_id ` set rows0"
  shows "editing p rows0 us T db \<Longrightarrow> sql_insert (number_from p pos (concat cs)) T = Inr T' \<Longrightarrow>
    yields (add_chunks env p pos cs) db (\<lambda>_. editing p rows0 us T')"
proof (induction cs arbitrary: db T pos)
  case Nil
  then show ?case by (auto intro: yields_return)
next
  case (Cons c cs)
  from Cons.prems(2) obtain T1 where T1: "sql_insert (number_from p pos c) T = Inr T1"
    "sql_insert (number_from p (pos + int (length c)) (concat cs)) T1 = Inr T'"
    by (auto simp: number_from_append dest: sql_insert_append)
  have "p \<in> set (map row_id (db_rows db))" using assms(2) editing_ids [OF Cons.prems(1)] by simp
  then have "list_ex (\<lambda>r. row_id r = p) (db_rows db)" by (auto simp: list_ex_iff)
  with T1(1) Cons.prems(1) have "insert_tracks p (number_from p pos c) (db\<lparr>db_clock := Suc (db_clock db)\<rparr>) =
      Inr ((), db\<lparr>db_clock := Suc (db_clock db), db_tracks := T1\<rparr>)"
    by (simp add: insert_tracks_def editing_def)
  then have "yields (statement env (insert_tracks p (number_from p pos c))) db (\<lambda>_. editing p rows0 us T1)"
    by (rule yields_statement [OF assms(1)]) (use Cons.prems(1) in \<open>simp add: editing_def\<close>)
  then show ?case by (auto intro: yields_bind Cons.IH [OF _ T1(2)])
qed

lemma edit_Add:
  assumes "calm env" "p \<in> row_id ` set rows0" "editing p rows0 us T db" "tracks_Add p ids T = Inr (n, T')"
    and "0 \<le> max_id p T" "max_id p T < 2 ^ 31 - 1"
  shows "yields (trk_Add env p ids) db (\<lambda>_. editing p rows0 us T')"
proof (cases "ids = []")
  case True
  then show ?thesis using assms(3,4) by (auto simp: trk_Add_def tracks_Add_def intro: yields_return)
next
  case False
  let ?m = "max_id p T"
  have small: "int32_of ?m = ?m" "int32_of (?m + 1) = ?m + 1"
    using assms(5,6) by (simp_all add: int32_of_def signed_take_bit_int_eq_self)
  have ins: "sql_insert (number_from p (?m + 1) (concat (chunk 200 ids))) T = Inr T'"
    using assms(4) False by (cases "addTracks p (?m + 1) ids T") (auto simp: tracks_Add_def addTracks_def concat_chunk)
  have m: "yields (statement env (\<lambda>db. let m = max_id p (db_tracks db) in if int32_of m = m then Inr (m, db) else Inl ErrDb)) db
      (\<lambda>m db'. m = ?m \<and> editing p rows0 us T db')"
    using assms(1,3) small by (simp add: yields_def calm_def statement_def Let_def editing_def)
  have add: "yields (repo_addTracks env p (?m + 1) ids) db' (\<lambda>_. editing p rows0 us T')" if "editing p rows0 us T db'" for db'
    unfolding repo_addTracks_def
    by (rule yields_bind [OF edit_chunks [OF assms(1,2) that ins] edit_finish [OF assms(1)]])
  show ?thesis
    using False small unfolding trk_Add_def
    by (auto intro!: yields_bind [OF m] yields_bind [OF add] yields_return)
qed

lemma edit_Delete:
  assumes "calm env" "editing p rows0 us T db" "tracks_Delete p pos T = Inr T'"
    and "\<And>i. Some i \<in> st_position env ` set ids \<longleftrightarrow> i \<in> set pos"
  shows "yields (trk_Delete env p ids) db (\<lambda>_. editing p rows0 us T')"
proof -
  let ?T0 = "sql_delete (\<lambda>r. tr_playlist r = p \<and> tr_id r \<in> set pos) T"
  from assms(3) obtain T1 where T1: "sql_update (\<lambda>r. tr_playlist r = p \<and> tr_id r > 0) (\<lambda>r. - tr_id r) [] ?T0 = Inr T1"
    "sql_update (\<lambda>r. tr_playlist r = p) (row_number p T1) [] T1 = Inr T'"
    by (auto simp: tracks_Delete_def renumber_def bind_result_Inr)
  show ?thesis
    unfolding trk_Delete_def repo_renumber_def assms(4)
    by (rule yields_bind [OF edit_tracks [OF assms(1,2), where T' = ?T0]], simp, rule yields_bind [OF edit_tracks [OF assms(1)]], assumption, rule T1(1),
        rule yields_bind [OF edit_tracks [OF assms(1)]], assumption, rule T1(2)) (rule edit_finish [OF assms(1)])
qed

section \<open>The row\<close>

text \<open>A regular playlist that the user owns, as the tables have it.\<close>

definition own_regular :: "string \<Rightarrow> User \<Rightarrow> playlist_row list \<Rightarrow> string list \<Rightarrow> playlist_row \<Rightarrow> bool" where
  "own_regular p usr rows us r \<longleftrightarrow> distinct (map row_id rows) \<and> r \<in> set rows \<and> row_id r = p \<and> row_owner r = u_ID usr \<and>
     u_ID usr \<in> set us \<and> row_rules r = None \<and> pls_Rules (row_playlist r) = None \<and> pls_Tracks (row_playlist r) = []"

lemma editing_row:
  assumes "editing p rows0 us T db" "own_regular p usr rows0 us r"
  obtains r' where "own_regular p usr (db_rows db) us r'" "touched r r'"
proof -
  have all: "list_all2 (kept_row p) rows0 (db_rows db)"
    and r: "r \<in> set rows0" "row_id r = p" using assms by (simp_all add: editing_def own_regular_def)
  obtain n where n: "n < length rows0" "rows0 ! n = r" using r(1) by (auto simp: in_set_conv_nth)
  let ?r = "db_rows db ! n"
  have "kept_row p r ?r" "n < length (db_rows db)" using list_all2_nthD [OF all n(1)] list_all2_lengthD [OF all] n by simp_all
  then have t: "touched r ?r" and mem: "?r \<in> set (db_rows db)" using r(2) by (simp_all add: kept_row_def)
  have "pls_Rules (row_playlist ?r) = pls_Rules (row_playlist r)" "pls_Tracks (row_playlist ?r) = pls_Tracks (row_playlist r)"
    using t by (auto simp: touched_def)
  then have "own_regular p usr (db_rows db) us ?r"
    using assms(2) editing_ids [OF assms(1)] touched_keys [OF t] mem by (simp add: own_regular_def)
  from this t show ?thesis by (rule that)
qed

lemma edit_Get:
  assumes "calm env" "editing p rows0 us T db" "own_regular p usr rows0 us r"
  shows "yields (repo_Get env (Some usr) p) db (\<lambda>pls db'. editing p rows0 us T db' \<and> (\<exists>r'. touched r r' \<and> pls = row_playlist r'))"
proof -
  obtain r' where r': "own_regular p usr (db_rows db) us r'" and t: "touched r r'" by (rule editing_row [OF assms(2,3)])
  have users: "db_users db = us" using assms(2) by (simp add: editing_def)
  have "filter (\<lambda>s. row_owner s \<in> set (db_users db) \<and> pls_ID (row_playlist s) = p \<and> pls_userFilter (Some usr) (row_playlist s)) (db_rows db) = [r']"
    using r' users
    by (intro filter_unique [where f = row_id])
       (auto simp: own_regular_def row_id_def row_owner_def pls_userFilter_def loggedUser_def Let_def)
  moreover have "PostScan env r' = Inr (row_playlist r')"
    using r' by (simp add: own_regular_def PostScan_def scan_rules_def)
  ultimately have "repo_Get env (Some usr) p db = (Inr (row_playlist r'), db\<lparr>db_clock := Suc (db_clock db)\<rparr>)"
    using assms(1)
    by (simp add: repo_Get_def findBy_def selectPlaylist_def bind_op_def select_def statement_def lift_op_def return_op_def calm_def)
  then show ?thesis using t editing_clock [OF assms(2)] by (auto simp: yields_def)
qed

lemma edit_checks:
  assumes "calm env" "editing p rows0 us T db" "own_regular p usr rows0 us r"
  shows "yields (checkTracksEditable env (Some usr) p) db (\<lambda>pls db'. editing p rows0 us T db' \<and> (\<exists>r'. touched r r' \<and> pls = row_playlist r'))"
    and "yields (checkWritable env (Some usr) p) db (\<lambda>pls db'. editing p rows0 us T db' \<and> (\<exists>r'. touched r r' \<and> pls = row_playlist r'))"
proof -
  have own: "pls_OwnerID (row_playlist r') = u_ID usr \<and> pls_Rules (row_playlist r') = None" if "touched r r'" for r'
    using that assms(3) touched_keys [OF that] by (auto simp: own_regular_def row_owner_def touched_def)
  show w: "yields (checkWritable env (Some usr) p) db (\<lambda>pls db'. editing p rows0 us T db' \<and> (\<exists>r'. touched r r' \<and> pls = row_playlist r'))"
    unfolding checkWritable_def Let_def
    by (rule yields_bind [OF edit_Get [OF assms]]) (auto simp: own UserFrom_def intro!: yields_return)
  show "yields (checkTracksEditable env (Some usr) p) db (\<lambda>pls db'. editing p rows0 us T db' \<and> (\<exists>r'. touched r r' \<and> pls = row_playlist r'))"
    unfolding checkTracksEditable_def
    by (rule yields_bind [OF w]) (auto simp: own IsSmartPlaylist_def intro!: yields_return)
qed

lemma edit_with_tracks:
  assumes "calm env" "editing p rows0 us T db" "own_regular p usr rows0 us r"
    and "\<And>db'. editing p rows0 us T db' \<Longrightarrow> yields (f p) db' Q"
  shows "yields (with_tracks env (Some usr) p f) db Q"
proof -
  obtain pls db' where "repo_Get env (Some usr) p db = (Inr pls, db')" and db': "editing p rows0 us T db'"
    using edit_Get [OF assms(1-3)] by (auto simp: yields_def)
  then have "repo_Tracks env (Some usr) p False db = (Inr (Some p), db')"
    by (simp add: repo_Tracks_def bind_op_def try_op_def return_op_def)
  then show ?thesis using assms(4) [OF db'] by (simp add: with_tracks_def bind_op_def yields_def)
qed

text \<open>What is asked for of the row: name, comment and visibility where given, everything else as it was.\<close>

definition described :: "string option \<Rightarrow> string option \<Rightarrow> bool option \<Rightarrow> playlist_row \<Rightarrow> playlist_row \<Rightarrow> bool" where
  "described name comment pub r r' \<longleftrightarrow> row_id r' = row_id r \<and> row_owner r' = row_owner r \<and> row_rules r' = row_rules r \<and>
     pls_Name (row_playlist r') = (case name of None \<Rightarrow> pls_Name (row_playlist r) | Some s \<Rightarrow> s) \<and>
     pls_Comment (row_playlist r') = (case comment of None \<Rightarrow> pls_Comment (row_playlist r) | Some s \<Rightarrow> s) \<and>
     pls_Public (row_playlist r') = (case pub of None \<Rightarrow> pls_Public (row_playlist r) | Some b \<Rightarrow> b)"

lemma edit_metadata:
  assumes "calm env" "editing p rows0 us T db" "own_regular p usr rows0 us r" "touched r r0" "p \<noteq> []"
  shows "yields (updateMetadata env (row_playlist r0) name comment pub) db
    (\<lambda>_ db'. db_tracks db' = T \<and> (\<exists>r'\<in>set (db_rows db'). described name comment pub r r'))"
proof -
  define q0 where "q0 = (let p1 = (case name of None \<Rightarrow> row_playlist r0 | Some s \<Rightarrow> (row_playlist r0)\<lparr>pls_Name := s\<rparr>);
          p2 = (case comment of None \<Rightarrow> p1 | Some s \<Rightarrow> p1\<lparr>pls_Comment := s\<rparr>)
      in case pub of None \<Rightarrow> p2 | Some b \<Rightarrow> p2\<lparr>pls_Public := b\<rparr>)"
  define q where "q = q0\<lparr>pls_UpdatedAt := st_now env (db_clock db)\<rparr>"
  have r: "r \<in> set rows0" "pls_ID (row_playlist r) = p" "pls_OwnerID (row_playlist r) = u_ID usr" "u_ID usr \<in> set us"
      "pls_Rules (row_playlist r) = None" "pls_Tracks (row_playlist r) = []" "row_rules r = None"
    using assms(3) by (simp_all add: own_regular_def row_id_def row_owner_def)
  obtain r1 where r1: "own_regular p usr (db_rows db) us r1" and t1: "touched r r1" by (rule editing_row [OF assms(2,3)])
  have q0: "pls_ID q0 = p" "pls_OwnerID q0 = u_ID usr" "pls_Rules q0 = None" "pls_Tracks q0 = []"
    "pls_Name q0 = (case name of None \<Rightarrow> pls_Name (row_playlist r) | Some s \<Rightarrow> s)"
    "pls_Comment q0 = (case comment of None \<Rightarrow> pls_Comment (row_playlist r) | Some s \<Rightarrow> s)"
    "pls_Public q0 = (case pub of None \<Rightarrow> pls_Public (row_playlist r) | Some b \<Rightarrow> b)"
    using assms(4) r by (auto simp: q0_def touched_def Let_def split: option.splits)
  let ?w = "write_columns (filterUpdateValues []) q None"
  let ?rows = "map (\<lambda>s. if row_id s = p then ?w s else s) (db_rows db)"
  let ?db1 = "update_rows p ?w (db\<lparr>db_clock := Suc (db_clock db)\<rparr>)"
  have "list_ex (\<lambda>s. row_id s = p) (db_rows db)" using r1 by (auto simp: own_regular_def list_ex_iff)
  moreover have "db_users db = us" using assms(2) by (simp add: editing_def)
  ultimately have put: "repo_put env p q [] db = (Inr p, ?db1)"
    using assms(1,5) r(4) q0(2,3)
    by (simp add: repo_put_def PostMapArgs_def q_def bind_op_def lift_op_def statement_def calm_def return_op_def filterUpdateValues_def)
  have ed: "editing p ?rows us T ?db1"
    using assms(2) editing_start [of p ?db1] by (simp add: editing_def update_rows_def)
  have counters: "yields (refreshCounters env (q\<lparr>pls_ID := p\<rparr>)) ?db1 (\<lambda>_. editing p ?rows us T)"
    using edit_counters [OF assms(1), of "q\<lparr>pls_ID := p\<rparr>"] ed by simp
  have step: "Put env q0 [] db = bind_op (repo_put env p q []) (\<lambda>i. bind_op (return_op ()) (\<lambda>_.
      bind_op (refreshCounters env (q\<lparr>pls_ID := i\<rparr>)) (\<lambda>_. return_op i))) db"
    using assms(5) q0(1,3,4) by (simp add: Put_def Let_def q_def IsSmartPlaylist_def)
  have Put: "yields (Put env q0 []) db (\<lambda>_. editing p ?rows us T)"
    using counters unfolding yields_def step by (auto simp: put bind_op_def return_op_def)
  have keys: "row_id (?w s) = row_id s" for s by (simp add: row_id_def write_columns_def Let_def)
  have wr: "own_regular p usr ?rows us (?w r1)"
  proof -
    have "map row_id ?rows = map row_id (db_rows db)" using keys by simp
    then have "distinct (map row_id ?rows)" using r1 by (simp only: own_regular_def)
    moreover have "?w r1 \<in> set ?rows" using r1 by (force simp: own_regular_def)
    moreover have "row_id (?w r1) = p" using r1 keys [of r1] by (simp add: own_regular_def)
    moreover have "row_owner (?w r1) = u_ID usr" "row_rules (?w r1) = None" "pls_Rules (row_playlist (?w r1)) = None"
      "pls_Tracks (row_playlist (?w r1)) = []"
      using r1 q0(2) by (simp_all add: own_regular_def row_owner_def write_columns_def filterUpdateValues_def q_def Let_def)
    ultimately show ?thesis using r(4) unfolding own_regular_def by blast
  qed
  have desc: "described name comment pub r r'" if "touched (?w r1) r'" for r'
  proof -
    have "row_id r' = p" "row_owner r' = u_ID usr" "row_rules r' = None"
      using touched_keys [OF that] wr by (simp_all add: own_regular_def)
    moreover have "pls_Name (row_playlist r') = pls_Name q0" "pls_Comment (row_playlist r') = pls_Comment q0"
      "pls_Public (row_playlist r') = pls_Public q0"
      using that by (auto simp: touched_def write_columns_def filterUpdateValues_def q_def Let_def)
    ultimately show ?thesis using r q0 by (simp add: described_def row_id_def row_owner_def)
  qed
  show ?thesis
    unfolding updateMetadata_def Let_def q0_def [unfolded Let_def, symmetric]
  proof (rule yields_bind [OF Put])
    fix a db' assume ed': "editing p ?rows us T db'"
    obtain r' where "own_regular p usr (db_rows db') us r'" "touched (?w r1) r'" by (rule editing_row [OF ed' wr])
    then have "r' \<in> set (db_rows db')" "described name comment pub r r'" using desc by (simp_all add: own_regular_def)
    then show "yields (return_op ()) db' (\<lambda>_ db'. db_tracks db' = T \<and> (\<exists>r'\<in>set (db_rows db'). described name comment pub r r'))"
      using ed' by (intro yields_return) (auto simp: editing_def)
  qed
qed

section \<open>Properties\<close>

lemma described_touched: "touched r r' \<Longrightarrow> described None None None r r'"
  using touched_keys [of r r'] by (auto simp: described_def touched_def)

lemma edit_unchanged:
  assumes "editing p rows0 us T db" "own_regular p usr rows0 us r"
  shows "db_tracks db = T \<and> (\<exists>r'\<in>set (db_rows db). described None None None r r')"
proof -
  obtain r' where "own_regular p usr (db_rows db) us r'" "touched r r'" by (rule editing_row [OF assms])
  then show ?thesis using assms(1) described_touched by (auto simp: editing_def own_regular_def)
qed

text \<open>The tracks that an update should leave, from those the playlist has.\<close>

definition edited_tracks :: "go_int list \<Rightarrow> string list \<Rightarrow> string list \<Rightarrow> string list" where
  "edited_tracks idxToRemove idsToAdd ts = without_positions (map (\<lambda>i. i + 1) idxToRemove) ts @ idsToAdd"

lemma edited_tracks_none: "edited_tracks [] add ts = ts @ add"
  by (simp add: edited_tracks_def without_positions_def)

definition updated :: "string \<Rightarrow> track_row list \<Rightarrow> string list \<Rightarrow> (playlist_row \<Rightarrow> bool) \<Rightarrow> playlist_db \<Rightarrow> bool" where
  "updated p T0 ts D db \<longleftrightarrow> holds_tracks p (db_tracks db) ts \<and>
     (\<forall>q. q \<noteq> p \<longrightarrow> positions q (db_tracks db) = positions q T0) \<and> (\<exists>r'\<in>set (db_rows db). D r')"

lemma tracks_steps:
  assumes "unique_index T" "holds_tracks p T ts"
  obtains T1 T2 n where "tracks_Delete p pos T = Inr T1" "holds_tracks p T1 (without_positions pos ts)" "unique_index T1"
    "tracks_Add p new T1 = Inr (n, T2)" "holds_tracks p T2 (without_positions pos ts @ new)"
    "\<forall>q. q \<noteq> p \<longrightarrow> positions q T1 = positions q T" "\<forall>q. q \<noteq> p \<longrightarrow> positions q T2 = positions q T"
proof -
  obtain T1 where T1: "tracks_Delete p pos T = Inr T1" "unique_index T1" "holds_tracks p T1 (without_positions pos ts)"
    "\<forall>q. q \<noteq> p \<longrightarrow> positions q T1 = positions q T" using Delete_holds [OF assms] by blast
  obtain T2 where T2: "tracks_Add p new T1 = Inr (int (length new), T2)" "holds_tracks p T2 (without_positions pos ts @ new)"
    "\<forall>q. q \<noteq> p \<longrightarrow> positions q T2 = positions q T1" using Add_holds [OF T1(2,3)] by blast
  show ?thesis by (rule that [OF T1(1,3,2) T2(1,2) T1(4)]) (use T1(4) T2(3) in simp)
qed

lemma edit_add_if:
  assumes "calm env" "p \<in> row_id ` set rows0" "editing p rows0 us T db" "tracks_Add p add T = Inr (n, T')"
    and "holds_tracks p T ts" "int (length ts) < 2 ^ 31 - 1"
  shows "yields (if add \<noteq> [] then trk_Add env p add else return_op 0) db (\<lambda>_. editing p rows0 us T')"
proof (cases "add = []")
  case True
  then show ?thesis using assms(3,4) by (auto simp: tracks_Add_def intro: yields_return)
next
  case False
  then show ?thesis using edit_Add [OF assms(1-4)] holds_tracks_max [OF assms(5)] assms(6) by simp
qed

text \<open>The two branches of the update's transaction.\<close>

lemma removing_branch:
  assumes "calm env" "own_regular p usr rows0 us r" "p \<noteq> []" "touched r r0" "editing p rows0 us T db"
    and "tracks_Delete p pos T = Inr T1" "\<And>i. Some i \<in> st_position env ` set ids \<longleftrightarrow> i \<in> set pos"
    and "holds_tracks p T1 ts" "int (length ts) < 2 ^ 31 - 1" "tracks_Add p add T1 = Inr (n, T2)"
  shows "yields (with_tracks env (Some usr) p (\<lambda>t. bind_op (trk_Delete env t ids) (\<lambda>_.
      bind_op (if add \<noteq> [] then trk_Add env t add else return_op 0) (\<lambda>_. updateMetadata env (row_playlist r0) name comment pub)))) db
    (\<lambda>_ db'. db_tracks db' = T2 \<and> (\<exists>r'\<in>set (db_rows db'). described name comment pub r r'))"
proof (rule edit_with_tracks [OF assms(1,5,2)])
  have p: "p \<in> row_id ` set rows0" using assms(2) by (auto simp: own_regular_def)
  note meta = edit_metadata [OF assms(1) _ assms(2,4,3)]
  fix db' assume "editing p rows0 us T db'"
  from edit_Delete [OF assms(1) this assms(6,7)]
  show "yields (bind_op (trk_Delete env p ids) (\<lambda>_. bind_op (if add \<noteq> [] then trk_Add env p add else return_op 0)
      (\<lambda>_. updateMetadata env (row_playlist r0) name comment pub))) db'
      (\<lambda>_ db'. db_tracks db' = T2 \<and> (\<exists>r'\<in>set (db_rows db'). described name comment pub r r'))"
    by (rule yields_bind) (rule yields_bind [OF edit_add_if [OF assms(1) p _ assms(10,8,9)] meta])
qed

lemma adding_branch:
  assumes "calm env" "own_regular p usr rows0 us r" "p \<noteq> []" "touched r r0" "editing p rows0 us T db"
    and "holds_tracks p T ts" "int (length ts) < 2 ^ 31 - 1" "tracks_Add p add T = Inr (n, T2)"
  shows "yields (bind_op (if add \<noteq> [] then with_tracks env (Some usr) p (\<lambda>t. trk_Add env t add) else return_op 0) (\<lambda>_.
      if name = None \<and> comment = None \<and> pub = None then return_op () else updateMetadata env (row_playlist r0) name comment pub)) db
    (\<lambda>_ db'. db_tracks db' = T2 \<and> (\<exists>r'\<in>set (db_rows db'). described name comment pub r r'))"
proof (rule yields_bind [where P = "\<lambda>_. editing p rows0 us T2"])
  have p: "p \<in> row_id ` set rows0" using assms(2) by (auto simp: own_regular_def)
  note add = edit_add_if [OF assms(1) p _ assms(8,6,7)]
  show "yields (if add \<noteq> [] then with_tracks env (Some usr) p (\<lambda>t. trk_Add env t add) else return_op 0) db (\<lambda>_. editing p rows0 us T2)"
  proof (cases "add = []")
    case False
    then show ?thesis using edit_with_tracks [OF assms(1,5,2), where f = "\<lambda>t. trk_Add env t add"] add by simp
  qed (use add [OF assms(5)] in simp)
  fix db' assume ed: "editing p rows0 us T2 db'"
  show "yields (if name = None \<and> comment = None \<and> pub = None then return_op () else updateMetadata env (row_playlist r0) name comment pub) db'
      (\<lambda>_ db'. db_tracks db' = T2 \<and> (\<exists>r'\<in>set (db_rows db'). described name comment pub r r'))"
    using edit_unchanged [OF ed assms(2)] edit_metadata [OF assms(1) ed assms(2,4,3), of name comment pub] by (auto intro: yields_return)
qed


lemma sample_tables_ok: "tables_ok sample_tables"
  by code_simp


end
