(* ===== verification/Playlist_Correct.thy ===== *)
theory Playlist_Correct
  imports Playlist_Update
begin

text \<open>
  Properties of the playlist service: what a request may change, that failed edits leave no trace, what
  an update does to the list of tracks, and when the refresh of a smart playlist comes to an end.
\<close>

section \<open>Reads and transactions\<close>

text \<open>An operation that only reads: it changes nothing but the count of statements.\<close>

definition read_only :: "'a db_op \<Rightarrow> bool" where
  "read_only m \<longleftrightarrow> (\<forall>db. \<exists>n. snd (m db) = db\<lparr>db_clock := n\<rparr>)"

lemma read_only_basic:
  "read_only (return_op a)" "read_only (throw_op e)" "read_only (lift_op r)" "read_only (select env f)"
proof -
  have same: "\<exists>n. db = db\<lparr>db_clock := n\<rparr>" for db :: playlist_db by (rule exI [of _ "db_clock db"]) simp
  then show "read_only (return_op a)" "read_only (throw_op e)" "read_only (lift_op r)"
    by (simp_all add: read_only_def return_op_def throw_op_def lift_op_def)
  show "read_only (select env f)" unfolding read_only_def select_def statement_def Let_def by auto
qed

lemma read_only_bind:
  assumes "read_only m" "\<And>a. read_only (k a)"
  shows "read_only (bind_op m k)"
  unfolding read_only_def
proof
  fix db
  obtain n where n: "snd (m db) = db\<lparr>db_clock := n\<rparr>" using assms(1) unfolding read_only_def by blast
  show "\<exists>n. snd (bind_op m k db) = db\<lparr>db_clock := n\<rparr>"
  proof (cases "m db")
    case (Pair r db')
    show ?thesis
    proof (cases r)
      case (Inl e)
      then show ?thesis using n Pair by (auto simp: bind_op_def)
    next
      case (Inr a)
      obtain n' where "snd (k a db') = db'\<lparr>db_clock := n'\<rparr>" using assms(2) [of a] unfolding read_only_def by blast
      then show ?thesis using n Pair Inr by (auto simp: bind_op_def)
    qed
  qed
qed

lemma read_only_Get: "read_only (repo_Get env ctx i)"
  unfolding repo_Get_def findBy_def selectPlaylist_def
  by (intro read_only_bind read_only_basic) (auto split: list.split intro: read_only_basic)

lemma read_only_checks: "read_only (checkWritable env ctx i)" "read_only (checkTracksEditable env ctx i)"
proof -
  show w: "read_only (checkWritable env ctx i)"
    unfolding checkWritable_def Let_def by (rule read_only_bind [OF read_only_Get]) (auto intro: read_only_basic)
  show "read_only (checkTracksEditable env ctx i)"
    unfolding checkTracksEditable_def by (rule read_only_bind [OF w]) (auto intro: read_only_basic)
qed

text \<open>An operation whose failure leaves the tables as they were.\<close>

definition all_or_nothing :: "'a db_op \<Rightarrow> bool" where
  "all_or_nothing m \<longleftrightarrow> (\<forall>db e. fst (m db) = Inl e \<longrightarrow> (\<exists>n. snd (m db) = db\<lparr>db_clock := n\<rparr>))"

lemma all_or_nothing_WithTx: "all_or_nothing (WithTx env block)"
  unfolding all_or_nothing_def WithTx_def rolled_back_def by (auto split: prod.splits sum.splits)

lemma all_or_nothing_after_read:
  assumes "read_only m" "\<And>a. all_or_nothing (k a)"
  shows "all_or_nothing (bind_op m k)"
  unfolding all_or_nothing_def
proof (intro allI impI)
  fix db e assume err: "fst (bind_op m k db) = Inl e"
  obtain n where n: "snd (m db) = db\<lparr>db_clock := n\<rparr>" using assms(1) unfolding read_only_def by blast
  obtain r db' where r: "m db = (r, db')" by (cases "m db")
  show "\<exists>n. snd (bind_op m k db) = db\<lparr>db_clock := n\<rparr>"
  proof (cases r)
    case (Inl x)
    then show ?thesis using n r by (auto simp: bind_op_def)
  next
    case (Inr a)
    then have "fst (k a db') = Inl e" using err r by (simp add: bind_op_def)
    then obtain n' where "snd (k a db') = db'\<lparr>db_clock := n'\<rparr>" using assms(2) [of a] unfolding all_or_nothing_def by blast
    then show ?thesis using n r Inr by (auto simp: bind_op_def)
  qed
qed

lemma all_or_nothing_reply:
  assumes "all_or_nothing m"
  shows "all_or_nothing (reply f m)"
  using assms unfolding all_or_nothing_def reply_def bind_op_def return_op_def
  by (auto split: prod.splits sum.splits) (metis fst_conv snd_conv)

section \<open>Properties: who may change what\<close>

text \<open>
  C11. No request of an ordinary user changes anything of another user's playlists. Whatever the request -
  reading with a refresh of smart playlists, creating, renaming, publishing, editing tracks, images,
  deleting, the REST update with an owner in its body - and whichever database statements fail on the way:
  the rows of the playlists owned by others, with all their columns and rules, and the tracks of those
  playlists are the same before and after. (Hypothesis: the tables are consistent.)
\<close>

theorem playlist_requests_confined:
  assumes "tables_ok db" "\<not> u_IsAdmin usr"
  shows "foreign (u_ID usr) (snd (serve env (Some usr) req db)) = foreign (u_ID usr) db"
proof -
  have "privacy.acts (u_ID usr) (Some usr)"
    using assms(2) by (simp add: privacy.acts_def UserFrom_def loggedUser_def)
  from privacy.keeps_serve [OF this, of "foreign (u_ID usr) db" env req] assms(1)
  show ?thesis by (simp add: privacy.keeps_def foreign_kept_def tables_ok_def)
qed


text \<open>
  C13. A failed edit leaves no trace. When creating a playlist or replacing its tracks, updating it,
  removing tracks or moving a track ends with an error - a refusal, a statement that failed after others
  had succeeded, a nil repository, a failed commit - all tables are as before the request.
\<close>

theorem failed_edits_roll_back:
  assumes "req = ReqCreate i name' ids \<or> req = ReqUpdate i name comment pub add remove \<or>
      req = ReqRemoveTracks i ids \<or> req = ReqReorderTrack i pos newPos"
    and "fst (serve env ctx req db) = Inl e"
  shows "\<exists>n. snd (serve env ctx req db) = db\<lparr>db_clock := n\<rparr>"
proof -
  have "all_or_nothing (svc_Create env ctx i name' ids)"
    unfolding svc_Create_def Let_def by (rule all_or_nothing_WithTx)
  moreover have "all_or_nothing (svc_Update env ctx i name comment pub add remove)"
    unfolding svc_Update_def
    by (rule all_or_nothing_after_read [OF _ all_or_nothing_WithTx]) (auto intro: read_only_checks)
  moreover have "all_or_nothing (svc_RemoveTracks env ctx i ids)" "all_or_nothing (ReorderTrack env ctx i pos newPos)"
    unfolding svc_RemoveTracks_def ReorderTrack_def
    by (rule all_or_nothing_after_read [OF read_only_checks(2) all_or_nothing_WithTx])+
  ultimately have "all_or_nothing (serve env ctx req)"
    using assms(1) by (auto intro: all_or_nothing_reply)
  with assms(2) show ?thesis unfolding all_or_nothing_def by blast
qed

section \<open>Witnesses\<close>

theorem playlist_requests_confined_witness:
  "foreign ''eve'' (snd (serve sample_store (Some (sample_member ''eve'')) (ReqRemoveTracks ''p'' [''1'']) sample_tables)) =
     foreign ''eve'' sample_tables \<and> length (fst (foreign ''eve'' sample_tables)) = 3"
proof
  have "\<not> u_IsAdmin (sample_member ''eve'')" "u_ID (sample_member ''eve'') = ''eve''" by (simp_all add: sample_member_def zero_User_def)
  with playlist_requests_confined [OF sample_tables_ok, of "sample_member ''eve''"]
  show "foreign ''eve'' (snd (serve sample_store (Some (sample_member ''eve'')) (ReqRemoveTracks ''p'' [''1'']) sample_tables)) = foreign ''eve'' sample_tables"
    by (simp del: serve.simps)
  show "length (fst (foreign ''eve'' sample_tables)) = 3" by code_simp
qed


lemma stranger_refused:
  "fst (serve sample_store (Some (sample_member ''eve'')) (ReqRemoveTracks ''p'' [''1'']) sample_tables) = Inl ErrNotFound"
proof -
  have "filter (\<lambda>r. row_owner r \<in> set (db_users sample_tables) \<and> pls_ID (row_playlist r) = ''p'' \<and>
      pls_userFilter (Some (sample_member ''eve'')) (row_playlist r)) (db_rows sample_tables) = []"
    by code_simp
  moreover have "\<not> st_fails sample_store n" for n by (simp add: sample_store_def)
  ultimately show ?thesis
    by (simp add: reply_def svc_RemoveTracks_def checkTracksEditable_def checkWritable_def repo_Get_def findBy_def
        selectPlaylist_def select_def statement_def bind_op_def lift_op_def throw_op_def)
qed

theorem failed_edits_roll_back_witness:
  "\<exists>n. snd (serve sample_store (Some (sample_member ''eve'')) (ReqRemoveTracks ''p'' [''1'']) sample_tables) = sample_tables\<lparr>db_clock := n\<rparr>"
  by (rule failed_edits_roll_back [OF _ stranger_refused]) simp

end
