(* ===== verification/Playlist_Import.thy ===== *)
theory Playlist_Import
  imports Playlist_Service Go_Path Utils_Slice Utils_JsonComments
begin

text \<open>
  The import of playlist files (\<open>core/playlists/parse_m3u.go\<close>, \<open>parse_nsp.go\<close>, \<open>import.go\<close>, with
  \<open>FindByPaths\<close> of \<open>persistence/mediafile_repository.go\<close>): the lines of an M3U file are resolved to paths
  in the libraries and looked up; a file that was imported before is updated in place. Arguments are the
  Unicode functions, the MIME table, the JSON parser, the file system and the rows of the library and
  folder tables. Libraries with paths of equal length keep their order, files are found in table order.
\<close>

section \<open>Paths\<close>

definition IsAbs :: "string \<Rightarrow> bool" where
  "IsAbs p \<longleftrightarrow> HasPrefix p ''/''"

definition path_parts :: "string \<Rightarrow> string list" where
  "path_parts p = filter (\<lambda>c. c \<noteq> []) (split_on (CHR ''/'') p)"

fun drop_common :: "string list \<Rightarrow> string list \<Rightarrow> string list \<times> string list" where
  "drop_common (b # bs) (t # ts) = (if b = t then drop_common bs ts else (b # bs, t # ts))"
| "drop_common bs ts = (bs, ts)"

definition Rel :: "string \<Rightarrow> string \<Rightarrow> string option" where
  "Rel basePath targPath =
     (let b = Clean basePath; t = Clean targPath
      in if t = b then Some ''.''
         else if (b \<noteq> ''.'' \<and> IsAbs b) \<noteq> IsAbs t then None
         else (case drop_common (if b = ''.'' then [] else path_parts b) (path_parts t) of (bs, ts) \<Rightarrow>
           if bs \<noteq> [] \<and> ts \<noteq> [] \<and> hd bs = ''..'' then None
           else Some (Join (map (\<lambda>_. ''..'') bs @ ts) ''/'')))"

definition hex_digit :: "char \<Rightarrow> nat option" where
  "hex_digit c =
     (let n = of_char c :: nat
      in if 48 \<le> n \<and> n \<le> 57 then Some (n - 48) else if 97 \<le> n \<and> n \<le> 102 then Some (n - 87)
         else if 65 \<le> n \<and> n \<le> 70 then Some (n - 55) else None)"

fun PathUnescape :: "string \<Rightarrow> string option" where
  "PathUnescape [] = Some []"
| "PathUnescape (c # cs) =
     (if c \<noteq> CHR ''%'' then map_option ((#) c) (PathUnescape cs)
      else (case cs of
        a # b # rest \<Rightarrow>
          (case (hex_digit a, hex_digit b) of
             (Some x, Some y) \<Rightarrow> map_option ((#) (char_of (16 * x + y))) (PathUnescape rest)
           | _ \<Rightarrow> None)
      | _ \<Rightarrow> None))"

definition CutPrefix :: "string \<Rightarrow> string \<Rightarrow> string option" where
  "CutPrefix s p = (if HasPrefix s p then Some (drop (length p) s) else None)"

section \<open>Data and arguments\<close>

record Library =
  lib_ID :: go_int
  lib_Path :: string

record Folder =
  fo_LibraryPath :: string
  fo_Path :: string
  fo_Name :: string

definition AbsolutePath :: "Folder \<Rightarrow> string" where
  "AbsolutePath f = filepath_Join [fo_LibraryPath f, fo_Path f, fo_Name f]"

record import_env =
  im_nfc :: "string \<Rightarrow> string"
  im_nfd :: "string \<Rightarrow> string"
  im_lower :: "string \<Rightarrow> string"
  im_mime :: "string \<Rightarrow> string" \<comment> \<open>\<open>mime.TypeByExtension\<close>\<close>
  im_json :: "string \<Rightarrow> val option" \<comment> \<open>the syntax of \<open>encoding/json\<close>\<close>
  im_buffers :: "nat list" \<comment> \<open>the buffers of \<open>io.ReadAll\<close>\<close>
  im_stat :: "string \<Rightarrow> time_ns option"
  im_open :: "string \<Rightarrow> string option" \<comment> \<open>a file's text as \<open>UTF8Reader\<close> decodes it\<close>
  im_cwd :: "string option"
  im_nowText :: string
  im_libraries :: "Library list" \<comment> \<open>the table \<open>library\<close>\<close>
  im_folder :: "Library \<Rightarrow> string \<Rightarrow> Folder option" \<comment> \<open>the table \<open>folder\<close>, by the hash of library and path\<close>
  im_EnableM3UExternalAlbumArt :: bool
  im_DefaultPlaylistPublicVisibility :: bool

definition excludeAudioType :: "string list" where
  "excludeAudioType = [''audio/mpegurl'', ''audio/x-mpegurl'', ''audio/x-scpls'']"

definition IsAudioFile :: "import_env \<Rightarrow> string \<Rightarrow> bool" where
  "IsAudioFile im filePath \<longleftrightarrow>
     (let mimeType = im_mime im (Ext filePath) in mimeType \<notin> set excludeAudioType \<and> HasPrefix mimeType ''audio/'')"

section \<open>Libraries\<close>

record pathResolution =
  re_absolutePath :: string
  re_libraryPath :: string
  re_libraryID :: go_int
  re_valid :: bool

record libraryMatcher =
  lm_libraries :: "Library list"
  lm_cleanedPaths :: "string list"

definition newLibraryMatcher :: "Library list \<Rightarrow> libraryMatcher" where
  "newLibraryMatcher libs =
     (let sorted' = sort_key (\<lambda>l. - int (length (lib_Path l))) libs
      in \<lparr>lm_libraries = sorted', lm_cleanedPaths = map (\<lambda>l. Clean (lib_Path l)) sorted'\<rparr>)"

definition under_path :: "string \<Rightarrow> string \<Rightarrow> bool" where
  "under_path absolutePath cleanLibPath \<longleftrightarrow>
     HasPrefix absolutePath cleanLibPath \<and>
     (length absolutePath = length cleanLibPath \<or> absolutePath ! length cleanLibPath = CHR ''/'')"

definition findLibrary :: "libraryMatcher \<Rightarrow> string \<Rightarrow> Library option" where
  "findLibrary lm absolutePath =
     map_option snd (List.find (\<lambda>(cleanLibPath, _). under_path absolutePath cleanLibPath) (List.zip (lm_cleanedPaths lm) (lm_libraries lm)))"

definition findLibraryForPath :: "libraryMatcher \<Rightarrow> string \<Rightarrow> go_int \<times> string" where
  "findLibraryForPath lm absolutePath =
     (case findLibrary lm absolutePath of None \<Rightarrow> (0, []) | Some lib \<Rightarrow> (lib_ID lib, Clean (lib_Path lib)))"

definition findInLibraries :: "libraryMatcher \<Rightarrow> string \<Rightarrow> pathResolution" where
  "findInLibraries lm absolutePath =
     (case findLibraryForPath lm absolutePath of (libID, libPath) \<Rightarrow>
        if libID = 0 then \<lparr>re_absolutePath = [], re_libraryPath = [], re_libraryID = 0, re_valid = False\<rparr>
        else \<lparr>re_absolutePath = absolutePath, re_libraryPath = libPath, re_libraryID = libID, re_valid = True\<rparr>)"

definition ToQualifiedString :: "pathResolution \<Rightarrow> string option" where
  "ToQualifiedString r =
     (if \<not> re_valid r then None
      else map_option (\<lambda>relativePath. Itoa (re_libraryID r) @ '':'' @ relativePath) (Rel (re_libraryPath r) (re_absolutePath r)))"

definition resolvePath :: "libraryMatcher \<Rightarrow> string \<Rightarrow> Folder option \<Rightarrow> pathResolution" where
  "resolvePath lm line folder =
     findInLibraries lm
       (case folder of
          Some f \<Rightarrow> if IsAbs line then Clean line else Clean (filepath_Join [AbsolutePath f, line])
        | None \<Rightarrow> Clean line)"

definition resolvePaths :: "libraryMatcher \<Rightarrow> Folder option \<Rightarrow> string list \<Rightarrow> string list" where
  "resolvePaths lm folder lines = List.map_filter (\<lambda>line. ToQualifiedString (resolvePath lm line folder)) lines"

definition resolveLocalPath :: "string \<Rightarrow> Folder option \<Rightarrow> string option" where
  "resolveLocalPath v folder =
     (case CutPrefix v ''file://'' of
        Some after \<Rightarrow> map_option Clean (PathUnescape after)
      | None \<Rightarrow>
          if IsAbs v then Some (Clean v)
          else (case folder of None \<Rightarrow> None | Some f \<Rightarrow> Some (Clean (filepath_Join [AbsolutePath f, v]))))"

definition resolveImageURL :: "import_env \<Rightarrow> string \<Rightarrow> Folder option \<Rightarrow> libraryMatcher \<Rightarrow> string" where
  "resolveImageURL im v0 folder lm =
     (let v = TrimSpace v0
      in if v = [] then []
         else if HasPrefix v ''http://'' \<or> HasPrefix v ''https://'' then (if im_EnableM3UExternalAlbumArt im then v else [])
         else (case resolveLocalPath v folder of
            None \<Rightarrow> []
          | Some localPath \<Rightarrow> if fst (findLibraryForPath lm localPath) = 0 then [] else localPath))"

section \<open>The lines of an M3U file\<close>

text \<open>A line sets the name or the image, names a file, or is skipped.\<close>

definition m3u_line :: "import_env \<Rightarrow> libraryMatcher \<Rightarrow> Folder option \<Rightarrow> string \<Rightarrow> Playlist \<Rightarrow> Playlist \<times> string list" where
  "m3u_line im lm folder line0 pls =
     (let line = TrimSpace line0
      in case CutPrefix line ''#PLAYLIST:'' of
        Some after \<Rightarrow> (pls\<lparr>pls_Name := after\<rparr>, [])
      | None \<Rightarrow>
          (case CutPrefix line ''#EXTALBUMARTURL:'' of
             Some after \<Rightarrow> (pls\<lparr>pls_ExternalImageURL := resolveImageURL im after folder lm\<rparr>, [])
           | None \<Rightarrow>
               if line = [] \<or> HasPrefix line ''#'' then (pls, [])
               else
                 (let line' = (case CutPrefix line ''file://'' of
                        Some after \<Rightarrow> (case PathUnescape after of Some p \<Rightarrow> p | None \<Rightarrow> [])
                      | None \<Rightarrow> line)
                  in if IsAudioFile im line' then (pls, [line']) else (pls, []))))"

fun m3u_lines :: "import_env \<Rightarrow> libraryMatcher \<Rightarrow> Folder option \<Rightarrow> string list \<Rightarrow> Playlist \<Rightarrow> Playlist \<times> string list" where
  "m3u_lines im lm folder [] pls = (pls, [])"
| "m3u_lines im lm folder (line # lines) pls =
     (case m3u_line im lm folder line pls of (pls1, fs) \<Rightarrow>
        (case m3u_lines im lm folder lines pls1 of (pls2, fs') \<Rightarrow> (pls2, fs @ fs')))"

definition lookupCandidates :: "import_env \<Rightarrow> string list \<Rightarrow> string list" where
  "lookupCandidates im resolvedPaths =
     Unique (concat (map (\<lambda>path. let nfcRaw = im_nfc im path; nfdRaw = im_nfd im path
        in [nfcRaw, nfdRaw, im_lower im nfcRaw, im_lower im nfdRaw]) resolvedPaths))"

definition path_condition :: "string \<Rightarrow> (media_row \<Rightarrow> bool) option" where \<comment> \<open>\<open>path collate nocase\<close> folds ASCII letters\<close>
  "path_condition path =
     (case Cut (CHR '':'') path of
        (_, None) \<Rightarrow> Some (\<lambda>m. ToLower (mf_Path m) = ToLower path)
      | (libPart, Some relativePath) \<Rightarrow>
          map_option (\<lambda>libraryID m. ToLower (mf_Path m) = ToLower relativePath \<and> mf_LibraryID m = libraryID) (Atoi libPart))"

definition FindByPaths :: "playlist_env \<Rightarrow> user_ctx \<Rightarrow> string list \<Rightarrow> media_row list db_op" where
  "FindByPaths env ctx paths =
     (let query = List.map_filter path_condition paths
      in if query = [] then return_op []
         else bind_op (applyLibraryFilter env ctx) (\<lambda>restricted.
           select env (\<lambda>db. filter (\<lambda>m. list_ex (\<lambda>cond. cond m) query \<and> (restricted \<longrightarrow> library_granted ctx db (mf_LibraryID m))) (db_media db))))"

definition media_key :: "import_env \<Rightarrow> media_row \<Rightarrow> string" where
  "media_key im m = Itoa (mf_LibraryID m) @ '':'' @ im_lower im (im_nfc im (mf_Path m))"

definition path_key :: "import_env \<Rightarrow> string \<Rightarrow> string" where
  "path_key im path = im_lower im (im_nfc im path)"

definition matched_files :: "import_env \<Rightarrow> media_row list \<Rightarrow> string list \<Rightarrow> media_row list" where
  "matched_files im found resolvedPaths =
     (let existing = ToMap found (\<lambda>m. (media_key im m, m)) in List.map_filter (\<lambda>path. existing (path_key im path)) resolvedPaths)"

fun m3u_chunks :: "playlist_env \<Rightarrow> import_env \<Rightarrow> user_ctx \<Rightarrow> libraryMatcher \<Rightarrow> Folder option \<Rightarrow> string list list \<Rightarrow> Playlist \<Rightarrow> media_row list \<Rightarrow> (Playlist \<times> media_row list) db_op" where
  "m3u_chunks env im ctx lm folder [] pls mfs = return_op (pls, mfs)"
| "m3u_chunks env im ctx lm folder (lines # chunks) pls mfs =
     (case m3u_lines im lm folder lines pls of (pls1, filteredLines) \<Rightarrow>
        (let resolvedPaths = resolvePaths lm folder filteredLines
         in bind_op (try_op (FindByPaths env ctx (lookupCandidates im resolvedPaths))) (\<lambda>r.
              case r of
                Inl _ \<Rightarrow> m3u_chunks env im ctx lm folder chunks pls1 mfs
              | Inr found \<Rightarrow> m3u_chunks env im ctx lm folder chunks pls1 (mfs @ matched_files im found resolvedPaths))))"

definition newPathResolver :: "playlist_env \<Rightarrow> import_env \<Rightarrow> libraryMatcher db_op" where
  "newPathResolver env im = bind_op (select env (\<lambda>_. im_libraries im)) (\<lambda>libs. return_op (newLibraryMatcher libs))"

definition parseM3U :: "playlist_env \<Rightarrow> import_env \<Rightarrow> user_ctx \<Rightarrow> Playlist \<Rightarrow> Folder option \<Rightarrow> string \<Rightarrow> Playlist db_op" where
  "parseM3U env im ctx pls folder txt =
     bind_op (newPathResolver env im) (\<lambda>lm.
     bind_op (m3u_chunks env im ctx lm folder (CollectChunks (LinesFrom txt) 100) pls []) (\<lambda>(pls1, mfs).
       let pls2 = (if pls_Name pls1 = [] then pls1\<lparr>pls_Name := im_nowText im\<rparr> else pls1)
       in return_op (AddMediaFiles (st_add32 env) (map MediaFile.truncate mfs) (pls2\<lparr>pls_Tracks := []\<rparr>))))"

section \<open>Smart playlist files\<close>

definition newSyncedPlaylist :: "import_env \<Rightarrow> string \<Rightarrow> string \<Rightarrow> store_error + Playlist" where
  "newSyncedPlaylist im baseDir playlistFile =
     (let playlistPath = filepath_Join [baseDir, playlistFile]
      in case im_stat im playlistPath of
        None \<Rightarrow> Inl ErrFile
      | Some modTime \<Rightarrow>
          Inr (zero_Playlist\<lparr>pls_Name := take (length playlistFile - length (Ext playlistFile)) playlistFile,
            pls_Comment := ''Auto-imported from '' @ [CHR 0x27] @ playlistFile @ [CHR 0x27], pls_Public := False,
            pls_Path := playlistPath, pls_Sync := True, pls_UpdatedAt := modTime\<rparr>))"

record nspFile =
  nsp_Criteria :: Criteria
  nsp_Name :: string
  nsp_Comment :: string
  nsp_Public :: "bool option"

definition str_member :: "(string \<times> val) list \<Rightarrow> string \<Rightarrow> string" where
  "str_member kvs k = (case map_of (rev kvs) k of Some (VStr s) \<Rightarrow> s | _ \<Rightarrow> [])"

definition nsp_UnmarshalJSON :: "playlist_env \<Rightarrow> val \<Rightarrow> store_error + nspFile" where
  "nsp_UnmarshalJSON env doc =
     bind_result (case doc of VObj kvs \<Rightarrow> Inr kvs | VNull \<Rightarrow> Inr [] | _ \<Rightarrow> Inl ErrParse) (\<lambda>m.
       case UnmarshalJSON (st_fields env) (st_members env) (st_floats env) doc of
         Inl _ \<Rightarrow> Inl ErrParse
       | Inr c \<Rightarrow> Inr \<lparr>nsp_Criteria = c, nsp_Name = str_member m ''name'', nsp_Comment = str_member m ''comment'',
            nsp_Public = (case map_of (rev m) ''public'' of Some (VBool b) \<Rightarrow> Some b | _ \<Rightarrow> None)\<rparr>)"

definition parseNSP :: "playlist_env \<Rightarrow> import_env \<Rightarrow> Playlist \<Rightarrow> string \<Rightarrow> store_error + Playlist" where
  "parseNSP env im pls txt =
     (case im_json im (fst (read_all (im_buffers im) (NewReader (take (100 * 1024) txt)))) of
        None \<Rightarrow> Inl ErrParse
      | Some doc \<Rightarrow>
          bind_result (nsp_UnmarshalJSON env doc) (\<lambda>nsp.
            Inr (pls\<lparr>pls_Rules := Some (nsp_Criteria nsp),
              pls_Name := (if nsp_Name nsp \<noteq> [] then nsp_Name nsp else pls_Name pls),
              pls_Comment := (if nsp_Comment nsp \<noteq> [] then nsp_Comment nsp else pls_Comment pls),
              pls_Public := (case nsp_Public nsp of Some b \<Rightarrow> b | None \<Rightarrow> im_DefaultPlaylistPublicVisibility im)\<rparr>)))"

text \<open>The line and column an error message names for an offset.\<close>

fun position_loop :: "string \<Rightarrow> nat \<Rightarrow> nat \<Rightarrow> nat \<times> nat" where
  "position_loop [] line col = (line, col)"
| "position_loop (b # bs) line col =
     (if b = CHR 0x0A then position_loop bs (line + 1) 1 else position_loop bs line (col + 1))"

definition getPositionFromOffset :: "string \<Rightarrow> nat \<Rightarrow> nat \<times> nat" where
  "getPositionFromOffset data offset = position_loop (take offset data) 1 0"

section \<open>Importing\<close>

definition findByPathNormalized :: "playlist_env \<Rightarrow> import_env \<Rightarrow> string \<Rightarrow> Playlist db_op" where
  "findByPathNormalized env im path =
     bind_op (try_op (FindByPath env path)) (\<lambda>r.
       if r = Inl ErrNotFound then
         (let altPath = (if im_nfd im path = path then im_nfc im path else im_nfd im path)
          in if altPath \<noteq> path then FindByPath env altPath else throw_op ErrNotFound)
       else lift_op r)"

text \<open>The playlist returned has the id that \<open>Put\<close> gives it; none if nothing was stored.\<close>

definition import_updatePlaylist :: "playlist_env \<Rightarrow> import_env \<Rightarrow> user_ctx \<Rightarrow> Playlist \<Rightarrow> bool \<Rightarrow> Playlist db_op" where
  "import_updatePlaylist env im ctx newPls forceSync =
     bind_op (try_op (findByPathNormalized env im (pls_Path newPls))) (\<lambda>r.
       case r of
         Inr pls \<Rightarrow>
           if \<not> pls_Sync pls \<and> \<not> forceSync then return_op newPls
           else
             (let p = newPls\<lparr>pls_ID := pls_ID pls, pls_Name := pls_Name pls, pls_Comment := pls_Comment pls, pls_OwnerID := pls_OwnerID pls,
                    pls_Public := pls_Public pls, pls_UploadedImage := pls_UploadedImage pls, pls_EvaluatedAt := None\<rparr>
              in bind_op (Put env p []) (\<lambda>i. return_op (p\<lparr>pls_ID := i\<rparr>)))
       | Inl e \<Rightarrow>
           if e \<noteq> ErrNotFound then throw_op e
           else
             (let p = newPls\<lparr>pls_OwnerID := u_ID (UserFrom ctx),
                    pls_Public := (if IsSmartPlaylist newPls then pls_Public newPls else im_DefaultPlaylistPublicVisibility im)\<rparr>
              in bind_op (Put env p []) (\<lambda>i. return_op (p\<lparr>pls_ID := i\<rparr>))))"

definition parsePlaylist :: "playlist_env \<Rightarrow> import_env \<Rightarrow> user_ctx \<Rightarrow> string \<Rightarrow> Folder \<Rightarrow> Playlist db_op" where
  "parsePlaylist env im ctx playlistFile folder =
     bind_op (lift_op (newSyncedPlaylist im (AbsolutePath folder) playlistFile)) (\<lambda>pls.
       case im_open im (pls_Path pls) of
         None \<Rightarrow> throw_op ErrFile
       | Some txt \<Rightarrow>
           if ToLower (Ext playlistFile) = ''.nsp'' then lift_op (parseNSP env im pls txt)
           else parseM3U env im ctx pls (Some folder) txt)"

definition importFromFolder :: "playlist_env \<Rightarrow> import_env \<Rightarrow> user_ctx \<Rightarrow> Folder \<Rightarrow> string \<Rightarrow> bool \<Rightarrow> Playlist db_op" where
  "importFromFolder env im ctx folder filename forceSync =
     bind_op (parsePlaylist env im ctx filename folder) (\<lambda>pls. import_updatePlaylist env im ctx pls forceSync)"

definition ImportFromFolder :: "playlist_env \<Rightarrow> import_env \<Rightarrow> user_ctx \<Rightarrow> Folder \<Rightarrow> string \<Rightarrow> Playlist db_op" where
  "ImportFromFolder env im ctx folder filename = importFromFolder env im ctx folder filename False"

definition ImportM3U :: "playlist_env \<Rightarrow> import_env \<Rightarrow> user_ctx \<Rightarrow> string \<Rightarrow> Playlist db_op" where
  "ImportM3U env im ctx txt =
     bind_op (parseM3U env im ctx (zero_Playlist\<lparr>pls_OwnerID := u_ID (UserFrom ctx)\<rparr>) None txt) (\<lambda>pls.
     bind_op (Put env pls []) (\<lambda>i. return_op (pls\<lparr>pls_ID := i\<rparr>)))"

definition resolveFolder :: "playlist_env \<Rightarrow> import_env \<Rightarrow> string \<Rightarrow> Folder db_op" where
  "resolveFolder env im dir =
     bind_op (select env (\<lambda>_. im_libraries im)) (\<lambda>libs.
       case findLibrary (newLibraryMatcher libs) dir of
         None \<Rightarrow> throw_op ErrNotInLibrary
       | Some lib \<Rightarrow>
           bind_op (select env (\<lambda>_. im_folder im lib dir)) (\<lambda>found.
             case found of None \<Rightarrow> throw_op ErrNotFound | Some folder \<Rightarrow> return_op (folder\<lparr>fo_LibraryPath := lib_Path lib\<rparr>)))"

definition Abs :: "import_env \<Rightarrow> string \<Rightarrow> string option" where
  "Abs im path = (if IsAbs path then Some (Clean path) else map_option (\<lambda>wd. filepath_Join [wd, path]) (im_cwd im))"

definition ImportFile :: "playlist_env \<Rightarrow> import_env \<Rightarrow> user_ctx \<Rightarrow> string \<Rightarrow> bool \<Rightarrow> Playlist db_op" where
  "ImportFile env im ctx absolutePath sync =
     (case Abs im absolutePath of
        None \<Rightarrow> throw_op ErrFile
      | Some absPath \<Rightarrow>
          (let dir = Dir absPath; filename = Base absPath
           in bind_op (try_op (resolveFolder env im dir)) (\<lambda>r.
             case r of
               Inr folder \<Rightarrow>
                 bind_op (importFromFolder env im ctx folder filename sync) (\<lambda>pls.
                   if pls_ID pls \<noteq> [] \<and> pls_Sync pls \<noteq> sync
                   then bind_op (Put env (pls\<lparr>pls_Sync := sync\<rparr>) []) (\<lambda>_. return_op (pls\<lparr>pls_Sync := sync\<rparr>))
                   else return_op pls)
             | Inl e \<Rightarrow>
                 if e \<noteq> ErrNotInLibrary then throw_op e
                 else
                   bind_op (lift_op (newSyncedPlaylist im dir filename)) (\<lambda>pls0.
                     case im_open im absPath of
                       None \<Rightarrow> throw_op ErrFile
                     | Some txt \<Rightarrow>
                         bind_op (parseM3U env im ctx (pls0\<lparr>pls_Sync := sync\<rparr>) None txt) (\<lambda>pls.
                           import_updatePlaylist env im ctx pls sync)))))"

end
