(* ===== verification/Playlist_Import_Correct.thy ===== *)
theory Playlist_Import_Correct
  imports Playlist_Correct Playlist_Import
begin

text \<open>
  The import of playlist files: which tracks an imported playlist has and in which order, that paths in
  the file cannot lead out of the libraries, and what an import keeps of the playlist it updates.
\<close>

section \<open>Reading changes nothing\<close>

lemma read_only_try: "read_only m \<Longrightarrow> read_only (try_op m)"
  unfolding read_only_def try_op_def by (auto split: prod.splits) (metis snd_conv)+

lemma read_only_libraryFilter: "read_only (applyLibraryFilter env ctx)"
  unfolding applyLibraryFilter_def userSeesAllLibraries_def Let_def
  by (auto intro!: read_only_bind read_only_basic read_only_try)

lemma read_only_FindByPaths: "read_only (FindByPaths env ctx paths)"
  unfolding FindByPaths_def Let_def by (auto intro!: read_only_bind read_only_basic read_only_libraryFilter)

lemma read_only_chunks: "read_only (m3u_chunks env im ctx lm folder chunks pls mfs)"
  by (induction chunks arbitrary: pls mfs)
     (auto simp: Let_def split: prod.split sum.split intro!: read_only_bind read_only_basic read_only_try read_only_FindByPaths)

lemma read_only_parseM3U: "read_only (parseM3U env im ctx pls folder txt)"
  unfolding parseM3U_def newPathResolver_def Let_def
  by (auto split: prod.split intro!: read_only_bind read_only_basic read_only_chunks)

lemma read_only_FindByPath: "read_only (FindByPath env path)"
  unfolding FindByPath_def findBy_def selectPlaylist_def
  by (intro read_only_bind read_only_basic) (auto split: list.split intro: read_only_basic)

lemma read_only_findNormalized: "read_only (findByPathNormalized env im path)"
  unfolding findByPathNormalized_def Let_def
  by (auto intro!: read_only_bind read_only_basic read_only_try read_only_FindByPath)

lemma read_onlyD:
  assumes "read_only m" "m db = (r, db')"
  obtains n where "db' = db\<lparr>db_clock := n\<rparr>"
  using assms unfolding read_only_def by (metis snd_conv)

section \<open>The files of a chunk\<close>

text \<open>The files the user may see: \<open>applyLibraryFilter\<close>, when its query does not fail.\<close>

definition sees_library :: "user_ctx \<Rightarrow> playlist_db \<Rightarrow> go_int \<Rightarrow> bool" where
  "sees_library ctx db lib \<longleftrightarrow>
     (let user = loggedUser ctx
      in u_IsAdmin user \<or> u_ID user = invalidUserId \<or> library_granted ctx db lib \<or>
         db_libraries db \<noteq> [] \<and> length (u_Libraries user) = length (db_libraries db))"

definition readable_files :: "user_ctx \<Rightarrow> playlist_db \<Rightarrow> media_row list" where
  "readable_files ctx db = filter (\<lambda>m. sees_library ctx db (mf_LibraryID m)) (db_media db)"

definition named_by :: "import_env \<Rightarrow> string \<Rightarrow> media_row \<Rightarrow> bool" where
  "named_by im path m \<longleftrightarrow> list_ex (\<lambda>cond. cond m) (List.map_filter path_condition (lookupCandidates im [path]))"

lemma readable_clock [simp]: "readable_files ctx (db\<lparr>db_clock := n\<rparr>) = readable_files ctx db"
  by (simp add: readable_files_def sees_library_def library_granted_def)

lemma filter_outcome:
  assumes "applyLibraryFilter env ctx db = (Inr restricted, db')" "restricted \<longrightarrow> library_granted ctx db lib"
  shows "sees_library ctx db lib"
  using assms
  by (auto simp: applyLibraryFilter_def userSeesAllLibraries_def sees_library_def bind_op_def try_op_def select_def
      statement_def return_op_def Let_def split: if_splits prod.splits sum.splits)

lemma filter_calm:
  assumes "calm env"
  shows "yields (applyLibraryFilter env ctx) db (\<lambda>restricted db'. (\<exists>n. db' = db\<lparr>db_clock := n\<rparr>) \<and>
    (\<forall>lib. (restricted \<longrightarrow> library_granted ctx db lib) \<longleftrightarrow> sees_library ctx db lib))"
proof -
  have same: "\<exists>n. db = db\<lparr>db_clock := n\<rparr>" by (rule exI [of _ "db_clock db"]) simp
  show ?thesis
    using assms same
    by (auto simp: yields_def calm_def applyLibraryFilter_def userSeesAllLibraries_def sees_library_def bind_op_def try_op_def select_def
        statement_def return_op_def Let_def)
qed

lemma FindByPaths_sound:
  assumes "FindByPaths env ctx paths db = (Inr found, db')"
  shows "set found \<subseteq> set (readable_files ctx db)"
proof (cases "List.map_filter path_condition paths = []")
  case True
  then show ?thesis using assms by (simp add: FindByPaths_def return_op_def)
next
  case False
  let ?q = "List.map_filter path_condition paths"
  obtain r db1 where f: "applyLibraryFilter env ctx db = (r, db1)" by fastforce
  then obtain n where n: "db1 = db\<lparr>db_clock := n\<rparr>" by (rule read_onlyD [OF read_only_libraryFilter])
  from assms False f obtain restricted where r: "r = Inr restricted"
    by (auto simp: FindByPaths_def Let_def bind_op_def split: sum.splits)
  with assms False f n have "found = filter (\<lambda>m. list_ex (\<lambda>cond. cond m) ?q \<and> (restricted \<longrightarrow> library_granted ctx db (mf_LibraryID m))) (db_media db)"
    by (auto simp: FindByPaths_def Let_def bind_op_def select_def statement_def library_granted_def split: if_splits)
  then show ?thesis using filter_outcome [OF f [unfolded r]] by (auto simp: readable_files_def)
qed

lemma FindByPaths_calm:
  assumes "calm env"
  shows "yields (FindByPaths env ctx paths) db (\<lambda>found db'. (\<exists>n. db' = db\<lparr>db_clock := n\<rparr>) \<and>
    found = filter (\<lambda>m. list_ex (\<lambda>cond. cond m) (List.map_filter path_condition paths)) (readable_files ctx db))"
proof (cases "List.map_filter path_condition paths = []")
  case True
  have "\<exists>n. db = db\<lparr>db_clock := n\<rparr>" by (rule exI [of _ "db_clock db"]) simp
  with True show ?thesis by (simp add: FindByPaths_def yields_return)
next
  case False
  then show ?thesis
    unfolding FindByPaths_def Let_def if_not_P [OF False]
    by (intro yields_bind [OF filter_calm [OF assms]] yields_select [OF assms])
       (auto simp: readable_files_def library_granted_def intro: filter_cong)
qed

section \<open>The entries of a file\<close>

text \<open>The library-qualified paths a file lists, in order.\<close>

definition m3u_entries :: "import_env \<Rightarrow> Folder option \<Rightarrow> string \<Rightarrow> string list" where
  "m3u_entries im folder txt =
     (let lm = newLibraryMatcher (im_libraries im) in resolvePaths lm folder (snd (m3u_lines im lm folder (LinesFrom txt) zero_Playlist)))"

text \<open>
  What becomes of an entry: a track is a file the user may see with the path of the entry, up to case and
  normal form; and if there is one that the query's candidates name, the entry has a track.
\<close>

definition entry_ok :: "import_env \<Rightarrow> media_row list \<Rightarrow> string \<Rightarrow> media_row option \<Rightarrow> bool" where
  "entry_ok im files path r \<longleftrightarrow>
     (case r of Some m \<Rightarrow> m \<in> set files \<and> media_key im m = path_key im path
      | None \<Rightarrow> \<not> list_ex (\<lambda>m. media_key im m = path_key im path \<and> named_by im path m) files)"

lemma m3u_line_independent: "snd (m3u_line im lm folder line pls) = snd (m3u_line im lm folder line pls')"
  by (simp add: m3u_line_def Let_def split: option.split)

lemma m3u_lines_snd: "snd (m3u_lines im lm folder lines pls) = concat (map (\<lambda>line. snd (m3u_line im lm folder line zero_Playlist)) lines)"
proof (induction lines arbitrary: pls)
  case (Cons line lines)
  then show ?case using m3u_line_independent [of im lm folder line pls zero_Playlist] by (simp split: prod.split) (metis snd_conv)
qed simp

lemma map_filter_append: "List.map_filter f (xs @ ys) = List.map_filter f xs @ List.map_filter f ys"
  by (simp add: List.map_filter_def)

lemma lookupCandidates_set: "set (lookupCandidates im paths) = (\<Union>p\<in>set paths. set (lookupCandidates im [p]))"
proof -
  have u: "set (Unique xs) = set xs" for xs :: "string list" by (simp add: Unique_def unique_loop_spec)
  show ?thesis by (simp add: lookupCandidates_def u Let_def)
qed

lemma named_by_found:
  assumes "named_by im path m" "path \<in> set paths"
  shows "list_ex (\<lambda>cond. cond m) (List.map_filter path_condition (lookupCandidates im paths))"
  using assms by (auto simp: named_by_def list_ex_iff map_filter_def lookupCandidates_set [of im paths])

lemma existing_key:
  assumes "ToMap found (\<lambda>m. (media_key im m, m)) k = Some m"
  shows "m \<in> set found \<and> media_key im m = k"
  using assms by (auto simp: ToMap_spec dest: map_of_SomeD)

lemma existing_dom: "m \<in> set found \<Longrightarrow> ToMap found (\<lambda>m. (media_key im m, m)) (media_key im m) \<noteq> None"
  by (auto simp: ToMap_spec map_of_eq_None_iff image_iff rev_map)

lemma chunk_entries:
  assumes "found = filter (\<lambda>m. list_ex (\<lambda>cond. cond m) (List.map_filter path_condition (lookupCandidates im paths))) files"
  shows "\<exists>rs. list_all2 (entry_ok im files) paths rs \<and> matched_files im found paths = List.map_filter id rs"
proof (intro exI conjI)
  let ?e = "\<lambda>path. ToMap found (\<lambda>m. (media_key im m, m)) (path_key im path)"
  have ok: "entry_ok im files path (?e path)" if "path \<in> set paths" for path
  proof (cases "?e path")
    case None
    have False if m: "m \<in> set files" "media_key im m = path_key im path" "named_by im path m" for m
    proof -
      have "m \<in> set found" using m(1) named_by_found [OF m(3) \<open>path \<in> set paths\<close>] assms by simp
      from existing_dom [OF this, of im] show False using m(2) None by simp
    qed
    then show ?thesis unfolding None entry_ok_def option.case list_ex_iff by blast
  next
    case (Some m)
    from existing_key [OF this] show ?thesis unfolding Some using assms by (simp add: entry_ok_def)
  qed
  show "list_all2 (entry_ok im files) paths (map ?e paths)"
    by (simp add: list_all2_map2) (rule list_all2_same [THEN iffD2], use ok in blast)
  show "matched_files im found paths = List.map_filter id (map ?e paths)"
    by (simp add: matched_files_def List.map_filter_def comp_def filter_map Let_def)
qed

lemma m3u_lines_append:
  "fst (m3u_lines im lm folder (xs @ ys) pls) = fst (m3u_lines im lm folder ys (fst (m3u_lines im lm folder xs pls)))"
  by (induction xs arbitrary: pls) (auto split: prod.split, metis fst_conv)

lemma yields_try: "yields m db (\<lambda>a. P (Inr a)) \<Longrightarrow> yields (try_op m) db P"
  by (auto simp: yields_def try_op_def)

lemma chunks_calm:
  assumes "calm env"
  shows "yields (m3u_chunks env im ctx lm folder chunks pls mfs) db (\<lambda>(pls', mfs') db'.
    (\<exists>n. db' = db\<lparr>db_clock := n\<rparr>) \<and> pls' = fst (m3u_lines im lm folder (concat chunks) pls) \<and>
    (\<exists>rs. list_all2 (entry_ok im (readable_files ctx db)) (resolvePaths lm folder (snd (m3u_lines im lm folder (concat chunks) pls))) rs \<and>
       mfs' = mfs @ List.map_filter id rs))"
proof (induction chunks arbitrary: pls mfs db)
  case Nil
  have "\<exists>n. db = db\<lparr>db_clock := n\<rparr>" by (rule exI [of _ "db_clock db"]) simp
  then show ?case by (auto intro!: yields_return simp: resolvePaths_def List.map_filter_def)
next
  case (Cons lines chunks)
  let ?files = "readable_files ctx db"
  let ?paths = "\<lambda>ls. resolvePaths lm folder (snd (m3u_lines im lm folder ls zero_Playlist))"
  have paths: "resolvePaths lm folder (snd (m3u_lines im lm folder ls p)) = ?paths ls" for ls p by (simp add: m3u_lines_snd)
  have app: "?paths (xs @ ys) = ?paths xs @ ?paths ys" for xs ys by (simp add: m3u_lines_snd resolvePaths_def map_filter_append)
  obtain pls1 fs where l: "m3u_lines im lm folder lines pls = (pls1, fs)" by fastforce
  have fs: "resolvePaths lm folder fs = ?paths lines" using paths [of lines pls] l by simp
  let ?found = "filter (\<lambda>m. list_ex (\<lambda>cond. cond m) (List.map_filter path_condition (lookupCandidates im (?paths lines)))) ?files"
  obtain rs where rs: "list_all2 (entry_ok im ?files) (?paths lines) rs" "matched_files im ?found (?paths lines) = List.map_filter id rs"
    using chunk_entries [of ?found im "?paths lines" ?files] by blast
  show ?case
    unfolding m3u_chunks.simps l prod.case Let_def fs
  proof (rule yields_bind [OF yields_try [where P = "\<lambda>r db'. (\<exists>n. db' = db\<lparr>db_clock := n\<rparr>) \<and> r = Inr ?found"]])
    show "yields (FindByPaths env ctx (lookupCandidates im (?paths lines))) db (\<lambda>a db'. (\<exists>n. db' = db\<lparr>db_clock := n\<rparr>) \<and> Inr a = (Inr ?found :: store_error + _))"
      by (rule yields_mono [OF FindByPaths_calm [OF assms]]) simp
  next
    fix r :: "store_error + media_row list" and db'
    assume a: "(\<exists>n. db' = db\<lparr>db_clock := n\<rparr>) \<and> r = Inr ?found"
    then obtain n where n: "db' = db\<lparr>db_clock := n\<rparr>" and r: "r = Inr ?found" by blast
    show "yields (case r of Inl _ \<Rightarrow> m3u_chunks env im ctx lm folder chunks pls1 mfs
        | Inr found \<Rightarrow> m3u_chunks env im ctx lm folder chunks pls1 (mfs @ matched_files im found (?paths lines))) db'
      (\<lambda>(pls', mfs') db'. (\<exists>n. db' = db\<lparr>db_clock := n\<rparr>) \<and> pls' = fst (m3u_lines im lm folder (concat (lines # chunks)) pls) \<and>
        (\<exists>rs. list_all2 (entry_ok im ?files) (resolvePaths lm folder (snd (m3u_lines im lm folder (concat (lines # chunks)) pls))) rs \<and>
           mfs' = mfs @ List.map_filter id rs))"
      unfolding r sum.case rs(2)
    proof (rule yields_mono [OF Cons.IH], clarify)
      fix mfs' n' rs'
      assume rs': "list_all2 (entry_ok im (readable_files ctx db')) (resolvePaths lm folder (snd (m3u_lines im lm folder (concat chunks) pls1))) rs'"
      have "list_all2 (entry_ok im ?files) (?paths (concat (lines # chunks))) (rs @ rs')"
        using rs(1) rs' [unfolded paths [of _ pls1] n readable_clock] by (simp only: concat.simps app list_all2_appendI)
      moreover have "fst (m3u_lines im lm folder (concat (lines # chunks)) pls) = fst (m3u_lines im lm folder (concat chunks) pls1)"
        using l by (simp add: m3u_lines_append)
      ultimately show "(\<exists>n. db'\<lparr>db_clock := n'\<rparr> = db\<lparr>db_clock := n\<rparr>) \<and>
          fst (m3u_lines im lm folder (concat chunks) pls1) = fst (m3u_lines im lm folder (concat (lines # chunks)) pls) \<and>
          (\<exists>rs2. list_all2 (entry_ok im ?files) (resolvePaths lm folder (snd (m3u_lines im lm folder (concat (lines # chunks)) pls))) rs2 \<and>
             (mfs @ List.map_filter id rs) @ List.map_filter id rs' = mfs @ List.map_filter id rs2)"
        unfolding paths [of _ pls] using n by (auto simp: map_filter_append intro!: exI [of _ "rs @ rs'"])
    qed
  qed
qed

section \<open>Parsing\<close>

lemma m3u_line_fields: "\<exists>x y. fst (m3u_line im lm folder line pls) = pls\<lparr>pls_Name := x, pls_ExternalImageURL := y\<rparr>"
proof -
  have "\<exists>x y. p = p\<lparr>pls_Name := x, pls_ExternalImageURL := y\<rparr>" for p :: Playlist
    by (rule exI [of _ "pls_Name p"], rule exI [of _ "pls_ExternalImageURL p"]) simp
  moreover have "\<exists>x' y. p\<lparr>pls_Name := x\<rparr> = p\<lparr>pls_Name := x', pls_ExternalImageURL := y\<rparr>" for p :: Playlist and x
    by (rule exI [of _ x], rule exI [of _ "pls_ExternalImageURL p"]) simp
  moreover have "\<exists>x y'. p\<lparr>pls_ExternalImageURL := y\<rparr> = p\<lparr>pls_Name := x, pls_ExternalImageURL := y'\<rparr>" for p :: Playlist and y
    by (rule exI [of _ "pls_Name p"], rule exI [of _ y]) simp
  ultimately show ?thesis by (simp add: m3u_line_def Let_def split: option.split)
qed

lemma m3u_lines_fields: "\<exists>x y. fst (m3u_lines im lm folder lines pls) = pls\<lparr>pls_Name := x, pls_ExternalImageURL := y\<rparr>"
proof (induction lines arbitrary: pls)
  case Nil
  show ?case by (rule exI [of _ "pls_Name pls"], rule exI [of _ "pls_ExternalImageURL pls"]) simp
next
  case (Cons line lines)
  obtain x y where xy: "fst (m3u_line im lm folder line pls) = pls\<lparr>pls_Name := x, pls_ExternalImageURL := y\<rparr>" using m3u_line_fields by blast
  obtain x' y' where "fst (m3u_lines im lm folder lines (fst (m3u_line im lm folder line pls))) =
      (fst (m3u_line im lm folder line pls))\<lparr>pls_Name := x', pls_ExternalImageURL := y'\<rparr>" using Cons.IH by blast
  with xy have "fst (m3u_lines im lm folder (line # lines) pls) = pls\<lparr>pls_Name := x', pls_ExternalImageURL := y'\<rparr>"
    by (simp add: case_prod_beta)
  then show ?case by blast
qed

text \<open>The columns that parsing leaves alone.\<close>

definition parsed_from :: "Playlist \<Rightarrow> Playlist \<Rightarrow> bool" where
  "parsed_from pls pls' \<longleftrightarrow> pls_ID pls' = pls_ID pls \<and> pls_OwnerID pls' = pls_OwnerID pls \<and> pls_Public pls' = pls_Public pls \<and>
     pls_Sync pls' = pls_Sync pls \<and> pls_Path pls' = pls_Path pls \<and> pls_Rules pls' = pls_Rules pls"

lemma AddMediaFiles_media: "pls_MediaFiles (AddMediaFiles a mfs (pls\<lparr>pls_Tracks := []\<rparr>)) = mfs"
  by (simp add: AddMediaFiles_def pls_MediaFiles_def track_MediaFiles_def)

lemma pls_MediaFiles_id [simp]: "pls_MediaFiles (p\<lparr>pls_ID := i\<rparr>) = pls_MediaFiles p"
  by (simp add: pls_MediaFiles_def)

lemma parse_calm:
  assumes "calm env"
  shows "yields (parseM3U env im ctx pls folder txt) db (\<lambda>pls' db'. (\<exists>n. db' = db\<lparr>db_clock := n\<rparr>) \<and> parsed_from pls pls' \<and>
    (\<exists>rs. list_all2 (entry_ok im (readable_files ctx db)) (m3u_entries im folder txt) rs \<and>
       pls_MediaFiles pls' = map MediaFile.truncate (List.map_filter id rs)))"
proof -
  let ?lm = "newLibraryMatcher (im_libraries im)"
  have lines: "concat (CollectChunks (LinesFrom txt) 100) = LinesFrom txt" using CollectChunks_spec [of 100 "LinesFrom txt"] by simp
  have res: "yields (newPathResolver env im) db (\<lambda>lm db'. lm = ?lm \<and> (\<exists>n. db' = db\<lparr>db_clock := n\<rparr>))"
    unfolding newPathResolver_def
    by (rule yields_bind [OF yields_select [OF assms, where P = "\<lambda>libs db'. libs = im_libraries im \<and> (\<exists>n. db' = db\<lparr>db_clock := n\<rparr>)"]])
       (auto intro: yields_return)
  have fin: "parsed_from pls (AddMediaFiles a mfs ((if pls_Name p = [] then p\<lparr>pls_Name := z\<rparr> else p)\<lparr>pls_Tracks := []\<rparr>))"
    if "p = pls\<lparr>pls_Name := x, pls_ExternalImageURL := y\<rparr>" for a mfs p z x y
    unfolding that by (simp add: parsed_from_def AddMediaFiles_def refreshStats_def)
  show ?thesis
    unfolding parseM3U_def
  proof (rule yields_bind [OF res], elim conjE exE)
    fix lm db1 n assume lm: "lm = ?lm" and db1: "db1 = db\<lparr>db_clock := n\<rparr>"
    show "yields (bind_op (m3u_chunks env im ctx lm folder (CollectChunks (LinesFrom txt) 100) pls [])
       (\<lambda>(pls1, mfs). let pls2 = if pls_Name pls1 = [] then pls1\<lparr>pls_Name := im_nowText im\<rparr> else pls1
          in return_op (AddMediaFiles (st_add32 env) (map MediaFile.truncate mfs) (pls2\<lparr>pls_Tracks := []\<rparr>)))) db1
      (\<lambda>pls' db'. (\<exists>n. db' = db\<lparr>db_clock := n\<rparr>) \<and> parsed_from pls pls' \<and>
        (\<exists>rs. list_all2 (entry_ok im (readable_files ctx db)) (m3u_entries im folder txt) rs \<and>
           pls_MediaFiles pls' = map MediaFile.truncate (List.map_filter id rs)))"
      unfolding lm
    proof (rule yields_bind [OF chunks_calm [OF assms]], clarify)
      fix mfs n' rs
      let ?p = "fst (m3u_lines im ?lm folder (concat (CollectChunks (LinesFrom txt) 100)) pls)"
      assume rs: "list_all2 (entry_ok im (readable_files ctx db1)) (resolvePaths ?lm folder (snd (m3u_lines im ?lm folder (concat (CollectChunks (LinesFrom txt) 100)) pls))) rs"
      obtain x y where xy: "?p = pls\<lparr>pls_Name := x, pls_ExternalImageURL := y\<rparr>" using m3u_lines_fields by blast
      have "list_all2 (entry_ok im (readable_files ctx db)) (m3u_entries im folder txt) rs"
        using rs by (simp add: m3u_entries_def lines db1 m3u_lines_snd Let_def)
      then show "yields (let pls2 = if pls_Name ?p = [] then ?p\<lparr>pls_Name := im_nowText im\<rparr> else ?p
          in return_op (AddMediaFiles (st_add32 env) (map MediaFile.truncate ([] @ List.map_filter id rs)) (pls2\<lparr>pls_Tracks := []\<rparr>))) (db1\<lparr>db_clock := n'\<rparr>)
        (\<lambda>pls' db'. (\<exists>n. db' = db\<lparr>db_clock := n\<rparr>) \<and> parsed_from pls pls' \<and>
          (\<exists>rs. list_all2 (entry_ok im (readable_files ctx db)) (m3u_entries im folder txt) rs \<and>
             pls_MediaFiles pls' = map MediaFile.truncate (List.map_filter id rs)))"
        unfolding Let_def
        by (intro yields_return conjI exI [of _ rs]) (auto simp: fin [OF xy] AddMediaFiles_media db1)
    qed
  qed
qed

section \<open>Storing\<close>

lemma edit_replace:
  assumes "calm env" "i \<in> row_id ` set rows0" "editing i rows0 us T db" "unique_index T"
  shows "yields (repo_updatePlaylist env i ids) db (\<lambda>_ db'. \<exists>T'. editing i rows0 us T' db' \<and> holds_tracks i T' ids \<and>
    (\<forall>q. q \<noteq> i \<longrightarrow> positions q T' = positions q T))"
proof -
  obtain T' where T': "updatePlaylist i ids T = Inr T'" "holds_tracks i T' ids" "\<forall>q. q \<noteq> i \<longrightarrow> positions q T' = positions q T"
    using updatePlaylist_holds [OF assms(4), of i ids] by blast
  let ?T1 = "sql_delete (\<lambda>t. tr_playlist t = i) T"
  have ins: "sql_insert (number_from i 1 (concat (chunk 200 ids))) ?T1 = Inr T'"
    using T'(1) by (simp add: updatePlaylist_def addTracks_def concat_chunk)
  show ?thesis
    unfolding repo_updatePlaylist_def repo_addTracks_def
    by (rule yields_bind [OF edit_tracks [OF assms(1,3) refl]], rule yields_bind [OF edit_chunks [OF assms(1,2) _ ins]], assumption,
        rule yields_mono [OF edit_finish [OF assms(1)]], assumption) (use T' in blast)
qed

lemma editing_new_row:
  assumes "editing i (rows @ [r]) us T db" "i \<notin> row_id ` set rows" "row_id r = i"
  obtains r' where "db_rows db = rows @ [r']" "touched r r'"
proof -
  have all: "list_all2 (kept_row i) (rows @ [r]) (db_rows db)" using assms(1) by (simp add: editing_def)
  then obtain rs r' where rs: "db_rows db = rs @ [r']" "list_all2 (kept_row i) rows rs" "kept_row i r r'"
    by (auto simp: list_all2_append1 list_all2_Cons1)
  have "list_all2 (=) rows rs"
    by (rule list.rel_mono_strong [OF rs(2)]) (use assms(2) in \<open>auto simp: kept_row_def split: if_splits\<close>)
  then have "rs = rows" by (simp add: list.rel_eq)
  then show ?thesis using that rs assms(3) by (simp add: kept_row_def)
qed

text \<open>A playlist without an id is stored under a new one: a row at the end, and its tracks.\<close>

definition stored_new :: "playlist_db \<Rightarrow> Playlist \<Rightarrow> string \<Rightarrow> playlist_db \<Rightarrow> bool" where
  "stored_new db p i db' \<longleftrightarrow> i \<notin> row_ids db \<and> holds_tracks i (db_tracks db') (map mf_ID (pls_MediaFiles p)) \<and>
     (\<forall>q. q \<noteq> i \<longrightarrow> positions q (db_tracks db') = positions q (db_tracks db)) \<and>
     (\<exists>r. db_rows db' = db_rows db @ [r] \<and> row_id r = i \<and> row_owner r = pls_OwnerID p \<and> row_rules r = None \<and>
        pls_Name (row_playlist r) = pls_Name p \<and> pls_Public (row_playlist r) = pls_Public p \<and> pls_Sync (row_playlist r) = pls_Sync p)"

lemma no_tracks_yet:
  assumes "tables_ok db" "i \<notin> row_ids db"
  shows "positions i (db_tracks db) = []"
  using assms by (auto simp: tables_ok_iff positions_def filter_empty_conv)

lemma stored_newI:
  assumes "editing i (db_rows db @ [r]) us T db'" "row_id r = i" "i \<notin> row_ids db" "holds_tracks i T (map mf_ID (pls_MediaFiles p))"
    and "\<forall>q. q \<noteq> i \<longrightarrow> positions q T = positions q (db_tracks db)" "row_owner r = pls_OwnerID p" "row_rules r = None"
    and "pls_Name (row_playlist r) = pls_Name p \<and> pls_Public (row_playlist r) = pls_Public p \<and> pls_Sync (row_playlist r) = pls_Sync p"
  shows "stored_new db p i db'"
proof -
  obtain r' where r': "db_rows db' = db_rows db @ [r']" "touched r r'"
    using editing_new_row [OF assms(1) _ assms(2)] assms(3) by (auto simp: row_ids_def)
  have "db_tracks db' = T" using assms(1) by (simp add: editing_def)
  then show ?thesis
    using r' assms touched_keys [OF r'(2)] by (auto simp: stored_new_def touched_def)
qed

lemma Put_new:
  assumes "calm env" "tables_ok db" "pls_ID p = []" "pls_Rules p = None" "pls_OwnerID p \<in> set (db_users db)" "\<And>n. st_newId env n \<notin> row_ids db"
  shows "yields (Put env p []) db (stored_new db p)"
proof -
  let ?now = "st_now env (db_clock db)"
  let ?q = "p\<lparr>pls_CreatedAt := ?now, pls_UpdatedAt := ?now\<rparr>"
  let ?r = "\<lambda>i. \<lparr>row_playlist = ?q\<lparr>pls_ID := i, pls_Tracks := [], pls_Rules := None\<rparr>, row_rules = None\<rparr>"
  let ?started = "\<lambda>i db1. i \<notin> row_ids db \<and> editing i (db_rows db @ [?r i]) (db_users db) (db_tracks db) db1"
  have fresh: "\<forall>x\<in>set (db_rows db). pls_ID (row_playlist x) \<noteq> st_newId env (Suc (db_clock db))"
    using assms(6) [of "Suc (db_clock db)"] unfolding row_ids_def row_id_def image_iff by metis
  have put: "yields (repo_put env [] ?q []) db ?started"
    using assms(1,3-5) fresh by (auto simp: yields_def repo_put_def bind_op_def lift_op_def PostMapArgs_def return_op_def statement_def calm_def Let_def
        row_ids_def list_ex_iff editing_def kept_row_def touched_refl row_id_def image_iff intro!: list_all2_refl)
  have smart: "\<not> IsSmartPlaylist p" using assms(4) by (simp add: IsSmartPlaylist_def)
  have row: "row_id (?r i) = i" "row_owner (?r i) = pls_OwnerID p" for i by (simp_all add: row_id_def row_owner_def)
  have u: "unique_index (db_tracks db)" using assms(2) by (simp add: tables_ok_def)
  have new: "yields (updateTracks env i (pls_MediaFiles p)) db1 (\<lambda>_. stored_new db p i)" if "?started i db1" for i db1
    unfolding updateTracks_def
    by (rule yields_mono [OF edit_replace [OF assms(1) _ conjunct2 [OF that] u]])
       (use that row stored_newI [where r = "?r i" and p = p and db = db] in \<open>auto simp: image_iff row_id_def\<close>)
  have none: "yields (bind_op (enqueueCoverRebuild env i) (\<lambda>_. bind_op (refreshCounters env (?q\<lparr>pls_ID := i\<rparr>)) (\<lambda>_. return_op i))) db1 (stored_new db p)"
    if "?started i db1" "pls_Tracks p = []" for i db1
  proof (rule yields_bind [OF edit_enqueue [OF assms(1) conjunct2 [OF that(1)]]])
    fix db2 assume e: "editing i (db_rows db @ [?r i]) (db_users db) (db_tracks db) db2"
    have "holds_tracks i (db_tracks db) (map mf_ID (pls_MediaFiles p))"
      using no_tracks_yet [OF assms(2), of i] that by (simp add: holds_tracks_def pls_MediaFiles_def)
    then show "yields (bind_op (refreshCounters env (?q\<lparr>pls_ID := i\<rparr>)) (\<lambda>_. return_op i)) db2 (stored_new db p)"
      by (intro yields_bind [OF edit_counters [OF assms(1)]] yields_return) (use e that row stored_newI [where r = "?r i" and p = p and db = db] in auto)
  qed
  let ?rest = "\<lambda>i. if pls_Tracks p \<noteq> [] then bind_op (updateTracks env i (pls_MediaFiles p)) (\<lambda>_. return_op i)
      else bind_op (enqueueCoverRebuild env i) (\<lambda>_. bind_op (refreshCounters env (?q\<lparr>pls_ID := i\<rparr>)) (\<lambda>_. return_op i))"
  have "Put env p [] db = bind_op (repo_put env [] ?q []) ?rest db"
    by (simp add: Put_def Let_def assms(3) smart cong del: if_weak_cong)
  moreover have "yields (bind_op (repo_put env [] ?q []) ?rest) db (stored_new db p)"
    by (rule yields_bind [OF put]) (auto intro!: yields_bind [OF new] yields_return none)
  ultimately show ?thesis
    unfolding yields_def by simp
qed

section \<open>Paths stay below the libraries\<close>

definition plain_part :: "string \<Rightarrow> bool" where
  "plain_part c \<longleftrightarrow> c \<noteq> [] \<and> c \<noteq> ''.'' \<and> c \<noteq> ''..'' \<and> CHR ''/'' \<notin> set c"

definition rooted_path :: "string list \<Rightarrow> string" where
  "rooted_path cs = CHR ''/'' # Join cs ''/''"

lemma clean_components_subset: "set (clean_components r out cs) \<subseteq> set out \<union> set cs"
  by (induction r out cs rule: clean_components.induct) (auto split: list.splits if_splits)

lemma clean_plain: "list_all plain_part cs \<Longrightarrow> clean_components r out cs = rev out @ cs"
  by (induction cs arbitrary: out) (auto simp: plain_part_def)

lemma split_Join: "list_all plain_part cs \<Longrightarrow> cs \<noteq> [] \<Longrightarrow> split_on (CHR ''/'') (Join cs ''/'') = cs"
proof (induction cs)
  case (Cons c cs)
  then show ?case by (cases cs) (auto simp: plain_part_def split_on_append split_on_no)
qed simp

lemma split_rooted:
  assumes "list_all plain_part cs"
  shows "split_on (CHR ''/'') (rooted_path cs) = [] # (if cs = [] then [[]] else cs)"
  using split_Join [OF assms] by (simp add: rooted_path_def)

lemma rooted_path_clean:
  assumes "list_all plain_part cs"
  shows "Clean (rooted_path cs) = rooted_path cs" "path_parts (rooted_path cs) = cs"
proof -
  have "clean_components True [] (if cs = [] then [[]] else cs) = cs" using clean_plain [OF assms] by simp
  then show "Clean (rooted_path cs) = rooted_path cs"
    unfolding Clean_def Let_def split_rooted [OF assms] by (simp add: rooted_path_def)
  show "path_parts (rooted_path cs) = cs"
    using assms by (auto simp: path_parts_def split_rooted plain_part_def list_all_iff intro!: filter_True)
qed

lemma Join_head:
  assumes "cs \<noteq> []" "hd cs \<noteq> []"
  shows "Join cs ''/'' \<noteq> [] \<and> hd (Join cs ''/'') = hd (hd cs)"
  using assms by (cases cs rule: list.exhaust; cases "tl cs") (auto simp: hd_append)

lemma Clean_rooted:
  assumes "IsAbs (Clean p)"
  obtains cs where "Clean p = rooted_path cs" "list_all plain_part cs"
proof -
  let ?parts = "split_on (CHR ''/'') p"
  have sep: "CHR ''/'' \<notin> set c" if "c \<in> set (clean_components r [] ?parts)" for r c
    using that clean_components_subset [of r "[]" ?parts] split_on_no_sep by fastforce
  have root: "p \<noteq> [] \<and> hd p = CHR ''/''"
  proof (rule ccontr)
    assume no: "\<not> ?thesis"
    let ?cs = "clean_components False [] ?parts"
    have "hd (hd ?cs) \<noteq> CHR ''/''" if "?cs \<noteq> []"
      using sep [of "hd ?cs" False] clean_components_plain [of "hd ?cs" False "[]" ?parts] that hd_in_set by fastforce
    then have "Join ?cs ''/'' \<noteq> [] \<Longrightarrow> hd (Join ?cs ''/'') \<noteq> CHR ''/''"
      using Join_head [of ?cs] clean_components_plain [of "hd ?cs" False "[]" ?parts] by (cases "?cs = []") auto
    with no assms show False by (auto simp: Clean_def Let_def IsAbs_def HasPrefix_iff split: if_splits)
  qed
  let ?cs = "clean_components True [] ?parts"
  have "Clean p = rooted_path ?cs" using root by (simp add: Clean_def Let_def rooted_path_def)
  moreover have "list_all plain_part ?cs"
    using sep clean_components_plain [of _ True "[]" ?parts] clean_components_rooted [of _ "[]" ?parts]
    by (auto simp: list_all_iff plain_part_def)
  ultimately show ?thesis using that by blast
qed

lemma split_on_sep: "split_on d (xs @ d # ys) = split_on d xs @ split_on d ys"
proof (induction xs)
  case (Cons x xs)
  then show ?case by (cases "split_on d xs") auto
qed simp

lemma under_rooted:
  assumes "under_path (rooted_path ts) (rooted_path bs)" "list_all plain_part ts" "list_all plain_part bs"
  obtains rest where "ts = bs @ rest"
proof -
  from assms(1) obtain r where r0: "rooted_path ts = rooted_path bs @ r" by (auto simp: under_path_def HasPrefix_iff)
  then have "r = [] \<or> (\<exists>y. r = CHR ''/'' # y)"
    using assms(1) by (cases r) (simp_all add: under_path_def)
  note r = r0 this
  show ?thesis
  proof (cases "r = []")
    case True
    then have "path_parts (rooted_path ts) = path_parts (rooted_path bs)" using r(1) by simp
    then show ?thesis using that [of "[]"] rooted_path_clean(2) assms(2,3) by simp
  next
    case False
    then obtain y where "rooted_path ts = rooted_path bs @ CHR ''/'' # y" using r by blast
    then have "path_parts (rooted_path ts) = path_parts (rooted_path bs) @ path_parts y" by (simp add: path_parts_def split_on_sep)
    then show ?thesis using that rooted_path_clean(2) assms(2,3) by metis
  qed
qed

lemma find_SomeD: "List.find P xs = Some x \<Longrightarrow> x \<in> set xs \<and> P x"
  by (induction xs) (auto split: if_splits)

lemma zip_map_self: "zip (map f ls) ls = map (\<lambda>l. (f l, l)) ls"
  by (induction ls) auto

lemma findLibrary_from:
  assumes "findLibrary (newLibraryMatcher libs) path = Some l"
  shows "l \<in> set libs" "under_path path (Clean (lib_Path l))"
  using assms by (auto simp: findLibrary_def newLibraryMatcher_def Let_def zip_map_self dest!: find_SomeD)

lemma Clean_IsAbs: "IsAbs p \<Longrightarrow> IsAbs (Clean p)"
  by (cases p) (auto simp: IsAbs_def HasPrefix_iff Clean_def Let_def)

lemma library_path:
  assumes "findLibrary (newLibraryMatcher libs) (Clean x) = Some l" "list_all (\<lambda>l. IsAbs (lib_Path l)) libs"
  obtains bs rest where "Clean (lib_Path l) = rooted_path bs" "Clean x = rooted_path (bs @ rest)" "list_all plain_part (bs @ rest)"
proof -
  note from_lib = findLibrary_from [OF assms(1)]
  have base: "IsAbs (Clean (lib_Path l))" using from_lib(1) assms(2) Clean_IsAbs by (simp add: list_all_iff)
  then have "IsAbs (Clean x)" using from_lib(2) by (auto simp: IsAbs_def under_path_def HasPrefix_iff)
  from base obtain bs where bs: "Clean (lib_Path l) = rooted_path bs" "list_all plain_part bs" by (rule Clean_rooted)
  from \<open>IsAbs (Clean x)\<close> obtain ts where ts: "Clean x = rooted_path ts" "list_all plain_part ts" by (rule Clean_rooted)
  obtain rest where "ts = bs @ rest" using under_rooted [OF _ ts(2) bs(2)] from_lib(2) bs(1) ts(1) by metis
  then show ?thesis using that bs ts by simp
qed

lemma drop_common_prefix: "drop_common bs (bs @ rest) = ([], rest)"
  by (induction bs) (cases rest, auto)

lemma Rel_below:
  assumes "list_all plain_part (bs @ rest)"
  shows "Rel (rooted_path bs) (rooted_path (bs @ rest)) = Some (if rest = [] then ''.'' else Join rest ''/'')"
proof -
  have b: "list_all plain_part bs" using assms by simp
  have abs': "IsAbs (rooted_path cs)" "rooted_path cs \<noteq> ''.''" for cs by (simp_all add: rooted_path_def IsAbs_def HasPrefix_iff)
  have "rooted_path (bs @ rest) = rooted_path bs \<longleftrightarrow> rest = []"
    using rooted_path_clean(2) [OF assms] rooted_path_clean(2) [OF b] by auto
  then show ?thesis
    by (auto simp: Rel_def Let_def rooted_path_clean [OF assms] rooted_path_clean [OF b] abs' drop_common_prefix)
qed

text \<open>An entry names a file below a library's path: no \<open>..\<close> is left in it.\<close>

definition below_library :: "Library list \<Rightarrow> string \<Rightarrow> bool" where
  "below_library libs path \<longleftrightarrow>
     (\<exists>l\<in>set libs. \<exists>rel. path = Itoa (lib_ID l) @ '':'' @ rel \<and> ''..'' \<notin> set (split_on (CHR ''/'') rel))"

lemma entry_below:
  assumes "ToQualifiedString (resolvePath (newLibraryMatcher libs) line folder) = Some path" "list_all (\<lambda>l. IsAbs (lib_Path l)) libs"
  shows "below_library libs path"
proof -
  let ?lm = "newLibraryMatcher libs"
  have "\<exists>x. resolvePath ?lm line folder = findInLibraries ?lm (Clean x)"
    by (cases folder; cases "IsAbs line") (auto simp: resolvePath_def)
  then obtain x where x: "resolvePath ?lm line folder = findInLibraries ?lm (Clean x)" by blast
  obtain l where l: "findLibrary ?lm (Clean x) = Some l"
    using assms(1) unfolding x by (cases "findLibrary ?lm (Clean x)") (auto simp: ToQualifiedString_def findInLibraries_def findLibraryForPath_def split: if_splits)
  obtain bs rest where p: "Clean (lib_Path l) = rooted_path bs" "Clean x = rooted_path (bs @ rest)" "list_all plain_part (bs @ rest)"
    by (rule library_path [OF l assms(2)])
  have path: "path = Itoa (lib_ID l) @ '':'' @ (if rest = [] then ''.'' else Join rest ''/'')"
  proof -
    have "ToQualifiedString (findInLibraries ?lm (Clean x)) =
        (if lib_ID l = 0 then None else map_option (\<lambda>r. Itoa (lib_ID l) @ '':'' @ r) (Rel (Clean (lib_Path l)) (Clean x)))"
      by (simp add: ToQualifiedString_def findInLibraries_def findLibraryForPath_def l)
    then show ?thesis using assms(1) unfolding x p(1,2) Rel_below [OF p(3)] by (auto split: if_splits)
  qed
  have "''..'' \<notin> set (split_on (CHR ''/'') (if rest = [] then ''.'' else Join rest ''/''))"
    using p(3) split_Join [of rest] by (auto simp: list_all_iff plain_part_def)
  then show ?thesis using path findLibrary_from(1) [OF l] unfolding below_library_def by blast
qed

text \<open>The image of a playlist: none, a remote one if that is enabled, or a file below a library's path.\<close>

definition image_ok :: "import_env \<Rightarrow> string \<Rightarrow> bool" where
  "image_ok im url \<longleftrightarrow> url = [] \<or>
     im_EnableM3UExternalAlbumArt im \<and> (HasPrefix url ''http://'' \<or> HasPrefix url ''https://'') \<or>
     (\<exists>l\<in>set (im_libraries im). under_path url (Clean (lib_Path l))) \<and> ''..'' \<notin> set (split_on (CHR ''/'') url)"

lemma image_resolved:
  assumes "list_all (\<lambda>l. IsAbs (lib_Path l)) (im_libraries im)"
  shows "image_ok im (resolveImageURL im v folder (newLibraryMatcher (im_libraries im)))"
proof -
  let ?lm = "newLibraryMatcher (im_libraries im)"
  have loc: "image_ok im (if fst (findLibraryForPath ?lm (Clean x)) = 0 then [] else Clean x)" for x
  proof (cases "findLibrary ?lm (Clean x)")
    case (Some l)
    obtain bs rest where p: "Clean x = rooted_path (bs @ rest)" "list_all plain_part (bs @ rest)"
      by (rule library_path [OF Some assms]) blast
    have "''..'' \<notin> set (split_on (CHR ''/'') (Clean x))"
      unfolding p(1) split_rooted [OF p(2)] using p(2) by (auto simp: list_all_iff plain_part_def)
    then show ?thesis using findLibrary_from [OF Some] by (auto simp: image_ok_def)
  qed (simp add: image_ok_def findLibraryForPath_def)
  have loc': "image_ok im (if fst (findLibraryForPath ?lm p) = 0 then [] else p)" if "resolveLocalPath w folder = Some p" for w p
  proof -
    have "\<exists>x. p = Clean x" using that by (auto simp: resolveLocalPath_def split: option.splits if_split_asm)
    then show ?thesis using loc by blast
  qed
  show ?thesis
  proof (cases "resolveLocalPath (TrimSpace v) folder")
    case None
    then show ?thesis by (simp add: resolveImageURL_def Let_def image_ok_def)
  next
    case (Some p)
    then show ?thesis using loc' [OF Some] by (auto simp: resolveImageURL_def Let_def image_ok_def)
  qed
qed

text \<open>Whatever fails: the tracks are readable files with the path of an entry, and the image is acceptable.\<close>

definition import_ok :: "import_env \<Rightarrow> media_row list \<Rightarrow> (string \<Rightarrow> bool) \<Rightarrow> media_row \<Rightarrow> bool" where
  "import_ok im files listed m \<longleftrightarrow> m \<in> set files \<and> (\<exists>path. listed path \<and> media_key im m = path_key im path)"

lemma matched_sound:
  assumes "m \<in> set (matched_files im found paths)" "set found \<subseteq> set files" "\<And>p. p \<in> set paths \<Longrightarrow> listed p"
  shows "import_ok im files listed m"
  using assms existing_key by (fastforce simp: matched_files_def map_filter_def Let_def import_ok_def)

lemma chunks_sound:
  assumes "m3u_chunks env im ctx lm folder chunks pls mfs db = (Inr (pls', mfs'), db')"
    and "\<And>p. p \<in> set (resolvePaths lm folder (snd (m3u_lines im lm folder (concat chunks) zero_Playlist))) \<Longrightarrow> listed p"
    and "\<And>v. image_ok im (resolveImageURL im v folder lm)" "image_ok im (pls_ExternalImageURL pls)"
    and "\<forall>m\<in>set mfs. import_ok im (readable_files ctx db) listed m"
  shows "image_ok im (pls_ExternalImageURL pls') \<and> (\<forall>m\<in>set mfs'. import_ok im (readable_files ctx db) listed m)"
  using assms(1,2,4,5)
proof (induction chunks arbitrary: pls mfs db)
  case (Cons lines chunks)
  obtain pls1 fs where l: "m3u_lines im lm folder lines pls = (pls1, fs)" by fastforce
  have line_image: "image_ok im (pls_ExternalImageURL (fst (m3u_line im lm folder line p)))" if "image_ok im (pls_ExternalImageURL p)" for line p
    using that assms(3) by (simp add: m3u_line_def Let_def split: option.split)
  have "image_ok im (pls_ExternalImageURL (fst (m3u_lines im lm folder ls p)))" if "image_ok im (pls_ExternalImageURL p)" for ls p
    using that by (induction ls arbitrary: p) (auto simp: case_prod_beta intro: line_image)
  from this [OF Cons.prems(3), of lines] have image: "image_ok im (pls_ExternalImageURL pls1)" by (simp add: l)
  have fs: "fs = snd (m3u_lines im lm folder lines zero_Playlist)"
    using m3u_lines_snd [of im lm folder lines pls] m3u_lines_snd [of im lm folder lines zero_Playlist] l by simp
  let ?paths = "resolvePaths lm folder fs"
  have listed: "p \<in> set ?paths \<Longrightarrow> listed p" "p \<in> set (resolvePaths lm folder (snd (m3u_lines im lm folder (concat chunks) zero_Playlist))) \<Longrightarrow> listed p" for p
    using Cons.prems(2) [of p] by (simp_all add: fs m3u_lines_snd resolvePaths_def map_filter_append)
  obtain r db1 where f: "FindByPaths env ctx (lookupCandidates im ?paths) db = (r, db1)" by fastforce
  then obtain n where n: "db1 = db\<lparr>db_clock := n\<rparr>" by (rule read_onlyD [OF read_only_FindByPaths])
  note IH = Cons.IH [where db = db1, unfolded n readable_clock, folded n]
  show ?case
  proof (cases r)
    case (Inl e)
    then have step: "m3u_chunks env im ctx lm folder chunks pls1 mfs db1 = (Inr (pls', mfs'), db')"
      using Cons.prems(1) f l by (auto simp: Let_def bind_op_def try_op_def split: if_splits)
    show ?thesis by (rule IH [OF step listed(2) image Cons.prems(4)])
  next
    case (Inr found)
    then have step: "m3u_chunks env im ctx lm folder chunks pls1 (mfs @ matched_files im found ?paths) db1 = (Inr (pls', mfs'), db')"
      using Cons.prems(1) f l by (auto simp: Let_def bind_op_def try_op_def)
    have "set found \<subseteq> set (readable_files ctx db)" using FindByPaths_sound f Inr by blast
    then have all: "\<forall>m\<in>set (mfs @ matched_files im found ?paths). import_ok im (readable_files ctx db) listed m"
      using Cons.prems(4) matched_sound [of _ im found ?paths "readable_files ctx db" listed] listed(1) by auto
    show ?thesis by (rule IH [OF step listed(2) image all])
  qed
qed (simp add: return_op_def)

section \<open>Updating the playlist of a file\<close>

text \<open>The columns that belong to the playlist's owner, not to the file.\<close>

definition identity_of :: "Playlist \<Rightarrow> string \<times> string \<times> string \<times> bool \<times> string" where
  "identity_of p = (pls_Name p, pls_Comment p, pls_OwnerID p, pls_Public p, pls_UploadedImage p)"

definition identity_kept :: "string \<Rightarrow> string \<times> string \<times> string \<times> bool \<times> string \<Rightarrow> playlist_db \<Rightarrow> bool" where
  "identity_kept i K db \<longleftrightarrow> (\<forall>r\<in>set (db_rows db). row_id r = i \<longrightarrow> identity_of (row_playlist r) = K)"

lemma touched_identity: "touched r r' \<Longrightarrow> row_id r' = row_id r \<and> identity_of (row_playlist r') = identity_of (row_playlist r)"
  by (auto simp: touched_def identity_of_def row_id_def)

interpretation ident: refresh_invariant "identity_kept i K" "\<lambda>_. True" "\<lambda>_. True" for i K
proof
  fix db p f
  assume I: "identity_kept i K db" and f: "\<And>r. touched r (f r)"
  have "row_id (f r) = row_id r \<and> identity_of (row_playlist (f r)) = identity_of (row_playlist r)" for r
    using touched_identity [OF f] .
  then show "identity_kept i K (update_rows p f db)" using I by (auto simp: identity_kept_def update_rows_def)
qed (simp_all add: identity_kept_def)

lemma ident_enqueue: "ident.keeps i K (enqueueCoverRebuild env j) (\<lambda>_. True)"
  unfolding enqueueCoverRebuild_def
  by (rule ident.keeps_bind [OF ident.keeps_try [of _ _ _ "\<lambda>_. True"] ident.keeps_unit], rule ident.keeps_statement) (auto simp: identity_kept_def)

lemma ident_add_chunks: "ident.keeps i K (add_chunks env p pos cs) (\<lambda>_. True)"
  by (induction cs arbitrary: pos)
     (auto intro!: ident.keeps_unit ident.keeps_bind [OF ident.keeps_insert_tracks] simp: list_all_iff dest: number_from_rows)

lemma ident_replace: "ident.keeps i K (repo_updatePlaylist env p ids) (\<lambda>_. True)"
  unfolding repo_updatePlaylist_def repo_addTracks_def
  by (intro ident.keeps_bind [OF ident.keeps_delete_tracks [where p = p]] ident.keeps_bind [OF ident_add_chunks] ident.keeps_bind [OF ident_enqueue]
        ident.keeps_bind [OF ident.keeps_refreshCounters] ident.keeps_unit) auto

lemma write_identity:
  "identity_of (row_playlist (write_columns (filterUpdateValues []) p rules r)) = identity_of p" "row_id (write_columns w p rules r) = row_id r"
  by (simp_all add: write_columns_def filterUpdateValues_def identity_of_def row_id_def Let_def)

lemma ident_put:
  assumes "i \<noteq> []"
  shows "ident.keeps i (identity_of p) (repo_put env i p []) (\<lambda>_. True)"
proof -
  have upd: "ident.keeps i (identity_of p) (statement env (\<lambda>db. if list_ex (\<lambda>r. row_id r = i) (db_rows db) then
      (if filterUpdateValues [] ''owner_id'' \<and> pls_OwnerID p \<notin> set (db_users db) then Inl ErrDb
       else Inr (True, update_rows i (write_columns (filterUpdateValues []) p rules) db))
      else Inr (False, db))) (\<lambda>_. True)" for rules
  proof (rule ident.keeps_statement)
    fix db a db'
    assume I: "identity_kept i (identity_of p) db"
    have "identity_kept i (identity_of p) (update_rows i (write_columns (filterUpdateValues []) p rules) db)"
      unfolding identity_kept_def
    proof (intro ballI impI)
      fix s assume "s \<in> set (db_rows (update_rows i (write_columns (filterUpdateValues []) p rules) db))" "row_id s = i"
      then obtain r where r: "r \<in> set (db_rows db)" "s = (if row_id r = i then write_columns (filterUpdateValues []) p rules r else r)"
        by (auto simp: update_rows_def)
      then show "identity_of (row_playlist s) = identity_of p"
        using I \<open>row_id s = i\<close> unfolding identity_kept_def by (cases "row_id r = i") (simp_all add: write_identity)
    qed
    then show "identity_kept i (identity_of p) db' \<and> True"
      if "(if list_ex (\<lambda>r. row_id r = i) (db_rows db) then
          (if filterUpdateValues [] ''owner_id'' \<and> pls_OwnerID p \<notin> set (db_users db) then Inl ErrDb
           else Inr (True, update_rows i (write_columns (filterUpdateValues []) p rules) db))
          else Inr (False, db)) = Inr (a, db')"
      using that I by (simp split: if_splits)
  qed
  have ins: "ident.keeps i (identity_of p) (statement env (\<lambda>db. let i' = (if i = [] then st_newId env (db_clock db) else i)
      in if list_ex (\<lambda>r. row_id r = i') (db_rows db) \<or> pls_OwnerID p \<notin> set (db_users db) then Inl ErrDb
         else Inr (i', db\<lparr>db_rows := db_rows db @ [\<lparr>row_playlist = p\<lparr>pls_ID := i', pls_Tracks := [], pls_Rules := None\<rparr>, row_rules = rules\<rparr>]\<rparr>)))
      (\<lambda>_. True)" for rules
    by (rule ident.keeps_statement) (auto simp: identity_kept_def identity_of_def Let_def split: if_splits)
  show ?thesis
    unfolding repo_put_def if_not_P [OF assms]
    by (rule ident.keeps_bind [OF ident.keeps_lift [of _ "\<lambda>_. True"]], simp, rule ident.keeps_bind [OF upd])
       (auto intro: ident.keeps_unit ins [unfolded if_not_P [OF assms] Let_def])
qed

lemma ident_Put:
  assumes "pls_ID p \<noteq> []"
  shows "ident.keeps (pls_ID p) (identity_of p) (Put env p []) (\<lambda>_. True)"
proof -
  let ?keeps = "ident.keeps (pls_ID p) (identity_of p)"
  have put: "?keeps (repo_put env (pls_ID p) (p\<lparr>pls_UpdatedAt := t\<rparr>) []) (\<lambda>_. True)" for t
    using ident_put [OF assms, of "p\<lparr>pls_UpdatedAt := t\<rparr>" env] by (simp add: identity_of_def)
  have tail: "?keeps (if IsSmartPlaylist p then return_op i
      else if pls_Tracks p \<noteq> [] then bind_op (updateTracks env i (pls_MediaFiles p)) (\<lambda>_. return_op i)
      else bind_op (return_op ()) (\<lambda>_. bind_op (refreshCounters env (q\<lparr>pls_ID := i\<rparr>)) (\<lambda>_. return_op i))) (\<lambda>_. True)" for i q
    unfolding updateTracks_def
    by (auto intro!: ident.keeps_unit ident.keeps_bind [OF ident.keeps_unit] ident.keeps_bind [OF ident_replace] ident.keeps_bind [OF ident.keeps_refreshCounters])
  have "Put env p [] = (\<lambda>db. bind_op (repo_put env (pls_ID p) (p\<lparr>pls_UpdatedAt := st_now env (db_clock db)\<rparr>) []) (\<lambda>i.
      if IsSmartPlaylist p then return_op i
      else if pls_Tracks p \<noteq> [] then bind_op (updateTracks env i (pls_MediaFiles p)) (\<lambda>_. return_op i)
      else bind_op (return_op ()) (\<lambda>_. bind_op (refreshCounters env (p\<lparr>pls_UpdatedAt := st_now env (db_clock db), pls_ID := i\<rparr>)) (\<lambda>_. return_op i))) db)"
    by (simp add: Put_def Let_def assms cong del: if_weak_cong)
  moreover have "?keeps \<dots> (\<lambda>_. True)"
    by (rule ident.keeps_at, rule ident.keeps_bind [OF put tail])
  ultimately show ?thesis by simp
qed

lemma collect_hd: "collect (map f rows) = Inr (p # ps) \<Longrightarrow> \<exists>r\<in>set rows. f r = Inr p"
  by (cases rows) (auto simp: bind_result_def split: sum.splits)

lemma FindByPath_row:
  assumes "FindByPath env path db = (Inr old, db')"
  obtains r where "r \<in> set (db_rows db)" "row_id r = pls_ID old" "identity_of (row_playlist r) = identity_of old"
proof -
  let ?rows = "filter (\<lambda>r. row_owner r \<in> set (db_users db) \<and> pls_Path (row_playlist r) = path) (db_rows db)"
  from assms obtain ps where "collect (map (PostScan env) ?rows) = Inr (old # ps)"
    by (auto simp: FindByPath_def findBy_def selectPlaylist_def bind_op_def select_def statement_def lift_op_def throw_op_def return_op_def Let_def
        split: if_splits sum.splits list.splits)
  then obtain r where r: "r \<in> set (db_rows db)" "PostScan env r = Inr old" using collect_hd by fastforce
  then have "row_id r = pls_ID old" "identity_of (row_playlist r) = identity_of old"
    by (auto simp: PostScan_def bind_result_def identity_of_def row_id_def split: sum.splits)
  then show ?thesis using that r(1) by blast
qed

lemma findNormalized_row:
  assumes "findByPathNormalized env im path db = (Inr old, db')"
  obtains r where "r \<in> set (db_rows db)" "row_id r = pls_ID old" "identity_of (row_playlist r) = identity_of old"
proof -
  obtain r1 db1 where f: "FindByPath env path db = (r1, db1)" by fastforce
  then obtain n where n: "db1 = db\<lparr>db_clock := n\<rparr>" by (rule read_onlyD [OF read_only_FindByPath])
  have "\<exists>path' dbx db2. FindByPath env path' dbx = (Inr old, db2) \<and> db_rows dbx = db_rows db"
  proof (cases "r1 = Inl ErrNotFound")
    case True
    then show ?thesis using assms f n
      by (auto simp: findByPathNormalized_def bind_op_def try_op_def throw_op_def Let_def split: if_splits) force+
  next
    case False
    then show ?thesis using assms f n
      by (auto simp: findByPathNormalized_def bind_op_def try_op_def lift_op_def split: if_splits)
  qed
  then show ?thesis using FindByPath_row that by metis
qed

section \<open>Properties: what is imported\<close>

text \<open>
  C15. An uploaded M3U file becomes a playlist of its entries. When no statement fails, \<open>ImportM3U\<close> stores one new
  playlist, private, not synced and owned by the user, and touches no other. Its tracks are, in the order
  of the lines of the file and across the chunks in which they are looked up, one for each line that names
  a file of a library the user may see: an entry with a track has the path of the file it names, up to
  case and Unicode normal form, and an entry without one is named by no such file.
\<close>

theorem m3u_upload_imports_entries:
  assumes "calm env" "tables_ok db" "u_ID usr \<in> set (db_users db)" "\<And>n. st_newId env n \<notin> row_ids db"
  shows "\<exists>pls db' rs. ImportM3U env im (Some usr) txt db = (Inr pls, db') \<and>
    list_all2 (entry_ok im (readable_files (Some usr) db)) (m3u_entries im None txt) rs \<and>
    pls_MediaFiles pls = map MediaFile.truncate (List.map_filter id rs) \<and> stored_new db pls (pls_ID pls) db' \<and>
    pls_OwnerID pls = u_ID usr \<and> \<not> pls_Public pls \<and> \<not> pls_Sync pls"
proof -
  let ?p0 = "zero_Playlist\<lparr>pls_OwnerID := u_ID usr\<rparr>"
  have "yields (ImportM3U env im (Some usr) txt) db (\<lambda>pls db'. \<exists>rs.
      list_all2 (entry_ok im (readable_files (Some usr) db)) (m3u_entries im None txt) rs \<and>
      pls_MediaFiles pls = map MediaFile.truncate (List.map_filter id rs) \<and> stored_new db pls (pls_ID pls) db' \<and>
      pls_OwnerID pls = u_ID usr \<and> \<not> pls_Public pls \<and> \<not> pls_Sync pls)"
    unfolding ImportM3U_def UserFrom_def option.case
  proof (rule yields_bind [OF parse_calm [OF assms(1)]], elim conjE exE)
    fix pls1 db1 n rs
    assume db1: "db1 = db\<lparr>db_clock := n\<rparr>" and p: "parsed_from ?p0 pls1"
      and rs: "list_all2 (entry_ok im (readable_files (Some usr) db)) (m3u_entries im None txt) rs"
        "pls_MediaFiles pls1 = map MediaFile.truncate (List.map_filter id rs)"
    have same: "stored_new db1 pls1 i db2 \<Longrightarrow> stored_new db (pls1\<lparr>pls_ID := i\<rparr>) i db2" for i db2
      by (simp add: stored_new_def db1 row_ids_def)
    have "tables_ok db1" using assms(2) by (simp add: db1 tables_ok_def owner_known_def)
    then have "yields (Put env pls1 []) db1 (stored_new db1 pls1)"
      using Put_new [of env db1 pls1] assms p by (simp add: parsed_from_def db1 row_ids_def zero_Playlist_def)
    then show "yields (bind_op (Put env pls1 []) (\<lambda>i. return_op (pls1\<lparr>pls_ID := i\<rparr>))) db1 (\<lambda>pls db'. \<exists>rs.
        list_all2 (entry_ok im (readable_files (Some usr) db)) (m3u_entries im None txt) rs \<and>
        pls_MediaFiles pls = map MediaFile.truncate (List.map_filter id rs) \<and> stored_new db pls (pls_ID pls) db' \<and>
        pls_OwnerID pls = u_ID usr \<and> \<not> pls_Public pls \<and> \<not> pls_Sync pls)"
      by (rule yields_bind, intro yields_return exI [of _ rs])
         (use rs p same in \<open>simp add: parsed_from_def zero_Playlist_def\<close>)
  qed
  then show ?thesis unfolding yields_def by blast
qed

text \<open>A library in \<open>/music\<close> with two files, and a file that lists them in another spelling and one outside.\<close>

definition sample_import :: import_env where
  "sample_import =
     \<lparr>im_nfc = id, im_nfd = id, im_lower = ToLower, im_mime = (\<lambda>e. if e = ''.mp3'' then ''audio/mpeg'' else []), im_json = (\<lambda>_. None),
      im_buffers = [], im_stat = (\<lambda>_. Some 0), im_open = (\<lambda>_. None), im_cwd = None, im_nowText = ''now'',
      im_libraries = [\<lparr>lib_ID = 1, lib_Path = ''/music''\<rparr>], im_folder = (\<lambda>_ _. None),
      im_EnableM3UExternalAlbumArt = False, im_DefaultPlaylistPublicVisibility = False\<rparr>"

definition song_at :: "string \<Rightarrow> string \<Rightarrow> media_row" where
  "song_at i path = (sample_song i)\<lparr>mf_Path := path\<rparr>"

definition sample_music :: playlist_db where
  "sample_music = sample_tables\<lparr>db_media := [song_at ''a'' ''A/One.mp3'', song_at ''b'' ''b/two.mp3'']\<rparr>"

definition sample_m3u :: string where
  "sample_m3u = ''#PLAYLIST:Mix'' @ [LF] @ ''/music/b/../b/two.mp3'' @ [LF] @ ''/etc/x.mp3'' @ [LF] @ ''file:///music/a/%6Fne.mp3''"

lemma sample_lines: "LinesFrom sample_m3u = [''#PLAYLIST:Mix'', ''/music/b/../b/two.mp3'', ''/etc/x.mp3'', ''file:///music/a/%6Fne.mp3'']"
proof -
  have "\<forall>l\<in>set [''#PLAYLIST:Mix'', ''/music/b/../b/two.mp3'', ''/etc/x.mp3'']. one_line l" "one_line ''file:///music/a/%6Fne.mp3''" by code_simp+
  from LinesFrom_roundtrip [OF _ this, of "[LF]"] show ?thesis by (simp add: sample_m3u_def)
qed

lemma sample_entries: "m3u_entries sample_import None sample_m3u = [''1:b/two.mp3'', ''1:a/one.mp3'']"
  unfolding m3u_entries_def sample_lines by code_simp

theorem m3u_upload_imports_entries_witness:
  "\<exists>pls db'. ImportM3U sample_store sample_import (Some (sample_member ''ann'')) sample_m3u sample_music = (Inr pls, db') \<and>
     stored_new sample_music pls (pls_ID pls) db' \<and> map mf_ID (pls_MediaFiles pls) = [''b'', ''a'']"
proof -
  let ?files = "[song_at ''a'' ''A/One.mp3'', song_at ''b'' ''b/two.mp3'']"
  have new: "st_newId sample_store n \<notin> row_ids sample_music" for n
    by (auto simp: row_ids_def sample_music_def sample_tables_def sample_store_def row_id_def sample_list_def)
  have h: "calm sample_store" "tables_ok sample_music" "u_ID (sample_member ''ann'') \<in> set (db_users sample_music)"
    by (simp add: calm_def sample_store_def, code_simp, code_simp)
  have files: "readable_files (Some (sample_member ''ann'')) sample_music = ?files" by code_simp
  from m3u_upload_imports_entries [OF h new, of sample_import sample_m3u] obtain pls db' rs
    where res: "ImportM3U sample_store sample_import (Some (sample_member ''ann'')) sample_m3u sample_music = (Inr pls, db')"
      "stored_new sample_music pls (pls_ID pls) db'" "pls_MediaFiles pls = map MediaFile.truncate (List.map_filter id rs)"
      and rs: "list_all2 (entry_ok sample_import ?files) [''1:b/two.mp3'', ''1:a/one.mp3''] rs"
    unfolding sample_entries files by blast
  then obtain r1 r2 where r: "rs = [r1, r2]" "entry_ok sample_import ?files ''1:b/two.mp3'' r1" "entry_ok sample_import ?files ''1:a/one.mp3'' r2"
    by (auto simp: list_all2_Cons1)
  have named: "list_ex (\<lambda>m. media_key sample_import m = path_key sample_import ''1:b/two.mp3'' \<and> named_by sample_import ''1:b/two.mp3'' m) ?files"
    "list_ex (\<lambda>m. media_key sample_import m = path_key sample_import ''1:a/one.mp3'' \<and> named_by sample_import ''1:a/one.mp3'' m) ?files"
    by code_simp+
  have keys: "media_key sample_import (song_at ''a'' ''A/One.mp3'') \<noteq> path_key sample_import ''1:b/two.mp3''"
    "media_key sample_import (song_at ''b'' ''b/two.mp3'') \<noteq> path_key sample_import ''1:a/one.mp3''" by code_simp+
  have "r1 = Some (song_at ''b'' ''b/two.mp3'')" "r2 = Some (song_at ''a'' ''A/One.mp3'')"
  proof -
    have "r1 \<noteq> None" "r2 \<noteq> None" using r(2,3) named by (auto simp only: entry_ok_def split: option.splits)
    then obtain m1 m2 where m: "r1 = Some m1" "r2 = Some m2" by blast
    show "r1 = Some (song_at ''b'' ''b/two.mp3'')" "r2 = Some (song_at ''a'' ''A/One.mp3'')"
      using r(2,3) keys unfolding m by (auto simp: entry_ok_def)
  qed
  then have "map mf_ID (pls_MediaFiles pls) = [''b'', ''a'']"
    unfolding res(3) r(1) by (simp add: List.map_filter_def song_at_def sample_song_def MediaFile.defs)
  with res(1,2) show ?thesis by (intro exI [of _ pls] exI [of _ db'] conjI)
qed

text \<open>
  C14. Importing a playlist file never leads out of the libraries. Whatever the file says - absolute
  paths, \<open>..\<close>, file URLs with escapes - and whichever statements fail: each track of the parsed playlist
  is a file in a library the user may see, with the path of an entry that lies below the path of a
  library, with no \<open>..\<close> in it; the image is unset, a remote one if those are enabled, or a path below
  that of a library, with no \<open>..\<close> in it; and the tables are not changed. (Library paths are absolute.)
\<close>

theorem imports_stay_in_libraries:
  assumes "parseM3U env im ctx pls folder txt db = (Inr pls', db')" "list_all (\<lambda>l. IsAbs (lib_Path l)) (im_libraries im)"
    and "pls_ExternalImageURL pls = []"
  shows "(\<forall>mf\<in>set (pls_MediaFiles pls'). \<exists>m\<in>set (readable_files ctx db). mf = MediaFile.truncate m \<and>
      (\<exists>path. below_library (im_libraries im) path \<and> media_key im m = path_key im path)) \<and>
    image_ok im (pls_ExternalImageURL pls') \<and> (\<exists>n. db' = db\<lparr>db_clock := n\<rparr>)"
proof -
  let ?lm = "newLibraryMatcher (im_libraries im)"
  obtain db1 r db2 where db1: "newPathResolver env im db = (Inr ?lm, db1)"
    and chunks: "m3u_chunks env im ctx ?lm folder (CollectChunks (LinesFrom txt) 100) pls [] db1 = (r, db2)"
    using assms(1) by (auto simp: parseM3U_def newPathResolver_def bind_op_def select_def statement_def return_op_def Let_def split: if_splits prod.splits sum.splits)
  then obtain n where n: "db1 = db\<lparr>db_clock := n\<rparr>"
    by (auto simp: newPathResolver_def bind_op_def select_def statement_def return_op_def Let_def split: if_splits)
  obtain pls1 mfs where r: "r = Inr (pls1, mfs)" and p: "pls_MediaFiles pls' = map MediaFile.truncate mfs" "pls_ExternalImageURL pls' = pls_ExternalImageURL pls1"
    using assms(1) db1 chunks
    by (cases r) (auto simp: parseM3U_def bind_op_def return_op_def Let_def AddMediaFiles_media AddMediaFiles_def refreshStats_def pls_MediaFiles_def track_MediaFiles_def split: if_splits)
  have below: "below_library (im_libraries im) q"
    if "q \<in> set (resolvePaths ?lm folder (snd (m3u_lines im ?lm folder (concat (CollectChunks (LinesFrom txt) 100)) zero_Playlist)))" for q
    using that entry_below [OF _ assms(2)] by (auto simp: resolvePaths_def map_filter_def)
  have "image_ok im (pls_ExternalImageURL pls1) \<and> (\<forall>m\<in>set mfs. import_ok im (readable_files ctx db1) (below_library (im_libraries im)) m)"
    by (rule chunks_sound [OF chunks [unfolded r] below image_resolved [OF assms(2)]]) (use assms(3) in \<open>simp_all add: image_ok_def\<close>)
  moreover obtain n' where "db' = db\<lparr>db_clock := n'\<rparr>" using read_onlyD [OF read_only_parseM3U assms(1)] .
  ultimately show ?thesis using p by (auto simp: import_ok_def n)
qed

theorem imports_stay_in_libraries_witness:
  "\<exists>pls' db'. parseM3U sample_store sample_import (Some (sample_member ''ann'')) zero_Playlist None sample_m3u sample_music = (Inr pls', db') \<and>
     image_ok sample_import (pls_ExternalImageURL pls') \<and>
     (\<forall>mf\<in>set (pls_MediaFiles pls'). \<exists>m\<in>set (readable_files (Some (sample_member ''ann'')) sample_music). mf = MediaFile.truncate m)"
proof -
  have "calm sample_store" by (simp add: calm_def sample_store_def)
  from parse_calm [OF this, of sample_import "Some (sample_member ''ann'')" zero_Playlist None sample_m3u sample_music]
  obtain pls' db' where p: "parseM3U sample_store sample_import (Some (sample_member ''ann'')) zero_Playlist None sample_m3u sample_music = (Inr pls', db')"
    unfolding yields_def by blast
  have "list_all (\<lambda>l. IsAbs (lib_Path l)) (im_libraries sample_import)" "pls_ExternalImageURL zero_Playlist = []" by code_simp+
  from imports_stay_in_libraries [OF p this] p show ?thesis by blast
qed

text \<open>
  C16. Importing a file again updates its playlist and nothing else. If a playlist was imported from the
  file before, then, whichever statements fail: the tables stay consistent; the playlists of every user
  but the owner of that one are untouched; the playlist keeps its id, and with it its name, comment,
  owner, visibility and uploaded image, whatever the file says; and if the owner has turned syncing off
  and the import is not forced, nothing is written at all.
\<close>

theorem reimport_keeps_identity:
  assumes "tables_ok db" "[] \<notin> row_ids db" "findByPathNormalized env im (pls_Path new) db = (Inr old, db1)"
  shows "case import_updatePlaylist env im ctx new forceSync db of (r, db') \<Rightarrow>
    tables_ok db' \<and> foreign (pls_OwnerID old) db' = foreign (pls_OwnerID old) db \<and>
    identity_kept (pls_ID old) (identity_of old) db' \<and>
    (\<not> pls_Sync old \<and> \<not> forceSync \<longrightarrow> r = Inr new \<and> (\<exists>n. db' = db\<lparr>db_clock := n\<rparr>))"
proof -
  let ?p = "new\<lparr>pls_ID := pls_ID old, pls_Name := pls_Name old, pls_Comment := pls_Comment old, pls_OwnerID := pls_OwnerID old,
    pls_Public := pls_Public old, pls_UploadedImage := pls_UploadedImage old, pls_EvaluatedAt := None\<rparr>"
  let ?F = "foreign (pls_OwnerID old) db"
  obtain n where n: "db1 = db\<lparr>db_clock := n\<rparr>" by (rule read_onlyD [OF read_only_findNormalized assms(3)])
  obtain r where r: "r \<in> set (db_rows db)" "row_id r = pls_ID old" "identity_of (row_playlist r) = identity_of old"
    by (rule findNormalized_row [OF assms(3)])
  have owner: "row_owner r = pls_OwnerID old" using r(3) by (simp add: row_owner_def identity_of_def)
  have ne: "pls_ID ?p \<noteq> []" using assms(2) r(1,2) by (simp add: row_ids_def) (metis imageI)
  have start: "foreign_kept (pls_OwnerID old) ?F db" using assms(1) by (simp add: foreign_kept_def tables_ok_def)
  have ok: "tables_ok db1" "foreign_kept (pls_OwnerID old) ?F db1"
    using assms(1) start by (simp_all add: n integrity.I_clock privacy.I_clock)
  have kept: "identity_kept (pls_ID old) (identity_of old) db"
  proof -
    have "s = r" if "s \<in> set (db_rows db)" "row_id s = pls_ID old" for s
      using that r(1,2) assms(1) unfolding tables_ok_def distinct_map inj_on_def by metis
    then show ?thesis using r(3) unfolding identity_kept_def by blast
  qed
  then have kept1: "identity_kept (pls_ID old) (identity_of old) db1" by (simp add: n identity_kept_def)
  have mine: "pls_ID old \<notin> row_id ` set (fst ?F)" using privacy.mine_row [OF start r(1) owner] r(2) by simp
  have "identity_of ?p = identity_of old" by (simp add: identity_of_def)
  then have id: "ident.keeps (pls_ID old) (identity_of old) (Put env ?p []) (\<lambda>_. True)" using ident_Put [OF ne, of env] by simp
  have put: "tables_ok (snd (Put env ?p [] db1)) \<and> foreign (pls_OwnerID old) (snd (Put env ?p [] db1)) = ?F \<and>
      identity_kept (pls_ID old) (identity_of old) (snd (Put env ?p [] db1))"
    using integrity.keeps_Put [of ?p env "[]"] privacy.keeps_Put [of ?p ?F "pls_OwnerID old" env "[]"] id mine ok kept1
    by (simp add: integrity.keeps_def privacy.keeps_def ident.keeps_def foreign_kept_def)
  show ?thesis
  proof (cases "\<not> pls_Sync old \<and> \<not> forceSync")
    case True
    then have "import_updatePlaylist env im ctx new forceSync db = (Inr new, db1)"
      using assms(3) by (simp add: import_updatePlaylist_def bind_op_def try_op_def return_op_def)
    then show ?thesis using ok kept1 n by (auto simp: foreign_kept_def)
  next
    case False
    then have "snd (import_updatePlaylist env im ctx new forceSync db) = snd (Put env ?p [] db1)"
      using assms(3)
      by (cases "pls_Sync old"; cases forceSync)
         (simp_all add: import_updatePlaylist_def bind_op_def try_op_def return_op_def Let_def split: prod.split sum.split)
    then show ?thesis using put False by (auto split: prod.split)
  qed
qed

text \<open>Ann's playlist \<open>p\<close> was imported from a file and is kept in step with it.\<close>

definition sample_synced :: playlist_db where
  "sample_synced = update_rows ''p'' (\<lambda>r. r\<lparr>row_playlist := (row_playlist r)\<lparr>pls_Path := ''/music/mix.m3u'', pls_Sync := True, pls_Name := ''Mine''\<rparr>\<rparr>) sample_tables"

definition sample_old :: Playlist where
  "sample_old = zero_Playlist\<lparr>pls_ID := ''p'', pls_OwnerID := ''ann'', pls_Path := ''/music/mix.m3u'', pls_Sync := True, pls_Name := ''Mine''\<rparr>"

theorem reimport_keeps_identity_witness:
  "identity_kept ''p'' (''Mine'', [], ''ann'', False, [])
     (snd (import_updatePlaylist sample_store sample_import None (zero_Playlist\<lparr>pls_Path := ''/music/mix.m3u'', pls_Name := ''mix''\<rparr>) False sample_synced))"
proof -
  let ?new = "zero_Playlist\<lparr>pls_Path := ''/music/mix.m3u'', pls_Name := ''mix''\<rparr>"
  have "tables_ok sample_synced" by code_simp
  moreover have "[] \<notin> row_ids sample_synced"
    by (auto simp: row_ids_def sample_synced_def update_rows_def sample_tables_def sample_list_def row_id_def)
  moreover have "findByPathNormalized sample_store sample_import (pls_Path ?new) sample_synced = (Inr sample_old, sample_synced\<lparr>db_clock := 1\<rparr>)"
    by (simp add: findByPathNormalized_def FindByPath_def findBy_def selectPlaylist_def bind_op_def try_op_def select_def statement_def lift_op_def return_op_def
        sample_synced_def sample_old_def sample_store_def update_rows_def sample_tables_def sample_list_def row_id_def row_owner_def
        PostScan_def scan_rules_def bind_result_def zero_Playlist_def)
  ultimately show ?thesis
    using reimport_keeps_identity [where ctx = None and forceSync = False, of sample_synced sample_store sample_import ?new sample_old "sample_synced\<lparr>db_clock := 1\<rparr>"]
    by (auto simp: sample_old_def identity_of_def zero_Playlist_def split: prod.splits)
qed

section \<open>Corner cases\<close>

text \<open>A library at the root of the file system contains no file: the character after its path is not a separator.\<close>

lemma root_library_is_empty: "findLibrary (newLibraryMatcher [\<lparr>lib_ID = 1, lib_Path = ''/''\<rparr>]) ''/a.mp3'' = None"
  by code_simp

text \<open>Two files whose paths differ only by case are confused: both entries get the one found last.\<close>

lemma case_variants_confused:
  "map mf_ID (matched_files sample_import [song_at ''x'' ''A.mp3'', song_at ''y'' ''a.mp3''] [''1:A.mp3'', ''1:a.mp3'']) = [''y'', ''y'']"
  by code_simp

text \<open>A failed query drops the entries of its chunk, and the import goes on with the rest.\<close>

lemma failed_lookup_drops_entries:
  assumes "FindByPaths env ctx (lookupCandidates im (resolvePaths lm folder (snd (m3u_lines im lm folder lines pls)))) db = (Inl ErrDb, db')"
  shows "m3u_chunks env im ctx lm folder [lines] pls mfs db = (Inr (fst (m3u_lines im lm folder lines pls), mfs), db')"
  using assms by (simp add: case_prod_beta Let_def bind_op_def try_op_def return_op_def)

text \<open>The column of an error is one too high on every line but the first.\<close>

lemma column_off_by_one: "getPositionFromOffset ''x'' 1 = (1, 1)" "getPositionFromOffset (CHR 0x0A # ''x'') 2 = (2, 2)"
  by code_simp+

end
