(* ===== verification/Scanner_Missing.thy ===== *)
theory Scanner_Missing
  imports Model_MediaFile
begin

text \<open>
  The scan phase that recognises moved files (\<open>scanner/phase_2_missing_tracks.go\<close>, with the queries of
  \<open>persistence/mediafile_repository.go\<close> it uses). A file that is gone from its place and one that has appeared
  are taken for the same track; the track keeps the id of the missing one, which playlists and annotations
  refer to, and gets the place of the new one, whose own row is discarded. The hash of a file's tags and
  properties and the failing database statements are arguments. Groups are processed one after the other.
\<close>

section \<open>Files and state\<close>

record ScanFile = MediaFile +
  scf_PID :: string
  scf_Missing :: bool
  scf_CreatedAt :: time_ns
  scf_MbzReleaseTrackID :: string
  scf_TrackNumber :: go_int

record missingTracks =
  mt_lib :: go_int
  mt_pid :: string
  mt_missing :: "ScanFile list"
  mt_matched :: "ScanFile list"

record phaseMissingTracks =
  ph_files :: "ScanFile list" \<comment> \<open>the table \<open>media_file\<close>\<close>
  ph_reassigned :: "(string \<times> string) list" \<comment> \<open>albums whose annotations and creation date went to another\<close>
  ph_processed :: "string list" \<comment> \<open>\<open>processedAlbumAnnotations\<close>\<close>
  ph_totalMatched :: nat
  ph_changesDetected :: bool
  ph_clock :: nat \<comment> \<open>statements run so far\<close>

record scan_env =
  sn_hash :: "ScanFile \<Rightarrow> string"
  sn_fails :: "nat \<Rightarrow> bool"
  sn_totalLibraryCount :: nat

datatype scan_error = UpdateMatched | DeleteDiscarded | CommitMove | LoadMissing | SearchFiles | PermissionDenied

definition BaseName :: "string \<Rightarrow> string" where
  "BaseName filePath = (let p = Base filePath in take (length p - length (Ext p)) p)"

definition Equals :: "scan_env \<Rightarrow> ScanFile \<Rightarrow> ScanFile \<Rightarrow> bool" where
  "Equals env mf other \<longleftrightarrow> sn_hash env mf = sn_hash env other"

definition IsEquivalent :: "ScanFile \<Rightarrow> ScanFile \<Rightarrow> bool" where
  "IsEquivalent mf other \<longleftrightarrow> BaseName (mf_Path mf) = BaseName (mf_Path other)"

section \<open>Loading the groups\<close>

fun group_loop :: "missingTracks \<Rightarrow> ScanFile list \<Rightarrow> missingTracks list" where
  "group_loop mt [] = (if mt_pid mt \<noteq> [] \<and> mt_missing mt \<noteq> [] then [mt] else [])"
| "group_loop mt (mf # mfs) =
     (let new = mt_pid mt \<noteq> scf_PID mf;
          mt1 = (if new then mt\<lparr>mt_pid := scf_PID mf, mt_missing := [], mt_matched := []\<rparr> else mt);
          mt2 = (if scf_Missing mf then mt1\<lparr>mt_missing := mt_missing mt1 @ [mf]\<rparr> else mt1\<lparr>mt_matched := mt_matched mt1 @ [mf]\<rparr>)
      in (if new \<and> mt_pid mt \<noteq> [] \<and> mt_missing mt \<noteq> [] then [mt] else []) @ group_loop mt2 mfs)"

definition produce :: "go_int \<Rightarrow> ScanFile list \<Rightarrow> missingTracks list" where \<comment> \<open>the rows of \<open>GetMissingAndMatching\<close>, ordered by PID\<close>
  "produce lib rows = group_loop \<lparr>mt_lib = lib, mt_pid = [], mt_missing = [], mt_matched = []\<rparr> rows"

section \<open>Moving a track\<close>

text \<open>\<open>Put\<close> writes every column but the creation date into the row with the id; without one it inserts.\<close>

definition put_file :: "ScanFile \<Rightarrow> ScanFile list \<Rightarrow> ScanFile list" where
  "put_file f rows =
     (if list_ex (\<lambda>r. mf_ID r = mf_ID f) rows
      then map (\<lambda>r. if mf_ID r = mf_ID f then f\<lparr>scf_CreatedAt := scf_CreatedAt r\<rparr> else r) rows
      else rows @ [f])"

definition move_rows :: "ScanFile \<Rightarrow> ScanFile \<Rightarrow> ScanFile list \<Rightarrow> ScanFile list" where
  "move_rows target missing rows =
     filter (\<lambda>r. mf_ID r \<noteq> mf_ID target)
       (put_file (target\<lparr>mf_ID := mf_ID missing, scf_CreatedAt := scf_CreatedAt missing\<rparr>) rows)"

definition reassign_album :: "scan_env \<Rightarrow> string \<Rightarrow> string \<Rightarrow> phaseMissingTracks \<Rightarrow> phaseMissingTracks" where
  "reassign_album env oldAlbumID newAlbumID s =
     (if oldAlbumID \<noteq> newAlbumID \<and> newAlbumID \<notin> set (ph_processed s) then
        s\<lparr>ph_reassigned := (if sn_fails env (ph_clock s) then ph_reassigned s else ph_reassigned s @ [(oldAlbumID, newAlbumID)]),
          ph_processed := newAlbumID # ph_processed s, ph_clock := Suc (ph_clock s)\<rparr>
      else s)"

definition moveMatched :: "scan_env \<Rightarrow> ScanFile \<Rightarrow> ScanFile \<Rightarrow> phaseMissingTracks \<Rightarrow> (scan_error + unit) \<times> phaseMissingTracks" where
  "moveMatched env target missing s =
     (if sn_fails env (ph_clock s) then (Inl UpdateMatched, s\<lparr>ph_clock := ph_clock s + 1\<rparr>)
      else if sn_fails env (ph_clock s + 1) then (Inl DeleteDiscarded, s\<lparr>ph_clock := ph_clock s + 2\<rparr>)
      else
        (let s1 = reassign_album env (mf_AlbumID missing) (mf_AlbumID target)
               (s\<lparr>ph_files := move_rows target missing (ph_files s), ph_clock := ph_clock s + 2\<rparr>);
             s2 = s1\<lparr>ph_changesDetected := True, ph_clock := ph_clock s1 + 1\<rparr>
         in if sn_fails env (ph_clock s1) then (Inl CommitMove, s2\<lparr>ph_files := ph_files s, ph_reassigned := ph_reassigned s\<rparr>)
            else (Inr (), s2)))"

section \<open>Moves within a library\<close>

fun best_matches :: "scan_env \<Rightarrow> ScanFile \<Rightarrow> string list \<Rightarrow> ScanFile list \<Rightarrow> ScanFile option \<Rightarrow> ScanFile option \<times> ScanFile option" where
  "best_matches env ms used [] equivalentMatch = (None, equivalentMatch)"
| "best_matches env ms used (mt # mts) equivalentMatch =
     (if mf_ID mt \<in> set used then best_matches env ms used mts equivalentMatch
      else if Equals env ms mt then (Some mt, equivalentMatch)
      else best_matches env ms used mts (if IsEquivalent ms mt then Some mt else equivalentMatch))"

definition with_id :: "ScanFile option \<Rightarrow> ScanFile option" where \<comment> \<open>\<open>match.ID != ""\<close>\<close>
  "with_id m = (case m of None \<Rightarrow> None | Some f \<Rightarrow> if mf_ID f = [] then None else Some f)"

definition choose_match :: "scan_env \<Rightarrow> missingTracks \<Rightarrow> string list \<Rightarrow> ScanFile \<Rightarrow> ScanFile option" where
  "choose_match env grp used ms =
     (let (exactMatch, equivalentMatch) = best_matches env ms used (mt_matched grp) None
      in case with_id exactMatch of
           Some f \<Rightarrow> Some f
         | None \<Rightarrow>
             if length (mt_missing grp) = 1 \<and> length (mt_matched grp) = 1 \<and> mf_ID (hd (mt_matched grp)) \<notin> set used
             then Some (hd (mt_matched grp))
             else with_id equivalentMatch)"

fun process_loop ::
  "scan_env \<Rightarrow> missingTracks \<Rightarrow> ScanFile list \<Rightarrow> string list \<Rightarrow> phaseMissingTracks \<Rightarrow> (scan_error + string list) \<times> phaseMissingTracks" where
  "process_loop env grp [] used s = (Inr used, s)"
| "process_loop env grp (ms # mss) used s =
     (case choose_match env grp used ms of
        None \<Rightarrow> process_loop env grp mss used s
      | Some f \<Rightarrow>
          (case moveMatched env f ms s of
             (Inl e, s') \<Rightarrow> (Inl e, s')
           | (Inr _, s') \<Rightarrow> process_loop env grp mss (mf_ID f # used) (s'\<lparr>ph_totalMatched := Suc (ph_totalMatched s')\<rparr>)))"

definition processMissingTracks ::
  "scan_env \<Rightarrow> missingTracks \<Rightarrow> phaseMissingTracks \<Rightarrow> (scan_error + missingTracks option) \<times> phaseMissingTracks" where
  "processMissingTracks env grp s =
     (case process_loop env grp (mt_missing grp) [] s of
        (Inl e, s') \<Rightarrow> (Inl e, s')
      | (Inr used, s') \<Rightarrow> (Inr (if used = [] then Some grp else None), s'))"

section \<open>Moves to another library\<close>

definition newest_first :: "ScanFile list \<Rightarrow> ScanFile list" where
  "newest_first rows = sort_key (\<lambda>r. - scf_CreatedAt r) rows"

definition FindRecentFilesByMBZTrackID :: "ScanFile \<Rightarrow> time_ns \<Rightarrow> ScanFile list \<Rightarrow> ScanFile list" where
  "FindRecentFilesByMBZTrackID missing since rows =
     newest_first (filter (\<lambda>r. mf_LibraryID r \<noteq> mf_LibraryID missing \<and> scf_MbzReleaseTrackID r = scf_MbzReleaseTrackID missing \<and>
       scf_MbzReleaseTrackID r \<noteq> [] \<and> mf_Suffix r = mf_Suffix missing \<and> scf_CreatedAt r > since \<and> \<not> scf_Missing r) rows)"

definition FindRecentFilesByProperties :: "ScanFile \<Rightarrow> time_ns \<Rightarrow> ScanFile list \<Rightarrow> ScanFile list" where
  "FindRecentFilesByProperties missing since rows =
     newest_first (filter (\<lambda>r. mf_LibraryID r \<noteq> mf_LibraryID missing \<and> mf_Title r = mf_Title missing \<and> mf_Size r = mf_Size missing \<and>
       mf_Suffix r = mf_Suffix missing \<and> mf_DiscNumber r = mf_DiscNumber missing \<and> scf_TrackNumber r = scf_TrackNumber missing \<and>
       mf_Album r = mf_Album missing \<and> scf_MbzReleaseTrackID r = [] \<and> scf_CreatedAt r > since \<and> \<not> scf_Missing r) rows)"

definition pick :: "scan_env \<Rightarrow> ScanFile \<Rightarrow> ScanFile list \<Rightarrow> ScanFile option" where
  "pick env missing matches =
     (case filter (Equals env missing) matches of
        m # _ \<Rightarrow> Some m
      | [] \<Rightarrow> (case matches of [m] \<Rightarrow> if IsEquivalent missing m then Some m else None | _ \<Rightarrow> None))"

definition findCrossLibraryMatch ::
  "scan_env \<Rightarrow> ScanFile \<Rightarrow> phaseMissingTracks \<Rightarrow> (scan_error + ScanFile option) \<times> phaseMissingTracks" where
  "findCrossLibraryMatch env missing s =
     (let byTrackID = scf_MbzReleaseTrackID missing \<noteq> [];
          s1 = (if byTrackID then s\<lparr>ph_clock := ph_clock s + 1\<rparr> else s);
          first = (if byTrackID \<and> \<not> sn_fails env (ph_clock s)
                   then pick env missing (FindRecentFilesByMBZTrackID missing (scf_CreatedAt missing) (ph_files s)) else None)
      in case first of
           Some m \<Rightarrow> (Inr (Some m), s1)
         | None \<Rightarrow>
             if sn_fails env (ph_clock s1) then (Inl SearchFiles, s1\<lparr>ph_clock := ph_clock s1 + 1\<rparr>)
             else (Inr (pick env missing (FindRecentFilesByProperties missing (scf_CreatedAt missing) (ph_files s))),
                   s1\<lparr>ph_clock := ph_clock s1 + 1\<rparr>))"

fun cross_loop :: "scan_env \<Rightarrow> ScanFile list \<Rightarrow> phaseMissingTracks \<Rightarrow> phaseMissingTracks" where
  "cross_loop env [] s = s"
| "cross_loop env (missing # rest) s =
     (case findCrossLibraryMatch env missing s of
        (Inl _, s1) \<Rightarrow> cross_loop env rest s1
      | (Inr found, s1) \<Rightarrow>
          (case with_id found of
             None \<Rightarrow> cross_loop env rest s1
           | Some f \<Rightarrow>
               (case moveMatched env f missing s1 of
                  (Inl _, s2) \<Rightarrow> cross_loop env rest s2
                | (Inr _, s2) \<Rightarrow> cross_loop env rest (s2\<lparr>ph_totalMatched := Suc (ph_totalMatched s2)\<rparr>))))"

definition processCrossLibraryMoves ::
  "scan_env \<Rightarrow> missingTracks option \<Rightarrow> phaseMissingTracks \<Rightarrow> missingTracks option \<times> phaseMissingTracks" where
  "processCrossLibraryMoves env inp s =
     (case inp of
        None \<Rightarrow> (None, s)
      | Some grp \<Rightarrow> if sn_totalLibraryCount env = 1 then (Some grp, s) else (Some grp, cross_loop env (mt_missing grp) s))"

section \<open>Purging\<close>

datatype purge_option = PurgeMissingNever | PurgeMissingAlways | PurgeMissingFull

definition purgeMissing :: "scan_env \<Rightarrow> bool \<Rightarrow> phaseMissingTracks \<Rightarrow> (scan_error + unit) \<times> phaseMissingTracks" where \<comment> \<open>\<open>DeleteAllMissing\<close> is for administrators\<close>
  "purgeMissing env isAdmin s =
     (if \<not> isAdmin then (Inl PermissionDenied, s)
      else
        (let s1 = s\<lparr>ph_clock := ph_clock s + 1\<rparr>; gone = list_ex scf_Missing (ph_files s)
         in if sn_fails env (ph_clock s) then (Inl LoadMissing, s1)
            else (Inr (), s1\<lparr>ph_files := filter (\<lambda>r. \<not> scf_Missing r) (ph_files s), ph_changesDetected := (ph_changesDetected s \<or> gone)\<rparr>)))"

definition finalize :: "scan_env \<Rightarrow> purge_option \<Rightarrow> bool \<Rightarrow> bool \<Rightarrow> scan_error option \<Rightarrow> phaseMissingTracks \<Rightarrow> scan_error option \<times> phaseMissingTracks" where
  "finalize env opt fullScan isAdmin err s =
     (case err of
        Some e \<Rightarrow> (Some e, s)
      | None \<Rightarrow>
          if opt = PurgeMissingAlways \<or> opt = PurgeMissingFull \<and> fullScan
          then (case purgeMissing env isAdmin s of (Inl e, s') \<Rightarrow> (Some e, s') | (Inr _, s') \<Rightarrow> (None, s'))
          else (None, s))"

end
