(* ===== verification/Scanner_Missing_Correct.thy ===== *)
theory Scanner_Missing_Correct
  imports Scanner_Missing
begin

text \<open>
  Moving tracks conserves the library: no file on disk is lost or listed twice, no id that playlists and
  annotations refer to disappears, and each new file is used for at most one missing track.
\<close>

section \<open>One move\<close>

definition place :: "ScanFile \<Rightarrow> go_int \<times> string" where
  "place f = (mf_LibraryID f, mf_Path f)"

text \<open>The files that are on disk according to the table.\<close>

definition on_disk :: "ScanFile list \<Rightarrow> (go_int \<times> string) multiset" where
  "on_disk rows = mset (map place (filter (\<lambda>r. \<not> scf_Missing r) rows))"

definition ids :: "ScanFile list \<Rightarrow> string set" where
  "ids rows = mf_ID ` set rows"

lemma filter_id:
  assumes "distinct (map mf_ID rows)" "f \<in> set rows"
  shows "filter (\<lambda>r. mf_ID r = mf_ID f) rows = [f]"
  using assms
proof (induction rows)
  case (Cons r rows)
  show ?case
  proof (cases "f = r")
    case True
    then have "\<forall>x\<in>set rows. mf_ID x \<noteq> mf_ID f" using Cons.prems(1) by (metis distinct.simps(2) image_eqI list.set_map list.simps(9))
    then have "filter (\<lambda>r. mf_ID r = mf_ID f) rows = []" by (simp add: filter_empty_conv)
    then show ?thesis using True by simp
  next
    case False
    then have "f \<in> set rows" using Cons.prems(2) by simp
    then have "mf_ID r \<noteq> mf_ID f" using Cons.prems(1) by (metis distinct.simps(2) image_eqI list.set_map list.simps(9))
    then show ?thesis using Cons.IH \<open>f \<in> set rows\<close> Cons.prems(1) by simp
  qed
qed simp

text \<open>What a move does to a table that has both rows.\<close>

lemma move_rows_split:
  assumes "distinct (map mf_ID rows)" "t \<in> set rows" "m \<in> set rows" "mf_ID t \<noteq> mf_ID m" "mf_ID ms = mf_ID m"
  shows "mset rows = {#t, m#} + mset (filter (\<lambda>r. mf_ID r \<noteq> mf_ID t \<and> mf_ID r \<noteq> mf_ID m) rows)"
    and "mset (move_rows t ms rows) =
      add_mset (t\<lparr>mf_ID := mf_ID m, scf_CreatedAt := scf_CreatedAt m\<rparr>) (mset (filter (\<lambda>r. mf_ID r \<noteq> mf_ID t \<and> mf_ID r \<noteq> mf_ID m) rows))"
proof -
  let ?rest = "filter (\<lambda>r. mf_ID r \<noteq> mf_ID t \<and> mf_ID r \<noteq> mf_ID m) rows"
  let ?new = "\<lambda>r. t\<lparr>mf_ID := mf_ID m, scf_CreatedAt := scf_CreatedAt r\<rparr>"
  have "mset rows = mset (filter (\<lambda>r. mf_ID r = mf_ID t) rows) + mset (filter (\<lambda>r. mf_ID r \<noteq> mf_ID t) rows)"
    by (induction rows) auto
  moreover have "mset (filter (\<lambda>r. mf_ID r \<noteq> mf_ID t) rows) = mset (filter (\<lambda>r. mf_ID r = mf_ID m) rows) + mset ?rest"
    using assms(4) by (induction rows) auto
  ultimately show split: "mset rows = {#t, m#} + mset ?rest"
    using filter_id [OF assms(1,2)] filter_id [OF assms(1,3)] by simp
  have there: "list_ex (\<lambda>r. mf_ID r = mf_ID m) rows" using assms(3) by (auto simp: list_ex_iff)
  have "mset (move_rows t ms rows) = mset (map (\<lambda>r. if mf_ID r = mf_ID m then ?new r else r) (filter (\<lambda>r. mf_ID r \<noteq> mf_ID t) rows))"
    using there assms(4,5) by (simp add: move_rows_def put_file_def filter_map o_def if_distrib [of mf_ID] cong: if_cong)
  also have "\<dots> = image_mset (\<lambda>r. if mf_ID r = mf_ID m then ?new r else r) (mset (filter (\<lambda>r. mf_ID r \<noteq> mf_ID t) rows))" by simp
  also have "mset (filter (\<lambda>r. mf_ID r \<noteq> mf_ID t) rows) = add_mset m (mset ?rest)"
    using filter_id [OF assms(1,3)] \<open>mset (filter (\<lambda>r. mf_ID r \<noteq> mf_ID t) rows) = _ + mset ?rest\<close> by simp
  also have "image_mset (\<lambda>r. if mf_ID r = mf_ID m then ?new r else r) (add_mset m (mset ?rest)) = add_mset (?new m) (mset ?rest)"
    by (auto intro!: multiset.map_ident_strong)
  finally show "mset (move_rows t ms rows) = add_mset (?new m) (mset ?rest)" .
qed

lemma move_rows_effect:
  assumes "distinct (map mf_ID rows)" "t \<in> set rows" "\<not> scf_Missing t" "m \<in> set rows" "scf_Missing m" "mf_ID ms = mf_ID m"
  shows "on_disk (move_rows t ms rows) = on_disk rows"
    and "distinct (map mf_ID (move_rows t ms rows))"
    and "ids (move_rows t ms rows) = ids rows - {mf_ID t}"
    and "r \<in> set (move_rows t ms rows) \<longleftrightarrow> r = t\<lparr>mf_ID := mf_ID m, scf_CreatedAt := scf_CreatedAt m\<rparr> \<or>
      r \<in> set rows \<and> mf_ID r \<noteq> mf_ID t \<and> mf_ID r \<noteq> mf_ID m"
proof -
  have ne: "mf_ID t \<noteq> mf_ID m"
    using assms by (metis filter_id list.inject)
  let ?rest = "filter (\<lambda>r. mf_ID r \<noteq> mf_ID t \<and> mf_ID r \<noteq> mf_ID m) rows"
  let ?new = "t\<lparr>mf_ID := mf_ID m, scf_CreatedAt := scf_CreatedAt m\<rparr>"
  note split = move_rows_split [OF assms(1,2,4) ne assms(6)]
  have disk: "on_disk xs = image_mset place (filter_mset (\<lambda>r. \<not> scf_Missing r) (mset xs))" for xs
    by (simp add: on_disk_def mset_filter)
  have "place ?new = place t" by (simp add: place_def)
  then show "on_disk (move_rows t ms rows) = on_disk rows"
    unfolding disk split using assms(3,5) by simp
  have idm: "mset (map mf_ID (move_rows t ms rows)) = add_mset (mf_ID m) (image_mset mf_ID (mset ?rest))"
    unfolding mset_map split(2) by simp
  have "distinct (mf_ID m # map mf_ID ?rest)"
    using assms(1) by (auto simp: distinct_map_filter)
  then show "distinct (map mf_ID (move_rows t ms rows))"
    using idm mset_eq_imp_distinct_iff [of "map mf_ID (move_rows t ms rows)" "mf_ID m # map mf_ID ?rest"] by simp
  show mem: "r \<in> set (move_rows t ms rows) \<longleftrightarrow> r = ?new \<or> r \<in> set rows \<and> mf_ID r \<noteq> mf_ID t \<and> mf_ID r \<noteq> mf_ID m" for r
    using arg_cong [OF split(2), of "\<lambda>M. r \<in># M"] by simp
  show "ids (move_rows t ms rows) = ids rows - {mf_ID t}"
  proof (intro set_eqI iffI)
    fix i assume "i \<in> ids (move_rows t ms rows)"
    then obtain r where "r \<in> set (move_rows t ms rows)" "i = mf_ID r" by (auto simp: ids_def)
    with mem [of r] ne assms(4) show "i \<in> ids rows - {mf_ID t}" by (auto simp: ids_def)
  next
    fix i assume "i \<in> ids rows - {mf_ID t}"
    then obtain r where r: "r \<in> set rows" "i = mf_ID r" "i \<noteq> mf_ID t" by (auto simp: ids_def)
    show "i \<in> ids (move_rows t ms rows)"
    proof (cases "mf_ID r = mf_ID m")
      case True
      then show ?thesis using mem [of ?new] r by (auto simp: ids_def intro!: image_eqI [of _ _ ?new])
    qed (use mem [of r] r in \<open>auto simp: ids_def\<close>)
  qed
qed

section \<open>A group\<close>

text \<open>
  A group as the table has it: its new files are there and on disk, its missing tracks are there and
  missing, and no track is listed twice.
\<close>

definition group_ok :: "missingTracks \<Rightarrow> ScanFile list \<Rightarrow> bool" where
  "group_ok grp rows \<longleftrightarrow> distinct (map mf_ID rows) \<and> distinct (map mf_ID (mt_missing grp)) \<and>
     list_all (\<lambda>t. t \<in> set rows \<and> \<not> scf_Missing t) (mt_matched grp) \<and>
     list_all (\<lambda>ms. list_ex (\<lambda>m. mf_ID m = mf_ID ms \<and> scf_Missing m) rows) (mt_missing grp)"

definition conserved :: "missingTracks \<Rightarrow> ScanFile list \<Rightarrow> ScanFile list \<Rightarrow> bool" where
  "conserved grp rows rows' \<longleftrightarrow>
     on_disk rows' = on_disk rows \<and> distinct (map mf_ID rows') \<and>
     ids rows - ids (mt_matched grp) \<subseteq> ids rows' \<and> ids rows' \<subseteq> ids rows \<and>
     (\<forall>r\<in>set rows'. r \<in> set rows \<or> (\<exists>t\<in>set (mt_matched grp). \<exists>m\<in>set rows.
        scf_Missing m \<and> mf_ID m \<in> ids (mt_missing grp) \<and> r = t\<lparr>mf_ID := mf_ID m, scf_CreatedAt := scf_CreatedAt m\<rparr>)) \<and>
     (\<forall>r\<in>set rows. mf_ID r \<notin> ids (mt_missing grp) \<union> ids (mt_matched grp) \<longrightarrow> r \<in> set rows')"

text \<open>The state in the middle of a group: unused new files and the tracks still to come are untouched.\<close>

definition pending :: "missingTracks \<Rightarrow> string list \<Rightarrow> ScanFile list \<Rightarrow> ScanFile list \<Rightarrow> bool" where
  "pending grp used mss rows \<longleftrightarrow> distinct (map mf_ID rows) \<and>
     (\<forall>t\<in>set (mt_matched grp). \<not> scf_Missing t \<and> (mf_ID t \<notin> set used \<longrightarrow> t \<in> set rows)) \<and>
     (\<forall>ms\<in>set mss. \<exists>m\<in>set rows. mf_ID m = mf_ID ms \<and> scf_Missing m)"

lemma best_matches_from:
  assumes "best_matches env ms used mts eqv = (a, b)"
  shows "a = Some f \<Longrightarrow> f \<in> set mts \<and> mf_ID f \<notin> set used"
    and "b = Some f \<Longrightarrow> b = eqv \<or> f \<in> set mts \<and> mf_ID f \<notin> set used"
  using assms by (induction env ms used mts eqv rule: best_matches.induct) (auto split: if_splits)

lemma choose_match_unused: "choose_match env grp used ms = Some f \<Longrightarrow> f \<in> set (mt_matched grp) \<and> mf_ID f \<notin> set used"
proof -
  assume c: "choose_match env grp used ms = Some f"
  obtain a b where ab: "best_matches env ms used (mt_matched grp) None = (a, b)" by fastforce
  note from_ab = best_matches_from [OF ab, of f]
  show ?thesis
  proof (cases "with_id a")
    case (Some g)
    then have "a = Some f" using c ab by (auto simp: choose_match_def with_id_def split: option.splits if_splits)
    then show ?thesis by (rule from_ab(1))
  next
    case None
    show ?thesis
    proof (cases "length (mt_missing grp) = 1 \<and> length (mt_matched grp) = 1 \<and> mf_ID (hd (mt_matched grp)) \<notin> set used")
      case True
      then show ?thesis using c ab None by (cases "mt_matched grp") (auto simp: choose_match_def)
    next
      case False
      then have "b = Some f" using c ab None by (auto simp: choose_match_def with_id_def split: option.splits if_splits)
      then show ?thesis using from_ab(2) by auto
    qed
  qed
qed

lemma moveMatched_files:
  "moveMatched env t ms s = (Inl e, s') \<Longrightarrow> ph_files s' = ph_files s"
  "moveMatched env t ms s = (Inr u, s') \<Longrightarrow> ph_files s' = move_rows t ms (ph_files s)"
  by (auto simp: moveMatched_def reassign_album_def Let_def split: if_splits)

lemma pending_move:
  assumes "pending grp used (ms # mss) rows" "distinct (map mf_ID (ms # mss))" "f \<in> set (mt_matched grp)" "mf_ID f \<notin> set used"
  shows "pending grp (mf_ID f # used) mss (move_rows f ms rows)"
proof -
  have d: "distinct (map mf_ID rows)" and f: "f \<in> set rows" "\<not> scf_Missing f"
    using assms(1,3,4) by (auto simp: pending_def)
  obtain m where m: "m \<in> set rows" "mf_ID m = mf_ID ms" "scf_Missing m" using assms(1) by (auto simp: pending_def)
  note eff = move_rows_effect [OF d f m(1,3) m(2) [symmetric]]
  have same: "r = r'" if "r \<in> set rows" "r' \<in> set rows" "mf_ID r = mf_ID r'" for r r'
    using d that unfolding distinct_map by (meson inj_onD)
  have "t \<in> set (move_rows f ms rows)" if "t \<in> set (mt_matched grp)" "mf_ID t \<notin> set (mf_ID f # used)" for t
  proof -
    have t: "t \<in> set rows" "\<not> scf_Missing t" using that assms(1) by (simp_all add: pending_def)
    then have "mf_ID t \<noteq> mf_ID m" using same [OF t(1) m(1)] m(3) by blast
    with t that(2) show ?thesis using eff(4) [of t] by simp
  qed
  moreover have "\<exists>m'\<in>set (move_rows f ms rows). mf_ID m' = mf_ID ms' \<and> scf_Missing m'" if "ms' \<in> set mss" for ms'
  proof -
    obtain m' where m': "m' \<in> set rows" "mf_ID m' = mf_ID ms'" "scf_Missing m'" using assms(1) \<open>ms' \<in> set mss\<close> by (auto simp: pending_def)
    have "mf_ID ms' \<noteq> mf_ID ms" using assms(2) imageI [OF that, of mf_ID] by auto
    moreover have "mf_ID m' \<noteq> mf_ID f" using same [OF m'(1) f(1)] m'(3) f(2) by blast
    ultimately have "m' \<in> set (move_rows f ms rows)" using eff(4) [of m'] m' m(2) by simp
    with m' show ?thesis by blast
  qed
  ultimately show ?thesis using eff(2) assms(1) by (auto simp: pending_def)
qed

lemma conserved_move:
  assumes "conserved grp rows0 rows" "pending grp used (ms # mss) rows" "f \<in> set (mt_matched grp)" "mf_ID f \<notin> set used"
    and "mf_ID ms \<in> ids (mt_missing grp)"
  shows "conserved grp rows0 (move_rows f ms rows)"
proof -
  have d: "distinct (map mf_ID rows)" and f: "f \<in> set rows" "\<not> scf_Missing f"
    using assms(2-4) by (auto simp: pending_def)
  obtain m where m: "m \<in> set rows" "mf_ID m = mf_ID ms" "scf_Missing m" using assms(2) by (auto simp: pending_def)
  note eff = move_rows_effect [OF d f m(1,3) m(2) [symmetric]]
  have m0: "m \<in> set rows0"
  proof (rule ccontr)
    assume "m \<notin> set rows0"
    with assms(1) m(1) obtain t and m' :: ScanFile where t: "t \<in> set (mt_matched grp)" "m = t\<lparr>mf_ID := mf_ID m', scf_CreatedAt := scf_CreatedAt m'\<rparr>"
      unfolding conserved_def by blast
    then have "scf_Missing m = scf_Missing t" by simp
    with assms(2) t(1) m(3) show False by (simp add: pending_def)
  qed
  show ?thesis
    unfolding conserved_def
  proof (intro conjI ballI impI)
    show "on_disk (move_rows f ms rows) = on_disk rows0" using eff(1) assms(1) by (simp add: conserved_def)
    show "distinct (map mf_ID (move_rows f ms rows))" by (rule eff(2))
    show "ids rows0 - ids (mt_matched grp) \<subseteq> ids (move_rows f ms rows)" "ids (move_rows f ms rows) \<subseteq> ids rows0"
      using eff(3) assms(1,3) by (auto simp: conserved_def ids_def)
    show "r \<in> set rows0 \<or> (\<exists>t\<in>set (mt_matched grp). \<exists>m\<in>set rows0. scf_Missing m \<and> mf_ID m \<in> ids (mt_missing grp) \<and>
        r = t\<lparr>mf_ID := mf_ID m, scf_CreatedAt := scf_CreatedAt m\<rparr>)" if "r \<in> set (move_rows f ms rows)" for r
    proof (cases "r \<in> set rows")
      case True
      then show ?thesis using assms(1) unfolding conserved_def by blast
    next
      case False
      then have "r = f\<lparr>mf_ID := mf_ID m, scf_CreatedAt := scf_CreatedAt m\<rparr>" using that eff(4) [of r] by simp
      with assms(3,5) m(2,3) m0 show ?thesis by (intro disjI2 bexI [of _ f] bexI [of _ m]) auto
    qed
    show "r \<in> set (move_rows f ms rows)" if "r \<in> set rows0" "mf_ID r \<notin> ids (mt_missing grp) \<union> ids (mt_matched grp)" for r
      using that eff(4) [of r] assms(1,3,5) m(2) by (auto simp: conserved_def ids_def)
  qed
qed

lemma process_loop_conserves:
  "pending grp used mss (ph_files s) \<Longrightarrow> conserved grp rows0 (ph_files s) \<Longrightarrow> distinct (map mf_ID mss) \<Longrightarrow>
   ids mss \<subseteq> ids (mt_missing grp) \<Longrightarrow> process_loop env grp mss used s = (res, s') \<Longrightarrow> conserved grp rows0 (ph_files s')"
proof (induction env grp mss used s rule: process_loop.induct)
  case (2 env grp ms mss used s)
  have rest: "ids mss \<subseteq> ids (mt_missing grp)" "mf_ID ms \<in> ids (mt_missing grp)" using "2.prems"(4) by (auto simp: ids_def)
  show ?case
  proof (cases "choose_match env grp used ms")
    case None
    have "pending grp used mss (ph_files s)" using "2.prems"(1) by (simp add: pending_def)
    then show ?thesis using "2.IH"(1) [OF None] "2.prems" None rest by simp
  next
    case (Some f)
    note f = choose_match_unused [OF Some]
    obtain r s1 where mv: "moveMatched env f ms s = (r, s1)" by fastforce
    show ?thesis
    proof (cases r)
      case (Inl e)
      then show ?thesis using "2.prems"(2,5) Some mv moveMatched_files(1) by auto
    next
      case (Inr u)
      let ?s2 = "s1\<lparr>ph_totalMatched := Suc (ph_totalMatched s1)\<rparr>"
      have files: "ph_files ?s2 = move_rows f ms (ph_files s)" using moveMatched_files(2) mv Inr by auto
      have "pending grp (mf_ID f # used) mss (ph_files ?s2)"
        unfolding files by (rule pending_move [OF "2.prems"(1,3)]) (use f in auto)
      moreover have "conserved grp rows0 (ph_files ?s2)"
        unfolding files by (rule conserved_move [OF "2.prems"(2,1)]) (use f rest in auto)
      ultimately show ?thesis using "2.IH"(2) [OF Some mv [symmetric] Inr] "2.prems"(3,5) Some mv Inr rest by simp
    qed
  qed
qed auto

section \<open>The groups that are produced\<close>

definition flags_ok :: "missingTracks \<Rightarrow> bool" where
  "flags_ok mt \<longleftrightarrow> (\<forall>r\<in>set (mt_missing mt). scf_Missing r) \<and> (\<forall>r\<in>set (mt_matched mt). \<not> scf_Missing r)"

lemma group_loop_members:
  "g \<in> set (group_loop mt rows) \<Longrightarrow> flags_ok mt \<Longrightarrow> distinct (map mf_ID (mt_missing mt @ rows)) \<Longrightarrow>
   flags_ok g \<and> distinct (map mf_ID (mt_missing g)) \<and> mt_missing g \<noteq> [] \<and>
   set (mt_missing g) \<union> set (mt_matched g) \<subseteq> set (mt_missing mt) \<union> set (mt_matched mt) \<union> set rows"
proof (induction mt rows rule: group_loop.induct)
  case (2 mt mf mfs)
  let ?new = "mt_pid mt \<noteq> scf_PID mf"
  let ?mt1 = "if ?new then mt\<lparr>mt_pid := scf_PID mf, mt_missing := [], mt_matched := []\<rparr> else mt"
  let ?mt2 = "if scf_Missing mf then ?mt1\<lparr>mt_missing := mt_missing ?mt1 @ [mf]\<rparr> else ?mt1\<lparr>mt_matched := mt_matched ?mt1 @ [mf]\<rparr>"
  have parts: "set (mt_missing ?mt2) \<union> set (mt_matched ?mt2) \<subseteq> set (mt_missing mt) \<union> set (mt_matched mt) \<union> {mf}" by auto
  have flags: "flags_ok ?mt2" using "2.prems"(2) by (auto simp: flags_ok_def)
  have dist: "distinct (map mf_ID (mt_missing ?mt2 @ mfs))" using "2.prems"(3) by (auto split: if_splits)
  from "2.prems"(1) consider "g = mt" "mt_missing mt \<noteq> []" | "g \<in> set (group_loop ?mt2 mfs)"
    by (auto simp: Let_def split: if_splits)
  then show ?case
  proof cases
    case 1
    then show ?thesis using "2.prems"(2,3) by auto
  next
    case 2
    from "2.IH" [OF refl refl refl this flags dist] parts show ?thesis by auto
  qed
qed (auto split: if_splits)

lemma produced_group_ok:
  assumes "g \<in> set (produce lib rows)" "distinct (map mf_ID rows)" "set rows \<subseteq> set table" "distinct (map mf_ID table)"
  shows "group_ok g table"
proof -
  have "flags_ok g \<and> distinct (map mf_ID (mt_missing g)) \<and> mt_missing g \<noteq> [] \<and> set (mt_missing g) \<union> set (mt_matched g) \<subseteq> set rows"
    using group_loop_members [OF assms(1) [unfolded produce_def]] assms(2) by (simp add: flags_ok_def)
  then show ?thesis using assms(3,4) unfolding group_ok_def flags_ok_def list_all_iff list_ex_iff by blast
qed

section \<open>Moves between libraries\<close>

lemma pick_from: "pick env ms matches = Some f \<Longrightarrow> f \<in> set matches"
  by (auto simp: pick_def split: list.splits if_splits dest: filter_eq_ConsD)

lemma findCross_from:
  assumes "findCrossLibraryMatch env ms s = (r, s1)"
  shows "ph_files s1 = ph_files s" and "r = Inr (Some f) \<Longrightarrow> f \<in> set (ph_files s) \<and> \<not> scf_Missing f"
  using assms
  by (auto simp: findCrossLibraryMatch_def FindRecentFilesByMBZTrackID_def FindRecentFilesByProperties_def newest_first_def Let_def
      split: option.splits if_splits dest!: pick_from)

lemma cross_loop_on_disk:
  "distinct (map mf_ID (ph_files s)) \<Longrightarrow> distinct (map mf_ID mss) \<Longrightarrow>
   (\<forall>ms\<in>set mss. \<exists>m\<in>set (ph_files s). mf_ID m = mf_ID ms \<and> scf_Missing m) \<Longrightarrow>
   on_disk (ph_files (cross_loop env mss s)) = on_disk (ph_files s)"
proof (induction mss arbitrary: s)
  case (Cons ms mss)
  obtain r s1 where fc: "findCrossLibraryMatch env ms s = (r, s1)" by fastforce
  note from_fc = findCross_from [OF fc]
  show ?case
  proof (cases "\<exists>found f. r = Inr found \<and> with_id found = Some f")
    case False
    then have "cross_loop env (ms # mss) s = cross_loop env mss s1" using fc by (auto split: sum.splits option.splits)
    then show ?thesis using Cons from_fc(1) by simp
  next
    case True
    then obtain f where f: "r = Inr (Some f)" "with_id (Some f) = Some f" by (auto simp: with_id_def split: option.splits if_splits)
    obtain r2 s2 where mv: "moveMatched env f ms s1 = (r2, s2)" by fastforce
    show ?thesis
    proof (cases r2)
      case (Inl e)
      then have "cross_loop env (ms # mss) s = cross_loop env mss s2" using fc f mv by simp
      moreover have "ph_files s2 = ph_files s" using moveMatched_files(1) [of env f ms s1 e s2] mv Inl from_fc(1) by simp
      ultimately show ?thesis using Cons by simp
    next
      case (Inr u)
      let ?grp = "\<lparr>mt_lib = 0, mt_pid = [], mt_missing = ms # mss, mt_matched = [f]\<rparr>"
      let ?s3 = "s2\<lparr>ph_totalMatched := Suc (ph_totalMatched s2)\<rparr>"
      have step: "cross_loop env (ms # mss) s = cross_loop env mss ?s3" using fc f mv Inr by simp
      have files: "ph_files ?s3 = move_rows f ms (ph_files s)" using moveMatched_files(2) [of env f ms s1 u s2] mv Inr from_fc(1) by simp
      have ff: "f \<in> set (ph_files s)" "\<not> scf_Missing f" using from_fc(2) [OF f(1)] by auto
      have "pending ?grp [] (ms # mss) (ph_files s)" using Cons.prems ff by (simp add: pending_def)
      from pending_move [OF this Cons.prems(2), of f]
      have pend: "pending ?grp [mf_ID f] mss (ph_files ?s3)" unfolding files by simp
      obtain m where m: "m \<in> set (ph_files s)" "mf_ID m = mf_ID ms" "scf_Missing m" using Cons.prems(3) by auto
      have "on_disk (ph_files ?s3) = on_disk (ph_files s)"
        unfolding files by (rule move_rows_effect(1) [OF Cons.prems(1) ff m(1,3) m(2) [symmetric]])
      moreover have "on_disk (ph_files (cross_loop env mss ?s3)) = on_disk (ph_files ?s3)"
        by (rule Cons.IH) (use pend Cons.prems(2) in \<open>auto simp: pending_def\<close>)
      ultimately show ?thesis unfolding step by simp
    qed
  qed
qed simp

section \<open>Properties\<close>

lemma process_loop_used: "process_loop env grp mss used s = (Inr used', s') \<Longrightarrow> used' = [] \<Longrightarrow> used = [] \<and> s' = s"
  by (induction mss arbitrary: used s) (auto split: option.splits prod.splits sum.splits)

lemma group_ok_start:
  assumes "group_ok grp rows"
  shows "pending grp [] (mt_missing grp) rows" "conserved grp rows rows"
  using assms by (auto simp: group_ok_def pending_def conserved_def list_all_iff list_ex_iff)


text \<open>Two tracks of an album were in library 1; a file with the tags of the first has appeared elsewhere in it.\<close>

definition sample_file :: "string \<Rightarrow> go_int \<Rightarrow> string \<Rightarrow> bool \<Rightarrow> time_ns \<Rightarrow> ScanFile" where
  "sample_file i lib path gone created =
     MediaFile.extend (zero_MediaFile\<lparr>mf_ID := i, mf_LibraryID := lib, mf_Path := path\<rparr>)
       \<lparr>scf_PID = ''pid'', scf_Missing = gone, scf_CreatedAt = created, scf_MbzReleaseTrackID = [], scf_TrackNumber = 0\<rparr>"

definition sample_scan :: scan_env where
  "sample_scan = \<lparr>sn_hash = mf_Title, sn_fails = (\<lambda>_. False), sn_totalLibraryCount = 2\<rparr>"

definition sample_phase :: "ScanFile list \<Rightarrow> phaseMissingTracks" where
  "sample_phase rows = \<lparr>ph_files = rows, ph_reassigned = [], ph_processed = [], ph_totalMatched = 0, ph_changesDetected = False, ph_clock = 0\<rparr>"

definition sample_table :: "ScanFile list" where
  "sample_table = [sample_file ''a'' 1 ''x/1.mp3'' True 5, sample_file ''b'' 1 ''x/2.mp3'' True 5, sample_file ''n'' 1 ''y/1.mp3'' False 9]"

definition sample_group :: missingTracks where
  "sample_group = \<lparr>mt_lib = 1, mt_pid = ''pid'', mt_missing = take 2 sample_table, mt_matched = drop 2 sample_table\<rparr>"


text \<open>
  Between libraries a new file is not marked as used: of two missing tracks with the same tags the older one
  takes the file that the newer one was just moved to, and the newer track's row, with the id that its
  playlists and ratings refer to, is deleted.
\<close>

lemma cross_library_move_stolen:
  "map mf_ID (ph_files (snd (processCrossLibraryMoves sample_scan
     (Some \<lparr>mt_lib = 1, mt_pid = ''pid'', mt_missing = [sample_file ''newer'' 1 ''x/1.mp3'' True 5, sample_file ''older'' 1 ''z/1.mp3'' True 3], mt_matched = []\<rparr>)
     (sample_phase [sample_file ''newer'' 1 ''x/1.mp3'' True 5, sample_file ''older'' 1 ''z/1.mp3'' True 3, sample_file ''n'' 2 ''y/1.mp3'' False 9])))) = [''older'']"
  by code_simp

text \<open>An album's annotations are marked as moved even when the transaction that moves them is rolled back.\<close>

lemma rolled_back_album_marked:
  assumes "mf_AlbumID ms \<noteq> mf_AlbumID t" "mf_AlbumID t \<notin> set (ph_processed s)" "moveMatched env t ms s = (Inl CommitMove, s')"
  shows "ph_reassigned s' = ph_reassigned s \<and> mf_AlbumID t \<in> set (ph_processed s')"
  using assms by (auto simp: moveMatched_def reassign_album_def Let_def split: if_splits)

end
