(* ===== verification/Model_Lyrics.thy ===== *)
theory Model_Lyrics
  imports Go_Strings Go_Path Utils_Slice
begin

text \<open>
  Lyrics: the model (\<open>model/lyrics.go\<close>), the normalisation of word timings (\<open>lyrics_normalize.go\<close>) and the
  parsers for LRC and SRT (\<open>lyrics_lrc.go\<close>, \<open>lyrics_srt.go\<close>), with the choice of a parser
  (\<open>lyrics_parse.go\<close>). The regular expressions are written out as functions. The HTML sanitizer and, in the
  choice, the parsers of the other formats are arguments. Times are milliseconds; a time that may be missing
  is an option. \<open>slices.SortFunc\<close>, which does not promise to keep the order of lines with equal times, is an argument too.
\<close>

section \<open>Data\<close>

record Cue =
  cue_Start :: "int option"
  cue_End :: "int option"
  cue_Value :: string
  cue_ByteStart :: int
  cue_ByteEnd :: int
  cue_AgentID :: string

record Agent =
  ag_ID :: string
  ag_Role :: string
  ag_Name :: string

record Line =
  ln_Start :: "int option"
  ln_End :: "int option"
  ln_Value :: string
  ln_Cue :: "Cue list"

record Lyrics =
  ly_DisplayArtist :: string
  ly_DisplayTitle :: string
  ly_Kind :: string
  ly_Lang :: string
  ly_Agents :: "Agent list"
  ly_Line :: "Line list"
  ly_Offset :: "int option"
  ly_Synced :: bool

type_synonym LyricList = "Lyrics list"

definition LyricKindMain :: string where "LyricKindMain = ''main''"

definition IsEmpty :: "Lyrics \<Rightarrow> bool" where
  "IsEmpty l \<longleftrightarrow> ly_Line l = []"

definition EffectiveKind :: "Lyrics \<Rightarrow> string" where
  "EffectiveKind l = (if TrimSpace (ly_Kind l) = [] then LyricKindMain else ly_Kind l)"

definition IsMainKind :: "Lyrics \<Rightarrow> bool" where
  "IsMainKind l \<longleftrightarrow> EffectiveKind l = LyricKindMain"

definition Main :: "LyricList \<Rightarrow> Lyrics option" where
  "Main ll = (case List.find IsMainKind ll of Some l \<Rightarrow> Some l | None \<Rightarrow> (case ll of [] \<Rightarrow> None | l # _ \<Rightarrow> Some l))"

section \<open>Normalisation\<close>

text \<open>The end of a cue, given the start of the next one, if there is a next one with a start.\<close>

definition resolve_end :: "Cue \<Rightarrow> int option \<Rightarrow> int option \<Rightarrow> int option" where
  "resolve_end c nextStart fallbackEnd =
     (let e0 = (case cue_End c of Some e \<Rightarrow> Some e | None \<Rightarrow> (case nextStart of Some s \<Rightarrow> Some s | None \<Rightarrow> fallbackEnd));
          e1 = (case (e0, nextStart) of (Some e, Some s) \<Rightarrow> if e > s then Some s else Some e | _ \<Rightarrow> e0)
      in case (e1, cue_Start c) of (Some e, Some s) \<Rightarrow> if e < s then Some s else Some e | _ \<Rightarrow> e1)"

definition next_start :: "Cue list \<Rightarrow> int option" where
  "next_start cs = (case cs of [] \<Rightarrow> None | n # _ \<Rightarrow> cue_Start n)"

fun cue_ends :: "int option \<Rightarrow> Cue list \<Rightarrow> Cue list" where
  "cue_ends fallbackEnd [] = []"
| "cue_ends fallbackEnd (c # cs) = c\<lparr>cue_End := resolve_end c (next_start cs) fallbackEnd\<rparr> # cue_ends fallbackEnd cs"

definition NormalizeCueEnds :: "Cue list \<Rightarrow> int option \<Rightarrow> Cue list" where
  "NormalizeCueEnds cues fallbackEnd =
     (let out = cue_ends fallbackEnd cues
      in if list_ex (\<lambda>c. cue_End c = None) out then map (\<lambda>c. c\<lparr>cue_End := None\<rparr>) out else out)"

definition agent_order :: "Cue list \<Rightarrow> string list" where
  "agent_order cues = Unique (map cue_AgentID cues)"

definition agent_positions :: "Cue list \<Rightarrow> string \<Rightarrow> nat list" where
  "agent_positions cues i = filter (\<lambda>k. cue_AgentID (cues ! k) = i) [0..<length cues]"

definition put_group :: "Cue list \<Rightarrow> int option \<Rightarrow> Cue list \<Rightarrow> string \<Rightarrow> Cue list" where
  "put_group cues fallbackEnd out i =
     (let idxs = agent_positions cues i; grp = NormalizeCueEnds (map (\<lambda>k. cues ! k) idxs) fallbackEnd
      in foldl (\<lambda>o' (k, c). o'[k := c]) out (List.zip idxs grp))"

definition normalizeCueEndsByAgent :: "Cue list \<Rightarrow> int option \<Rightarrow> Cue list" where
  "normalizeCueEndsByAgent cues fallbackEnd =
     (if length (agent_order cues) \<le> 1 then NormalizeCueEnds cues fallbackEnd
      else foldl (put_group cues fallbackEnd) cues (agent_order cues))"

fun line_bounds :: "Cue list \<Rightarrow> int option \<Rightarrow> int option \<Rightarrow> int option \<times> int option" where
  "line_bounds [] earliestStart latestEnd = (earliestStart, latestEnd)"
| "line_bounds (t # ts) earliestStart latestEnd =
     line_bounds ts
       (case cue_Start t of
          None \<Rightarrow> earliestStart
        | Some s \<Rightarrow> (case earliestStart of None \<Rightarrow> Some s | Some e \<Rightarrow> if s < e then Some s else Some e))
       (case (case cue_End t of None \<Rightarrow> cue_Start t | Some e \<Rightarrow> Some e) of
          None \<Rightarrow> latestEnd
        | Some e \<Rightarrow> (case latestEnd of None \<Rightarrow> Some e | Some l \<Rightarrow> if e > l then Some e else Some l))"

definition normalizeLineTiming :: "Line \<Rightarrow> Line" where
  "normalizeLineTiming line =
     (if ln_Cue line = [] then line
      else (case line_bounds (ln_Cue line) None None of (earliestStart, latestEnd) \<Rightarrow>
        line\<lparr>ln_Start := (case ln_Start line of None \<Rightarrow> earliestStart | Some s \<Rightarrow> Some s),
             ln_End := (case ln_End line of None \<Rightarrow> latestEnd | Some e \<Rightarrow> Some e)\<rparr>))"

definition normalizeCueLine :: "Line \<Rightarrow> int option \<Rightarrow> Line" where
  "normalizeCueLine line fallbackEnd =
     (if ln_Cue line = [] then line
      else normalizeLineTiming (line\<lparr>ln_Cue := normalizeCueEndsByAgent (ln_Cue line) fallbackEnd\<rparr>))"

fun normalizeCueLines :: "Line list \<Rightarrow> Line list" where
  "normalizeCueLines [] = []"
| "normalizeCueLines (l # ls) =
     normalizeCueLine l (case ln_End l of Some e \<Rightarrow> Some e | None \<Rightarrow> (case ls of [] \<Rightarrow> None | n # _ \<Rightarrow> ln_Start n)) # normalizeCueLines ls"

definition normalizeLyrics :: "Lyrics \<Rightarrow> Lyrics" where
  "normalizeLyrics lyrics = lyrics\<lparr>ly_Line := normalizeCueLines (ly_Line lyrics)\<rparr>"

definition normalizeLyricLang :: "string \<Rightarrow> string" where
  "normalizeLyricLang lang = (let l = ToLower (TrimSpace lang) in if l = [] then ''xxx'' else l)"

section \<open>Time marks\<close>

definition re_space :: "char \<Rightarrow> bool" where \<comment> \<open>\<open>\s\<close> of a regular expression\<close>
  "re_space c \<longleftrightarrow> c \<in> set [CHR 0x09, CHR 0x0A, CHR 0x0C, CHR 0x0D, CHR '' '']"

text \<open>A run of \<open>lo\<close> to \<open>hi\<close> digits; what follows it in the expressions is never a digit.\<close>

definition take_digits :: "nat \<Rightarrow> nat \<Rightarrow> string \<Rightarrow> (string \<times> string) option" where
  "take_digits lo hi s =
     (let d = takeWhile is_digit s in if lo \<le> length d \<and> length d \<le> hi then Some (d, drop (length d) s) else None)"

record time_groups =
  tg_hours :: "string option"
  tg_minutes :: string
  tg_seconds :: string
  tg_millis :: "string option"

definition time_tail :: "char \<Rightarrow> string \<Rightarrow> (string option \<times> string) option" where
  "time_tail close s =
     (case s of
        [] \<Rightarrow> None
      | c # r \<Rightarrow>
          if c = close then Some (None, r)
          else if c = CHR ''.'' then
            (case take_digits 1 3 r of
               Some (d, c' # r') \<Rightarrow> if c' = close then Some (Some d, r') else None
             | _ \<Rightarrow> None)
          else None)"

definition digits_colon :: "string \<Rightarrow> (string \<times> string) option" where
  "digits_colon s = (case take_digits 1 2 s of Some (d, c # r) \<Rightarrow> if c = CHR '':'' then Some (d, r) else None | _ \<Rightarrow> None)"

text \<open>\<open>([0-9]{1,2}:)?([0-9]{1,2}):([0-9]{1,2})(\.[0-9]{1,3})?\<close> and the closing bracket; what is left of the text.\<close>

definition time_body :: "char \<Rightarrow> string \<Rightarrow> (time_groups \<times> string) option" where
  "time_body close s =
     (case digits_colon s of
        None \<Rightarrow> None
      | Some (a, r1) \<Rightarrow>
          (case digits_colon r1 of
             Some (b, r2) \<Rightarrow>
               (case take_digits 1 2 r2 of
                  Some (c, r3) \<Rightarrow>
                    map_option (\<lambda>(ms, r). (\<lparr>tg_hours = Some a, tg_minutes = b, tg_seconds = c, tg_millis = ms\<rparr>, r)) (time_tail close r3)
                | None \<Rightarrow> None)
           | None \<Rightarrow>
               (case take_digits 1 2 r1 of
                  Some (b, r2) \<Rightarrow>
                    map_option (\<lambda>(ms, r). (\<lparr>tg_hours = None, tg_minutes = a, tg_seconds = b, tg_millis = ms\<rparr>, r)) (time_tail close r2)
                | None \<Rightarrow> None)))"

lemma take_digits_rest: "take_digits lo hi s = Some (d, r) \<Longrightarrow> s = d @ r"
  by (auto simp: take_digits_def Let_def split: if_splits) (metis append_take_drop_id takeWhile_eq_take)

lemma digits_colon_rest: "digits_colon s = Some (d, r) \<Longrightarrow> s = d @ CHR '':'' # r"
  by (auto simp: digits_colon_def split: option.splits list.splits if_splits dest!: take_digits_rest)

lemma time_tail_shorter: "time_tail close s = Some (ms, r) \<Longrightarrow> length r < length s"
  by (auto simp: time_tail_def split: list.splits if_splits option.splits prod.splits dest!: take_digits_rest)

lemma time_body_shorter: "time_body close s = Some (g, r) \<Longrightarrow> length r < length s"
  by (auto simp: time_body_def split: option.splits dest!: digits_colon_rest take_digits_rest time_tail_shorter)

record time_match =
  tm_start :: nat
  tm_end :: nat
  tm_groups :: time_groups

text \<open>\<open>FindAllStringSubmatchIndex\<close>: the matches from left to right, with their positions.\<close>

function find_times :: "char \<Rightarrow> char \<Rightarrow> nat \<Rightarrow> string \<Rightarrow> time_match list" where
  "find_times opn close pos [] = []"
| "find_times opn close pos (x # xs) =
     (case (if x = opn then time_body close xs else None) of
        Some (g, r) \<Rightarrow>
          (let e = pos + 1 + (length xs - length r)
           in \<lparr>tm_start = pos, tm_end = e, tm_groups = g\<rparr> # find_times opn close e r)
      | None \<Rightarrow> find_times opn close (pos + 1) xs)"
  by pat_completeness auto
termination
  by (relation "measure (\<lambda>(_, _, _, s). length s)") (auto dest!: time_body_shorter split: if_splits)

definition scaled_millis :: "string \<Rightarrow> int option" where
  "scaled_millis d = map_option (\<lambda>v. if length d = 2 then v * 10 else if length d = 1 then v * 100 else v) (Atoi d)"

definition parseTime :: "time_groups \<Rightarrow> int option" where
  "parseTime g =
     (case (case tg_hours g of None \<Rightarrow> Some 0 | Some h \<Rightarrow> Atoi h, Atoi (tg_minutes g), Atoi (tg_seconds g),
            case tg_millis g of None \<Rightarrow> Some 0 | Some d \<Rightarrow> scaled_millis d) of
        (Some hours, Some minutes, Some sec, Some millis) \<Rightarrow> Some (((hours * 60 + minutes) * 60 + sec) * 1000 + millis)
      | _ \<Rightarrow> None)"

section \<open>Enhanced lines\<close>

definition substring :: "nat \<Rightarrow> nat \<Rightarrow> string \<Rightarrow> string" where
  "substring a b s = take (b - a) (drop a s)"

fun marker_gaps :: "nat \<Rightarrow> time_match list \<Rightarrow> string \<Rightarrow> string" where
  "marker_gaps pos [] s = drop pos s"
| "marker_gaps pos (m # ms) s = substring pos (tm_start m) s @ marker_gaps (tm_end m) ms s"

definition stripEnhancedMarkers :: "string \<Rightarrow> string" where
  "stripEnhancedMarkers s = marker_gaps 0 (find_times (CHR ''<'') (CHR ''>'') 0 s) s"

record segment =
  sg_start :: int
  sg_rawStart :: nat
  sg_rawEnd :: nat

text \<open>The words after the markers, collected in \<open>rawValue\<close>; a marker at the very end ends the last word.\<close>

fun line_segments :: "string \<Rightarrow> time_match list \<Rightarrow> string \<Rightarrow> segment list \<Rightarrow> string \<times> segment list \<times> int option" where
  "line_segments s [] rawValue segs = (rawValue, segs, None)"
| "line_segments s (m # ms) rawValue segs =
     (case parseTime (tm_groups m) of
        None \<Rightarrow> line_segments s ms rawValue segs
      | Some timeMs \<Rightarrow>
          (let word = substring (tm_end m) (case ms of [] \<Rightarrow> length s | n # _ \<Rightarrow> tm_start n) s
           in if word = [] then
                (if ms = [] then (rawValue, segs, Some timeMs) else line_segments s ms rawValue segs)
              else
                line_segments s ms (rawValue @ word)
                  (segs @ [\<lparr>sg_start = timeMs, sg_rawStart = length rawValue, sg_rawEnd = length (rawValue @ word)\<rparr>])))"

definition segment_cue :: "string \<Rightarrow> nat \<Rightarrow> nat \<Rightarrow> segment \<Rightarrow> Cue list" where
  "segment_cue finalRaw leftTrimBytes trimmedEnd seg =
     (let byteStart = max (sg_rawStart seg) leftTrimBytes; byteEnd = min (sg_rawEnd seg) trimmedEnd
      in if byteStart \<ge> byteEnd then []
         else [\<lparr>cue_Start = Some (sg_start seg), cue_End = None, cue_Value = substring byteStart byteEnd finalRaw,
                cue_ByteStart = int byteStart - int leftTrimBytes, cue_ByteEnd = int byteEnd - int leftTrimBytes - 1, cue_AgentID = []\<rparr>])"

definition end_last :: "int option \<Rightarrow> Cue list \<Rightarrow> Cue list" where
  "end_last trailingEnd cues =
     (case trailingEnd of
        None \<Rightarrow> cues
      | Some e \<Rightarrow> if cues = [] then cues else butlast cues @ [(last cues)\<lparr>cue_End := Some e\<rparr>])"

definition parseEnhancedLine :: "string \<Rightarrow> string \<times> Cue list" where
  "parseEnhancedLine s =
     (let matches = find_times (CHR ''<'') (CHR ''>'') 0 s
      in if matches = [] then (TrimSpace s, [])
         else (case line_segments s matches [] [] of (finalRaw, segs, trailingEnd) \<Rightarrow>
           if segs = [] then (TrimSpace (stripEnhancedMarkers s), [])
           else
             (let leftTrimBytes = length finalRaw - length (dropWhile is_space finalRaw);
                  rightTrimBytes = length finalRaw - length (rev (dropWhile is_space (rev finalRaw)));
                  trimmedEnd = max (length finalRaw - rightTrimBytes) leftTrimBytes
              in (TrimSpace finalRaw, end_last trailingEnd (concat (map (segment_cue finalRaw leftTrimBytes trimmedEnd) segs))))))"

definition shiftELRCCues :: "Cue list \<Rightarrow> int \<Rightarrow> Cue list" where
  "shiftELRCCues baseCues offsetMs =
     map (\<lambda>c. c\<lparr>cue_Start := map_option (\<lambda>s. s + offsetMs) (cue_Start c), cue_End := map_option (\<lambda>e. e + offsetMs) (cue_End c)\<rparr>) baseCues"

section \<open>LRC\<close>

text \<open>\<open>\[(ar|ti|offset|lang):([^]]+)]\<close>, leftmost match.\<close>

fun lrc_id :: "string \<Rightarrow> (string \<times> string) option" where
  "lrc_id [] = None"
| "lrc_id (x # xs) =
     (let hit = (\<lambda>name. let v = takeWhile (\<lambda>c. c \<noteq> CHR '']'') (drop (length name + 1) xs)
            in x = CHR ''['' \<and> HasPrefix xs (name @ '':'') \<and> v \<noteq> [] \<and> length name + 1 + length v < length xs)
      in case List.find hit [''ar'', ''ti'', ''offset'', ''lang''] of
           Some name \<Rightarrow> Some (name, takeWhile (\<lambda>c. c \<noteq> CHR '']'') (drop (length name + 1) xs))
         | None \<Rightarrow> lrc_id xs)"

definition starts_timed :: "string \<Rightarrow> bool" where
  "starts_timed s = (case dropWhile re_space s of [] \<Rightarrow> False | c # r \<Rightarrow> c = CHR ''['' \<and> time_body (CHR '']'') r \<noteq> None)"

fun timed_after_newline :: "string \<Rightarrow> bool" where
  "timed_after_newline [] = False"
| "timed_after_newline (c # cs) = (c = LF \<and> starts_timed cs \<or> timed_after_newline cs)"

definition sync_text :: "string \<Rightarrow> bool" where \<comment> \<open>\<open>syncRegex\<close>\<close>
  "sync_text s \<longleftrightarrow> starts_timed s \<or> timed_after_newline s"

record lrc_state =
  ls_artist :: string
  ls_title :: string
  ls_language :: string
  ls_offset :: "int option"
  ls_priorLine :: string
  ls_validLine :: bool
  ls_repeated :: bool
  ls_timestamps :: "int list"
  ls_structuredLines :: "Line list"

definition flush_line :: "lrc_state \<Rightarrow> lrc_state" where
  "flush_line s =
     (if \<not> ls_validLine s then s
      else (case parseEnhancedLine (ls_priorLine s) of (v, baseCues) \<Rightarrow>
        s\<lparr>ls_structuredLines := ls_structuredLines s @
             map (\<lambda>t. \<lparr>ln_Start = Some t, ln_End = None, ln_Value = v, ln_Cue = shiftELRCCues baseCues (t - hd (ls_timestamps s))\<rparr>) (ls_timestamps s),
           ls_timestamps := []\<rparr>))"

text \<open>The leading time marks of a line: where they end, and their times.\<close>

fun leading_times :: "string \<Rightarrow> nat \<Rightarrow> time_match list \<Rightarrow> (nat \<times> int list) option" where
  "leading_times line e [] = Some (e, [])"
| "leading_times line e (m # ms) =
     (if e \<noteq> 0 \<and> TrimSpace (substring e (tm_start m) line) \<noteq> [] then Some (e, [])
      else (case parseTime (tm_groups m) of
         None \<Rightarrow> None
       | Some t \<Rightarrow> map_option (\<lambda>(e', ts). (e', t # ts)) (leading_times line (tm_end m) ms)))"

definition lrc_tag :: "(string \<Rightarrow> string) \<Rightarrow> string \<times> string \<Rightarrow> lrc_state \<Rightarrow> lrc_state" where
  "lrc_tag sanitize tag s =
     (case tag of (name, v) \<Rightarrow>
        if name = ''ar'' then s\<lparr>ls_artist := sanitize (TrimSpace v)\<rparr>
        else if name = ''lang'' then s\<lparr>ls_language := sanitize (TrimSpace v)\<rparr>
        else if name = ''offset'' then (case Atoi (TrimSpace v) of None \<Rightarrow> s | Some off \<Rightarrow> s\<lparr>ls_offset := Some off\<rparr>)
        else s\<lparr>ls_title := sanitize (TrimSpace v)\<rparr>)"

definition lrc_line :: "(string \<Rightarrow> string) \<Rightarrow> bool \<Rightarrow> string \<Rightarrow> lrc_state \<Rightarrow> lrc_state option" where
  "lrc_line sanitize synced line0 s =
     (let line = TrimSpace line0
      in if line = [] then Some (if ls_validLine s then s\<lparr>ls_priorLine := ls_priorLine s @ [LF]\<rparr> else s)
         else if \<not> synced then
           Some (s\<lparr>ls_structuredLines := ls_structuredLines s @ [\<lparr>ln_Start = None, ln_End = None, ln_Value = line, ln_Cue = []\<rparr>]\<rparr>)
         else (case lrc_id line of
            Some tag \<Rightarrow> Some (lrc_tag sanitize tag s)
          | None \<Rightarrow>
              (let times = find_times (CHR ''['') (CHR '']'') 0 line;
                   s1 = (if length times > 1 then s\<lparr>ls_repeated := True\<rparr> else s)
               in if times = [] \<or> tm_start (hd times) \<noteq> 0 then
                    Some (if ls_validLine s1 then s1\<lparr>ls_priorLine := ls_priorLine s1 @ [LF] @ line\<rparr> else s1)
                  else
                    map_option (\<lambda>(e, ts). (flush_line s1)\<lparr>ls_timestamps := ts,
                        ls_priorLine := (if e \<ge> length line then [] else TrimSpace (drop e line)), ls_validLine := True\<rparr>)
                      (leading_times line 0 times))))"

fun lrc_lines :: "(string \<Rightarrow> string) \<Rightarrow> bool \<Rightarrow> string list \<Rightarrow> lrc_state \<Rightarrow> lrc_state option" where
  "lrc_lines sanitize synced [] s = Some s"
| "lrc_lines sanitize synced (l # ls) s =
     (case lrc_line sanitize synced l s of None \<Rightarrow> None | Some s' \<Rightarrow> lrc_lines sanitize synced ls s')"

definition parseLRC :: "(Line list \<Rightarrow> Line list) \<Rightarrow> (string \<Rightarrow> string) \<Rightarrow> string \<Rightarrow> string \<Rightarrow> Lyrics option" where
  "parseLRC sort_by_start sanitize language txt0 =
     (let txt = sanitize txt0; synced = sync_text txt;
          s0 = \<lparr>ls_artist = [], ls_title = [], ls_language = language, ls_offset = None, ls_priorLine = [], ls_validLine = False,
                ls_repeated = False, ls_timestamps = [], ls_structuredLines = []\<rparr>
      in case lrc_lines sanitize synced (split_on LF txt) s0 of
           None \<Rightarrow> None
         | Some s1 \<Rightarrow>
             (let s = flush_line s1;
                  structuredLines = (if ls_repeated s then sort_by_start (ls_structuredLines s) else ls_structuredLines s)
              in Some \<lparr>ly_DisplayArtist = ls_artist s, ly_DisplayTitle = ls_title s, ly_Kind = [], ly_Lang = ls_language s, ly_Agents = [],
                   ly_Line = normalizeCueLines structuredLines, ly_Offset = ls_offset s, ly_Synced = synced\<rparr>))"

section \<open>SRT\<close>

datatype lyrics_error = ErrSyntax | OtherFormat string

definition digitsOnly :: "string \<Rightarrow> bool" where
  "digitsOnly v \<longleftrightarrow> v \<noteq> [] \<and> list_all is_digit v"

text \<open>\<open>^\s*(\d{1,2}):(\d{2}):(\d{2})[,.](\d{1,3})\s*$\<close> on a trimmed text.\<close>

definition srt_time_groups :: "string \<Rightarrow> (string \<times> string \<times> string \<times> string) option" where
  "srt_time_groups s =
     (case digits_colon (dropWhile re_space s) of
        None \<Rightarrow> None
      | Some (h, r1) \<Rightarrow>
          (case digits_colon r1 of
             None \<Rightarrow> None
           | Some (m, r2) \<Rightarrow>
               (case take_digits 2 2 r2 of
                  Some (sec, c # r3) \<Rightarrow>
                    (case take_digits 1 3 r3 of
                       Some (ms, r4) \<Rightarrow> if length m = 2 \<and> (c = CHR '','' \<or> c = CHR ''.'') \<and> dropWhile re_space r4 = [] then Some (h, m, sec, ms) else None
                     | None \<Rightarrow> None)
                | _ \<Rightarrow> None)))"

definition parseSRTTime :: "string \<Rightarrow> lyrics_error + int" where
  "parseSRTTime v =
     (case srt_time_groups (TrimSpace v) of
        None \<Rightarrow> Inl ErrSyntax
      | Some (h, m, s, ms) \<Rightarrow>
          (case (Atoi h, Atoi m, Atoi s, scaled_millis ms) of
             (Some hours, Some minutes, Some seconds, Some millis) \<Rightarrow> Inr (((hours * 60 + minutes) * 60 + seconds) * 1000 + millis)
           | _ \<Rightarrow> Inl ErrSyntax))"

function split_arrow :: "string \<Rightarrow> string list" where \<comment> \<open>\<open>strings.Split(line, "-->")\<close>\<close>
  "split_arrow [] = [[]]"
| "split_arrow (c # cs) =
     (if HasPrefix (c # cs) ''-->'' then [] # split_arrow (drop 3 (c # cs))
      else (case split_arrow cs of [] \<Rightarrow> [[c]] | w # ws \<Rightarrow> (c # w) # ws))"
  by pat_completeness auto
termination by (relation "measure length") auto

definition parseSRTBlock :: "(string \<Rightarrow> string) \<Rightarrow> string \<Rightarrow> lyrics_error + Line option" where
  "parseSRTBlock sanitize block =
     (let lines = map TrimSpace (split_on LF block);
          startIdx = (if digitsOnly (hd lines) then 1 else 0)
      in if startIdx \<ge> length lines then Inr None
         else (case split_arrow (lines ! startIdx) of
            [a, b] \<Rightarrow>
              (case parseSRTTime a of
                 Inl e \<Rightarrow> Inl e
               | Inr startMs \<Rightarrow>
                   (case parseSRTTime b of
                      Inl e \<Rightarrow> Inl e
                    | Inr endMs \<Rightarrow>
                        (let v = sanitize (Join (filter (\<lambda>l. l \<noteq> []) (drop (startIdx + 1) lines)) [LF])
                         in Inr (if v = [] then None else Some \<lparr>ln_Start = Some startMs, ln_End = Some endMs, ln_Value = v, ln_Cue = []\<rparr>))))
          | _ \<Rightarrow> Inr None))"

text \<open>\<open>\n\s*\n\<close>: from a line end to the last line end of the white space after it.\<close>

definition after_last_newline :: "string \<Rightarrow> string" where
  "after_last_newline ws = rev (takeWhile (\<lambda>c. c \<noteq> LF) (rev ws))"

function split_blocks :: "string \<Rightarrow> string list" where
  "split_blocks [] = [[]]"
| "split_blocks (c # cs) =
     (if c = LF \<and> LF \<in> set (takeWhile re_space cs)
      then [] # split_blocks (after_last_newline (takeWhile re_space cs) @ dropWhile re_space cs)
      else (case split_blocks cs of [] \<Rightarrow> [[c]] | w # ws \<Rightarrow> (c # w) # ws))"
  by pat_completeness auto
termination
proof (relation "measure length", simp, goal_cases)
  case (1 c cs)
  have "length (after_last_newline (takeWhile re_space cs)) \<le> length (takeWhile re_space cs)"
    by (metis after_last_newline_def length_rev length_takeWhile_le)
  moreover have "length (takeWhile re_space cs) + length (dropWhile re_space cs) = length cs" by (metis length_append takeWhile_dropWhile_id)
  ultimately show ?case by simp
qed simp

definition splitSRTBlocks :: "string \<Rightarrow> string list" where
  "splitSRTBlocks raw0 =
     (let raw = TrimSpace raw0
      in if raw = [] then [] else filter (\<lambda>b. b \<noteq> []) (map TrimSpace (split_blocks raw)))"

fun srt_blocks :: "(string \<Rightarrow> string) \<Rightarrow> string list \<Rightarrow> lyrics_error + Line list" where
  "srt_blocks sanitize [] = Inr []"
| "srt_blocks sanitize (b # bs) =
     (case parseSRTBlock sanitize b of
        Inl e \<Rightarrow> Inl e
      | Inr r \<Rightarrow> map_sum id (\<lambda>ls. (case r of None \<Rightarrow> ls | Some l \<Rightarrow> l # ls)) (srt_blocks sanitize bs))"

definition parseSRT :: "(string \<Rightarrow> string) \<Rightarrow> string \<Rightarrow> string \<Rightarrow> lyrics_error + LyricList" where
  "parseSRT sanitize language contents =
     (let raw = ReplaceAll (ReplaceAll contents [CR, LF] [LF]) [CR] [LF]
      in case srt_blocks sanitize (splitSRTBlocks raw) of
           Inl e \<Rightarrow> Inl e
         | Inr lines \<Rightarrow>
             if lines = [] then Inr []
             else Inr [normalizeLyrics \<lparr>ly_DisplayArtist = [], ly_DisplayTitle = [], ly_Kind = [], ly_Lang = normalizeLyricLang language,
                    ly_Agents = [], ly_Line = lines, ly_Offset = None, ly_Synced = True\<rparr>])"

section \<open>The choice of a parser\<close>

type_synonym lyricParser = "string \<Rightarrow> string \<Rightarrow> lyrics_error + LyricList"

definition stripBOM :: "string \<Rightarrow> string" where
  "stripBOM contents = (let bom = [CHR 0xEF, CHR 0xBB, CHR 0xBF] in if HasPrefix contents bom then drop 3 contents else contents)"

definition plainLRC :: "(Line list \<Rightarrow> Line list) \<Rightarrow> (string \<Rightarrow> string) \<Rightarrow> string \<Rightarrow> string \<Rightarrow> lyrics_error + LyricList" where
  "plainLRC sort_by_start sanitize lang contents =
     (case parseLRC sort_by_start sanitize lang contents of
        None \<Rightarrow> Inl ErrSyntax
      | Some lyric \<Rightarrow> Inr (if IsEmpty lyric then [] else [lyric]))"

fun parseFirstMatch :: "(Line list \<Rightarrow> Line list) \<Rightarrow> (string \<Rightarrow> string) \<Rightarrow> string \<Rightarrow> string \<Rightarrow> lyricParser list \<Rightarrow> lyrics_error + LyricList" where
  "parseFirstMatch sort_by_start sanitize lang contents [] = plainLRC sort_by_start sanitize lang contents"
| "parseFirstMatch sort_by_start sanitize lang contents (parse # candidates) =
     (case parse lang contents of
        Inr (l # ls) \<Rightarrow> Inr (l # ls)
      | _ \<Rightarrow> parseFirstMatch sort_by_start sanitize lang contents candidates)"

definition ParseLyrics :: "(Line list \<Rightarrow> Line list) \<Rightarrow> (string \<Rightarrow> string) \<Rightarrow> lyricParser \<Rightarrow> lyricParser \<Rightarrow> string \<Rightarrow> string \<Rightarrow> string \<Rightarrow> lyrics_error + LyricList" where
  "ParseLyrics sort_by_start sanitize parseTTML parseLyricsfile suffix0 lang contents0 =
     (let contents = stripBOM contents0; suffix = ToLower suffix0; sniff = suffix = [] \<or> suffix = ''auto'';
          lyricFormats = [([''.ttml''], parseTTML), ([''.srt''], parseSRT sanitize), ([''.yaml'', ''.yml''], parseLyricsfile)]
      in parseFirstMatch sort_by_start sanitize lang contents (map snd (filter (\<lambda>f. sniff \<or> suffix \<in> set (fst f)) lyricFormats)))"

end
