(* ===== verification/Model_Lyrics_Correct.thy ===== *)
theory Model_Lyrics_Correct
  imports Model_Lyrics "HOL-Library.Multiset"
begin

text \<open>
  Lyrics: word timings that are consistent for every voice, the byte ranges of words in enhanced LRC
  lines, and the reading of synchronised lines.
\<close>

section \<open>The ends of cues\<close>

definition erase_end :: "Cue \<Rightarrow> Cue" where
  "erase_end c = c\<lparr>cue_End := None\<rparr>"

text \<open>Every cue has an end, not before its own start and, if the next cue does not start earlier, not after that start.\<close>

definition end_ok :: "Cue \<Rightarrow> int option \<Rightarrow> bool" where
  "end_ok c nextStart \<longleftrightarrow>
     (case cue_End c of
        None \<Rightarrow> False
      | Some e \<Rightarrow>
          (case cue_Start c of None \<Rightarrow> True | Some s \<Rightarrow> s \<le> e) \<and>
          (case nextStart of
             None \<Rightarrow> True
           | Some n \<Rightarrow> (case cue_Start c of None \<Rightarrow> e \<le> n | Some s \<Rightarrow> s \<le> n \<longrightarrow> e \<le> n)))"

fun ends_ok :: "Cue list \<Rightarrow> bool" where
  "ends_ok [] = True"
| "ends_ok (c # cs) = (end_ok c (next_start cs) \<and> ends_ok cs)"

lemma resolve_end_ok: "resolve_end c n fb \<noteq> None \<Longrightarrow> end_ok (c\<lparr>cue_End := resolve_end c n fb\<rparr>) n"
  by (auto simp: resolve_end_def end_ok_def Let_def split: option.splits if_splits)

lemma erase_simps [simp]: "erase_end (erase_end c) = erase_end c" "erase_end (c\<lparr>cue_End := e\<rparr>) = erase_end c"
  "cue_AgentID (erase_end c) = cue_AgentID c" "cue_End (erase_end c) = None"
  by (simp_all add: erase_end_def)

lemma cue_ends_erase [simp]: "map erase_end (cue_ends fb cues) = map erase_end cues"
  by (induction cues) auto

lemma next_start_erase: "map erase_end cs = map erase_end ds \<Longrightarrow> next_start cs = next_start ds"
  by (cases cs; cases ds) (auto simp: next_start_def erase_end_def, metis Cue.select_convs(1) Cue.surjective Cue.update_convs(2))

lemma cue_ends_ok: "\<not> list_ex (\<lambda>c. cue_End c = None) (cue_ends fb cues) \<Longrightarrow> ends_ok (cue_ends fb cues)"
proof (induction cues)
  case (Cons c cs)
  then have "resolve_end c (next_start cs) fb \<noteq> None" by auto
  from resolve_end_ok [OF this] Cons next_start_erase [OF cue_ends_erase, of fb cs] show ?case by simp
qed simp

lemma NormalizeCueEnds_erase: "map erase_end (NormalizeCueEnds cues fb) = map erase_end cues"
  using cue_ends_erase [of fb cues] by (auto simp: NormalizeCueEnds_def Let_def comp_def)

lemma NormalizeCueEnds_ok:
  "ends_ok (NormalizeCueEnds cues fb) \<or> (\<forall>c\<in>set (NormalizeCueEnds cues fb). cue_End c = None)"
  using cue_ends_ok [of fb cues] by (auto simp: NormalizeCueEnds_def Let_def)

lemma NormalizeCueEnds_length [simp]: "length (NormalizeCueEnds cues fb) = length cues"
  using arg_cong [OF NormalizeCueEnds_erase [of cues fb], of length] by simp

lemma NormalizeCueEnds_agent:
  assumes "k < length cues"
  shows "cue_AgentID (NormalizeCueEnds cues fb ! k) = cue_AgentID (cues ! k)"
proof -
  have "erase_end (NormalizeCueEnds cues fb ! k) = erase_end (cues ! k)"
    using arg_cong [OF NormalizeCueEnds_erase [of cues fb], of "\<lambda>l. l ! k"] assms by simp
  from arg_cong [OF this, of cue_AgentID] show ?thesis by simp
qed

section \<open>Voices\<close>

lemma fold_updates:
  "distinct idxs \<Longrightarrow> length vs = length idxs \<Longrightarrow> \<forall>k\<in>set idxs. k < length out \<Longrightarrow>
   length (foldl (\<lambda>o' (k, c). o'[k := c]) out (zip idxs vs)) = length out \<and>
   map (\<lambda>k. foldl (\<lambda>o' (k, c). o'[k := c]) out (zip idxs vs) ! k) idxs = vs \<and>
   (\<forall>k. k \<notin> set idxs \<longrightarrow> foldl (\<lambda>o' (k, c). o'[k := c]) out (zip idxs vs) ! k = out ! k)"
proof (induction idxs arbitrary: vs out)
  case (Cons i idxs)
  obtain v vs' where vs: "vs = v # vs'" using Cons.prems by (cases vs) auto
  have pre: "distinct idxs" "length vs' = length idxs" "\<forall>k\<in>set idxs. k < length (out[i := v])" using Cons.prems vs by auto
  from Cons.IH [OF pre] Cons.prems show ?case by (auto simp: vs)
qed simp

lemma filter_positions: "filter P xs = map (\<lambda>k. xs ! k) (filter (\<lambda>k. P (xs ! k)) [0..<length xs])"
  using filter_map [of P "\<lambda>k. xs ! k" "[0..<length xs]"] by (simp add: map_nth comp_def)

lemma agent_positions_simps: "distinct (agent_positions cues a)" "k \<in> set (agent_positions cues a) \<longleftrightarrow> k < length cues \<and> cue_AgentID (cues ! k) = a"
  by (auto simp: agent_positions_def)

text \<open>While the groups are put back: those done are normalised, the others as they were.\<close>

definition groups_done :: "Cue list \<Rightarrow> int option \<Rightarrow> string set \<Rightarrow> Cue list \<Rightarrow> bool" where
  "groups_done cues fb S out \<longleftrightarrow> length out = length cues \<and>
     (\<forall>a\<in>S. map (\<lambda>k. out ! k) (agent_positions cues a) = NormalizeCueEnds (map (\<lambda>k. cues ! k) (agent_positions cues a)) fb) \<and>
     (\<forall>k<length cues. cue_AgentID (cues ! k) \<notin> S \<longrightarrow> out ! k = cues ! k)"

lemma put_group_done:
  assumes "groups_done cues fb S out" "a \<notin> S"
  shows "groups_done cues fb (insert a S) (put_group cues fb out a)"
proof -
  let ?idxs = "agent_positions cues a"
  let ?grp = "NormalizeCueEnds (map (\<lambda>k. cues ! k) ?idxs) fb"
  let ?out = "put_group cues fb out a"
  have pre: "distinct ?idxs" "length ?grp = length ?idxs" "\<forall>k\<in>set ?idxs. k < length out"
    using assms(1) by (auto simp: agent_positions_simps groups_done_def)
  have out: "?out = foldl (\<lambda>o' (k, c). o'[k := c]) out (zip ?idxs ?grp)" by (simp add: put_group_def Let_def)
  have other: "?out ! k = out ! k" if "k \<notin> set ?idxs" for k using fold_updates [OF pre] that unfolding out by blast
  have old: "map (\<lambda>k. ?out ! k) (agent_positions cues b) = NormalizeCueEnds (map (\<lambda>k. cues ! k) (agent_positions cues b)) fb" if "b \<in> S" for b
  proof -
    have "map (\<lambda>k. ?out ! k) (agent_positions cues b) = map (\<lambda>k. out ! k) (agent_positions cues b)"
      by (rule map_cong [OF refl], rule other) (use that assms(2) in \<open>auto simp: agent_positions_simps\<close>)
    then show ?thesis using assms(1) that unfolding groups_done_def by metis
  qed
  have new: "map (\<lambda>k. ?out ! k) ?idxs = ?grp" "length ?out = length out" using fold_updates [OF pre] unfolding out by blast+
  show ?thesis
    unfolding groups_done_def
  proof (intro conjI ballI allI impI)
    show "length ?out = length cues" using new(2) assms(1) by (simp add: groups_done_def)
    show "map (\<lambda>k. ?out ! k) (agent_positions cues b) = NormalizeCueEnds (map (\<lambda>k. cues ! k) (agent_positions cues b)) fb" if "b \<in> insert a S" for b
      using that old new(1) by blast
    show "?out ! k = cues ! k" if "k < length cues" "cue_AgentID (cues ! k) \<notin> insert a S" for k
      using that other [of k] assms(1) by (simp add: agent_positions_simps groups_done_def)
  qed
qed

lemma put_groups_done:
  "groups_done cues fb S out \<Longrightarrow> distinct as \<Longrightarrow> S \<inter> set as = {} \<Longrightarrow> groups_done cues fb (S \<union> set as) (foldl (put_group cues fb) out as)"
proof (induction as arbitrary: S out)
  case (Cons a as)
  then have "groups_done cues fb (insert a S) (put_group cues fb out a)" by (intro put_group_done) auto
  from Cons.IH [OF this] Cons.prems show ?case by simp
qed simp

lemma groups_done_all:
  assumes "groups_done cues fb (cue_AgentID ` set cues) out"
  shows "map erase_end out = map erase_end cues" "filter (\<lambda>c. cue_AgentID c = a) out = NormalizeCueEnds (filter (\<lambda>c. cue_AgentID c = a) cues) fb"
proof -
  have len: "length out = length cues" using assms by (simp add: groups_done_def)
  have grp: "map (\<lambda>k. out ! k) (agent_positions cues b) = NormalizeCueEnds (map (\<lambda>k. cues ! k) (agent_positions cues b)) fb" for b
  proof (cases "b \<in> cue_AgentID ` set cues")
    case True
    then show ?thesis using assms unfolding groups_done_def by blast
  next
    case False
    then have "agent_positions cues b = []" by (auto simp: agent_positions_def filter_empty_conv)
    then show ?thesis by (simp add: NormalizeCueEnds_def)
  qed
  have each: "erase_end (out ! k) = erase_end (cues ! k)" if "k < length cues" for k
  proof -
    let ?idxs = "agent_positions cues (cue_AgentID (cues ! k))"
    have "map erase_end (map (\<lambda>k. out ! k) ?idxs) = map erase_end (map (\<lambda>k. cues ! k) ?idxs)" unfolding grp by (rule NormalizeCueEnds_erase)
    moreover have "k \<in> set ?idxs" using that by (simp add: agent_positions_simps)
    ultimately show ?thesis by (simp add: comp_def)
  qed
  then show "map erase_end out = map erase_end cues" using len by (auto intro: nth_equalityI)
  have "cue_AgentID (out ! k) = cue_AgentID (cues ! k)" if "k < length cues" for k
    using arg_cong [OF each [OF that], of cue_AgentID] by simp
  then have "filter (\<lambda>k. cue_AgentID (out ! k) = a) [0..<length out] = agent_positions cues a"
    unfolding agent_positions_def len by (auto intro: filter_cong)
  then show "filter (\<lambda>c. cue_AgentID c = a) out = NormalizeCueEnds (filter (\<lambda>c. cue_AgentID c = a) cues) fb"
    using grp [of a] unfolding filter_positions [of _ out] filter_positions [of _ cues] agent_positions_def by simp
qed

lemma byAgent_groups:
  "map erase_end (normalizeCueEndsByAgent cues fb) = map erase_end cues"
  "filter (\<lambda>c. cue_AgentID c = a) (normalizeCueEndsByAgent cues fb) = NormalizeCueEnds (filter (\<lambda>c. cue_AgentID c = a) cues) fb"
proof -
  have order: "set (agent_order cues) = cue_AgentID ` set cues" "distinct (agent_order cues)"
    by (simp_all add: agent_order_def Unique_def unique_loop_spec)
  have "map erase_end (normalizeCueEndsByAgent cues fb) = map erase_end cues \<and>
    filter (\<lambda>c. cue_AgentID c = a) (normalizeCueEndsByAgent cues fb) = NormalizeCueEnds (filter (\<lambda>c. cue_AgentID c = a) cues) fb"
  proof (cases "length (agent_order cues) \<le> 1")
    case True
    have same: "cue_AgentID c = cue_AgentID d" if "c \<in> set cues" "d \<in> set cues" for c d
    proof -
      have "card (cue_AgentID ` set cues) \<le> Suc 0" using True distinct_card [OF order(2)] order(1) by simp
      moreover have "finite (cue_AgentID ` set cues)" by simp
      ultimately show ?thesis using that card_le_Suc0_iff_eq by blast
    qed
    have agents: "map cue_AgentID (NormalizeCueEnds cues fb) = map cue_AgentID cues"
      by (rule nth_equalityI) (simp_all add: NormalizeCueEnds_agent)
    then have set_agents: "cue_AgentID ` set (NormalizeCueEnds cues fb) = cue_AgentID ` set cues" by (metis list.set_map)
    have "filter (\<lambda>c. cue_AgentID c = a) (NormalizeCueEnds cues fb) = NormalizeCueEnds (filter (\<lambda>c. cue_AgentID c = a) cues) fb"
    proof (cases "\<exists>c\<in>set cues. cue_AgentID c = a")
      case True
      then have "\<forall>c\<in>set cues. cue_AgentID c = a" using same by blast
      moreover from this have "\<forall>c\<in>set (NormalizeCueEnds cues fb). cue_AgentID c = a" using set_agents by (metis imageE imageI)
      ultimately show ?thesis by (simp add: filter_True)
    next
      case False
      moreover from this have "\<forall>c\<in>set (NormalizeCueEnds cues fb). cue_AgentID c \<noteq> a" using set_agents by (metis imageE imageI)
      ultimately show ?thesis by (simp add: filter_False NormalizeCueEnds_def)
    qed
    then show ?thesis using True by (simp add: normalizeCueEndsByAgent_def NormalizeCueEnds_erase)
  next
    case False
    have "groups_done cues fb {} cues" by (simp add: groups_done_def)
    from put_groups_done [OF this order(2)]
    have "groups_done cues fb (cue_AgentID ` set cues) (foldl (put_group cues fb) cues (agent_order cues))" by (simp add: order(1))
    from groups_done_all [OF this] False show ?thesis by (simp add: normalizeCueEndsByAgent_def)
  qed
  then show "map erase_end (normalizeCueEndsByAgent cues fb) = map erase_end cues"
    "filter (\<lambda>c. cue_AgentID c = a) (normalizeCueEndsByAgent cues fb) = NormalizeCueEnds (filter (\<lambda>c. cue_AgentID c = a) cues) fb" by auto
qed

text \<open>The cues of one voice: all ends are there and fit, or there are none.\<close>

definition voice_ok :: "Cue list \<Rightarrow> bool" where
  "voice_ok cs \<longleftrightarrow> ends_ok cs \<or> list_all (\<lambda>c. cue_End c = None) cs"

definition timing_ok :: "Line \<Rightarrow> Line \<Rightarrow> bool" where
  "timing_ok l l' \<longleftrightarrow> ln_Value l' = ln_Value l \<and> map erase_end (ln_Cue l') = map erase_end (ln_Cue l) \<and>
     list_all (\<lambda>a. voice_ok (filter (\<lambda>c. cue_AgentID c = a) (ln_Cue l'))) (map cue_AgentID (ln_Cue l)) \<and>
     (case ln_Start l of None \<Rightarrow> True | Some s \<Rightarrow> ln_Start l' = Some s) \<and> (case ln_End l of None \<Rightarrow> True | Some e \<Rightarrow> ln_End l' = Some e)"

lemma normalizeLineTiming_simps [simp]:
  "ln_Value (normalizeLineTiming l) = ln_Value l" "ln_Cue (normalizeLineTiming l) = ln_Cue l"
  by (simp_all add: normalizeLineTiming_def split: prod.split)

lemma normalizeLineTiming_bounds:
  "(case ln_Start l of None \<Rightarrow> True | Some s \<Rightarrow> ln_Start (normalizeLineTiming l) = Some s)"
  "(case ln_End l of None \<Rightarrow> True | Some e \<Rightarrow> ln_End (normalizeLineTiming l) = Some e)"
  by (auto simp: normalizeLineTiming_def split: prod.split option.split)

lemma normalizeCueLine_ok: "timing_ok l (normalizeCueLine l fb)"
proof (cases "ln_Cue l = []")
  case True
  then show ?thesis by (simp add: timing_ok_def normalizeCueLine_def split: option.split)
next
  case False
  let ?l = "l\<lparr>ln_Cue := normalizeCueEndsByAgent (ln_Cue l) fb\<rparr>"
  have "voice_ok (filter (\<lambda>c. cue_AgentID c = a) (normalizeCueEndsByAgent (ln_Cue l) fb))" for a
    unfolding byAgent_groups using NormalizeCueEnds_ok [of "filter (\<lambda>c. cue_AgentID c = a) (ln_Cue l)" fb]
    by (auto simp: voice_ok_def list_all_iff)
  then show ?thesis
    using False normalizeLineTiming_bounds [of ?l] by (simp add: timing_ok_def normalizeCueLine_def byAgent_groups(1) list_all_iff)
qed

lemma normalizeCueLines_ok: "list_all2 timing_ok ls (normalizeCueLines ls)"
  by (induction ls) (auto intro: normalizeCueLine_ok)

section \<open>Words in a line\<close>

definition cue_in :: "string \<Rightarrow> Cue \<Rightarrow> bool" where
  "cue_in v c \<longleftrightarrow> 0 \<le> cue_ByteStart c \<and> cue_ByteStart c \<le> cue_ByteEnd c \<and> cue_ByteEnd c < int (length v) \<and>
     cue_Value c = substring (nat (cue_ByteStart c)) (nat (cue_ByteEnd c) + 1) v"

lemma cue_in_erase: "cue_in v (erase_end c) = cue_in v c"
  by (simp add: cue_in_def erase_end_def)

lemma TrimSpace_substring:
  assumes "l = length s - length (dropWhile is_space s)" "r = length s - length (rev (dropWhile is_space (rev s)))"
  shows "TrimSpace s = substring l (max (length s - r) l) s"
proof (cases "dropWhile is_space s")
  case Nil
  then have "\<forall>c\<in>set s. is_space c" by simp
  then have "dropWhile is_space (rev s) = []" by simp
  then show ?thesis unfolding TrimSpace_def assms Nil substring_def by (simp only: list.size rev.simps dropWhile.simps) simp
next
  case (Cons x t)
  let ?a = "takeWhile is_space s" and ?d = "rev (dropWhile is_space (rev (x # t)))"
  have s: "s = ?a @ x # t" using takeWhile_dropWhile_id [of is_space s] Cons by simp
  have x: "\<not> is_space x" using Cons by (simp add: dropWhile_eq_Cons_conv)
  have "dropWhile is_space (rev s) = dropWhile is_space (rev (x # t)) @ rev ?a"
    by (subst s, simp only: rev_append, rule dropWhile_append1 [of x]) (use x in auto)
  then have right: "rev (dropWhile is_space (rev s)) = ?a @ ?d" by simp
  have d: "x # t = ?d @ rev (takeWhile is_space (rev (x # t)))"
    by (metis rev_append rev_rev_ident takeWhile_dropWhile_id)
  have len: "length s = length ?a + length (x # t)" by (subst s) simp
  have "length ?d \<le> length (x # t)" by (metis d length_append le_add1)
  then have "length s - r = length ?a + length ?d" unfolding assms(2) right using len by simp
  moreover have "l = length ?a" unfolding assms(1) Cons using len by simp
  moreover have "drop (length ?a) s = x # t" by (metis Cons dropWhile_eq_drop)
  moreover have "take (length ?d) (x # t) = ?d" by (subst d) simp
  ultimately have "substring l (max (length s - r) l) s = ?d" by (simp add: substring_def)
  then show ?thesis by (simp add: TrimSpace_def Cons)
qed

lemma substring_substring:
  assumes "l \<le> a" "a \<le> b" "b \<le> e"
  shows "substring a b s = substring (a - l) (b - l) (substring l e s)"
proof -
  have "drop (a - l) (take (e - l) (drop l s)) = take (e - a) (drop a s)"
    using assms by (simp add: drop_take add.commute)
  then show ?thesis using assms by (simp add: substring_def min_def)
qed

lemma line_segments_bounds:
  assumes "line_segments s ms raw segs = (raw', segs', tr)" "\<forall>g\<in>set segs. sg_rawEnd g \<le> length raw"
  shows "\<forall>g\<in>set segs'. sg_rawEnd g \<le> length raw'"
  using assms
proof (induction s ms raw segs rule: line_segments.induct)
  case (2 s m ms rawValue segs)
  then show ?case by (auto simp: Let_def split: option.splits if_splits) (smt (verit) le_add1 le_trans)+
qed auto

lemma segment_cue_in:
  assumes "c \<in> set (segment_cue raw l e g)" "sg_rawEnd g \<le> length raw" "e \<le> length raw" "l \<le> e"
  shows "cue_in (substring l e raw) c"
proof -
  let ?a = "max (sg_rawStart g) l" and ?b = "min (sg_rawEnd g) e"
  have ab: "?a < ?b" and c: "c = \<lparr>cue_Start = Some (sg_start g), cue_End = None, cue_Value = substring ?a ?b raw,
      cue_ByteStart = int ?a - int l, cue_ByteEnd = int ?b - int l - 1, cue_AgentID = []\<rparr>"
    using assms(1) by (auto simp: segment_cue_def Let_def split: if_splits)
  have "nat (int ?a - int l) = ?a - l" "nat (int ?b - int l - 1) + 1 = ?b - l" using ab by linarith+
  moreover have "substring ?a ?b raw = substring (?a - l) (?b - l) (substring l e raw)" by (rule substring_substring) (use ab in auto)
  moreover have "int (length (substring l e raw)) = int e - int l"
    using assms(3,4) by (simp add: substring_def min_absorb2 diff_le_mono of_nat_diff)
  moreover have "0 \<le> int ?a - int l" "int ?a - int l \<le> int ?b - int l - 1" "int ?b - int l - 1 < int e - int l" using ab by linarith+
  ultimately show ?thesis unfolding c cue_in_def Cue.select_convs by metis
qed

lemma end_last_erase: "map erase_end (end_last t cs) = map erase_end cs"
proof (cases "cs = []")
  case False
  then have "map erase_end (butlast cs) @ [erase_end (last cs)] = map erase_end cs"
    by (metis append_butlast_last_id list.simps(8,9) map_append)
  then show ?thesis using False by (simp add: end_last_def split: option.split)
qed (simp add: end_last_def split: option.split)

lemma cues_in_erase: "map erase_end cs = map erase_end ds \<Longrightarrow> list_all (cue_in v) cs = list_all (cue_in v) ds"
  by (metis (no_types, lifting) cue_in_erase list_all_length length_map nth_map)

lemma parseEnhancedLine_in:
  assumes "parseEnhancedLine s = (v, cues)"
  shows "list_all (cue_in v) cues"
proof -
  let ?ms = "find_times (CHR ''<'') (CHR ''>'') 0 s"
  obtain raw segs tr where seg: "line_segments s ?ms [] [] = (raw, segs, tr)" by (metis prod_cases3)
  show ?thesis
  proof (cases "?ms = [] \<or> segs = []")
    case True
    then show ?thesis using assms by (cases "?ms = []") (simp_all add: parseEnhancedLine_def Let_def seg)
  next
    case False
    let ?l = "length raw - length (dropWhile is_space raw)"
    let ?r = "length raw - length (rev (dropWhile is_space (rev raw)))"
    let ?e = "max (length raw - ?r) ?l"
    have v: "v = substring ?l ?e raw" and cues: "cues = end_last tr (concat (map (segment_cue raw ?l ?e) segs))"
      using assms seg False TrimSpace_substring [OF refl refl, of raw] by (auto simp: parseEnhancedLine_def Let_def)
    have "\<forall>g\<in>set segs. sg_rawEnd g \<le> length raw" using line_segments_bounds [OF seg] by simp
    then have "list_all (cue_in v) (concat (map (segment_cue raw ?l ?e) segs))"
      unfolding v list_all_iff by (auto intro!: segment_cue_in)
    then show ?thesis unfolding cues using cues_in_erase [OF end_last_erase] by blast
  qed
qed

section \<open>Time marks always have a time\<close>

lemma short_digits_value:
  "list_all is_digit d \<Longrightarrow> 0 \<le> acc \<Longrightarrow> \<exists>v. digits_value acc d = Some v \<and> 0 \<le> v \<and> v < (acc + 1) * 10 ^ length d"
proof (induction d arbitrary: acc)
  case (Cons c d)
  let ?a = "10 * acc + (int (byte c) - 48)"
  have a: "0 \<le> ?a" "?a + 1 \<le> 10 * (acc + 1)" using Cons.prems by (auto simp: is_digit_def)
  from Cons.IH [of ?a] Cons.prems a obtain v where v: "digits_value ?a d = Some v" "0 \<le> v" "v < (?a + 1) * 10 ^ length d" by auto
  have "(?a + 1) * 10 ^ length d \<le> 10 * (acc + 1) * 10 ^ length d" by (rule mult_right_mono [OF a(2)]) simp
  also have "10 * (acc + 1) * 10 ^ length d = (acc + 1) * 10 ^ length (c # d)" by simp
  finally have "v < (acc + 1) * 10 ^ length (c # d)" using v(3) by linarith
  then show ?case using v(1,2) Cons.prems(1) by (intro exI [of _ v]) simp
qed simp

lemma Atoi_digits:
  assumes "list_all is_digit d" "d \<noteq> []" "length d \<le> 3"
  shows "\<exists>v. Atoi d = Some v"
proof -
  obtain v where v: "digits_value 0 d = Some v" "0 \<le> v" "v < 1 * 10 ^ length d" using short_digits_value [OF assms(1), of 0] by auto
  have "(10::int) ^ length d \<le> 10 ^ 3" by (rule power_increasing [OF assms(3)]) simp
  then have "in_int64 v" using v by (simp add: in_int64_def int64_min_def int64_max_def)
  moreover obtain c cs where d: "d = c # cs" using assms(2) by (cases d) auto
  moreover have "c \<noteq> CHR ''-''" "c \<noteq> CHR ''+''" using assms(1) d by (auto simp: is_digit_def byte_def)
  ultimately show ?thesis using v by (simp add: Atoi_def parse_digits_def)
qed

lemma take_digits_digits: "take_digits lo hi s = Some (d, r) \<Longrightarrow> list_all is_digit d \<and> lo \<le> length d \<and> length d \<le> hi"
  by (auto simp: take_digits_def Let_def list_all_iff split: if_splits dest: set_takeWhileD)

lemma digits_colon_digits: "digits_colon s = Some (d, r) \<Longrightarrow> list_all is_digit d \<and> 1 \<le> length d \<and> length d \<le> 2"
  by (auto simp: digits_colon_def split: option.splits list.splits if_splits dest!: take_digits_digits)

lemma time_tail_digits: "time_tail close s = Some (Some d, r) \<Longrightarrow> list_all is_digit d \<and> 1 \<le> length d \<and> length d \<le> 3"
  by (auto simp: time_tail_def split: option.splits list.splits if_splits dest!: take_digits_digits)

definition groups_ok :: "time_groups \<Rightarrow> bool" where
  "groups_ok g \<longleftrightarrow> (\<forall>d\<in>{tg_minutes g, tg_seconds g} \<union> set_option (tg_hours g) \<union> set_option (tg_millis g).
     list_all is_digit d \<and> d \<noteq> [] \<and> length d \<le> 3)"

lemma time_body_groups: "time_body close s = Some (g, r) \<Longrightarrow> groups_ok g"
  by (auto simp: time_body_def groups_ok_def split: option.splits dest!: digits_colon_digits take_digits_digits time_tail_digits)

lemma parseTime_total: "groups_ok g \<Longrightarrow> \<exists>t. parseTime g = Some t"
proof -
  assume g: "groups_ok g"
  have one: "\<exists>v. Atoi d = Some v" if "d \<in> {tg_minutes g, tg_seconds g} \<union> set_option (tg_hours g) \<union> set_option (tg_millis g)" for d
    using that g Atoi_digits unfolding groups_ok_def by blast
  have "\<exists>v. (case tg_hours g of None \<Rightarrow> Some 0 | Some h \<Rightarrow> Atoi h) = Some v" using one by (cases "tg_hours g") auto
  moreover have "\<exists>v. (case tg_millis g of None \<Rightarrow> Some 0 | Some d \<Rightarrow> scaled_millis d) = Some v"
    using one by (cases "tg_millis g") (auto simp: scaled_millis_def)
  ultimately show ?thesis using one [of "tg_minutes g"] one [of "tg_seconds g"] by (auto simp: parseTime_def)
qed

lemma find_times_groups: "m \<in> set (find_times opn close pos s) \<Longrightarrow> groups_ok (tm_groups m)"
  by (induction opn close pos s rule: find_times.induct) (auto simp: Let_def split: option.splits if_splits dest: time_body_groups)

section \<open>LRC lines\<close>

definition words_in :: "Line \<Rightarrow> bool" where
  "words_in l \<longleftrightarrow> list_all (cue_in (ln_Value l)) (ln_Cue l)"

lemma timing_words: "timing_ok l l' \<Longrightarrow> words_in l' = words_in l"
  unfolding timing_ok_def words_in_def using cues_in_erase by metis

lemma shift_in: "list_all (cue_in v) cues \<Longrightarrow> list_all (cue_in v) (shiftELRCCues cues d)"
  by (auto simp: shiftELRCCues_def list_all_iff cue_in_def)

lemma flush_line_words:
  assumes "list_all words_in (ls_structuredLines s)"
  shows "list_all words_in (ls_structuredLines (flush_line s))"
proof -
  obtain v cues where p: "parseEnhancedLine (ls_priorLine s) = (v, cues)" by fastforce
  have "words_in \<lparr>ln_Start = Some t, ln_End = None, ln_Value = v, ln_Cue = shiftELRCCues cues d\<rparr>" for t d
    using shift_in [OF parseEnhancedLine_in [OF p]] by (simp add: words_in_def)
  then show ?thesis using assms by (auto simp: flush_line_def p list_all_iff)
qed

lemma leading_times_total: "\<forall>m\<in>set ms. groups_ok (tm_groups m) \<Longrightarrow> \<exists>e' ts. leading_times line e ms = Some (e', ts)"
proof (induction line e ms rule: leading_times.induct)
  case (2 line e m ms)
  obtain t where "parseTime (tm_groups m) = Some t" using parseTime_total [of "tm_groups m"] "2.prems" by auto
  then show ?case using 2 by auto
qed simp

lemma lrc_line_words:
  assumes "list_all words_in (ls_structuredLines s)"
  shows "\<exists>s'. lrc_line sanitize synced l s = Some s' \<and> list_all words_in (ls_structuredLines s')"
proof -
  let ?line = "TrimSpace l"
  let ?times = "find_times (CHR ''['') (CHR '']'') 0 ?line"
  obtain e ts where lead: "leading_times ?line 0 ?times = Some (e, ts)"
    using leading_times_total [of ?times ?line 0] find_times_groups by blast
  have tag: "ls_structuredLines (lrc_tag sanitize t s) = ls_structuredLines s" for t
    by (simp add: lrc_tag_def split: prod.split option.split)
  show ?thesis
    using assms flush_line_words [of s] flush_line_words [of "s\<lparr>ls_repeated := True\<rparr>"]
    by (auto simp: lrc_line_def Let_def lead tag words_in_def split: option.split)
qed

lemma lrc_lines_words:
  "list_all words_in (ls_structuredLines s) \<Longrightarrow> \<exists>s'. lrc_lines sanitize synced ls s = Some s' \<and> list_all words_in (ls_structuredLines s')"
proof (induction ls arbitrary: s)
  case (Cons l ls)
  then show ?case using lrc_line_words [OF Cons.prems, of sanitize synced l] by auto
qed simp

lemma normalizeCueLines_words: "list_all words_in ls \<Longrightarrow> list_all words_in (normalizeCueLines ls)"
  using normalizeCueLines_ok [of ls] timing_words
  by (metis (no_types, lifting) list_all2_conv_all_nth list_all_length)

section \<open>A document that is read back\<close>

definition digit_char :: "nat \<Rightarrow> char" where "digit_char n = char_of (48 + n mod 10)"
definition two_digits :: "nat \<Rightarrow> string" where "two_digits n = [digit_char (n div 10), digit_char n]"
definition three_digits :: "nat \<Rightarrow> string" where "three_digits n = [digit_char (n div 100), digit_char (n div 10), digit_char n]"

text \<open>A line of a document: \<open>[mm:ss.mmm]\<close> and the text.\<close>

definition lrc_mark :: "nat \<Rightarrow> string" where
  "lrc_mark t = two_digits (t div 60000) @ '':'' @ two_digits (t div 1000 mod 60) @ ''.'' @ three_digits (t mod 1000) @ '']''"

definition lrc_print :: "nat \<times> string \<Rightarrow> string" where
  "lrc_print x = ''['' @ lrc_mark (fst x) @ snd x"

definition plain_text :: "string \<Rightarrow> bool" where
  "plain_text w \<longleftrightarrow> TrimSpace w = w \<and> list_all (\<lambda>c. c \<noteq> LF \<and> c \<noteq> CHR ''['' \<and> c \<noteq> CHR ''<'') w"

definition printable :: "nat \<times> string \<Rightarrow> bool" where
  "printable x \<longleftrightarrow> fst x < 6000000 \<and> plain_text (snd x)"

lemma digit_char_byte [simp]: "byte (digit_char n) = 48 + n mod 10"
proof -
  have "n mod 10 < 10" by simp
  then have "48 + n mod 10 < 256" by linarith
  then show ?thesis unfolding digit_char_def byte_def of_char_of by (simp del: add_less_cancel_left)
qed

lemma digit_char_digit [simp]: "is_digit (digit_char n)"
proof -
  have "n mod 10 < 10" by simp
  then show ?thesis unfolding is_digit_def digit_char_byte by linarith
qed

lemma not_digit_char [simp]: "\<not> is_digit c \<Longrightarrow> digit_char n \<noteq> c" "\<not> is_digit c \<Longrightarrow> c \<noteq> digit_char n"
  using digit_char_digit by metis+

lemma mark_not_digit [simp]: "\<not> is_digit (CHR '':'')" "\<not> is_digit (CHR ''.'')" "\<not> is_digit (CHR '']'')" "\<not> is_digit (CHR ''['')"
  "\<not> is_digit (CHR ''-'')" "\<not> is_digit (CHR ''+'')" "\<not> is_digit LF" "\<not> is_digit (CHR ''a'')" "\<not> is_digit (CHR ''t'')"
  "\<not> is_digit (CHR ''o'')" "\<not> is_digit (CHR ''l'')"
  by (simp_all add: is_digit_def byte_def LF_def)

lemma time_body_mark:
  "time_body (CHR '']'') (lrc_mark t @ r) =
     Some (\<lparr>tg_hours = None, tg_minutes = two_digits (t div 60000), tg_seconds = two_digits (t div 1000 mod 60),
            tg_millis = Some (three_digits (t mod 1000))\<rparr>, r)"
  by (simp add: lrc_mark_def two_digits_def three_digits_def time_body_def digits_colon_def take_digits_def time_tail_def)

lemma digits_value_digit: "digits_value (int a) (digit_char b # cs) = digits_value (int (10 * a + b mod 10)) cs"
proof -
  have "10 * int a + (int (byte (digit_char b)) - 48) = int (10 * a + b mod 10)" unfolding digit_char_byte by simp
  then show ?thesis by (simp only: digits_value.simps digit_char_digit if_True)
qed

lemma Atoi_digit_chars:
  assumes "digits_value (int 0) (digit_char b # cs) = Some (int n)" "n < 1000"
  shows "Atoi (digit_char b # cs) = Some (int n)"
proof -
  have "in_int64 (int n)" using assms(2) by (simp add: in_int64_def int64_min_def int64_max_def)
  then show ?thesis using assms(1) by (simp add: Atoi_def parse_digits_def del: digits_value.simps)
qed

lemma Atoi_two:
  assumes "n < 100"
  shows "Atoi (two_digits n) = Some (int n)"
proof -
  have "n div 10 < 10" using assms by (simp add: less_mult_imp_div_less)
  then have "10 * (10 * 0 + n div 10 mod 10) + n mod 10 = n" by simp
  moreover have "n < 1000" using assms by linarith
  ultimately show ?thesis unfolding two_digits_def
    by (intro Atoi_digit_chars) (simp_all only: digits_value_digit digits_value.simps(1))
qed

lemma Atoi_three:
  assumes "n < 1000"
  shows "Atoi (three_digits n) = Some (int n)"
proof -
  have "n div 100 < 10" using assms by (simp add: less_mult_imp_div_less)
  moreover have "n div 100 = n div 10 div 10" by (simp add: div_mult2_eq)
  ultimately have "10 * (10 * 0 + n div 100 mod 10) + n div 10 mod 10 = n div 10" by simp
  then have "10 * (10 * (10 * 0 + n div 100 mod 10) + n div 10 mod 10) + n mod 10 = n" by (metis mult_div_mod_eq)
  then show ?thesis unfolding three_digits_def
    by (intro Atoi_digit_chars) (use assms in \<open>simp_all only: digits_value_digit digits_value.simps(1)\<close>)
qed

lemma parseTime_mark:
  assumes "t < 6000000"
  shows "parseTime \<lparr>tg_hours = None, tg_minutes = two_digits (t div 60000), tg_seconds = two_digits (t div 1000 mod 60),
           tg_millis = Some (three_digits (t mod 1000))\<rparr> = Some (int t)"
proof -
  define m sec ms where "m = t div 60000" and "sec = t div 1000 mod 60" and "ms = t mod 1000"
  have small: "m < 100" "sec < 100" "ms < 1000" unfolding m_def sec_def ms_def using assms by auto
  have "t div 60000 = t div 1000 div 60" by (simp add: div_mult2_eq)
  then have "m * 60 + sec = t div 1000" unfolding m_def sec_def by (metis div_mult_mod_eq)
  then have "(m * 60 + sec) * 1000 + ms = t" unfolding ms_def by (metis div_mult_mod_eq)
  then have t: "int t = ((0 * 60 + int m) * 60 + int sec) * 1000 + int ms" by auto
  have "length (three_digits ms) = 3" by (simp add: three_digits_def)
  then have "scaled_millis (three_digits ms) = Some (int ms)" by (simp add: scaled_millis_def Atoi_three small)
  then show ?thesis unfolding m_def [symmetric] sec_def [symmetric] ms_def [symmetric] t
    by (simp add: parseTime_def Atoi_two small)
qed

lemma find_times_none: "opn \<notin> set s \<Longrightarrow> find_times opn close pos s = []"
  by (induction s arbitrary: pos) auto

lemma lrc_id_none: "CHR ''['' \<notin> set s \<Longrightarrow> lrc_id s = None"
  by (induction s) (auto simp: Let_def)

lemma dropWhile_hd: "s \<noteq> [] \<Longrightarrow> \<not> P (hd s) \<Longrightarrow> dropWhile P s = s"
  by (cases s) auto

lemma TrimSpace_ends: "s \<noteq> [] \<Longrightarrow> \<not> is_space (hd s) \<Longrightarrow> \<not> is_space (last s) \<Longrightarrow> TrimSpace s = s"
  by (simp add: TrimSpace_def dropWhile_hd hd_rev)

lemma TrimSpace_last:
  assumes "TrimSpace w = w" "w \<noteq> []"
  shows "\<not> is_space (last w)"
proof -
  have "w = rev (dropWhile is_space (rev (dropWhile is_space w)))" using assms(1) by (simp add: TrimSpace_def)
  then have "rev w = dropWhile is_space (rev (dropWhile is_space w))" by (metis rev_swap)
  moreover from this have "dropWhile is_space (rev (dropWhile is_space w)) \<noteq> []" using assms(2) by (metis rev_is_Nil_conv)
  ultimately show ?thesis using hd_dropWhile [of is_space] assms(2) by (metis hd_rev)
qed

lemma print_trimmed: "plain_text (snd x) \<Longrightarrow> TrimSpace (lrc_print x) = lrc_print x"
proof (rule TrimSpace_ends)
  assume "plain_text (snd x)"
  then have "snd x \<noteq> [] \<Longrightarrow> \<not> is_space (last (snd x))" using TrimSpace_last by (simp add: plain_text_def)
  then show "\<not> is_space (last (lrc_print x))" by (cases "snd x = []") (simp_all add: lrc_print_def lrc_mark_def is_space_def)
qed (simp_all add: lrc_print_def is_space_def)

lemma print_set:
  assumes "plain_text (snd x)"
  shows "CHR ''['' \<notin> set (lrc_mark (fst x) @ snd x) \<and> LF \<notin> set (lrc_print x)"
proof -
  have "CHR ''['' \<notin> set (snd x)" "LF \<notin> set (snd x)" using assms by (simp_all only: plain_text_def list_all_iff) blast+
  moreover have "CHR ''['' \<notin> set (lrc_mark (fst x))" by (simp add: lrc_mark_def two_digits_def three_digits_def)
  moreover have "LF \<notin> set (lrc_mark (fst x))" by (simp add: lrc_mark_def two_digits_def three_digits_def) (simp add: LF_def)
  moreover have "LF \<noteq> CHR ''[''" by (simp add: LF_def)
  ultimately show ?thesis by (simp add: lrc_print_def)
qed

lemma print_times:
  assumes "plain_text (snd x)"
  shows "find_times (CHR ''['') (CHR '']'') 0 (lrc_print x) =
     [\<lparr>tm_start = 0, tm_end = 1 + length (lrc_mark (fst x)),
       tm_groups = \<lparr>tg_hours = None, tg_minutes = two_digits (fst x div 60000), tg_seconds = two_digits (fst x div 1000 mod 60),
         tg_millis = Some (three_digits (fst x mod 1000))\<rparr>\<rparr>]"
  using print_set [OF assms] by (simp add: lrc_print_def time_body_mark find_times_none)

lemma print_id:
  assumes "plain_text (snd x)"
  shows "lrc_id (lrc_print x) = None"
proof -
  let ?r = "lrc_mark (fst x) @ snd x"
  have r: "?r = digit_char (fst x div 60000 div 10) # tl ?r" by (simp add: lrc_mark_def two_digits_def)
  have "lrc_id ?r = None" by (rule lrc_id_none) (use print_set [OF assms] in simp)
  moreover have "\<not> HasPrefix ?r (''ar'' @ '':'')" "\<not> HasPrefix ?r (''ti'' @ '':'')" "\<not> HasPrefix ?r (''offset'' @ '':'')"
    "\<not> HasPrefix ?r (''lang'' @ '':'')"
    by (subst r, simp add: HasPrefix_def)+
  ultimately show ?thesis unfolding lrc_print_def append_Cons append_Nil lrc_id.simps(2) Let_def by (simp only: find.simps simp_thms if_False option.case append_Cons append_Nil)
qed

definition after_print :: "lrc_state \<Rightarrow> nat \<times> string \<Rightarrow> lrc_state" where
  "after_print s x = (flush_line s)\<lparr>ls_timestamps := [int (fst x)], ls_priorLine := snd x, ls_validLine := True\<rparr>"

lemma lrc_line_print:
  assumes "printable x"
  shows "lrc_line sanitize True (lrc_print x) s = Some (after_print s x)"
proof -
  have x: "plain_text (snd x)" "fst x < 6000000" and w: "TrimSpace (snd x) = snd x" using assms by (auto simp: printable_def plain_text_def)
  have e: "drop (1 + length (lrc_mark (fst x))) (lrc_print x) = snd x" by (simp add: lrc_print_def)
  have l: "length (lrc_print x) = 1 + length (lrc_mark (fst x)) + length (snd x)" by (simp add: lrc_print_def)
  have "lrc_print x \<noteq> []" by (simp add: lrc_print_def)
  then show ?thesis
    using e l by (auto simp: lrc_line_def Let_def print_trimmed x print_id print_times parseTime_mark w after_print_def)
qed

lemma parseEnhancedLine_plain:
  assumes "plain_text w"
  shows "parseEnhancedLine w = (w, [])"
proof -
  have "CHR ''<'' \<notin> set w" "TrimSpace w = w" using assms by (simp_all only: plain_text_def list_all_iff) blast
  then show ?thesis by (simp add: parseEnhancedLine_def find_times_none)
qed

definition read_line :: "nat \<times> string \<Rightarrow> Line" where
  "read_line x = \<lparr>ln_Start = Some (int (fst x)), ln_End = None, ln_Value = snd x, ln_Cue = []\<rparr>"

lemma lrc_lines_print:
  assumes "list_all printable xs" "ls_validLine s" "ls_timestamps s = [int t]" "plain_text (ls_priorLine s)"
  shows "\<exists>s'. lrc_lines sanitize True (map lrc_print xs) s = Some s' \<and>
    flush_line s' = s'\<lparr>ls_structuredLines := ls_structuredLines s @ map read_line ((t, ls_priorLine s) # xs), ls_timestamps := []\<rparr> \<and>
    ls_artist s' = ls_artist s \<and> ls_title s' = ls_title s \<and> ls_language s' = ls_language s \<and> ls_offset s' = ls_offset s \<and> ls_repeated s' = ls_repeated s"
  using assms
proof (induction xs arbitrary: s t)
  case Nil
  then show ?case by (simp add: flush_line_def parseEnhancedLine_plain read_line_def shiftELRCCues_def)
next
  case (Cons x xs)
  let ?s = "after_print s x"
  have fl: "flush_line s = s\<lparr>ls_structuredLines := ls_structuredLines s @ [read_line (t, ls_priorLine s)], ls_timestamps := []\<rparr>"
    using Cons.prems by (simp add: flush_line_def parseEnhancedLine_plain read_line_def shiftELRCCues_def)
  have x: "printable x" "list_all printable xs" using Cons.prems(1) by auto
  then have px: "plain_text (snd x)" by (simp add: printable_def)
  have st: "ls_validLine ?s" "ls_timestamps ?s = [int (fst x)]" "plain_text (ls_priorLine ?s)" "ls_priorLine ?s = snd x"
    "ls_structuredLines ?s = ls_structuredLines s @ [read_line (t, ls_priorLine s)]"
    "ls_artist ?s = ls_artist s" "ls_title ?s = ls_title s" "ls_language ?s = ls_language s" "ls_offset ?s = ls_offset s" "ls_repeated ?s = ls_repeated s"
    using px by (simp_all add: after_print_def fl)
  from Cons.IH [OF x(2) st(1,2,3)] show ?case by (simp add: st(4-) lrc_line_print [OF x(1)])
qed

lemma normalizeCueLines_plain: "list_all (\<lambda>l. ln_Cue l = []) ls \<Longrightarrow> normalizeCueLines ls = ls"
  by (induction ls) (simp_all add: normalizeCueLine_def)

lemma split_on_Join: "list_all (\<lambda>w. d \<notin> set w) ws \<Longrightarrow> ws \<noteq> [] \<Longrightarrow> split_on d (Join ws [d]) = ws"
  by (induction ws "[d]" rule: Join.induct) (simp_all add: split_on_no split_on_append)

text \<open>What is before the first word mark of an enhanced line is lost.\<close>

lemma text_before_words_lost: "parseEnhancedLine ''Hello <00:11.00>world'' =
   (''world'', [\<lparr>cue_Start = Some 11000, cue_End = None, cue_Value = ''world'', cue_ByteStart = 0, cue_ByteEnd = 4, cue_AgentID = []\<rparr>])"
  by code_simp

text \<open>A tag is found anywhere in a line: a lyric that quotes one is not sung but read as the title.\<close>

lemma quoted_tag_taken: "lrc_id ''[00:01.00]press [ti:x] now'' = Some (''ti'', ''x'')"
  by code_simp

definition sorts_by_start :: "(Line list \<Rightarrow> Line list) \<Rightarrow> bool" where
  "sorts_by_start f \<longleftrightarrow> (\<forall>ls. mset (f ls) = mset ls \<and> sorted (map (\<lambda>l. the (ln_Start l)) (f ls)))"

lemma sorts_by_start_sort_key: "sorts_by_start (sort_key (\<lambda>l. the (ln_Start l)))"
  by (simp add: sorts_by_start_def)

section \<open>Properties\<close>

text \<open>
  C38. Word timings are consistent. Voices that share a line are normalised apart: the cues of a voice are
  what normalising them alone gives. After normalisation every line keeps its text, its words and the times
  it had, and for each voice in it either no word has an end, or every word has one, which is not before its
  start and not after the start of the next word of that voice.
\<close>

theorem cue_timing_consistent:
  "(\<forall>a. filter (\<lambda>c. cue_AgentID c = a) (normalizeCueEndsByAgent cues fallbackEnd) =
        NormalizeCueEnds (filter (\<lambda>c. cue_AgentID c = a) cues) fallbackEnd) \<and>
   list_all2 timing_ok ls (normalizeCueLines ls)"
  using byAgent_groups(2) normalizeCueLines_ok by blast

text \<open>
  C36. Any text at all is read as LRC without an error, and in every line read the byte range of each timed word lies
  inside the text of the line and holds exactly that word. The sanitizer may do anything; the sort returns the
  lines it is given, in the order of their times.
\<close>

theorem lrc_words_in_lines:
  assumes "sorts_by_start sort_by_start"
  shows "\<exists>ly. parseLRC sort_by_start sanitize language txt = Some ly \<and> list_all words_in (ly_Line ly)"
proof -
  let ?s = "\<lparr>ls_artist = [], ls_title = [], ls_language = language, ls_offset = None, ls_priorLine = [], ls_validLine = False,
    ls_repeated = False, ls_timestamps = [], ls_structuredLines = []\<rparr>"
  obtain s1 where s1: "lrc_lines sanitize (sync_text (sanitize txt)) (split_on LF (sanitize txt)) ?s = Some s1"
      "list_all words_in (ls_structuredLines s1)"
    using lrc_lines_words [of ?s] by fastforce
  let ?ls = "ls_structuredLines (flush_line s1)"
  have "list_all words_in ?ls" using flush_line_words [OF s1(2)] .
  moreover have "set (sort_by_start ?ls) = set ?ls" using assms unfolding sorts_by_start_def by (metis set_mset_mset)
  moreover from calculation have "list_all words_in (sort_by_start ?ls)" by (simp add: list_all_iff)
  ultimately show ?thesis using normalizeCueLines_words by (simp add: parseLRC_def Let_def s1(1))
qed

theorem lrc_words_in_lines_witness:
  "sorts_by_start (sort_key (\<lambda>l. the (ln_Start l))) \<and>
   (\<exists>ly. parseLRC (sort_key (\<lambda>l. the (ln_Start l))) id ''eng'' ''[00:03.00][00:01.00] <00:03.00>la <00:03.50>la'' = Some ly \<and> list_all words_in (ly_Line ly))"
  using lrc_words_in_lines [OF sorts_by_start_sort_key] sorts_by_start_sort_key by blast

text \<open>
  C37. Synchronised lyrics are read as they were written: a document with one line of the form \<open>[mm:ss.mmm]text\<close>
  per entry gives back these times and texts in order, marked as synchronised and in the requested language,
  if the texts are trimmed and free of line ends and of opening brackets and angle brackets, the times are below a hundred
  minutes, and the sanitizer has nothing to remove.
\<close>

theorem lrc_roundtrip:
  assumes "xs \<noteq> []" "list_all printable xs" "sanitize (Join (map lrc_print xs) [LF]) = Join (map lrc_print xs) [LF]"
  shows "parseLRC sort_by_start sanitize language (Join (map lrc_print xs) [LF]) =
    Some \<lparr>ly_DisplayArtist = [], ly_DisplayTitle = [], ly_Kind = [], ly_Lang = language, ly_Agents = [],
          ly_Line = map (\<lambda>x. \<lparr>ln_Start = Some (int (fst x)), ln_End = None, ln_Value = snd x, ln_Cue = []\<rparr>) xs,
          ly_Offset = None, ly_Synced = True\<rparr>"
proof -
  let ?doc = "Join (map lrc_print xs) [LF]"
  let ?s = "\<lparr>ls_artist = [], ls_title = [], ls_language = language, ls_offset = None, ls_priorLine = [], ls_validLine = False,
    ls_repeated = False, ls_timestamps = [], ls_structuredLines = []\<rparr>"
  obtain x ys where xs: "xs = x # ys" using assms(1) by (cases xs) auto
  have x: "printable x" "list_all printable ys" using assms(2) xs by auto
  obtain r where "?doc = lrc_print x @ r" using xs by (cases ys) auto
  then have sync: "sync_text ?doc" by (simp add: sync_text_def starts_timed_def lrc_print_def re_space_def time_body_mark)
  have doc_lines: "split_on LF ?doc = map lrc_print xs"
    by (rule split_on_Join) (use assms(1,2) print_set in \<open>auto simp: list_all_iff printable_def\<close>)
  let ?s1 = "after_print ?s x"
  have "ls_validLine ?s1" "ls_timestamps ?s1 = [int (fst x)]" "plain_text (ls_priorLine ?s1)"
    using x(1) by (simp_all add: after_print_def printable_def)
  from lrc_lines_print [OF x(2) this, of sanitize]
  obtain s' where s': "lrc_lines sanitize True (map lrc_print ys) ?s1 = Some s'"
    and fl: "flush_line s' = s'\<lparr>ls_structuredLines := map read_line xs, ls_timestamps := []\<rparr>"
    and rest: "ls_artist s' = []" "ls_title s' = []" "ls_language s' = language" "ls_offset s' = None" "\<not> ls_repeated s'"
    by (auto simp: after_print_def flush_line_def xs)
  have read: "lrc_lines sanitize True (map lrc_print xs) ?s = Some s'" by (simp add: xs lrc_line_print [OF x(1)] s')
  have keep: "normalizeCueLines (map read_line xs) = map read_line xs"
    by (rule normalizeCueLines_plain) (simp add: list_all_iff read_line_def)
  have "map read_line xs = map (\<lambda>x. \<lparr>ln_Start = Some (int (fst x)), ln_End = None, ln_Value = snd x, ln_Cue = []\<rparr>) xs"
    by (simp add: read_line_def)
  then show ?thesis using sync read fl rest keep by (simp add: parseLRC_def Let_def assms(3) doc_lines)
qed

theorem lrc_roundtrip_witness:
  "parseLRC id id ''eng'' (Join (map lrc_print [(1500, ''one''), (62030, [])]) [LF]) =
    Some \<lparr>ly_DisplayArtist = [], ly_DisplayTitle = [], ly_Kind = [], ly_Lang = ''eng'', ly_Agents = [],
          ly_Line = [\<lparr>ln_Start = Some 1500, ln_End = None, ln_Value = ''one'', ln_Cue = []\<rparr>,
                     \<lparr>ln_Start = Some 62030, ln_End = None, ln_Value = [], ln_Cue = []\<rparr>],
          ly_Offset = None, ly_Synced = True\<rparr>"
  using lrc_roundtrip [of "[(1500, ''one''), (62030, [])]" id id "''eng''"]
  by (simp add: printable_def plain_text_def TrimSpace_def is_space_def LF_def)

end
