(* ===== verification/Spec2Isabelle.thy ===== *)
theory Spec2Isabelle
  imports Stream_Decider_Correct Stream_Token Stream_MediaStreamer Subsonic_Transcode_Correct Server_Auth_Correct
    Public_Share Playback_Jukebox Utils_Slice Utils_Req
    Matcher_Correct Scrobbler_Buffer Scrobbler_PlayTracker Server_Throttle
    Media_Commands Utils_JsonComments Utils_Natural Model_ArtworkID Scheduler_Crontab Playlist_Tracks
    Criteria_Sql_Correct Playlist_Correct Playlist_Import_Correct Scanner_Missing_Correct
    Model_Lyrics_Correct
begin

text \<open>
  Bragi is a music server written in Go. Its endpoints (\<open>server/subsonic\<close>, \<open>server/nativeapi\<close>,
  \<open>server/public\<close>) authenticate a request and call services (\<open>core/\<close>) that decide, stream, play, match,
  count and edit; the services work on the model (\<open>model/\<close>) through repositories (\<open>persistence/\<close>), which the
  scanner (\<open>scanner/\<close>) keeps in step with the files on disk. This development models the services with
  logic of their own, and the endpoints and repositories around them where a guarantee crosses the border.

  A request for a stream passes through several parts: \<open>server/auth.go\<close> says who asks, the decider of
  \<open>core/stream\<close> compares the media file with what the client can play, the decision travels to the client as
  a signed token, comes back to \<open>server/subsonic/transcode.go\<close>, and \<open>media_streamer.go\<close> takes a slot of the
  limiter and asks the file cache for the transcode, which \<open>core/ffmpeg\<close> produces. What the client then
  reports goes to the play tracker, and from there to the buffered scrobbler. The jukebox plays on a device
  of the server instead. Playlists are lists of tracks that users edit or rules that the database evaluates;
  public shares hand out links to them.

  \<^bold>\<open>How the code is written in HOL.\<close> A struct is a record, whose fields carry a short prefix for the struct;
  an enumeration or interface with known implementations is a datatype; Go's \<open>int\<close> and \<open>int64\<close> are
  \<open>int\<close> with the wrap-around written out where it can happen (\<open>bpsToKbps\<close>, periods of rules, session life
  times), \<open>float32\<close> is its bits with the value given by \<open>Go_Float\<close>, a string is its bytes. An error result is
  the left side of a sum, a panic is an error value of its own, state is passed explicitly, and goroutines
  that share state are step relations. Failing database statements are decided by an argument that is asked
  before each statement, so a theorem that fixes nothing about it holds for every pattern of failures.
\<close>

section \<open>Theories and sources\<close>

text \<open>
  \<^bold>\<open>Foundations.\<close> \<open>Bragi_Prelude\<close> has the types, the collections of rules, the folding of ASCII case, sums
  and lists that all parts share, and the locale \<open>invariant_machine\<close> for step systems. \<open>Go_Strings\<close>, \<open>Go_Path\<close>
  and \<open>Go_Float\<close> are what the code uses of Go's \<open>strings\<close>, \<open>path/filepath\<close> and \<open>float32\<close>.

  \<^bold>\<open>Streaming\<close> (\<open>core/stream\<close>, \<open>utils/cache/file_caches.go\<close>, \<open>server/subsonic/transcode.go\<close>).
  \<^item> \<open>Model_MediaFile\<close>: the media file and its codec (\<open>model/mediafile.go\<close>).
  \<^item> \<open>Stream_Codec\<close>, \<open>Stream_Limitations\<close>, \<open>Stream_Decider\<close>: \<open>codec.go\<close>, \<open>aliases.go\<close>, \<open>limitations.go\<close>,
    \<open>decider.go\<close>, \<open>legacy_client.go\<close>. \<open>Stream_Decider_Correct\<close>: when a file is played directly, which profile is
    chosen otherwise, and the bounds a transcoded stream keeps.
  \<^item> \<open>Stream_Token\<close>: \<open>token.go\<close>, with the round trip of a decision through its token.
  \<^item> \<open>Stream_Limiter\<close>: \<open>limiter.go\<close>; its caps and the return of all slots, for any interleaving of requests.
  \<^item> \<open>File_Cache\<close> and \<open>Stream_MediaStreamer\<close>: \<open>file_caches.go\<close> and \<open>media_streamer.go\<close>; what a lookup returns
    and produces, which requests take a slot, when two jobs share a file.
  \<^item> \<open>Subsonic_Response\<close>, \<open>Subsonic_Transcode\<close>: \<open>responses/errors.go\<close>, \<open>transcode.go\<close>.
    \<open>Subsonic_Transcode_Correct\<close> composes the parts: the limit of a player from the request body to the stream.
  \<^item> \<open>Media_Commands\<close>, \<open>Utils_Shellquote\<close>: the argument vectors of \<open>core/ffmpeg\<close> and of mpv, and the splitting
    of command templates; a file's path is one argument whatever it contains.

  \<^bold>\<open>Who may do what.\<close> \<open>Auth_Claims\<close> (\<open>core/auth\<close>), \<open>Server_Auth\<close> (\<open>server/auth.go\<close>,
  \<open>server/subsonic/middlewares.go\<close>) and \<open>Server_Auth_Correct\<close>: a request acts as a user only with a credential
  of that user. \<open>Public_Share\<close> (\<open>core/share.go\<close>, \<open>server/public\<close>): a shared link opens only what the share has.
  \<open>Server_Throttle\<close> (\<open>server/throttle_backlog.go\<close>): how many requests run and wait at once. \<open>Utils_Req\<close>
  (\<open>utils/req\<close>): the parameters of a request.

  \<^bold>\<open>Playing.\<close> \<open>Playback_Queue\<close>, \<open>Playback_Device\<close> (\<open>core/playback\<close>) and \<open>Playback_Jukebox\<close>
  (\<open>server/subsonic/jukebox.go\<close>): the index invariant of the queue, no panic and no unclosed track in any
  sequence of requests and track ends. \<open>Scrobbler_PlayTracker\<close> and \<open>Scrobbler_Buffer\<close> (\<open>core/scrobbler\<close>): when a
  play counts, reports out of order, delivery in order and without a lost wake-up.

  \<^bold>\<open>Playlists.\<close>
  \<^item> \<open>Playlist_Tracks\<close>: the rows of \<open>playlist_tracks\<close>, statement by statement, as a refinement of lists.
  \<^item> \<open>Model_Playlist\<close>, \<open>Playlist_Store\<close>, \<open>Playlist_Service\<close>: \<open>model/playlist.go\<close>, the repositories
    (\<open>playlist_repository.go\<close>, \<open>playlist_track_repository.go\<close>, \<open>smart_playlist_repository.go\<close>) with transactions
    and failing statements, and \<open>core/playlists\<close> (\<open>playlists.go\<close>, \<open>rest_adapter.go\<close>).
  \<^item> \<open>Playlist_Invariants\<close> proves once what every request keeps; \<open>Playlist_Correct\<close>, \<open>Playlist_Update\<close> and
    \<open>Playlist_Refresh\<close> state it of the service: requests of a user leave other users' playlists alone, tables
    stay consistent, failed edits leave no trace, what an update does, when a refresh returns.
  \<^item> \<open>Model_Criteria\<close>, \<open>Model_Criteria_Correct\<close>: the rules of smart playlists and their JSON
    (\<open>model/criteria\<close>). \<open>Criteria_Sql\<close>, \<open>Criteria_Sql_Correct\<close>: their SQL (\<open>persistence/criteria_sql.go\<close>), which
    means what the rules say, names only registered things and reads only visible playlists.
  \<^item> \<open>Playlist_Import\<close>, \<open>Playlist_Import_Correct\<close>: the import of playlist files (\<open>parse_m3u.go\<close>, \<open>parse_nsp.go\<close>,
    \<open>import.go\<close>); its tracks are the files the lines name, in order, no path leads out of the libraries, and
    importing a file again keeps what the owner has set.

  \<^bold>\<open>Library.\<close> \<open>Scanner_Missing\<close> and \<open>Scanner_Missing_Correct\<close>: moved files
  (\<open>scanner/phase_2_missing_tracks.go\<close>). \<open>Matcher\<close> and \<open>Matcher_Correct\<close>: songs of agents to library tracks
  (\<open>core/matcher\<close>). \<open>Model_ArtworkID\<close>: ids of images (\<open>model/artwork_id.go\<close>). \<open>Model_Lyrics\<close> and
  \<open>Model_Lyrics_Correct\<close>: LRC and SRT lyrics, the timing of words and the choice of a parser (\<open>model/lyrics*.go\<close>);
  timings are consistent for every voice, words lie in their lines, and synchronised lines are read as written.

  \<^bold>\<open>Helpers.\<close> \<open>Utils_Slice\<close>, \<open>Utils_JsonComments\<close>, \<open>Utils_Natural\<close>, \<open>Utils_Duration\<close>, \<open>Scheduler_Crontab\<close>: the
  files of \<open>utils/\<close> and \<open>scheduler/\<close> of the same names.
\<close>

section \<open>Interfaces\<close>

text \<open>
  \<^item> \<open>invariant_machine\<close>: a step relation with an invariant that start and steps keep. Interpreted for the
    limiter, the throttle, the jukebox and the delivery loop of scrobbles; reachability facts come from it.
  \<^item> \<open>slot_limiter\<close>: what the streamer needs of a limiter, interpreted on \<open>Acquire\<close> and \<open>Release\<close>.
  \<^item> \<open>alias_table\<close>: groups of synonyms, interpreted on the tables of containers and of codecs.
  \<^item> \<open>track_store\<close>: a playlist as a list, interpreted on the rows of the table.
  \<^item> \<open>refresh_invariant\<close> and its extension \<open>playlist_invariant\<close>: a property of the tables that the statements
    of the repository keep is kept by every operation of the service. Interpreted for consistency of the
    tables, for what an ordinary user may not change, for the references between smart playlists, and for
    what an import keeps of a playlist.
\<close>

section \<open>Bounds, recursion and arguments\<close>

text \<open>
  Loops are structural recursion, or have a measure: the rest of the input in \<open>ReplaceAll\<close>, \<open>Fields\<close>,
  \<open>LinesFrom\<close>, \<open>find_times\<close>, \<open>split_blocks\<close>, \<open>Compare\<close>, \<open>duration_parts\<close>, \<open>expand_day_week\<close> and \<open>chunk\<close>, the rows left in \<open>processUserQueue\<close>.
  \<open>newId\<close> draws ids until one is free and is a partial function; it is shown to return when the generator
  comes to a fresh id. \<open>refreshSmartPlaylist\<close> calls itself with no guard: it has a bound on the depth of the
  stack, running out of it is the value for a stack overflow, and it is shown that when the references
  have no cycle a depth of the playlist's rank in them is enough. Numbers of the code are kept: chunks of 200
  rows and of 100 lines, batches of 350 ids, the position -999999 at which a move parks its track, so that moves are shown right for playlists of fewer
  than 999998 tracks.

  Code outside the repository is an argument, with its documented behaviour as a named hypothesis where a
  theorem needs it: the JWT library (\<open>jwt_ok\<close>: a signed token verifies to its claims until it expires, and
  no expired token verifies), fscache (\<open>fscache_ok\<close>), the comparisons of the SQL engine (\<open>engine_ok\<close>, \<open>row_ok\<close>),
  cron, the random and hash functions, Jaro-Winkler and the rounding of floats. Each property with such
  a hypothesis has a witness in which it holds for a concrete function.
\<close>

section \<open>Not modelled\<close>

text \<open>
  The SQL engine, the query builder and the migrations; routing, marshalling and the native API apart from
  the playlist adapter; the pipeline of images, whose work is decoding and remote sources; the clients of
  remote agents; the traversal of directories and the reading of tags; TTML and YAML lyrics; server sent
  events; configuration, commands and logging; processes and sockets; and the web and Android clients. Within the modelled parts, log lines and metrics are left out, and time is
  an argument.
\<close>

end
